(* ===== verification/Prelude.thy ===== *)
theory Prelude
  imports Complex_Main "HOL-Library.Char_ord" "HOL-Library.List_Lexorder"
begin

section \<open>Prelude: what the components share\<close>

text \<open>
  This theory holds what several components of Ferrum Nexus use: the collections of
  rewrite rules the component proofs draw on, sequential composition of fallible steps
  (a TypeScript function that may throw returns \<open>'e + 'a\<close>, \<open>Inl\<close> being the thrown value),
  the operations of JavaScript's \<open>String\<close> that the sources call, and JavaScript's
  insertion-ordered \<open>Map\<close> as an association list with distinct keys.

  A JavaScript string is modelled as a list of HOL characters, one per code unit; code
  units above 255 are outside the model (an em dash in a message text is written \<open>-\<close>).
\<close>

named_theorems step_simps \<open>defining equations of the step functions\<close>
named_theorems result_simps \<open>sequencing of fallible steps\<close>

subsection \<open>Fallible steps\<close>

text \<open>\<open>rbind m f\<close> runs \<open>f\<close> on the value of \<open>m\<close> and passes a thrown value on.\<close>

definition rbind :: "'e + 'a \<Rightarrow> ('a \<Rightarrow> 'e + 'b) \<Rightarrow> 'e + 'b" where
  "rbind m f = (case m of Inl e \<Rightarrow> Inl e | Inr a \<Rightarrow> f a)"

lemma rbind_Inl [simp, result_simps]: "rbind (Inl e) f = Inl e"
  by (simp add: rbind_def)

lemma rbind_Inr [simp, result_simps]: "rbind (Inr a) f = f a"
  by (simp add: rbind_def)

lemma rbind_eq_Inr [result_simps]: "rbind m f = Inr b \<longleftrightarrow> (\<exists>a. m = Inr a \<and> f a = Inr b)"
  by (cases m) auto

lemma rbind_eq_Inl [result_simps]:
  "rbind m f = Inl e \<longleftrightarrow> m = Inl e \<or> (\<exists>a. m = Inr a \<and> f a = Inl e)"
  by (cases m) auto

text \<open>\<open>guard b e\<close> is the early exit \<^verbatim>\<open>if (!b) throw e\<close>.\<close>

definition guard :: "bool \<Rightarrow> 'e \<Rightarrow> 'e + unit" where
  "guard b e = (if b then Inr () else Inl e)"

lemma guard_simps [simp, result_simps]:
  "guard True e = Inr ()" "guard False e = Inl e"
  by (simp_all add: guard_def)

lemma guard_eq_Inr [result_simps]: "guard b e = Inr u \<longleftrightarrow> b"
  by (simp add: guard_def)

lemma guard_eq_Inl [result_simps]: "guard b e = Inl e' \<longleftrightarrow> \<not> b \<and> e' = e"
  by (auto simp add: guard_def)

subsection \<open>Strings\<close>

text \<open>
  \<open>String.prototype.trim\<close> removes JavaScript white space and line terminators; below code
  unit 256 these are tab, line feed, vertical tab, form feed, carriage return, space and the
  no-break space.
\<close>

definition is_js_space :: "char \<Rightarrow> bool" where
  "is_js_space c \<longleftrightarrow> (of_char c :: nat) \<in> {9, 10, 11, 12, 13, 32, 160}"

definition js_trim_start :: "string \<Rightarrow> string" where
  "js_trim_start s = dropWhile is_js_space s"

definition js_trim_end :: "string \<Rightarrow> string" where
  "js_trim_end s = rev (dropWhile is_js_space (rev s))"

definition js_trim :: "string \<Rightarrow> string" where
  "js_trim s = js_trim_end (js_trim_start s)"

text \<open>\<open>toLowerCase\<close> below code unit 256: the ASCII capitals, and the Latin-1 capitals
  (192 to 222 without the multiplication sign 215), each 32 below its small letter.\<close>

definition js_lower_char :: "char \<Rightarrow> char" where
  "js_lower_char c = (let n = of_char c :: nat in
     if 65 \<le> n \<and> n \<le> 90 \<or> 192 \<le> n \<and> n \<le> 222 \<and> n \<noteq> 215 then char_of (n + 32) else c)"

definition js_lower :: "string \<Rightarrow> string" where
  "js_lower s = map js_lower_char s"

text \<open>\<open>index_from c s i\<close> is the first position of \<open>c\<close> in \<open>s\<close>, counted from \<open>i\<close>:
  \<open>String.prototype.indexOf\<close> with a one-character needle, \<open>None\<close> for \<open>-1\<close>.\<close>

fun index_of :: "char \<Rightarrow> string \<Rightarrow> nat option" where
  "index_of c [] = None"
| "index_of c (x # xs) = (if x = c then Some 0 else map_option Suc (index_of c xs))"

definition last_index_of :: "char \<Rightarrow> string \<Rightarrow> nat option" where
  "last_index_of c s = map_option (\<lambda>i. length s - 1 - i) (index_of c (rev s))"

text \<open>\<open>split_on c s\<close> is \<open>s.split(c)\<close>: the parts between occurrences of \<open>c\<close>, at least one.\<close>

fun split_on :: "char \<Rightarrow> string \<Rightarrow> string list" where
  "split_on c [] = [[]]"
| "split_on c (x # xs) =
     (if x = c then [] # split_on c xs
      else (case split_on c xs of [] \<Rightarrow> [[x]] | p # ps \<Rightarrow> (x # p) # ps))"

text \<open>Decimal text of a natural number, as a template literal prints an integer.\<close>

fun show_nat :: "nat \<Rightarrow> string" where
  "show_nat n = (if n < 10 then [char_of (48 + n)] else show_nat (n div 10) @ [char_of (48 + n mod 10)])"

declare show_nat.simps [simp del]

lemma index_of_None_iff: "index_of c s = None \<longleftrightarrow> c \<notin> set s"
  by (induction s) auto

lemma index_of_SomeD:
  "index_of c s = Some i \<Longrightarrow> i < length s \<and> s ! i = c \<and> c \<notin> set (take i s)"
proof (induction s arbitrary: i)
  case (Cons x xs)
  then show ?case by (cases i) (auto split: if_splits)
qed simp

lemma last_index_of_None_iff: "last_index_of c s = None \<longleftrightarrow> c \<notin> set s"
  by (simp add: last_index_of_def index_of_None_iff)

lemma last_index_of_SomeD:
  assumes "last_index_of c s = Some i"
  shows "i < length s \<and> s ! i = c \<and> c \<notin> set (drop (Suc i) s)"
proof -
  obtain j where j: "index_of c (rev s) = Some j" and i: "i = length s - 1 - j"
    using assms by (auto simp: last_index_of_def)
  from index_of_SomeD [OF j] have jl: "j < length s" and c: "rev s ! j = c"
    and nin: "c \<notin> set (take j (rev s))" by auto
  have si: "length s - j = Suc i" using jl i by simp
  then have "take j (rev s) = rev (drop (Suc i) s)" by (simp add: take_rev)
  with nin have "c \<notin> set (drop (Suc i) s)" by simp
  moreover have "s ! i = c" using c jl i by (simp add: rev_nth)
  ultimately show ?thesis using i jl by simp
qed

lemma split_on_ne [simp]: "split_on c s \<noteq> []"
  by (induction s) (auto split: list.splits)

lemma js_trim_end_idem: "js_trim_end (js_trim_end s) = js_trim_end s"
  by (simp add: js_trim_end_def)

lemma js_trim_prefix: "\<exists>a b. s = a @ js_trim s @ b"
proof -
  have e: "\<And>t. \<exists>b. t = js_trim_end t @ b"
  proof -
    fix t :: string
    have "t = rev (dropWhile is_js_space (rev t)) @ rev (takeWhile is_js_space (rev t))"
      by (metis rev_append rev_rev_ident takeWhile_dropWhile_id)
    then show "\<exists>b. t = js_trim_end t @ b" by (auto simp: js_trim_end_def)
  qed
  have "s = takeWhile is_js_space s @ js_trim_start s" by (simp add: js_trim_start_def)
  with e [of "js_trim_start s"] show ?thesis by (metis js_trim_def)
qed

lemma length_js_trim: "length (js_trim s) \<le> length s"
  using js_trim_prefix [of s] by (metis length_append le_add1 le_add2 le_trans)

lemma js_trim_id: "s \<noteq> [] \<Longrightarrow> \<not> is_js_space (hd s) \<Longrightarrow> \<not> is_js_space (last s) \<Longrightarrow> js_trim s = s"
  by (simp add: js_trim_def js_trim_start_def js_trim_end_def dropWhile_eq_self_iff [THEN iffD2] hd_rev)

lemma js_lower_char_idem: "js_lower_char (js_lower_char c) = js_lower_char c"
proof -
  have "of_char (char_of (of_char c + 32 :: nat)) = (of_char c + 32 :: nat)"
    if "of_char c \<le> (222 :: nat)" using that by simp
  then show ?thesis by (auto simp: js_lower_char_def Let_def)
qed

lemma js_lower_idem: "js_lower (js_lower s) = js_lower s"
  by (simp add: js_lower_def js_lower_char_idem)

lemma js_lower_char_space: "is_js_space (js_lower_char c) = is_js_space c"
proof -
  have "of_char (char_of (of_char c + 32 :: nat)) = (of_char c + 32 :: nat)"
    if "of_char c \<le> (222 :: nat)" using that by simp
  then show ?thesis by (auto simp: js_lower_char_def is_js_space_def Let_def)
qed

lemma dropWhile_map_space: "dropWhile is_js_space (map js_lower_char s) = map js_lower_char (dropWhile is_js_space s)"
  by (simp add: dropWhile_map comp_def js_lower_char_space)

lemma js_trim_lower: "js_trim (js_lower s) = js_lower (js_trim s)"
  by (simp add: js_trim_def js_trim_start_def js_trim_end_def js_lower_def dropWhile_map_space rev_map)

lemma hd_js_trim_end: "js_trim_end s \<noteq> [] \<Longrightarrow> hd (js_trim_end s) = hd s"
proof -
  have "s = js_trim_end s @ rev (takeWhile is_js_space (rev s))"
    unfolding js_trim_end_def by (metis rev_append rev_rev_ident takeWhile_dropWhile_id)
  then show "js_trim_end s \<noteq> [] \<Longrightarrow> hd (js_trim_end s) = hd s" by (metis hd_append2)
qed

lemma js_trim_idem: "js_trim (js_trim s) = js_trim s"
proof (cases "js_trim s = []")
  case False
  then have "hd (js_trim s) = hd (js_trim_start s)" "js_trim_start s \<noteq> []"
    using hd_js_trim_end by (auto simp: js_trim_def js_trim_end_def)
  moreover have "\<not> is_js_space (hd (js_trim_start s))"
    using \<open>js_trim_start s \<noteq> []\<close> unfolding js_trim_start_def by (rule hd_dropWhile)
  moreover have "\<not> is_js_space (last (js_trim s))"
    using False unfolding js_trim_def js_trim_end_def
    by (metis hd_dropWhile last_rev rev_is_Nil_conv)
  ultimately show ?thesis using False by (intro js_trim_id) simp_all
next
  case True
  have "js_trim [] = []" by code_simp
  with True show ?thesis by simp
qed

lemma js_normal_idem: "js_lower (js_trim (js_lower (js_trim s))) = js_lower (js_trim s)"
  by (simp add: js_trim_lower js_trim_idem js_lower_idem)

subsection \<open>Insertion-ordered sets\<close>

text \<open>The elements of \<^verbatim>\<open>new Set(xs)\<close> in iteration order: first occurrences.\<close>

definition js_set :: "'a list \<Rightarrow> 'a list" where
  "js_set xs = rev (remdups (rev xs))"

lemma set_js_set [simp]: "set (js_set xs) = set xs"
  by (simp add: js_set_def)

lemma distinct_js_set [simp]: "distinct (js_set xs)"
  by (simp add: js_set_def)

lemma length_js_set [simp]: "length (js_set xs) = card (set xs)"
  by (simp add: js_set_def length_remdups_card_conv)

subsection \<open>Insertion-ordered maps\<close>

text \<open>
  JavaScript's \<open>Map\<close> iterates in insertion order and \<open>set\<close> on a present key keeps the key's
  place. \<open>delete\<close> followed by \<open>set\<close> moves a key to the end.
\<close>

fun omap_set :: "'k \<Rightarrow> 'v \<Rightarrow> ('k \<times> 'v) list \<Rightarrow> ('k \<times> 'v) list" where
  "omap_set k v [] = [(k, v)]"
| "omap_set k v ((k', v') # m) = (if k' = k then (k, v) # m else (k', v') # omap_set k v m)"

definition omap_delete :: "'k \<Rightarrow> ('k \<times> 'v) list \<Rightarrow> ('k \<times> 'v) list" where
  "omap_delete k m = filter (\<lambda>e. fst e \<noteq> k) m"

definition omap_wf :: "('k \<times> 'v) list \<Rightarrow> bool" where
  "omap_wf m \<longleftrightarrow> distinct (map fst m)"

lemma map_of_omap_set [simp]: "map_of (omap_set k v m) = (map_of m)(k \<mapsto> v)"
  by (induction k v m rule: omap_set.induct) auto

lemma fst_set_omap_set [simp]: "fst ` set (omap_set k v m) = insert k (fst ` set m)"
  by (induction k v m rule: omap_set.induct) auto

lemma omap_wf_set [simp]: "omap_wf m \<Longrightarrow> omap_wf (omap_set k v m)"
  by (induction k v m rule: omap_set.induct) (auto simp: omap_wf_def)

lemma omap_set_new: "k \<notin> fst ` set m \<Longrightarrow> omap_set k v m = m @ [(k, v)]"
  by (induction k v m rule: omap_set.induct) auto

lemma omap_wf_delete [simp]: "omap_wf m \<Longrightarrow> omap_wf (omap_delete k m)"
  by (auto simp: omap_wf_def omap_delete_def distinct_map inj_on_def)

lemma fst_set_omap_delete [simp]: "fst ` set (omap_delete k m) = fst ` set m - {k}"
  by (auto simp: omap_delete_def image_iff)

lemma map_of_omap_delete [simp]: "map_of (omap_delete k m) = (map_of m)(k := None)"
  by (induction m) (auto simp: omap_delete_def fun_eq_iff)

lemma omap_delete_absent: "k \<notin> fst ` set m \<Longrightarrow> omap_delete k m = m"
  by (induction m) (auto simp: omap_delete_def)

end
