(* ===== verification/Json.thy ===== *)
theory Json
  imports Prelude
begin

section \<open>JSON values\<close>

text \<open>
  The values \<open>JSON.parse\<close> yields, as the sources inspect them: \<open>typeof\<close> tests, own-property
  lookup, exact key sets and \<open>isDeepStrictEqual\<close> of \<open>node:util\<close>. Numbers are rationals (every
  finite double is one; JSON has no \<open>NaN\<close> and no infinity), objects are association lists in
  property order, and \<open>undefined\<close>, the value of an absent property, is \<open>None\<close>.
\<close>

datatype json =
    JNull
  | JBool bool
  | JNum rat
  | JStr string
  | JArr "json list"
  | JObj "(string \<times> json) list"

text \<open>A parsed object has each key once, at every depth.\<close>

fun json_wf :: "json \<Rightarrow> bool" where
  "json_wf (JArr xs) = list_all json_wf xs"
| "json_wf (JObj m) = (distinct (map fst m) \<and> list_all (\<lambda>e. json_wf (snd e)) m)"
| "json_wf _ = True"

text \<open>\<^verbatim>\<open>typeof v === 'object' && v !== null && !Array.isArray(v)\<close>, with the properties.\<close>

fun as_record :: "json \<Rightarrow> (string \<times> json) list option" where
  "as_record (JObj m) = Some m"
| "as_record _ = None"

fun is_bool :: "json option \<Rightarrow> bool" where
  "is_bool (Some (JBool b)) = True"
| "is_bool _ = False"

fun as_bool :: "json option \<Rightarrow> bool option" where
  "as_bool (Some (JBool b)) = Some b"
| "as_bool _ = None"

fun as_str :: "json option \<Rightarrow> string option" where
  "as_str (Some (JStr s)) = Some s"
| "as_str _ = None"

fun as_num :: "json option \<Rightarrow> rat option" where
  "as_num (Some (JNum r)) = Some r"
| "as_num _ = None"

text \<open>\<open>Number.isInteger\<close> and \<open>Number.isSafeInteger\<close>.\<close>

definition is_integer_num :: "rat \<Rightarrow> bool" where
  "is_integer_num r \<longleftrightarrow> of_int \<lfloor>r\<rfloor> = r"

definition is_safe_integer :: "rat \<Rightarrow> bool" where
  "is_safe_integer r \<longleftrightarrow> is_integer_num r \<and> \<bar>r\<bar> \<le> 2 ^ 53 - 1"

text \<open>Own keys exactly \<open>keys\<close>: the count and the membership test of \<open>hasExactKeys\<close>.\<close>

definition has_exact_keys :: "(string \<times> json) list \<Rightarrow> string list \<Rightarrow> bool" where
  "has_exact_keys row keys \<longleftrightarrow>
     length row = length keys \<and> list_all (\<lambda>k. map_of row k \<noteq> None) keys"

lemma size_zip_fst [termination_simp]:
  "(a, b) \<in> set (zip xs ys) \<Longrightarrow> size a < Suc (size_list size xs)"
  by (auto dest!: set_zip_leftD simp: less_Suc_eq_le intro: size_list_estimation')

text \<open>\<open>isDeepStrictEqual\<close>: arrays in order, objects by property whatever the order.\<close>

fun deep_eq :: "json \<Rightarrow> json \<Rightarrow> bool" where
  "deep_eq JNull JNull = True"
| "deep_eq (JBool a) (JBool b) = (a = b)"
| "deep_eq (JNum a) (JNum b) = (a = b)"
| "deep_eq (JStr a) (JStr b) = (a = b)"
| "deep_eq (JArr xs) (JArr ys) =
     (length xs = length ys \<and> list_all (\<lambda>p. deep_eq (fst p) (snd p)) (zip xs ys))"
| "deep_eq (JObj xs) (JObj ys) =
     (length xs = length ys \<and>
      list_all (\<lambda>e. case map_of ys (fst e) of None \<Rightarrow> False | Some w \<Rightarrow> deep_eq (snd e) w) xs)"
| "deep_eq _ _ = False"

text \<open>Two reads that may be \<open>undefined\<close>.\<close>

fun deep_eq_opt :: "json option \<Rightarrow> json option \<Rightarrow> bool" where
  "deep_eq_opt None None = True"
| "deep_eq_opt (Some a) (Some b) = deep_eq a b"
| "deep_eq_opt _ _ = False"

lemma map_of_distinct_mem: "distinct (map fst m) \<Longrightarrow> (k, v) \<in> set m \<Longrightarrow> map_of m k = Some v"
  by (simp add: map_of_is_SomeI)

lemma deep_eq_refl: "json_wf j \<Longrightarrow> deep_eq j j"
proof (induction j rule: json_wf.induct)
  case (1 xs)
  then show ?case by (auto simp: list_all_iff set_zip)
next
  case (2 m)
  have look: "map_of m (fst e) = Some (snd e)" if "e \<in> set m" for e
    using 2(2) that by (intro map_of_distinct_mem) auto
  have "deep_eq (snd e) (snd e)" if "e \<in> set m" for e
    using 2 that by (auto simp: list_all_iff)
  with look show ?case by (simp add: list_all_iff)
qed simp_all

lemma deep_eq_opt_refl: "(\<And>j. v = Some j \<Longrightarrow> json_wf j) \<Longrightarrow> deep_eq_opt v v"
  by (cases v) (simp_all add: deep_eq_refl)

text \<open>Deep equality of two records with the same exact keys is equality property by property.\<close>

lemma has_exact_keys_set:
  assumes "has_exact_keys row keys" "distinct keys"
  shows "fst ` set row = set keys" "distinct (map fst row)"
proof -
  from assms(1) have sub: "set keys \<subseteq> fst ` set row"
    by (auto simp: has_exact_keys_def list_all_iff map_of_eq_None_iff)
  have "card (set keys) = length row"
    using assms by (simp add: has_exact_keys_def distinct_card)
  moreover have "card (fst ` set row) \<le> length row"
    by (metis card_length length_map set_map)
  ultimately have c: "card (fst ` set row) = length row" "card (set keys) = card (fst ` set row)"
    using card_mono [OF _ sub] by auto
  then show "fst ` set row = set keys" using card_subset_eq [OF _ sub] by auto
  from c(1) show "distinct (map fst row)" by (metis card_distinct length_map set_map)
qed

lemma has_exact_keys_lookup:
  "has_exact_keys row keys \<Longrightarrow> k \<in> set keys \<Longrightarrow> \<exists>v. map_of row k = Some v"
  by (auto simp: has_exact_keys_def list_all_iff)

lemma deep_eq_obj_iff:
  assumes "has_exact_keys xs keys" "has_exact_keys ys keys" "distinct keys"
  shows "deep_eq (JObj xs) (JObj ys) \<longleftrightarrow>
    list_all (\<lambda>k. deep_eq_opt (map_of xs k) (map_of ys k)) keys"
proof -
  note X = has_exact_keys_set [OF assms(1,3)] and Y = has_exact_keys_set [OF assms(2,3)]
  have len: "length xs = length ys" using assms by (simp add: has_exact_keys_def)
  have point: "\<And>e. e \<in> set xs \<Longrightarrow>
     (case map_of ys (fst e) of None \<Rightarrow> False | Some w \<Rightarrow> deep_eq (snd e) w)
       = deep_eq_opt (map_of xs (fst e)) (map_of ys (fst e))"
    using X(2) by (metis deep_eq_opt.simps(2,3) map_of_distinct_mem option.case_eq_if
        option.collapse prod.collapse)
  have "deep_eq (JObj xs) (JObj ys) \<longleftrightarrow>
      (\<forall>e\<in>set xs. deep_eq_opt (map_of xs (fst e)) (map_of ys (fst e)))"
    using len point by (simp add: list_all_iff)
  also have "\<dots> \<longleftrightarrow> (\<forall>k\<in>fst ` set xs. deep_eq_opt (map_of xs k) (map_of ys k))" by simp
  finally show ?thesis by (simp add: X(1) list_all_iff)
qed

end
