(* ===== verification/Roles.thy ===== *)
theory Roles
  imports Prelude Json
begin

section \<open>Roles\<close>

text \<open>
  Models \<open>shared/src/roles.ts\<close>: the four roles, strictly ordered by privilege, the guards on
  untrusted values and the capability flags. The order is made the library's \<open>linorder\<close> of
  the type, so that the library's lemmas on \<open>max\<close> and sorting apply to roles.
\<close>

datatype role = Client | Provider | Admin | Super_Admin

definition ROLE_ORDER :: "role list" where
  "ROLE_ORDER = [Client, Provider, Admin, Super_Admin]"

definition REGISTRABLE_ROLES :: "role list" where
  "REGISTRABLE_ROLES = [Client, Provider]"

definition ELEVATED_ROLES :: "role list" where
  "ELEVATED_ROLES = [Admin, Super_Admin]"

fun role_name :: "role \<Rightarrow> string" where
  "role_name Client = ''client''"
| "role_name Provider = ''provider''"
| "role_name Admin = ''admin''"
| "role_name Super_Admin = ''super_admin''"

definition isRole :: "json \<Rightarrow> bool" where
  "isRole v = (case v of JStr s \<Rightarrow> s \<in> set (map role_name ROLE_ORDER) | _ \<Rightarrow> False)"

definition isRegistrableRole :: "json \<Rightarrow> bool" where
  "isRegistrableRole v =
     (case v of JStr s \<Rightarrow> s \<in> set (map role_name REGISTRABLE_ROLES) | _ \<Rightarrow> False)"

text \<open>\<open>indexOf\<close> in the order; every value of the type is present.\<close>

fun position :: "'a \<Rightarrow> 'a list \<Rightarrow> int" where
  "position x [] = -1"
| "position x (y # ys) = (if x = y then 0 else (let p = position x ys in if p < 0 then -1 else p + 1))"

definition roleRank :: "role \<Rightarrow> int" where
  "roleRank r = position r ROLE_ORDER"

definition roleAtLeast :: "role \<Rightarrow> role \<Rightarrow> bool" where
  "roleAtLeast a b \<longleftrightarrow> roleRank a \<ge> roleRank b"

record capabilities =
  can_publish_apis :: bool
  can_review_access_requests :: bool
  can_manage_users :: bool
  can_manage_settings :: bool
  can_view_audit_log :: bool
  can_use_god_mode :: bool

definition capabilitiesFor :: "role \<Rightarrow> capabilities" where
  "capabilitiesFor r =
     \<lparr>can_publish_apis = roleAtLeast r Provider,
      can_review_access_requests = roleAtLeast r Provider,
      can_manage_users = roleAtLeast r Admin,
      can_manage_settings = roleAtLeast r Admin,
      can_view_audit_log = roleAtLeast r Admin,
      can_use_god_mode = roleAtLeast r Super_Admin\<rparr>"

lemma roleRank_simps [simp]:
  "roleRank Client = 0" "roleRank Provider = 1" "roleRank Admin = 2" "roleRank Super_Admin = 3"
  by (simp_all add: roleRank_def ROLE_ORDER_def)

instantiation role :: linorder
begin

definition less_eq_role :: "role \<Rightarrow> role \<Rightarrow> bool" where
  "less_eq_role a b \<longleftrightarrow> roleRank a \<le> roleRank b"

definition less_role :: "role \<Rightarrow> role \<Rightarrow> bool" where
  "less_role a b \<longleftrightarrow> roleRank a < roleRank b"

instance
proof
  fix a b :: role
  assume "a \<le> b" "b \<le> a"
  then show "a = b" by (cases a; cases b) (simp_all add: less_eq_role_def)
qed (auto simp: less_eq_role_def less_role_def)

end

lemma roleAtLeast_iff_le: "roleAtLeast a b \<longleftrightarrow> b \<le> a"
  by (simp add: roleAtLeast_def less_eq_role_def)

text \<open>The capability flags an account holds, as a set of flag positions, to state that a
  higher role inherits every capability.\<close>

definition capability_flags :: "capabilities \<Rightarrow> bool list" where
  "capability_flags c =
     [can_publish_apis c, can_review_access_requests c, can_manage_users c,
      can_manage_settings c, can_view_audit_log c, can_use_god_mode c]"

lemma capabilitiesFor_mono:
  "a \<le> b \<Longrightarrow> list_all2 (\<longrightarrow>) (capability_flags (capabilitiesFor a)) (capability_flags (capabilitiesFor b))"
  by (auto simp: capability_flags_def capabilitiesFor_def roleAtLeast_iff_le intro: order_trans)

lemma isRegistrable_not_elevated:
  assumes "isRegistrableRole (JStr (role_name r))"
  shows "r \<notin> set ELEVATED_ROLES"
  using assms by (cases r) (auto simp: isRegistrableRole_def REGISTRABLE_ROLES_def ELEVATED_ROLES_def)

end
