(* ===== verification/Errors.thy ===== *)
theory Errors
  imports Json
begin

section \<open>Error codes and error responses\<close>

text \<open>
  Models \<open>shared/src/error-codes.ts\<close> (the closed set of codes and their HTTP statuses),
  \<open>server/src/lib/errors.ts\<close> (the one error type every route, service and adapter throws,
  and its helper constructors) and, of \<open>server/src/middleware/error-handler.ts\<close>, the
  normalisation of any thrown value into that type. The \<open>cause\<close> an error may carry is for the
  log only and is not modelled; what the two weak sets of the lease code record about an error
  is the tag of the theory on leases.
\<close>

datatype error_code =
    VALIDATION_FAILED | UNAUTHORIZED | FORBIDDEN | NOT_FOUND | CONFLICT | CSRF_MISMATCH
  | CAPTCHA_FAILED | CAPTCHA_SELF_TEST_FAILED | RATE_LIMITED | QUOTA_EXCEEDED
  | EMAIL_NOT_VERIFIED | USER_DISABLED | LAST_SUPER_ADMIN
  | ACCESS_DISRUPTION_CONFIRMATION_REQUIRED | SHOW_ONCE_ALREADY | EDGE_UNAVAILABLE
  | EDGE_ERROR | EDGE_REJECTED_SPEC | EDGE_PROTOCOL_ERROR | EDGE_NAMESPACE_UNSERVED
  | SPEC_INVALID | OUTBOX_FAILURE | INTERNAL

definition ALL_ERROR_CODES :: "error_code list" where
  "ALL_ERROR_CODES =
     [VALIDATION_FAILED, UNAUTHORIZED, FORBIDDEN, NOT_FOUND, CONFLICT, CSRF_MISMATCH,
      CAPTCHA_FAILED, CAPTCHA_SELF_TEST_FAILED, RATE_LIMITED, QUOTA_EXCEEDED,
      EMAIL_NOT_VERIFIED, USER_DISABLED, LAST_SUPER_ADMIN,
      ACCESS_DISRUPTION_CONFIRMATION_REQUIRED, SHOW_ONCE_ALREADY, EDGE_UNAVAILABLE,
      EDGE_ERROR, EDGE_REJECTED_SPEC, EDGE_PROTOCOL_ERROR, EDGE_NAMESPACE_UNSERVED,
      SPEC_INVALID, OUTBOX_FAILURE, INTERNAL]"

text \<open>The wire spelling of a code: in the source every code is its own name.\<close>

fun error_code_name :: "error_code \<Rightarrow> string" where
  "error_code_name VALIDATION_FAILED = ''VALIDATION_FAILED''"
| "error_code_name UNAUTHORIZED = ''UNAUTHORIZED''"
| "error_code_name FORBIDDEN = ''FORBIDDEN''"
| "error_code_name NOT_FOUND = ''NOT_FOUND''"
| "error_code_name CONFLICT = ''CONFLICT''"
| "error_code_name CSRF_MISMATCH = ''CSRF_MISMATCH''"
| "error_code_name CAPTCHA_FAILED = ''CAPTCHA_FAILED''"
| "error_code_name CAPTCHA_SELF_TEST_FAILED = ''CAPTCHA_SELF_TEST_FAILED''"
| "error_code_name RATE_LIMITED = ''RATE_LIMITED''"
| "error_code_name QUOTA_EXCEEDED = ''QUOTA_EXCEEDED''"
| "error_code_name EMAIL_NOT_VERIFIED = ''EMAIL_NOT_VERIFIED''"
| "error_code_name USER_DISABLED = ''USER_DISABLED''"
| "error_code_name LAST_SUPER_ADMIN = ''LAST_SUPER_ADMIN''"
| "error_code_name ACCESS_DISRUPTION_CONFIRMATION_REQUIRED =
     ''ACCESS_DISRUPTION_CONFIRMATION_REQUIRED''"
| "error_code_name SHOW_ONCE_ALREADY = ''SHOW_ONCE_ALREADY''"
| "error_code_name EDGE_UNAVAILABLE = ''EDGE_UNAVAILABLE''"
| "error_code_name EDGE_ERROR = ''EDGE_ERROR''"
| "error_code_name EDGE_REJECTED_SPEC = ''EDGE_REJECTED_SPEC''"
| "error_code_name EDGE_PROTOCOL_ERROR = ''EDGE_PROTOCOL_ERROR''"
| "error_code_name EDGE_NAMESPACE_UNSERVED = ''EDGE_NAMESPACE_UNSERVED''"
| "error_code_name SPEC_INVALID = ''SPEC_INVALID''"
| "error_code_name OUTBOX_FAILURE = ''OUTBOX_FAILURE''"
| "error_code_name INTERNAL = ''INTERNAL''"

definition isErrorCode :: "json \<Rightarrow> bool" where
  "isErrorCode v = (case v of JStr s \<Rightarrow> s \<in> set (map error_code_name ALL_ERROR_CODES) | _ \<Rightarrow> False)"

fun ERROR_CODE_STATUS :: "error_code \<Rightarrow> int" where
  "ERROR_CODE_STATUS VALIDATION_FAILED = 400"
| "ERROR_CODE_STATUS UNAUTHORIZED = 401"
| "ERROR_CODE_STATUS FORBIDDEN = 403"
| "ERROR_CODE_STATUS NOT_FOUND = 404"
| "ERROR_CODE_STATUS CONFLICT = 409"
| "ERROR_CODE_STATUS CSRF_MISMATCH = 403"
| "ERROR_CODE_STATUS CAPTCHA_FAILED = 400"
| "ERROR_CODE_STATUS CAPTCHA_SELF_TEST_FAILED = 400"
| "ERROR_CODE_STATUS RATE_LIMITED = 429"
| "ERROR_CODE_STATUS QUOTA_EXCEEDED = 429"
| "ERROR_CODE_STATUS EMAIL_NOT_VERIFIED = 403"
| "ERROR_CODE_STATUS USER_DISABLED = 403"
| "ERROR_CODE_STATUS LAST_SUPER_ADMIN = 409"
| "ERROR_CODE_STATUS ACCESS_DISRUPTION_CONFIRMATION_REQUIRED = 409"
| "ERROR_CODE_STATUS SHOW_ONCE_ALREADY = 410"
| "ERROR_CODE_STATUS EDGE_UNAVAILABLE = 502"
| "ERROR_CODE_STATUS EDGE_ERROR = 502"
| "ERROR_CODE_STATUS EDGE_REJECTED_SPEC = 400"
| "ERROR_CODE_STATUS EDGE_PROTOCOL_ERROR = 502"
| "ERROR_CODE_STATUS EDGE_NAMESPACE_UNSERVED = 409"
| "ERROR_CODE_STATUS SPEC_INVALID = 400"
| "ERROR_CODE_STATUS OUTBOX_FAILURE = 500"
| "ERROR_CODE_STATUS INTERNAL = 500"

subsection \<open>The error type\<close>

record nexus_error =
  err_code :: error_code
  err_message :: string
  err_details :: "json option"

definition statusCode :: "nexus_error \<Rightarrow> int" where
  "statusCode e = ERROR_CODE_STATUS (err_code e)"

definition mk_error :: "error_code \<Rightarrow> string \<Rightarrow> json option \<Rightarrow> nexus_error" where
  "mk_error c m d = \<lparr>err_code = c, err_message = m, err_details = d\<rparr>"

definition toBody :: "nexus_error \<Rightarrow> json" where
  "toBody e = (case err_details e of
      None \<Rightarrow> JObj [(''code'', JStr (error_code_name (err_code e))), (''message'', JStr (err_message e))]
    | Some d \<Rightarrow> JObj [(''code'', JStr (error_code_name (err_code e))),
                     (''message'', JStr (err_message e)), (''details'', d)])"

definition validationFailed :: "string \<Rightarrow> json option \<Rightarrow> nexus_error" where
  "validationFailed m d = mk_error VALIDATION_FAILED m d"

definition unauthorized :: "string \<Rightarrow> nexus_error" where
  "unauthorized m = mk_error UNAUTHORIZED m None"

definition forbidden :: "string \<Rightarrow> nexus_error" where
  "forbidden m = mk_error FORBIDDEN m None"

definition csrfMismatch :: "string \<Rightarrow> nexus_error" where
  "csrfMismatch m = mk_error CSRF_MISMATCH m None"

text \<open>The optional id is tested for truthiness, so an empty id is dropped too.\<close>

definition notFound :: "string \<Rightarrow> string option \<Rightarrow> nexus_error" where
  "notFound what i = mk_error NOT_FOUND
     (case i of
        None \<Rightarrow> what @ '' was not found''
      | Some s \<Rightarrow> if s = [] then what @ '' was not found''
                 else what @ '' '' @ [CHR 0x27] @ s @ [CHR 0x27] @ '' was not found'') None"

definition conflict :: "string \<Rightarrow> json option \<Rightarrow> nexus_error" where
  "conflict m d = mk_error CONFLICT m d"

definition quotaExceeded :: "string \<Rightarrow> json option \<Rightarrow> nexus_error" where
  "quotaExceeded m d = mk_error QUOTA_EXCEEDED m d"

definition captchaFailed :: "string \<Rightarrow> nexus_error" where
  "captchaFailed message = mk_error CAPTCHA_FAILED message None"

definition captchaSelfTestFailed :: "string \<Rightarrow> string \<Rightarrow> nexus_error" where
  "captchaSelfTestFailed reason message =
     mk_error CAPTCHA_SELF_TEST_FAILED message (Some (JObj [(''reason'', JStr reason)]))"

definition emailNotVerified :: "string \<Rightarrow> nexus_error" where
  "emailNotVerified message = mk_error EMAIL_NOT_VERIFIED message None"

definition userDisabled :: "string \<Rightarrow> nexus_error" where
  "userDisabled m = mk_error USER_DISABLED m None"

definition lastSuperAdmin :: "string \<Rightarrow> nexus_error" where
  "lastSuperAdmin m = mk_error LAST_SUPER_ADMIN m None"

definition edgeUnavailable :: "string \<Rightarrow> nexus_error" where
  "edgeUnavailable m = mk_error EDGE_UNAVAILABLE m None"

definition edgeError :: "string \<Rightarrow> json option \<Rightarrow> nexus_error" where
  "edgeError m d = mk_error EDGE_ERROR m d"

definition specInvalid :: "string \<Rightarrow> json option \<Rightarrow> nexus_error" where
  "specInvalid m d = mk_error SPEC_INVALID m d"

definition outboxFailure :: "string \<Rightarrow> nexus_error" where
  "outboxFailure m = mk_error OUTBOX_FAILURE m None"

definition internal_error :: "string \<Rightarrow> nexus_error" where
  "internal_error m = mk_error INTERNAL m None"

lemmas error_constructors [simp] =
  mk_error_def validationFailed_def unauthorized_def forbidden_def csrfMismatch_def notFound_def
  conflict_def quotaExceeded_def userDisabled_def lastSuperAdmin_def edgeUnavailable_def
  edgeError_def specInvalid_def outboxFailure_def internal_error_def

subsection \<open>From a thrown value to a response\<close>

definition codeForStatus :: "int \<Rightarrow> error_code" where
  "codeForStatus status =
     (if status \<in> {400, 413, 415, 422} then VALIDATION_FAILED
      else if status = 401 then UNAUTHORIZED
      else if status = 403 then FORBIDDEN
      else if status = 404 then NOT_FOUND
      else if status = 409 then CONFLICT
      else if status = 429 then RATE_LIMITED
      else INTERNAL)"

text \<open>One issue of a Zod validation error: its path, its code and its message, and, for the
  code \<open>unrecognized_keys\<close>, the keys.\<close>

record zod_issue =
  zi_path :: "string list"
  zi_code :: string
  zi_message :: string
  zi_keys :: "string list"

fun join_dot :: "string list \<Rightarrow> string" where
  "join_dot [] = []"
| "join_dot [x] = x"
| "join_dot (x # xs) = x @ ''.'' @ join_dot xs"

definition zod_details :: "zod_issue \<Rightarrow> json list" where
  "zod_details issue =
     (let unknown = zi_code issue = ''unrecognized_keys'';
          paths = (if unknown then map (\<lambda>k. zi_path issue @ [k]) (zi_keys issue)
                   else [zi_path issue])
      in map (\<lambda>path. JObj [(''path'', JStr (join_dot path)), (''code'', JStr (zi_code issue)),
                (''message'', JStr (if unknown then ''Unrecognized key'' else zi_message issue))])
           paths)"

definition fromZodError :: "zod_issue list \<Rightarrow> string \<Rightarrow> nexus_error" where
  "fromZodError issues message =
     mk_error VALIDATION_FAILED message (Some (JArr (concat (map zod_details issues))))"

text \<open>A thrown value, as \<open>toNexusError\<close> tells them apart: a Nexus error, a Zod error, or
  anything else, of which only a numeric \<open>statusCode\<close> and a string \<open>message\<close> are read.\<close>

datatype thrown =
    ThrownNexus nexus_error
  | ThrownZod "zod_issue list"
  | ThrownOther "int option" "string option"

fun toNexusError :: "thrown \<Rightarrow> nexus_error" where
  "toNexusError (ThrownNexus e) = e"
| "toNexusError (ThrownZod issues) = fromZodError issues ''Request validation failed''"
| "toNexusError (ThrownOther sc msg) =
     (let status = (case sc of Some s \<Rightarrow> s | None \<Rightarrow> 500) in
      if status < 500 then
        mk_error (codeForStatus status)
          (case msg of Some m \<Rightarrow> if m \<noteq> [] then m else ''Request could not be processed''
                     | None \<Rightarrow> ''Request could not be processed'') None
      else mk_error INTERNAL ''Internal server error'' None)"

text \<open>What the error handler sends: the status and the body.\<close>

definition error_response :: "thrown \<Rightarrow> int \<times> json" where
  "error_response t = (let e = toNexusError t in (statusCode e, JObj [(''error'', toBody e)]))"

subsection \<open>Lemmas\<close>

lemma ALL_ERROR_CODES_complete: "set ALL_ERROR_CODES = UNIV"
proof -
  have "\<And>c. c \<in> set ALL_ERROR_CODES"
    by (case_tac c) (simp_all add: ALL_ERROR_CODES_def)
  then show ?thesis by auto
qed

lemma error_code_name_inj: "error_code_name a = error_code_name b \<Longrightarrow> a = b"
  by (cases a; cases b) simp_all

lemma status_is_error: "400 \<le> ERROR_CODE_STATUS c \<and> ERROR_CODE_STATUS c < 600"
  by (cases c) simp_all

lemma codeForStatus_roundtrip:
  "codeForStatus s \<noteq> INTERNAL \<Longrightarrow> ERROR_CODE_STATUS (codeForStatus s) = s \<or> s \<in> {413, 415, 422}"
  by (auto simp: codeForStatus_def)

lemma codeForStatus_client:
  "s < 500 \<Longrightarrow> codeForStatus s = INTERNAL \<or> ERROR_CODE_STATUS (codeForStatus s) < 500"
  by (auto simp: codeForStatus_def)

subsection \<open>Properties\<close>

text \<open>Every response of the error handler has an error status between 400 and 599 and a
  body with the closed code; and a thrown value that is no portal error and carries no status below
  500 is answered with the fixed internal-error text, whatever its own message says.\<close>

theorem error_response_closed:
  "400 \<le> fst (error_response t) \<and> fst (error_response t) < 600 \<and>
   (\<exists>c m rest. snd (error_response t) =
      JObj [(''error'', JObj ((''code'', JStr (error_code_name c)) # (''message'', JStr m) # rest))] \<and>
      fst (error_response t) = ERROR_CODE_STATUS c) \<and>
   (case t of
      ThrownOther sc msg \<Rightarrow> (case sc of None \<Rightarrow> True | Some s \<Rightarrow> s \<ge> 500) \<longrightarrow>
        error_response t = (500, JObj [(''error'', JObj [(''code'', JStr ''INTERNAL''),
          (''message'', JStr ''Internal server error'')])])
    | _ \<Rightarrow> True)"
proof (intro conjI)
  show "\<exists>c m rest. snd (error_response t) =
      JObj [(''error'', JObj ((''code'', JStr (error_code_name c)) # (''message'', JStr m) # rest))] \<and>
      fst (error_response t) = ERROR_CODE_STATUS c"
    by (cases "err_details (toNexusError t)")
       (auto simp: error_response_def toBody_def statusCode_def Let_def)
  show "400 \<le> fst (error_response t)" "fst (error_response t) < 600"
    using status_is_error by (auto simp: error_response_def statusCode_def Let_def)
qed (auto simp: error_response_def toBody_def statusCode_def split: thrown.splits option.splits)

theorem error_response_closed_witness:
  "error_response (ThrownOther None (Some ''secret'')) =
     (500, JObj [(''error'', JObj [(''code'', JStr ''INTERNAL''),
        (''message'', JStr ''Internal server error'')])])"
  using error_response_closed [of "ThrownOther None (Some ''secret'')"] by simp

text \<open>The two ways a message reaches a client under the code \<open>INTERNAL\<close>: a thrown value
  with a status below 500 that has no code of its own (408, 418, 426, ...) is answered with status
  500 and its own message, and so is a portal error made by \<open>internal\<close> with a message.\<close>

theorem internal_code_sends_message:
  assumes "s < 500" "s \<notin> {400, 401, 403, 404, 409, 413, 415, 422, 429}" "m \<noteq> []"
  shows "error_response (ThrownOther (Some s) (Some m)) =
     (500, JObj [(''error'', JObj [(''code'', JStr ''INTERNAL''), (''message'', JStr m)])]) \<and>
    error_response (ThrownNexus (internal_error m)) =
     (500, JObj [(''error'', JObj [(''code'', JStr ''INTERNAL''), (''message'', JStr m)])])"
  using assms by (simp add: error_response_def codeForStatus_def toBody_def statusCode_def)

theorem internal_code_sends_message_witness:
  "error_response (ThrownOther (Some 408) (Some ''Request timed out'')) =
     (500, JObj [(''error'', JObj [(''code'', JStr ''INTERNAL''), (''message'', JStr ''Request timed out'')])])"
  using internal_code_sends_message [of 408 "''Request timed out''"] by simp

end
