(* ===== verification/Lease.thy ===== *)
theory Lease
  imports Errors
begin

section \<open>The lease table\<close>

text \<open>
  Models the \<open>edge_leases\<close> repository: the interface \<open>LeaseRepo\<close> of \<open>server/src/db/store.ts\<close>
  and its implementations for SQLite (\<open>db/adapters/sqlite/index.ts\<close>) and for PostgreSQL and
  MySQL (\<open>db/adapters/sql-repos.ts\<close>). A table is its rows, keyed by \<open>key\<close> (the primary key);
  timestamps are milliseconds, which compare as the ISO strings of the source do. A statement
  is one function from the table to the number of affected rows and the new table; \<open>stamp\<close>
  is the value \<open>nowIso()\<close> returns in the call.

  The contract of the interface is the locale \<open>lease_contract\<close>; the three adapters are its
  interpretations, and everything proved about leases is proved once, in the locale.
\<close>

record lease_row =
  lr_owner :: string
  lr_expires_at :: int
  lr_created_at :: int
  lr_updated_at :: int

type_synonym lease_table = "(string \<times> lease_row) list"

definition LEASE_KEY_MAX_LENGTH :: nat where
  "LEASE_KEY_MAX_LENGTH = 255"

definition assertLeaseKeyLength :: "string \<Rightarrow> nexus_error + unit" where
  "assertLeaseKeyLength key = guard (length key \<le> LEASE_KEY_MAX_LENGTH)
     (mk_error INTERNAL (''Lease key is '' @ show_nat (length key) @
        '' characters; the maximum is '' @ show_nat LEASE_KEY_MAX_LENGTH) None)"

subsection \<open>Statements\<close>

text \<open>\<open>INSERT \<dots> ON CONFLICT (key) DO UPDATE \<dots> WHERE expires_at <= now\<close>: one statement.\<close>

definition upsert_expired ::
  "int \<Rightarrow> lease_table \<Rightarrow> string \<Rightarrow> string \<Rightarrow> int \<Rightarrow> int \<Rightarrow> nat \<times> lease_table" where
  "upsert_expired stamp t key owner expiresAt now = (case map_of t key of
      None \<Rightarrow> (1, omap_set key \<lparr>lr_owner = owner, lr_expires_at = expiresAt,
                    lr_created_at = stamp, lr_updated_at = stamp\<rparr> t)
    | Some r \<Rightarrow> if lr_expires_at r \<le> now
               then (1, omap_set key (r\<lparr>lr_owner := owner, lr_expires_at := expiresAt,
                          lr_updated_at := stamp\<rparr>) t)
               else (0, t))"

text \<open>MySQL's two statements: \<open>INSERT IGNORE\<close>, and an \<open>UPDATE\<close> of an expired row.\<close>

definition insert_ignore ::
  "int \<Rightarrow> lease_table \<Rightarrow> string \<Rightarrow> string \<Rightarrow> int \<Rightarrow> nat \<times> lease_table" where
  "insert_ignore stamp t key owner expiresAt = (case map_of t key of
      None \<Rightarrow> (1, omap_set key \<lparr>lr_owner = owner, lr_expires_at = expiresAt,
                    lr_created_at = stamp, lr_updated_at = stamp\<rparr> t)
    | Some r \<Rightarrow> (0, t))"

definition update_expired ::
  "int \<Rightarrow> lease_table \<Rightarrow> string \<Rightarrow> string \<Rightarrow> int \<Rightarrow> int \<Rightarrow> nat \<times> lease_table" where
  "update_expired stamp t key owner expiresAt now = (case map_of t key of
      None \<Rightarrow> (0, t)
    | Some r \<Rightarrow> if lr_expires_at r \<le> now
               then (1, omap_set key (r\<lparr>lr_owner := owner, lr_expires_at := expiresAt,
                          lr_updated_at := stamp\<rparr>) t)
               else (0, t))"

text \<open>\<open>DELETE\<close>, \<open>UPDATE\<close> and \<open>SELECT\<close> \<open>WHERE key = ? AND owner = ?\<close>.\<close>

definition owned_row :: "lease_table \<Rightarrow> string \<Rightarrow> string \<Rightarrow> lease_row option" where
  "owned_row t key owner = (case map_of t key of
      Some r \<Rightarrow> if lr_owner r = owner then Some r else None | None \<Rightarrow> None)"

definition delete_owned :: "lease_table \<Rightarrow> string \<Rightarrow> string \<Rightarrow> nat \<times> lease_table" where
  "delete_owned t key owner = (case owned_row t key owner of
      Some r \<Rightarrow> (1, omap_delete key t) | None \<Rightarrow> (0, t))"

definition update_owned ::
  "lease_table \<Rightarrow> string \<Rightarrow> string \<Rightarrow> (lease_row \<Rightarrow> lease_row) \<Rightarrow> nat \<times> lease_table" where
  "update_owned t key owner f = (case owned_row t key owner of
      Some r \<Rightarrow> (1, omap_set key (f r) t) | None \<Rightarrow> (0, t))"

definition delete_expired :: "lease_table \<Rightarrow> int \<Rightarrow> nat \<times> lease_table" where
  "delete_expired t now =
     (length (filter (\<lambda>e. lr_expires_at (snd e) \<le> now) t),
      filter (\<lambda>e. \<not> lr_expires_at (snd e) \<le> now) t)"

subsection \<open>The repository interface and its three implementations\<close>

text \<open>The methods of \<open>LeaseRepo\<close>. Of the methods only \<open>acquire\<close> may throw by itself
  (\<open>assertLeaseKeyLength\<close>).\<close>

record 't lease_repo =
  repo_acquire :: "int \<Rightarrow> 't \<Rightarrow> string \<Rightarrow> string \<Rightarrow> int \<Rightarrow> int \<Rightarrow> nexus_error + (bool \<times> 't)"
  repo_release :: "'t \<Rightarrow> string \<Rightarrow> string \<Rightarrow> bool \<times> 't"
  repo_renew :: "int \<Rightarrow> 't \<Rightarrow> string \<Rightarrow> string \<Rightarrow> int \<Rightarrow> bool \<times> 't"
  repo_verify :: "int \<Rightarrow> 't \<Rightarrow> string \<Rightarrow> string \<Rightarrow> bool \<times> 't"
  repo_deleteExpired :: "'t \<Rightarrow> int \<Rightarrow> nat \<times> 't"

definition affected :: "nat \<times> 't \<Rightarrow> bool \<times> 't" where
  "affected r = (0 < fst r, snd r)"

definition acquire_upsert ::
  "int \<Rightarrow> lease_table \<Rightarrow> string \<Rightarrow> string \<Rightarrow> int \<Rightarrow> int \<Rightarrow> nexus_error + (bool \<times> lease_table)" where
  "acquire_upsert stamp t key owner expiresAt now =
     rbind (assertLeaseKeyLength key)
       (\<lambda>_. Inr (affected (upsert_expired stamp t key owner expiresAt now)))"

text \<open>On MySQL other writers may act between the two statements; \<open>between\<close> is what they do.\<close>

definition acquire_mysql ::
  "(lease_table \<Rightarrow> lease_table) \<Rightarrow> int \<Rightarrow> lease_table \<Rightarrow> string \<Rightarrow> string \<Rightarrow> int \<Rightarrow> int
    \<Rightarrow> nexus_error + (bool \<times> lease_table)" where
  "acquire_mysql between stamp t key owner expiresAt now =
     rbind (assertLeaseKeyLength key)
       (\<lambda>_. let (inserted, t1) = insert_ignore stamp t key owner expiresAt in
            if 0 < inserted then Inr (True, t1)
            else Inr (affected (update_expired stamp (between t1) key owner expiresAt now)))"

definition release_sql :: "lease_table \<Rightarrow> string \<Rightarrow> string \<Rightarrow> bool \<times> lease_table" where
  "release_sql t key owner = affected (delete_owned t key owner)"

definition renew_sql :: "int \<Rightarrow> lease_table \<Rightarrow> string \<Rightarrow> string \<Rightarrow> int \<Rightarrow> bool \<times> lease_table" where
  "renew_sql stamp t key owner expiresAt = affected
     (update_owned t key owner (\<lambda>r. r\<lparr>lr_expires_at := expiresAt, lr_updated_at := stamp\<rparr>))"

definition verify_update :: "int \<Rightarrow> lease_table \<Rightarrow> string \<Rightarrow> string \<Rightarrow> bool \<times> lease_table" where
  "verify_update stamp t key owner =
     affected (update_owned t key owner (\<lambda>r. r\<lparr>lr_updated_at := stamp\<rparr>))"

definition verify_select :: "int \<Rightarrow> lease_table \<Rightarrow> string \<Rightarrow> string \<Rightarrow> bool \<times> lease_table" where
  "verify_select stamp t key owner = (owned_row t key owner \<noteq> None, t)"

definition sqlite_leases :: "lease_table lease_repo" where
  "sqlite_leases = \<lparr>repo_acquire = acquire_upsert, repo_release = release_sql,
     repo_renew = renew_sql, repo_verify = verify_select, repo_deleteExpired = delete_expired\<rparr>"

definition pg_leases :: "lease_table lease_repo" where
  "pg_leases = \<lparr>repo_acquire = acquire_upsert, repo_release = release_sql,
     repo_renew = renew_sql, repo_verify = verify_update, repo_deleteExpired = delete_expired\<rparr>"

definition mysql_leases :: "lease_table lease_repo" where
  "mysql_leases = \<lparr>repo_acquire = acquire_mysql id, repo_release = release_sql,
     repo_renew = renew_sql, repo_verify = verify_update, repo_deleteExpired = delete_expired\<rparr>"

subsection \<open>What the table says: who holds a key, and until when\<close>

definition lease_view :: "lease_table \<Rightarrow> string \<Rightarrow> (string \<times> int) option" where
  "lease_view t key = map_option (\<lambda>r. (lr_owner r, lr_expires_at r)) (map_of t key)"

definition view_holder :: "(string \<times> int) option \<Rightarrow> string option" where
  "view_holder v = map_option fst v"

definition view_free :: "(string \<times> int) option \<Rightarrow> int \<Rightarrow> bool" where
  "view_free v now = (case v of None \<Rightarrow> True | Some (own, e) \<Rightarrow> e \<le> now)"

lemma view_holder_simps [simp]:
  "view_holder None = None" "view_holder (Some p) = Some (fst p)"
  by (simp_all add: view_holder_def)

lemma view_free_simps [simp]:
  "view_free None now" "view_free (Some (own, e)) now \<longleftrightarrow> e \<le> now"
  by (simp_all add: view_free_def)

lemmas lease_statement_defs =
  upsert_expired_def insert_ignore_def update_expired_def owned_row_def delete_owned_def
  update_owned_def delete_expired_def affected_def lease_view_def

lemma lease_view_omap_set [simp]:
  "lease_view (omap_set key r t) = (lease_view t)(key \<mapsto> (lr_owner r, lr_expires_at r))"
  by (auto simp: lease_view_def)

lemma lease_view_omap_delete [simp]: "lease_view (omap_delete key t) = (lease_view t)(key := None)"
  by (auto simp: lease_view_def)

lemma map_of_filter_wf:
  "omap_wf t \<Longrightarrow> map_of (filter (\<lambda>e. P (snd e)) t) k =
     (case map_of t k of Some r \<Rightarrow> if P r then Some r else None | None \<Rightarrow> None)"
proof (induction t)
  case (Cons e t)
  have "map_of t (fst e) = None"
    using Cons.prems by (simp add: omap_wf_def map_of_eq_None_iff)
  with Cons show ?case by (cases e) (auto simp: omap_wf_def split: option.splits)
qed simp

lemma omap_wf_filter: "omap_wf t \<Longrightarrow> omap_wf (filter P t)"
  by (simp add: omap_wf_def distinct_map_filter)

subsection \<open>The contract\<close>

text \<open>
  The laws the callers rely on, in the words of the interface's comments: an acquisition
  succeeds exactly when the key is free or its lease has expired, a refused one writes
  nothing, a release, renewal or verification answers whether the caller still holds the key,
  and only acquisition, release and the expiry sweep change who holds a key.
\<close>

locale lease_contract =
  fixes repo :: "'t lease_repo"
    and view :: "'t \<Rightarrow> string \<Rightarrow> (string \<times> int) option"
    and inv :: "'t \<Rightarrow> bool"
  assumes acquire_throws:
      "length k > LEASE_KEY_MAX_LENGTH \<Longrightarrow> \<exists>e. repo_acquire repo st t k own ex now = Inl e"
    and acquire_answers:
      "length k \<le> LEASE_KEY_MAX_LENGTH \<Longrightarrow>
         \<exists>b t'. repo_acquire repo st t k own ex now = Inr (b, t')"
    and acquire_won:
      "inv t \<Longrightarrow> repo_acquire repo st t k own ex now = Inr (b, t') \<Longrightarrow> b = view_free (view t k) now"
    and acquire_view:
      "inv t \<Longrightarrow> repo_acquire repo st t k own ex now = Inr (b, t') \<Longrightarrow>
         view t' = (if b then (view t)(k \<mapsto> (own, ex)) else view t)"
    and acquire_inv: "inv t \<Longrightarrow> repo_acquire repo st t k own ex now = Inr (b, t') \<Longrightarrow> inv t'"
    and release_won: "inv t \<Longrightarrow> fst (repo_release repo t k own) = (view_holder (view t k) = Some own)"
    and release_view:
      "inv t \<Longrightarrow> view (snd (repo_release repo t k own)) =
         (if view_holder (view t k) = Some own then (view t)(k := None) else view t)"
    and release_inv: "inv t \<Longrightarrow> inv (snd (repo_release repo t k own))"
    and renew_won: "inv t \<Longrightarrow> fst (repo_renew repo st t k own ex) = (view_holder (view t k) = Some own)"
    and renew_view:
      "inv t \<Longrightarrow> view (snd (repo_renew repo st t k own ex)) =
         (if view_holder (view t k) = Some own then (view t)(k \<mapsto> (own, ex)) else view t)"
    and renew_inv: "inv t \<Longrightarrow> inv (snd (repo_renew repo st t k own ex))"
    and verify_won: "inv t \<Longrightarrow> fst (repo_verify repo st t k own) = (view_holder (view t k) = Some own)"
    and verify_view: "inv t \<Longrightarrow> view (snd (repo_verify repo st t k own)) = view t"
    and verify_inv: "inv t \<Longrightarrow> inv (snd (repo_verify repo st t k own))"
    and sweep_view:
      "inv t \<Longrightarrow> view (snd (repo_deleteExpired repo t now)) =
         (\<lambda>k. if view_free (view t k) now then None else view t k)"
    and sweep_inv: "inv t \<Longrightarrow> inv (snd (repo_deleteExpired repo t now))"
begin

lemmas contract_simps =
  release_won release_view release_inv renew_won renew_view renew_inv
  verify_won verify_view verify_inv sweep_view sweep_inv

end

lemma assertLeaseKeyLength_eq:
  "assertLeaseKeyLength k = (if length k \<le> LEASE_KEY_MAX_LENGTH then Inr ()
     else assertLeaseKeyLength k)"
  by (simp add: assertLeaseKeyLength_def guard_def)

lemma assertLeaseKeyLength_long:
  "length k > LEASE_KEY_MAX_LENGTH \<Longrightarrow> \<exists>e. assertLeaseKeyLength k = Inl e"
  by (simp add: assertLeaseKeyLength_def guard_def)

lemma acquire_mysql_id_eq: "acquire_mysql id = acquire_upsert"
proof (intro ext)
  fix stamp t key owner expiresAt now
  show "acquire_mysql id stamp t key owner expiresAt now
      = acquire_upsert stamp t key owner expiresAt now"
    by (simp add: acquire_mysql_def acquire_upsert_def insert_ignore_def update_expired_def
        upsert_expired_def affected_def split: option.splits)
qed

lemma acquire_upsert_Inr:
  "acquire_upsert st t k own ex now = Inr (b, t') \<longleftrightarrow>
     length k \<le> LEASE_KEY_MAX_LENGTH \<and> (b, t') = affected (upsert_expired st t k own ex now)"
  by (auto simp: acquire_upsert_def assertLeaseKeyLength_def result_simps)

lemma upsert_expired_won: "(0 < fst (upsert_expired st t k own ex now)) = view_free (lease_view t k) now"
  by (auto simp: upsert_expired_def lease_view_def split: option.splits)

lemma upsert_expired_view:
  "lease_view (snd (upsert_expired st t k own ex now)) =
     (if view_free (lease_view t k) now then (lease_view t)(k \<mapsto> (own, ex)) else lease_view t)"
  by (auto simp: upsert_expired_def lease_view_def split: option.splits)

lemma upsert_expired_wf: "omap_wf t \<Longrightarrow> omap_wf (snd (upsert_expired st t k own ex now))"
  by (auto simp: upsert_expired_def split: option.splits)

lemma owned_row_iff: "owned_row t k own \<noteq> None \<longleftrightarrow> view_holder (lease_view t k) = Some own"
  by (auto simp: owned_row_def lease_view_def split: option.splits)

lemma release_sql_spec:
  "fst (release_sql t k own) = (view_holder (lease_view t k) = Some own)"
  "lease_view (snd (release_sql t k own)) =
     (if view_holder (lease_view t k) = Some own then (lease_view t)(k := None) else lease_view t)"
  "omap_wf t \<Longrightarrow> omap_wf (snd (release_sql t k own))"
  by (auto simp: release_sql_def affected_def delete_owned_def owned_row_iff [symmetric]
      split: option.splits)

lemma owned_row_SomeD: "owned_row t k own = Some r \<Longrightarrow> map_of t k = Some r \<and> lr_owner r = own"
  by (auto simp: owned_row_def split: option.splits if_splits)

lemma update_owned_view:
  "lease_view (snd (update_owned t k own f)) = (case owned_row t k own of
      Some r \<Rightarrow> (lease_view t)(k \<mapsto> (lr_owner (f r), lr_expires_at (f r))) | None \<Rightarrow> lease_view t)"
  by (auto simp: update_owned_def split: option.splits)

lemma update_owned_wf: "omap_wf t \<Longrightarrow> omap_wf (snd (update_owned t k own f))"
  by (auto simp: update_owned_def split: option.splits)

lemma update_owned_won: "(0 < fst (update_owned t k own f)) = (view_holder (lease_view t k) = Some own)"
  by (auto simp: update_owned_def owned_row_iff [symmetric] split: option.splits)

lemma renew_sql_spec:
  "fst (renew_sql st t k own ex) = (view_holder (lease_view t k) = Some own)"
  "lease_view (snd (renew_sql st t k own ex)) =
     (if view_holder (lease_view t k) = Some own then (lease_view t)(k \<mapsto> (own, ex)) else lease_view t)"
  "omap_wf t \<Longrightarrow> omap_wf (snd (renew_sql st t k own ex))"
  by (auto simp: renew_sql_def affected_def update_owned_won update_owned_view update_owned_wf
      owned_row_iff [symmetric] dest: owned_row_SomeD split: option.splits)

lemma lease_view_self:
  "owned_row t k own = Some r \<Longrightarrow>
     (lease_view t)(k \<mapsto> (lr_owner r, lr_expires_at r)) = lease_view t"
  by (auto simp: lease_view_def fun_eq_iff dest: owned_row_SomeD)

lemma verify_update_spec:
  "fst (verify_update st t k own) = (view_holder (lease_view t k) = Some own)"
  "lease_view (snd (verify_update st t k own)) = lease_view t"
  "omap_wf t \<Longrightarrow> omap_wf (snd (verify_update st t k own))"
  by (auto simp: verify_update_def affected_def update_owned_won update_owned_view update_owned_wf
      lease_view_self dest: owned_row_SomeD split: option.splits)

lemma verify_select_spec:
  "fst (verify_select st t k own) = (view_holder (lease_view t k) = Some own)"
  "lease_view (snd (verify_select st t k own)) = lease_view t"
  "omap_wf t \<Longrightarrow> omap_wf (snd (verify_select st t k own))"
  by (simp_all add: verify_select_def flip: owned_row_iff)

lemma delete_expired_view:
  "omap_wf t \<Longrightarrow> lease_view (snd (delete_expired t now)) =
     (\<lambda>k. if view_free (lease_view t k) now then None else lease_view t k)"
  by (auto simp: delete_expired_def lease_view_def fun_eq_iff
      map_of_filter_wf [where P = "\<lambda>r. \<not> lr_expires_at r \<le> now"] split: option.splits)

lemma delete_expired_wf: "omap_wf t \<Longrightarrow> omap_wf (snd (delete_expired t now))"
  by (simp add: delete_expired_def omap_wf_filter)

lemmas sql_lease_specs =
  release_sql_spec renew_sql_spec verify_update_spec verify_select_spec
  delete_expired_view delete_expired_wf

lemma acquire_upsert_laws:
  "length k > LEASE_KEY_MAX_LENGTH \<Longrightarrow> \<exists>e. acquire_upsert st t k own ex now = Inl e"
  "length k \<le> LEASE_KEY_MAX_LENGTH \<Longrightarrow> \<exists>b t'. acquire_upsert st t k own ex now = Inr (b, t')"
  "acquire_upsert st t k own ex now = Inr (b, t') \<Longrightarrow> b = view_free (lease_view t k) now"
  "acquire_upsert st t k own ex now = Inr (b, t') \<Longrightarrow>
     lease_view t' = (if b then (lease_view t)(k \<mapsto> (own, ex)) else lease_view t)"
  "omap_wf t \<Longrightarrow> acquire_upsert st t k own ex now = Inr (b, t') \<Longrightarrow> omap_wf t'"
proof -
  assume "length k > LEASE_KEY_MAX_LENGTH"
  then show "\<exists>e. acquire_upsert st t k own ex now = Inl e"
    by (simp add: acquire_upsert_def assertLeaseKeyLength_def)
next
  assume "length k \<le> LEASE_KEY_MAX_LENGTH"
  then show "\<exists>b t'. acquire_upsert st t k own ex now = Inr (b, t')"
    by (simp add: acquire_upsert_def assertLeaseKeyLength_def affected_def)
qed (auto simp: acquire_upsert_Inr affected_def upsert_expired_won upsert_expired_view
      upsert_expired_wf)

interpretation sqlite: lease_contract sqlite_leases lease_view omap_wf
  by unfold_locales
     (simp_all add: sqlite_leases_def acquire_upsert_laws sql_lease_specs
        del: LEASE_KEY_MAX_LENGTH_def)

interpretation pg: lease_contract pg_leases lease_view omap_wf
  by unfold_locales
     (simp_all add: pg_leases_def acquire_upsert_laws sql_lease_specs
        del: LEASE_KEY_MAX_LENGTH_def)

interpretation mysql: lease_contract mysql_leases lease_view omap_wf
  by unfold_locales
     (simp_all add: mysql_leases_def acquire_mysql_id_eq acquire_upsert_laws sql_lease_specs
        del: LEASE_KEY_MAX_LENGTH_def)

subsection \<open>Properties\<close>

text \<open>C32: On MySQL an acquisition is two statements. Undisturbed, the pair answers and writes
  exactly what the single upsert of the other adapters does; with other instances acting between
  the two statements, it still wins exactly when the key had no row at the first statement or its
  lease had expired at the second, a winner holds the key with its own expiry, and a loser leaves
  the table as the others made it.\<close>

theorem mysql_acquire_sound:
  assumes "acquire_mysql between stamp t key owner expiresAt now = Inr (won, t')"
  shows "acquire_mysql id = acquire_upsert \<and>
    (won \<longleftrightarrow> map_of t key = None \<or>
      (\<exists>r. map_of (between t) key = Some r \<and> lr_expires_at r \<le> now)) \<and>
    (if won then lease_view t' key = Some (owner, expiresAt) else t' = between t)"
proof (cases "map_of t key")
  case None
  with assms show ?thesis
    by (auto simp: acquire_mysql_id_eq acquire_mysql_def insert_ignore_def result_simps)
next
  case (Some r)
  then have ig: "insert_ignore stamp t key owner expiresAt = (0, t)" by (simp add: insert_ignore_def)
  have "(won, t') = affected (update_expired stamp (between t) key owner expiresAt now)"
    using assms by (auto simp: acquire_mysql_def ig result_simps)
  with Some show ?thesis
    by (auto simp: acquire_mysql_id_eq affected_def update_expired_def split: option.splits if_splits)
qed

theorem mysql_acquire_sound_witness:
  "\<exists>t'. acquire_mysql (\<lambda>t. []) 5 [(''k'', \<lparr>lr_owner = ''a'', lr_expires_at = 1, lr_created_at = 0,
      lr_updated_at = 0\<rparr>)] ''k'' ''b'' 100 5 = Inr (False, t') \<and> t' = []"
proof -
  have r: "acquire_mysql (\<lambda>t. []) 5 [(''k'', \<lparr>lr_owner = ''a'', lr_expires_at = 1, lr_created_at = 0,
      lr_updated_at = 0\<rparr>)] ''k'' ''b'' 100 5 = Inr (False, [])" by code_simp
  from mysql_acquire_sound [OF r] r show ?thesis by simp
qed

end
