(* ===== verification/Lease_Fence.thy ===== *)
theory Lease_Fence
  imports Lease
begin

section \<open>Fencing tokens\<close>

text \<open>
  Models \<open>server/src/lib/lease-fence.ts\<close> and the fenced \<open>store.transaction\<close> of the SQL
  adapters. A critical section runs with the leases it holds recorded in its asynchronous
  context; a transaction it opens captures them and verifies each of them as the last statement
  of its body. The world between two steps of a section is a list of lease events, whoever
  performs them.

  The context (an \<open>AsyncLocalStorage\<close> value) is the stack of held leases with the \<open>live\<close> flag
  of each; \<open>undefined\<close>, outside every section, is the empty stack, which the source treats
  alike. The weak sets that remember which errors the fence or the serializer raised are the tag of a
  \<open>failure\<close>.
\<close>

datatype failure_tag = Plain | LockTimeout | LeaseLost

record failure =
  f_error :: nexus_error
  f_tag :: failure_tag

definition isLockTimeout :: "failure \<Rightarrow> bool" where
  "isLockTimeout f \<longleftrightarrow> f_tag f = LockTimeout"

definition isLeaseLost :: "failure \<Rightarrow> bool" where
  "isLeaseLost f \<longleftrightarrow> f_tag f = LeaseLost"

definition leaseLost :: "string \<Rightarrow> failure" where
  "leaseLost message = \<lparr>f_error = conflict message None, f_tag = LeaseLost\<rparr>"

definition LEASE_LOST_MESSAGE :: string where
  "LEASE_LOST_MESSAGE =
     ''This change took too long and another portal instance has taken it over - please retry''"

text \<open>Answer a fence refusal with another message; every other failure passes untouched.\<close>

definition rewordLeaseLost :: "string \<Rightarrow> failure + 'a \<Rightarrow> failure + 'a" where
  "rewordLeaseLost message r =
     (case r of Inr a \<Rightarrow> Inr a | Inl f \<Rightarrow> if isLeaseLost f then Inl (leaseLost message) else Inl f)"

subsection \<open>Held leases\<close>

record held_lease =
  hl_key :: string
  hl_token :: string
  hl_live :: bool

type_synonym lease_context = "held_lease list"
type_synonym lease_fence = "string \<times> string"

text \<open>\<open>holdingLease\<close>: the context \<open>fn\<close> runs in, and what the section's end does to every
  context that still refers to its lease.\<close>

definition holdingLease :: "string \<Rightarrow> string \<Rightarrow> lease_context \<Rightarrow> lease_context" where
  "holdingLease key token ctx = ctx @ [\<lparr>hl_key = key, hl_token = token, hl_live = True\<rparr>]"

definition sectionEnded :: "string \<Rightarrow> string \<Rightarrow> lease_context \<Rightarrow> lease_context" where
  "sectionEnded key token ctx =
     map (\<lambda>h. if hl_key h = key \<and> hl_token h = token then h\<lparr>hl_live := False\<rparr> else h) ctx"

definition outsideHeldLeases :: "lease_context \<Rightarrow> lease_context" where
  "outsideHeldLeases ctx = []"

definition heldLeaseFences :: "lease_context \<Rightarrow> lease_fence list" where
  "heldLeaseFences ctx = sort_key fst (map (\<lambda>h. (hl_key h, hl_token h)) (filter hl_live ctx))"

fun assertLeaseFences :: "'t lease_repo \<Rightarrow> int \<Rightarrow> 't \<Rightarrow> lease_fence list \<Rightarrow> failure + 't" where
  "assertLeaseFences repo stamp t [] = Inr t"
| "assertLeaseFences repo stamp t ((key, token) # fences) =
     (case repo_verify repo stamp t key token of
        (False, t') \<Rightarrow> Inl (leaseLost LEASE_LOST_MESSAGE)
      | (True, t') \<Rightarrow> assertLeaseFences repo stamp t' fences)"

subsection \<open>Fenced transactions\<close>

text \<open>A transaction body works on the data and the lease table; it returns a value with the
  state it leaves, or throws.\<close>

type_synonym ('s, 't, 'a) tx_body = "'s \<times> 't \<Rightarrow> failure + ('a \<times> ('s \<times> 't))"

datatype fence_when = Commit | Begin

definition fenceTransactionBody ::
  "'t lease_repo \<Rightarrow> int \<Rightarrow> lease_context \<Rightarrow> fence_when \<Rightarrow> ('s, 't, 'a) tx_body \<Rightarrow> ('s, 't, 'a) tx_body"
where
  "fenceTransactionBody repo stamp ctx when fn =
     (let fences = heldLeaseFences ctx in
      if fences = [] then fn
      else case when of
        Begin \<Rightarrow> (\<lambda>(s, t). rbind (assertLeaseFences repo stamp t fences) (\<lambda>t'. fn (s, t')))
      | Commit \<Rightarrow> (\<lambda>st. rbind (fn st) (\<lambda>(a, (s', t')).
          rbind (assertLeaseFences repo stamp t' fences) (\<lambda>t''. Inr (a, (s', t''))))))"

text \<open>\<open>BEGIN\<close>, the body, \<open>COMMIT\<close>; a throwing body is followed by \<open>ROLLBACK\<close> and the error. A \<open>COMMIT\<close>
  that throws leaves the same state behind as a throwing body and is not modelled apart. Neither is a call
  made from inside the body of the open transaction: it joins, that is, it runs its own body there, without a
  fence and without a commit of its own, and so it is a part of the outer call's \<open>fn\<close>.\<close>

definition runTransaction ::
  "('s, 't, 'a) tx_body \<Rightarrow> 's \<times> 't \<Rightarrow> (failure + 'a) \<times> ('s \<times> 't)" where
  "runTransaction body st =
     (case body st of Inl f \<Rightarrow> (Inl f, st) | Inr (a, st') \<Rightarrow> (Inr a, st'))"

definition transaction ::
  "'t lease_repo \<Rightarrow> int \<Rightarrow> lease_context \<Rightarrow> ('s, 't, 'a) tx_body \<Rightarrow> 's \<times> 't
    \<Rightarrow> (failure + 'a) \<times> ('s \<times> 't)" where
  "transaction repo stamp ctx fn st =
     runTransaction (fenceTransactionBody repo stamp ctx Commit fn) st"

text \<open>A body that leaves the lease table alone, as every service's body does.\<close>

definition leaves_leases :: "('s, 't, 'a) tx_body \<Rightarrow> bool" where
  "leaves_leases fn \<longleftrightarrow> (\<forall>s t a s' t'. fn (s, t) = Inr (a, (s', t')) \<longrightarrow> t' = t)"

subsection \<open>Histories of the lease table\<close>

text \<open>What can happen to the table: an event names the call and its arguments.\<close>

datatype lease_event =
    EAcquire int string string int int
  | ERelease string string
  | ERenew int string string int
  | EVerify int string string
  | ESweep int

fun lease_apply :: "'t lease_repo \<Rightarrow> 't \<Rightarrow> lease_event \<Rightarrow> 't" where
  "lease_apply repo t (EAcquire stamp key own ex now) =
     (case repo_acquire repo stamp t key own ex now of Inl e \<Rightarrow> t | Inr (b, t') \<Rightarrow> t')"
| "lease_apply repo t (ERelease key own) = snd (repo_release repo t key own)"
| "lease_apply repo t (ERenew stamp key own ex) = snd (repo_renew repo stamp t key own ex)"
| "lease_apply repo t (EVerify stamp key own) = snd (repo_verify repo stamp t key own)"
| "lease_apply repo t (ESweep now) = snd (repo_deleteExpired repo t now)"

definition lease_run :: "'t lease_repo \<Rightarrow> 't \<Rightarrow> lease_event list \<Rightarrow> 't" where
  "lease_run repo t es = foldl (lease_apply repo) t es"

text \<open>The event is an acquisition of \<open>key\<close> that the table granted.\<close>

fun wins_key :: "'t lease_repo \<Rightarrow> 't \<Rightarrow> string \<Rightarrow> lease_event \<Rightarrow> bool" where
  "wins_key repo t key (EAcquire stamp k own ex now) =
     (k = key \<and> (case repo_acquire repo stamp t k own ex now of Inr (True, t') \<Rightarrow> True | _ \<Rightarrow> False))"
| "wins_key repo t key _ = False"

fun taken_over :: "'t lease_repo \<Rightarrow> 't \<Rightarrow> string \<Rightarrow> lease_event list \<Rightarrow> bool" where
  "taken_over repo t key [] = False"
| "taken_over repo t key (e # es) =
     (wins_key repo t key e \<or> taken_over repo (lease_apply repo t e) key es)"

text \<open>Tokens are random per acquisition, so after its acquisition nobody acquires with it.\<close>

fun reuses_token :: "string \<Rightarrow> lease_event \<Rightarrow> bool" where
  "reuses_token token (EAcquire stamp key own ex now) = (own = token)"
| "reuses_token token _ = False"

definition token_fresh :: "string \<Rightarrow> lease_event list \<Rightarrow> bool" where
  "token_fresh token es \<longleftrightarrow> list_all (\<lambda>e. \<not> reuses_token token e) es"

lemma lease_run_simps [simp]:
  "lease_run repo t [] = t" "lease_run repo t (e # es) = lease_run repo (lease_apply repo t e) es"
  by (simp_all add: lease_run_def)

lemma lease_run_append: "lease_run repo t (es @ fs) = lease_run repo (lease_run repo t es) fs"
  by (simp add: lease_run_def)

lemma token_fresh_simps [simp]:
  "token_fresh token []"
  "token_fresh token (e # es) \<longleftrightarrow> \<not> reuses_token token e \<and> token_fresh token es"
  "token_fresh token (es @ fs) \<longleftrightarrow> token_fresh token es \<and> token_fresh token fs"
  by (simp_all add: token_fresh_def)

subsection \<open>A token that still holds its key held it throughout\<close>

context lease_contract
begin

lemma apply_inv: "inv t \<Longrightarrow> inv (lease_apply repo t e)"
  by (cases e) (auto simp: contract_simps split: sum.splits prod.splits intro: acquire_inv)

lemma run_inv: "inv t \<Longrightarrow> inv (lease_run repo t es)"
  by (induction es arbitrary: t) (simp_all add: apply_inv)

text \<open>One event: a token that does not hold the key does not gain it, and a granted
  acquisition of the key takes it away from every other token.\<close>

lemma apply_acquire_view:
  "inv t \<Longrightarrow> view (lease_apply repo t (EAcquire st k own ex now)) k' =
     (if wins_key repo t k' (EAcquire st k own ex now) then Some (own, ex) else view t k')"
  using acquire_view [of t st k own ex now]
  by (auto split: sum.splits prod.splits bool.splits if_splits)

lemma apply_not_gained:
  assumes "inv t" "view_holder (view t k) \<noteq> Some tok" "\<not> reuses_token tok e"
  shows "view_holder (view (lease_apply repo t e) k) \<noteq> Some tok"
proof (cases e)
  case (EAcquire st key own ex now)
  then show ?thesis
    using assms by (simp only: EAcquire apply_acquire_view [OF assms(1)]) auto
qed (use assms in \<open>auto simp: contract_simps\<close>)

lemma apply_taken:
  assumes "inv t" "wins_key repo t k e" "\<not> reuses_token tok e"
  shows "view_holder (view (lease_apply repo t e) k) \<noteq> Some tok"
proof (cases e)
  case (EAcquire st key own ex now)
  then show ?thesis
    using assms by (simp only: EAcquire apply_acquire_view [OF assms(1)]) auto
qed (use assms in auto)

lemma not_gained:
  "inv t \<Longrightarrow> view_holder (view t k) \<noteq> Some tok \<Longrightarrow> token_fresh tok es \<Longrightarrow>
     view_holder (view (lease_run repo t es) k) \<noteq> Some tok"
proof (induction es arbitrary: t)
  case (Cons e es)
  then show ?case using apply_not_gained [of t k tok e] by (simp add: apply_inv)
qed simp

lemma held_at_end_held_throughout:
  assumes "inv t" "token_fresh tok es" "view_holder (view (lease_run repo t es) k) = Some tok"
  shows "view_holder (view (lease_run repo t (take n es)) k) = Some tok"
proof (rule ccontr)
  assume lost: "view_holder (view (lease_run repo t (take n es)) k) \<noteq> Some tok"
  have split: "es = take n es @ drop n es" by simp
  have fresh: "token_fresh tok (drop n es)"
    using assms(2) by (metis append_take_drop_id token_fresh_simps(3))
  have "view_holder (view (lease_run repo (lease_run repo t (take n es)) (drop n es)) k) \<noteq> Some tok"
    using not_gained [OF run_inv [OF assms(1)] lost fresh] .
  then show False using assms(3) by (metis split lease_run_append)
qed

lemma held_at_end_not_taken_over:
  assumes "inv t" "token_fresh tok es" "view_holder (view (lease_run repo t es) k) = Some tok"
  shows "\<not> taken_over repo t k es"
  using assms
proof (induction es arbitrary: t)
  case (Cons e es)
  have "\<not> wins_key repo t k e"
    using Cons.prems apply_taken [of t k e tok]
      not_gained [of "lease_apply repo t e" k tok es] by (auto simp: apply_inv)
  with Cons show ?case by (simp add: apply_inv)
qed simp

text \<open>The fence itself: it answers exactly whether every token still holds its key.\<close>

lemma assertLeaseFences_iff:
  "inv t \<Longrightarrow> (\<exists>t'. assertLeaseFences repo st t fs = Inr t') \<longleftrightarrow>
     (\<forall>(k, tok) \<in> set fs. view_holder (view t k) = Some tok)"
proof (induction fs arbitrary: t)
  case (Cons f fs)
  obtain k tok where f: "f = (k, tok)" by force
  obtain b t' where v: "repo_verify repo st t k tok = (b, t')" by force
  have "b = (view_holder (view t k) = Some tok)" "view t' = view t" "inv t'"
    using v verify_won [OF Cons.prems, of st k tok] verify_view [OF Cons.prems, of st k tok]
      verify_inv [OF Cons.prems, of st k tok] by auto
  then show ?case using Cons.IH [of t'] by (cases b) (auto simp: f v)
qed simp

lemma assertLeaseFences_view:
  "inv t \<Longrightarrow> assertLeaseFences repo st t fs = Inr t' \<Longrightarrow> inv t' \<and> view t' = view t"
proof (induction fs arbitrary: t)
  case (Cons f fs)
  obtain k tok where f: "f = (k, tok)" by force
  obtain b t1 where v: "repo_verify repo st t k tok = (b, t1)" by force
  have "view t1 = view t" "inv t1"
    using v verify_view [OF Cons.prems(1), of st k tok] verify_inv [OF Cons.prems(1), of st k tok]
    by auto
  then show ?case using Cons.IH [of t1] Cons.prems by (cases b) (auto simp: f v)
qed simp

lemma assertLeaseFences_refusal:
  "assertLeaseFences repo st t fs = Inl f \<Longrightarrow> f = leaseLost LEASE_LOST_MESSAGE"
proof (induction fs arbitrary: t)
  case (Cons g fs)
  obtain k tok where g: "g = (k, tok)" by force
  obtain b t1 where v: "repo_verify repo st t k tok = (b, t1)" by force
  show ?case using Cons by (cases b) (auto simp: g v)
qed simp

lemma transaction_committed:
  assumes "inv t" "leaves_leases fn" "transaction repo st ctx fn (s, t) = (Inr a, st')"
    and "h \<in> set ctx" "hl_live h"
  shows "view_holder (view t (hl_key h)) = Some (hl_token h)"
proof -
  let ?fs = "heldLeaseFences ctx"
  have mem: "(hl_key h, hl_token h) \<in> set ?fs" using assms(4,5) by (auto simp: heldLeaseFences_def)
  then have ne: "?fs \<noteq> []" by auto
  obtain a' s' t' t'' where body: "fn (s, t) = Inr (a', (s', t'))"
    and fence: "assertLeaseFences repo st t' ?fs = Inr t''"
    using assms(3) ne
    by (auto simp: transaction_def runTransaction_def fenceTransactionBody_def Let_def
        rbind_def split: sum.splits)
  have "t' = t" using body assms(2) by (auto simp: leaves_leases_def)
  with fence assertLeaseFences_iff [OF assms(1), of st ?fs] mem show ?thesis by auto
qed

lemma transaction_refused:
  assumes "inv t" "leaves_leases fn" "h \<in> set ctx" "hl_live h"
    and "view_holder (view t (hl_key h)) \<noteq> Some (hl_token h)"
  shows "\<exists>f. transaction repo st ctx fn (s, t) = (Inl f, (s, t)) \<and>
     (f = leaseLost LEASE_LOST_MESSAGE \<or> fn (s, t) = Inl f)"
proof -
  obtain r st' where Pair: "transaction repo st ctx fn (s, t) = (r, st')"
    by (rule prod.exhaust)
  show ?thesis
  proof (cases r)
    case (Inl f)
    then have "st' = (s, t)" "fenceTransactionBody repo st ctx Commit fn (s, t) = Inl f"
      using Pair by (auto simp: transaction_def runTransaction_def split: sum.splits prod.splits)
    moreover have "fn (s, t) = Inl f \<or> f = leaseLost LEASE_LOST_MESSAGE"
      using calculation(2) by (auto simp: fenceTransactionBody_def Let_def rbind_eq_Inl
          dest: assertLeaseFences_refusal split: if_splits)
    ultimately show ?thesis using Pair Inl by auto
  next
    case (Inr a)
    then show ?thesis
      using transaction_committed [OF assms(1,2) _ assms(3,4)] Pair assms(5) by blast
  qed
qed

end

subsection \<open>Properties\<close>

text \<open>The three SQL adapters keep the contract.\<close>

definition sql_adapter :: "lease_table lease_repo \<Rightarrow> bool" where
  "sql_adapter repo \<longleftrightarrow> repo = sqlite_leases \<or> repo = pg_leases \<or> repo = mysql_leases"

lemma sql_adapter_contract: "sql_adapter repo \<Longrightarrow> lease_contract repo lease_view omap_wf"
  using sqlite.lease_contract_axioms pg.lease_contract_axioms mysql.lease_contract_axioms
  by (auto simp: sql_adapter_def)

lemma acquired_holds:
  assumes "sql_adapter repo" "omap_wf t" "repo_acquire repo stamp t key token ex now = Inr (True, t1)"
  shows "omap_wf t1" "view_holder (lease_view t1 key) = Some token"
  using lease_contract.acquire_inv [OF sql_adapter_contract [OF assms(1)] assms(2,3)]
    lease_contract.acquire_view [OF sql_adapter_contract [OF assms(1)] assms(2,3)] by simp_all

lemma holdingLease_mem:
  "\<lparr>hl_key = key, hl_token = token, hl_live = True\<rparr> \<in> set (holdingLease key token ctx)"
  by (simp add: holdingLease_def)

text \<open>A history of two instances: the first takes a lease, it expires, the second takes it over.\<close>

definition example_table :: lease_table where
  "example_table = [(''proxy:p1'', \<lparr>lr_owner = ''tok-a'', lr_expires_at = 60000,
     lr_created_at = 0, lr_updated_at = 0\<rparr>)]"

definition example_body :: "(nat, lease_table, nat) tx_body" where
  "example_body = (\<lambda>(s, t). Inr (s, (s + 1, t)))"

lemma example_body_leaves_leases: "leaves_leases example_body"
  by (auto simp: leaves_leases_def example_body_def)

lemma example_acquired:
  "repo_acquire sqlite_leases 0 [] ''proxy:p1'' ''tok-a'' 60000 0 = Inr (True, example_table)"
  by code_simp

text \<open>C5: A transaction opened inside a section that holds a lease commits only if, at every
  moment between the acquisition and the commit, the section's token still held the key, so no
  other instance acquired the key meanwhile; whatever calls the other instances made, on each of
  the three SQL adapters.\<close>

theorem fenced_commit_excludes_takeover:
  assumes "sql_adapter repo" "omap_wf t"
    and "repo_acquire repo stamp t key token ex now = Inr (True, t1)"
    and "token_fresh token es" "leaves_leases fn"
    and "transaction repo stamp' (holdingLease key token ctx) fn (s, lease_run repo t1 es) = (Inr a, st')"
  shows "(\<forall>n. view_holder (lease_view (lease_run repo t1 (take n es)) key) = Some token) \<and>
    \<not> taken_over repo t1 key es"
proof -
  note lc = sql_adapter_contract [OF assms(1)] and acq = acquired_holds [OF assms(1-3)]
  have "view_holder (lease_view (lease_run repo t1 es) key) = Some token"
    using lease_contract.transaction_committed [OF lc lease_contract.run_inv [OF lc acq(1)]
        assms(5,6) holdingLease_mem] by simp
  then show ?thesis
    using lease_contract.held_at_end_held_throughout [OF lc acq(1) assms(4)]
      lease_contract.held_at_end_not_taken_over [OF lc acq(1) assms(4)] by blast
qed

theorem fenced_commit_excludes_takeover_witness:
  "\<not> taken_over sqlite_leases example_table ''proxy:p1''
     [EAcquire 5 ''proxy:p1'' ''tok-b'' 60005 5, ERenew 9 ''proxy:p1'' ''tok-a'' 90000]"
proof -
  let ?es = "[EAcquire 5 ''proxy:p1'' ''tok-b'' 60005 5, ERenew 9 ''proxy:p1'' ''tok-a'' 90000]"
  have tx: "transaction sqlite_leases 10 (holdingLease ''proxy:p1'' ''tok-a'' []) example_body
      (7, lease_run sqlite_leases example_table ?es) =
      (Inr 7, (8, lease_run sqlite_leases example_table ?es))" by code_simp
  have "sql_adapter sqlite_leases" by (simp add: sql_adapter_def)
  moreover have "omap_wf ([] :: lease_table)" by (simp add: omap_wf_def)
  moreover have "token_fresh ''tok-a'' ?es" by simp
  ultimately show ?thesis
    using fenced_commit_excludes_takeover [OF _ _ example_acquired _ example_body_leaves_leases tx]
    by blast
qed

text \<open>Once another instance has acquired the key, a transaction of the section that
  lost it changes nothing: it is rolled back, with the conflict the fence raises or with the error
  the body itself threw.\<close>

theorem stale_section_cannot_commit:
  assumes "sql_adapter repo" "omap_wf t"
    and "repo_acquire repo stamp t key token ex now = Inr (True, t1)"
    and "token_fresh token es" "leaves_leases fn" "taken_over repo t1 key es"
  shows "\<exists>f. transaction repo stamp' (holdingLease key token ctx) fn (s, lease_run repo t1 es) =
      (Inl f, (s, lease_run repo t1 es)) \<and>
    (f = leaseLost LEASE_LOST_MESSAGE \<and> statusCode (f_error f) = 409 \<or>
     fn (s, lease_run repo t1 es) = Inl f)"
proof -
  note lc = sql_adapter_contract [OF assms(1)] and acq = acquired_holds [OF assms(1-3)]
  have "view_holder (lease_view (lease_run repo t1 es) key) \<noteq> Some token"
    using lease_contract.held_at_end_not_taken_over [OF lc acq(1) assms(4)] assms(6) by blast
  then have "\<exists>f. transaction repo stamp' (holdingLease key token ctx) fn (s, lease_run repo t1 es) =
      (Inl f, (s, lease_run repo t1 es)) \<and>
      (f = leaseLost LEASE_LOST_MESSAGE \<or> fn (s, lease_run repo t1 es) = Inl f)"
    by (intro lease_contract.transaction_refused [OF lc _ assms(5) holdingLease_mem])
       (simp_all add: lease_contract.run_inv [OF lc acq(1)])
  then show ?thesis by (auto simp: leaseLost_def statusCode_def)
qed

theorem stale_section_cannot_commit_witness:
  "\<exists>f. transaction sqlite_leases 70001 (holdingLease ''proxy:p1'' ''tok-a'' []) example_body
      (7, lease_run sqlite_leases example_table [EAcquire 70000 ''proxy:p1'' ''tok-b'' 130000 70000]) =
      (Inl f, (7, lease_run sqlite_leases example_table
         [EAcquire 70000 ''proxy:p1'' ''tok-b'' 130000 70000]))"
proof -
  let ?es = "[EAcquire 70000 ''proxy:p1'' ''tok-b'' 130000 70000]"
  have tk: "taken_over sqlite_leases example_table ''proxy:p1'' ?es" by code_simp
  have "sql_adapter sqlite_leases" by (simp add: sql_adapter_def)
  moreover have "omap_wf ([] :: lease_table)" by (simp add: omap_wf_def)
  moreover have "token_fresh ''tok-a'' ?es" by simp
  ultimately show ?thesis
    using stale_section_cannot_commit [OF _ _ example_acquired _ example_body_leaves_leases tk]
    by blast
qed

end
