(* ===== verification/Serializer.thy ===== *)
theory Serializer
  imports Lease_Fence
begin

section \<open>Keyed serializers\<close>

text \<open>
  Models \<open>server/src/lib/keyed-serializer.ts\<close>: the lock keys, the acquisition loop over the
  lease table, a section run under its lease, and the in-process queue that orders the calls of
  one process. The acquisition loop runs along a schedule of attempts, each of which says what
  the other instances did to the table before it and what the clock read at its two
  \<open>Date.now()\<close> calls; \<open>None\<close> is a loop that the schedule leaves still polling, and the
  theorem \<open>takeLease_returns\<close> says how long a schedule is long enough.
\<close>

definition LEASE_TTL_MS :: int where "LEASE_TTL_MS = 60000"
definition LEASE_WAIT_MS :: int where "LEASE_WAIT_MS = 30000"
definition LEASE_POLL_MS :: int where "LEASE_POLL_MS = 100"

definition LEASE_CONFLICT_MESSAGE :: string where
  "LEASE_CONFLICT_MESSAGE =
     ''Another portal instance is updating this gateway resource right now - please retry''"

subsection \<open>Lock keys\<close>

definition SUPER_ADMIN_LOCK_KEY :: string where
  "SUPER_ADMIN_LOCK_KEY = ''users:super-admins''"

definition userLifecycleLockKey :: "string \<Rightarrow> string" where
  "userLifecycleLockKey userId = ''users:lifecycle:'' @ userId"

definition userMailHandoffLockKey :: "string \<Rightarrow> string" where
  "userMailHandoffLockKey userId = ''users:mail-handoff:'' @ userId"

definition accountRecoveryLockKey :: "string \<Rightarrow> string" where
  "accountRecoveryLockKey userId = ''users:recovery:'' @ userId"

definition ssoProviderLockKey :: "string \<Rightarrow> string" where
  "ssoProviderLockKey providerId = ''sso:provider:'' @ providerId"

definition SSO_SETTINGS_LOCK_KEY :: string where
  "SSO_SETTINGS_LOCK_KEY = ''sso:settings''"

definition REGISTRATION_POLICY_LOCK_KEY :: string where
  "REGISTRATION_POLICY_LOCK_KEY = ''auth:registration-policy''"

definition messageBudgetLockKey :: "string \<Rightarrow> string" where
  "messageBudgetLockKey senderUserId = ''messages:budget:'' @ senderUserId"

definition accessRequestBudgetLockKey :: "string \<Rightarrow> string" where
  "accessRequestBudgetLockKey userId = ''access-requests:budget:'' @ userId"

definition broadcastLockKey :: "string \<Rightarrow> string" where
  "broadcastLockKey actorUserId = ''god:broadcast:'' @ actorUserId"

definition massEmailLockKey :: "string \<Rightarrow> string" where
  "massEmailLockKey actorUserId = ''mass-email:'' @ actorUserId"

definition smtpTestLockKey :: "string \<Rightarrow> string" where
  "smtpTestLockKey actorUserId = ''smtp-test:'' @ actorUserId"

definition apiRestoreLockKey :: "string \<Rightarrow> string" where
  "apiRestoreLockKey apiId = ''api-restore:'' @ apiId"

definition proxyLockKey :: "string \<Rightarrow> string" where
  "proxyLockKey proxyId = ''proxy:'' @ proxyId"

lemmas lock_key_defs =
  SUPER_ADMIN_LOCK_KEY_def userLifecycleLockKey_def userMailHandoffLockKey_def
  accountRecoveryLockKey_def ssoProviderLockKey_def SSO_SETTINGS_LOCK_KEY_def
  REGISTRATION_POLICY_LOCK_KEY_def messageBudgetLockKey_def accessRequestBudgetLockKey_def
  broadcastLockKey_def massEmailLockKey_def smtpTestLockKey_def apiRestoreLockKey_def
  proxyLockKey_def

text \<open>The key families, with the entity each key is about (none for a portal-wide key).\<close>

datatype lock_family =
    KSuperAdmins | KLifecycle | KMailHandoff | KRecovery | KSsoProvider | KSsoSettings
  | KRegistration | KMessageBudget | KRequestBudget | KBroadcast | KMassEmail | KSmtpTest
  | KApiRestore | KProxy

fun lock_key :: "lock_family \<Rightarrow> string \<Rightarrow> string" where
  "lock_key KSuperAdmins x = SUPER_ADMIN_LOCK_KEY"
| "lock_key KLifecycle x = userLifecycleLockKey x"
| "lock_key KMailHandoff x = userMailHandoffLockKey x"
| "lock_key KRecovery x = accountRecoveryLockKey x"
| "lock_key KSsoProvider x = ssoProviderLockKey x"
| "lock_key KSsoSettings x = SSO_SETTINGS_LOCK_KEY"
| "lock_key KRegistration x = REGISTRATION_POLICY_LOCK_KEY"
| "lock_key KMessageBudget x = messageBudgetLockKey x"
| "lock_key KRequestBudget x = accessRequestBudgetLockKey x"
| "lock_key KBroadcast x = broadcastLockKey x"
| "lock_key KMassEmail x = massEmailLockKey x"
| "lock_key KSmtpTest x = smtpTestLockKey x"
| "lock_key KApiRestore x = apiRestoreLockKey x"
| "lock_key KProxy x = proxyLockKey x"

definition per_entity :: "lock_family \<Rightarrow> bool" where
  "per_entity f \<longleftrightarrow> f \<notin> {KSuperAdmins, KSsoSettings, KRegistration}"

text \<open>Two keys are equal only if they are the same lock: no two families share a key, and a
  per-entity key determines its entity.\<close>

lemma lock_key_family: "lock_key f x = lock_key g y \<Longrightarrow> f = g"
  by (cases f; cases g) (simp_all add: lock_key_defs)

lemma lock_key_entity: "lock_key f x = lock_key f y \<Longrightarrow> per_entity f \<Longrightarrow> x = y"
  by (cases f) (simp_all add: lock_key_defs per_entity_def)

subsection \<open>Taking a lease\<close>

record ser_options =
  so_ttlMs :: int
  so_waitMs :: int
  so_pollMs :: int
  so_conflictMessage :: string

definition default_ser_options :: ser_options where
  "default_ser_options = \<lparr>so_ttlMs = LEASE_TTL_MS, so_waitMs = LEASE_WAIT_MS,
     so_pollMs = LEASE_POLL_MS, so_conflictMessage = LEASE_CONFLICT_MESSAGE\<rparr>"

record lease_attempt =
  at_events :: "lease_event list"
  at_now :: int
  at_stamp :: int
  at_check :: int

definition lockTimeout :: "ser_options \<Rightarrow> failure" where
  "lockTimeout opts = \<lparr>f_error = conflict (so_conflictMessage opts) None, f_tag = LockTimeout\<rparr>"

fun takeLease ::
  "'t lease_repo \<Rightarrow> ser_options \<Rightarrow> int \<Rightarrow> string \<Rightarrow> string \<Rightarrow> lease_attempt list \<Rightarrow> 't
    \<Rightarrow> ((failure + unit) \<times> 't) option" where
  "takeLease repo opts start key token [] t = None"
| "takeLease repo opts start key token (a # as) t =
     (let t0 = lease_run repo t (at_events a) in
      case repo_acquire repo (at_stamp a) t0 key token (at_now a + so_ttlMs opts) (at_now a) of
        Inl e \<Rightarrow> Some (Inl \<lparr>f_error = e, f_tag = Plain\<rparr>, t0)
      | Inr (won, t1) \<Rightarrow>
          if won then Some (Inr (), t1)
          else if at_check a \<ge> start + so_waitMs opts then Some (Inl (lockTimeout opts), t1)
          else takeLease repo opts start key token as t1)"

text \<open>The clock along a schedule: each failed attempt is followed by a sleep of at least
  \<open>pollMs\<close> (the jitter only adds to it).\<close>

fun polled :: "int \<Rightarrow> int \<Rightarrow> lease_attempt list \<Rightarrow> bool" where
  "polled poll base [] = True"
| "polled poll base (a # as) = (base \<le> at_check a \<and> polled poll (base + poll) as)"

lemma takeLease_returns_aux:
  "polled (so_pollMs opts) base as \<Longrightarrow> as \<noteq> [] \<Longrightarrow>
     start + so_waitMs opts \<le> base + int (length as - 1) * so_pollMs opts \<Longrightarrow>
     takeLease repo opts start key token as t \<noteq> None"
proof (induction as arbitrary: base t)
  case (Cons a as)
  show ?case
  proof (cases as)
    case Nil
    then show ?thesis using Cons.prems by (auto simp: Let_def split: sum.splits prod.splits)
  next
    case (Cons b bs)
    have "start + so_waitMs opts \<le> base + so_pollMs opts + int (length as - 1) * so_pollMs opts"
      using Cons.prems(3) Cons by (simp add: algebra_simps)
    then have "takeLease repo opts start key token as t' \<noteq> None" for t'
      using Cons.IH [of "base + so_pollMs opts"] Cons.prems(1) Cons by simp
    then show ?thesis by (simp add: Let_def split: sum.splits prod.splits)
  qed
qed simp

context lease_contract
begin

text \<open>Every outcome of the loop: won (and then held), timed out, or refused by \<open>acquire\<close>.\<close>

lemma takeLease_won:
  "inv t \<Longrightarrow> takeLease repo opts start key token as t = Some (Inr (), t') \<Longrightarrow>
     inv t' \<and> (\<exists>ex. view t' key = Some (token, ex))"
proof (induction as arbitrary: t)
  case (Cons a as)
  let ?t0 = "lease_run repo t (at_events a)"
  have i0: "inv ?t0" using Cons.prems(1) by (rule run_inv)
  from Cons.prems(2) obtain won t1 where
    acq: "repo_acquire repo (at_stamp a) ?t0 key token (at_now a + so_ttlMs opts) (at_now a)
        = Inr (won, t1)"
    by (auto simp: Let_def split: sum.splits prod.splits)
  note i1 = acquire_inv [OF i0 acq] and v1 = acquire_view [OF i0 acq]
  show ?case
    using Cons.prems(2) Cons.IH [OF i1] i1 v1 acq
    by (auto simp: Let_def split: if_splits)
qed simp

lemma takeLease_inv:
  "inv t \<Longrightarrow> takeLease repo opts start key token as t = Some (r, t') \<Longrightarrow> inv t'"
proof (induction as arbitrary: t)
  case (Cons a as)
  let ?t0 = "lease_run repo t (at_events a)"
  have i0: "inv ?t0" using Cons.prems(1) by (rule run_inv)
  show ?case
    using Cons.prems(2) Cons.IH i0 acquire_inv [OF i0]
    by (fastforce simp: Let_def split: sum.splits prod.splits if_splits)
qed simp

text \<open>What the table says after an event depends only on what it said before.\<close>

lemma apply_view_cong:
  assumes "inv t" "inv u" "view t = view u"
  shows "view (lease_apply repo t e) = view (lease_apply repo u e)"
proof (cases e)
  case (EAcquire st k own ex now)
  show ?thesis
  proof (cases "length k \<le> LEASE_KEY_MAX_LENGTH")
    case True
    then obtain b t' c u' where
      a: "repo_acquire repo st t k own ex now = Inr (b, t')"
      "repo_acquire repo st u k own ex now = Inr (c, u')"
      using acquire_answers by metis
    then show ?thesis
      using acquire_won [OF assms(1) a(1)] acquire_won [OF assms(2) a(2)]
        acquire_view [OF assms(1) a(1)] acquire_view [OF assms(2) a(2)] assms(3)
      by (simp add: EAcquire)
  next
    case False
    then obtain d d' where "repo_acquire repo st t k own ex now = Inl d"
      "repo_acquire repo st u k own ex now = Inl d'"
      using acquire_throws by (metis not_le)
    then show ?thesis using assms(3) by (simp add: EAcquire)
  qed
qed (use assms in \<open>simp_all add: contract_simps fun_eq_iff\<close>)

lemma run_view_cong:
  "inv t \<Longrightarrow> inv u \<Longrightarrow> view t = view u \<Longrightarrow> view (lease_run repo t es) = view (lease_run repo u es)"
proof (induction es arbitrary: t u)
  case (Cons e es)
  then show ?case using apply_view_cong [of t u e] by (simp add: apply_inv)
qed simp

text \<open>A loop that does not win leaves the table saying what the other instances made it say.\<close>

lemma takeLease_lost:
  "inv t \<Longrightarrow> takeLease repo opts start key token as t = Some (Inl f, t') \<Longrightarrow>
     (\<exists>n. view t' = view (lease_run repo t (concat (map at_events (take n as)))))"
proof (induction as arbitrary: t)
  case (Cons a as)
  let ?t0 = "lease_run repo t (at_events a)"
  have i0: "inv ?t0" using Cons.prems(1) by (rule run_inv)
  have one: "?case" if "view t' = view ?t0"
    using that by (intro exI [of _ "1"]) simp
  show ?case
  proof (cases "repo_acquire repo (at_stamp a) ?t0 key token (at_now a + so_ttlMs opts) (at_now a)")
    case (Inl e)
    then show ?thesis using Cons.prems(2) one by (simp add: Let_def)
  next
    case (Inr p)
    obtain won t1 where p: "p = (won, t1)" by force
    note acq = Inr [unfolded p]
    have lost: "\<not> won" using Cons.prems(2) acq by (auto simp: Let_def)
    have v1: "view t1 = view ?t0" and i1: "inv t1"
      using acquire_view [OF i0 acq] acquire_inv [OF i0 acq] lost by auto
    show ?thesis
    proof (cases "at_check a \<ge> start + so_waitMs opts")
      case True
      then show ?thesis using Cons.prems(2) acq lost v1 one by (simp add: Let_def)
    next
      case False
      then have "takeLease repo opts start key token as t1 = Some (Inl f, t')"
        using Cons.prems(2) acq lost by (simp add: Let_def)
      then obtain n where "view t' = view (lease_run repo t1 (concat (map at_events (take n as))))"
        using Cons.IH [OF i1] by blast
      then have "view t' = view (lease_run repo t (concat (map at_events (take (Suc n) (a # as)))))"
        using run_view_cong [OF i1 i0 v1] by (simp add: lease_run_append)
      then show ?thesis by blast
    qed
  qed
qed simp

lemma takeLease_refusal:
  "inv t \<Longrightarrow> takeLease repo opts start key token as t = Some (Inl f, t') \<Longrightarrow>
     f = lockTimeout opts \<or> length key > LEASE_KEY_MAX_LENGTH"
proof (induction as arbitrary: t)
  case (Cons a as)
  let ?t0 = "lease_run repo t (at_events a)"
  have i0: "inv ?t0" using Cons.prems(1) by (rule run_inv)
  show ?case
  proof (cases "length key \<le> LEASE_KEY_MAX_LENGTH")
    case True
    then obtain b t1 where
      acq: "repo_acquire repo (at_stamp a) ?t0 key token (at_now a + so_ttlMs opts) (at_now a) = Inr (b, t1)"
      using acquire_answers by blast
    then show ?thesis
      using Cons.prems(2) Cons.IH [OF acquire_inv [OF i0 acq]] by (auto simp: Let_def split: if_splits)
  qed simp
qed simp

text \<open>A lease whose holder is gone blocks the key until it expires and no longer: an attempt
  after the expiry wins if nobody else acted on the key in between.\<close>

lemma takeLease_after_expiry:
  assumes "inv t" "length key \<le> LEASE_KEY_MAX_LENGTH"
    and "at_events a = []" "view_free (view t key) (at_now a)"
  shows "\<exists>t'. takeLease repo opts start key token (a # as) t = Some (Inr (), t') \<and>
    view t' key = Some (token, at_now a + so_ttlMs opts)"
proof -
  obtain b t' where
    acq: "repo_acquire repo (at_stamp a) t key token (at_now a + so_ttlMs opts) (at_now a) = Inr (b, t')"
    using acquire_answers [OF assms(2)] by blast
  then have "b" "view t' key = Some (token, at_now a + so_ttlMs opts)"
    using acquire_won [OF assms(1) acq] acquire_view [OF assms(1) acq] assms(4) by auto
  with acq assms(3) show ?thesis by (simp add: Let_def)
qed

end

subsection \<open>A section under its lease\<close>

text \<open>
  \<open>underLease\<close>: take the lease, run the section with the lease recorded in its context, and
  release it whatever the section did. \<open>fn\<close> maps the context and the table at its start to its
  outcome and the table at its end; what other instances and the renewal timer do meanwhile is
  part of it. A release that fails is ignored, and the lease then simply expires.
\<close>

definition renewalInterval :: "ser_options \<Rightarrow> int" where
  "renewalInterval opts = max 1 (so_ttlMs opts div 2)"

definition underLease ::
  "'t lease_repo \<Rightarrow> ser_options \<Rightarrow> int \<Rightarrow> string \<Rightarrow> string \<Rightarrow> lease_attempt list \<Rightarrow> lease_context \<Rightarrow> bool
    \<Rightarrow> (lease_context \<Rightarrow> 't \<Rightarrow> (failure + 'a) \<times> 't) \<Rightarrow> 't \<Rightarrow> ((failure + 'a) \<times> 't) option" where
  "underLease repo opts start key token as ctx releaseFails fn t =
     (case takeLease repo opts start key token as t of
        None \<Rightarrow> None
      | Some (Inl f, t1) \<Rightarrow> Some (Inl f, t1)
      | Some (Inr u, t1) \<Rightarrow>
          (case fn (holdingLease key token ctx) t1 of
             (r, t2) \<Rightarrow> Some (r, if releaseFails then t2 else snd (repo_release repo t2 key token))))"

context lease_contract
begin

text \<open>A section leaves the key to others: once it is over, its token holds it no more.\<close>

lemma underLease_released:
  assumes "inv t" "\<And>ctx t1. inv t1 \<Longrightarrow> inv (snd (fn ctx t1))"
    and "takeLease repo opts start key token as t = Some (Inr (), t1)"
    and "underLease repo opts start key token as ctx False fn t = Some (r, t')"
  shows "view_holder (view t' key) \<noteq> Some token"
proof -
  obtain r2 t2 where fn: "fn (holdingLease key token ctx) t1 = (r2, t2)" by force
  have i1: "inv t1" using takeLease_won [OF assms(1,3)] by blast
  have i2: "inv t2" using assms(2) [OF i1, of "holdingLease key token ctx"] fn by simp
  have "t' = snd (repo_release repo t2 key token)" using assms(3,4) fn by (simp add: underLease_def)
  then show ?thesis using i2 by (simp add: release_view)
qed

end

subsection \<open>The in-process queue\<close>

text \<open>
  \<open>serializePerKey\<close> chains promises: \<open>queues\<close> maps a key to the guard of the last call for it, a
  call starts once the guard it found there has settled (at once when there was none), and a
  guard that settles removes its entry if it is still the last. A call is its position in
  \<open>ser_jobs\<close>, which records its key and the guard it found.
\<close>

record serializer =
  ser_queues :: "(string \<times> nat) list"
  ser_jobs :: "(string \<times> nat option) list"
  ser_settled :: "nat list"

definition createKeyedSerializer :: serializer where
  "createKeyedSerializer = \<lparr>ser_queues = [], ser_jobs = [], ser_settled = []\<rparr>"

definition serializePerKey :: "string \<Rightarrow> serializer \<Rightarrow> serializer" where
  "serializePerKey key s =
     s\<lparr>ser_jobs := ser_jobs s @ [(key, map_of (ser_queues s) key)],
       ser_queues := omap_set key (length (ser_jobs s)) (ser_queues s)\<rparr>"

definition job_key :: "serializer \<Rightarrow> nat \<Rightarrow> string" where
  "job_key s j = fst (ser_jobs s ! j)"

definition job_prev :: "serializer \<Rightarrow> nat \<Rightarrow> nat option" where
  "job_prev s j = snd (ser_jobs s ! j)"

text \<open>The call's section is running: it is not over and the guard before it has settled.\<close>

definition job_running :: "serializer \<Rightarrow> nat \<Rightarrow> bool" where
  "job_running s j \<longleftrightarrow> j < length (ser_jobs s) \<and> j \<notin> set (ser_settled s) \<and>
     (case job_prev s j of None \<Rightarrow> True | Some p \<Rightarrow> p \<in> set (ser_settled s))"

definition settleGuard :: "nat \<Rightarrow> serializer \<Rightarrow> serializer" where
  "settleGuard j s =
     s\<lparr>ser_settled := j # ser_settled s,
       ser_queues := (if map_of (ser_queues s) (job_key s j) = Some j
                      then omap_delete (job_key s j) (ser_queues s) else ser_queues s)\<rparr>"

inductive ser_step :: "serializer \<Rightarrow> serializer \<Rightarrow> bool" where
  call: "ser_step s (serializePerKey key s)"
| settle: "job_running s j \<Longrightarrow> ser_step s (settleGuard j s)"

inductive ser_reachable :: "serializer \<Rightarrow> bool" where
  init: "ser_reachable createKeyedSerializer"
| step: "ser_reachable s \<Longrightarrow> ser_step s s' \<Longrightarrow> ser_reachable s'"

text \<open>The invariant. The entry of a key is its newest unsettled call; a call waits for the call
  of its key just before it; calls of one key settle in the order they were made.\<close>

definition unsettled :: "serializer \<Rightarrow> string \<Rightarrow> nat \<Rightarrow> bool" where
  "unsettled s key j \<longleftrightarrow> j < length (ser_jobs s) \<and> job_key s j = key \<and> j \<notin> set (ser_settled s)"

definition last_inv :: "serializer \<Rightarrow> bool" where
  "last_inv s \<longleftrightarrow> (\<forall>key. case map_of (ser_queues s) key of
      Some j \<Rightarrow> unsettled s key j \<and> (\<forall>i. unsettled s key i \<longrightarrow> i \<le> j)
    | None \<Rightarrow> (\<forall>i. \<not> unsettled s key i))"

definition prev_inv :: "serializer \<Rightarrow> bool" where
  "prev_inv s \<longleftrightarrow> (\<forall>j < length (ser_jobs s). case job_prev s j of
      None \<Rightarrow> (\<forall>i < j. \<not> unsettled s (job_key s j) i)
    | Some p \<Rightarrow> p < j \<and> job_key s p = job_key s j \<and>
        (\<forall>i < j. p < i \<longrightarrow> \<not> unsettled s (job_key s j) i))"

definition fifo_inv :: "serializer \<Rightarrow> bool" where
  "fifo_inv s \<longleftrightarrow> (\<forall>p \<in> set (ser_settled s). p < length (ser_jobs s) \<and>
     (\<forall>i < p. \<not> unsettled s (job_key s p) i))"

definition ser_inv :: "serializer \<Rightarrow> bool" where
  "ser_inv s \<longleftrightarrow> last_inv s \<and> prev_inv s \<and> fifo_inv s"

lemma unsettledD: "unsettled s k i \<Longrightarrow> i < length (ser_jobs s) \<and> job_key s i = k"
  by (simp add: unsettled_def)

lemma job_running_first:
  assumes "ser_inv s" "job_running s j" "i < j"
  shows "\<not> unsettled s (job_key s j) i"
proof (cases "job_prev s j")
  case None
  then show ?thesis using assms by (fastforce simp: ser_inv_def prev_inv_def job_running_def)
next
  case (Some p)
  have j: "j < length (ser_jobs s)" "p \<in> set (ser_settled s)"
    using assms(2) Some by (auto simp: job_running_def)
  have p: "p < j" "job_key s p = job_key s j" "\<forall>i < j. p < i \<longrightarrow> \<not> unsettled s (job_key s j) i"
    using assms(1) j(1) Some by (auto simp: ser_inv_def prev_inv_def)
  have "\<not> unsettled s (job_key s j) i" if "i < p"
    using assms(1) p(2) j(2) that by (auto simp: ser_inv_def fifo_inv_def)
  moreover have "\<not> unsettled s (job_key s j) p" using j(2) by (simp add: unsettled_def)
  ultimately show ?thesis using p(3) assms(3) by (metis linorder_neqE_nat)
qed

lemma job_running_unique:
  assumes "ser_inv s" "job_running s i" "job_running s j" "job_key s i = job_key s j"
  shows "i = j"
proof (rule ccontr)
  assume "i \<noteq> j"
  then consider "i < j" | "j < i" by linarith
  then show False
    using assms job_running_first [OF assms(1,2), of j] job_running_first [OF assms(1,3), of i]
    by cases (auto simp: unsettled_def job_running_def)
qed

lemma settled_before_running:
  assumes "ser_inv s" "job_running s j" "i \<in> set (ser_settled s)" "job_key s i = job_key s j"
  shows "i < j"
proof (rule ccontr)
  assume "\<not> i < j"
  moreover have "i \<noteq> j" using assms(2,3) by (auto simp: job_running_def)
  ultimately have "j < i" by simp
  then have "\<not> unsettled s (job_key s i) j" using assms(1,3) by (auto simp: ser_inv_def fifo_inv_def)
  then show False using assms(2,4) by (auto simp: unsettled_def job_running_def)
qed

lemma unsettled_call:
  "unsettled (serializePerKey key s) k i \<longleftrightarrow>
     unsettled s k i \<or> i = length (ser_jobs s) \<and> k = key \<and> i \<notin> set (ser_settled s)"
  by (auto simp: unsettled_def serializePerKey_def job_key_def nth_append split: if_splits)

lemma unsettled_settle: "unsettled (settleGuard j s) k i \<longleftrightarrow> unsettled s k i \<and> i \<noteq> j"
  by (auto simp: unsettled_def settleGuard_def job_key_def)

lemma job_call:
  "i < length (ser_jobs s) \<Longrightarrow> job_key (serializePerKey key s) i = job_key s i"
  "i < length (ser_jobs s) \<Longrightarrow> job_prev (serializePerKey key s) i = job_prev s i"
  "job_key (serializePerKey key s) (length (ser_jobs s)) = key"
  "job_prev (serializePerKey key s) (length (ser_jobs s)) = map_of (ser_queues s) key"
  "ser_settled (serializePerKey key s) = ser_settled s"
  "length (ser_jobs (serializePerKey key s)) = Suc (length (ser_jobs s))"
  by (simp_all add: serializePerKey_def job_key_def job_prev_def nth_append)

lemma job_settle [simp]:
  "job_key (settleGuard j s) i = job_key s i" "job_prev (settleGuard j s) i = job_prev s i"
  "ser_jobs (settleGuard j s) = ser_jobs s" "ser_settled (settleGuard j s) = j # ser_settled s"
  by (simp_all add: settleGuard_def job_key_def job_prev_def)

lemma ser_inv_init: "ser_inv createKeyedSerializer"
  by (simp add: ser_inv_def last_inv_def prev_inv_def fifo_inv_def createKeyedSerializer_def
      unsettled_def)

lemma new_job_unsettled: "ser_inv s \<Longrightarrow> length (ser_jobs s) \<notin> set (ser_settled s)"
  by (auto simp: ser_inv_def fifo_inv_def)

lemma call_ser_inv:
  assumes "ser_inv s"
  shows "ser_inv (serializePerKey key s)"
proof -
  let ?n = "length (ser_jobs s)" and ?s' = "serializePerKey key s"
  have unset: "unsettled ?s' k i \<longleftrightarrow> unsettled s k i \<or> i = ?n \<and> k = key" for k i
    using new_job_unsettled [OF assms] by (auto simp: unsettled_call)
  have small: "unsettled s k i \<Longrightarrow> i < ?n" for k i by (simp add: unsettled_def)
  have q: "map_of (ser_queues ?s') k = (if k = key then Some ?n else map_of (ser_queues s) k)" for k
    by (simp add: serializePerKey_def)
  have "last_inv s" using assms by (simp add: ser_inv_def)
  then have "last_inv ?s'"
    using small by (fastforce simp: last_inv_def q unset less_imp_le split: option.splits)
  moreover have "prev_inv ?s'"
    unfolding prev_inv_def
  proof (intro allI impI)
    fix j assume j: "j < length (ser_jobs ?s')"
    show "case job_prev ?s' j of
        None \<Rightarrow> \<forall>i < j. \<not> unsettled ?s' (job_key ?s' j) i
      | Some p \<Rightarrow> p < j \<and> job_key ?s' p = job_key ?s' j \<and>
          (\<forall>i < j. p < i \<longrightarrow> \<not> unsettled ?s' (job_key ?s' j) i)"
    proof (cases "j < ?n")
      case True
      then show ?thesis using assms
        by (auto simp: ser_inv_def prev_inv_def job_call unset split: option.splits)
    next
      case False
      then have jn: "j = ?n" using j by (simp add: serializePerKey_def)
      have "last_inv s" using assms by (simp add: ser_inv_def)
      then have "case map_of (ser_queues s) key of
          Some p \<Rightarrow> unsettled s key p \<and> (\<forall>i. unsettled s key i \<longrightarrow> i \<le> p)
        | None \<Rightarrow> (\<forall>i. \<not> unsettled s key i)" by (simp add: last_inv_def)
      then show ?thesis
        by (auto simp: jn job_call unset dest: leD unsettledD split: option.splits)
    qed
  qed
  moreover have "fifo_inv ?s'"
    using assms
    by (auto simp: ser_inv_def fifo_inv_def unset job_call)
  ultimately show ?thesis by (simp add: ser_inv_def)
qed

lemma settle_ser_inv:
  assumes "ser_inv s" "job_running s j"
  shows "ser_inv (settleGuard j s)"
proof -
  let ?s' = "settleGuard j s" and ?k = "job_key s j"
  note first = job_running_first [OF assms]
  have run: "j < length (ser_jobs s)" "unsettled s ?k j"
    using assms(2) by (auto simp: job_running_def unsettled_def)
  have "last_inv ?s'"
    unfolding last_inv_def
  proof
    fix key
    have lk: "case map_of (ser_queues s) key of
          Some p \<Rightarrow> unsettled s key p \<and> (\<forall>i. unsettled s key i \<longrightarrow> i \<le> p)
        | None \<Rightarrow> (\<forall>i. \<not> unsettled s key i)"
      using assms(1) by (simp add: ser_inv_def last_inv_def)
    have q: "map_of (ser_queues ?s') key =
        (if key = ?k \<and> map_of (ser_queues s) key = Some j then None else map_of (ser_queues s) key)"
      by (auto simp: settleGuard_def)
    have k: "unsettled s key j \<Longrightarrow> key = ?k" by (simp add: unsettled_def)
    show "case map_of (ser_queues ?s') key of
          Some p \<Rightarrow> unsettled ?s' key p \<and> (\<forall>i. unsettled ?s' key i \<longrightarrow> i \<le> p)
        | None \<Rightarrow> (\<forall>i. \<not> unsettled ?s' key i)"
    proof (cases "map_of (ser_queues s) key")
      case None
      then show ?thesis using lk q by (simp add: unsettled_settle)
    next
      case (Some p)
      then have p: "unsettled s key p" "\<And>i. unsettled s key i \<Longrightarrow> i \<le> p" using lk by auto
      show ?thesis
      proof (cases "p = j")
        case True
        then have "key = ?k" using p(1) k by simp
        moreover have "\<not> unsettled s key i" if "i \<noteq> j" for i
          using p(2) [of i] first [of i] that True calculation by (metis le_neq_implies_less)
        ultimately show ?thesis using Some True q by (auto simp: unsettled_settle)
      next
        case False
        then show ?thesis using Some p q by (auto simp: unsettled_settle)
      qed
    qed
  qed
  moreover have "prev_inv ?s'"
    using assms(1) unfolding ser_inv_def prev_inv_def job_settle unsettled_settle
    by (auto split: option.splits)
  moreover have "fifo_inv ?s'"
    using assms(1) first run by (auto simp: ser_inv_def fifo_inv_def unsettled_settle)
  ultimately show ?thesis by (simp add: ser_inv_def)
qed

inductive_cases ser_step_cases: "ser_step s s'"

lemma step_ser_inv: "ser_step s s' \<Longrightarrow> ser_inv s \<Longrightarrow> ser_inv s'"
  by (auto elim!: ser_step_cases intro: call_ser_inv settle_ser_inv)

lemma reachable_ser_inv: "ser_reachable s \<Longrightarrow> ser_inv s"
  by (induction rule: ser_reachable.induct) (auto intro: ser_inv_init step_ser_inv)

text \<open>The oldest unsettled call of a key is running, so a key with work never stalls.\<close>

lemma oldest_running:
  assumes "ser_inv s" "unsettled s key j" "\<And>i. i < j \<Longrightarrow> \<not> unsettled s key i"
  shows "job_running s j"
proof (cases "job_prev s j")
  case None
  then show ?thesis using assms(2) by (simp add: job_running_def unsettled_def)
next
  case (Some p)
  have j: "j < length (ser_jobs s)" "job_key s j = key" using assms(2) by (auto simp: unsettled_def)
  then have p: "p < j" "job_key s p = key"
    using assms(1) Some by (auto simp: ser_inv_def prev_inv_def)
  then have "p \<in> set (ser_settled s)"
    using assms(3) [OF p(1)] j by (auto simp: unsettled_def)
  then show ?thesis using Some assms(2) by (simp add: job_running_def unsettled_def)
qed

lemma some_running:
  assumes "ser_inv s" "unsettled s key j"
  shows "\<exists>i. job_running s i \<and> job_key s i = key"
proof -
  obtain i where i: "unsettled s key i" and least: "\<And>m. m < i \<Longrightarrow> \<not> unsettled s key m"
    using exists_least_iff [of "unsettled s key"] assms(2) by blast
  then have "job_running s i" by (rule oldest_running [OF assms(1)])
  with i show ?thesis by (auto simp: unsettled_def)
qed

lemma reachable_call: "ser_reachable s \<Longrightarrow> ser_reachable (serializePerKey key s)"
  by (erule ser_reachable.step) (rule ser_step.call)

lemma reachable_settle: "ser_reachable s \<Longrightarrow> job_running s j \<Longrightarrow> ser_reachable (settleGuard j s)"
  by (erule ser_reachable.step) (rule ser_step.settle)

lemma drained_no_queue:
  assumes "ser_inv s" "\<And>j. j < length (ser_jobs s) \<Longrightarrow> j \<in> set (ser_settled s)"
  shows "ser_queues s = []"
proof (cases "ser_queues s")
  case (Cons e q)
  obtain k j where e: "e = (k, j)" by (rule prod.exhaust)
  then have "map_of (ser_queues s) k = Some j" using Cons by simp
  then have "unsettled s k j" using assms(1) by (force simp: ser_inv_def last_inv_def split: option.splits)
  then show ?thesis using assms(2) [of j] by (simp add: unsettled_def)
qed

subsection \<open>Properties\<close>

definition example_attempt :: "lease_event list \<Rightarrow> int \<Rightarrow> lease_attempt" where
  "example_attempt es n = \<lparr>at_events = es, at_now = n, at_stamp = n, at_check = n\<rparr>"

text \<open>C26: The acquisition loop ends: along any schedule of attempts whose clock advances by
  at least the polling interval per failed attempt and which is long enough to cover the waiting
  time, it answers; a won answer means the token holds the key, an answer that is not won is the
  lock timeout (or the refusal of an over-long key), and then the table says only what the other
  instances made it say.\<close>

theorem takeLease_returns:
  assumes "sql_adapter repo" "omap_wf t" "as \<noteq> []" "polled (so_pollMs opts) start as"
    and "so_waitMs opts \<le> int (length as - 1) * so_pollMs opts"
  shows "\<exists>r t'. takeLease repo opts start key token as t = Some (r, t') \<and>
    (case r of
       Inr u \<Rightarrow> \<exists>ex. lease_view t' key = Some (token, ex)
     | Inl f \<Rightarrow> (f = lockTimeout opts \<or> length key > LEASE_KEY_MAX_LENGTH) \<and>
         (\<exists>n. lease_view t' = lease_view (lease_run repo t (concat (map at_events (take n as))))))"
proof -
  note lc = sql_adapter_contract [OF assms(1)]
  have "takeLease repo opts start key token as t \<noteq> None"
    by (rule takeLease_returns_aux [OF assms(4,3)]) (use assms(5) in simp)
  then obtain r t' where r: "takeLease repo opts start key token as t = Some (r, t')" by auto
  show ?thesis
  proof (cases r)
    case (Inr u)
    then show ?thesis using r lease_contract.takeLease_won [OF lc assms(2)] by auto
  next
    case (Inl f)
    have "f = lockTimeout opts \<or> length key > LEASE_KEY_MAX_LENGTH"
      using lease_contract.takeLease_refusal [OF lc assms(2) r [unfolded Inl]] .
    with lease_contract.takeLease_lost [OF lc assms(2) r [unfolded Inl]] r Inl
    show ?thesis by auto
  qed
qed

theorem takeLease_returns_witness:
  "\<exists>r t'. takeLease pg_leases (default_ser_options\<lparr>so_waitMs := 100\<rparr>) 0 ''proxy:p1'' ''tok-b''
     [example_attempt [] 0, example_attempt [] 100] example_table = Some (r, t')"
  using takeLease_returns [of pg_leases example_table "[example_attempt [] 0, example_attempt [] 100]"
      "default_ser_options\<lparr>so_waitMs := 100\<rparr>" 0 "''proxy:p1''" "''tok-b''"]
  by (force simp: sql_adapter_def omap_wf_def example_table_def example_attempt_def
      default_ser_options_def LEASE_POLL_MS_def)

text \<open>A section that took its lease gives it back: whatever the section did and however
  it ended, once it is over its token no longer holds the key.\<close>

theorem underLease_gives_back:
  assumes "sql_adapter repo" "omap_wf t" "\<And>ctx t1. omap_wf t1 \<Longrightarrow> omap_wf (snd (fn ctx t1))"
    and "takeLease repo opts start key token as t = Some (Inr (), t1)"
    and "underLease repo opts start key token as ctx False fn t = Some (r, t')"
  shows "r = fst (fn (holdingLease key token ctx) t1) \<and>
    view_holder (lease_view t' key) \<noteq> Some token"
  using lease_contract.underLease_released [OF sql_adapter_contract [OF assms(1)] assms(2-5)]
    assms(4,5) by (auto simp: underLease_def split: prod.splits)

theorem underLease_gives_back_witness:
  "\<exists>t'. underLease sqlite_leases default_ser_options 0 ''k'' ''tok'' [example_attempt [] 0] [] False
     (\<lambda>ctx t. (Inr (length ctx), t)) [] = Some (Inr 1, t') \<and>
     view_holder (lease_view t' ''k'') \<noteq> Some ''tok''"
proof -
  let ?fn = "\<lambda>(ctx :: lease_context) (t :: lease_table). (Inr (length ctx) :: failure + nat, t)"
  have tk: "takeLease sqlite_leases default_ser_options 0 ''k'' ''tok'' [example_attempt [] 0] [] =
      Some (Inr (), [(''k'', \<lparr>lr_owner = ''tok'', lr_expires_at = 60000, lr_created_at = 0,
        lr_updated_at = 0\<rparr>)])" by code_simp
  have ul: "underLease sqlite_leases default_ser_options 0 ''k'' ''tok'' [example_attempt [] 0] []
      False ?fn [] = Some (Inr 1, [])" by code_simp
  have "sql_adapter sqlite_leases" "omap_wf ([] :: lease_table)"
    by (simp_all add: sql_adapter_def omap_wf_def)
  from underLease_gives_back [OF this _ tk ul] ul show ?thesis by simp
qed

text \<open>Two lock keys are equal only if they are the same lock: no key of one family is a
  key of another, and a per-entity key determines its entity, so sections of different resources
  never exclude or admit each other by accident.\<close>

theorem lock_keys_never_collide:
  "lock_key f x = lock_key g y \<longleftrightarrow> f = g \<and> (if per_entity f then x = y else True)"
  using lock_key_family [of f x g y] lock_key_entity [of f x y]
  by (cases f) (auto simp: per_entity_def lock_key_defs)

text \<open>C6: In every state a process can reach, at most one call per key is running, and every
  earlier call of the same key has settled: calls of one key run one at a time, in the order they
  were made.\<close>

theorem serializer_mutual_exclusion:
  assumes "ser_reachable s" "job_running s j"
  shows "\<forall>i. i \<noteq> j \<longrightarrow> job_key s i = job_key s j \<longrightarrow> i < length (ser_jobs s) \<longrightarrow>
    \<not> job_running s i \<and> (i \<in> set (ser_settled s) \<longleftrightarrow> i < j)"
proof (intro allI impI)
  fix i assume i: "i \<noteq> j" "job_key s i = job_key s j" "i < length (ser_jobs s)"
  note inv = reachable_ser_inv [OF assms(1)]
  have "i \<in> set (ser_settled s)" if "i < j"
    using job_running_first [OF inv assms(2) that] i by (simp add: unsettled_def)
  moreover have "i < j" if "i \<in> set (ser_settled s)"
    using settled_before_running [OF inv assms(2) that i(2)] .
  moreover have "\<not> job_running s i"
    using job_running_unique [OF inv assms(2), of i] i by auto
  ultimately show "\<not> job_running s i \<and> (i \<in> set (ser_settled s) \<longleftrightarrow> i < j)" by blast
qed

theorem serializer_mutual_exclusion_witness:
  "\<not> job_running (serializePerKey ''k'' (serializePerKey ''k'' createKeyedSerializer)) 1"
proof -
  let ?s = "serializePerKey ''k'' (serializePerKey ''k'' createKeyedSerializer)"
  have "ser_reachable ?s" by (intro reachable_call ser_reachable.init)
  moreover have "job_running ?s 0" by code_simp
  moreover have "job_key ?s 1 = job_key ?s 0" "1 < length (ser_jobs ?s)" by code_simp+
  ultimately show ?thesis using serializer_mutual_exclusion [of ?s 0] by auto
qed

text \<open>C31: A key with a call that has not settled has one that is running, so no key ever
  stalls; and once every call has settled the map of queues is empty, so a process does not
  accumulate entries for keys it no longer works on.\<close>

theorem serializer_progress:
  assumes "ser_reachable s"
  shows "(\<forall>j < length (ser_jobs s). j \<notin> set (ser_settled s) \<longrightarrow>
      (\<exists>i. job_running s i \<and> job_key s i = job_key s j)) \<and>
    ((\<forall>j < length (ser_jobs s). j \<in> set (ser_settled s)) \<longrightarrow> ser_queues s = [])"
  using some_running [OF reachable_ser_inv [OF assms]] drained_no_queue [OF reachable_ser_inv [OF assms]]
  by (auto simp: unsettled_def)

theorem serializer_progress_witness:
  "ser_queues (settleGuard 0 (serializePerKey ''k'' createKeyedSerializer)) = []"
proof -
  let ?s = "serializePerKey ''k'' createKeyedSerializer"
  have "job_running ?s 0" by code_simp
  then have "ser_reachable (settleGuard 0 ?s)" by (intro reachable_settle reachable_call ser_reachable.init)
  moreover have "\<forall>j < length (ser_jobs (settleGuard 0 ?s)). j \<in> set (ser_settled (settleGuard 0 ?s))"
    by code_simp
  ultimately show ?thesis using serializer_progress [of "settleGuard 0 ?s"] by blast
qed

end
