(* ===== verification/Js_Time.thy ===== *)
theory Js_Time
  imports Json
begin

section \<open>Doubles and dates\<close>

text \<open>
  The arithmetic behind the RFC 3339 timestamps that \<open>server/src/ferrum-admin/egress-policy.ts\<close>
  reads: rounding of a non-negative rational to the nearest double (ties to even, subnormals
  included), which is what \<open>Number('0.ddd')\<close> and the multiplication of two doubles do, and
  \<open>Date.UTC\<close> of the language.
\<close>

subsection \<open>Rounding to a double\<close>

definition round_half_even :: "rat \<Rightarrow> int" where
  "round_half_even y = (let f = \<lfloor>y\<rfloor>; d = y - of_int f in
     if d < 1 / 2 then f else if 1 / 2 < d then f + 1 else if even f then f else f + 1)"

text \<open>The binary scale of a value below \<open>2 ^ 53\<close>: the largest \<open>e \<le> 1074\<close> that keeps the
  scaled value below \<open>2 ^ 53\<close>.\<close>

function double_scale :: "rat \<Rightarrow> nat \<Rightarrow> nat" where
  "double_scale x e = (if e < 1074 \<and> x * 2 ^ Suc e < 2 ^ 53 then double_scale x (Suc e) else e)"
  by pat_completeness auto
termination
  by (relation "measure (\<lambda>(x, e). 1074 - e)") auto

declare double_scale.simps [simp del]

definition to_double :: "rat \<Rightarrow> rat" where
  "to_double x = (let e = double_scale x 0 in of_int (round_half_even (x * 2 ^ e)) / 2 ^ e)"

lemma round_half_even_le: "y \<le> of_int n \<Longrightarrow> round_half_even y \<le> n"
proof -
  assume y: "y \<le> of_int n"
  have "\<lfloor>y\<rfloor> \<le> n" using y by linarith
  moreover have "\<lfloor>y\<rfloor> + 1 \<le> n" if "y - of_int \<lfloor>y\<rfloor> \<ge> 1 / 2"
  proof (rule ccontr)
    assume "\<not> \<lfloor>y\<rfloor> + 1 \<le> n"
    then have "\<lfloor>y\<rfloor> = n" using calculation by simp
    with that y show False by simp
  qed
  ultimately show ?thesis by (auto simp: round_half_even_def Let_def)
qed

lemma round_half_even_nonneg: "0 \<le> y \<Longrightarrow> 0 \<le> round_half_even y"
  by (auto simp: round_half_even_def Let_def)

lemma to_double_le: "x \<le> of_int n \<Longrightarrow> to_double x \<le> of_int n"
proof -
  assume x: "x \<le> of_int n"
  let ?e = "double_scale x 0"
  have "x * 2 ^ ?e \<le> of_int (n * 2 ^ ?e)" using x by simp
  then have "round_half_even (x * 2 ^ ?e) \<le> n * 2 ^ ?e" by (rule round_half_even_le)
  then have "(of_int (round_half_even (x * 2 ^ ?e)) :: rat) \<le> of_int (n * 2 ^ ?e)"
    using of_int_le_iff by blast
  then show ?thesis by (simp add: to_double_def Let_def field_simps)
qed

lemma to_double_nonneg: "0 \<le> x \<Longrightarrow> 0 \<le> to_double x"
  by (simp add: to_double_def Let_def round_half_even_nonneg)

subsection \<open>Digits\<close>

definition digit_val :: "char \<Rightarrow> nat option" where
  "digit_val c = (let n = of_char c :: nat in if 48 \<le> n \<and> n \<le> 57 then Some (n - 48) else None)"

definition is_digit :: "char \<Rightarrow> bool" where
  "is_digit c \<longleftrightarrow> digit_val c \<noteq> None"

fun digits_val :: "nat \<Rightarrow> string \<Rightarrow> nat" where
  "digits_val acc [] = acc"
| "digits_val acc (c # cs) = digits_val (10 * acc + (case digit_val c of Some d \<Rightarrow> d | None \<Rightarrow> 0)) cs"

text \<open>\<^verbatim>\<open>(\d{n})\<close> at the front of the text: its value and what follows.\<close>

definition read_digits :: "nat \<Rightarrow> string \<Rightarrow> (nat \<times> string) option" where
  "read_digits n s = (if n \<le> length s \<and> list_all is_digit (take n s)
     then Some (digits_val 0 (take n s), drop n s) else None)"

definition read_char :: "char list \<Rightarrow> string \<Rightarrow> string option" where
  "read_char cs s = (case s of [] \<Rightarrow> None | x # xs \<Rightarrow> if x \<in> set cs then Some xs else None)"

text \<open>The value of \<open>0.ds\<close> for a digit text \<open>ds\<close>.\<close>

definition fraction_of :: "string \<Rightarrow> rat" where
  "fraction_of ds = of_nat (digits_val 0 ds) / 10 ^ length ds"

lemma digit_val_bound: "digit_val c = Some d \<Longrightarrow> d \<le> 9"
  by (auto simp: digit_val_def Let_def split: if_splits)

lemma digits_val_bound: "digits_val acc ds < (acc + 1) * 10 ^ length ds"
proof (induction ds arbitrary: acc)
  case (Cons c cs)
  define d where "d = (case digit_val c of Some d \<Rightarrow> d | None \<Rightarrow> 0)"
  have "d \<le> 9" by (auto simp: d_def dest: digit_val_bound split: option.splits)
  then have "(10 * acc + d + 1) * 10 ^ length cs \<le> (10 * (acc + 1)) * 10 ^ length cs"
    by (intro mult_right_mono) auto
  with Cons [of "10 * acc + d"]
  have "digits_val (10 * acc + d) cs < (10 * (acc + 1)) * 10 ^ length cs" by linarith
  also have "(10 * (acc + 1)) * 10 ^ length cs = (acc + 1) * 10 ^ length (c # cs)"
    by (simp add: algebra_simps)
  finally show ?case by (simp only: digits_val.simps d_def)
qed simp

lemma fraction_of_bounds: "0 \<le> fraction_of ds \<and> fraction_of ds < 1"
proof -
  have "digits_val 0 ds < 10 ^ length ds" using digits_val_bound [of 0 ds] by simp
  then have "(of_nat (digits_val 0 ds) :: rat) < of_nat (10 ^ length ds)" by (simp only: of_nat_less_iff)
  then show ?thesis by (simp add: fraction_of_def)
qed

text \<open>\<^verbatim>\<open>Math.ceil(Number('0.ds') * 1000)\<close>, in double arithmetic.\<close>

definition fraction_millis :: "string \<Rightarrow> int" where
  "fraction_millis ds = \<lceil>to_double (to_double (fraction_of ds) * 1000)\<rceil>"

lemma fraction_millis_bounds: "0 \<le> fraction_millis ds \<and> fraction_millis ds \<le> 1000"
proof -
  have f: "0 \<le> fraction_of ds" "fraction_of ds \<le> of_int 1"
    using fraction_of_bounds [of ds] by auto
  have "0 \<le> to_double (fraction_of ds)" "to_double (fraction_of ds) \<le> 1"
    using to_double_nonneg [OF f(1)] to_double_le [OF f(2)] by auto
  then have g: "0 \<le> to_double (fraction_of ds) * 1000" "to_double (fraction_of ds) * 1000 \<le> of_int 1000"
    by auto
  have "0 \<le> to_double (to_double (fraction_of ds) * 1000)"
    "to_double (to_double (fraction_of ds) * 1000) \<le> of_int 1000"
    using to_double_nonneg [OF g(1)] to_double_le [OF g(2)] by auto
  then show ?thesis unfolding fraction_millis_def by (simp add: ceiling_le_iff)
qed

subsection \<open>\<open>Date.UTC\<close>\<close>

definition is_leap :: "int \<Rightarrow> bool" where
  "is_leap y \<longleftrightarrow> y mod 4 = 0 \<and> (y mod 100 \<noteq> 0 \<or> y mod 400 = 0)"

definition day_from_year :: "int \<Rightarrow> int" where
  "day_from_year y =
     365 * (y - 1970) + (y - 1969) div 4 - (y - 1901) div 100 + (y - 1601) div 400"

definition month_offset :: "bool \<Rightarrow> nat \<Rightarrow> int" where
  "month_offset leap m = sum_list (take m [31, if leap then 29 else 28, 31, 30, 31, 30, 31, 31, 30, 31, 30, 31])"

text \<open>\<open>Date.UTC(year, month, day, h, mi, s)\<close> with the zero-based month; a year from 0 to 99 is in
  the 1900s.\<close>

definition date_utc :: "int \<Rightarrow> int \<Rightarrow> int \<Rightarrow> int \<Rightarrow> int \<Rightarrow> int \<Rightarrow> int" where
  "date_utc year month day h mi s =
     (let y = (if 0 \<le> year \<and> year \<le> 99 then 1900 + year else year);
          ym = y + month div 12;
          mn = nat (month mod 12);
          days = day_from_year ym + month_offset (is_leap ym) mn + day - 1
      in days * 86400000 + h * 3600000 + mi * 60000 + s * 1000)"

end
