(* ===== verification/Egress_Policy.thy ===== *)
theory Egress_Policy
  imports Errors Js_Time
begin

section \<open>Backend egress policy\<close>

text \<open>
  Models \<open>server/src/ferrum-admin/egress-policy.ts\<close>: the closed parser of the gateway's
  \<open>backend-egress-policy\<close> answer and of its data-plane attestation, the verdict on what an
  attestation proves, this process's sightings of data planes, and the admission of a backend
  write. Parsers turn a JSON value into a record; where the source keeps the value and casts it,
  the record holds the same members, and members whose value the parser fixes (the schema
  version, the classification, the evaluation order, the source) are not repeated in it.
\<close>

datatype egress_mode = Mode_Both | Mode_Public | Mode_Private

datatype ip_class = Public_Class | Private_Reserved

datatype enforcement_scope =
    Local_Data_Plane | Unserved_Namespace | Admission_Only | No_Data_Plane

record dp_policy =
  dp_mode :: egress_mode
  dp_allowed :: "ip_class list"
  dp_blocked :: "ip_class list"
  dp_dangerous :: bool
  dp_allow_cidr :: bool
  dp_deny_cidr :: bool
  dp_guaranteed :: bool

datatype attestation_kind = Reported | Unknown

record dp_entry =
  de_node_id :: string
  de_connected_at :: string
  de_attestation :: attestation_kind
  de_policy :: "dp_policy option"

record dp_attestation =
  da_connected :: int
  da_reporting :: int
  da_unknown :: int
  da_weakest :: "dp_policy option"
  da_weakest_complete :: bool
  da_all_public_only :: bool
  da_planes :: "dp_entry list"

record egress_policy =
  ep_namespace :: string
  ep_scope :: enforcement_scope
  ep_mode :: egress_mode
  ep_allowed :: "ip_class list"
  ep_blocked :: "ip_class list"
  ep_dangerous :: bool
  ep_allow_cidr :: bool
  ep_deny_cidr :: bool
  ep_guaranteed :: bool
  ep_attestation :: "dp_attestation option"

subsection \<open>Vocabulary\<close>

definition KEYS :: "string list" where
  "KEYS = [''schema_version'', ''ip_classification'', ''namespace'', ''policy_scope'',
     ''enforcement_scope'', ''mode'', ''mode_allowed_ip_classes'', ''mode_blocked_ip_classes'',
     ''dangerous_ranges_blocked'', ''allow_cidr_overrides_present'',
     ''deny_cidr_overrides_present'', ''evaluation_order'', ''public_only_guaranteed'']"

definition EVALUATION_ORDER :: "string list" where
  "EVALUATION_ORDER = [''allow-cidrs'', ''deny-cidrs'', ''dangerous-ranges'', ''ip-mode'']"

definition DATA_PLANE_ATTESTATION_KEY :: string where
  "DATA_PLANE_ATTESTATION_KEY = ''data_plane_attestation''"

definition ATTESTATION_KEYS :: "string list" where
  "ATTESTATION_KEYS = [''source'', ''connected_data_planes'', ''reporting_data_planes'',
     ''unknown_data_planes'', ''weakest_policy'', ''weakest_policy_complete'',
     ''all_connected_public_only_guaranteed'', ''data_planes'']"

definition DATA_PLANE_ENTRY_KEYS :: "string list" where
  "DATA_PLANE_ENTRY_KEYS = [''node_id'', ''connected_at'', ''attestation'', ''policy'']"

definition DATA_PLANE_POLICY_KEYS :: "string list" where
  "DATA_PLANE_POLICY_KEYS = [''mode'', ''mode_allowed_ip_classes'', ''mode_blocked_ip_classes'',
     ''dangerous_ranges_blocked'', ''allow_cidr_overrides_present'',
     ''deny_cidr_overrides_present'', ''public_only_guaranteed'']"

fun mode_name :: "egress_mode \<Rightarrow> string" where
  "mode_name Mode_Both = ''both''"
| "mode_name Mode_Public = ''public''"
| "mode_name Mode_Private = ''private''"

fun class_name :: "ip_class \<Rightarrow> string" where
  "class_name Public_Class = ''public''"
| "class_name Private_Reserved = ''private-reserved''"

definition read_mode :: "json option \<Rightarrow> egress_mode option" where
  "read_mode v = (case as_str v of None \<Rightarrow> None | Some s \<Rightarrow>
     if s = ''both'' then Some Mode_Both else if s = ''public'' then Some Mode_Public
     else if s = ''private'' then Some Mode_Private else None)"

definition read_scope :: "json option \<Rightarrow> enforcement_scope option" where
  "read_scope v = (case as_str v of None \<Rightarrow> None | Some s \<Rightarrow>
     if s = ''local-data-plane'' then Some Local_Data_Plane
     else if s = ''unserved-namespace'' then Some Unserved_Namespace
     else if s = ''admission-only'' then Some Admission_Only
     else if s = ''no-data-plane'' then Some No_Data_Plane else None)"

definition exactArray :: "json option \<Rightarrow> string list \<Rightarrow> bool" where
  "exactArray v expected = (case v of
      Some (JArr xs) \<Rightarrow> length xs = length expected \<and>
        list_all (\<lambda>p. fst p = JStr (snd p)) (zip xs expected)
    | _ \<Rightarrow> False)"

fun modeClasses :: "egress_mode \<Rightarrow> ip_class list \<times> ip_class list" where
  "modeClasses Mode_Both = ([Public_Class, Private_Reserved], [])"
| "modeClasses Mode_Public = ([Public_Class], [Private_Reserved])"
| "modeClasses Mode_Private = ([Private_Reserved], [Public_Class])"

subsection \<open>RFC 3339 timestamps\<close>

text \<open>The groups of \<open>RFC3339_DATE_TIME\<close>: the fraction's digits, and the offset with its sign.\<close>

record rfc_match =
  m_year :: nat
  m_month :: nat
  m_day :: nat
  m_hour :: nat
  m_minute :: nat
  m_second :: nat
  m_fraction :: "string option"
  m_offset :: "(bool \<times> nat \<times> nat) option"

text \<open>The optional fraction \<^verbatim>\<open>(\.\d+)?\<close>: a dot without a digit leaves the text unread.\<close>

definition read_fraction :: "string \<Rightarrow> string option \<times> string" where
  "read_fraction s = (case s of
      [] \<Rightarrow> (None, s)
    | x # xs \<Rightarrow> if x = CHR ''.'' \<and> takeWhile is_digit xs \<noteq> []
               then (Some (takeWhile is_digit xs), dropWhile is_digit xs) else (None, s))"

text \<open>\<^verbatim>\<open>(?:[Zz]|([+-])(\d{2}):(\d{2}))$\<close>.\<close>

definition read_zone :: "string \<Rightarrow> (bool \<times> nat \<times> nat) option option" where
  "read_zone s = (case s of
      [] \<Rightarrow> None
    | x # xs \<Rightarrow>
        if x \<in> {CHR ''Z'', CHR ''z''} then (if xs = [] then Some None else None)
        else if x \<in> {CHR ''+'', CHR ''-''} then
          (case read_digits 2 xs of None \<Rightarrow> None | Some (h, s1) \<Rightarrow>
           (case read_char [CHR '':''] s1 of None \<Rightarrow> None | Some s2 \<Rightarrow>
            (case read_digits 2 s2 of None \<Rightarrow> None | Some (m, s3) \<Rightarrow>
               if s3 = [] then Some (Some (x = CHR ''-'', h, m)) else None)))
        else None)"

definition rfc3339_exec :: "string \<Rightarrow> rfc_match option" where
  "rfc3339_exec s =
     (case read_digits 4 s of None \<Rightarrow> None | Some (y, s1) \<Rightarrow>
     (case read_char [CHR ''-''] s1 of None \<Rightarrow> None | Some s2 \<Rightarrow>
     (case read_digits 2 s2 of None \<Rightarrow> None | Some (mo, s3) \<Rightarrow>
     (case read_char [CHR ''-''] s3 of None \<Rightarrow> None | Some s4 \<Rightarrow>
     (case read_digits 2 s4 of None \<Rightarrow> None | Some (d, s5) \<Rightarrow>
     (case read_char [CHR ''T'', CHR ''t''] s5 of None \<Rightarrow> None | Some s6 \<Rightarrow>
     (case read_digits 2 s6 of None \<Rightarrow> None | Some (h, s7) \<Rightarrow>
     (case read_char [CHR '':''] s7 of None \<Rightarrow> None | Some s8 \<Rightarrow>
     (case read_digits 2 s8 of None \<Rightarrow> None | Some (mi, s9) \<Rightarrow>
     (case read_char [CHR '':''] s9 of None \<Rightarrow> None | Some s10 \<Rightarrow>
     (case read_digits 2 s10 of None \<Rightarrow> None | Some (sec, s11) \<Rightarrow>
     (case read_fraction s11 of (fr, s12) \<Rightarrow>
     (case read_zone s12 of None \<Rightarrow> None | Some z \<Rightarrow>
        Some \<lparr>m_year = y, m_month = mo, m_day = d, m_hour = h, m_minute = mi, m_second = sec,
              m_fraction = fr, m_offset = z\<rparr>)))))))))))))"

definition isRfc3339DateTime :: "json option \<Rightarrow> bool" where
  "isRfc3339DateTime v = (case Option.bind (as_str v) rfc3339_exec of
      None \<Rightarrow> False
    | Some m \<Rightarrow>
        (let leap = is_leap (int (m_year m));
             lens = [31, if leap then 29 else 28, 31, 30, 31, 30, 31, 31, 30, 31, 30, 31] :: nat list;
             days = (if 1 \<le> m_month m \<and> m_month m \<le> 12 then lens ! (m_month m - 1) else 0)
         in 1 \<le> m_day m \<and> m_day m \<le> days \<and> m_hour m \<le> 23 \<and> m_minute m \<le> 59 \<and> m_second m \<le> 60 \<and>
            (case m_offset m of None \<Rightarrow> True | Some (neg, oh, om) \<Rightarrow> oh \<le> 23 \<and> om \<le> 59)))"

text \<open>\<open>None\<close> is \<open>NaN\<close>.\<close>

definition rfc3339Millis :: "string \<Rightarrow> int option" where
  "rfc3339Millis value = (case rfc3339_exec value of
      None \<Rightarrow> None
    | Some m \<Rightarrow>
        (let fraction = (case m_fraction m of None \<Rightarrow> 0 | Some ds \<Rightarrow> fraction_millis ds);
             offsetMinutes = (case m_offset m of None \<Rightarrow> 0 | Some (neg, oh, om) \<Rightarrow>
                (if neg then -1 else 1) * (int oh * 60 + int om));
             utc = date_utc (int (m_year m)) (int (m_month m) - 1) (int (m_day m))
                     (int (m_hour m)) (int (m_minute m)) (int (m_second m))
         in Some (utc + fraction - offsetMinutes * 60000)))"

subsection \<open>Parsing the policy and its attestation\<close>

definition SUPPORTED_EGRESS_POLICY_SCHEMA :: rat where
  "SUPPORTED_EGRESS_POLICY_SCHEMA = 2"

definition isUnsupportedEgressPolicySchema :: "json \<Rightarrow> bool" where
  "isUnsupportedEgressPolicySchema v = (case as_record v of
      None \<Rightarrow> False
    | Some m \<Rightarrow> (case as_num (map_of m ''schema_version'') of
        None \<Rightarrow> False
      | Some r \<Rightarrow> is_integer_num r \<and> r \<noteq> SUPPORTED_EGRESS_POLICY_SCHEMA))"

text \<open>One data plane's report.\<close>

definition parseDataPlanePolicy :: "json \<Rightarrow> dp_policy option" where
  "parseDataPlanePolicy v = (case as_record v of
      None \<Rightarrow> None
    | Some m \<Rightarrow>
        if \<not> has_exact_keys m DATA_PLANE_POLICY_KEYS then None
        else (case read_mode (map_of m ''mode'') of
          None \<Rightarrow> None
        | Some md \<Rightarrow>
            (case modeClasses md of (allowed, blocked) \<Rightarrow>
             if \<not> exactArray (map_of m ''mode_allowed_ip_classes'') (map class_name allowed) \<or>
                \<not> exactArray (map_of m ''mode_blocked_ip_classes'') (map class_name blocked)
             then None
             else (case (as_bool (map_of m ''dangerous_ranges_blocked''),
                         as_bool (map_of m ''allow_cidr_overrides_present''),
                         as_bool (map_of m ''deny_cidr_overrides_present'')) of
                 (Some dg, Some al, Some dn) \<Rightarrow>
                   if map_of m ''public_only_guaranteed'' \<noteq> Some (JBool (md = Mode_Public \<and> \<not> al))
                   then None
                   else Some \<lparr>dp_mode = md, dp_allowed = allowed, dp_blocked = blocked,
                          dp_dangerous = dg, dp_allow_cidr = al, dp_deny_cidr = dn,
                          dp_guaranteed = (md = Mode_Public \<and> \<not> al)\<rparr>
               | _ \<Rightarrow> None))))"

definition parseDataPlaneEntry :: "json \<Rightarrow> dp_entry option" where
  "parseDataPlaneEntry v = (case as_record v of
      None \<Rightarrow> None
    | Some m \<Rightarrow>
        if \<not> has_exact_keys m DATA_PLANE_ENTRY_KEYS then None
        else (case (as_str (map_of m ''node_id''), as_str (map_of m ''connected_at'')) of
          (Some nid, Some cat) \<Rightarrow>
            if nid = [] \<or> \<not> isRfc3339DateTime (map_of m ''connected_at'') then None
            else if map_of m ''attestation'' = Some (JStr ''reported'') then
              (case Option.bind (map_of m ''policy'') parseDataPlanePolicy of
                 None \<Rightarrow> None
               | Some p \<Rightarrow> Some \<lparr>de_node_id = nid, de_connected_at = cat,
                                de_attestation = Reported, de_policy = Some p\<rparr>)
            else if map_of m ''attestation'' = Some (JStr ''unknown'') \<and> map_of m ''policy'' = Some JNull
            then Some \<lparr>de_node_id = nid, de_connected_at = cat,
                       de_attestation = Unknown, de_policy = None\<rparr>
            else None
        | _ \<Rightarrow> None))"

text \<open>Edge's own aggregation of two reports.\<close>

definition weakenPolicy :: "dp_policy \<Rightarrow> dp_policy \<Rightarrow> dp_policy" where
  "weakenPolicy a b =
     (let publicAllowed = (dp_mode a \<noteq> Mode_Private \<or> dp_mode b \<noteq> Mode_Private);
          privateAllowed = (dp_mode a \<noteq> Mode_Public \<or> dp_mode b \<noteq> Mode_Public);
          mode = (if \<not> privateAllowed then Mode_Public
                  else if \<not> publicAllowed then Mode_Private else Mode_Both);
          allowOverrides = (dp_allow_cidr a \<or> dp_allow_cidr b)
      in \<lparr>dp_mode = mode, dp_allowed = fst (modeClasses mode), dp_blocked = snd (modeClasses mode),
          dp_dangerous = (dp_dangerous a \<and> dp_dangerous b), dp_allow_cidr = allowOverrides,
          dp_deny_cidr = (dp_deny_cidr a \<and> dp_deny_cidr b),
          dp_guaranteed = (mode = Mode_Public \<and> \<not> allowOverrides)\<rparr>)"

definition policy_json :: "dp_policy \<Rightarrow> json" where
  "policy_json p = JObj
     [(''mode'', JStr (mode_name (dp_mode p))),
      (''mode_allowed_ip_classes'', JArr (map (JStr \<circ> class_name) (dp_allowed p))),
      (''mode_blocked_ip_classes'', JArr (map (JStr \<circ> class_name) (dp_blocked p))),
      (''dangerous_ranges_blocked'', JBool (dp_dangerous p)),
      (''allow_cidr_overrides_present'', JBool (dp_allow_cidr p)),
      (''deny_cidr_overrides_present'', JBool (dp_deny_cidr p)),
      (''public_only_guaranteed'', JBool (dp_guaranteed p))]"

definition policy_opt_json :: "dp_policy option \<Rightarrow> json" where
  "policy_opt_json p = (case p of None \<Rightarrow> JNull | Some q \<Rightarrow> policy_json q)"

datatype attestation_problem = Malformed | Inconsistent | Out_Of_Scope

text \<open>The loop over the listed streams: the entries, the number that report, and the weakest
  combination of the reports; \<open>None\<close> once an entry does not parse.\<close>

fun read_planes ::
  "json list \<Rightarrow> dp_policy option \<Rightarrow> nat \<Rightarrow> (dp_entry list \<times> dp_policy option \<times> nat) option" where
  "read_planes [] weakest reporting = Some ([], weakest, reporting)"
| "read_planes (plane # planes) weakest reporting =
     (case parseDataPlaneEntry plane of
        None \<Rightarrow> None
      | Some entry \<Rightarrow>
          (case (case de_policy entry of
                   None \<Rightarrow> read_planes planes weakest reporting
                 | Some p \<Rightarrow> read_planes planes
                     (case weakest of None \<Rightarrow> Some p | Some w \<Rightarrow> Some (weakenPolicy w p))
                     (Suc reporting)) of
             None \<Rightarrow> None
           | Some (es, w, r) \<Rightarrow> Some (entry # es, w, r)))"

definition readDataPlaneAttestation :: "json \<Rightarrow> attestation_problem + dp_attestation" where
  "readDataPlaneAttestation v = (case as_record v of
      None \<Rightarrow> Inl Malformed
    | Some m \<Rightarrow>
        if \<not> has_exact_keys m ATTESTATION_KEYS then Inl Malformed
        else (case (map_of m ''connected_data_planes'', map_of m ''data_planes'') of
          (Some (JNum conn), Some (JArr planes)) \<Rightarrow>
            if map_of m ''source'' \<noteq> Some (JStr ''configsync-subscribe'') \<or>
               \<not> is_safe_integer conn \<or> conn < 0 then Inl Malformed
            else (case read_planes planes None 0 of
              None \<Rightarrow> Inl Malformed
            | Some (entries, weakest, reporting) \<Rightarrow>
                (case map_of m ''weakest_policy'' of
                   None \<Rightarrow> Inl Malformed
                 | Some wp \<Rightarrow>
                     if wp \<noteq> JNull \<and> parseDataPlanePolicy wp = None then Inl Malformed
                     else
                       (let complete = (0 < conn \<and> of_nat reporting = conn) in
                        if of_nat (length planes) \<noteq> conn \<or>
                           map_of m ''reporting_data_planes'' \<noteq> Some (JNum (of_nat reporting)) \<or>
                           map_of m ''unknown_data_planes'' \<noteq> Some (JNum (conn - of_nat reporting)) \<or>
                           \<not> deep_eq wp (policy_opt_json weakest) \<or>
                           map_of m ''weakest_policy_complete'' \<noteq> Some (JBool complete) \<or>
                           map_of m ''all_connected_public_only_guaranteed'' \<noteq>
                             Some (JBool (complete \<and>
                               (case weakest of None \<Rightarrow> False | Some w \<Rightarrow> dp_guaranteed w)))
                        then Inl Inconsistent
                        else Inr \<lparr>da_connected = \<lfloor>conn\<rfloor>, da_reporting = int reporting,
                                  da_unknown = \<lfloor>conn\<rfloor> - int reporting, da_weakest = weakest,
                                  da_weakest_complete = complete,
                                  da_all_public_only = (complete \<and>
                                    (case weakest of None \<Rightarrow> False | Some w \<Rightarrow> dp_guaranteed w)),
                                  da_planes = entries\<rparr>)))
        | _ \<Rightarrow> Inl Malformed))"

record policy_reading =
  pr_policy :: egress_policy
  pr_problem :: "attestation_problem option"

text \<open>The members other than the attestation: exactly the known keys, each with a known value,
  and a guarantee flag that follows schema 2's rule.\<close>

definition read_policy_row :: "string \<Rightarrow> (string \<times> json) list \<Rightarrow> egress_policy option" where
  "read_policy_row ns row =
     (if \<not> has_exact_keys row KEYS then None
      else if map_of row ''schema_version'' \<noteq> Some (JNum SUPPORTED_EGRESS_POLICY_SCHEMA) \<or>
              map_of row ''ip_classification'' \<noteq> Some (JStr ''ferrum-private-reserved-v1'') \<or>
              map_of row ''namespace'' \<noteq> Some (JStr ns) \<or>
              map_of row ''policy_scope'' \<noteq> Some (JStr ''process'') then None
      else (case (read_scope (map_of row ''enforcement_scope''), read_mode (map_of row ''mode''),
                  as_bool (map_of row ''dangerous_ranges_blocked''),
                  as_bool (map_of row ''allow_cidr_overrides_present''),
                  as_bool (map_of row ''deny_cidr_overrides_present''),
                  as_bool (map_of row ''public_only_guaranteed'')) of
         (Some sc, Some md, Some dg, Some al, Some dn, Some gu) \<Rightarrow>
           if \<not> exactArray (map_of row ''mode_allowed_ip_classes'')
                 (map class_name (fst (modeClasses md))) \<or>
              \<not> exactArray (map_of row ''mode_blocked_ip_classes'')
                 (map class_name (snd (modeClasses md))) \<or>
              \<not> exactArray (map_of row ''evaluation_order'') EVALUATION_ORDER \<or>
              gu \<noteq> (sc = Local_Data_Plane \<and> md = Mode_Public \<and> \<not> al) then None
           else Some \<lparr>ep_namespace = ns, ep_scope = sc, ep_mode = md,
                  ep_allowed = fst (modeClasses md), ep_blocked = snd (modeClasses md),
                  ep_dangerous = dg, ep_allow_cidr = al, ep_deny_cidr = dn,
                  ep_guaranteed = gu, ep_attestation = None\<rparr>
       | _ \<Rightarrow> None))"

definition readBackendEgressPolicy :: "json \<Rightarrow> string \<Rightarrow> policy_reading option" where
  "readBackendEgressPolicy v ns = (case as_record v of
      None \<Rightarrow> None
    | Some value \<Rightarrow>
        (case read_policy_row ns (omap_delete DATA_PLANE_ATTESTATION_KEY value) of
           None \<Rightarrow> None
         | Some policy \<Rightarrow>
             (case map_of value DATA_PLANE_ATTESTATION_KEY of
                None \<Rightarrow> Some \<lparr>pr_policy = policy, pr_problem = None\<rparr>
              | Some av \<Rightarrow>
                  if ep_scope policy \<noteq> Admission_Only
                  then Some \<lparr>pr_policy = policy, pr_problem = Some Out_Of_Scope\<rparr>
                  else (case readDataPlaneAttestation av of
                     Inl problem \<Rightarrow> Some \<lparr>pr_policy = policy, pr_problem = Some problem\<rparr>
                   | Inr att \<Rightarrow> Some \<lparr>pr_policy = policy\<lparr>ep_attestation := Some att\<rparr>,
                                      pr_problem = None\<rparr>))))"

definition parseBackendEgressPolicy :: "json \<Rightarrow> string \<Rightarrow> egress_policy option" where
  "parseBackendEgressPolicy v ns = (case readBackendEgressPolicy v ns of
      None \<Rightarrow> None
    | Some reading \<Rightarrow> if pr_problem reading = None then Some (pr_policy reading) else None)"

subsection \<open>What a reading proves\<close>

definition provesLocalPublicEgress :: "egress_policy \<Rightarrow> bool" where
  "provesLocalPublicEgress p \<longleftrightarrow> ep_scope p = Local_Data_Plane \<and> ep_guaranteed p"

datatype attestation_verdict =
    V_Guaranteed | V_Attestation_Absent | V_Attestation_Unreadable
  | V_Data_Planes_Not_Public_Only | V_Expected_Data_Planes_Unset
  | V_Fewer_Data_Planes_Than_Expected | V_Data_Plane_Recently_Connected
  | V_Data_Plane_Clock_Skew | V_Not_Control_Plane

definition DATA_PLANE_SETTLE_MS :: int where "DATA_PLANE_SETTLE_MS = 60000"
definition CLOCK_SKEW_ALLOWANCE_MS :: int where "CLOCK_SKEW_ALLOWANCE_MS = 30000"
definition STREAM_AGE_CEILING_MS :: int where "STREAM_AGE_CEILING_MS = 86401000"

definition SETTLED_AGE_MS :: int where
  "SETTLED_AGE_MS = DATA_PLANE_SETTLE_MS + CLOCK_SKEW_ALLOWANCE_MS"

definition MAX_PLAUSIBLE_AGE_MS :: int where
  "MAX_PLAUSIBLE_AGE_MS = STREAM_AGE_CEILING_MS + CLOCK_SKEW_ALLOWANCE_MS"

text \<open>When an answer was read. \<open>fr_readAt\<close> is the request's wall clock, with the source's
  default (\<open>Date.now()\<close>) already applied.\<close>

record freshness =
  fr_readAt :: int
  fr_gatewayDate :: "int option"
  fr_settledNodeIds :: "string list option"

definition isExpectedDataPlanes :: "rat option \<Rightarrow> bool" where
  "isExpectedDataPlanes v = (case v of None \<Rightarrow> False | Some r \<Rightarrow> is_safe_integer r \<and> 0 < r)"

definition allPublicOnly :: "dp_attestation \<Rightarrow> bool" where
  "allPublicOnly att \<longleftrightarrow>
     da_all_public_only att \<and> da_weakest_complete att \<and> 0 < da_connected att \<and>
     da_unknown att = 0 \<and> int (length (da_planes att)) = da_connected att \<and>
     list_all (\<lambda>entry. de_attestation entry = Reported \<and>
        (case de_policy entry of None \<Rightarrow> False
         | Some p \<Rightarrow> dp_mode p = Mode_Public \<and> \<not> dp_allow_cidr p)) (da_planes att)"

definition clocks_of :: "freshness \<Rightarrow> int list" where
  "clocks_of fr = fr_readAt fr # (case fr_gatewayDate fr of None \<Rightarrow> [] | Some d \<Rightarrow> [d])"

text \<open>An instant that is \<open>NaN\<close> fails every comparison, and \<open>Math.min\<close> with it is \<open>NaN\<close>.\<close>

definition plausible_age :: "int list \<Rightarrow> int option \<Rightarrow> bool" where
  "plausible_age clocks connectedAt = (case connectedAt of
      None \<Rightarrow> clocks = []
    | Some c \<Rightarrow> list_all (\<lambda>clock. - CLOCK_SKEW_ALLOWANCE_MS \<le> clock - c \<and>
                                clock - c \<le> MAX_PLAUSIBLE_AGE_MS) clocks)"

definition settled_age :: "int list \<Rightarrow> int option \<Rightarrow> bool" where
  "settled_age clocks connectedAt = (case connectedAt of
      None \<Rightarrow> clocks = []
    | Some c \<Rightarrow> list_all (\<lambda>clock. SETTLED_AGE_MS \<le> clock - c) clocks)"

definition nan_min :: "int option \<Rightarrow> int option \<Rightarrow> int option" where
  "nan_min a b = (case a of None \<Rightarrow> None | Some x \<Rightarrow> (case b of None \<Rightarrow> None | Some y \<Rightarrow> Some (min x y)))"

text \<open>The loop that collects each node's earliest stream and whether every age is plausible.\<close>

fun first_connected ::
  "int list \<Rightarrow> dp_entry list \<Rightarrow> (string \<times> int option) list \<Rightarrow> bool
    \<Rightarrow> (string \<times> int option) list \<times> bool" where
  "first_connected clocks [] fc plausible = (fc, plausible)"
| "first_connected clocks (entry # entries) fc plausible =
     (let connectedAt = rfc3339Millis (de_connected_at entry);
          known = (case map_of fc (de_node_id entry) of None \<Rightarrow> connectedAt | Some k \<Rightarrow> k)
      in first_connected clocks entries
           (omap_set (de_node_id entry) (nan_min known connectedAt) fc)
           (plausible \<and> plausible_age clocks connectedAt))"

definition node_settled :: "freshness \<Rightarrow> bool \<Rightarrow> string \<times> int option \<Rightarrow> bool" where
  "node_settled fr ageReadable e \<longleftrightarrow>
     (case fr_settledNodeIds fr of None \<Rightarrow> False | Some ids \<Rightarrow> fst e \<in> set ids) \<or>
     (ageReadable \<and> settled_age (clocks_of fr) (snd e))"

definition dataPlaneAttestationVerdict ::
  "egress_policy \<Rightarrow> rat option \<Rightarrow> freshness \<Rightarrow> attestation_verdict" where
  "dataPlaneAttestationVerdict policy expected fr =
     (if ep_scope policy \<noteq> Admission_Only then V_Not_Control_Plane
      else case ep_attestation policy of
        None \<Rightarrow> V_Attestation_Absent
      | Some att \<Rightarrow>
          if \<not> allPublicOnly att then V_Data_Planes_Not_Public_Only
          else case expected of
            None \<Rightarrow> V_Expected_Data_Planes_Unset
          | Some n \<Rightarrow>
              if \<not> isExpectedDataPlanes (Some n) then V_Expected_Data_Planes_Unset
              else (case first_connected (clocks_of fr) (da_planes att) [] True of (fc, plausible) \<Rightarrow>
                if of_nat (length fc) < n then V_Fewer_Data_Planes_Than_Expected
                else
                  (let ageReadable = (plausible \<and> fr_gatewayDate fr \<noteq> None);
                       settled = length (filter (node_settled fr ageReadable) fc)
                   in if n \<le> of_nat settled then V_Guaranteed
                      else if plausible then V_Data_Plane_Recently_Connected
                      else V_Data_Plane_Clock_Skew)))"

definition provesDataPlanePublicEgress :: "egress_policy \<Rightarrow> rat option \<Rightarrow> freshness \<Rightarrow> bool" where
  "provesDataPlanePublicEgress policy expected fr \<longleftrightarrow>
     dataPlaneAttestationVerdict policy expected fr = V_Guaranteed"

definition provesPublicEgress :: "egress_policy \<Rightarrow> rat option \<Rightarrow> freshness \<Rightarrow> bool" where
  "provesPublicEgress policy expected fr \<longleftrightarrow>
     provesLocalPublicEgress policy \<or> provesDataPlanePublicEgress policy expected fr"

definition describeDataPlaneAttestation :: "attestation_verdict \<Rightarrow> string option" where
  "describeDataPlaneAttestation v = (case v of
      V_Attestation_Absent \<Rightarrow>
        Some ''the control plane reports no data-plane egress attestation (Edge v0.9.14 adds it)''
    | V_Attestation_Unreadable \<Rightarrow>
        Some ''the data-plane egress attestation is unreadable and was set aside''
    | V_Data_Planes_Not_Public_Only \<Rightarrow>
        Some ''not every connected data plane attests public-only egress, or none is connected''
    | V_Expected_Data_Planes_Unset \<Rightarrow>
        Some ''NEXUS_EXPECTED_DATA_PLANES is not set, so the data-plane attestation cannot grant it''
    | V_Fewer_Data_Planes_Than_Expected \<Rightarrow>
        Some (''fewer distinct data planes (node_id) are connected to the control plane '' @
              ''than NEXUS_EXPECTED_DATA_PLANES'')
    | V_Data_Plane_Recently_Connected \<Rightarrow>
        Some (''a data plane connected too recently to rule out a restarted data plane still '' @
              ''being counted twice; retry shortly'')
    | V_Data_Plane_Clock_Skew \<Rightarrow>
        Some (''a data plane'' @ [CHR 0x27] @ ''s connected_at is implausible against Nexus'' @
              [CHR 0x27] @ ''s or the gateway'' @ [CHR 0x27] @
              ''s clock; check clock synchronization'')
    | _ \<Rightarrow> None)"

subsection \<open>Sightings\<close>

text \<open>The record of one process: each node's first and last sighting on the monotonic clock.\<close>

definition SIGHTING_RETENTION_MS :: rat where "SIGHTING_RETENTION_MS = 15 * 60000"
definition MAX_SIGHTINGS :: nat where "MAX_SIGHTINGS = 20000"

type_synonym sightings = "(string \<times> rat \<times> rat) list"

fun sight_listed :: "rat \<Rightarrow> rat \<Rightarrow> string list \<Rightarrow> sightings \<Rightarrow> string list \<Rightarrow> sightings \<times> string list" where
  "sight_listed seenAt startedAt [] m settled = (m, settled)"
| "sight_listed seenAt startedAt (nodeId # ids) m settled =
     (case map_of m nodeId of
        None \<Rightarrow> sight_listed seenAt startedAt ids (omap_set nodeId (seenAt, seenAt) m) settled
      | Some (firstSeen, lastSeen) \<Rightarrow>
          sight_listed seenAt startedAt ids
            (omap_set nodeId (firstSeen, max lastSeen seenAt) m)
            (if of_int DATA_PLANE_SETTLE_MS \<le> startedAt - firstSeen
             then settled @ [nodeId] else settled))"

text \<open>The second loop iterates over the map while it deletes from it, so the size it compares
  is the size so far; \<open>todo\<close> is what the iteration still has to visit.\<close>

fun forget :: "rat \<Rightarrow> string list \<Rightarrow> sightings \<Rightarrow> sightings \<Rightarrow> sightings" where
  "forget seenAt listed [] m = m"
| "forget seenAt listed ((nodeId, (firstSeen, lastSeen)) # todo) m =
     (if nodeId \<in> set listed then forget seenAt listed todo m
      else if SIGHTING_RETENTION_MS < seenAt - lastSeen \<or> MAX_SIGHTINGS < length m
      then forget seenAt listed todo (omap_delete nodeId m)
      else forget seenAt listed todo m)"

definition listed_nodes :: "egress_policy \<Rightarrow> string list" where
  "listed_nodes policy = js_set (map de_node_id
     (case (if ep_scope policy = Admission_Only then ep_attestation policy else None) of
        None \<Rightarrow> [] | Some att \<Rightarrow> da_planes att))"

definition observe :: "rat \<Rightarrow> sightings \<Rightarrow> egress_policy \<Rightarrow> rat \<Rightarrow> string list \<times> sightings" where
  "observe seenAt m policy startedAt =
     (case sight_listed seenAt startedAt (listed_nodes policy) m [] of
        (m', settled) \<Rightarrow> (settled, forget seenAt (listed_nodes policy) m' m'))"

subsection \<open>Admission of a backend write\<close>

datatype egress_profile = Public_Guaranteed | Private_Upstreams_Opt_In | Unattested_Edge_Opt_In

record egress_options =
  eo_allowPrivateUpstreams :: bool
  eo_allowUnattestedEdgeEgress :: bool
  eo_expectedDataPlanes :: "rat option"

record egress_assessment =
  ea_publicEgressGuaranteed :: bool
  ea_admission :: "(egress_profile \<times> enforcement_scope) option"
  ea_dataPlaneAttestation :: attestation_verdict

definition assessBackendEgress ::
  "policy_reading \<Rightarrow> egress_options \<Rightarrow> freshness \<Rightarrow> egress_assessment" where
  "assessBackendEgress reading options fr =
     (let policy = pr_policy reading;
          usable = (pr_problem reading = None);
          guaranteed = (usable \<and> provesPublicEgress policy (eo_expectedDataPlanes options) fr);
          verdict = (if usable then dataPlaneAttestationVerdict policy (eo_expectedDataPlanes options) fr
                     else V_Attestation_Unreadable);
          scope = ep_scope policy;
          admission =
            (if guaranteed then Some (Public_Guaranteed, scope)
             else if eo_allowPrivateUpstreams options then Some (Private_Upstreams_Opt_In, scope)
             else if eo_allowUnattestedEdgeEgress options \<and> ep_guaranteed policy
             then Some (Unattested_Edge_Opt_In, scope) else None)
      in \<lparr>ea_publicEgressGuaranteed = guaranteed, ea_admission = admission,
          ea_dataPlaneAttestation = verdict\<rparr>)"

definition admitBackendEgress ::
  "egress_policy \<Rightarrow> egress_options \<Rightarrow> freshness \<Rightarrow> (egress_profile \<times> enforcement_scope) option" where
  "admitBackendEgress policy options fr =
     ea_admission (assessBackendEgress \<lparr>pr_policy = policy, pr_problem = None\<rparr> options fr)"

subsection \<open>The aggregation of reports\<close>

text \<open>A report as Edge builds it: its class lists and its guarantee follow from its mode and its
  allow overlay.\<close>

definition dp_consistent :: "dp_policy \<Rightarrow> bool" where
  "dp_consistent p \<longleftrightarrow> dp_allowed p = fst (modeClasses (dp_mode p)) \<and>
     dp_blocked p = snd (modeClasses (dp_mode p)) \<and>
     dp_guaranteed p = (dp_mode p = Mode_Public \<and> \<not> dp_allow_cidr p)"

lemma parseDataPlanePolicy_consistent: "parseDataPlanePolicy v = Some p \<Longrightarrow> dp_consistent p"
  by (auto simp: parseDataPlanePolicy_def dp_consistent_def Let_def
      split: option.splits if_splits prod.splits)

lemma weaken_consistent: "dp_consistent (weakenPolicy a b)"
  by (simp add: weakenPolicy_def dp_consistent_def Let_def)

lemma weaken_idem: "dp_consistent a \<Longrightarrow> weakenPolicy a a = a"
  by (cases "dp_mode a"; cases a) (simp_all add: weakenPolicy_def dp_consistent_def Let_def)

lemma weaken_commute: "weakenPolicy a b = weakenPolicy b a"
  by (auto simp: weakenPolicy_def Let_def)

lemma weaken_assoc: "weakenPolicy (weakenPolicy a b) c = weakenPolicy a (weakenPolicy b c)"
  by (cases "dp_mode a"; cases "dp_mode b"; cases "dp_mode c")
     (auto simp: weakenPolicy_def Let_def)

lemma weaken_guaranteed:
  "dp_consistent a \<Longrightarrow> dp_consistent b \<Longrightarrow>
     dp_guaranteed (weakenPolicy a b) \<longleftrightarrow> dp_guaranteed a \<and> dp_guaranteed b"
  by (auto simp: weakenPolicy_def dp_consistent_def Let_def)

text \<open>Whether a fold of reports, possibly of none, keeps the guarantee.\<close>

definition weakest_ok :: "dp_policy option \<Rightarrow> bool" where
  "weakest_ok w \<longleftrightarrow> (case w of None \<Rightarrow> True | Some p \<Rightarrow> dp_consistent p)"

definition weakest_guaranteed :: "dp_policy option \<Rightarrow> bool" where
  "weakest_guaranteed w \<longleftrightarrow> (case w of None \<Rightarrow> True | Some p \<Rightarrow> dp_guaranteed p)"

definition entry_reports :: "dp_entry \<Rightarrow> bool" where
  "entry_reports e \<longleftrightarrow> de_policy e \<noteq> None"

lemma parseDataPlaneEntry_ok:
  assumes "parseDataPlaneEntry v = Some e"
  shows "weakest_ok (de_policy e)" "de_attestation e = Reported \<longleftrightarrow> entry_reports e"
  using assms parseDataPlanePolicy_consistent
  by (auto simp: parseDataPlaneEntry_def weakest_ok_def entry_reports_def bind_eq_Some_conv
      split: option.splits if_splits)

lemma read_planes_spec:
  assumes "read_planes planes w r = Some (es, w', r')" "weakest_ok w"
  shows "weakest_ok w' \<and> r' = r + length (filter entry_reports es) \<and>
    length es = length planes \<and> (w' = None \<longleftrightarrow> w = None \<and> filter entry_reports es = []) \<and>
    (weakest_guaranteed w' \<longleftrightarrow> weakest_guaranteed w \<and> (\<forall>e\<in>set es. weakest_guaranteed (de_policy e))) \<and>
    (\<forall>e\<in>set es. (de_attestation e = Reported \<longleftrightarrow> entry_reports e) \<and> weakest_ok (de_policy e))"
  using assms
proof (induction planes w r arbitrary: es rule: read_planes.induct)
  case (1 w r)
  then show ?case by simp
next
  case (2 plane planes w r)
  from "2.prems"(1) obtain e where e: "parseDataPlaneEntry plane = Some e"
    by (auto split: option.splits)
  note ok = parseDataPlaneEntry_ok [OF e]
  show ?case
  proof (cases "de_policy e")
    case None
    with "2.prems" e obtain es' where "read_planes planes w r = Some (es', w', r')" "es = e # es'"
      by (auto split: option.splits)
    with "2.IH"(1) [OF e None, of es'] "2.prems"(2) ok None show ?thesis
      by (simp add: entry_reports_def weakest_guaranteed_def weakest_ok_def)
  next
    case (Some p)
    let ?w1 = "case w of None \<Rightarrow> Some p | Some w \<Rightarrow> Some (weakenPolicy w p)"
    from "2.prems" e Some obtain es' where
      rec: "read_planes planes ?w1 (Suc r) = Some (es', w', r')" and es: "es = e # es'"
      by (auto split: option.splits)
    have p: "dp_consistent p" using ok(1) Some by (simp add: weakest_ok_def)
    have w1: "weakest_ok ?w1" "?w1 \<noteq> None"
      "weakest_guaranteed ?w1 \<longleftrightarrow> weakest_guaranteed w \<and> dp_guaranteed p"
      using "2.prems"(2) p weaken_consistent weaken_guaranteed
      by (auto simp: weakest_ok_def weakest_guaranteed_def split: option.splits)
    with "2.IH"(2) [OF e Some rec] es ok Some show ?thesis
      by (auto simp: entry_reports_def weakest_guaranteed_def)
  qed
qed

lemma filter_all_length: "length (filter P xs) = length xs \<longleftrightarrow> (\<forall>x\<in>set xs. P x)"
  by (metis filter_True length_filter_less linorder_neq_iff)

text \<open>The summary flag of an attestation that was read is what the listed streams say.\<close>

lemma readDataPlaneAttestation_spec:
  assumes "readDataPlaneAttestation v = Inr att"
  shows "da_connected att = int (length (da_planes att))"
    and "da_all_public_only att \<longleftrightarrow> da_planes att \<noteq> [] \<and>
      (\<forall>e\<in>set (da_planes att). \<exists>p. de_policy e = Some p \<and> dp_guaranteed p)"
    and "\<forall>e\<in>set (da_planes att). weakest_ok (de_policy e)"
proof -
  from assms obtain conn planes es w r where
    rp: "read_planes planes None 0 = Some (es, w, r)" and
    len: "of_nat (length planes) = conn" and
    att: "da_connected att = \<lfloor>conn\<rfloor>" "da_planes att = es"
      "da_all_public_only att = ((0 < conn \<and> of_nat r = conn) \<and>
         (case w of None \<Rightarrow> False | Some x \<Rightarrow> dp_guaranteed x))"
    by (auto simp: readDataPlaneAttestation_def Let_def
        split: option.splits if_splits json.splits prod.splits)
  note spec = read_planes_spec [OF rp, simplified weakest_ok_def [of None], simplified]
  have L: "length es = length planes" using spec by blast
  then show "da_connected att = int (length (da_planes att))" using att len [symmetric] by simp
  show "\<forall>e\<in>set (da_planes att). weakest_ok (de_policy e)" using spec att(2) by simp
  have "(0 < conn \<and> of_nat r = conn) \<longleftrightarrow> es \<noteq> [] \<and> (\<forall>e\<in>set es. entry_reports e)"
  proof -
    have conn: "conn = of_nat (length es)" using len L by simp
    have "r = length (filter entry_reports es)" using spec by simp
    then have "of_nat r = conn \<longleftrightarrow> (\<forall>e\<in>set es. entry_reports e)"
      by (simp only: conn of_nat_eq_iff filter_all_length)
    moreover have "0 < conn \<longleftrightarrow> es \<noteq> []" by (simp add: conn)
    ultimately show ?thesis by simp
  qed
  moreover have "w \<noteq> None" if "es \<noteq> []" "\<forall>e\<in>set es. entry_reports e"
    using spec that by (auto simp: filter_empty_conv)
  moreover have "weakest_guaranteed w \<longleftrightarrow> (\<forall>e\<in>set es. weakest_guaranteed (de_policy e))"
    using spec by (simp add: weakest_guaranteed_def [of None])
  ultimately show "da_all_public_only att \<longleftrightarrow> da_planes att \<noteq> [] \<and>
      (\<forall>e\<in>set (da_planes att). \<exists>p. de_policy e = Some p \<and> dp_guaranteed p)"
    unfolding att(2,3)
    by (auto simp: weakest_guaranteed_def entry_reports_def split: option.splits)
qed

text \<open>What a reading that was not set aside says about itself.\<close>

lemma read_policy_row_spec:
  assumes "read_policy_row ns row = Some p"
  shows "ep_namespace p = ns \<and> ep_attestation p = None \<and>
    ep_guaranteed p = (ep_scope p = Local_Data_Plane \<and> ep_mode p = Mode_Public \<and> \<not> ep_allow_cidr p) \<and>
    (ep_allowed p, ep_blocked p) = modeClasses (ep_mode p)"
  using assms by (auto simp: read_policy_row_def split: option.splits if_splits)

lemma readBackendEgressPolicy_cases:
  assumes "readBackendEgressPolicy v ns = Some reading"
  obtains row p where "read_policy_row ns row = Some p"
    "pr_policy reading = p \<or>
     (\<exists>att av. pr_policy reading = p\<lparr>ep_attestation := Some att\<rparr> \<and> ep_scope p = Admission_Only \<and>
        pr_problem reading = None \<and> readDataPlaneAttestation av = Inr att)"
    "pr_problem reading \<noteq> None \<longrightarrow> pr_policy reading = p"
proof -
  from assms obtain m p where
    row: "read_policy_row ns (omap_delete DATA_PLANE_ATTESTATION_KEY m) = Some p"
    and rest: "(case map_of m DATA_PLANE_ATTESTATION_KEY of
          None \<Rightarrow> Some \<lparr>pr_policy = p, pr_problem = None\<rparr>
        | Some av \<Rightarrow> if ep_scope p \<noteq> Admission_Only
            then Some \<lparr>pr_policy = p, pr_problem = Some Out_Of_Scope\<rparr>
            else (case readDataPlaneAttestation av of
               Inl problem \<Rightarrow> Some \<lparr>pr_policy = p, pr_problem = Some problem\<rparr>
             | Inr att \<Rightarrow> Some \<lparr>pr_policy = p\<lparr>ep_attestation := Some att\<rparr>, pr_problem = None\<rparr>))
      = Some reading"
    by (auto simp: readBackendEgressPolicy_def split: option.splits)
  show thesis
  proof (rule that [OF row])
    show "pr_policy reading = p \<or>
     (\<exists>att av. pr_policy reading = p\<lparr>ep_attestation := Some att\<rparr> \<and> ep_scope p = Admission_Only \<and>
        pr_problem reading = None \<and> readDataPlaneAttestation av = Inr att)"
      using rest by (fastforce split: option.splits if_splits sum.splits)
    show "pr_problem reading \<noteq> None \<longrightarrow> pr_policy reading = p"
      using rest by (auto split: option.splits if_splits sum.splits)
  qed
qed

lemma readBackendEgressPolicy_spec:
  assumes "readBackendEgressPolicy v ns = Some reading"
  shows "ep_namespace (pr_policy reading) = ns"
    and "ep_guaranteed (pr_policy reading) \<longleftrightarrow> ep_scope (pr_policy reading) = Local_Data_Plane \<and>
      ep_mode (pr_policy reading) = Mode_Public \<and> \<not> ep_allow_cidr (pr_policy reading)"
    and "(ep_allowed (pr_policy reading), ep_blocked (pr_policy reading)) = modeClasses (ep_mode (pr_policy reading))"
    and "ep_attestation (pr_policy reading) = Some att \<Longrightarrow>
      ep_scope (pr_policy reading) = Admission_Only \<and> pr_problem reading = None \<and>
      (\<exists>av. readDataPlaneAttestation av = Inr att)"
    and "pr_problem reading \<noteq> None \<Longrightarrow> ep_attestation (pr_policy reading) = None"
  by (rule readBackendEgressPolicy_cases [OF assms], drule read_policy_row_spec, auto)+

text \<open>The map the verdict builds has one entry per listed node.\<close>

lemma first_connected_keys:
  "fst ` set (fst (first_connected clocks es fc pl)) = fst ` set fc \<union> de_node_id ` set es \<and>
   (omap_wf fc \<longrightarrow> omap_wf (fst (first_connected clocks es fc pl)))"
  by (induction clocks es fc pl rule: first_connected.induct) (auto simp: Let_def)

lemma first_connected_value:
  "\<forall>k c. map_of fc k = Some (Some c) \<longrightarrow> P k c \<Longrightarrow>
   \<forall>e\<in>set es. \<forall>c. rfc3339Millis (de_connected_at e) = Some c \<longrightarrow> P (de_node_id e) c \<Longrightarrow>
   map_of (fst (first_connected clocks es fc pl)) k = Some (Some c) \<Longrightarrow> P k c"
proof (induction clocks es fc pl rule: first_connected.induct)
  case (2 clocks e es fc pl)
  let ?c = "rfc3339Millis (de_connected_at e)"
  let ?known = "case map_of fc (de_node_id e) of None \<Rightarrow> ?c | Some k \<Rightarrow> k"
  have "\<forall>k c. map_of (omap_set (de_node_id e) (nan_min ?known ?c) fc) k = Some (Some c) \<longrightarrow> P k c"
    using "2.prems"(1,2) by (auto simp: nan_min_def min_def split: option.splits if_splits)
  from "2.IH" [OF refl refl this] "2.prems"(2,3) show ?case by (simp add: Let_def)
qed simp

subsection \<open>A report written and read back\<close>

lemmas egress_read_defs =
  read_mode_def exactArray_def has_exact_keys_def DATA_PLANE_POLICY_KEYS_def

lemma policy_json_roundtrip: "dp_consistent p \<Longrightarrow> parseDataPlanePolicy (policy_json p) = Some p"
  by (cases "dp_mode p"; cases p)
     (auto simp: parseDataPlanePolicy_def policy_json_def dp_consistent_def egress_read_defs)

lemma exactArray_iff: "exactArray v ss \<longleftrightarrow> v = Some (JArr (map JStr ss))"
  by (auto simp: exactArray_def list_eq_iff_nth_eq list_all_length
      split: option.splits json.splits)

lemma read_mode_iff: "read_mode v = Some md \<longleftrightarrow> v = Some (JStr (mode_name md))"
  by (cases v rule: as_str.cases; cases md) (auto simp: read_mode_def)

lemma as_bool_iff: "as_bool v = Some b \<longleftrightarrow> v = Some (JBool b)"
  by (cases v rule: as_bool.cases) auto

text \<open>A report is read from exactly the objects that hold its members.\<close>

lemma parseDataPlanePolicy_iff:
  "parseDataPlanePolicy v = Some p \<longleftrightarrow> dp_consistent p \<and>
     (\<exists>m. v = JObj m \<and> has_exact_keys m DATA_PLANE_POLICY_KEYS \<and>
        map_of m ''mode'' = Some (JStr (mode_name (dp_mode p))) \<and>
        map_of m ''mode_allowed_ip_classes'' = Some (JArr (map JStr (map class_name (dp_allowed p)))) \<and>
        map_of m ''mode_blocked_ip_classes'' = Some (JArr (map JStr (map class_name (dp_blocked p)))) \<and>
        map_of m ''dangerous_ranges_blocked'' = Some (JBool (dp_dangerous p)) \<and>
        map_of m ''allow_cidr_overrides_present'' = Some (JBool (dp_allow_cidr p)) \<and>
        map_of m ''deny_cidr_overrides_present'' = Some (JBool (dp_deny_cidr p)) \<and>
        map_of m ''public_only_guaranteed'' = Some (JBool (dp_guaranteed p)))" (is "?L \<longleftrightarrow> ?R")
proof
  assume L: ?L
  have c: "dp_consistent p" using L by (rule parseDataPlanePolicy_consistent)
  obtain m where v: "v = JObj m" using L by (cases v) (auto simp: parseDataPlanePolicy_def)
  have "has_exact_keys m DATA_PLANE_POLICY_KEYS" "read_mode (map_of m ''mode'') = Some (dp_mode p)"
    "exactArray (map_of m ''mode_allowed_ip_classes'') (map class_name (dp_allowed p))"
    "exactArray (map_of m ''mode_blocked_ip_classes'') (map class_name (dp_blocked p))"
    "as_bool (map_of m ''dangerous_ranges_blocked'') = Some (dp_dangerous p)"
    "as_bool (map_of m ''allow_cidr_overrides_present'') = Some (dp_allow_cidr p)"
    "as_bool (map_of m ''deny_cidr_overrides_present'') = Some (dp_deny_cidr p)"
    "map_of m ''public_only_guaranteed'' = Some (JBool (dp_guaranteed p))"
    using L by (auto simp: parseDataPlanePolicy_def v split: option.splits if_splits prod.splits)
  with c v show ?R by (auto simp: exactArray_iff read_mode_iff as_bool_iff)
next
  assume R: ?R
  then obtain m where v: "v = JObj m" and keys: "has_exact_keys m DATA_PLANE_POLICY_KEYS" by blast
  from R v have "read_mode (map_of m ''mode'') = Some (dp_mode p)" by (simp add: read_mode_iff)
  moreover have "modeClasses (dp_mode p) = (dp_allowed p, dp_blocked p)"
    "dp_guaranteed p = (dp_mode p = Mode_Public \<and> \<not> dp_allow_cidr p)"
    using R by (auto simp: dp_consistent_def)
  ultimately show ?L using R v keys
    by (simp add: parseDataPlanePolicy_def exactArray_iff del: modeClasses.simps)
qed

lemma deep_eq_str_array: "deep_eq (JArr (map JStr xs)) (JArr (map JStr ys)) \<longleftrightarrow> xs = ys"
  by (auto simp: list_all_length list_eq_iff_nth_eq)

lemma class_names_inj: "map class_name xs = map class_name ys \<longleftrightarrow> xs = ys"
proof -
  have "inj class_name" by (intro injI, rename_tac a b, case_tac a; case_tac b) simp_all
  then show ?thesis by (simp add: inj_map_eq_map)
qed

lemma mode_name_inj: "mode_name a = mode_name b \<longleftrightarrow> a = b"
  by (cases a; cases b) simp_all

text \<open>So comparing the JSON values, as the source does, compares the reports.\<close>

lemma deep_eq_policy:
  assumes "parseDataPlanePolicy v = Some q" "parseDataPlanePolicy w = Some p"
  shows "deep_eq v w \<longleftrightarrow> q = p"
proof -
  from assms obtain m n where v: "v = JObj m" and w: "w = JObj n"
    and k: "has_exact_keys m DATA_PLANE_POLICY_KEYS" "has_exact_keys n DATA_PLANE_POLICY_KEYS"
    by (auto simp: parseDataPlanePolicy_iff)
  have d: "distinct DATA_PLANE_POLICY_KEYS" by (simp add: DATA_PLANE_POLICY_KEYS_def)
  have "deep_eq v w \<longleftrightarrow> list_all (\<lambda>k. deep_eq_opt (map_of m k) (map_of n k)) DATA_PLANE_POLICY_KEYS"
    unfolding v w by (rule deep_eq_obj_iff [OF k d])
  also have "\<dots> \<longleftrightarrow> q = p"
    using assms unfolding v w parseDataPlanePolicy_iff
    by (auto simp: DATA_PLANE_POLICY_KEYS_def deep_eq_str_array class_names_inj mode_name_inj
        simp del: deep_eq.simps(5) map_map intro: dp_policy.equality)
  finally show ?thesis .
qed

subsection \<open>Sightings are never invented\<close>

lemma sight_listed_settled:
  "distinct ids \<Longrightarrow> set (snd (sight_listed seenAt startedAt ids m settled)) = set settled \<union>
     {i \<in> set ids. \<exists>f l. map_of m i = Some (f, l) \<and> of_int DATA_PLANE_SETTLE_MS \<le> startedAt - f}"
proof (induction ids arbitrary: m settled)
  case (Cons n ids)
  have keep: "{i \<in> set ids. \<exists>f l. map_of (omap_set n w m) i = Some (f, l) \<and> P f} =
      {i \<in> set ids. \<exists>f l. map_of m i = Some (f, l) \<and> P f}" for w P
    using Cons.prems by auto
  show ?case
  proof (cases "map_of m n")
    case None
    have "{i \<in> set (n # ids). \<exists>f l. map_of m i = Some (f, l) \<and> P f} =
      {i \<in> set ids. \<exists>f l. map_of m i = Some (f, l) \<and> P f}" for P using None by auto
    moreover have "distinct ids" using Cons.prems by simp
    ultimately show ?thesis using None by (simp only: sight_listed.simps option.case Cons.IH keep)
  next
    case (Some fl)
    obtain f l where fl: "fl = (f, l)" by (rule prod.exhaust)
    have "{i \<in> set (n # ids). \<exists>f l. map_of m i = Some (f, l) \<and> P f} =
      (if P f then {n} else {}) \<union> {i \<in> set ids. \<exists>f l. map_of m i = Some (f, l) \<and> P f}" for P
      using Some fl by auto
    moreover have "distinct ids" using Cons.prems by simp
    ultimately show ?thesis using Some fl
      by (simp only: sight_listed.simps option.case prod.case Cons.IH keep) auto
  qed
qed simp

lemma sight_listed_map:
  "distinct ids \<Longrightarrow> map_of (fst (sight_listed seenAt startedAt ids m settled)) i =
     (if i \<in> set ids then
        (case map_of m i of None \<Rightarrow> Some (seenAt, seenAt) | Some (f, l) \<Rightarrow> Some (f, max l seenAt))
      else map_of m i)"
proof (induction ids arbitrary: m settled)
  case (Cons n ids)
  then have d: "distinct ids" "n \<notin> set ids" by auto
  obtain w s where step: "sight_listed seenAt startedAt (n # ids) m settled =
      sight_listed seenAt startedAt ids (omap_set n w m) s"
    and w: "w = (case map_of m n of None \<Rightarrow> (seenAt, seenAt) | Some (f, l) \<Rightarrow> (f, max l seenAt))"
    by (cases "map_of m n") auto
  show ?case unfolding step Cons.IH [OF d(1)] using d(2) w by (auto split: option.splits)
qed simp

lemma sight_listed_wf: "omap_wf m \<Longrightarrow> omap_wf (fst (sight_listed seenAt startedAt ids m settled))"
  by (induction ids arbitrary: m settled) (auto split: option.splits)

lemma forget_sub: "map_of (forget seenAt listed todo m) i \<in> {map_of m i, None}"
  by (induction seenAt listed todo m rule: forget.induct) (auto split: if_splits)

text \<open>The sightings after a history of observations, each with the time its answer arrived and
  the time its request was sent.\<close>

fun sightings_after :: "(rat \<times> egress_policy \<times> rat) list \<Rightarrow> sightings \<Rightarrow> sightings" where
  "sightings_after [] m = m"
| "sightings_after ((seenAt, policy, startedAt) # obs) m =
     sightings_after obs (snd (observe seenAt m policy startedAt))"

lemma forget_bounded:
  assumes "omap_wf m" "fst ` set m \<subseteq> set listed \<union> fst ` set todo \<or> length m \<le> MAX_SIGHTINGS"
  shows "length (forget seenAt listed todo m) \<le> max MAX_SIGHTINGS (length listed)"
  using assms
proof (induction seenAt listed todo m rule: forget.induct)
  case (1 seenAt listed m)
  have "length m \<le> length listed" if "fst ` set m \<subseteq> set listed"
  proof -
    have "length m = card (fst ` set m)"
      using 1(1) by (metis distinct_card length_map list.set_map omap_wf_def)
    also have "\<dots> \<le> card (set listed)" using that by (simp add: card_mono)
    finally show ?thesis using card_length order_trans by blast
  qed
  with 1(2) show ?case by auto
next
  case (2 seenAt listed n f l todo m)
  have shrink: "length (omap_delete n m) \<le> length m" by (simp add: omap_delete_def)
  consider "n \<in> set listed" | "n \<notin> set listed" "SIGHTING_RETENTION_MS < seenAt - l \<or> MAX_SIGHTINGS < length m"
    | "n \<notin> set listed" "\<not> (SIGHTING_RETENTION_MS < seenAt - l \<or> MAX_SIGHTINGS < length m)" by blast
  then show ?case
  proof cases
    case 1
    then show ?thesis using "2.IH"(1) "2.prems" by (simp add: insert_absorb)
  next
    case 2
    then have "fst ` set (omap_delete n m) \<subseteq> set listed \<union> fst ` set todo \<or>
        length (omap_delete n m) \<le> MAX_SIGHTINGS"
      using "2.prems"(2) shrink by auto
    then show ?thesis using 2 "2.IH"(2) "2.prems"(1) by auto
  next
    case 3
    then show ?thesis using "2.IH"(3) "2.prems"(1) by simp
  qed
qed

lemma listed_nodes_distinct: "distinct (listed_nodes policy)"
  by (simp add: listed_nodes_def)

lemma observe_settled:
  "set (fst (observe seenAt m policy startedAt)) = {i \<in> set (listed_nodes policy).
     \<exists>f l. map_of m i = Some (f, l) \<and> of_int DATA_PLANE_SETTLE_MS \<le> startedAt - f}"
  using sight_listed_settled [OF listed_nodes_distinct, of seenAt startedAt policy m "[]"]
  by (simp add: observe_def split_beta)

lemma observe_first:
  assumes "map_of (snd (observe seenAt m policy startedAt)) i = Some (f, l)"
  shows "(\<exists>l'. map_of m i = Some (f, l')) \<or> i \<in> set (listed_nodes policy) \<and> f = seenAt"
proof -
  let ?m' = "fst (sight_listed seenAt startedAt (listed_nodes policy) m [])"
  have "snd (observe seenAt m policy startedAt) = forget seenAt (listed_nodes policy) ?m' ?m'"
    by (simp add: observe_def split: prod.splits)
  with assms have "map_of ?m' i = Some (f, l)"
    using forget_sub [of seenAt "listed_nodes policy" ?m' ?m' i] by auto
  then show ?thesis
    by (auto simp: sight_listed_map [OF listed_nodes_distinct] split: option.splits if_splits)
qed

lemma sightings_after_first:
  assumes "map_of (sightings_after obs m) i = Some (f, l)"
  shows "(\<exists>l'. map_of m i = Some (f, l')) \<or>
    (\<exists>policy startedAt. (f, policy, startedAt) \<in> set obs \<and> i \<in> set (listed_nodes policy))"
  using assms
proof (induction obs m rule: sightings_after.induct)
  case (2 seenAt policy startedAt obs m)
  then consider l' where "map_of (snd (observe seenAt m policy startedAt)) i = Some (f, l')"
    | "\<exists>policy startedAt. (f, policy, startedAt) \<in> set obs \<and> i \<in> set (listed_nodes policy)"
    by auto
  then show ?case
  proof cases
    case 1
    from observe_first [OF this] show ?thesis by auto
  next
    case 2
    then show ?thesis by auto
  qed
qed auto

subsection \<open>What a guarantee rests on\<close>

text \<open>A node counts as settled when this process had sighted it long enough before, or when the
  gateway's clock and this process's both put one of its listed streams far enough back.\<close>

definition settled_evidence :: "dp_attestation \<Rightarrow> freshness \<Rightarrow> string \<Rightarrow> bool" where
  "settled_evidence att fr i \<longleftrightarrow> (\<exists>ids. fr_settledNodeIds fr = Some ids \<and> i \<in> set ids) \<or>
      (\<exists>gw e c. fr_gatewayDate fr = Some gw \<and> e \<in> set (da_planes att) \<and> de_node_id e = i \<and>
         rfc3339Millis (de_connected_at e) = Some c \<and>
         SETTLED_AGE_MS \<le> fr_readAt fr - c \<and> SETTLED_AGE_MS \<le> gw - c)"

lemma settled_nodes:
  assumes fc: "first_connected (clocks_of fr) (da_planes att) [] True = (fc, plausible)"
    and S: "S = set (map fst (filter (node_settled fr (plausible \<and> fr_gatewayDate fr \<noteq> None)) fc))"
    and i: "i \<in> S"
  shows "i \<in> de_node_id ` set (da_planes att)"
    and "settled_evidence att fr i"
proof -
  note keys = first_connected_keys [of "clocks_of fr" "da_planes att" "[]" True, unfolded fc]
  have wf: "omap_wf fc" and ks: "fst ` set fc = de_node_id ` set (da_planes att)"
    using keys by (simp_all add: omap_wf_def)
  from i S obtain v where iv: "(i, v) \<in> set fc"
    and ns: "node_settled fr (plausible \<and> fr_gatewayDate fr \<noteq> None) (i, v)" by auto
  then show "i \<in> de_node_id ` set (da_planes att)" using ks by force
  have look: "map_of fc i = Some v" using wf iv by (simp add: omap_wf_def)
  show "settled_evidence att fr i"
  proof (cases "\<exists>ids. fr_settledNodeIds fr = Some ids \<and> i \<in> set ids")
    case False
    with ns obtain gw where gw: "fr_gatewayDate fr = Some gw" and age: "settled_age (clocks_of fr) v"
      by (auto simp: node_settled_def split: option.splits)
    then obtain c where c: "v = Some c" by (auto simp: settled_age_def clocks_of_def split: option.splits)
    let ?P = "\<lambda>k c. \<exists>e\<in>set (da_planes att). de_node_id e = k \<and> rfc3339Millis (de_connected_at e) = Some c"
    have "?P i c"
      by (rule first_connected_value [of "[]" ?P "da_planes att" "clocks_of fr" True, unfolded fc fst_conv])
         (use look c in auto)
    with age c gw show ?thesis by (auto simp: settled_evidence_def settled_age_def clocks_of_def)
  qed (simp add: settled_evidence_def)
qed

text \<open>What a \<open>guaranteed\<close> verdict says of the attestation it was reached on.\<close>

lemma verdict_guaranteed:
  assumes "dataPlaneAttestationVerdict policy expected fr = V_Guaranteed"
  obtains att n S where "ep_scope policy = Admission_Only" "ep_attestation policy = Some att"
    "expected = Some n" "isExpectedDataPlanes (Some n)" "allPublicOnly att"
    "S \<subseteq> de_node_id ` set (da_planes att)" "n \<le> of_nat (card S)"
    "\<forall>i\<in>S. settled_evidence att fr i"
proof -
  from assms obtain att n where base: "ep_scope policy = Admission_Only" "ep_attestation policy = Some att"
    "expected = Some n" "isExpectedDataPlanes (Some n)" "allPublicOnly att"
    by (auto simp: dataPlaneAttestationVerdict_def split: if_splits option.splits)
  obtain fc pl where fc: "first_connected (clocks_of fr) (da_planes att) [] True = (fc, pl)"
    by (rule prod.exhaust)
  define S where "S = set (map fst (filter (node_settled fr (pl \<and> fr_gatewayDate fr \<noteq> None)) fc))"
  have "omap_wf fc"
    using first_connected_keys [of "clocks_of fr" "da_planes att" "[]" True, unfolded fc]
    by (simp add: omap_wf_def)
  then have "card S = length (filter (node_settled fr (pl \<and> fr_gatewayDate fr \<noteq> None)) fc)"
    unfolding S_def by (subst distinct_card) (auto simp: omap_wf_def distinct_map_filter)
  then have n: "n \<le> of_nat (card S)"
    using assms base fc by (auto simp: dataPlaneAttestationVerdict_def Let_def split: if_splits)
  show thesis
    by (rule that [OF base _ n]) (use settled_nodes [OF fc S_def] in auto)
qed

subsection \<open>Properties\<close>

text \<open>An answer of a control plane with one connected data plane, for the concrete checks.\<close>

definition example_plane_policy :: dp_policy where
  "example_plane_policy = \<lparr>dp_mode = Mode_Public, dp_allowed = [Public_Class],
     dp_blocked = [Private_Reserved], dp_dangerous = True, dp_allow_cidr = False,
     dp_deny_cidr = True, dp_guaranteed = True\<rparr>"

definition example_attestation :: json where
  "example_attestation = JObj
     [(''source'', JStr ''configsync-subscribe''), (''connected_data_planes'', JNum 1),
      (''reporting_data_planes'', JNum 1), (''unknown_data_planes'', JNum 0),
      (''weakest_policy'', policy_json example_plane_policy), (''weakest_policy_complete'', JBool True),
      (''all_connected_public_only_guaranteed'', JBool True),
      (''data_planes'', JArr [JObj [(''node_id'', JStr ''dp-1''),
         (''connected_at'', JStr ''2026-01-01T00:00:00Z''), (''attestation'', JStr ''reported''),
         (''policy'', policy_json example_plane_policy)]])]"

definition example_answer :: json where
  "example_answer = JObj
     [(''schema_version'', JNum 2), (''ip_classification'', JStr ''ferrum-private-reserved-v1''),
      (''namespace'', JStr ''prod''), (''policy_scope'', JStr ''process''),
      (''enforcement_scope'', JStr ''admission-only''), (''mode'', JStr ''both''),
      (''mode_allowed_ip_classes'', JArr [JStr ''public'', JStr ''private-reserved'']),
      (''mode_blocked_ip_classes'', JArr []), (''dangerous_ranges_blocked'', JBool True),
      (''allow_cidr_overrides_present'', JBool False), (''deny_cidr_overrides_present'', JBool False),
      (''evaluation_order'', JArr (map JStr EVALUATION_ORDER)),
      (''public_only_guaranteed'', JBool False), (''data_plane_attestation'', example_attestation)]"

definition example_reading :: policy_reading where
  "example_reading = the (readBackendEgressPolicy example_answer ''prod'')"

definition example_options :: egress_options where
  "example_options = \<lparr>eo_allowPrivateUpstreams = False, eo_allowUnattestedEdgeEgress = False,
     eo_expectedDataPlanes = Some 1\<rparr>"

definition example_freshness :: freshness where
  "example_freshness = \<lparr>fr_readAt = 1767225700000, fr_gatewayDate = Some 1767225700000,
     fr_settledNodeIds = None\<rparr>"

lemma example_read: "readBackendEgressPolicy example_answer ''prod'' = Some example_reading"
  by code_simp

lemma example_admitted:
  "ea_admission (assessBackendEgress example_reading example_options example_freshness) =
     Some (Public_Guaranteed, Admission_Only)"
  by code_simp

text \<open>C4: A backend write is admitted with the profile \<open>public_guaranteed\<close> only on evidence in
  the answer that was read: the answer names the namespace asked for, no attestation was set aside,
  and either the gateway itself serves the traffic with mode \<open>public\<close> and no allow overlay, or it is
  a control plane whose every listed data plane reports mode \<open>public\<close> without an allow overlay, with
  at least the expected (positive) number of distinct settled nodes.\<close>

theorem egress_guarantee_sound:
  assumes "readBackendEgressPolicy v ns = Some reading"
    and "ea_admission (assessBackendEgress reading options fr) = Some (Public_Guaranteed, scope)"
  shows "ep_namespace (pr_policy reading) = ns \<and> scope = ep_scope (pr_policy reading) \<and>
    pr_problem reading = None \<and>
    (scope = Local_Data_Plane \<and> ep_mode (pr_policy reading) = Mode_Public \<and>
       \<not> ep_allow_cidr (pr_policy reading) \<or>
     scope = Admission_Only \<and>
       (\<exists>att n S. ep_attestation (pr_policy reading) = Some att \<and>
          eo_expectedDataPlanes options = Some n \<and> 0 < n \<and>
          (\<forall>e\<in>set (da_planes att). \<exists>p. de_policy e = Some p \<and>
             dp_mode p = Mode_Public \<and> \<not> dp_allow_cidr p) \<and>
          S \<subseteq> de_node_id ` set (da_planes att) \<and> n \<le> of_nat (card S) \<and>
          (\<forall>i\<in>S. settled_evidence att fr i)))"
proof -
  let ?p = "pr_policy reading"
  note spec = readBackendEgressPolicy_spec [OF assms(1)]
  from assms(2) have sc: "scope = ep_scope ?p" and use: "pr_problem reading = None"
    and pr: "provesPublicEgress ?p (eo_expectedDataPlanes options) fr"
    by (auto simp: assessBackendEgress_def Let_def split: if_splits)
  from pr consider "provesLocalPublicEgress ?p"
    | "dataPlaneAttestationVerdict ?p (eo_expectedDataPlanes options) fr = V_Guaranteed"
    by (auto simp: provesPublicEgress_def provesDataPlanePublicEgress_def)
  then show ?thesis
  proof cases
    case 1
    then show ?thesis using spec(1,2) sc use by (auto simp: provesLocalPublicEgress_def)
  next
    case 2
    then obtain att n S where v: "ep_scope ?p = Admission_Only" "ep_attestation ?p = Some att"
      "eo_expectedDataPlanes options = Some n" "isExpectedDataPlanes (Some n)" "allPublicOnly att"
      "S \<subseteq> de_node_id ` set (da_planes att)" "n \<le> of_nat (card S)"
      "\<forall>i\<in>S. settled_evidence att fr i"
      by (rule verdict_guaranteed) blast
    have "0 < n" using v(4) by (simp add: isExpectedDataPlanes_def)
    moreover have "\<forall>e\<in>set (da_planes att). \<exists>p. de_policy e = Some p \<and>
             dp_mode p = Mode_Public \<and> \<not> dp_allow_cidr p"
      using v(5) by (auto simp: allPublicOnly_def list_all_iff split: option.splits)
    ultimately show ?thesis using v sc use spec(1) by blast
  qed
qed

theorem egress_guarantee_sound_witness:
  "ep_namespace (pr_policy example_reading) = ''prod'' \<and>
   (\<exists>att. ep_attestation (pr_policy example_reading) = Some att \<and>
      (\<forall>e\<in>set (da_planes att). \<exists>p. de_policy e = Some p \<and> dp_mode p = Mode_Public \<and> \<not> dp_allow_cidr p))"
  using egress_guarantee_sound [OF example_read example_admitted] by auto

text \<open>An answer whose attestation was set aside (malformed, inconsistent or out of scope)
  never yields a public-egress guarantee; such a write is admitted only through one of the two
  operator opt-ins, under the profile that names the opt-in.\<close>

theorem egress_unreadable_attestation_never_guarantees:
  assumes "pr_problem reading \<noteq> None"
  shows "\<not> ea_publicEgressGuaranteed (assessBackendEgress reading options fr) \<and>
    ea_dataPlaneAttestation (assessBackendEgress reading options fr) = V_Attestation_Unreadable \<and>
    (case ea_admission (assessBackendEgress reading options fr) of
       None \<Rightarrow> \<not> eo_allowPrivateUpstreams options
     | Some (profile, scope) \<Rightarrow>
         profile = Private_Upstreams_Opt_In \<and> eo_allowPrivateUpstreams options \<or>
         profile = Unattested_Edge_Opt_In \<and> eo_allowUnattestedEdgeEgress options \<and>
           ep_guaranteed (pr_policy reading))"
  using assms by (auto simp: assessBackendEgress_def Let_def)

theorem egress_unreadable_attestation_never_guarantees_witness:
  "\<not> ea_publicEgressGuaranteed (assessBackendEgress (example_reading\<lparr>pr_problem := Some Malformed\<rparr>)
      example_options example_freshness)"
  using egress_unreadable_attestation_never_guarantees
    [of "example_reading\<lparr>pr_problem := Some Malformed\<rparr>" example_options example_freshness] by simp

text \<open>In an attestation that was accepted, the count is the number of listed streams, and
  the summary flag \<open>all_connected_public_only_guaranteed\<close> holds exactly when there is a stream and
  every stream reports mode \<open>public\<close> without an allow overlay.\<close>

theorem attestation_summary_iff:
  assumes "readDataPlaneAttestation v = Inr att"
  shows "da_connected att = int (length (da_planes att)) \<and>
    (da_all_public_only att \<longleftrightarrow> da_planes att \<noteq> [] \<and>
      (\<forall>e\<in>set (da_planes att). \<exists>p. de_policy e = Some p \<and> dp_mode p = Mode_Public \<and> \<not> dp_allow_cidr p))"
  using readDataPlaneAttestation_spec [OF assms]
  by (fastforce simp: weakest_ok_def dp_consistent_def split: option.splits)

theorem attestation_summary_iff_witness:
  "\<exists>att. readDataPlaneAttestation example_attestation = Inr att \<and> da_connected att = int (length (da_planes att))"
proof -
  have "readDataPlaneAttestation example_attestation =
      Inr (the (ep_attestation (pr_policy example_reading)))" by code_simp
  from attestation_summary_iff [OF this] this show ?thesis by blast
qed

text \<open>A consistent report survives being written as JSON and parsed again, comparing two
  reports as JSON values compares the reports, and the weakest combination of two reports is itself
  a report the parser accepts.\<close>

theorem policy_report_roundtrip:
  assumes "dp_consistent p" "dp_consistent q"
  shows "parseDataPlanePolicy (policy_json p) = Some p \<and>
    (deep_eq (policy_json p) (policy_json q) \<longleftrightarrow> p = q) \<and>
    parseDataPlanePolicy (policy_json (weakenPolicy p q)) = Some (weakenPolicy p q)"
  using deep_eq_policy policy_json_roundtrip weaken_consistent assms by blast

theorem policy_report_roundtrip_witness:
  "dp_consistent example_plane_policy \<and>
   parseDataPlanePolicy (policy_json example_plane_policy) = Some example_plane_policy"
proof -
  have c: "dp_consistent example_plane_policy" by code_simp
  from policy_report_roundtrip [OF c c] c show ?thesis by blast
qed

text \<open>Combining reports does not depend on their order, grouping or repetition; the
  combination keeps the guarantee exactly when both do, allows the union of the address classes
  and blocks the intersection.\<close>

theorem weakenPolicy_semilattice:
  assumes "dp_consistent a" "dp_consistent b" "dp_consistent c"
  shows "weakenPolicy a a = a \<and> weakenPolicy a b = weakenPolicy b a \<and>
    weakenPolicy (weakenPolicy a b) c = weakenPolicy a (weakenPolicy b c) \<and>
    (dp_guaranteed (weakenPolicy a b) \<longleftrightarrow> dp_guaranteed a \<and> dp_guaranteed b) \<and>
    set (dp_allowed (weakenPolicy a b)) = set (dp_allowed a) \<union> set (dp_allowed b) \<and>
    set (dp_blocked (weakenPolicy a b)) = set (dp_blocked a) \<inter> set (dp_blocked b)"
proof (intro conjI)
  show "set (dp_allowed (weakenPolicy a b)) = set (dp_allowed a) \<union> set (dp_allowed b)"
    "set (dp_blocked (weakenPolicy a b)) = set (dp_blocked a) \<inter> set (dp_blocked b)"
    using assms by (cases "dp_mode a"; cases "dp_mode b";
      simp add: dp_consistent_def weakenPolicy_def Let_def insert_commute)+
qed (use assms weaken_idem weaken_commute weaken_assoc weaken_guaranteed in \<open>simp_all\<close>)

theorem weakenPolicy_semilattice_witness:
  "weakenPolicy example_plane_policy example_plane_policy = example_plane_policy"
proof -
  have c: "dp_consistent example_plane_policy" by code_simp
  from weakenPolicy_semilattice [OF c c c] show ?thesis by blast
qed

text \<open>Whatever the history of observations, a node is reported settled only if the current
  answer lists it and an earlier answer, which arrived at least the settle time before the current
  request was sent, listed it too: a sighting is never invented.\<close>

theorem settled_node_was_sighted:
  assumes "i \<in> set (fst (observe seenAt (sightings_after obs []) policy startedAt))"
  shows "i \<in> set (listed_nodes policy) \<and> (\<exists>seen0 policy0 started0. (seen0, policy0, started0) \<in> set obs \<and>
    i \<in> set (listed_nodes policy0) \<and> of_int DATA_PLANE_SETTLE_MS \<le> startedAt - seen0)"
  using assms by (auto simp: observe_settled dest!: sightings_after_first)

theorem settled_node_was_sighted_witness:
  "''dp-1'' \<in> set (listed_nodes (pr_policy example_reading))"
proof -
  let ?p = "pr_policy example_reading"
  have "''dp-1'' \<in> set (fst (observe 70000 (sightings_after [(5000, ?p, 4000)] []) ?p 69000))"
    by code_simp
  from settled_node_was_sighted [OF this] show ?thesis by blast
qed

text \<open>The record of sightings never holds more than \<open>MAX_SIGHTINGS\<close> nodes, or as many as
  the answer itself lists if that is more.\<close>

theorem sightings_bounded:
  assumes "omap_wf m"
  shows "length (snd (observe seenAt m policy startedAt)) \<le>
    max MAX_SIGHTINGS (length (listed_nodes policy))"
  using forget_bounded [OF sight_listed_wf [OF assms],
      of seenAt startedAt "listed_nodes policy" "[]" "listed_nodes policy"
        "fst (sight_listed seenAt startedAt (listed_nodes policy) m [])"]
  by (simp add: observe_def split_beta)

theorem sightings_bounded_witness:
  "length (snd (observe 1 [] (pr_policy example_reading) 0)) \<le> max MAX_SIGHTINGS
     (length (listed_nodes (pr_policy example_reading)))"
  by (rule sightings_bounded) (simp add: omap_wf_def)


end
