(* ===== verification/Sso_Mapping.thy ===== *)
theory Sso_Mapping
  imports Roles Errors
begin

section \<open>Single sign-on: what claims mean for an account\<close>

text \<open>
  Models \<open>server/src/sso/mapping.ts\<close>. Claims are the properties of a parsed ID token. A number in
  a claim is compared by its text; the text of a number (\<^verbatim>\<open>String(item)\<close>) is the argument
  \<open>num_text\<close>, since no rule depends on how it is written. The roles a claim can confer are a type of their own,
  as \<open>SsoMappableRole\<close> is in the source, and it has no \<open>super_admin\<close>.
\<close>

type_synonym claims = "(string \<times> json) list"

datatype sso_role = Sso_Client | Sso_Provider | Sso_Admin

fun sso_role_role :: "sso_role \<Rightarrow> role" where
  "sso_role_role Sso_Client = Client"
| "sso_role_role Sso_Provider = Provider"
| "sso_role_role Sso_Admin = Admin"

record sso_role_mapping =
  rm_claim :: string
  rm_value :: string
  rm_role :: sso_role

record sso_org_mapping =
  om_claim :: string
  om_value :: string
  om_org_id :: string

record sso_provider =
  sp_sync_roles :: bool
  sp_default_role :: "sso_role option"
  sp_role_mappings :: "sso_role_mapping list"
  sp_org_mappings :: "sso_org_mapping list"

subsection \<open>Reading claims\<close>

fun walk :: "json \<Rightarrow> string list \<Rightarrow> json option" where
  "walk v [] = Some v"
| "walk v (segment # segments) = (case as_record v of
      None \<Rightarrow> None
    | Some m \<Rightarrow> (case map_of m segment of None \<Rightarrow> None | Some w \<Rightarrow> walk w segments))"

fun claim_text :: "(rat \<Rightarrow> string) \<Rightarrow> json \<Rightarrow> string list" where
  "claim_text num_text (JStr s) = [s]"
| "claim_text num_text (JNum r) = [num_text r]"
| "claim_text num_text (JBool b) = [if b then ''true'' else ''false'']"
| "claim_text num_text _ = []"

definition claimValues :: "(rat \<Rightarrow> string) \<Rightarrow> claims \<Rightarrow> string \<Rightarrow> string list" where
  "claimValues num_text claims path =
     (let value = (case map_of claims path of
                     Some v \<Rightarrow> Some v | None \<Rightarrow> walk (JObj claims) (split_on (CHR ''.'') path));
          flat = (case value of Some (JArr xs) \<Rightarrow> xs | Some v \<Rightarrow> [v] | None \<Rightarrow> [])
      in concat (map (claim_text num_text) flat))"

definition matches :: "(rat \<Rightarrow> string) \<Rightarrow> claims \<Rightarrow> string \<Rightarrow> string \<Rightarrow> bool" where
  "matches num_text claims claim expected \<longleftrightarrow> expected \<in> set (claimValues num_text claims claim)"

subsection \<open>Mapping claims\<close>

text \<open>\<open>cm_orgId\<close>: \<open>None\<close> when the provider does not manage organizations, else \<open>Some\<close> of the
  organization or none.\<close>

record claim_mapping =
  cm_role :: "sso_role option"
  cm_roleMapping :: "sso_role_mapping option"
  cm_orgId :: "string option option"
  cm_orgMapping :: "sso_org_mapping option"

fun best_role_mapping ::
  "(rat \<Rightarrow> string) \<Rightarrow> claims \<Rightarrow> sso_role_mapping list \<Rightarrow> sso_role_mapping option \<Rightarrow> sso_role_mapping option"
where
  "best_role_mapping num_text claims [] best = best"
| "best_role_mapping num_text claims (m # ms) best =
     (if \<not> matches num_text claims (rm_claim m) (rm_value m)
      then best_role_mapping num_text claims ms best
      else case best of
        None \<Rightarrow> best_role_mapping num_text claims ms (Some m)
      | Some b \<Rightarrow>
          if roleRank (sso_role_role (rm_role m)) > roleRank (sso_role_role (rm_role b))
          then best_role_mapping num_text claims ms (Some m)
          else best_role_mapping num_text claims ms (Some b))"

definition mapClaims :: "(rat \<Rightarrow> string) \<Rightarrow> sso_provider \<Rightarrow> claims \<Rightarrow> claim_mapping" where
  "mapClaims num_text provider claims =
     (let roleMapping = best_role_mapping num_text claims (sp_role_mappings provider) None;
          role = (case roleMapping of Some m \<Rightarrow> Some (rm_role m) | None \<Rightarrow> sp_default_role provider)
      in if sp_org_mappings provider = []
         then \<lparr>cm_role = role, cm_roleMapping = roleMapping, cm_orgId = None, cm_orgMapping = None\<rparr>
         else
           (let orgMapping = List.find (\<lambda>m. matches num_text claims (om_claim m) (om_value m))
                  (sp_org_mappings provider)
            in \<lparr>cm_role = role, cm_roleMapping = roleMapping,
                cm_orgId = Some (map_option om_org_id orgMapping), cm_orgMapping = orgMapping\<rparr>))"

subsection \<open>Changing the account\<close>

record sso_account =
  sa_role :: role
  sa_org_id :: "string option"

record account_patch =
  pa_role :: "sso_role option"
  pa_org_id :: "string option option"

definition planClaimsChange ::
  "sso_account \<Rightarrow> claim_mapping \<Rightarrow> sso_provider \<Rightarrow> bool \<Rightarrow> account_patch option" where
  "planClaimsChange account mapping provider orgExists =
     (if sa_role account = Super_Admin then None
      else
        (let role = (if sp_sync_roles provider then
                       (case cm_role mapping of
                          None \<Rightarrow> None
                        | Some r \<Rightarrow> if sso_role_role r \<noteq> sa_role account then Some r else None)
                     else None);
             org = (case cm_orgId mapping of
                      None \<Rightarrow> None
                    | Some orgId \<Rightarrow>
                        (let target = (if orgId \<noteq> None \<and> orgExists then orgId else None)
                         in if target \<noteq> sa_org_id account then Some target else None))
         in if role = None \<and> org = None then None
            else Some \<lparr>pa_role = role, pa_org_id = org\<rparr>))"

text \<open>What the caller then stores on the account.\<close>

definition apply_account_patch :: "account_patch option \<Rightarrow> sso_account \<Rightarrow> sso_account" where
  "apply_account_patch p a = (case p of
      None \<Rightarrow> a
    | Some q \<Rightarrow> a\<lparr>sa_role := (case pa_role q of None \<Rightarrow> sa_role a | Some r \<Rightarrow> sso_role_role r),
                 sa_org_id := (case pa_org_id q of None \<Rightarrow> sa_org_id a | Some t \<Rightarrow> t)\<rparr>)"

subsection \<open>Email and display name\<close>

definition MAX_EMAIL_LENGTH :: nat where "MAX_EMAIL_LENGTH = 320"
definition MAX_DISPLAY_NAME_LENGTH :: nat where "MAX_DISPLAY_NAME_LENGTH = 200"

text \<open>\<open>EMAIL_SHAPE\<close>, \<^verbatim>\<open>/^[^\s@]+@[^\s@]+\.[^\s@]+$/\<close>: one at sign, no white space, a non-empty
  mailbox, and a dot in the domain with text on both sides.\<close>

definition EMAIL_SHAPE :: "string \<Rightarrow> bool" where
  "EMAIL_SHAPE s \<longleftrightarrow> \<not> list_ex is_js_space s \<and>
     (case split_on (CHR ''@'') s of
        [mailbox, domain] \<Rightarrow> mailbox \<noteq> [] \<and>
          list_ex (\<lambda>i. domain ! i = CHR ''.'') [1..<length domain - 1]
      | _ \<Rightarrow> False)"

definition normalizeEmailClaim :: "json option \<Rightarrow> string option" where
  "normalizeEmailClaim v = (case as_str v of
      None \<Rightarrow> None
    | Some s \<Rightarrow>
        (let email = js_lower (js_trim s) in
         if length email = 0 \<or> length email > MAX_EMAIL_LENGTH then None
         else if EMAIL_SHAPE email then Some email else None))"

definition emailVerifiedClaim :: "json option \<Rightarrow> bool" where
  "emailVerifiedClaim v \<longleftrightarrow> v = Some (JBool True)"

definition emailDomainAllowed :: "string \<Rightarrow> string list \<Rightarrow> bool" where
  "emailDomainAllowed email allowed =
     (if allowed = [] then True
      else case last_index_of (CHR ''@'') email of
        None \<Rightarrow> False
      | Some pos \<Rightarrow> drop (pos + 1) email \<in> set allowed)"

fun name_claim :: "claims \<Rightarrow> string list \<Rightarrow> string option" where
  "name_claim claims [] = None"
| "name_claim claims (key # keys) = (case as_str (map_of claims key) of
      Some v \<Rightarrow> if js_trim v \<noteq> [] then Some (take MAX_DISPLAY_NAME_LENGTH (js_trim v))
                else name_claim claims keys
    | None \<Rightarrow> name_claim claims keys)"

definition displayNameFromClaims :: "claims \<Rightarrow> string \<Rightarrow> string" where
  "displayNameFromClaims claims email =
     (case name_claim claims [''name'', ''preferred_username''] of
        Some n \<Rightarrow> n
      | None \<Rightarrow> take MAX_DISPLAY_NAME_LENGTH
          (case index_of (CHR ''@'') email of
             Some pos \<Rightarrow> if pos > 0 then take pos email else email
           | None \<Rightarrow> email))"

subsection \<open>Lemmas\<close>

lemma sso_role_not_super: "sso_role_role r \<noteq> Super_Admin"
  by (cases r) simp_all

text \<open>The loop is a fold over the matching rules that keeps the first of the highest rank.\<close>

definition pick_role :: "sso_role_mapping option \<Rightarrow> sso_role_mapping \<Rightarrow> sso_role_mapping option" where
  "pick_role best m = (case best of
      None \<Rightarrow> Some m
    | Some b \<Rightarrow> if sso_role_role (rm_role b) < sso_role_role (rm_role m) then Some m else Some b)"

lemma best_role_mapping_fold:
  "best_role_mapping num_text claims ms best =
     foldl pick_role best (filter (\<lambda>m. matches num_text claims (rm_claim m) (rm_value m)) ms)"
  by (induction ms arbitrary: best) (auto simp: pick_role_def less_role_def split: option.splits)

lemma foldl_pick_role:
  "\<exists>r. foldl pick_role (Some b) ms = Some r \<and> r \<in> insert b (set ms) \<and>
     (\<forall>m \<in> insert b (set ms). sso_role_role (rm_role m) \<le> sso_role_role (rm_role r))"
proof (induction ms arbitrary: b)
  case (Cons m ms)
  obtain c where c: "pick_role (Some b) m = Some c" "c \<in> {b, m}"
    "sso_role_role (rm_role b) \<le> sso_role_role (rm_role c)"
    "sso_role_role (rm_role m) \<le> sso_role_role (rm_role c)"
    by (cases "sso_role_role (rm_role b) < sso_role_role (rm_role m)") (auto simp: pick_role_def)
  from Cons.IH [of c] obtain r where r: "foldl pick_role (Some c) ms = Some r"
    "r \<in> insert c (set ms)" "\<forall>m \<in> insert c (set ms). sso_role_role (rm_role m) \<le> sso_role_role (rm_role r)"
    by blast
  then have "sso_role_role (rm_role b) \<le> sso_role_role (rm_role r)"
    "sso_role_role (rm_role m) \<le> sso_role_role (rm_role r)"
    using c(3,4) by (auto intro: order_trans)
  with r c show ?case by auto
qed simp

lemma best_role_mapping_spec:
  "case best_role_mapping num_text claims ms None of
     None \<Rightarrow> \<forall>m\<in>set ms. \<not> matches num_text claims (rm_claim m) (rm_value m)
   | Some r \<Rightarrow> r \<in> set ms \<and> matches num_text claims (rm_claim r) (rm_value r) \<and>
       (\<forall>m\<in>set ms. matches num_text claims (rm_claim m) (rm_value m) \<longrightarrow>
          sso_role_role (rm_role m) \<le> sso_role_role (rm_role r))"
proof (cases "filter (\<lambda>m. matches num_text claims (rm_claim m) (rm_value m)) ms")
  case Nil
  then show ?thesis by (simp add: best_role_mapping_fold filter_empty_conv)
next
  case (Cons b rest)
  then have mem: "insert b (set rest) = {m \<in> set ms. matches num_text claims (rm_claim m) (rm_value m)}"
    by (metis list.simps(15) set_filter)
  from foldl_pick_role [of b rest] show ?thesis
    unfolding best_role_mapping_fold Cons mem by (auto simp: pick_role_def)
qed

lemma js_trim_no_space: "\<not> list_ex is_js_space s \<Longrightarrow> js_trim s = s"
proof -
  assume "\<not> list_ex is_js_space s"
  then have "dropWhile is_js_space s = s" "dropWhile is_js_space (rev s) = rev s"
    by (auto simp: list_ex_iff dropWhile_eq_self_iff) (metis hd_in_set rev_is_Nil_conv set_rev)
  then show ?thesis by (simp add: js_trim_def js_trim_start_def js_trim_end_def)
qed

lemma split_on_join2: "split_on c s = [a, b] \<Longrightarrow> s = a @ c # b \<and> c \<notin> set a \<and> c \<notin> set b"
proof (induction s arbitrary: a)
  case (Cons x xs)
  have single: "split_on c t = [u] \<Longrightarrow> t = u \<and> c \<notin> set u" for t u
    by (induction t arbitrary: u) (auto split: if_splits list.splits)
  show ?case using Cons single by (auto split: if_splits list.splits)
qed simp

lemma EMAIL_SHAPE_parts:
  assumes "EMAIL_SHAPE s"
  obtains mailbox domain where "s = mailbox @ CHR ''@'' # domain" "mailbox \<noteq> []"
    "CHR ''@'' \<notin> set mailbox" "CHR ''@'' \<notin> set domain" "\<not> list_ex is_js_space s"
proof -
  from assms obtain mb d where "split_on (CHR ''@'') s = [mb, d]" "mb \<noteq> []" "\<not> list_ex is_js_space s"
    by (auto simp: EMAIL_SHAPE_def split: list.splits)
  with split_on_join2 [OF this(1)] that show thesis by blast
qed

lemma last_index_of_split:
  assumes "s = a @ c # b" "c \<notin> set b"
  shows "last_index_of c s = Some (length a)"
proof -
  obtain i where i: "last_index_of c s = Some i"
    using assms(1) last_index_of_None_iff [of c s] by auto
  from last_index_of_SomeD [OF i] have d: "i < length s" "s ! i = c" "c \<notin> set (drop (Suc i) s)" by auto
  have "\<not> i < length a"
  proof
    assume "i < length a"
    then have "drop (Suc i) s = drop (Suc i) a @ c # b" using assms(1) by simp
    then have "c \<in> set (drop (Suc i) s)" by simp
    then show False using d(3) by blast
  qed
  moreover have "\<not> i > length a"
  proof
    assume "i > length a"
    then obtain j where j: "i = length a + Suc j" by (metis less_imp_Suc_add add_Suc_right)
    have "b ! j = c" using d(2) unfolding assms(1) j by (simp only: nth_append_length_plus nth_Cons_Suc)
    moreover have "j < length b" using d(1) unfolding assms(1) j by simp
    ultimately show False using assms(2) nth_mem [of j b] by auto
  qed
  ultimately show ?thesis using i by simp
qed

lemma index_of_split: "c \<notin> set a \<Longrightarrow> index_of c (a @ c # b) = Some (length a)"
  by (induction a) auto

lemma name_claim_bounds:
  "name_claim claims keys = Some n \<Longrightarrow> n \<noteq> [] \<and> length n \<le> MAX_DISPLAY_NAME_LENGTH"
  by (induction claims keys rule: name_claim.induct)
     (auto simp: MAX_DISPLAY_NAME_LENGTH_def split: option.splits if_splits)

subsection \<open>Properties\<close>

definition example_provider :: sso_provider where
  "example_provider = \<lparr>sp_sync_roles = True, sp_default_role = Some Sso_Client,
     sp_role_mappings = [\<lparr>rm_claim = ''groups'', rm_value = ''devs'', rm_role = Sso_Provider\<rparr>,
       \<lparr>rm_claim = ''realm.roles'', rm_value = ''ops'', rm_role = Sso_Admin\<rparr>],
     sp_org_mappings = [\<lparr>om_claim = ''org'', om_value = ''7'', om_org_id = ''org-7''\<rparr>]\<rparr>"

definition example_claims :: claims where
  "example_claims = [(''groups'', JArr [JStr ''devs'', JStr ''all'']),
     (''realm'', JObj [(''roles'', JArr [JStr ''ops''])]), (''org'', JNum 7)]"

text \<open>C36: The role claims confer is the highest-ranked role of the rules that match, the
  provider's default when no rule matches, and never \<open>super_admin\<close>; the rule reported is one of
  the provider's and it matches.\<close>

theorem mapClaims_role:
  "(case cm_roleMapping (mapClaims num_text provider claims) of
      Some m \<Rightarrow> m \<in> set (sp_role_mappings provider) \<and>
        matches num_text claims (rm_claim m) (rm_value m) \<and>
        cm_role (mapClaims num_text provider claims) = Some (rm_role m) \<and>
        Max {sso_role_role (rm_role r) |r. r \<in> set (sp_role_mappings provider) \<and>
          matches num_text claims (rm_claim r) (rm_value r)} = sso_role_role (rm_role m)
    | None \<Rightarrow> list_all (\<lambda>m. \<not> matches num_text claims (rm_claim m) (rm_value m)) (sp_role_mappings provider) \<and>
        cm_role (mapClaims num_text provider claims) = sp_default_role provider) \<and>
   map_option sso_role_role (cm_role (mapClaims num_text provider claims)) \<noteq> Some Super_Admin"
proof -
  let ?ms = "sp_role_mappings provider" and ?M = "\<lambda>m. matches num_text claims (rm_claim m) (rm_value m)"
  have rm: "cm_roleMapping (mapClaims num_text provider claims) = best_role_mapping num_text claims ?ms None"
    "cm_role (mapClaims num_text provider claims) =
      (case best_role_mapping num_text claims ?ms None of Some m \<Rightarrow> Some (rm_role m) | None \<Rightarrow> sp_default_role provider)"
    by (simp_all add: mapClaims_def Let_def)
  note spec = best_role_mapping_spec [where num_text = num_text and claims = claims and ms = ?ms]
  show ?thesis
  proof (cases "best_role_mapping num_text claims ?ms None")
    case None
    then show ?thesis using spec rm sso_role_not_super by (auto simp: list_all_iff)
  next
    case (Some m)
    let ?R = "{sso_role_role (rm_role r) |r. r \<in> set ?ms \<and> ?M r}"
    have "finite ?R" by (rule finite_subset [of _ "(sso_role_role \<circ> rm_role) ` set ?ms"]) auto
    then have "Max ?R = sso_role_role (rm_role m)"
      using spec Some by (intro Max_eqI) auto
    then show ?thesis using spec rm Some sso_role_not_super by auto
  qed
qed

text \<open>A sign-in never changes a \<open>super_admin\<close> and never makes one; and once its change is
  stored, the same claims call for no further change.\<close>

theorem planClaimsChange_settles:
  assumes "sa_role account = Super_Admin \<longleftrightarrow> was_super"
    and "planClaimsChange account mapping provider orgExists = plan"
  shows "(was_super \<longrightarrow> plan = None) \<and>
    (sa_role (apply_account_patch plan account) = Super_Admin \<longleftrightarrow> was_super) \<and>
    planClaimsChange (apply_account_patch plan account) mapping provider orgExists = None"
proof (cases was_super)
  case True
  with assms show ?thesis by (auto simp: planClaimsChange_def apply_account_patch_def)
next
  case False
  have "sa_role (apply_account_patch plan account) \<noteq> Super_Admin"
    using assms False sso_role_not_super by (auto simp: apply_account_patch_def split: option.splits)
  moreover have "planClaimsChange (apply_account_patch plan account) mapping provider orgExists = None"
    unfolding assms(2) [symmetric] planClaimsChange_def apply_account_patch_def Let_def
    by (auto split: option.splits if_splits)
  ultimately show ?thesis using assms False by blast
qed

theorem planClaimsChange_settles_witness:
  "planClaimsChange (apply_account_patch
      (planClaimsChange \<lparr>sa_role = Client, sa_org_id = None\<rparr>
        (mapClaims (\<lambda>r. ''7'') example_provider example_claims) example_provider True)
      \<lparr>sa_role = Client, sa_org_id = None\<rparr>)
     (mapClaims (\<lambda>r. ''7'') example_provider example_claims) example_provider True = None"
  using planClaimsChange_settles [of "\<lparr>sa_role = Client, sa_org_id = None\<rparr>" False
      "mapClaims (\<lambda>r. ''7'') example_provider example_claims" example_provider True] by simp

text \<open>An address the portal accepts from a claim is in normal form: normalising it again
  changes nothing, it is within the length limit, it has exactly one at sign with a non-empty
  mailbox before it, and the allow-list test compares exactly the text after that sign.\<close>

theorem normalizeEmailClaim_normal:
  assumes "normalizeEmailClaim v = Some email"
  shows "normalizeEmailClaim (Some (JStr email)) = Some email \<and>
    length email \<le> MAX_EMAIL_LENGTH \<and>
    (\<exists>mailbox domain. email = mailbox @ CHR ''@'' # domain \<and> mailbox \<noteq> [] \<and>
       CHR ''@'' \<notin> set mailbox \<and> CHR ''@'' \<notin> set domain \<and>
       (emailDomainAllowed email allowed \<longleftrightarrow> allowed = [] \<or> domain \<in> set allowed))"
proof -
  from assms obtain s where s: "as_str v = Some s" "email = js_lower (js_trim s)"
    "length email \<noteq> 0" "length email \<le> MAX_EMAIL_LENGTH" "EMAIL_SHAPE email"
    by (auto simp: normalizeEmailClaim_def Let_def split: option.splits if_splits)
  obtain mb d where e: "email = mb @ CHR ''@'' # d" "mb \<noteq> []" "CHR ''@'' \<notin> set mb"
    "CHR ''@'' \<notin> set d" "\<not> list_ex is_js_space email"
    using s(5) by (rule EMAIL_SHAPE_parts)
  have "js_lower (js_trim email) = email" using s(2) js_trim_no_space [OF e(5)] js_lower_idem by simp
  then have "normalizeEmailClaim (Some (JStr email)) = Some email"
    using s(3-5) by (simp add: normalizeEmailClaim_def)
  moreover have "emailDomainAllowed email allowed \<longleftrightarrow> allowed = [] \<or> d \<in> set allowed"
    using last_index_of_split [OF e(1,4)] e(1) by (simp add: emailDomainAllowed_def)
  ultimately show ?thesis using s(4) e by blast
qed

theorem normalizeEmailClaim_normal_witness:
  "normalizeEmailClaim (Some (JStr ''ada@example.com'')) = Some ''ada@example.com''"
proof -
  have "normalizeEmailClaim (Some (JStr ''  Ada@Example.com '')) = Some ''ada@example.com''"
    by code_simp
  from normalizeEmailClaim_normal [OF this] show ?thesis by blast
qed

text \<open>The display name of a new account is never empty and never longer than the portal
  stores, for every address the portal accepts.\<close>

theorem displayNameFromClaims_bounds:
  assumes "normalizeEmailClaim v = Some email"
  shows "displayNameFromClaims claims email \<noteq> [] \<and>
    length (displayNameFromClaims claims email) \<le> MAX_DISPLAY_NAME_LENGTH"
proof -
  have "EMAIL_SHAPE email"
    using assms by (auto simp: normalizeEmailClaim_def Let_def split: option.splits if_splits)
  then obtain mb d where e: "email = mb @ CHR ''@'' # d" "mb \<noteq> []" "CHR ''@'' \<notin> set mb"
    by (rule EMAIL_SHAPE_parts)
  show ?thesis
  proof (cases "name_claim claims [''name'', ''preferred_username'']")
    case None
    then show ?thesis using e index_of_split [OF e(3), of d]
      by (simp add: displayNameFromClaims_def MAX_DISPLAY_NAME_LENGTH_def)
  next
    case (Some n)
    then show ?thesis using name_claim_bounds [OF Some] by (simp add: displayNameFromClaims_def)
  qed
qed

theorem displayNameFromClaims_bounds_witness:
  "displayNameFromClaims [(''name'', JStr ''  '')] ''ada@example.com'' \<noteq> []"
proof -
  have "normalizeEmailClaim (Some (JStr ''ada@example.com'')) = Some ''ada@example.com''" by code_simp
  from displayNameFromClaims_bounds [OF this] show ?thesis by blast
qed

end
