(* ===== verification/Lru_Cache.thy ===== *)
theory Lru_Cache
  imports Prelude "HOL-Library.Sublist"
begin

section \<open>The bounded cache\<close>

text \<open>
  Models \<open>server/src/lib/lru-cache.ts\<close>: a cache bounded by entry count and by total size. The
  entries are the source's insertion-ordered \<open>Map\<close>, least recently used first. A size that is not
  a finite number is \<open>None\<close>. Numbers are rationals, so sums of sizes are exact, as they are for the
  byte counts the callers pass. The private fields are the record's, and an operation returns the
  cache it leaves.
\<close>

record lru_options =
  lo_maxEntries :: rat
  lo_maxBytes :: rat

record 'v lru_cache =
  lc_options :: lru_options
  lc_entries :: "(string \<times> ('v \<times> rat)) list"
  lc_bytes :: rat
  lc_hits :: nat
  lc_misses :: nat

definition lru_new :: "lru_options \<Rightarrow> 'v lru_cache" where
  "lru_new options = \<lparr>lc_options = options, lc_entries = [], lc_bytes = 0, lc_hits = 0, lc_misses = 0\<rparr>"

definition lru_get :: "string \<Rightarrow> 'v lru_cache \<Rightarrow> 'v option \<times> 'v lru_cache" where
  "lru_get key c = (case map_of (lc_entries c) key of
      None \<Rightarrow> (None, c\<lparr>lc_misses := lc_misses c + 1\<rparr>)
    | Some entry \<Rightarrow> (Some (fst entry),
        c\<lparr>lc_hits := lc_hits c + 1,
          lc_entries := omap_set key entry (omap_delete key (lc_entries c))\<rparr>))"

text \<open>The eviction loop: drop the oldest entry while a bound is exceeded.\<close>

fun lru_evict :: "lru_options \<Rightarrow> (string \<times> ('v \<times> rat)) list \<Rightarrow> rat \<Rightarrow> (string \<times> ('v \<times> rat)) list \<times> rat" where
  "lru_evict options [] bytes = ([], bytes)"
| "lru_evict options (e # es) bytes =
     (if of_nat (length (e # es)) > lo_maxEntries options \<or> bytes > lo_maxBytes options
      then lru_evict options es (bytes - snd (snd e))
      else (e # es, bytes))"

text \<open>\<open>set\<close> refuses what cannot be held: a disabled cache, or a size that is too large, negative
  or not finite.\<close>

definition lru_admits :: "lru_options \<Rightarrow> rat option \<Rightarrow> bool" where
  "lru_admits options sz \<longleftrightarrow> \<not> (lo_maxEntries options \<le> 0 \<or> lo_maxBytes options \<le> 0 \<or>
     (case sz of None \<Rightarrow> True | Some n \<Rightarrow> n > lo_maxBytes options \<or> n < 0))"

definition lru_set :: "string \<Rightarrow> 'v \<Rightarrow> rat option \<Rightarrow> 'v lru_cache \<Rightarrow> 'v lru_cache" where
  "lru_set key v sz c =
     (let c1 = (case map_of (lc_entries c) key of
                  None \<Rightarrow> c
                | Some existing \<Rightarrow> c\<lparr>lc_entries := omap_delete key (lc_entries c),
                                    lc_bytes := lc_bytes c - snd existing\<rparr>)
      in if \<not> lru_admits (lc_options c) sz then c1
         else (let n = the sz;
                   (es, b) = lru_evict (lc_options c) (omap_set key (v, n) (lc_entries c1)) (lc_bytes c1 + n)
               in c1\<lparr>lc_entries := es, lc_bytes := b\<rparr>))"

definition lru_clear :: "'v lru_cache \<Rightarrow> 'v lru_cache" where
  "lru_clear c = c\<lparr>lc_entries := [], lc_bytes := 0\<rparr>"

definition lru_stats :: "'v lru_cache \<Rightarrow> nat \<times> nat \<times> nat \<times> rat" where
  "lru_stats c = (lc_hits c, lc_misses c, length (lc_entries c), lc_bytes c)"

subsection \<open>The invariant\<close>

definition total_size :: "(string \<times> ('v \<times> rat)) list \<Rightarrow> rat" where
  "total_size es = sum_list (map (\<lambda>e. snd (snd e)) es)"

definition lru_fits :: "lru_options \<Rightarrow> (string \<times> ('v \<times> rat)) list \<Rightarrow> bool" where
  "lru_fits options es \<longleftrightarrow> es = [] \<or>
     of_nat (length es) \<le> lo_maxEntries options \<and> total_size es \<le> lo_maxBytes options"

definition lru_ok :: "'v lru_cache \<Rightarrow> bool" where
  "lru_ok c \<longleftrightarrow> omap_wf (lc_entries c) \<and> lc_bytes c = total_size (lc_entries c) \<and>
     list_all (\<lambda>e. 0 \<le> snd (snd e)) (lc_entries c) \<and> lru_fits (lc_options c) (lc_entries c)"

lemma total_size_simps [simp]:
  "total_size [] = 0" "total_size (e # es) = snd (snd e) + total_size es"
  "total_size (es @ fs) = total_size es + total_size fs"
  by (simp_all add: total_size_def)

lemma total_size_delete:
  "omap_wf es \<Longrightarrow> map_of es k = Some vn \<Longrightarrow> total_size (omap_delete k es) = total_size es - snd vn"
proof (induction es)
  case (Cons e es)
  show ?case
  proof (cases "fst e = k")
    case True
    then have "k \<notin> fst ` set es" using Cons.prems(1) by (auto simp: omap_wf_def)
    then have "omap_delete k (e # es) = es"
      using True omap_delete_absent [of k es] by (simp add: omap_delete_def)
    with True Cons.prems(2) show ?thesis by (cases e) auto
  next
    case False
    then have "omap_delete k (e # es) = e # omap_delete k es" by (simp add: omap_delete_def)
    with False Cons show ?thesis by (cases e) (auto simp: omap_wf_def)
  qed
qed simp

lemma list_all_omap_delete: "list_all P es \<Longrightarrow> list_all P (omap_delete k es)"
  by (auto simp: list_all_iff omap_delete_def)

lemma total_size_nonneg: "list_all (\<lambda>e. 0 \<le> snd (snd e)) es \<Longrightarrow> 0 \<le> total_size es"
  by (induction es) auto

lemma omap_set_after_delete: "omap_set k v (omap_delete k es) = omap_delete k es @ [(k, v)]"
  by (rule omap_set_new) simp

text \<open>Eviction keeps the longest suffix, the most recently used entries, that fits.\<close>

lemma lru_evict_spec:
  "lru_evict options es (total_size es) = (fs, b) \<Longrightarrow>
     b = total_size fs \<and> (\<exists>gs. es = gs @ fs \<and> lru_fits options fs \<and>
       (\<forall>hs ks. es = hs @ ks \<longrightarrow> length ks > length fs \<longrightarrow> \<not> lru_fits options ks))"
proof (induction es)
  case (Cons e es)
  show ?case
  proof (cases "of_nat (length (e # es)) > lo_maxEntries options \<or> total_size (e # es) > lo_maxBytes options")
    case True
    then have nf: "\<not> lru_fits options (e # es)" by (auto simp: lru_fits_def)
    from True Cons.prems have "lru_evict options es (total_size es) = (fs, b)" by (auto split: if_splits)
    from Cons.IH [OF this] obtain gs where *: "b = total_size fs" "es = gs @ fs" "lru_fits options fs"
      "\<forall>hs ks. es = hs @ ks \<longrightarrow> length ks > length fs \<longrightarrow> \<not> lru_fits options ks" by blast
    have "\<not> lru_fits options ks" if "e # es = hs @ ks" "length ks > length fs" for hs ks
      using that nf *(4) by (cases hs) auto
    with * show ?thesis by (metis append_Cons)
  next
    case False
    then have fs: "fs = e # es" "b = total_size (e # es)" using Cons.prems by auto
    moreover have "lru_fits options (e # es)" using False by (auto simp: lru_fits_def)
    moreover have "\<not> length ks > length (e # es)" if "e # es = hs @ ks" for hs ks
      using that by (metis le_add2 length_append not_le)
    ultimately show ?thesis by blast
  qed
qed (simp add: lru_fits_def)

lemma omap_wf_suffix: "omap_wf (gs @ fs) \<Longrightarrow> omap_wf fs"
  by (simp add: omap_wf_def)

lemma lru_fits_delete:
  assumes "lru_fits options es" "list_all (\<lambda>e. 0 \<le> snd (snd e)) es" "omap_wf es"
  shows "lru_fits options (omap_delete k es)"
proof (cases "map_of es k")
  case None
  then have "k \<notin> fst ` set es" by (simp add: map_of_eq_None_iff)
  then show ?thesis using assms(1) by (simp add: omap_delete_absent)
next
  case (Some vn)
  then have nn: "0 \<le> snd vn" using assms(2) by (auto simp: list_all_iff dest!: map_of_SomeD)
  have "length (omap_delete k es) \<le> length es" by (simp add: omap_delete_def)
  then show ?thesis using assms(1) total_size_delete [OF assms(3) Some] nn
    by (auto simp: lru_fits_def omap_delete_def elim: order_trans [rotated])
qed

text \<open>The cache with \<open>key\<close> taken out, as \<open>set\<close> starts.\<close>

definition lru_without :: "string \<Rightarrow> 'v lru_cache \<Rightarrow> 'v lru_cache" where
  "lru_without key c = (case map_of (lc_entries c) key of
      None \<Rightarrow> c
    | Some existing \<Rightarrow> c\<lparr>lc_entries := omap_delete key (lc_entries c), lc_bytes := lc_bytes c - snd existing\<rparr>)"

lemma lru_without_ok:
  assumes "lru_ok c"
  shows "lru_ok (lru_without key c)" "lc_entries (lru_without key c) = omap_delete key (lc_entries c)"
    "lc_options (lru_without key c) = lc_options c"
proof -
  have "map_of (lc_entries c) key = None \<Longrightarrow> omap_delete key (lc_entries c) = lc_entries c"
    by (simp add: omap_delete_absent map_of_eq_None_iff)
  then show e: "lc_entries (lru_without key c) = omap_delete key (lc_entries c)"
    by (auto simp: lru_without_def split: option.splits)
  show o: "lc_options (lru_without key c) = lc_options c" by (simp add: lru_without_def split: option.splits)
  have "lc_bytes (lru_without key c) = total_size (omap_delete key (lc_entries c))"
    using assms e total_size_delete [of "lc_entries c" key]
    by (auto simp: lru_ok_def lru_without_def split: option.splits)
  then show "lru_ok (lru_without key c)"
    using assms by (simp add: lru_ok_def e o list_all_omap_delete lru_fits_delete)
qed

lemma lru_set_entries:
  assumes "lru_ok c" "lru_admits (lc_options c) (Some n)"
  shows "\<exists>gs fs. lc_entries (lru_set key v (Some n) c) = fs \<and>
    omap_delete key (lc_entries c) @ [(key, (v, n))] = gs @ fs \<and>
    lc_bytes (lru_set key v (Some n) c) = total_size fs \<and> lru_fits (lc_options c) fs \<and>
    (\<forall>hs ks. gs @ fs = hs @ ks \<longrightarrow> length ks > length fs \<longrightarrow> \<not> lru_fits (lc_options c) ks)"
proof -
  note w = lru_without_ok [OF assms(1), of key]
  let ?es = "omap_delete key (lc_entries c) @ [(key, (v, n))]"
  have b: "lc_bytes (lru_without key c) + n = total_size ?es"
    using w by (simp add: lru_ok_def)
  obtain fs b where ev: "lru_evict (lc_options c) ?es (total_size ?es) = (fs, b)" by force
  have "lru_set key v (Some n) c = (lru_without key c)\<lparr>lc_entries := fs, lc_bytes := b\<rparr>"
    using assms(2) ev b w(2)
    by (simp add: lru_set_def Let_def lru_without_def [symmetric] omap_set_after_delete)
  then show ?thesis using lru_evict_spec [OF ev] by auto
qed

lemma lru_set_ok:
  assumes "lru_ok c"
  shows "lru_ok (lru_set key v sz c)"
proof (cases "lru_admits (lc_options c) sz")
  case False
  then have "lru_set key v sz c = lru_without key c" by (simp add: lru_set_def lru_without_def)
  then show ?thesis using lru_without_ok [OF assms] by simp
next
  case True
  then obtain n where n: "sz = Some n" "0 \<le> n" by (auto simp: lru_admits_def split: option.splits)
  from lru_set_entries [OF assms True [unfolded n]] obtain gs fs where
    s: "lc_entries (lru_set key v sz c) = fs"
    "omap_delete key (lc_entries c) @ [(key, (v, n))] = gs @ fs"
    "lc_bytes (lru_set key v sz c) = total_size fs" "lru_fits (lc_options c) fs"
    unfolding n(1) by blast
  have o: "lc_options (lru_set key v sz c) = lc_options c"
    by (simp add: lru_set_def Let_def split: option.splits prod.splits)
  have "omap_wf (omap_delete key (lc_entries c) @ [(key, (v, n))])"
    using assms omap_wf_set [of "omap_delete key (lc_entries c)" key "(v, n)"]
    by (simp add: omap_set_after_delete lru_ok_def)
  then have "omap_wf fs" unfolding s(2) by (rule omap_wf_suffix)
  moreover have "list_all (\<lambda>e. 0 \<le> snd (snd e)) (gs @ fs)"
    using assms n(2) unfolding s(2) [symmetric] by (simp add: lru_ok_def list_all_omap_delete)
  ultimately show ?thesis using s o by (simp add: lru_ok_def)
qed

lemma total_size_move:
  "omap_wf es \<Longrightarrow> map_of es k = Some vn \<Longrightarrow>
     total_size (omap_delete k es @ [(k, vn)]) = total_size es \<and> length (omap_delete k es @ [(k, vn)]) = length es"
proof (induction es)
  case (Cons e es)
  show ?case
  proof (cases "fst e = k")
    case True
    then have "k \<notin> fst ` set es" using Cons.prems(1) by (auto simp: omap_wf_def)
    then have "omap_delete k (e # es) = es"
      using True omap_delete_absent [of k es] by (simp add: omap_delete_def)
    with True Cons.prems(2) show ?thesis by (cases e) auto
  next
    case False
    then have "omap_delete k (e # es) = e # omap_delete k es" by (simp add: omap_delete_def)
    with False Cons show ?thesis by (cases e) (auto simp: omap_wf_def)
  qed
qed simp

lemma lru_get_ok:
  assumes "lru_ok c"
  shows "lru_ok (snd (lru_get key c))"
proof (cases "map_of (lc_entries c) key")
  case None
  then show ?thesis using assms by (simp add: lru_get_def lru_ok_def)
next
  case (Some vn)
  let ?es = "omap_delete key (lc_entries c) @ [(key, vn)]"
  have wf: "omap_wf (lc_entries c)" using assms by (simp add: lru_ok_def)
  have "omap_wf ?es" using omap_wf_set [OF omap_wf_delete [OF wf], of key vn key]
    by (simp add: omap_set_after_delete)
  moreover have "list_all (\<lambda>e. 0 \<le> snd (snd e)) ?es"
    using assms Some by (auto simp: lru_ok_def omap_delete_def list_all_iff dest!: map_of_SomeD)
  moreover have "?es \<noteq> []" "lc_entries c \<noteq> []" using Some by auto
  ultimately show ?thesis
    using assms Some total_size_move [OF wf Some]
    by (simp add: lru_get_def lru_ok_def omap_set_after_delete lru_fits_def)
qed

subsection \<open>Properties\<close>

definition example_cache :: "nat lru_cache" where
  "example_cache = lru_set ''b'' 2 (Some 40) (lru_set ''a'' 1 (Some 50) (lru_new \<lparr>lo_maxEntries = 2, lo_maxBytes = 100\<rparr>))"

text \<open>Both bounds hold at all times: a new cache satisfies the invariant and every operation
  keeps it, so a cache that holds anything holds at most \<open>maxEntries\<close> entries whose sizes sum to
  the recorded byte count, itself at most \<open>maxBytes\<close>.\<close>

theorem lru_bounds_kept:
  assumes "lru_ok c"
  shows "lru_ok (lru_new options) \<and> lru_ok (lru_set key v sz c) \<and> lru_ok (snd (lru_get key c)) \<and>
    lru_ok (lru_clear c) \<and>
    (lc_entries c \<noteq> [] \<longrightarrow> of_nat (length (lc_entries c)) \<le> lo_maxEntries (lc_options c) \<and>
       lc_bytes c \<le> lo_maxBytes (lc_options c))"
  using assms lru_set_ok [OF assms] lru_get_ok [OF assms]
  by (auto simp: lru_ok_def lru_new_def lru_clear_def omap_wf_def lru_fits_def)

theorem lru_bounds_kept_witness:
  "lru_ok (lru_set ''c'' 3 (Some 60) example_cache)"
proof -
  have "lru_ok example_cache" by code_simp
  from lru_bounds_kept [OF this] show ?thesis by blast
qed

text \<open>C37: Storing a value it can hold, a cache keeps exactly the longest run of most recently used
  entries, the new one last, that fits both bounds: the entries kept are at most \<open>maxEntries\<close>, their
  sizes sum to at most \<open>maxBytes\<close> and are what the byte counter says, they are a suffix of the entries in
  order of use, and no longer suffix would fit. So the new value is found by the next lookup, and every
  entry dropped is older than every entry kept.\<close>

theorem lru_set_keeps_newest:
  assumes "lru_ok c" "0 \<le> n" "n \<le> lo_maxBytes (lc_options c)" "0 < lo_maxBytes (lc_options c)"
    "1 \<le> lo_maxEntries (lc_options c)"
  shows "let used = omap_delete key (lc_entries c) @ [(key, (v, n))]; after = lru_set key v (Some n) c in
    fst (lru_get key after) = Some v \<and>
    of_nat (length (lc_entries after)) \<le> lo_maxEntries (lc_options c) \<and>
    total_size (lc_entries after) \<le> lo_maxBytes (lc_options c) \<and> lc_bytes after = total_size (lc_entries after) \<and>
    suffix (lc_entries after) used \<and>
    (\<forall>longer. suffix longer used \<longrightarrow> length longer > length (lc_entries after) \<longrightarrow>
       of_nat (length longer) > lo_maxEntries (lc_options c) \<or> total_size longer > lo_maxBytes (lc_options c))"
proof -
  define used where "used = omap_delete key (lc_entries c) @ [(key, (v, n))]"
  define after where "after = lru_set key v (Some n) c"
  have adm: "lru_admits (lc_options c) (Some n)" using assms(1-5) by (simp add: lru_admits_def)
  from lru_set_entries [OF assms(1) adm] obtain gs fs where
    s: "lc_entries after = fs" "used = gs @ fs" "lc_bytes after = total_size fs" "lru_fits (lc_options c) fs"
    and longest: "\<forall>hs ks. gs @ fs = hs @ ks \<longrightarrow> length ks > length fs \<longrightarrow> \<not> lru_fits (lc_options c) ks"
    unfolding used_def after_def by blast
  have "lru_fits (lc_options c) [(key, (v, n))]" using assms(1-5) by (simp add: lru_fits_def)
  then have ne: "fs \<noteq> []"
    using s(2) longest unfolding used_def by (metis less_numeral_extra(1) length_Cons list.size(3) One_nat_def)
  then have "last fs = (key, (v, n))" using s(2) unfolding used_def by (metis last_appendR last_snoc)
  then have mem: "(key, (v, n)) \<in> set fs" using ne by (metis last_in_set)
  have "lru_ok after" unfolding after_def by (rule lru_set_ok [OF assms(1)])
  then have "map_of fs key = Some (v, n)" using mem s(1) by (simp add: lru_ok_def omap_wf_def)
  then have found: "fst (lru_get key after) = Some v" using s(1) by (simp add: lru_get_def)
  have "of_nat (length longer) > lo_maxEntries (lc_options c) \<or> total_size longer > lo_maxBytes (lc_options c)"
    if l: "suffix longer used" "length longer > length fs" for longer
  proof -
    obtain hs where "gs @ fs = hs @ longer" using l(1) unfolding s(2) suffix_def by blast
    then have "\<not> lru_fits (lc_options c) longer" using longest l(2) by blast
    then show ?thesis by (auto simp: lru_fits_def not_le)
  qed
  then show ?thesis unfolding used_def [symmetric] after_def [symmetric]
    using found s ne by (auto simp: Let_def lru_fits_def suffix_def)
qed

theorem lru_set_keeps_newest_witness:
  "fst (lru_get ''c'' (lru_set ''c'' 3 (Some 60) example_cache)) = Some 3 \<and>
   length (lc_entries (lru_set ''c'' 3 (Some 60) example_cache)) = 2 \<and> lc_bytes (lru_set ''c'' 3 (Some 60) example_cache) = 100"
proof -
  have c: "lru_ok example_cache" by code_simp
  have b: "(60::rat) \<le> lo_maxBytes (lc_options example_cache)" "0 < lo_maxBytes (lc_options example_cache)"
    "1 \<le> lo_maxEntries (lc_options example_cache)" by code_simp+
  have "fst (lru_get ''c'' (lru_set ''c'' 3 (Some 60) example_cache)) = Some 3"
    using lru_set_keeps_newest [OF c _ b] by (simp add: Let_def)
  moreover have "length (lc_entries (lru_set ''c'' 3 (Some 60) example_cache)) = 2"
    "lc_bytes (lru_set ''c'' 3 (Some 60) example_cache) = 100" by code_simp+
  ultimately show ?thesis by simp
qed

end
