(* ===== verification/Transaction_Retry.thy ===== *)
theory Transaction_Retry
  imports Errors
begin

section \<open>Retrying a contended transaction\<close>

text \<open>
  Models \<open>server/src/db/adapters/transaction-retry.ts\<close>: the backoff, the retry loop of the SQL
  adapters, the gate in front of MongoDB's own retry envelope, and the classification of driver
  errors. A run of the transaction is an argument: \<open>run k\<close> is what the \<open>k\<close>-th attempt ends with,
  a value or a driver error. The loop returns what the caller sees with the delays it slept.
\<close>

definition TRANSACTION_RETRY_ATTEMPTS :: int where "TRANSACTION_RETRY_ATTEMPTS = 5"
definition TRANSACTION_RETRY_BASE_DELAY_MS :: rat where "TRANSACTION_RETRY_BASE_DELAY_MS = 10"
definition TRANSACTION_RETRY_MAX_DELAY_MS :: rat where "TRANSACTION_RETRY_MAX_DELAY_MS = 200"
definition MONGO_CONTENTION_BUDGET_MS :: int where "MONGO_CONTENTION_BUDGET_MS = 5000"

text \<open>\<open>Math.round\<close>, and the backoff before the attempt after \<open>attempt\<close>; \<open>random\<close> is in [0, 1).\<close>

definition js_round :: "rat \<Rightarrow> int" where
  "js_round x = \<lfloor>x + 1 / 2\<rfloor>"

definition retry_step :: "int \<Rightarrow> rat" where
  "retry_step attempt =
     (let exponent = max 0 (min (attempt - 1) 16)
      in min (TRANSACTION_RETRY_BASE_DELAY_MS * 2 ^ nat exponent) TRANSACTION_RETRY_MAX_DELAY_MS)"

definition transactionRetryDelayMs :: "int \<Rightarrow> rat \<Rightarrow> int" where
  "transactionRetryDelayMs attempt random =
     js_round (retry_step attempt / 2 + retry_step attempt / 2 * random)"

datatype commit_outcome = Not_Applied | Commit_Unknown

definition transactionContentionError :: "string \<Rightarrow> int \<Rightarrow> commit_outcome \<Rightarrow> nexus_error" where
  "transactionContentionError driver attempts outcome = (case outcome of
      Commit_Unknown \<Rightarrow> mk_error CONFLICT
        (''The change may or may not have been committed: the commit outcome is unknown. '' @
         ''Check the current state before retrying.'')
        (Some (JObj [(''reason'', JStr ''transaction_commit_unknown''), (''driver'', JStr driver),
           (''attempts'', JNum (of_int attempts))]))
    | Not_Applied \<Rightarrow> mk_error CONFLICT
        (''Another change to the same data was committed first, so this one was rolled back and '' @
         ''not applied. Nothing was saved - please try again.'')
        (Some (JObj [(''reason'', JStr ''transaction_contention''), (''driver'', JStr driver),
           (''attempts'', JNum (of_int attempts))])))"

subsection \<open>The SQL retry loop\<close>

datatype 'd tx_failure = Driver_Error 'd | Contention nexus_error

record 'd retry_options =
  ro_driver :: string
  ro_retryable :: "'d \<Rightarrow> bool"
  ro_retry :: "bool option"
  ro_attempts :: "int option"

definition maxAttempts :: "'d retry_options \<Rightarrow> int" where
  "maxAttempts options =
     (if ro_retry options = Some False then 1
      else max 1 (case ro_attempts options of None \<Rightarrow> TRANSACTION_RETRY_ATTEMPTS | Some n \<Rightarrow> n))"

function retry_from ::
  "(int \<Rightarrow> 'd + 'a) \<Rightarrow> (int \<Rightarrow> rat) \<Rightarrow> 'd retry_options \<Rightarrow> int \<Rightarrow> ('d tx_failure + 'a) \<times> int list" where
  "retry_from run random options attempt =
     (case run attempt of
        Inr a \<Rightarrow> (Inr a, [])
      | Inl e \<Rightarrow>
          if \<not> ro_retryable options e then (Inl (Driver_Error e), [])
          else if attempt \<ge> maxAttempts options
          then (Inl (Contention (transactionContentionError (ro_driver options) attempt Not_Applied)), [])
          else (case retry_from run random options (attempt + 1) of
                  (r, ds) \<Rightarrow> (r, transactionRetryDelayMs attempt (random attempt) # ds)))"
  by pat_completeness auto
termination
  by (relation "measure (\<lambda>(run, random, options, attempt). nat (maxAttempts options - attempt))") auto

declare retry_from.simps [simp del]

definition runWithTransactionRetry ::
  "(int \<Rightarrow> 'd + 'a) \<Rightarrow> (int \<Rightarrow> rat) \<Rightarrow> 'd retry_options \<Rightarrow> ('d tx_failure + 'a) \<times> int list" where
  "runWithTransactionRetry run random options = retry_from run random options 1"

subsection \<open>MongoDB's gate\<close>

record mongo_gate =
  mg_budgetMs :: int
  mg_attempts :: int
  mg_deadline :: int

definition createMongoContentionGate :: "bool option \<Rightarrow> int option \<Rightarrow> mongo_gate" where
  "createMongoContentionGate retry budgetMs =
     (let budget = (case budgetMs of None \<Rightarrow> MONGO_CONTENTION_BUDGET_MS | Some b \<Rightarrow> b)
      in \<lparr>mg_budgetMs = (if retry = Some False then 0 else budget), mg_attempts = 0, mg_deadline = 0\<rparr>)"

text \<open>\<open>now1\<close> and \<open>now2\<close> are the clock at the two calls of \<open>now()\<close>. The result is the delay slept,
  if any, with the gate, or the terminal error.\<close>

definition beforeAttempt ::
  "int \<Rightarrow> int \<Rightarrow> rat \<Rightarrow> mongo_gate \<Rightarrow> nexus_error + (int option \<times> mongo_gate)" where
  "beforeAttempt now1 now2 random g =
     (if mg_attempts g > 0 then
        (let g1 = (if mg_attempts g = 1 then g\<lparr>mg_deadline := now1 + mg_budgetMs g\<rparr> else g)
         in if now2 \<ge> mg_deadline g1
            then Inl (transactionContentionError ''mongodb'' (mg_attempts g1) Not_Applied)
            else Inr (Some (transactionRetryDelayMs (mg_attempts g1) random),
                      g1\<lparr>mg_attempts := mg_attempts g1 + 1\<rparr>))
      else Inr (None, g\<lparr>mg_attempts := mg_attempts g + 1\<rparr>))"

subsection \<open>Driver classification\<close>

text \<open>A driver error: the properties read off it, and its label method when it has one.\<close>

record driver_error =
  dr_fields :: "(string \<times> json) list"
  dr_hasErrorLabel :: "(string \<Rightarrow> bool) option"

definition errorField :: "driver_error \<Rightarrow> string \<Rightarrow> json option" where
  "errorField e field = map_of (dr_fields e) field"

definition hasErrorLabel :: "driver_error \<Rightarrow> string \<Rightarrow> bool" where
  "hasErrorLabel e label = (case dr_hasErrorLabel e of
      Some f \<Rightarrow> f label
    | None \<Rightarrow> (case errorField e ''errorLabels'' of
                Some (JArr labels) \<Rightarrow> JStr label \<in> set labels | _ \<Rightarrow> False))"

definition isMysqlRetryableTransactionError :: "driver_error \<Rightarrow> bool" where
  "isMysqlRetryableTransactionError e \<longleftrightarrow>
     errorField e ''sqlState'' = Some (JStr ''40001'') \<or>
     as_str (errorField e ''code'') = Some ''ER_LOCK_DEADLOCK'' \<or>
     as_num (errorField e ''errno'') = Some 1213"

definition isPostgresRetryableTransactionError :: "driver_error \<Rightarrow> bool" where
  "isPostgresRetryableTransactionError e \<longleftrightarrow>
     as_str (errorField e ''code'') \<in> {Some ''40001'', Some ''40P01''}"

definition isMongoTransactionContentionError :: "driver_error \<Rightarrow> bool" where
  "isMongoTransactionContentionError e \<longleftrightarrow>
     hasErrorLabel e ''TransientTransactionError'' \<or> hasErrorLabel e ''UnknownTransactionCommitResult'' \<or>
     errorField e ''code'' = Some (JNum 112) \<or>
     errorField e ''name'' = Some (JStr ''MongoOperationTimeoutError'')"

definition isUnknownTransactionCommitResult :: "driver_error \<Rightarrow> bool" where
  "isUnknownTransactionCommitResult e \<longleftrightarrow> hasErrorLabel e ''UnknownTransactionCommitResult''"

subsection \<open>Lemmas\<close>

lemma maxAttempts_pos: "1 \<le> maxAttempts options"
  by (simp add: maxAttempts_def split: option.splits)

lemma retry_step_bounds: "10 \<le> retry_step attempt" "retry_step attempt \<le> 200"
proof -
  have "(1 :: rat) \<le> 2 ^ k" for k by simp
  then show "10 \<le> retry_step attempt"
    by (simp add: retry_step_def TRANSACTION_RETRY_BASE_DELAY_MS_def TRANSACTION_RETRY_MAX_DELAY_MS_def)
  show "retry_step attempt \<le> 200"
    by (simp add: retry_step_def TRANSACTION_RETRY_MAX_DELAY_MS_def)
qed

lemma transactionRetryDelayMs_bounds:
  assumes "0 \<le> random" "random < 1"
  shows "5 \<le> transactionRetryDelayMs attempt random" "transactionRetryDelayMs attempt random \<le> 200"
proof -
  let ?s = "retry_step attempt"
  note s = retry_step_bounds [of attempt]
  have "0 \<le> ?s / 2 * random" using s assms by simp
  moreover have "?s / 2 * random \<le> ?s / 2 * 1" using s assms by (intro mult_left_mono) auto
  ultimately have "5 \<le> ?s / 2 + ?s / 2 * random" "?s / 2 + ?s / 2 * random \<le> 200" using s by linarith+
  then show "5 \<le> transactionRetryDelayMs attempt random" "transactionRetryDelayMs attempt random \<le> 200"
    by (simp_all add: transactionRetryDelayMs_def js_round_def le_floor_iff floor_le_iff)
qed

text \<open>The first attempt, from \<open>attempt\<close> on, that does not fail for contention.\<close>

lemma retry_from_stops:
  assumes "attempt \<le> k" "k \<le> max attempt (maxAttempts options)"
    and "\<forall>j. attempt \<le> j \<longrightarrow> j < k \<longrightarrow> (\<exists>e. run j = Inl e \<and> ro_retryable options e)"
  shows "retry_from run random options attempt =
    (fst (retry_from run random options k),
     map (\<lambda>j. transactionRetryDelayMs j (random j)) [attempt..k - 1] @ snd (retry_from run random options k))"
  using assms
proof (induction "nat (k - attempt)" arbitrary: attempt)
  case 0
  then have "attempt = k" by simp
  then show ?case by simp
next
  case (Suc n)
  then have lt: "attempt < k" by simp
  then obtain e where e: "run attempt = Inl e" "ro_retryable options e" using Suc.prems(3) by auto
  have "\<not> attempt \<ge> maxAttempts options" using lt Suc.prems(2) by auto
  then have step: "retry_from run random options attempt =
      (case retry_from run random options (attempt + 1) of
         (r, ds) \<Rightarrow> (r, transactionRetryDelayMs attempt (random attempt) # ds))"
    using e by (simp add: retry_from.simps [of run random options attempt])
  have "[attempt..k - 1] = attempt # [attempt + 1..k - 1]" using lt by (simp add: upto.simps)
  moreover have "retry_from run random options (attempt + 1) =
    (fst (retry_from run random options k),
     map (\<lambda>j. transactionRetryDelayMs j (random j)) [attempt + 1..k - 1] @ snd (retry_from run random options k))"
    by (rule Suc.hyps(1)) (use Suc.hyps(2) Suc.prems lt in auto)
  ultimately show ?case unfolding step by (simp only: prod.case list.map append_Cons)
qed

lemma retry_delays_length: "length [1..k - 1] = nat (k - 1)"
  by simp

subsection \<open>Properties\<close>

text \<open>C40: The loop always ends, after at most \<open>maxAttempts\<close> runs: if the first attempt that does
  not fail for contention is the \<open>k\<close>-th within the budget, the caller gets exactly what that attempt
  ended with, a value or an untouched driver error, after \<open>k - 1\<close> delays; and if every attempt of
  the budget fails for contention, the caller gets the \<open>CONFLICT\<close> that names the number of attempts.\<close>

theorem runWithTransactionRetry_outcome:
  "if \<exists>k. 1 \<le> k \<and> k \<le> maxAttempts options \<and>
        (\<forall>e. run k = Inl e \<longrightarrow> \<not> ro_retryable options e)
   then \<exists>k. 1 \<le> k \<and> k \<le> maxAttempts options \<and>
          (\<forall>j. 1 \<le> j \<and> j < k \<longrightarrow> (\<exists>e. run j = Inl e \<and> ro_retryable options e)) \<and>
          fst (runWithTransactionRetry run random options) =
            (case run k of Inr a \<Rightarrow> Inr a | Inl e \<Rightarrow> Inl (Driver_Error e)) \<and>
          length (snd (runWithTransactionRetry run random options)) = nat (k - 1)
   else fst (runWithTransactionRetry run random options) =
          Inl (Contention (transactionContentionError (ro_driver options) (maxAttempts options) Not_Applied)) \<and>
        length (snd (runWithTransactionRetry run random options)) = nat (maxAttempts options - 1)"
proof (cases "\<exists>k. 1 \<le> k \<and> k \<le> maxAttempts options \<and> (\<forall>e. run k = Inl e \<longrightarrow> \<not> ro_retryable options e)")
  case True
  let ?P = "\<lambda>n. int n + 1 \<le> maxAttempts options \<and> (\<forall>e. run (int n + 1) = Inl e \<longrightarrow> \<not> ro_retryable options e)"
  from True obtain k0 where k0: "1 \<le> k0" "k0 \<le> maxAttempts options"
    "\<forall>e. run k0 = Inl e \<longrightarrow> \<not> ro_retryable options e" by blast
  then have "?P (nat (k0 - 1))" by simp
  then obtain n where n: "?P n" and least: "\<And>m. m < n \<Longrightarrow> \<not> ?P m"
    using exists_least_iff [of ?P] by blast
  define k where "k = int n + 1"
  have early: "\<exists>e. run j = Inl e \<and> ro_retryable options e" if "1 \<le> j" "j < k" for j
    using least [of "nat (j - 1)"] that n by (auto simp: k_def)
  have k: "1 \<le> k" "k \<le> maxAttempts options" "\<forall>e. run k = Inl e \<longrightarrow> \<not> ro_retryable options e"
    using n by (auto simp: k_def)
  have "retry_from run random options k = ((case run k of Inr a \<Rightarrow> Inr a | Inl e \<Rightarrow> Inl (Driver_Error e)), [])"
    using k(3) by (simp add: retry_from.simps [of run random options k] split: sum.splits)
  moreover have "retry_from run random options 1 = (fst (retry_from run random options k),
      map (\<lambda>j. transactionRetryDelayMs j (random j)) [1..k - 1] @ snd (retry_from run random options k))"
    by (rule retry_from_stops) (use k early in auto)
  ultimately have "fst (runWithTransactionRetry run random options) =
      (case run k of Inr a \<Rightarrow> Inr a | Inl e \<Rightarrow> Inl (Driver_Error e))"
    "length (snd (runWithTransactionRetry run random options)) = nat (k - 1)"
    by (auto simp: runWithTransactionRetry_def)
  with k early show ?thesis unfolding if_P [OF True] by blast
next
  case False
  let ?m = "maxAttempts options"
  have all: "\<exists>e. run j = Inl e \<and> ro_retryable options e" if "1 \<le> j" "j \<le> ?m" for j
    using False that by blast
  then obtain e where "run ?m = Inl e" "ro_retryable options e" using maxAttempts_pos by blast
  then have "retry_from run random options ?m =
      (Inl (Contention (transactionContentionError (ro_driver options) ?m Not_Applied)), [])"
    by (simp add: retry_from.simps [of run random options ?m])
  moreover have "retry_from run random options 1 = (fst (retry_from run random options ?m),
      map (\<lambda>j. transactionRetryDelayMs j (random j)) [1..?m - 1] @ snd (retry_from run random options ?m))"
    by (rule retry_from_stops) (use maxAttempts_pos all in auto)
  ultimately show ?thesis unfolding if_not_P [OF False] by (simp add: runWithTransactionRetry_def)
qed

theorem runWithTransactionRetry_outcome_witness:
  "\<exists>k :: int. 1 \<le> k \<and> k \<le> 5 \<and> fst (runWithTransactionRetry (\<lambda>k. if k < 3 then Inl (1 :: int) else Inr ''done'') (\<lambda>_. 0)
      \<lparr>ro_driver = ''postgres'', ro_retryable = (\<lambda>e. e = 1), ro_retry = None, ro_attempts = None\<rparr>) =
    (case (if k < 3 then Inl (1 :: int) else Inr ''done'') of Inr a \<Rightarrow> Inr a | Inl e \<Rightarrow> Inl (Driver_Error e))"
proof -
  let ?run = "\<lambda>k :: int. if k < 3 then Inl (1 :: int) else Inr ''done''"
  let ?o = "\<lparr>ro_driver = ''postgres'', ro_retryable = (\<lambda>e :: int. e = 1), ro_retry = None, ro_attempts = None\<rparr>"
  have m: "maxAttempts ?o = 5" by (simp add: maxAttempts_def TRANSACTION_RETRY_ATTEMPTS_def)
  have "1 \<le> (3 :: int) \<and> 3 \<le> maxAttempts ?o \<and> (\<forall>e. ?run 3 = Inl e \<longrightarrow> \<not> ro_retryable ?o e)"
    unfolding m by simp
  then have c: "\<exists>k. 1 \<le> k \<and> k \<le> maxAttempts ?o \<and> (\<forall>e. ?run k = Inl e \<longrightarrow> \<not> ro_retryable ?o e)"
    by (rule exI [where P = "\<lambda>k. 1 \<le> k \<and> k \<le> maxAttempts ?o \<and> (\<forall>e. ?run k = Inl e \<longrightarrow> \<not> ro_retryable ?o e)"])
  obtain k where k: "1 \<le> k" "k \<le> maxAttempts ?o"
    "fst (runWithTransactionRetry ?run (\<lambda>_. 0) ?o) = (case ?run k of Inr a \<Rightarrow> Inr a | Inl e \<Rightarrow> Inl (Driver_Error e))"
    using runWithTransactionRetry_outcome [of ?o ?run "\<lambda>_. 0", unfolded if_P [OF c]] by (elim exE conjE) (rule that)
  have "1 \<le> k \<and> k \<le> 5 \<and> fst (runWithTransactionRetry ?run (\<lambda>_. 0) ?o) =
      (case ?run k of Inr a \<Rightarrow> Inr a | Inl e \<Rightarrow> Inl (Driver_Error e))"
    using k(1) k(2) [unfolded m] k(3) by (intro conjI)
  then show ?thesis by (rule exI [where x = k])
qed

text \<open>Every delay of the loop is between 5 and 200 milliseconds, whatever the jitter, so a
  contended request of the default budget sleeps at most 800 milliseconds in all.\<close>

theorem retry_delays_bounded:
  assumes "\<And>k. 0 \<le> random k \<and> random k < 1"
  shows "list_all (\<lambda>d. 5 \<le> d \<and> d \<le> 200) (snd (runWithTransactionRetry run random options)) \<and>
    sum_list (snd (runWithTransactionRetry run random options)) \<le> 200 * (maxAttempts options - 1)"
proof -
  let ?ds = "\<lambda>a. snd (retry_from run random options a)"
  have all: "list_all (\<lambda>d. 5 \<le> d \<and> d \<le> 200) (?ds a)" for a
    using transactionRetryDelayMs_bounds assms
    by (induction run random options a rule: retry_from.induct)
       (subst retry_from.simps, auto split: sum.splits prod.splits)
  have len: "int (length (?ds a)) \<le> max 0 (maxAttempts options - a)" for a
  proof (induction run random options a rule: retry_from.induct)
    case (1 run random options attempt)
    then show ?case
      by (subst retry_from.simps) (fastforce split: sum.splits prod.splits)
  qed
  have "sum_list ds \<le> 200 * int (length ds)" if "list_all (\<lambda>d. 5 \<le> d \<and> d \<le> (200 :: int)) ds" for ds
    using that by (induction ds) auto
  from this [OF all [of 1]] len [of 1] maxAttempts_pos [of options] all [of 1]
  show ?thesis by (simp add: runWithTransactionRetry_def)
qed

theorem retry_delays_bounded_witness:
  "sum_list (snd (runWithTransactionRetry (\<lambda>k. Inl () :: unit + nat) (\<lambda>k. 1 / 2)
     \<lparr>ro_driver = ''mysql'', ro_retryable = (\<lambda>e. True), ro_retry = None, ro_attempts = None\<rparr>)) \<le> 800"
  using retry_delays_bounded [of "\<lambda>k. 1 / 2" "\<lambda>k. Inl () :: unit + nat"
      "\<lparr>ro_driver = ''mysql'', ro_retryable = (\<lambda>e. True), ro_retry = None, ro_attempts = None\<rparr>"]
  by (simp add: maxAttempts_def TRANSACTION_RETRY_ATTEMPTS_def)

text \<open>MongoDB's gate lets the first run pass at once and, from the first re-run on, refuses
  every attempt at or past its deadline with the \<open>CONFLICT\<close> that counts the runs made; the deadline
  is set once, at the first re-run, and never moves after that.\<close>

theorem mongo_gate_deadline:
  assumes "beforeAttempt n1 n2 r (createMongoContentionGate retry budget) = Inr (d0, g1)"
    and "beforeAttempt t1 t2 r1 g1 = Inr (d1, g2)"
  shows "d0 = None \<and> d1 \<noteq> None \<and> mg_attempts g2 = 2 \<and> mg_deadline g2 = t1 + mg_budgetMs g2 \<and>
    t2 < mg_deadline g2 \<and>
    (case beforeAttempt u1 u2 r2 g2 of
       Inl e \<Rightarrow> u2 \<ge> mg_deadline g2 \<and> e = transactionContentionError ''mongodb'' 2 Not_Applied
     | Inr (d2, g3) \<Rightarrow> u2 < mg_deadline g2 \<and> mg_deadline g3 = mg_deadline g2 \<and> mg_attempts g3 = 3)"
proof -
  have g1: "g1 = (createMongoContentionGate retry budget)\<lparr>mg_attempts := 1\<rparr>" "d0 = None"
    using assms(1) by (auto simp: beforeAttempt_def createMongoContentionGate_def Let_def split: option.splits)
  have g2: "g2 = g1\<lparr>mg_deadline := t1 + mg_budgetMs g1, mg_attempts := 2\<rparr>" "t2 < t1 + mg_budgetMs g1"
    "d1 \<noteq> None"
    using assms(2) g1 by (auto simp: beforeAttempt_def Let_def split: if_splits)
  show ?thesis using g1 g2 by (auto simp: beforeAttempt_def Let_def)
qed

theorem mongo_gate_deadline_witness:
  "\<exists>g2. beforeAttempt 100 101 0 \<lparr>mg_budgetMs = 5000, mg_attempts = 1, mg_deadline = 0\<rparr> = Inr (Some 5, g2) \<and>
     mg_deadline g2 = 100 + mg_budgetMs g2"
proof -
  have a: "beforeAttempt 0 0 0 (createMongoContentionGate None None) =
      Inr (None, \<lparr>mg_budgetMs = 5000, mg_attempts = 1, mg_deadline = 0\<rparr>)" by code_simp
  have b: "beforeAttempt 100 101 0 \<lparr>mg_budgetMs = 5000, mg_attempts = 1, mg_deadline = 0\<rparr> =
      Inr (Some 5, \<lparr>mg_budgetMs = 5000, mg_attempts = 2, mg_deadline = 5100\<rparr>)" by code_simp
  from mongo_gate_deadline [OF a b] b show ?thesis by auto
qed

end
