(* ===== verification/Entities.thy ===== *)
theory Entities
  imports Roles Errors Json
begin

section \<open>Entities\<close>

text \<open>
  The rows of the portal's store that the access workflow reads and writes
  (\<open>shared/src/entities.ts\<close>, \<open>server/src/db/store.ts\<close>), and the names of the gateway's ACL groups
  (\<open>shared/src/constants.ts\<close>, \<open>shared/src/agents.ts\<close>). Timestamps are milliseconds, which compare
  as the ISO strings of the source do; a nullable column is an \<open>option\<close>. A row has the columns the
  modelled operations read or write; an API row leaves out its documents and gateway settings.
\<close>

datatype user_status = User_Active | User_Disabled
datatype api_status = Published | Retired
datatype api_visibility = Vis_Public | Vis_Internal | Vis_Private
datatype application_status = App_Active | App_Disabled
datatype request_status = Rq_Pending | Rq_Approved | Rq_Denied | Rq_Revoked | Rq_Cancelled
datatype grant_status = Gr_Active | Gr_Revoked

record user =
  u_id :: string
  u_role :: role
  u_status :: user_status
  u_email :: string
  u_email_verified :: bool
  u_display_name :: string
  u_company :: "string option"
  u_phone :: "string option"
  u_org_id :: "string option"
  u_password_hash :: string
  u_last_login_at :: "int option"

abbreviation example_user :: "string \<Rightarrow> role \<Rightarrow> user" where
  "example_user i role \<equiv> \<lparr>u_id = i, u_role = role, u_status = User_Active, u_email = ''x@y.z'', u_email_verified = True,
     u_display_name = ''X'', u_company = None, u_phone = None, u_org_id = None, u_password_hash = ''h'', u_last_login_at = None\<rparr>"

text \<open>\<open>a_agents\<close>: the published agent operations, each with its exposure id when it has one.\<close>

record api =
  a_id :: string
  a_owner_user_id :: string
  a_status :: api_status
  a_visibility :: api_visibility
  a_requestable :: bool
  a_ferrum_proxy_id :: "string option"
  a_agents :: "string option list option"

record application =
  ap_id :: string
  ap_owner_user_id :: string
  ap_status :: application_status

record viewer =
  vw_api_id :: string
  vw_user_id :: string
  vw_granted_by :: "string option"
  vw_note :: "string option"

record consumer =
  co_user_id :: string
  co_application_id :: "string option"
  co_ferrum_consumer_id :: string

record access_request =
  rq_id :: string
  rq_api_id :: string
  rq_user_id :: string
  rq_application_id :: "string option"
  rq_justification :: string
  rq_status :: request_status
  rq_decided_by :: "string option"
  rq_decided_at :: "int option"
  rq_decision_note :: "string option"
  rq_requested_tools :: "string list option"
  rq_approved_tools :: "string list option"
  rq_grant_id :: "string option"
  rq_created_at :: int
  rq_updated_at :: int

record grant =
  gr_id :: string
  gr_api_id :: string
  gr_user_id :: string
  gr_application_id :: "string option"
  gr_access_request_id :: "string option"
  gr_acl_group :: string
  gr_status :: grant_status
  gr_granted_by :: string
  gr_revoked_by :: "string option"
  gr_revoked_at :: "int option"
  gr_approved_tools :: "string list option"
  gr_created_at :: int
  gr_updated_at :: int

datatype job_kind = Job_Revoke | Job_Approve
datatype job_status = Job_Pending | Job_Sending

record job =
  jb_id :: string
  jb_generation :: string
  jb_kind :: job_kind
  jb_subject_id :: string
  jb_api_id :: string
  jb_user_id :: string
  jb_application_id :: "string option"
  jb_requested_by :: "string option"
  jb_status :: job_status
  jb_attempts :: nat
  jb_next_attempt_at :: "int option"
  jb_last_error :: "string option"
  jb_created_at :: int
  jb_updated_at :: int

subsection \<open>Queued mail\<close>

datatype mail_status = Mail_Pending | Mail_Sending | Mail_Sent | Mail_Failed

record mail =
  ml_id :: string
  ml_generation :: string
  ml_to_email :: string
  ml_priority :: nat
  ml_recipient_user_id :: "string option"
  ml_subject :: string
  ml_body_html :: string
  ml_body_text :: string
  ml_status :: mail_status
  ml_attempts :: nat
  ml_next_attempt_at :: "int option"
  ml_last_error :: "string option"
  ml_idempotency_key :: "string option"
  ml_created_at :: int
  ml_updated_at :: int

subsection \<open>Accounts\<close>

text \<open>A session, and a single-use link sent by mail, by the account they belong to.\<close>

record session =
  se_id :: string
  se_token_hash :: string
  se_user_id :: string
  se_csrf_token :: string
  se_created_at :: int
  se_expires_at :: int

datatype token_purpose = Email_Verification | Password_Reset

record token =
  vt_id :: string
  vt_user_id :: string
  vt_token_hash :: string
  vt_purpose :: token_purpose
  vt_expires_at :: int
  vt_used_at :: "int option"
  vt_created_at :: int

text \<open>When a link of a purpose was last issued to an account.\<close>

record issue_claim =
  ic_user_id :: string
  ic_purpose :: token_purpose
  ic_issued_at :: int

datatype proof_method = By_Verification_Link | By_Password_Reset | By_Identity_Provider

text \<open>Evidence that the holder of an account controls an address.\<close>

record email_proof =
  ep_user_id :: string
  ep_email :: string
  ep_method :: proof_method
  ep_proven_at :: int

text \<open>The credentials an account owes after its first trusted proof of its address.\<close>

datatype recovery_status = Rec_Pending | Rec_Sending

record recovery_job =
  rj_id :: string
  rj_generation :: string
  rj_user_id :: string
  rj_status :: recovery_status
  rj_attempts :: nat
  rj_next_attempt_at :: "int option"
  rj_last_error :: "string option"
  rj_unblocked_at :: "int option"
  rj_created_at :: int
  rj_updated_at :: int

text \<open>A row of \<open>app_settings\<close>.\<close>

record setting =
  st_key :: string
  st_value :: json
  st_encrypted :: bool
  st_updated_at :: int

record user_identity =
  ui_id :: string
  ui_user_id :: string
  ui_provider_id :: string

record organization =
  og_id :: string
  og_name :: string
  og_description :: "string option"

subsection \<open>Gateway identities\<close>

datatype teardown_status = Td_Pending | Td_Sending | Td_Done

record teardown_job =
  tj_id :: string
  tj_generation :: string
  tj_user_id :: string
  tj_status :: teardown_status
  tj_attempts :: nat
  tj_next_attempt_at :: "int option"
  tj_last_error :: "string option"
  tj_requested_by :: "string option"
  tj_created_at :: int
  tj_updated_at :: int
  tj_completed_at :: "int option"

datatype credential_type = Keyauth | Basicauth | Jwt
datatype credential_status = Cr_Active | Cr_Retiring | Cr_Revoked

record credential =
  cm_id :: string
  cm_user_id :: string
  cm_consumer_id :: string
  cm_type :: credential_type
  cm_status :: credential_status
  cm_created_at :: int

text \<open>A registered identity other than an account's own consumers, by its name on the gateway.\<close>

record gateway_identity =
  gi_id :: string
  gi_user_id :: string
  gi_namespace :: string
  gi_username :: string
  gi_consumer_id :: "string option"
  gi_created_at :: int

subsection \<open>The audit trail\<close>

text \<open>An audit row with its actor (none for the system), action, target and time, and the id its writer
  minted for it, when it did (the ids the store mints are not modelled, nor the free-form details). A
  target without an id is the empty text.\<close>

datatype audit_action =
    ACCESS_REQUEST | ACCESS_CANCEL | ACCESS_APPROVE | ACCESS_APPROVE_ROLLBACK | ACCESS_DENY
  | ACCESS_REVOKE | ACCESS_REVOKE_ROLLBACK | ACCESS_REVOKE_COMPLETE | ACCESS_TOOLS_REQUEST
  | ACCESS_TOOLS_APPROVE | ACCESS_TOOLS_APPROVE_ROLLBACK | ACCESS_STRANDED_REPAIR_QUEUED
  | USER_UPDATE | USER_ROLE_CHANGE | USER_DISABLE | USER_ENABLE | USER_ADDRESS_RELEASE
  | USER_GATEWAY_TEARDOWN_RETRY | USER_GATEWAY_TEARDOWN_COMPLETE | ORG_CREATE | ORG_UPDATE
  | AUTH_REGISTER | AUTH_LOGIN | AUTH_LOGOUT | AUTH_VERIFY_EMAIL | AUTH_VERIFICATION_RESEND
  | AUTH_PASSWORD_RESET_REQUEST | AUTH_PASSWORD_RESET | GOD_REVOKE_GRANT | GOD_DELETE_API | GOD_DISABLE_USER
  | GOD_DISABLE_USER_COMPLETE | GOD_BROADCAST

record audit_row =
  au_id :: "string option"
  au_actor :: "string option"
  au_action :: audit_action
  au_target :: string
  au_created_at :: int

subsection \<open>ACL groups\<close>

definition ACL_GROUP_PREFIX :: string where "ACL_GROUP_PREFIX = ''nexus:api:''"
definition ACL_GROUP_APPROVED_SUFFIX :: string where "ACL_GROUP_APPROVED_SUFFIX = '':approved''"

definition aclGroupForApi :: "string \<Rightarrow> string" where
  "aclGroupForApi apiId = ACL_GROUP_PREFIX @ apiId @ ACL_GROUP_APPROVED_SUFFIX"

definition mcpAllGroupForApi :: "string \<Rightarrow> string" where
  "mcpAllGroupForApi apiId = ''nexus:api:'' @ apiId @ '':mcp:all''"

definition mcpToolGroupForApi :: "string \<Rightarrow> string \<Rightarrow> string" where
  "mcpToolGroupForApi apiId toolId = ''nexus:api:'' @ apiId @ '':mcp:tool:'' @ toolId"

definition mcpGroupsForGrant :: "string \<Rightarrow> string list option \<Rightarrow> string list" where
  "mcpGroupsForGrant apiId tools = (case tools of
      None \<Rightarrow> [mcpAllGroupForApi apiId] | Some ids \<Rightarrow> map (mcpToolGroupForApi apiId) ids)"

definition starts_with :: "string \<Rightarrow> string \<Rightarrow> bool" where
  "starts_with p s \<longleftrightarrow> take (length p) s = p"

definition isMcpGroupForApi :: "string \<Rightarrow> string \<Rightarrow> bool" where
  "isMcpGroupForApi grp apiId \<longleftrightarrow> grp = mcpAllGroupForApi apiId \<or>
     starts_with (''nexus:api:'' @ apiId @ '':mcp:tool:'') grp"

text \<open>Every group of one API: its REST group and its MCP groups.\<close>

definition group_of_api :: "string \<Rightarrow> string \<Rightarrow> bool" where
  "group_of_api apiId grp \<longleftrightarrow> grp = aclGroupForApi apiId \<or> isMcpGroupForApi grp apiId"

lemma starts_with_append [simp]: "starts_with p (p @ s)"
  by (simp add: starts_with_def)

lemma starts_withD: "starts_with p s \<Longrightarrow> \<exists>r. s = p @ r"
  by (metis append_take_drop_id starts_with_def)

lemma mcpToolGroup_group: "isMcpGroupForApi (mcpToolGroupForApi a t) a"
proof -
  have "mcpToolGroupForApi a t = (''nexus:api:'' @ a @ '':mcp:tool:'') @ t"
    by (simp add: mcpToolGroupForApi_def)
  then show ?thesis by (metis isMcpGroupForApi_def starts_with_append)
qed

lemma mcpGroupsForGrant_group: "g \<in> set (mcpGroupsForGrant a tools) \<Longrightarrow> isMcpGroupForApi g a"
  by (auto simp: mcpGroupsForGrant_def mcpToolGroup_group isMcpGroupForApi_def [of "mcpAllGroupForApi a"]
      split: option.splits)

text \<open>Two API ids without a colon (ids are UUIDs) never share a group.\<close>

lemma colon_split:
  assumes "a @ CHR '':'' # x = b @ CHR '':'' # y" "CHR '':'' \<notin> set a" "CHR '':'' \<notin> set b"
  shows "a = b"
  using assms
proof (induction a arbitrary: b)
  case Nil
  then show ?case by (cases b) auto
next
  case (Cons c a)
  then show ?case by (cases b) auto
qed

lemma group_of_api_tail: "group_of_api a g \<Longrightarrow> \<exists>r. g = ''nexus:api:'' @ a @ CHR '':'' # r"
  by (auto simp: group_of_api_def isMcpGroupForApi_def aclGroupForApi_def mcpAllGroupForApi_def
      ACL_GROUP_PREFIX_def ACL_GROUP_APPROVED_SUFFIX_def dest!: starts_withD)

lemma group_of_api_unique:
  assumes "group_of_api a g" "group_of_api b g" "CHR '':'' \<notin> set a" "CHR '':'' \<notin> set b"
  shows "a = b"
proof -
  from assms(1,2) obtain r s where "''nexus:api:'' @ a @ CHR '':'' # r = ''nexus:api:'' @ b @ CHR '':'' # s"
    using group_of_api_tail by metis
  then have "a @ CHR '':'' # r = b @ CHR '':'' # s" by simp
  then show ?thesis using assms(3,4) by (rule colon_split)
qed

lemma acl_not_mcp: "\<not> isMcpGroupForApi (aclGroupForApi a) a"
  by (auto simp: isMcpGroupForApi_def aclGroupForApi_def mcpAllGroupForApi_def
      ACL_GROUP_PREFIX_def ACL_GROUP_APPROVED_SUFFIX_def dest!: starts_withD)

end
