(* ===== verification/Store.thy ===== *)
theory Store
  imports Entities
begin

section \<open>The store\<close>

text \<open>
  Models the repositories of the SQLite adapter (\<open>server/src/db/adapters/sqlite/index.ts\<close>) that the
  access workflow uses: \<open>apiViewers\<close>, \<open>accessRequests\<close>, \<open>grants\<close>, \<open>accessGatewayJobs\<close>, and the
  lookups of the other tables, with the constraints of the migrations (primary keys, the partial
  unique indexes on pending requests and active grants, the unique job subject, the foreign keys).
  A repository call maps the database to its result and the database it leaves, or throws; a
  statement that violates a constraint changes nothing. \<open>nowIso()\<close> and \<open>newId()\<close> are arguments.

  The compare-and-set \<open>updateIfStatus\<close> is the locale \<open>cas_repo\<close>, which both repositories that have
  it interpret: the lemmas about racing transitions are proved once.
\<close>

record portal_db =
  db_users :: "user list"
  db_apis :: "api list"
  db_applications :: "application list"
  db_viewers :: "viewer list"
  db_consumers :: "consumer list"
  db_requests :: "access_request list"
  db_grants :: "grant list"
  db_jobs :: "job list"
  db_audit :: "audit_row list"
  db_recovery :: "recovery_job list"
  db_outbox :: "mail list"
  db_sessions :: "session list"
  db_tokens :: "token list"
  db_identities :: "user_identity list"
  db_orgs :: "organization list"
  db_teardown :: "teardown_job list"
  db_credentials :: "credential list"
  db_registry :: "gateway_identity list"
  db_settings :: "setting list"
  db_proofs :: "email_proof list"
  db_password_locks :: "string list"
  db_claims :: "issue_claim list"

type_synonym 'a tx = "portal_db \<Rightarrow> nexus_error + ('a \<times> portal_db)"

definition find_by :: "('r \<Rightarrow> string) \<Rightarrow> string \<Rightarrow> 'r list \<Rightarrow> 'r option" where
  "find_by idf i rows = List.find (\<lambda>r. idf r = i) rows"

definition users_findById :: "portal_db \<Rightarrow> string \<Rightarrow> user option" where
  "users_findById db i = find_by u_id i (db_users db)"

definition accountRecoveryJobs_findByUser :: "portal_db \<Rightarrow> string \<Rightarrow> recovery_job option" where
  "accountRecoveryJobs_findByUser db userId = find_by rj_user_id userId (db_recovery db)"

definition apis_findById :: "portal_db \<Rightarrow> string \<Rightarrow> api option" where
  "apis_findById db i = find_by a_id i (db_apis db)"

definition applications_findById :: "portal_db \<Rightarrow> string \<Rightarrow> application option" where
  "applications_findById db i = find_by ap_id i (db_applications db)"

text \<open>The \<open>application_id\<close> scope: \<open>null\<close> is a value.\<close>

definition consumers_findByUser :: "portal_db \<Rightarrow> string \<Rightarrow> string option \<Rightarrow> consumer option" where
  "consumers_findByUser db userId applicationId = List.find
     (\<lambda>c. co_user_id c = userId \<and> co_application_id c = applicationId) (db_consumers db)"

subsection \<open>Constraints\<close>

definition coalesce :: "string option \<Rightarrow> string" where
  "coalesce v = (case v of None \<Rightarrow> [] | Some s \<Rightarrow> s)"

definition ref_ok :: "('r \<Rightarrow> string) \<Rightarrow> 'r list \<Rightarrow> string option \<Rightarrow> bool" where
  "ref_ok idf rows v = (case v of None \<Rightarrow> True | Some i \<Rightarrow> list_ex (\<lambda>r. idf r = i) rows)"

definition requests_unique :: "access_request list \<Rightarrow> bool" where
  "requests_unique rows \<longleftrightarrow> distinct (map rq_id rows) \<and>
     distinct (map (\<lambda>r. (rq_api_id r, rq_user_id r, coalesce (rq_application_id r)))
       (filter (\<lambda>r. rq_status r = Rq_Pending) rows))"

definition request_refs :: "portal_db \<Rightarrow> access_request \<Rightarrow> bool" where
  "request_refs db r \<longleftrightarrow> ref_ok a_id (db_apis db) (Some (rq_api_id r)) \<and>
     ref_ok u_id (db_users db) (Some (rq_user_id r)) \<and>
     ref_ok ap_id (db_applications db) (rq_application_id r) \<and>
     ref_ok u_id (db_users db) (rq_decided_by r)"

definition grants_unique :: "grant list \<Rightarrow> bool" where
  "grants_unique rows \<longleftrightarrow> distinct (map gr_id rows) \<and>
     distinct (map (\<lambda>g. (gr_api_id g, gr_user_id g, coalesce (gr_application_id g)))
       (filter (\<lambda>g. gr_status g = Gr_Active) rows))"

definition grant_refs :: "portal_db \<Rightarrow> grant \<Rightarrow> bool" where
  "grant_refs db g \<longleftrightarrow> ref_ok a_id (db_apis db) (Some (gr_api_id g)) \<and>
     ref_ok u_id (db_users db) (Some (gr_user_id g)) \<and>
     ref_ok ap_id (db_applications db) (gr_application_id g) \<and>
     ref_ok rq_id (db_requests db) (gr_access_request_id g) \<and>
     ref_ok u_id (db_users db) (Some (gr_granted_by g)) \<and>
     ref_ok u_id (db_users db) (gr_revoked_by g)"

definition FK_SUFFIX :: string where
  "FK_SUFFIX = '' (referenced record does not exist or is still in use)''"

text \<open>A write under \<open>mapConflict\<close>: the uniqueness rule first, then the references.\<close>

definition mapConflict :: "string \<Rightarrow> bool \<Rightarrow> bool \<Rightarrow> portal_db \<Rightarrow> nexus_error + portal_db" where
  "mapConflict message unique refs db' =
     (if \<not> unique then Inl (conflict message None)
      else if \<not> refs then Inl (conflict (message @ FK_SUFFIX) None)
      else Inr db')"

text \<open>\<open>UPDATE \<dots> SET \<dots> WHERE\<close>.\<close>

definition update_where :: "('r \<Rightarrow> bool) \<Rightarrow> ('r \<Rightarrow> 'r) \<Rightarrow> 'r list \<Rightarrow> 'r list" where
  "update_where P f rows = map (\<lambda>r. if P r then f r else r) rows"

subsection \<open>apiViewers\<close>

definition apiViewers_upsert :: "viewer \<Rightarrow> portal_db \<Rightarrow> portal_db" where
  "apiViewers_upsert v db =
     (let same = (\<lambda>w. vw_api_id w = vw_api_id v \<and> vw_user_id w = vw_user_id v) in
      if list_ex same (db_viewers db)
      then db\<lparr>db_viewers := update_where same
             (\<lambda>w. w\<lparr>vw_granted_by := vw_granted_by v, vw_note := vw_note v\<rparr>) (db_viewers db)\<rparr>
      else db\<lparr>db_viewers := db_viewers db @ [v]\<rparr>)"

definition apiViewers_find :: "portal_db \<Rightarrow> string \<Rightarrow> string \<Rightarrow> viewer option" where
  "apiViewers_find db apiId userId =
     List.find (\<lambda>v. vw_api_id v = apiId \<and> vw_user_id v = userId) (db_viewers db)"

definition apiViewers_listApiIdsByUser :: "portal_db \<Rightarrow> string \<Rightarrow> string list" where
  "apiViewers_listApiIdsByUser db userId =
     map vw_api_id (filter (\<lambda>v. vw_user_id v = userId) (db_viewers db))"

definition apiViewers_delete :: "string \<Rightarrow> string \<Rightarrow> portal_db \<Rightarrow> bool \<times> portal_db" where
  "apiViewers_delete apiId userId db =
     (let hit = (\<lambda>v. vw_api_id v = apiId \<and> vw_user_id v = userId)
      in (list_ex hit (db_viewers db), db\<lparr>db_viewers := filter (Not \<circ> hit) (db_viewers db)\<rparr>))"

subsection \<open>accessRequests\<close>

definition PENDING_CONFLICT :: string where
  "PENDING_CONFLICT = ''You already have a pending request for this API''"

definition accessRequests_findById :: "portal_db \<Rightarrow> string \<Rightarrow> access_request option" where
  "accessRequests_findById db i = find_by rq_id i (db_requests db)"

definition accessRequests_create :: "access_request \<Rightarrow> access_request tx" where
  "accessRequests_create r db =
     rbind (mapConflict PENDING_CONFLICT (requests_unique (db_requests db @ [r])) (request_refs db r)
              (db\<lparr>db_requests := db_requests db @ [r]\<rparr>))
       (\<lambda>db'. Inr (r, db'))"

text \<open>A patch: a column that is \<open>undefined\<close> in the source is \<open>None\<close>, and \<open>null\<close> is \<open>Some None\<close>.\<close>

record request_patch =
  pq_justification :: "string option"
  pq_requested_tools :: "string list option option"
  pq_approved_tools :: "string list option option"
  pq_status :: "request_status option"
  pq_decided_by :: "string option option"
  pq_decided_at :: "int option option"
  pq_decision_note :: "string option option"

definition no_request_patch :: request_patch where
  "no_request_patch = \<lparr>pq_justification = None, pq_requested_tools = None, pq_approved_tools = None,
     pq_status = None, pq_decided_by = None, pq_decided_at = None, pq_decision_note = None\<rparr>"

definition patched :: "'a option \<Rightarrow> 'a \<Rightarrow> 'a" where
  "patched p v = (case p of None \<Rightarrow> v | Some w \<Rightarrow> w)"

definition accessRequestUpdateColumns :: "request_patch \<Rightarrow> access_request \<Rightarrow> access_request" where
  "accessRequestUpdateColumns p r = r\<lparr>
     rq_justification := patched (pq_justification p) (rq_justification r),
     rq_requested_tools := patched (pq_requested_tools p) (rq_requested_tools r),
     rq_approved_tools := patched (pq_approved_tools p) (rq_approved_tools r),
     rq_status := patched (pq_status p) (rq_status r),
     rq_decided_by := patched (pq_decided_by p) (rq_decided_by r),
     rq_decided_at := patched (pq_decided_at p) (rq_decided_at r),
     rq_decision_note := patched (pq_decision_note p) (rq_decision_note r)\<rparr>"

text \<open>\<open>setParts\<close> answers \<open>null\<close> for an empty patch, and then nothing is written.\<close>

definition request_row_after :: "int \<Rightarrow> request_patch \<Rightarrow> access_request \<Rightarrow> access_request" where
  "request_row_after now p r =
     (if p = no_request_patch then r else (accessRequestUpdateColumns p r)\<lparr>rq_updated_at := now\<rparr>)"

definition accessRequests_updateIfStatus ::
  "int \<Rightarrow> string \<Rightarrow> request_status \<Rightarrow> request_patch \<Rightarrow> access_request option tx" where
  "accessRequests_updateIfStatus now i expected p db =
     (let hit = (\<lambda>r. rq_id r = i \<and> rq_status r = expected) in
      if p = no_request_patch
      then Inr (if list_ex hit (db_requests db) then accessRequests_findById db i else None, db)
      else
        (let rows = update_where hit (request_row_after now p) (db_requests db)
         in rbind (mapConflict PENDING_CONFLICT (requests_unique rows)
                     (list_all (\<lambda>r. hit r \<longrightarrow> request_refs db (request_row_after now p r)) (db_requests db))
                     (db\<lparr>db_requests := rows\<rparr>))
              (\<lambda>db'. Inr (if list_ex hit (db_requests db) then accessRequests_findById db' i else None, db'))))"

definition accessRequests_findPendingByApiAndUser ::
  "portal_db \<Rightarrow> string \<Rightarrow> string \<Rightarrow> string option \<Rightarrow> access_request option" where
  "accessRequests_findPendingByApiAndUser db apiId userId applicationId = List.find
     (\<lambda>r. rq_api_id r = apiId \<and> rq_user_id r = userId \<and> rq_status r = Rq_Pending \<and>
          rq_application_id r = applicationId) (db_requests db)"

subsection \<open>grants\<close>

definition ACTIVE_CONFLICT :: string where
  "ACTIVE_CONFLICT = ''An active grant already exists for this API and user''"

definition grants_findById :: "portal_db \<Rightarrow> string \<Rightarrow> grant option" where
  "grants_findById db i = find_by gr_id i (db_grants db)"

definition grants_create :: "grant \<Rightarrow> grant tx" where
  "grants_create g db =
     rbind (mapConflict ACTIVE_CONFLICT (grants_unique (db_grants db @ [g])) (grant_refs db g)
              (db\<lparr>db_grants := db_grants db @ [g]\<rparr>))
       (\<lambda>db'. Inr (g, db'))"

record grant_patch =
  pg_status :: "grant_status option"
  pg_acl_group :: "string option"
  pg_approved_tools :: "string list option option"
  pg_access_request_id :: "string option option"
  pg_revoked_by :: "string option option"
  pg_revoked_at :: "int option option"

definition no_grant_patch :: grant_patch where
  "no_grant_patch = \<lparr>pg_status = None, pg_acl_group = None, pg_approved_tools = None,
     pg_access_request_id = None, pg_revoked_by = None, pg_revoked_at = None\<rparr>"

definition grantUpdateColumns :: "grant_patch \<Rightarrow> grant \<Rightarrow> grant" where
  "grantUpdateColumns p g = g\<lparr>
     gr_status := patched (pg_status p) (gr_status g),
     gr_acl_group := patched (pg_acl_group p) (gr_acl_group g),
     gr_approved_tools := patched (pg_approved_tools p) (gr_approved_tools g),
     gr_access_request_id := patched (pg_access_request_id p) (gr_access_request_id g),
     gr_revoked_by := patched (pg_revoked_by p) (gr_revoked_by g),
     gr_revoked_at := patched (pg_revoked_at p) (gr_revoked_at g)\<rparr>"

definition grant_row_after :: "int \<Rightarrow> grant_patch \<Rightarrow> grant \<Rightarrow> grant" where
  "grant_row_after now p g =
     (if p = no_grant_patch then g else (grantUpdateColumns p g)\<lparr>gr_updated_at := now\<rparr>)"

definition grants_updateIfStatus ::
  "int \<Rightarrow> string \<Rightarrow> grant_status \<Rightarrow> grant_patch \<Rightarrow> grant option tx" where
  "grants_updateIfStatus now i expected p db =
     (let hit = (\<lambda>g. gr_id g = i \<and> gr_status g = expected) in
      if p = no_grant_patch
      then Inr (if list_ex hit (db_grants db) then grants_findById db i else None, db)
      else
        (let rows = update_where hit (grant_row_after now p) (db_grants db)
         in rbind (mapConflict ACTIVE_CONFLICT (grants_unique rows)
                     (list_all (\<lambda>g. hit g \<longrightarrow> grant_refs db (grant_row_after now p g)) (db_grants db))
                     (db\<lparr>db_grants := rows\<rparr>))
              (\<lambda>db'. Inr (if list_ex hit (db_grants db) then grants_findById db' i else None, db'))))"

definition grants_findActiveByApiAndUser ::
  "portal_db \<Rightarrow> string \<Rightarrow> string \<Rightarrow> string option \<Rightarrow> grant option" where
  "grants_findActiveByApiAndUser db apiId userId applicationId = List.find
     (\<lambda>g. gr_api_id g = apiId \<and> gr_user_id g = userId \<and> gr_status g = Gr_Active \<and>
          gr_application_id g = applicationId) (db_grants db)"

text \<open>The identity scope of \<open>listActiveByUser\<close>: \<open>None\<close> (\<open>undefined\<close>) is every identity of the account.\<close>

definition grants_listActiveByUser :: "portal_db \<Rightarrow> string \<Rightarrow> string option option \<Rightarrow> grant list" where
  "grants_listActiveByUser db userId scope = filter
     (\<lambda>g. gr_user_id g = userId \<and> gr_status g = Gr_Active \<and>
          (case scope of None \<Rightarrow> True | Some app \<Rightarrow> gr_application_id g = app)) (db_grants db)"

definition grants_listActiveByApi :: "portal_db \<Rightarrow> string \<Rightarrow> grant list" where
  "grants_listActiveByApi db apiId =
     filter (\<lambda>g. gr_api_id g = apiId \<and> gr_status g = Gr_Active) (db_grants db)"

text \<open>\<open>list\<close> with a user, an API and \<open>active\<close>: newest first.\<close>

definition grants_list_active :: "portal_db \<Rightarrow> string \<Rightarrow> string \<Rightarrow> grant list" where
  "grants_list_active db apiId userId =
     (let rows = filter (\<lambda>g. gr_user_id g = userId \<and> gr_api_id g = apiId \<and> gr_status g = Gr_Active) (db_grants db)
      in rev (sort_key gr_created_at (sort_key gr_id rows)))"

subsection \<open>accessGatewayJobs\<close>

record job_input =
  ji_kind :: job_kind
  ji_subject_id :: string
  ji_api_id :: string
  ji_user_id :: string
  ji_application_id :: "string option"
  ji_requested_by :: "string option"

definition job_row :: "string \<Rightarrow> string \<Rightarrow> job_input \<Rightarrow> job_status \<Rightarrow> int \<Rightarrow> job" where
  "job_row newId generation ji status now =
     \<lparr>jb_id = newId, jb_generation = generation, jb_kind = ji_kind ji, jb_subject_id = ji_subject_id ji,
      jb_api_id = ji_api_id ji, jb_user_id = ji_user_id ji, jb_application_id = ji_application_id ji,
      jb_requested_by = ji_requested_by ji, jb_status = status, jb_attempts = 0,
      jb_next_attempt_at = Some now, jb_last_error = None, jb_created_at = now, jb_updated_at = now\<rparr>"

text \<open>A job row's references are not wrapped in \<open>mapConflict\<close>: a violation is a driver error, which
  the caller sees as an internal error.\<close>

definition job_refs :: "portal_db \<Rightarrow> job_input \<Rightarrow> bool" where
  "job_refs db ji \<longleftrightarrow> ref_ok u_id (db_users db) (Some (ji_user_id ji)) \<and>
     ref_ok u_id (db_users db) (ji_requested_by ji)"

definition accessGatewayJobs_findBySubject :: "portal_db \<Rightarrow> string \<Rightarrow> job option" where
  "accessGatewayJobs_findBySubject db subjectId = find_by jb_subject_id subjectId (db_jobs db)"

definition accessGatewayJobs_upsertClaimed ::
  "string \<Rightarrow> string \<Rightarrow> job_input \<Rightarrow> int \<Rightarrow> job tx" where
  "accessGatewayJobs_upsertClaimed newId generation ji now db =
     (let fresh = job_row newId generation ji Job_Sending now;
          same = (\<lambda>j. jb_subject_id j = ji_subject_id ji);
          rows = (if list_ex same (db_jobs db)
                  then update_where same (\<lambda>j. fresh\<lparr>jb_id := jb_id j, jb_created_at := jb_created_at j\<rparr>) (db_jobs db)
                  else db_jobs db @ [fresh])
      in if \<not> job_refs db ji then Inl (internal_error ''Internal server error'')
         else (case accessGatewayJobs_findBySubject (db\<lparr>db_jobs := rows\<rparr>) (ji_subject_id ji) of
                 None \<Rightarrow> Inl (internal_error ''Internal server error'')
               | Some j \<Rightarrow> Inr (j, db\<lparr>db_jobs := rows\<rparr>)))"

definition accessGatewayJobs_enqueueIfAbsent ::
  "string \<Rightarrow> string \<Rightarrow> job_input \<Rightarrow> int \<Rightarrow> bool tx" where
  "accessGatewayJobs_enqueueIfAbsent newId generation ji now db =
     (if list_ex (\<lambda>j. jb_subject_id j = ji_subject_id ji) (db_jobs db) then Inr (False, db)
      else if \<not> job_refs db ji then Inl (internal_error ''Internal server error'')
      else Inr (True, db\<lparr>db_jobs := db_jobs db @ [job_row newId generation ji Job_Pending now]\<rparr>))"

definition job_due :: "int \<Rightarrow> job \<Rightarrow> bool" where
  "job_due now j \<longleftrightarrow> jb_status j = Job_Pending \<and>
     (case jb_next_attempt_at j of None \<Rightarrow> True | Some t \<Rightarrow> t \<le> now)"

text \<open>\<open>ORDER BY next_attempt_at ASC, created_at ASC\<close>, nulls first.\<close>

definition jobs_due_order :: "int \<Rightarrow> job list \<Rightarrow> job list" where
  "jobs_due_order now rows = sort_key (\<lambda>j. case jb_next_attempt_at j of None \<Rightarrow> [] | Some t \<Rightarrow> [t])
     (sort_key jb_created_at (filter (job_due now) rows))"

definition accessGatewayJobs_claimDue ::
  "string \<Rightarrow> int \<Rightarrow> int \<Rightarrow> nat \<Rightarrow> portal_db \<Rightarrow> job list \<times> portal_db" where
  "accessGatewayJobs_claimDue generation stamp now limit db =
     (let ids = map jb_id (take (max 1 limit) (jobs_due_order now (db_jobs db)));
          rows = update_where (\<lambda>j. jb_id j \<in> set ids \<and> jb_status j = Job_Pending)
            (\<lambda>j. j\<lparr>jb_status := Job_Sending, jb_attempts := jb_attempts j + 1, jb_updated_at := stamp,
                   jb_generation := generation\<rparr>) (db_jobs db)
      in if ids = [] then ([], db)
         else (filter (\<lambda>j. jb_id j \<in> set ids) rows, db\<lparr>db_jobs := rows\<rparr>))"

definition owns_row :: "job \<Rightarrow> job \<Rightarrow> bool" where
  "owns_row job row \<longleftrightarrow> jb_id row = jb_id job \<and> jb_generation row = jb_generation job \<and>
     jb_status row = Job_Sending"

definition accessGatewayJobs_deleteClaimed :: "job \<Rightarrow> portal_db \<Rightarrow> bool \<times> portal_db" where
  "accessGatewayJobs_deleteClaimed job db =
     (list_ex (owns_row job) (db_jobs db), db\<lparr>db_jobs := filter (\<lambda>r. \<not> owns_row job r) (db_jobs db)\<rparr>)"

definition accessGatewayJobs_reschedule ::
  "job \<Rightarrow> int \<Rightarrow> string \<Rightarrow> int \<Rightarrow> portal_db \<Rightarrow> bool \<times> portal_db" where
  "accessGatewayJobs_reschedule job nextAttemptAt lastError stamp db =
     (list_ex (owns_row job) (db_jobs db),
      db\<lparr>db_jobs := update_where (owns_row job)
           (\<lambda>r. r\<lparr>jb_status := Job_Pending, jb_next_attempt_at := Some nextAttemptAt,
                  jb_last_error := Some lastError, jb_updated_at := stamp\<rparr>) (db_jobs db)\<rparr>)"

definition accessGatewayJobs_releaseStale :: "int \<Rightarrow> int \<Rightarrow> portal_db \<Rightarrow> nat \<times> portal_db" where
  "accessGatewayJobs_releaseStale olderThan stamp db =
     (let stale = (\<lambda>j. jb_status j = Job_Sending \<and> jb_updated_at j \<le> olderThan)
      in (length (filter stale (db_jobs db)),
          db\<lparr>db_jobs := update_where stale
               (\<lambda>j. j\<lparr>jb_status := Job_Pending, jb_next_attempt_at := Some stamp, jb_updated_at := stamp\<rparr>)
               (db_jobs db)\<rparr>))"

definition accessGatewayJobs_deleteBySubject :: "string \<Rightarrow> portal_db \<Rightarrow> bool \<times> portal_db" where
  "accessGatewayJobs_deleteBySubject subjectId db =
     (list_ex (\<lambda>j. jb_subject_id j = subjectId) (db_jobs db),
      db\<lparr>db_jobs := filter (\<lambda>j. jb_subject_id j \<noteq> subjectId) (db_jobs db)\<rparr>)"

subsection \<open>auditLogs\<close>

definition auditLogs_create ::
  "string option \<Rightarrow> string option \<Rightarrow> audit_action \<Rightarrow> string \<Rightarrow> int \<Rightarrow> portal_db \<Rightarrow> portal_db" where
  "auditLogs_create minted actor action target now db =
     db\<lparr>db_audit := db_audit db @ [\<lparr>au_id = minted, au_actor = actor, au_action = action, au_target = target, au_created_at = now\<rparr>]\<rparr>"

definition auditLogs_count :: "portal_db \<Rightarrow> string \<Rightarrow> audit_action \<Rightarrow> int \<Rightarrow> nat" where
  "auditLogs_count db actorUserId action since = length (filter
     (\<lambda>a. au_actor a = Some actorUserId \<and> au_action a = action \<and> au_created_at a \<ge> since) (db_audit db))"

subsection \<open>The schema's invariant\<close>

definition jobs_unique :: "job list \<Rightarrow> bool" where
  "jobs_unique rows \<longleftrightarrow> distinct (map jb_id rows) \<and> distinct (map jb_subject_id rows)"

definition db_ok :: "portal_db \<Rightarrow> bool" where
  "db_ok db \<longleftrightarrow> requests_unique (db_requests db) \<and> grants_unique (db_grants db) \<and> jobs_unique (db_jobs db)"

lemma find_by_Some_iff:
  "distinct (map idf rows) \<Longrightarrow> find_by idf i rows = Some r \<longleftrightarrow> r \<in> set rows \<and> idf r = i"
proof (induction rows)
  case (Cons x xs)
  then show ?case by (auto simp: find_by_def) 
qed (simp add: find_by_def)

lemma find_by_None_iff: "find_by idf i rows = None \<longleftrightarrow> (\<forall>r\<in>set rows. idf r \<noteq> i)"
  by (auto simp: find_by_def find_None_iff)

lemma find_by_append:
  "find_by idf i (rows @ [r]) = (case find_by idf i rows of Some x \<Rightarrow> Some x
     | None \<Rightarrow> if idf r = i then Some r else None)"
  by (induction rows) (auto simp: find_by_def)

lemma update_where_none: "\<forall>r\<in>set rows. \<not> P r \<Longrightarrow> update_where P f rows = rows"
  by (simp add: update_where_def map_idI)

lemma map_update_where: "(\<And>r. g (f r) = g r) \<Longrightarrow> map g (update_where P f rows) = map g rows"
  by (simp add: update_where_def)

lemma find_by_update_where:
  assumes "\<And>r. idf (f r) = idf r"
  shows "find_by idf i (update_where P f rows) =
    map_option (\<lambda>r. if P r then f r else r) (find_by idf i rows)"
  using assms by (induction rows) (auto simp: find_by_def update_where_def)

text \<open>One partial index over a table.\<close>

lemma distinct_key_unique:
  "distinct (map k (filter P rows)) \<Longrightarrow> r \<in> set rows \<Longrightarrow> s \<in> set rows \<Longrightarrow> P r \<Longrightarrow> P s \<Longrightarrow> k r = k s \<Longrightarrow> r = s"
  by (metis (mono_tags, lifting) distinct_map inj_onD mem_Collect_eq set_filter)

subsection \<open>Compare and set\<close>

text \<open>The contract of \<open>updateIfStatus\<close>: a caller whose expectation does not hold gets \<open>null\<close> and changes
  nothing; a caller whose expectation holds, and whose write no constraint refuses, gets the row it
  wrote, and every other row is as it was.\<close>

locale cas_repo =
  fixes inv :: "'db \<Rightarrow> bool"
    and find_row :: "'db \<Rightarrow> string \<Rightarrow> 'r option"
    and row_status :: "'r \<Rightarrow> 'st"
    and update_if :: "int \<Rightarrow> string \<Rightarrow> 'st \<Rightarrow> 'p \<Rightarrow> 'db \<Rightarrow> nexus_error + ('r option \<times> 'db)"
    and row_after :: "int \<Rightarrow> 'p \<Rightarrow> 'r \<Rightarrow> 'r"
  assumes cas_lost:
      "inv db \<Longrightarrow> (\<And>r. find_row db i = Some r \<Longrightarrow> row_status r \<noteq> expected) \<Longrightarrow>
         update_if now i expected p db = Inr (None, db)"
    and cas_won:
      "inv db \<Longrightarrow> find_row db i = Some r \<Longrightarrow> row_status r = expected \<Longrightarrow>
         update_if now i expected p db = Inr (res, db') \<Longrightarrow>
         res = Some (row_after now p r) \<and> find_row db' i = res \<and>
         (\<forall>k. k \<noteq> i \<longrightarrow> find_row db' k = find_row db k) \<and> inv db'"

text \<open>Callers racing for one transition, in the order their statements reach the database; the
  answers say who won.\<close>

fun cas_race ::
  "(int \<Rightarrow> string \<Rightarrow> 'st \<Rightarrow> 'p \<Rightarrow> 'db \<Rightarrow> nexus_error + ('r option \<times> 'db)) \<Rightarrow> string \<Rightarrow> 'st
    \<Rightarrow> (int \<times> 'p) list \<Rightarrow> 'db \<Rightarrow> bool list \<times> 'db" where
  "cas_race update i expected [] db = ([], db)"
| "cas_race update i expected ((now, p) # rest) db =
     (case update now i expected p db of
        Inl e \<Rightarrow> (case cas_race update i expected rest db of (ws, db') \<Rightarrow> (False # ws, db'))
      | Inr (res, db1) \<Rightarrow>
          (case cas_race update i expected rest db1 of (ws, db') \<Rightarrow> ((res \<noteq> None) # ws, db')))"

context cas_repo
begin

lemma race_all_lose:
  "inv db \<Longrightarrow> (\<And>r. find_row db i = Some r \<Longrightarrow> row_status r \<noteq> expected) \<Longrightarrow>
     cas_race update_if i expected ps db = (replicate (length ps) False, db)"
proof (induction ps)
  case (Cons p ps)
  obtain now q where p: "p = (now, q)" by (rule prod.exhaust)
  show ?case using Cons cas_lost [OF Cons.prems] by (simp add: p)
qed simp

lemma race_winner:
  assumes "inv db" "\<forall>(now, p)\<in>set ps. \<forall>r. row_status (row_after now p r) \<noteq> expected"
    and "cas_race update_if i expected ps db = (ws, db')"
  shows "length (filter id ws) \<le> 1 \<and>
    (filter id ws = [] \<longrightarrow> db' = db) \<and>
    (\<forall>n < length ws. ws ! n \<longrightarrow> (\<exists>r. find_row db i = Some r \<and> row_status r = expected \<and>
        find_row db' i = Some (row_after (fst (ps ! n)) (snd (ps ! n)) r)))"
  using assms
proof (induction ps arbitrary: ws)
  case (Cons p ps)
  obtain now q where p: "p = (now, q)" by (rule prod.exhaust)
  have moves: "\<forall>r. row_status (row_after now q r) \<noteq> expected"
    and rest: "\<forall>(now, p)\<in>set ps. \<forall>r. row_status (row_after now p r) \<noteq> expected"
    using Cons.prems(2) by (auto simp: p)
  show ?case
  proof (cases "\<exists>res db1. update_if now i expected q db = Inr (Some res, db1)")
    case True
    then obtain res db1 where u: "update_if now i expected q db = Inr (Some res, db1)" by blast
    have "\<exists>r. find_row db i = Some r \<and> row_status r = expected"
      using cas_lost [OF Cons.prems(1), of i expected now q] u by force
    then obtain r where r: "find_row db i = Some r" "row_status r = expected" by blast
    note won = cas_won [OF Cons.prems(1) r u]
    have "cas_race update_if i expected ps db1 = (replicate (length ps) False, db1)"
      using won moves by (intro race_all_lose) auto
    then have w: "ws = True # replicate (length ps) False" "db' = db1"
      using Cons.prems(3) u by (auto simp: p)
    have "n = 0" if "n < length ws" "ws ! n" for n
      using that by (cases n) (auto simp: w)
    then have "\<forall>n < length ws. ws ! n \<longrightarrow> find_row db' i = Some (row_after (fst ((p # ps) ! n)) (snd ((p # ps) ! n)) r)"
      using won w by (metis fst_conv nth_Cons_0 p snd_conv)
    then show ?thesis using w r by auto
  next
    case False
    then have lose: "\<exists>ws'. ws = False # ws' \<and> cas_race update_if i expected ps db = (ws', db')"
    proof (cases "update_if now i expected q db")
      case (Inl e)
      then show ?thesis using Cons.prems(3) by (auto simp: p split: prod.splits)
    next
      case (Inr a)
      obtain res db1 where a: "a = (res, db1)" by (rule prod.exhaust)
      with False Inr have n: "res = None" by (cases res) auto
      have "\<not> (\<exists>r. find_row db i = Some r \<and> row_status r = expected)"
        using cas_won [OF Cons.prems(1)] Inr a n by blast
      then have "update_if now i expected q db = Inr (None, db)"
        by (intro cas_lost [OF Cons.prems(1)]) auto
      then show ?thesis using Cons.prems(3) by (auto simp: p split: prod.splits)
    qed
    then obtain ws' where ws': "ws = False # ws'" "cas_race update_if i expected ps db = (ws', db')" by blast
    note IH = Cons.IH [OF Cons.prems(1) rest ws'(2)]
    show ?thesis using IH ws'(1) by (auto simp: nth_Cons split: nat.splits)
  qed
qed simp

end

subsection \<open>The two repositories that have it\<close>

lemma request_row_after_id [simp]: "rq_id (request_row_after now p r) = rq_id r"
  by (simp add: request_row_after_def accessRequestUpdateColumns_def)

lemma grant_row_after_id [simp]: "gr_id (grant_row_after now p g) = gr_id g"
  by (simp add: grant_row_after_def grantUpdateColumns_def)

lemma mapConflict_Inr: "mapConflict m u f db' = Inr x \<longleftrightarrow> u \<and> f \<and> x = db'"
  by (auto simp: mapConflict_def)

lemma requests_cas_eq:
  "accessRequests_updateIfStatus now i expected p db =
     (let hit = (\<lambda>r. rq_id r = i \<and> rq_status r = expected);
          rows = update_where hit (request_row_after now p) (db_requests db);
          answer = (\<lambda>db'. Inr (if list_ex hit (db_requests db) then accessRequests_findById db' i else None, db'))
      in if p = no_request_patch then answer (db\<lparr>db_requests := rows\<rparr>)
         else rbind (mapConflict PENDING_CONFLICT (requests_unique rows)
                (list_all (\<lambda>r. hit r \<longrightarrow> request_refs db (request_row_after now p r)) (db_requests db))
                (db\<lparr>db_requests := rows\<rparr>)) answer)"
proof -
  have "update_where P (request_row_after now no_request_patch) rows = rows" for P rows
    by (simp add: update_where_def request_row_after_def cong: if_cong)
  then show ?thesis by (simp add: accessRequests_updateIfStatus_def Let_def)
qed

interpretation request_cas: cas_repo "\<lambda>db. requests_unique (db_requests db)" accessRequests_findById
  rq_status accessRequests_updateIfStatus request_row_after
proof
  fix db i expected now p
  assume ok: "requests_unique (db_requests db)"
    and lost: "\<And>r. accessRequests_findById db i = Some r \<Longrightarrow> rq_status r \<noteq> expected"
  let ?hit = "\<lambda>r. rq_id r = i \<and> rq_status r = expected"
  have "\<not> ?hit r" if "r \<in> set (db_requests db)" for r
    using lost [of r] that ok by (auto simp: accessRequests_findById_def find_by_Some_iff requests_unique_def)
  then have none: "\<forall>r\<in>set (db_requests db). \<not> ?hit r" by blast
  then have "list_ex ?hit (db_requests db) = False" "update_where ?hit f (db_requests db) = db_requests db"
    "list_all (\<lambda>r. ?hit r \<longrightarrow> Q r) (db_requests db)" for f Q
    by (auto simp: list_ex_iff list_all_iff update_where_none)
  then show "accessRequests_updateIfStatus now i expected p db = Inr (None, db)"
    using ok by (simp add: requests_cas_eq Let_def mapConflict_def)
next
  fix db i r expected now p res db'
  assume ok: "requests_unique (db_requests db)" and r: "accessRequests_findById db i = Some r"
    "rq_status r = expected" and u: "accessRequests_updateIfStatus now i expected p db = Inr (res, db')"
  let ?hit = "\<lambda>r. rq_id r = i \<and> rq_status r = expected"
  let ?rows = "update_where ?hit (request_row_after now p) (db_requests db)"
  have mem: "r \<in> set (db_requests db)" "rq_id r = i"
    using r(1) ok by (auto simp: accessRequests_findById_def find_by_Some_iff requests_unique_def)
  then have hit: "list_ex ?hit (db_requests db)" using r(2) by (auto simp: list_ex_iff)
  have db': "db' = db\<lparr>db_requests := ?rows\<rparr>" "res = accessRequests_findById db' i"
    "requests_unique ?rows"
  proof -
    have "db' = db\<lparr>db_requests := ?rows\<rparr> \<and> res = accessRequests_findById db' i \<and>
        (p = no_request_patch \<or> requests_unique ?rows)"
      using u hit by (auto simp: requests_cas_eq Let_def result_simps mapConflict_Inr split: if_splits)
    moreover have "?rows = db_requests db" if "p = no_request_patch"
      using that by (simp add: update_where_def request_row_after_def cong: if_cong)
    ultimately show "db' = db\<lparr>db_requests := ?rows\<rparr>" "res = accessRequests_findById db' i"
      "requests_unique ?rows" using ok by auto
  qed
  have "accessRequests_findById db' k = map_option (\<lambda>r. if ?hit r then request_row_after now p r else r)
      (accessRequests_findById db k)" for k
    by (simp add: accessRequests_findById_def db'(1) find_by_update_where)
  note look = this
  have "\<not> ?hit s" if "accessRequests_findById db k = Some s" "k \<noteq> i" for k s
    using that ok by (auto simp: accessRequests_findById_def find_by_Some_iff requests_unique_def)
  then have "accessRequests_findById db' k = accessRequests_findById db k" if "k \<noteq> i" for k
    using that look [of k] by (cases "accessRequests_findById db k") auto
  then show "res = Some (request_row_after now p r) \<and> accessRequests_findById db' i = res \<and>
      (\<forall>k. k \<noteq> i \<longrightarrow> accessRequests_findById db' k = accessRequests_findById db k) \<and> requests_unique (db_requests db')"
    using db' r mem look [of i] by auto
qed

lemma grants_cas_eq:
  "grants_updateIfStatus now i expected p db =
     (let hit = (\<lambda>r. gr_id r = i \<and> gr_status r = expected);
          rows = update_where hit (grant_row_after now p) (db_grants db);
          answer = (\<lambda>db'. Inr (if list_ex hit (db_grants db) then grants_findById db' i else None, db'))
      in if p = no_grant_patch then answer (db\<lparr>db_grants := rows\<rparr>)
         else rbind (mapConflict ACTIVE_CONFLICT (grants_unique rows)
                (list_all (\<lambda>r. hit r \<longrightarrow> grant_refs db (grant_row_after now p r)) (db_grants db))
                (db\<lparr>db_grants := rows\<rparr>)) answer)"
proof -
  have "update_where P (grant_row_after now no_grant_patch) rows = rows" for P rows
    by (simp add: update_where_def grant_row_after_def cong: if_cong)
  then show ?thesis by (simp add: grants_updateIfStatus_def Let_def)
qed

interpretation grant_cas: cas_repo "\<lambda>db. grants_unique (db_grants db)" grants_findById
  gr_status grants_updateIfStatus grant_row_after
proof
  fix db i expected now p
  assume ok: "grants_unique (db_grants db)"
    and lost: "\<And>r. grants_findById db i = Some r \<Longrightarrow> gr_status r \<noteq> expected"
  let ?hit = "\<lambda>r. gr_id r = i \<and> gr_status r = expected"
  have "\<not> ?hit r" if "r \<in> set (db_grants db)" for r
    using lost [of r] that ok by (auto simp: grants_findById_def find_by_Some_iff grants_unique_def)
  then have none: "\<forall>r\<in>set (db_grants db). \<not> ?hit r" by blast
  then have "list_ex ?hit (db_grants db) = False" "update_where ?hit f (db_grants db) = db_grants db"
    "list_all (\<lambda>r. ?hit r \<longrightarrow> Q r) (db_grants db)" for f Q
    by (auto simp: list_ex_iff list_all_iff update_where_none)
  then show "grants_updateIfStatus now i expected p db = Inr (None, db)"
    using ok by (simp add: grants_cas_eq Let_def mapConflict_def)
next
  fix db i r expected now p res db'
  assume ok: "grants_unique (db_grants db)" and r: "grants_findById db i = Some r"
    "gr_status r = expected" and u: "grants_updateIfStatus now i expected p db = Inr (res, db')"
  let ?hit = "\<lambda>r. gr_id r = i \<and> gr_status r = expected"
  let ?rows = "update_where ?hit (grant_row_after now p) (db_grants db)"
  have mem: "r \<in> set (db_grants db)" "gr_id r = i"
    using r(1) ok by (auto simp: grants_findById_def find_by_Some_iff grants_unique_def)
  then have hit: "list_ex ?hit (db_grants db)" using r(2) by (auto simp: list_ex_iff)
  have db': "db' = db\<lparr>db_grants := ?rows\<rparr>" "res = grants_findById db' i"
    "grants_unique ?rows"
  proof -
    have "db' = db\<lparr>db_grants := ?rows\<rparr> \<and> res = grants_findById db' i \<and>
        (p = no_grant_patch \<or> grants_unique ?rows)"
      using u hit by (auto simp: grants_cas_eq Let_def result_simps mapConflict_Inr split: if_splits)
    moreover have "?rows = db_grants db" if "p = no_grant_patch"
      using that by (simp add: update_where_def grant_row_after_def cong: if_cong)
    ultimately show "db' = db\<lparr>db_grants := ?rows\<rparr>" "res = grants_findById db' i"
      "grants_unique ?rows" using ok by auto
  qed
  have "grants_findById db' k = map_option (\<lambda>r. if ?hit r then grant_row_after now p r else r)
      (grants_findById db k)" for k
    by (simp add: grants_findById_def db'(1) find_by_update_where)
  note look = this
  have "\<not> ?hit s" if "grants_findById db k = Some s" "k \<noteq> i" for k s
    using that ok by (auto simp: grants_findById_def find_by_Some_iff grants_unique_def)
  then have "grants_findById db' k = grants_findById db k" if "k \<noteq> i" for k
    using that look [of k] by (cases "grants_findById db k") auto
  then show "res = Some (grant_row_after now p r) \<and> grants_findById db' i = res \<and>
      (\<forall>k. k \<noteq> i \<longrightarrow> grants_findById db' k = grants_findById db k) \<and> grants_unique (db_grants db')"
    using db' r mem look [of i] by auto
qed


subsection \<open>Every call keeps the schema's invariant\<close>

lemma mapConflict_rbind_Inr:
  "rbind (mapConflict m u f db') g = Inr x \<longleftrightarrow> u \<and> f \<and> g db' = Inr x"
  by (auto simp: mapConflict_def)

lemma accessRequests_create_ok: "db_ok db \<Longrightarrow> accessRequests_create r db = Inr (a, db') \<Longrightarrow> db_ok db'"
  by (auto simp: accessRequests_create_def mapConflict_rbind_Inr db_ok_def)

lemma grants_create_ok: "db_ok db \<Longrightarrow> grants_create g db = Inr (a, db') \<Longrightarrow> db_ok db'"
  by (auto simp: grants_create_def mapConflict_rbind_Inr db_ok_def)

lemma requests_update_ok:
  "db_ok db \<Longrightarrow> accessRequests_updateIfStatus now i ex p db = Inr (a, db') \<Longrightarrow> db_ok db'"
  by (auto simp: accessRequests_updateIfStatus_def Let_def mapConflict_rbind_Inr db_ok_def split: if_splits)

lemma grants_update_ok:
  "db_ok db \<Longrightarrow> grants_updateIfStatus now i ex p db = Inr (a, db') \<Longrightarrow> db_ok db'"
  by (auto simp: grants_updateIfStatus_def Let_def mapConflict_rbind_Inr db_ok_def split: if_splits)

lemma jobs_unique_update:
  "jobs_unique rows \<Longrightarrow> (\<And>j. jb_id (f j) = jb_id j) \<Longrightarrow> (\<And>j. P j \<Longrightarrow> jb_subject_id (f j) = jb_subject_id j) \<Longrightarrow>
     jobs_unique (update_where P f rows)"
proof -
  assume ok: "jobs_unique rows" and i: "\<And>j. jb_id (f j) = jb_id j"
    and sb: "\<And>j. P j \<Longrightarrow> jb_subject_id (f j) = jb_subject_id j"
  have "map jb_id (update_where P f rows) = map jb_id rows" using i by (simp add: update_where_def)
  moreover have "map jb_subject_id (update_where P f rows) = map jb_subject_id rows"
    using sb by (simp add: update_where_def)
  ultimately show ?thesis using ok by (simp add: jobs_unique_def)
qed

lemma jobs_unique_filter: "jobs_unique rows \<Longrightarrow> jobs_unique (filter P rows)"
  by (simp add: jobs_unique_def distinct_map_filter)

lemma jobs_simple_ok:
  assumes "db_ok db"
  shows "db_ok (snd (accessGatewayJobs_deleteClaimed job db))"
    "db_ok (snd (accessGatewayJobs_reschedule job t e st db))"
    "db_ok (snd (accessGatewayJobs_releaseStale o1 st db))"
    "db_ok (snd (accessGatewayJobs_deleteBySubject sub db))"
    "db_ok (snd (accessGatewayJobs_claimDue gen st now lmt db))"
    "db_ok (auditLogs_create minted actor act tgt now db)"
  using assms
  by (auto simp: db_ok_def accessGatewayJobs_deleteClaimed_def accessGatewayJobs_reschedule_def
      accessGatewayJobs_releaseStale_def accessGatewayJobs_deleteBySubject_def auditLogs_create_def
      accessGatewayJobs_claimDue_def Let_def jobs_unique_filter intro!: jobs_unique_update)

lemma upsertClaimed_ok:
  assumes "db_ok db" "accessGatewayJobs_upsertClaimed newId gen ji now db = Inr (j, db')"
    and "newId \<notin> jb_id ` set (db_jobs db)"
  shows "db_ok db'"
proof -
  let ?same = "\<lambda>j. jb_subject_id j = ji_subject_id ji"
  let ?f = "\<lambda>j. (job_row newId gen ji Job_Sending now)\<lparr>jb_id := jb_id j, jb_created_at := jb_created_at j\<rparr>"
  let ?rows = "if list_ex ?same (db_jobs db) then update_where ?same ?f (db_jobs db)
     else db_jobs db @ [job_row newId gen ji Job_Sending now]"
  have "jobs_unique ?rows"
  proof (cases "list_ex ?same (db_jobs db)")
    case True
    have "jobs_unique (update_where ?same ?f (db_jobs db))"
      using assms(1) by (intro jobs_unique_update) (auto simp: db_ok_def job_row_def)
    then show ?thesis using True by simp
  next
    case False
    then have "ji_subject_id ji \<notin> jb_subject_id ` set (db_jobs db)" by (auto simp: list_ex_iff)
    then show ?thesis using False assms(1,3) by (auto simp: db_ok_def jobs_unique_def job_row_def)
  qed
  moreover have "db' = db\<lparr>db_jobs := ?rows\<rparr>"
    using assms(2) by (auto simp: accessGatewayJobs_upsertClaimed_def Let_def split: if_splits option.splits)
  ultimately show ?thesis using assms(1) by (simp add: db_ok_def)
qed

text \<open>What the row of a subject is after an upsert, and that no other subject's row changed.\<close>

lemma upsertClaimed_rows:
  assumes "accessGatewayJobs_upsertClaimed newId gen ji now db = Inr (j, db')"
  shows "accessGatewayJobs_findBySubject db' (ji_subject_id ji) = Some j"
    "jb_generation j = gen" "jb_status j = Job_Sending" "jb_subject_id j = ji_subject_id ji"
    "jb_kind j = ji_kind ji" "jb_api_id j = ji_api_id ji" "jb_user_id j = ji_user_id ji"
    "jb_application_id j = ji_application_id ji"
    "db_grants db' = db_grants db" "db_requests db' = db_requests db" "db_consumers db' = db_consumers db"
proof -
  show f: "accessGatewayJobs_findBySubject db' (ji_subject_id ji) = Some j"
    "db_grants db' = db_grants db" "db_requests db' = db_requests db" "db_consumers db' = db_consumers db"
    using assms by (auto simp: accessGatewayJobs_upsertClaimed_def Let_def split: if_splits option.splits)
  let ?row = "job_row newId gen ji Job_Sending now"
  have "\<exists>i c. j = ?row\<lparr>jb_id := i, jb_created_at := c\<rparr>"
  proof (cases "list_ex (\<lambda>j. jb_subject_id j = ji_subject_id ji) (db_jobs db)")
    case True
    let ?f = "\<lambda>j. ?row\<lparr>jb_id := jb_id j, jb_created_at := jb_created_at j\<rparr>"
    have d: "db_jobs db' = update_where (\<lambda>j. jb_subject_id j = ji_subject_id ji) ?f (db_jobs db)"
      using assms True by (auto simp: accessGatewayJobs_upsertClaimed_def Let_def split: if_splits option.splits)
    have "j \<in> set (db_jobs db')" "jb_subject_id j = ji_subject_id ji"
      using f(1) by (auto simp: accessGatewayJobs_findBySubject_def find_by_def find_Some_iff)
    then show ?thesis unfolding d update_where_def by (auto split: if_splits)
  next
    case False
    then have d: "db_jobs db' = db_jobs db @ [?row]"
      using assms by (auto simp: accessGatewayJobs_upsertClaimed_def Let_def split: if_splits option.splits)
    have "j \<in> set (db_jobs db')" "jb_subject_id j = ji_subject_id ji"
      using f(1) by (auto simp: accessGatewayJobs_findBySubject_def find_by_def find_Some_iff)
    then have "j = ?row" using False unfolding d by (auto simp: list_ex_iff)
    moreover have "?row = ?row\<lparr>jb_id := jb_id ?row, jb_created_at := jb_created_at ?row\<rparr>" by simp
    ultimately show ?thesis by metis
  qed
  then show "jb_generation j = gen" "jb_status j = Job_Sending" "jb_subject_id j = ji_subject_id ji"
    "jb_kind j = ji_kind ji" "jb_api_id j = ji_api_id ji" "jb_user_id j = ji_user_id ji"
    "jb_application_id j = ji_application_id ji" by (auto simp: job_row_def)
qed

lemma update_where_id: "\<forall>r\<in>set rows. P r \<longrightarrow> f r = r \<Longrightarrow> update_where P f rows = rows"
  by (simp add: update_where_def map_idI)

lemma not_owned_noop:
  assumes "\<not> list_ex (owns_row job) (db_jobs db)"
  shows "accessGatewayJobs_deleteClaimed job db = (False, db)"
    "accessGatewayJobs_reschedule job t e st db = (False, db)"
proof -
  have "filter (\<lambda>r. \<not> owns_row job r) (db_jobs db) = db_jobs db"
    "update_where (owns_row job) f (db_jobs db) = db_jobs db" for f
    using assms by (auto simp: list_ex_iff filter_id_conv update_where_none)
  then show "accessGatewayJobs_deleteClaimed job db = (False, db)"
    "accessGatewayJobs_reschedule job t e st db = (False, db)"
    using assms by (simp_all add: accessGatewayJobs_deleteClaimed_def accessGatewayJobs_reschedule_def)
qed

lemma set_jobs_due_order: "set (jobs_due_order now rows) = {j \<in> set rows. job_due now j}"
  by (auto simp: jobs_due_order_def)

lemma claimDue_rows:
  assumes "db_ok db" "accessGatewayJobs_claimDue gen st now limit db = (js, db1)" "j \<in> set js"
  shows "j \<in> set (db_jobs db1)" "owns_row j j" "jb_generation j = gen"
    "\<exists>j0\<in>set (db_jobs db). jb_id j0 = jb_id j \<and> jb_subject_id j0 = jb_subject_id j \<and> job_due now j0 \<and>
       jb_attempts j = jb_attempts j0 + 1"
proof -
  define ids where "ids = map jb_id (take (max 1 limit) (jobs_due_order now (db_jobs db)))"
  let ?P = "\<lambda>j. jb_id j \<in> set ids \<and> jb_status j = Job_Pending"
  let ?f = "\<lambda>j. j\<lparr>jb_status := Job_Sending, jb_attempts := jb_attempts j + 1, jb_updated_at := st, jb_generation := gen\<rparr>"
  have d: "js = filter (\<lambda>j. jb_id j \<in> set ids) (update_where ?P ?f (db_jobs db))"
    "db1 = db\<lparr>db_jobs := update_where ?P ?f (db_jobs db)\<rparr>"
    using assms(2,3) by (auto simp: accessGatewayJobs_claimDue_def Let_def ids_def split: if_splits)
  then show "j \<in> set (db_jobs db1)" using assms(3) by simp
  obtain j0 where j0: "j0 \<in> set (db_jobs db)" "j = (if ?P j0 then ?f j0 else j0)" "jb_id j0 \<in> set ids"
    using assms(3) d(1) by (auto simp: update_where_def split: if_splits)
  have "set ids \<subseteq> jb_id ` {j \<in> set (db_jobs db). job_due now j}"
    using set_take_subset [of "max 1 limit" "jobs_due_order now (db_jobs db)"]
    by (auto simp: ids_def set_jobs_due_order)
  then obtain j1 where "j1 \<in> set (db_jobs db)" "job_due now j1" "jb_id j1 = jb_id j0" using j0(3) by auto
  moreover have "distinct (map jb_id (db_jobs db))" using assms(1) by (simp add: db_ok_def jobs_unique_def)
  ultimately have due: "job_due now j0" using j0(1) by (metis distinct_map inj_onD)
  then have "?P j0" using j0(3) by (simp add: job_due_def)
  then have "j = ?f j0" using j0(2) by simp
  then show "owns_row j j" "jb_generation j = gen"
    "\<exists>j0\<in>set (db_jobs db). jb_id j0 = jb_id j \<and> jb_subject_id j0 = jb_subject_id j \<and> job_due now j0 \<and>
       jb_attempts j = jb_attempts j0 + 1"
    using j0(1) due by (auto simp: owns_row_def)
qed

subsection \<open>Properties\<close>

text \<open>A store with a pending request, an active grant and a job, for the concrete checks.\<close>

definition example_request :: access_request where
  "example_request = \<lparr>rq_id = ''r1'', rq_api_id = ''a1'', rq_user_id = ''u1'', rq_application_id = None,
     rq_justification = ''x'', rq_status = Rq_Pending, rq_decided_by = None, rq_decided_at = None,
     rq_decision_note = None, rq_requested_tools = None, rq_approved_tools = None, rq_grant_id = None,
     rq_created_at = 0, rq_updated_at = 0\<rparr>"

definition example_grant :: grant where
  "example_grant = \<lparr>gr_id = ''g1'', gr_api_id = ''a2'', gr_user_id = ''u1'', gr_application_id = None,
     gr_access_request_id = None, gr_acl_group = ''nexus:api:a2:approved'', gr_status = Gr_Active,
     gr_granted_by = ''u2'', gr_revoked_by = None, gr_revoked_at = None, gr_approved_tools = None,
     gr_created_at = 0, gr_updated_at = 0\<rparr>"

definition example_job :: job where
  "example_job = job_row ''j1'' ''gen0'' \<lparr>ji_kind = Job_Revoke, ji_subject_id = ''g0'', ji_api_id = ''a2'',
     ji_user_id = ''u1'', ji_application_id = None, ji_requested_by = None\<rparr> Job_Pending 10"

definition example_db :: portal_db where
  "example_db = \<lparr>
     db_users = [example_user ''u1'' Client,
                 example_user ''u2'' Provider],
     db_apis = [\<lparr>a_id = ''a1'', a_owner_user_id = ''u2'', a_status = Published, a_visibility = Vis_Public,
                  a_requestable = True, a_ferrum_proxy_id = Some ''p1'', a_agents = None\<rparr>,
                \<lparr>a_id = ''a2'', a_owner_user_id = ''u2'', a_status = Published, a_visibility = Vis_Private,
                  a_requestable = True, a_ferrum_proxy_id = Some ''p2'', a_agents = None\<rparr>],
     db_applications = [], db_viewers = [], db_consumers = [\<lparr>co_user_id = ''u1'',
       co_application_id = None, co_ferrum_consumer_id = ''c1''\<rparr>],
     db_requests = [example_request], db_grants = [example_grant], db_jobs = [example_job],
     db_audit = [], db_recovery = [], db_outbox = [], db_sessions = [], db_tokens = [], db_identities = [],
       db_orgs = [], db_teardown = [], db_credentials = [], db_registry = [], db_settings = [], db_proofs = [], db_password_locks = [], db_claims = []\<rparr>"

text \<open>C7: Of any number of decisions racing for one pending request (approvals, denials,
  cancellations, in whatever order their statements arrive) at most one wins; the row is then the
  one the winner wrote, and if nobody wins the database is unchanged.\<close>

theorem request_decisions_exclusive:
  assumes "db_ok db" "\<forall>(now, p)\<in>set decisions. \<exists>s. pq_status p = Some s \<and> s \<noteq> Rq_Pending"
    and "cas_race accessRequests_updateIfStatus i Rq_Pending decisions db = (winners, db')"
  shows "length (filter id winners) \<le> 1 \<and> (filter id winners = [] \<longrightarrow> db' = db) \<and>
    (\<forall>n < length winners. winners ! n \<longrightarrow> (\<exists>r. accessRequests_findById db i = Some r \<and>
       rq_status r = Rq_Pending \<and> accessRequests_findById db' i =
         Some (request_row_after (fst (decisions ! n)) (snd (decisions ! n)) r)))"
proof (rule request_cas.race_winner [OF _ _ assms(3)])
  show "requests_unique (db_requests db)" using assms(1) by (simp add: db_ok_def)
  show "\<forall>(now, p)\<in>set decisions. \<forall>r. rq_status (request_row_after now p r) \<noteq> Rq_Pending"
  proof clarify
    fix now p r
    assume d: "(now, p) \<in> set decisions" "rq_status (request_row_after now p r) = Rq_Pending"
    then obtain s where s: "pq_status p = Some s" "s \<noteq> Rq_Pending" using assms(2) by auto
    then have "p \<noteq> no_request_patch" by (auto simp: no_request_patch_def)
    with d(2) s show False
      by (simp add: request_row_after_def accessRequestUpdateColumns_def patched_def)
  qed
qed

theorem request_decisions_exclusive_witness:
  "\<exists>winners db'. cas_race accessRequests_updateIfStatus ''r1'' Rq_Pending
     [(5, no_request_patch\<lparr>pq_status := Some Rq_Denied\<rparr>),
      (6, no_request_patch\<lparr>pq_status := Some Rq_Cancelled\<rparr>)] example_db = (winners, db') \<and>
     length (filter id winners) \<le> 1"
proof -
  let ?ds = "[(5, no_request_patch\<lparr>pq_status := Some Rq_Denied\<rparr>),
      (6 :: int, no_request_patch\<lparr>pq_status := Some Rq_Cancelled\<rparr>)]"
  have ok: "db_ok example_db" by code_simp
  have ds: "\<forall>(now, p)\<in>set ?ds. \<exists>s. pq_status p = Some s \<and> s \<noteq> Rq_Pending" by simp
  obtain w d where "cas_race accessRequests_updateIfStatus ''r1'' Rq_Pending ?ds example_db = (w, d)"
    by (rule prod.exhaust)
  with request_decisions_exclusive [OF ok ds this] show ?thesis by blast
qed

text \<open>Of any number of revocations racing for one active grant, whatever their path, at most
  one wins, and only if the grant was active: one access is never withdrawn twice.\<close>

theorem grant_revocations_exclusive:
  assumes "db_ok db" "\<forall>(now, p)\<in>set claims. pg_status p = Some Gr_Revoked"
    and "cas_race grants_updateIfStatus i Gr_Active claims db = (winners, db')"
  shows "length (filter id winners) \<le> 1 \<and> (filter id winners = [] \<longrightarrow> db' = db) \<and>
    (\<forall>n < length winners. winners ! n \<longrightarrow> (\<exists>g. grants_findById db i = Some g \<and>
       gr_status g = Gr_Active \<and> grants_findById db' i =
         Some (grant_row_after (fst (claims ! n)) (snd (claims ! n)) g)))"
proof (rule grant_cas.race_winner [OF _ _ assms(3)])
  show "grants_unique (db_grants db)" using assms(1) by (simp add: db_ok_def)
  show "\<forall>(now, p)\<in>set claims. \<forall>g. gr_status (grant_row_after now p g) \<noteq> Gr_Active"
  proof clarify
    fix now p g
    assume d: "(now, p) \<in> set claims" "gr_status (grant_row_after now p g) = Gr_Active"
    then have s: "pg_status p = Some Gr_Revoked" using assms(2) by auto
    then have "p \<noteq> no_grant_patch" by (auto simp: no_grant_patch_def)
    with d(2) s show False by (simp add: grant_row_after_def grantUpdateColumns_def patched_def)
  qed
qed

theorem grant_revocations_exclusive_witness:
  "\<exists>winners db'. cas_race grants_updateIfStatus ''g1'' Gr_Active
     [(5, no_grant_patch\<lparr>pg_status := Some Gr_Revoked\<rparr>), (6, no_grant_patch\<lparr>pg_status := Some Gr_Revoked\<rparr>)]
     example_db = (winners, db') \<and> length (filter id winners) \<le> 1"
proof -
  let ?ds = "[(5, no_grant_patch\<lparr>pg_status := Some Gr_Revoked\<rparr>),
      (6 :: int, no_grant_patch\<lparr>pg_status := Some Gr_Revoked\<rparr>)]"
  have ok: "db_ok example_db" by code_simp
  have ds: "\<forall>(now, p)\<in>set ?ds. pg_status p = Some Gr_Revoked" by simp
  obtain w d where "cas_race grants_updateIfStatus ''g1'' Gr_Active ?ds example_db = (w, d)"
    by (rule prod.exhaust)
  with grant_revocations_exclusive [OF ok ds this] show ?thesis by blast
qed

text \<open>C8: A worker that claims a job takes it over: it was due, its attempt count grows by one, and
  every older holder of the same row, whose generation differs, can neither delete nor reschedule it
  any more, while the new owner can.\<close>

theorem claimed_job_fences_older_owners:
  assumes "db_ok db" "accessGatewayJobs_claimDue gen st now limit db = (js, db1)" "j \<in> set js"
    and "jb_id old = jb_id j" "jb_generation old \<noteq> gen"
  shows "accessGatewayJobs_deleteClaimed old db1 = (False, db1) \<and>
    accessGatewayJobs_reschedule old t e st' db1 = (False, db1) \<and>
    fst (accessGatewayJobs_deleteClaimed j db1) \<and>
    (\<exists>j0\<in>set (db_jobs db). jb_id j0 = jb_id j \<and> job_due now j0 \<and> jb_attempts j = jb_attempts j0 + 1)"
proof -
  note c = claimDue_rows [OF assms(1-3)]
  have "db_ok db1" using jobs_simple_ok(5) [OF assms(1), of gen st now limit] assms(2) by simp
  then have d: "distinct (map jb_id (db_jobs db1))" by (simp add: db_ok_def jobs_unique_def)
  have "\<not> owns_row old r" if "r \<in> set (db_jobs db1)" for r
  proof
    assume o: "owns_row old r"
    then have "jb_id r = jb_id j" using assms(4) by (simp add: owns_row_def)
    then have "r = j" using that c(1) d by (metis distinct_map inj_onD)
    then show False using o c(3) assms(5) by (simp add: owns_row_def)
  qed
  then have "\<not> list_ex (owns_row old) (db_jobs db1)" by (auto simp: list_ex_iff)
  moreover have "list_ex (owns_row j) (db_jobs db1)" using c(1,2) by (auto simp: list_ex_iff)
  ultimately show ?thesis using not_owned_noop [of old db1] c(4)
    by (auto simp: accessGatewayJobs_deleteClaimed_def)
qed

theorem claimed_job_fences_older_owners_witness:
  "\<exists>js db1. accessGatewayJobs_claimDue ''gen1'' 20 20 1 example_db = (js, db1) \<and>
     accessGatewayJobs_deleteClaimed example_job db1 = (False, db1)"
proof -
  have ok: "db_ok example_db" by code_simp
  let ?j = "example_job\<lparr>jb_status := Job_Sending, jb_attempts := 1, jb_updated_at := 20, jb_generation := ''gen1''\<rparr>"
  have c: "accessGatewayJobs_claimDue ''gen1'' 20 20 1 example_db = ([?j], example_db\<lparr>db_jobs := [?j]\<rparr>)"
    by code_simp
  have i: "jb_id example_job = jb_id ?j" and g: "jb_generation example_job \<noteq> ''gen1''" by code_simp+
  have m: "?j \<in> set [?j]" by (rule list.set_intros(1))
  show ?thesis
    using claimed_job_fences_older_owners [OF ok c m i g] c by (intro exI conjI) (rule c, blast)
qed

text \<open>Every call of these repositories keeps the schema's invariant: at most one pending request
  and at most one active grant per API and identity, and one job per subject.\<close>

theorem store_calls_keep_schema:
  assumes "db_ok db"
  shows "(accessRequests_create r db = Inr (a, db') \<longrightarrow> db_ok db') \<and>
    (accessRequests_updateIfStatus now i es p db = Inr (b, db') \<longrightarrow> db_ok db') \<and>
    (grants_create g db = Inr (c, db') \<longrightarrow> db_ok db') \<and>
    (grants_updateIfStatus now i eg q db = Inr (d, db') \<longrightarrow> db_ok db') \<and>
    (newId \<notin> jb_id ` set (db_jobs db) \<and> accessGatewayJobs_upsertClaimed newId gen ji now db = Inr (j, db') \<longrightarrow> db_ok db') \<and>
    db_ok (snd (accessGatewayJobs_claimDue gen st now limit db)) \<and>
    db_ok (snd (accessGatewayJobs_deleteClaimed job db)) \<and>
    db_ok (snd (accessGatewayJobs_reschedule job t e st db)) \<and>
    db_ok (snd (accessGatewayJobs_releaseStale o1 st db)) \<and>
    db_ok (snd (accessGatewayJobs_deleteBySubject sub db))"
  using accessRequests_create_ok [OF assms] requests_update_ok [OF assms] grants_create_ok [OF assms]
    grants_update_ok [OF assms] upsertClaimed_ok [OF assms] jobs_simple_ok [OF assms] by auto

theorem store_calls_keep_schema_witness:
  "db_ok (snd (accessGatewayJobs_claimDue ''gen1'' 20 20 1 example_db))"
proof -
  have "db_ok example_db" by code_simp
  from store_calls_keep_schema [OF this] show ?thesis by simp
qed

end
