(* ===== verification/Read_Access.thy ===== *)
theory Read_Access
  imports Store
begin

section \<open>Who may read an API\<close>

text \<open>
  Models \<open>server/src/catalog/read-access.ts\<close>: an account's standing on an API, the listing and
  viewing rules, and the filter every listing that embeds API summaries applies at read time.
\<close>

record api_read_access =
  ra_grant :: "grant option"
  ra_isAuthorizedViewer :: bool

definition resolveReadAccess :: "portal_db \<Rightarrow> string \<Rightarrow> string \<Rightarrow> api_read_access" where
  "resolveReadAccess db viewerId apiId =
     (let own = grants_findActiveByApiAndUser db apiId viewerId None;
          held = (case own of
                    Some g \<Rightarrow> Some g
                  | None \<Rightarrow> (case grants_list_active db apiId viewerId of [] \<Rightarrow> None | g # gs \<Rightarrow> Some g))
      in \<lparr>ra_grant = held, ra_isAuthorizedViewer = (apiViewers_find db apiId viewerId \<noteq> None)\<rparr>)"

definition isInsider :: "user \<Rightarrow> api \<Rightarrow> api_read_access \<Rightarrow> bool" where
  "isInsider viewer api acc \<longleftrightarrow> a_owner_user_id api = u_id viewer \<or>
     roleAtLeast (u_role viewer) Admin \<or> ra_grant acc \<noteq> None \<or> ra_isAuthorizedViewer acc"

definition canListApi :: "user \<Rightarrow> api \<Rightarrow> api_read_access \<Rightarrow> bool" where
  "canListApi viewer api acc =
     (if isInsider viewer api acc then True
      else a_status api = Published \<and> a_visibility api = Vis_Public)"

definition canViewApi :: "user \<Rightarrow> api \<Rightarrow> api_read_access \<Rightarrow> bool" where
  "canViewApi viewer api acc =
     (if isInsider viewer api acc then True
      else a_status api = Published \<and> a_visibility api \<noteq> Vis_Private)"

definition NO_STANDING :: api_read_access where
  "NO_STANDING = \<lparr>ra_grant = None, ra_isAuthorizedViewer = False\<rparr>"

definition filterReadableApis :: "portal_db \<Rightarrow> user \<Rightarrow> api list \<Rightarrow> api list" where
  "filterReadableApis db viewer apis =
     (let gated = filter (\<lambda>api. a_visibility api = Vis_Private \<and> \<not> canViewApi viewer api NO_STANDING) apis
      in if length gated = 0 then apis
         else
           (let grants = grants_listActiveByUser db (u_id viewer) None;
                authorized = apiViewers_listApiIdsByUser db (u_id viewer);
                standing = (\<lambda>api. \<lparr>ra_grant = List.find (\<lambda>g. gr_api_id g = a_id api) grants,
                                   ra_isAuthorizedViewer = (a_id api \<in> set authorized)\<rparr>)
            in filter (\<lambda>api. \<not> api \<in> set gated \<or> canViewApi viewer api (standing api)) apis))"

definition canReadApiSummary :: "portal_db \<Rightarrow> user \<Rightarrow> api \<Rightarrow> bool" where
  "canReadApiSummary db viewer api \<longleftrightarrow> length (filterReadableApis db viewer [api]) > 0"

subsection \<open>Lemmas\<close>

definition holds_grant :: "portal_db \<Rightarrow> string \<Rightarrow> string \<Rightarrow> bool" where
  "holds_grant db viewerId apiId \<longleftrightarrow> (\<exists>g\<in>set (db_grants db).
     gr_api_id g = apiId \<and> gr_user_id g = viewerId \<and> gr_status g = Gr_Active)"

definition is_viewer :: "portal_db \<Rightarrow> string \<Rightarrow> string \<Rightarrow> bool" where
  "is_viewer db viewerId apiId \<longleftrightarrow>
     (\<exists>v\<in>set (db_viewers db). vw_api_id v = apiId \<and> vw_user_id v = viewerId)"

text \<open>The two ways the source computes the standing agree on what the rules ask of it.\<close>

lemma grants_list_active_set:
  "set (grants_list_active db apiId userId) =
     {g \<in> set (db_grants db). gr_api_id g = apiId \<and> gr_user_id g = userId \<and> gr_status g = Gr_Active}"
  by (auto simp: grants_list_active_def Let_def)

lemma find_none_iff: "List.find P xs = None \<longleftrightarrow> \<not> (\<exists>x\<in>set xs. P x)"
  by (auto simp: find_None_iff)

lemma resolved_grant: "ra_grant (resolveReadAccess db viewerId apiId) = None \<longleftrightarrow> \<not> holds_grant db viewerId apiId"
proof (cases "grants_findActiveByApiAndUser db apiId viewerId None")
  case None
  have "ra_grant (resolveReadAccess db viewerId apiId) = None \<longleftrightarrow> grants_list_active db apiId viewerId = []"
    using None by (simp add: resolveReadAccess_def split: list.splits)
  also have "\<dots> \<longleftrightarrow> set (grants_list_active db apiId viewerId) = {}" by simp
  finally show ?thesis by (auto simp: grants_list_active_set holds_grant_def)
next
  case (Some g)
  then have "holds_grant db viewerId apiId"
    by (auto simp: grants_findActiveByApiAndUser_def holds_grant_def find_Some_iff)
  then show ?thesis using Some by (simp add: resolveReadAccess_def)
qed

lemma resolved_viewer: "ra_isAuthorizedViewer (resolveReadAccess db viewerId apiId) = is_viewer db viewerId apiId"
  by (simp add: resolveReadAccess_def apiViewers_find_def find_none_iff is_viewer_def Let_def del: not_None_eq)

lemma standing_grant:
  "List.find (\<lambda>g. gr_api_id g = apiId) (grants_listActiveByUser db viewerId None) = None \<longleftrightarrow>
     \<not> holds_grant db viewerId apiId"
  by (auto simp: find_none_iff grants_listActiveByUser_def holds_grant_def)

lemma standing_viewer: "apiId \<in> set (apiViewers_listApiIdsByUser db viewerId) \<longleftrightarrow> is_viewer db viewerId apiId"
  by (auto simp: apiViewers_listApiIdsByUser_def is_viewer_def)

lemma isInsider_eq:
  "(ra_grant acc = None \<longleftrightarrow> ra_grant acc' = None) \<Longrightarrow> ra_isAuthorizedViewer acc = ra_isAuthorizedViewer acc' \<Longrightarrow>
     isInsider viewer api acc = isInsider viewer api acc'"
  by (simp add: isInsider_def del: not_None_eq)

lemma filterReadableApis_eq:
  "filterReadableApis db viewer apis =
     filter (\<lambda>api. a_visibility api \<noteq> Vis_Private \<or>
               canViewApi viewer api (resolveReadAccess db (u_id viewer) (a_id api))) apis"
proof -
  let ?gate = "\<lambda>api. a_visibility api = Vis_Private \<and> \<not> canViewApi viewer api NO_STANDING"
  let ?st = "\<lambda>api. \<lparr>ra_grant = List.find (\<lambda>g. gr_api_id g = a_id api) (grants_listActiveByUser db (u_id viewer) None),
      ra_isAuthorizedViewer = (a_id api \<in> set (apiViewers_listApiIdsByUser db (u_id viewer)))\<rparr>"
  have ins: "isInsider viewer api (?st api) = isInsider viewer api (resolveReadAccess db (u_id viewer) (a_id api))"
    for api by (rule isInsider_eq) (simp_all add: standing_grant resolved_grant standing_viewer resolved_viewer del: not_None_eq)
  have view: "canViewApi viewer api (?st api) = canViewApi viewer api (resolveReadAccess db (u_id viewer) (a_id api))"
    for api by (simp add: canViewApi_def ins)
  have weak: "canViewApi viewer api (resolveReadAccess db (u_id viewer) (a_id api))"
    if "canViewApi viewer api NO_STANDING" for api
    using that by (auto simp: canViewApi_def isInsider_def NO_STANDING_def split: if_splits)
  show ?thesis
  proof (cases "filter ?gate apis = []")
    case True
    then have "\<forall>api\<in>set apis. \<not> ?gate api" by (simp add: filter_empty_conv)
    then have "filter (\<lambda>api. a_visibility api \<noteq> Vis_Private \<or>
        canViewApi viewer api (resolveReadAccess db (u_id viewer) (a_id api))) apis = apis"
      using weak by (auto simp: filter_id_conv)
    then show ?thesis using True by (simp add: filterReadableApis_def)
  next
    case False
    have "filterReadableApis db viewer apis =
        filter (\<lambda>api. \<not> api \<in> set (filter ?gate apis) \<or> canViewApi viewer api (?st api)) apis"
      using False by (simp add: filterReadableApis_def Let_def)
    also have "\<dots> = filter (\<lambda>api. a_visibility api \<noteq> Vis_Private \<or>
        canViewApi viewer api (resolveReadAccess db (u_id viewer) (a_id api))) apis"
      using weak by (intro filter_cong) (auto simp: view)
    finally show ?thesis .
  qed
qed

lemma filter_rows:
  "canReadApiSummary db viewer api \<longleftrightarrow> a_visibility api \<noteq> Vis_Private \<or>
     canViewApi viewer api (resolveReadAccess db (u_id viewer) (a_id api))"
  by (simp add: canReadApiSummary_def filterReadableApis_eq)

subsection \<open>Properties\<close>

text \<open>C33: One rule for every surface. A filtered page keeps, in its order, exactly the rows whose detail
  page would open for the account now, with its standing resolved one API at a time, and beside them only
  the retired APIs that are not private, which the detail page may refuse: only \<open>private\<close> is gated, and a
  retired API is history the account took part in. So on every private and on every published row the two
  agree; and a row asked about alone gets the answer it gets on any page.\<close>

theorem filterReadableApis_agrees_with_view:
  "filterReadableApis db viewer apis =
     filter (\<lambda>api. canViewApi viewer api (resolveReadAccess db (u_id viewer) (a_id api)) \<or>
                   a_visibility api \<noteq> Vis_Private \<and> a_status api = Retired) apis \<and>
   filterReadableApis db viewer apis = filter (canReadApiSummary db viewer) apis"
proof -
  have "filterReadableApis db viewer apis = filter (canReadApiSummary db viewer) apis"
    unfolding filterReadableApis_eq by (rule filter_cong) (simp_all only: filter_rows)
  moreover have "filterReadableApis db viewer apis =
     filter (\<lambda>api. canViewApi viewer api (resolveReadAccess db (u_id viewer) (a_id api)) \<or>
                   a_visibility api \<noteq> Vis_Private \<and> a_status api = Retired) apis"
    unfolding filterReadableApis_eq
    by (rule filter_cong) (auto simp: canViewApi_def intro: api_status.exhaust)
  ultimately show ?thesis by blast
qed

text \<open>A private API is readable only by its owner, an administrator, an account one of whose
  identities holds an active grant, or an account its provider authorized; and whatever is listed
  for an account can be opened by it.\<close>

theorem private_api_readers:
  "(a_visibility api = Vis_Private \<longrightarrow>
     (canReadApiSummary db viewer api \<longleftrightarrow>
        a_owner_user_id api = u_id viewer \<or> Admin \<le> u_role viewer \<or>
        holds_grant db (u_id viewer) (a_id api) \<or> is_viewer db (u_id viewer) (a_id api))) \<and>
   (canListApi viewer api acc \<longrightarrow> canViewApi viewer api acc)"
proof (intro conjI impI)
  assume priv: "a_visibility api = Vis_Private"
  have "canReadApiSummary db viewer api \<longleftrightarrow>
      canViewApi viewer api (resolveReadAccess db (u_id viewer) (a_id api))"
    using priv filter_rows [of db viewer api] by simp
  then show "canReadApiSummary db viewer api \<longleftrightarrow>
        a_owner_user_id api = u_id viewer \<or> Admin \<le> u_role viewer \<or>
        holds_grant db (u_id viewer) (a_id api) \<or> is_viewer db (u_id viewer) (a_id api)"
    using priv by (simp add: canViewApi_def isInsider_def resolved_grant resolved_viewer roleAtLeast_iff_le
        del: not_None_eq)
next
  assume "canListApi viewer api acc"
  then show "canViewApi viewer api acc"
    by (auto simp: canListApi_def canViewApi_def split: if_splits)
qed

theorem private_api_readers_witness:
  "canReadApiSummary example_db (example_user ''u1'' Client)
     (db_apis example_db ! 1)"
  using private_api_readers [of "db_apis example_db ! 1" example_db
      "example_user ''u1'' Client" NO_STANDING]
  by (simp add: example_db_def example_grant_def holds_grant_def)

end
