(* ===== verification/Io.thy ===== *)
theory Io
  imports Store Serializer
begin

section \<open>Service programs\<close>

text \<open>
  The services of the portal are sequences of store calls and gateway calls, any of which may
  fail, with other requests and other instances acting in between. A program is a function of an
  environment and of the world; it returns a value or a failure, and the world it leaves.

  The environment is everything the program does not decide: for the call with number \<open>n\<close>, what the
  others did to the store just before it (\<open>e_other\<close>), whether the store refused it or lost its
  acknowledgement (\<open>e_fault\<close>), whether the key it waits for was ever free (\<open>e_lock\<close>), what the
  gateway answered (\<open>e_get\<close>, \<open>e_put\<close>, \<open>e_ensure\<close>) and the mail relay (\<open>e_send\<close>), and what the clock
  and the id generator returned. Gateway and relay are not part of the model: what they hold is known to
  the program only through these answers, and what the program asked of them is the list of its writes
  and of the messages it sent.
\<close>

datatype fault = Refused failure | Lost_Ack failure

text \<open>A whole-resource write of a consumer's groups, and whether the gateway acknowledged it.\<close>

record put =
  pt_consumer :: string
  pt_groups :: "string list"
  pt_acked :: bool

text \<open>The other writes to the gateway: a consumer is deleted, or all its credentials of a type are.\<close>

datatype gateway_act = Delete_Consumer string | Delete_Credentials string credential_type

record act =
  ac_act :: gateway_act
  ac_acked :: bool

text \<open>What became of a message given to the mail relay: accepted, refused before it was complete, or the
  attempt was cut off when the relay may already have had all of it.\<close>

datatype send_answer = Accepted | Rejected string | Unacknowledged string

record sent =
  sn_id :: string
  sn_to :: string
  sn_subject :: string
  sn_html :: string
  sn_text :: string
  sn_answer :: send_answer

record env =
  e_other :: "nat \<Rightarrow> portal_db \<Rightarrow> portal_db"
  e_fault :: "nat \<Rightarrow> fault option"
  e_lock :: "nat \<Rightarrow> string \<Rightarrow> failure option"
  e_get :: "nat \<Rightarrow> string \<Rightarrow> failure + string list option"
  e_put :: "nat \<Rightarrow> failure option"
  e_ensure :: "nat \<Rightarrow> failure + string"
  e_now :: "nat \<Rightarrow> int"
  e_id :: "nat \<Rightarrow> string"
  e_send :: "nat \<Rightarrow> send_answer"
  e_find :: "nat \<Rightarrow> string \<Rightarrow> failure + bool"
  e_named :: "nat \<Rightarrow> string \<Rightarrow> failure + string option"
  e_act :: "nat \<Rightarrow> failure option"

record world =
  w_db :: portal_db
  w_tick :: nat
  w_puts :: "put list"
  w_sent :: "sent list"
  w_acts :: "act list"

type_synonym 'a io = "env \<Rightarrow> world \<Rightarrow> (failure + 'a) \<times> world"

definition plain :: "nexus_error \<Rightarrow> failure" where
  "plain e = \<lparr>f_error = e, f_tag = Plain\<rparr>"

text \<open>The moment before a call: the others act, and the call gets its number.\<close>

definition advance :: "env \<Rightarrow> world \<Rightarrow> world" where
  "advance env w = w\<lparr>w_db := e_other env (w_tick w) (w_db w), w_tick := Suc (w_tick w)\<rparr>"

definition io_return :: "'a \<Rightarrow> 'a io" where
  "io_return a env w = (Inr a, w)"

definition io_throw :: "failure \<Rightarrow> 'a io" where
  "io_throw f env w = (Inl f, w)"

definition io_bind :: "'a io \<Rightarrow> ('a \<Rightarrow> 'b io) \<Rightarrow> 'b io" where
  "io_bind m k env w = (case m env w of (Inl f, w') \<Rightarrow> (Inl f, w') | (Inr a, w') \<Rightarrow> k a env w')"

text \<open>\<^verbatim>\<open>try { m } catch (error) { h(error) }\<close>.\<close>

definition io_catch :: "'a io \<Rightarrow> (failure \<Rightarrow> 'a io) \<Rightarrow> 'a io" where
  "io_catch m h env w = (case m env w of (Inl f, w') \<Rightarrow> h f env w' | (Inr a, w') \<Rightarrow> (Inr a, w'))"

text \<open>The outcome of a program as a value.\<close>

definition io_try :: "'a io \<Rightarrow> (failure + 'a) io" where
  "io_try m env w = (case m env w of (r, w') \<Rightarrow> (Inr r, w'))"

definition io_result :: "nexus_error + 'a \<Rightarrow> 'a io" where
  "io_result r = (case r of Inl e \<Rightarrow> io_throw (plain e) | Inr a \<Rightarrow> io_return a)"

definition io_guard :: "bool \<Rightarrow> nexus_error \<Rightarrow> unit io" where
  "io_guard b e = io_result (guard b e)"

text \<open>A transaction commits as a whole or not at all; it may also commit while its caller only
  sees an error.\<close>

definition io_tx :: "'a tx \<Rightarrow> 'a io" where
  "io_tx m env w =
     (let w1 = advance env w in
      case e_fault env (w_tick w) of
        Some (Refused f) \<Rightarrow> (Inl f, w1)
      | Some (Lost_Ack f) \<Rightarrow> (Inl f, (case m (w_db w1) of Inl e \<Rightarrow> w1 | Inr (a, db') \<Rightarrow> w1\<lparr>w_db := db'\<rparr>))
      | None \<Rightarrow> (case m (w_db w1) of
                  Inl e \<Rightarrow> (Inl (plain e), w1)
                | Inr (a, db') \<Rightarrow> (Inr a, w1\<lparr>w_db := db'\<rparr>)))"

definition io_read :: "(portal_db \<Rightarrow> 'a) \<Rightarrow> 'a io" where
  "io_read f = io_tx (\<lambda>db. Inr (f db, db))"

definition io_now :: "int io" where
  "io_now env w = (Inr (e_now env (w_tick w)), w\<lparr>w_tick := Suc (w_tick w)\<rparr>)"

definition io_newId :: "string io" where
  "io_newId env w = (Inr (e_id env (w_tick w)), w\<lparr>w_tick := Suc (w_tick w)\<rparr>)"

text \<open>\<open>serializePerKey(key, body)\<close>: the wait for the key may fail, and then nothing ran.\<close>

definition io_lock :: "string \<Rightarrow> 'a io \<Rightarrow> 'a io" where
  "io_lock key m env w =
     (let w1 = advance env w in
      case e_lock env (w_tick w) key of Some f \<Rightarrow> (Inl f, w1) | None \<Rightarrow> m env w1)"

definition edge_verification :: "string \<Rightarrow> string list option io" where
  "edge_verification consumerId env w = (e_get env (w_tick w) consumerId, advance env w)"

definition edge_replace :: "string \<Rightarrow> string list \<Rightarrow> unit io" where
  "edge_replace consumerId groups env w =
     (let w1 = advance env w; sent = (\<lambda>ok. w1\<lparr>w_puts := w_puts w1 @
            [\<lparr>pt_consumer = consumerId, pt_groups = groups, pt_acked = ok\<rparr>]\<rparr>)
      in case e_put env (w_tick w) of Some f \<Rightarrow> (Inl f, sent False) | None \<Rightarrow> (Inr (), sent True))"

definition smtp_send :: "string \<Rightarrow> string \<Rightarrow> string \<Rightarrow> string \<Rightarrow> string \<Rightarrow> send_answer io" where
  "smtp_send rowId to subject html text env w =
     (let w1 = advance env w; answer = e_send env (w_tick w)
      in (Inr answer, w1\<lparr>w_sent := w_sent w1 @ [\<lparr>sn_id = rowId, sn_to = to, sn_subject = subject, sn_html = html,
            sn_text = text, sn_answer = answer\<rparr>]\<rparr>))"

text \<open>\<open>consumers.get\<close> with the absence confirmed, \<open>getByUsername\<close>, \<open>delete\<close> and \<open>deleteCredentialType\<close>.\<close>

definition edge_get :: "string \<Rightarrow> bool io" where
  "edge_get consumerId env w = (e_find env (w_tick w) consumerId, advance env w)"

definition edge_getByUsername :: "string \<Rightarrow> string option io" where
  "edge_getByUsername username env w = (e_named env (w_tick w) username, advance env w)"

definition edge_act :: "gateway_act \<Rightarrow> unit io" where
  "edge_act a env w =
     (let w1 = advance env w; done1 = (\<lambda>ok. w1\<lparr>w_acts := w_acts w1 @ [\<lparr>ac_act = a, ac_acked = ok\<rparr>]\<rparr>)
      in case e_act env (w_tick w) of Some f \<Rightarrow> (Inl f, done1 False) | None \<Rightarrow> (Inr (), done1 True))"

definition edge_ensure :: "string io" where
  "edge_ensure env w = (e_ensure env (w_tick w), advance env w)"

subsection \<open>Triples\<close>

text \<open>
  \<open>hoare env P m Q E\<close>: from a world in \<open>P\<close> the program ends in \<open>Q\<close> with its value or in \<open>E\<close> with its
  failure. An assertion the others respect is \<open>stable\<close>.
\<close>

definition hoare ::
  "env \<Rightarrow> (world \<Rightarrow> bool) \<Rightarrow> 'a io \<Rightarrow> ('a \<Rightarrow> world \<Rightarrow> bool) \<Rightarrow> (failure \<Rightarrow> world \<Rightarrow> bool) \<Rightarrow> bool" where
  "hoare env P m Q E \<longleftrightarrow> (\<forall>w. P w \<longrightarrow>
     (case m env w of (Inr a, w') \<Rightarrow> Q a w' | (Inl f, w') \<Rightarrow> E f w'))"

definition stable :: "env \<Rightarrow> (world \<Rightarrow> bool) \<Rightarrow> bool" where
  "stable env P \<longleftrightarrow> (\<forall>w. P w \<longrightarrow> P (advance env w) \<and> P (w\<lparr>w_tick := Suc (w_tick w)\<rparr>))"

named_theorems triples \<open>triples of the programs\<close>

lemma hoareI: "(\<And>w. P w \<Longrightarrow> case m env w of (Inr a, w') \<Rightarrow> Q a w' | (Inl f, w') \<Rightarrow> E f w') \<Longrightarrow> hoare env P m Q E"
  by (simp add: hoare_def)

lemma hoare_Inr: "hoare env P m Q E \<Longrightarrow> P w \<Longrightarrow> m env w = (Inr a, w') \<Longrightarrow> Q a w'"
  by (auto simp: hoare_def)

lemma hoare_Inl: "hoare env P m Q E \<Longrightarrow> P w \<Longrightarrow> m env w = (Inl f, w') \<Longrightarrow> E f w'"
  by (auto simp: hoare_def)

lemma hoare_weaken:
  assumes "hoare env P m Q E" "\<And>w. P' w \<Longrightarrow> P w" "\<And>a w. Q a w \<Longrightarrow> Q' a w" "\<And>f w. E f w \<Longrightarrow> E' f w"
  shows "hoare env P' m Q' E'"
  unfolding hoare_def
proof (intro allI impI)
  fix w
  assume "P' w"
  then have "case m env w of (Inr a, w') \<Rightarrow> Q a w' | (Inl f, w') \<Rightarrow> E f w'"
    using assms(1,2) by (auto simp: hoare_def)
  then show "case m env w of (Inr a, w') \<Rightarrow> Q' a w' | (Inl f, w') \<Rightarrow> E' f w'"
    using assms(3,4) by (auto split: prod.splits sum.splits)
qed

lemma hoare_return: "(\<And>w. P w \<Longrightarrow> Q a w) \<Longrightarrow> hoare env P (io_return a) Q E"
  by (simp add: hoare_def io_return_def)

lemma hoare_throw: "(\<And>w. P w \<Longrightarrow> E f w) \<Longrightarrow> hoare env P (io_throw f) Q E"
  by (simp add: hoare_def io_throw_def)

lemma hoare_bind:
  "hoare env P m R E \<Longrightarrow> (\<And>a. hoare env (R a) (k a) Q E) \<Longrightarrow> hoare env P (io_bind m k) Q E"
  unfolding hoare_def io_bind_def by (fastforce split: prod.splits sum.splits)

lemma hoare_catch:
  "hoare env P m Q R \<Longrightarrow> (\<And>f. hoare env (R f) (h f) Q E) \<Longrightarrow> hoare env P (io_catch m h) Q E"
  unfolding hoare_def io_catch_def by (fastforce split: prod.splits sum.splits)

lemma hoare_try:
  "hoare env P m (\<lambda>a. Q (Inr a)) (\<lambda>f. Q (Inl f)) \<Longrightarrow> hoare env P (io_try m) Q E"
  unfolding hoare_def io_try_def by (fastforce split: prod.splits sum.splits)

lemma hoare_if:
  "(b \<Longrightarrow> hoare env P m Q E) \<Longrightarrow> (\<not> b \<Longrightarrow> hoare env P m' Q E) \<Longrightarrow> hoare env P (if b then m else m') Q E"
  by simp

lemma hoare_pre: "(\<And>w. P w \<Longrightarrow> hoare env P m Q E) \<Longrightarrow> hoare env P m Q E"
  by (auto simp: hoare_def)

lemma hoare_result:
  "(\<And>a w. r = Inr a \<Longrightarrow> P w \<Longrightarrow> Q a w) \<Longrightarrow> (\<And>e w. r = Inl e \<Longrightarrow> P w \<Longrightarrow> E (plain e) w) \<Longrightarrow>
     hoare env P (io_result r) Q E"
  by (cases r) (auto simp: io_result_def intro: hoare_return hoare_throw)

lemma hoare_guard:
  "(\<And>w. b \<Longrightarrow> P w \<Longrightarrow> Q () w) \<Longrightarrow> (\<And>w. \<not> b \<Longrightarrow> P w \<Longrightarrow> E (plain e) w) \<Longrightarrow> hoare env P (io_guard b e) Q E"
  unfolding io_guard_def by (rule hoare_result) (auto simp: result_simps)

lemma stableD: "stable env P \<Longrightarrow> P w \<Longrightarrow> P (advance env w)"
  by (simp add: stable_def)

text \<open>The precise rule for a transaction: it committed, it committed and only the environment's failure is
  seen, the environment refused it, or its body threw.\<close>

definition store_failure :: "env \<Rightarrow> failure \<Rightarrow> bool" where
  "store_failure env f \<longleftrightarrow> (\<exists>n. e_fault env n = Some (Refused f) \<or> e_fault env n = Some (Lost_Ack f))"

lemma hoare_tx_cases:
  assumes "stable env P"
    and "\<And>w a db'. P w \<Longrightarrow> m (w_db w) = Inr (a, db') \<Longrightarrow> Q a (w\<lparr>w_db := db'\<rparr>)"
    and "\<And>w a db' f. P w \<Longrightarrow> m (w_db w) = Inr (a, db') \<Longrightarrow> store_failure env f \<Longrightarrow> E f (w\<lparr>w_db := db'\<rparr>)"
    and "\<And>w f. P w \<Longrightarrow> store_failure env f \<Longrightarrow> E f w"
    and "\<And>w e. P w \<Longrightarrow> m (w_db w) = Inl e \<Longrightarrow> E (plain e) w"
  shows "hoare env P (io_tx m) Q E"
proof (rule hoareI)
  fix w
  assume "P w"
  then have P: "P (advance env w)" using assms(1) by (rule stableD [rotated])
  have f: "e_fault env (w_tick w) = Some (Refused f) \<Longrightarrow> store_failure env f"
    "e_fault env (w_tick w) = Some (Lost_Ack f) \<Longrightarrow> store_failure env f" for f
    by (auto simp: store_failure_def)
  show "case io_tx m env w of (Inr a, w') \<Rightarrow> Q a w' | (Inl f, w') \<Rightarrow> E f w'"
  proof (cases "m (w_db (advance env w))")
    case (Inl e)
    then show ?thesis using assms(4) [OF P f(1)] assms(4) [OF P f(2)] assms(5) [OF P]
      by (auto simp: io_tx_def Let_def split: option.splits fault.splits)
  next
    case (Inr x)
    then show ?thesis using assms(4) [OF P f(1)] assms(2) [OF P] assms(3) [OF P _ f(2)]
      by (cases x) (auto simp: io_tx_def Let_def split: option.splits fault.splits)
  qed
qed

lemma hoare_tx:
  assumes "stable env P"
    and "\<And>w a db'. P w \<Longrightarrow> m (w_db w) = Inr (a, db') \<Longrightarrow> Q a (w\<lparr>w_db := db'\<rparr>) \<and> (\<forall>f. E f (w\<lparr>w_db := db'\<rparr>))"
    and "\<And>w f. P w \<Longrightarrow> E f w"
  shows "hoare env P (io_tx m) Q E"
  by (rule hoare_tx_cases [OF assms(1)]) (use assms(2,3) in blast)+

lemma hoare_read:
  assumes "stable env P" "\<And>w f. P w \<Longrightarrow> E f w" "\<And>w. P w \<Longrightarrow> Q (f (w_db w)) w"
  shows "hoare env P (io_read f) Q E"
  unfolding io_read_def
proof (rule hoare_tx [OF assms(1)])
  fix w a db'
  assume "P w" "Inr (f (w_db w), w_db w) = (Inr (a, db') :: nexus_error + _)"
  then show "Q a (w\<lparr>w_db := db'\<rparr>) \<and> (\<forall>f. E f (w\<lparr>w_db := db'\<rparr>))" using assms(2,3) by auto
qed (rule assms(2))

lemma hoare_now: "stable env P \<Longrightarrow> (\<And>a w. P w \<Longrightarrow> Q a w) \<Longrightarrow> hoare env P io_now Q E"
  by (simp add: hoare_def io_now_def stable_def)

lemma hoare_newId: "stable env P \<Longrightarrow> (\<And>a w. P w \<Longrightarrow> Q a w) \<Longrightarrow> hoare env P io_newId Q E"
  by (simp add: hoare_def io_newId_def stable_def)

lemma hoare_lock:
  "stable env P \<Longrightarrow> (\<And>w f. P w \<Longrightarrow> E f w) \<Longrightarrow> hoare env P m Q E \<Longrightarrow> hoare env P (io_lock key m) Q E"
  by (auto simp: hoare_def io_lock_def Let_def stable_def split: option.splits)

lemma hoare_verification:
  "stable env P \<Longrightarrow> (\<And>a w. P w \<Longrightarrow> Q a w) \<Longrightarrow> (\<And>f w. P w \<Longrightarrow> E f w) \<Longrightarrow>
     hoare env P (edge_verification c) Q E"
  by (auto simp: hoare_def edge_verification_def stable_def split: sum.splits)

lemma hoare_ensure:
  "stable env P \<Longrightarrow> (\<And>a w. P w \<Longrightarrow> Q a w) \<Longrightarrow> (\<And>f w. P w \<Longrightarrow> E f w) \<Longrightarrow> hoare env P edge_ensure Q E"
  by (auto simp: hoare_def edge_ensure_def stable_def split: sum.splits)

lemma hoare_replace:
  assumes "stable env P"
    and "\<And>w. P w \<Longrightarrow> Q () (w\<lparr>w_puts := w_puts w @ [\<lparr>pt_consumer = c, pt_groups = gs, pt_acked = True\<rparr>]\<rparr>)"
    and "\<And>w f n. P w \<Longrightarrow> e_put env n = Some f \<Longrightarrow>
        E f (w\<lparr>w_puts := w_puts w @ [\<lparr>pt_consumer = c, pt_groups = gs, pt_acked = False\<rparr>]\<rparr>)"
  shows "hoare env P (edge_replace c gs) Q E"
  using assms by (auto simp: hoare_def edge_replace_def Let_def stable_def split: option.splits)

lemma hoare_get: "stable env P \<Longrightarrow> (\<And>a w. P w \<Longrightarrow> Q a w) \<Longrightarrow> (\<And>f w. P w \<Longrightarrow> E f w) \<Longrightarrow> hoare env P (edge_get c) Q E"
  and hoare_getByUsername:
    "stable env P \<Longrightarrow> (\<And>a w. P w \<Longrightarrow> Q' a w) \<Longrightarrow> (\<And>f w. P w \<Longrightarrow> E f w) \<Longrightarrow> hoare env P (edge_getByUsername u) Q' E"
  by (auto simp: hoare_def edge_get_def edge_getByUsername_def stable_def split: sum.splits)

lemma hoare_act:
  assumes "stable env P" "\<And>w. P w \<Longrightarrow> Q () (w\<lparr>w_acts := w_acts w @ [\<lparr>ac_act = a, ac_acked = True\<rparr>]\<rparr>)"
    and "\<And>w f. P w \<Longrightarrow> E f (w\<lparr>w_acts := w_acts w @ [\<lparr>ac_act = a, ac_acked = False\<rparr>]\<rparr>)"
  shows "hoare env P (edge_act a) Q E"
  using assms by (auto simp: hoare_def edge_act_def Let_def stable_def split: option.splits)

lemma hoare_pure: "(b \<Longrightarrow> hoare env P m Q E) \<Longrightarrow> hoare env (\<lambda>w. P w \<and> b) m Q E"
  by (auto simp: hoare_def)

lemma hoare_prodI: "(\<And>a b. hoare env (P (a, b)) (m (a, b)) Q E) \<Longrightarrow> hoare env (P x) (m x) Q E"
  by (cases x) simp

lemma any_step: "hoare env (\<lambda>_. True) m (\<lambda>_ _. True) (\<lambda>_ _. True)"
  by (auto simp: hoare_def split: prod.splits sum.splits)

lemma hoare_conj:
  assumes "hoare env P m Q E" "hoare env P' m Q' E'"
  shows "hoare env (\<lambda>w. P w \<and> P' w) m (\<lambda>a w. Q a w \<and> Q' a w) (\<lambda>f w. E f w \<and> E' f w)"
  using assms unfolding hoare_def by (fastforce split: prod.splits sum.splits)

subsection \<open>Stable assertions\<close>

lemma stableI:
  assumes "\<And>w. P w \<Longrightarrow> P (advance env w)" "\<And>w n. P w \<Longrightarrow> P (w\<lparr>w_tick := n\<rparr>)"
  shows "stable env P"
  using assms by (simp add: stable_def)

lemma advance_simps [simp]:
  "w_db (advance env w) = e_other env (w_tick w) (w_db w)" "w_puts (advance env w) = w_puts w" "w_sent (advance env w) = w_sent w"
  "w_acts (advance env w) = w_acts w"
  by (simp_all add: advance_def)

lemma stable_conj: "stable env P \<Longrightarrow> stable env Q \<Longrightarrow> stable env (\<lambda>w. P w \<and> Q w)"
  and stable_disj: "stable env P \<Longrightarrow> stable env Q \<Longrightarrow> stable env (\<lambda>w. P w \<or> Q w)"
  by (auto simp: stable_def)

lemma stable_puts: "stable env (\<lambda>w. X (w_puts w))"
  by (rule stableI) simp_all

lemma stable_const: "stable env (\<lambda>w. b)"
  by (simp add: stable_def)

subsection \<open>Programs that only look\<close>

text \<open>A quiet program keeps every stable assertion, whether it returns or throws: it neither writes
  the store nor sends anything to the gateway.\<close>

definition quiet :: "env \<Rightarrow> 'a io \<Rightarrow> bool" where
  "quiet env m \<longleftrightarrow> (\<forall>P. stable env P \<longrightarrow> hoare env P m (\<lambda>_. P) (\<lambda>_. P))"

named_theorems quiets \<open>programs that only look\<close>

lemma quietD: "quiet env m \<Longrightarrow> stable env P \<Longrightarrow> hoare env P m (\<lambda>_. P) (\<lambda>_. P)"
  by (simp add: quiet_def)

lemma quiet_return [quiets]: "quiet env (io_return a)"
  and quiet_throw [quiets]: "quiet env (io_throw f)"
  by (auto simp: quiet_def intro: hoare_return hoare_throw)

lemma quiet_bind [quiets]: "quiet env m \<Longrightarrow> (\<And>a. quiet env (k a)) \<Longrightarrow> quiet env (io_bind m k)"
  by (auto simp: quiet_def intro!: hoare_bind)

lemma quiet_read [quiets]: "quiet env (io_read f)"
  by (auto simp: quiet_def intro!: hoare_read)

lemma quiet_guard [quiets]: "quiet env (io_guard b e)"
  and quiet_result [quiets]: "quiet env (io_result r)"
  by (auto simp: quiet_def intro!: hoare_guard hoare_result)

lemma quiet_now [quiets]: "quiet env io_now"
  and quiet_newId [quiets]: "quiet env io_newId"
  by (auto simp: quiet_def intro!: hoare_now hoare_newId)

lemma quiet_get [quiets]: "quiet env (edge_get c)"
  and quiet_getByUsername [quiets]: "quiet env (edge_getByUsername u)"
  by (auto simp: quiet_def intro!: hoare_get hoare_getByUsername)

lemma quiet_lock [quiets]: "quiet env m \<Longrightarrow> quiet env (io_lock key m)"
  by (auto simp: quiet_def intro!: hoare_lock)

lemma quiet_if [quiets]: "(b \<Longrightarrow> quiet env m) \<Longrightarrow> (\<not> b \<Longrightarrow> quiet env m') \<Longrightarrow> quiet env (if b then m else m')"
  by simp

lemma quiet_option [quiets]:
  "(v = None \<Longrightarrow> quiet env m) \<Longrightarrow> (\<And>x. v = Some x \<Longrightarrow> quiet env (k x)) \<Longrightarrow>
     quiet env (case v of None \<Rightarrow> m | Some x \<Rightarrow> k x)"
  by (cases v) auto

lemma quiet_prod [quiets]: "(\<And>a b. quiet env (k a b)) \<Longrightarrow> quiet env (case x of (a, b) \<Rightarrow> k a b)"
  by (cases x) simp

text \<open>A quiet step before the rest of a program.\<close>

lemma hoare_quiet:
  "quiet env m \<Longrightarrow> stable env P \<Longrightarrow> (\<And>a. hoare env P (k a) Q E) \<Longrightarrow> (\<And>f w. P w \<Longrightarrow> E f w) \<Longrightarrow>
     hoare env P (io_bind m k) Q E"
  by (rule hoare_bind [where R = "\<lambda>_. P"], rule hoare_weaken [where P = P and Q = "\<lambda>_. P" and E = "\<lambda>_. P"])
     (auto simp: quiet_def)


subsection \<open>A run nobody disturbs\<close>

text \<open>A store that answers, a key that is free, and nobody else.\<close>

definition alone :: "env \<Rightarrow> bool" where
  "alone env \<longleftrightarrow> (\<forall>n db. e_other env n db = db) \<and> (\<forall>n. e_fault env n = None) \<and> (\<forall>n k. e_lock env n k = None)"

lemma stable_alone: "alone env \<Longrightarrow> stable env (\<lambda>w. D (w_db w))"
  by (rule stableI) (simp_all add: alone_def)

text \<open>A read whose answer is known.\<close>

lemma hoare_read_known:
  assumes "alone env" "\<And>db. D db \<Longrightarrow> f db = v"
  shows "hoare env (\<lambda>w. D (w_db w)) (io_read f) (\<lambda>a w. D (w_db w) \<and> a = v) E"
  unfolding io_read_def
  by (rule hoare_tx_cases [OF stable_alone [OF assms(1)]]) (use assms in \<open>auto simp: store_failure_def alone_def\<close>)

lemma hoare_read_alone:
  assumes "alone env" "\<And>db. D db \<Longrightarrow> f db = v" "hoare env (\<lambda>w. D (w_db w)) (k v) Q E"
  shows "hoare env (\<lambda>w. D (w_db w)) (io_bind (io_read f) k) Q E"
proof (rule hoare_bind [OF hoare_read_known [OF assms(1,2)]])
  show "hoare env (\<lambda>w. D (w_db w) \<and> a = v) (k a) Q E" for a by (rule hoare_pure) (simp add: assms(3))
qed

lemma hoare_tx_alone:
  assumes "alone env" "\<And>db. D db \<Longrightarrow> \<exists>a db'. m db = Inr (a, db') \<and> Q a db'"
  shows "hoare env (\<lambda>w. D (w_db w)) (io_tx m) (\<lambda>a w. Q a (w_db w)) E"
  by (rule hoare_tx_cases [OF stable_alone [OF assms(1)]]) (use assms(1) assms(2) in \<open>fastforce simp: store_failure_def alone_def\<close>)+

end
