(* ===== verification/Consumers.thy ===== *)
theory Consumers
  imports Io
begin

section \<open>Gateway consumers\<close>

text \<open>
  Models the consumer provisioner (\<open>server/src/credentials/consumers.ts\<close>): \<open>ensureConsumer\<close> and
  \<open>mutateAclGroups\<close>. The portal serves one gateway namespace, which is an argument of the key that
  names it. An option of \<open>mutateAclGroups\<close> that is a callback (\<open>guard\<close>, \<open>afterWrite\<close>) is a program; what a
  guard notes for its caller is the value it returns, and the caller gets it whether the write that
  follows succeeds or fails.
\<close>

definition consumerUsernameForUser :: "string \<Rightarrow> string" where
  "consumerUsernameForUser userId = ''nexus-user-'' @ userId"

definition consumerUsernameForApplication :: "string \<Rightarrow> string" where
  "consumerUsernameForApplication applicationId = ''nexus-app-'' @ applicationId"

text \<open>The JSON text of the pair, for names without a character JSON escapes (ids and namespaces have none).\<close>

definition canonicalConsumerLockKey :: "string \<Rightarrow> string \<Rightarrow> string" where
  "canonicalConsumerLockKey namespace username =
     ''consumer-name:['' @ [CHR 0x22] @ namespace @ [CHR 0x22] @ '','' @ [CHR 0x22] @ username @ [CHR 0x22] @ '']''"

definition CONSUMER_CONFLICT :: string where
  "CONSUMER_CONFLICT = ''A gateway consumer already exists for this user''"

definition consumers_unique :: "consumer list \<Rightarrow> bool" where
  "consumers_unique rows \<longleftrightarrow> distinct (map (\<lambda>c. (co_user_id c, coalesce (co_application_id c))) rows) \<and>
     distinct (map co_ferrum_consumer_id rows)"

definition consumers_create :: "consumer \<Rightarrow> consumer tx" where
  "consumers_create c db =
     rbind (mapConflict CONSUMER_CONFLICT (consumers_unique (db_consumers db @ [c]))
              (ref_ok u_id (db_users db) (Some (co_user_id c)) \<and>
               ref_ok ap_id (db_applications db) (co_application_id c))
              (db\<lparr>db_consumers := db_consumers db @ [c]\<rparr>))
       (\<lambda>db'. Inr (c, db'))"

definition assertApplicationUsable :: "portal_db \<Rightarrow> string \<Rightarrow> string \<Rightarrow> nexus_error + unit" where
  "assertApplicationUsable db owner applicationId =
     (case applications_findById db applicationId of
        None \<Rightarrow> Inl (notFound ''Application'' (Some applicationId))
      | Some application \<Rightarrow>
          if ap_owner_user_id application \<noteq> owner then Inl (notFound ''Application'' (Some applicationId))
          else if ap_status application \<noteq> App_Active
          then Inl (conflict ''This application is disabled''
                 (Some (JObj [(''application_id'', JStr applicationId)])))
          else Inr ())"

definition ensureConsumer :: "string \<Rightarrow> user \<Rightarrow> string option \<Rightarrow> consumer io" where
  "ensureConsumer namespace user applicationId =
     (let username = (case applicationId of
            None \<Rightarrow> consumerUsernameForUser (u_id user)
          | Some app \<Rightarrow> consumerUsernameForApplication app)
      in io_lock (canonicalConsumerLockKey namespace username)
        (io_bind (case applicationId of
              None \<Rightarrow> io_return ()
            | Some app \<Rightarrow> io_bind (io_read (\<lambda>db. assertApplicationUsable db (u_id user) app)) io_result)
         (\<lambda>_. io_bind (io_read (\<lambda>db. consumers_findByUser db (u_id user) applicationId))
         (\<lambda>cached. case cached of
              Some c \<Rightarrow> io_return c
            | None \<Rightarrow> io_bind edge_ensure
                (\<lambda>consumerId. io_tx (consumers_create
                   \<lparr>co_user_id = u_id user, co_application_id = applicationId,
                    co_ferrum_consumer_id = consumerId\<rparr>))))))"

subsection \<open>mutateAclGroups\<close>

record mutate_options =
  mo_skipUnchanged :: bool
  mo_requireActiveUser :: "string option"
  mo_skipInactiveUser :: bool
  mo_absentIsDone :: bool

definition no_options :: mutate_options where
  "no_options = \<lparr>mo_skipUnchanged = False, mo_requireActiveUser = None, mo_skipInactiveUser = False,
     mo_absentIsDone = False\<rparr>"

text \<open>What it resolves to: \<open>null\<close>, the row as it was, or the row as written, with what \<open>afterWrite\<close> did.\<close>

datatype 'a mutation = No_Write | Same_Groups | Written "'a option"

text \<open>Before the guard: the account check (\<open>None\<close> when an inactive account is skipped) and the
  verification read.\<close>

definition mutate_admit :: "string \<Rightarrow> mutate_options \<Rightarrow> string list option option io" where
  "mutate_admit consumerId options =
     io_bind (case mo_requireActiveUser options of
          None \<Rightarrow> io_return True
        | Some required \<Rightarrow>
            io_bind (io_read (\<lambda>db. users_findById db required))
              (\<lambda>owner. if (case owner of None \<Rightarrow> False | Some u \<Rightarrow> u_status u = User_Active) then io_return True
                       else if mo_skipInactiveUser options then io_return False
                       else io_throw (plain (userDisabled
                         ''This account has been disabled; its gateway access cannot be extended''))))
     (\<lambda>go. if go then io_bind (edge_verification consumerId) (\<lambda>snapshot. io_return (Some snapshot))
           else io_return None)"

definition mutate_write ::
  "string \<Rightarrow> (string list \<Rightarrow> string list) \<Rightarrow> mutate_options \<Rightarrow> 'a io option \<Rightarrow> string list option \<Rightarrow> 'a mutation io"
where
  "mutate_write consumerId change options afterWrite snapshot =
     (case snapshot of
        None \<Rightarrow> if mo_absentIsDone options then io_return No_Write
                else io_throw (plain (edgeError ''The gateway consumer for this account no longer exists''
                       (Some (JObj [(''consumer_id'', JStr consumerId)]))))
      | Some current \<Rightarrow>
          (let groups = change current in
           if mo_skipUnchanged options \<and> afterWrite = None \<and> groups = current
           then io_bind (edge_verification consumerId) (\<lambda>_. io_return Same_Groups)
           else io_bind (edge_replace consumerId groups)
                  (\<lambda>_. case afterWrite of
                        None \<Rightarrow> io_return (Written None)
                      | Some after \<Rightarrow> io_bind after (\<lambda>v. io_return (Written (Some v))))))"

text \<open>The section under the consumer's key: admission, guard, write. A failure is a value, beside what
  the guard noted.\<close>

definition mutate_guarded ::
  "string \<Rightarrow> ('g \<Rightarrow> string list \<Rightarrow> string list) \<Rightarrow> mutate_options \<Rightarrow> 'a io option \<Rightarrow> string list option
    \<Rightarrow> failure + ('g \<times> bool) \<Rightarrow> ('g option \<times> (failure + 'a mutation)) io" where
  "mutate_guarded consumerId change options afterWrite snapshot answer =
     (case answer of
        Inl f \<Rightarrow> io_return (None, Inl f)
      | Inr (seen, ok) \<Rightarrow>
          if \<not> ok then io_return (Some seen, Inr No_Write)
          else io_bind (io_try (mutate_write consumerId (change seen) options afterWrite snapshot))
                 (\<lambda>r. io_return (Some seen, r)))"

definition mutate_section ::
  "string \<Rightarrow> ('g \<Rightarrow> string list \<Rightarrow> string list) \<Rightarrow> mutate_options \<Rightarrow> ('g \<times> bool) io \<Rightarrow> 'a io option
    \<Rightarrow> ('g option \<times> (failure + 'a mutation)) io" where
  "mutate_section consumerId change options guardian afterWrite =
     io_bind (io_try (mutate_admit consumerId options))
       (\<lambda>admitted. case admitted of
           Inl f \<Rightarrow> io_return (None, Inl f)
         | Inr None \<Rightarrow> io_return (None, Inr No_Write)
         | Inr (Some snapshot) \<Rightarrow>
             io_bind (io_try guardian) (mutate_guarded consumerId change options afterWrite snapshot))"

definition mutateAclGroups ::
  "string \<Rightarrow> ('g \<Rightarrow> string list \<Rightarrow> string list) \<Rightarrow> mutate_options \<Rightarrow> ('g \<times> bool) io \<Rightarrow> 'a io option
    \<Rightarrow> ('g option \<times> (failure + 'a mutation)) io" where
  "mutateAclGroups consumerId change options guardian afterWrite =
     io_bind (io_try (io_lock consumerId (mutate_section consumerId change options guardian afterWrite)))
       (\<lambda>r. case r of Inl f \<Rightarrow> io_return (None, Inl f) | Inr x \<Rightarrow> io_return x)"

subsection \<open>Triples\<close>

lemma find_append_last:
  "List.find P (xs @ [x]) = (case List.find P xs of Some y \<Rightarrow> Some y | None \<Rightarrow> if P x then Some x else None)"
  by (induction xs) auto

lemma consumers_create_Inr:
  assumes "consumers_create c db = Inr (a, db')"
  shows "a = c" "db' = db\<lparr>db_consumers := db_consumers db @ [c]\<rparr>"
    "consumers_findByUser db' (co_user_id c) (co_application_id c) = Some c"
proof -
  have u: "consumers_unique (db_consumers db @ [c])"
    and eq: "a = c" "db' = db\<lparr>db_consumers := db_consumers db @ [c]\<rparr>"
    using assms by (auto simp: consumers_create_def mapConflict_rbind_Inr)
  then show "a = c" "db' = db\<lparr>db_consumers := db_consumers db @ [c]\<rparr>" by auto
  have "\<forall>x\<in>set (db_consumers db). \<not> (co_user_id x = co_user_id c \<and> co_application_id x = co_application_id c)"
  proof clarify
    fix x
    assume x: "x \<in> set (db_consumers db)" "co_user_id x = co_user_id c" "co_application_id x = co_application_id c"
    have "(co_user_id c, coalesce (co_application_id c)) \<notin>
        set (map (\<lambda>c. (co_user_id c, coalesce (co_application_id c))) (db_consumers db))"
      using u by (simp add: consumers_unique_def)
    moreover have "(co_user_id c, coalesce (co_application_id c)) \<in>
        set (map (\<lambda>c. (co_user_id c, coalesce (co_application_id c))) (db_consumers db))"
      using x by (metis (no_types, lifting) image_eqI list.set_map)
    ultimately show False by blast
  qed
  then have "List.find (\<lambda>x. co_user_id x = co_user_id c \<and> co_application_id x = co_application_id c)
      (db_consumers db) = None" by (simp add: find_None_iff)
  then show "consumers_findByUser db' (co_user_id c) (co_application_id c) = Some c"
    unfolding eq consumers_findByUser_def by (simp add: find_append_last)
qed

lemma hoare_ensureConsumer:
  assumes st: "stable env P" and err: "\<And>w f. P w \<Longrightarrow> E f w"
    and created: "\<And>w c db'. P w \<Longrightarrow> consumers_create c (w_db w) = Inr (c, db') \<Longrightarrow> P (w\<lparr>w_db := db'\<rparr>)"
  shows "hoare env P (ensureConsumer ns user app)
    (\<lambda>c w. P w \<and> consumers_findByUser (w_db w) (u_id user) app = Some c) E"
  unfolding ensureConsumer_def Let_def
proof (rule hoare_lock [OF st err], assumption,
    rule hoare_bind [where R = "\<lambda>_. P"])
  show "hoare env P (case app of None \<Rightarrow> io_return ()
      | Some app \<Rightarrow> io_bind (io_read (\<lambda>db. assertApplicationUsable db (u_id user) app)) io_result) (\<lambda>_. P) E"
    using st err by (cases app) (auto intro!: hoare_return hoare_bind [where R = "\<lambda>_. P"] hoare_read hoare_result)
  let ?Q = "\<lambda>c w. P w \<and> consumers_findByUser (w_db w) (u_id user) app = Some c"
  let ?R = "\<lambda>cached w. P w \<and> (cached = None \<or> consumers_findByUser (w_db w) (u_id user) app = cached)"
  have tx: "hoare env P (io_tx (consumers_create \<lparr>co_user_id = u_id user, co_application_id = app,
      co_ferrum_consumer_id = i\<rparr>)) ?Q E" for i
  proof (rule hoare_tx [OF st])
    fix w a db'
    assume "P w" and c: "consumers_create \<lparr>co_user_id = u_id user, co_application_id = app,
        co_ferrum_consumer_id = i\<rparr> (w_db w) = Inr (a, db')"
    then have "P (w\<lparr>w_db := db'\<rparr>)" using created consumers_create_Inr(1) [OF c] by blast
    moreover have "consumers_findByUser db' (u_id user) app = Some a"
      using consumers_create_Inr(1,3) [OF c] by simp
    ultimately show "?Q a (w\<lparr>w_db := db'\<rparr>) \<and> (\<forall>f. E f (w\<lparr>w_db := db'\<rparr>))" using err by simp
  qed (rule err)
  show "hoare env P (io_bind (io_read (\<lambda>db. consumers_findByUser db (u_id user) app))
      (\<lambda>cached. case cached of Some c \<Rightarrow> io_return c | None \<Rightarrow> io_bind edge_ensure
         (\<lambda>i. io_tx (consumers_create \<lparr>co_user_id = u_id user, co_application_id = app,
            co_ferrum_consumer_id = i\<rparr>)))) ?Q E" for u
  proof (rule hoare_bind [where R = ?R])
    show "hoare env P (io_read (\<lambda>db. consumers_findByUser db (u_id user) app)) ?R E"
      by (rule hoare_read [OF st err]) auto
    fix cached
    show "hoare env (?R cached) (case cached of Some c \<Rightarrow> io_return c | None \<Rightarrow> io_bind edge_ensure
         (\<lambda>i. io_tx (consumers_create \<lparr>co_user_id = u_id user, co_application_id = app,
            co_ferrum_consumer_id = i\<rparr>))) ?Q E"
    proof (cases cached)
      case None
      then show ?thesis
        using st err tx by (auto intro!: hoare_bind [where R = "\<lambda>_. P"] hoare_ensure)
    qed (auto intro!: hoare_return)
  qed
qed

lemma hoare_mutate_admit:
  assumes "stable env P" "\<And>w f. P w \<Longrightarrow> E f w"
  shows "hoare env P (mutate_admit c options) (\<lambda>r w. P w \<and> (r = None \<longrightarrow> mo_skipInactiveUser options) \<and>
    (r = Some None \<longrightarrow> (\<exists>n. e_get env n c = Inr None))) E"
  unfolding mutate_admit_def
proof (rule hoare_bind [where R = "\<lambda>go w. P w \<and> (\<not> go \<longrightarrow> mo_skipInactiveUser options)"])
  show "hoare env P (case mo_requireActiveUser options of None \<Rightarrow> io_return True
      | Some required \<Rightarrow> io_bind (io_read (\<lambda>db. users_findById db required))
          (\<lambda>owner. if (case owner of None \<Rightarrow> False | Some u \<Rightarrow> u_status u = User_Active) then io_return True
             else if mo_skipInactiveUser options then io_return False
             else io_throw (plain (userDisabled
               ''This account has been disabled; its gateway access cannot be extended''))))
      (\<lambda>go w. P w \<and> (\<not> go \<longrightarrow> mo_skipInactiveUser options)) E"
    using assms by (cases "mo_requireActiveUser options")
      (auto intro!: hoare_return hoare_bind [where R = "\<lambda>_. P"] hoare_read hoare_if hoare_throw)
  show "hoare env (\<lambda>w. P w \<and> (\<not> go \<longrightarrow> mo_skipInactiveUser options))
      (if go then io_bind (edge_verification c) (\<lambda>snapshot. io_return (Some snapshot)) else io_return None)
      (\<lambda>r w. P w \<and> (r = None \<longrightarrow> mo_skipInactiveUser options) \<and> (r = Some None \<longrightarrow> (\<exists>n. e_get env n c = Inr None))) E" for go
  proof (cases go)
    case True
    have "hoare env P (edge_verification c) (\<lambda>snapshot w. P w \<and> (snapshot = None \<longrightarrow> (\<exists>n. e_get env n c = Inr None))) E"
      using assms by (auto simp: hoare_def edge_verification_def stable_def split: sum.splits)
    then show ?thesis using True by (auto intro!: hoare_return hoare_bind)
  qed (auto intro!: hoare_return)
qed

lemma hoare_mutate_write:
  assumes st: "stable env P"
    and absent: "\<And>w. P w \<Longrightarrow> mo_absentIsDone options \<Longrightarrow> snapshot = None \<Longrightarrow> Q No_Write w"
    and failed: "\<And>w f. P w \<Longrightarrow> E f w"
    and same: "\<And>w. P w \<Longrightarrow> mo_skipUnchanged options \<Longrightarrow> Q Same_Groups w"
    and unacked: "\<And>w cur f n. P w \<Longrightarrow> e_put env n = Some f \<Longrightarrow> E f
        (w\<lparr>w_puts := w_puts w @ [\<lparr>pt_consumer = c, pt_groups = change cur, pt_acked = False\<rparr>]\<rparr>)"
    and acked: "\<And>w cur. P w \<Longrightarrow>
        A (w\<lparr>w_puts := w_puts w @ [\<lparr>pt_consumer = c, pt_groups = change cur, pt_acked = True\<rparr>]\<rparr>)"
    and after: "case afterWrite of None \<Rightarrow> \<forall>w. A w \<longrightarrow> Q (Written None) w
        | Some m \<Rightarrow> hoare env A m (\<lambda>v. Q (Written (Some v))) E"
  shows "hoare env P (mutate_write c change options afterWrite snapshot) Q E"
proof (cases snapshot)
  case None
  then show ?thesis
    unfolding mutate_write_def using absent failed by (auto intro!: hoare_return hoare_throw)
next
  case (Some cur)
  have "hoare env P (edge_replace c (change cur)) (\<lambda>_. A) E"
    by (rule hoare_replace [OF st]) (use acked unacked in auto)
  moreover have "hoare env A (case afterWrite of None \<Rightarrow> io_return (Written None)
      | Some m \<Rightarrow> io_bind m (\<lambda>v. io_return (Written (Some v)))) Q E"
    using after by (cases afterWrite) (auto intro!: hoare_return hoare_bind)
  ultimately have "hoare env P (io_bind (edge_replace c (change cur))
      (\<lambda>_. case afterWrite of None \<Rightarrow> io_return (Written None)
         | Some m \<Rightarrow> io_bind m (\<lambda>v. io_return (Written (Some v))))) Q E"
    by (rule hoare_bind)
  moreover have "hoare env P (io_bind (edge_verification c) (\<lambda>_. io_return Same_Groups)) Q E"
    if "mo_skipUnchanged options"
    using that same failed by (auto intro!: hoare_bind [where R = "\<lambda>_. P"] hoare_verification hoare_return st)
  ultimately show ?thesis unfolding mutate_write_def Some option.case Let_def
    by (auto intro!: hoare_if)
qed

text \<open>
  The rule for \<open>mutateAclGroups\<close>. \<open>G\<close> says what the guard's answer established. The write is sent only
  behind a guard that answered yes, and \<open>afterWrite\<close> runs only behind an acknowledged write.
\<close>

lemma hoare_mutateAclGroups:
  assumes st: "stable env P" and stG: "\<And>g. stable env (G g True)"
    and guard: "hoare env P guardian (\<lambda>(g, ok). G g ok) (\<lambda>f. P)"
    and before: "\<And>w f. P w \<Longrightarrow> Q (None, Inl f) w"
    and skipped: "\<And>w. P w \<Longrightarrow> mo_skipInactiveUser options \<Longrightarrow> Q (None, Inr No_Write) w"
    and no: "\<And>g w. G g False w \<Longrightarrow> Q (Some g, Inr No_Write) w"
    and absent: "\<And>g w n. G g True w \<Longrightarrow> mo_absentIsDone options \<Longrightarrow> e_get env n c = Inr None \<Longrightarrow> Q (Some g, Inr No_Write) w"
    and failed: "\<And>g w f. G g True w \<Longrightarrow> Q (Some g, Inl f) w"
    and same: "\<And>g w. G g True w \<Longrightarrow> mo_skipUnchanged options \<Longrightarrow> Q (Some g, Inr Same_Groups) w"
    and unacked: "\<And>g w cur f n. G g True w \<Longrightarrow> e_put env n = Some f \<Longrightarrow> Q (Some g, Inl f)
        (w\<lparr>w_puts := w_puts w @ [\<lparr>pt_consumer = c, pt_groups = change g cur, pt_acked = False\<rparr>]\<rparr>)"
    and acked: "\<And>g w cur. G g True w \<Longrightarrow>
        A g (w\<lparr>w_puts := w_puts w @ [\<lparr>pt_consumer = c, pt_groups = change g cur, pt_acked = True\<rparr>]\<rparr>)"
    and after: "\<And>g. (case afterWrite of
          None \<Rightarrow> \<forall>w. A g w \<longrightarrow> Q (Some g, Inr (Written None)) w
        | Some m \<Rightarrow> hoare env (A g) m (\<lambda>v. Q (Some g, Inr (Written (Some v)))) (\<lambda>f. Q (Some g, Inl f)))"
  shows "hoare env P (mutateAclGroups c change options guardian afterWrite) Q E"
proof -
  let ?E = "\<lambda>f. Q (None, Inl f)"
  let ?a = "\<lambda>a w. case a of Inl f \<Rightarrow> P w | Inr (g, ok) \<Rightarrow> G g ok w"
  have w: "hoare env (G g True) (io_try (mutate_write c (change g) options afterWrite snapshot))
      (\<lambda>r. Q (Some g, r)) ?E" if "snapshot = None \<Longrightarrow> \<exists>n. e_get env n c = Inr None" for g snapshot
    by (rule hoare_try, rule hoare_mutate_write [OF stG, where A = "A g"])
       (use absent failed same unacked acked after that in auto)
  have body: "hoare env (?a a) (mutate_guarded c change options afterWrite snapshot a) Q ?E"
    if "snapshot = None \<Longrightarrow> \<exists>n. e_get env n c = Inr None" for a snapshot
    unfolding mutate_guarded_def using before no that
    by (auto intro!: hoare_return hoare_bind [OF w] split: sum.splits prod.splits if_splits)
  have g: "hoare env P (io_try guardian) ?a ?E"
    by (rule hoare_try, rule hoare_weaken [OF guard]) auto
  have "hoare env P (mutate_section c change options guardian afterWrite) Q ?E"
    unfolding mutate_section_def
  proof (rule hoare_bind [where R = "\<lambda>r w. P w \<and> (r = Inr None \<longrightarrow> mo_skipInactiveUser options) \<and>
      (r = Inr (Some None) \<longrightarrow> (\<exists>n. e_get env n c = Inr None))"])
    show "hoare env P (io_try (mutate_admit c options))
        (\<lambda>r w. P w \<and> (r = Inr None \<longrightarrow> mo_skipInactiveUser options) \<and> (r = Inr (Some None) \<longrightarrow> (\<exists>n. e_get env n c = Inr None))) ?E"
      by (rule hoare_try, rule hoare_weaken [OF hoare_mutate_admit [OF st, where E = "\<lambda>_. P"]]) auto
    have "hoare env (\<lambda>w. P w \<and> (snapshot = None \<longrightarrow> (\<exists>n. e_get env n c = Inr None)))
        (io_bind (io_try guardian) (mutate_guarded c change options afterWrite snapshot)) Q ?E" for snapshot
      by (rule hoare_pure, rule hoare_bind [OF g], rule body) blast
    then show "hoare env (\<lambda>w. P w \<and> (a = Inr None \<longrightarrow> mo_skipInactiveUser options) \<and> (a = Inr (Some None) \<longrightarrow> (\<exists>n. e_get env n c = Inr None)))
        (case a of Inl f \<Rightarrow> io_return (None, Inl f) | Inr None \<Rightarrow> io_return (None, Inr No_Write)
         | Inr (Some snapshot) \<Rightarrow> io_bind (io_try guardian) (mutate_guarded c change options afterWrite snapshot)) Q ?E" for a
      using before skipped by (auto intro!: hoare_return split: sum.splits option.splits)
  qed
  then have "hoare env P (io_lock c (mutate_section c change options guardian afterWrite)) Q ?E"
    by (rule hoare_lock [OF st, rotated]) (rule before)
  from hoare_try [where Q = "\<lambda>r. case r of Inl f \<Rightarrow> Q (None, Inl f) | Inr x \<Rightarrow> Q x", of env P, simplified sum.case, OF this]
  show ?thesis unfolding mutateAclGroups_def
    by (rule hoare_bind) (auto intro!: hoare_return split: sum.splits)
qed

end
