(* ===== verification/Access.thy ===== *)
theory Access
  imports Consumers Read_Access
begin

section \<open>Access decisions\<close>

text \<open>
  Models the rules and the transactions of the access service
  (\<open>server/src/access/service.ts\<close>): who may decide, what a request may ask for, the rolling daily
  budget, and every transaction that moves a request, a grant or a durable gateway job. The
  handlers that put them together with the gateway are in the theories on approvals, revocations
  and recovery. The clock is read once per transaction; the details of an audit row, notices and
  mail are not modelled, nor is the decoration of a returned row with its API and accounts.
\<close>

definition MAX_JUSTIFICATION_LENGTH :: nat where "MAX_JUSTIFICATION_LENGTH = 2000"
definition MAX_AGENT_TOOLS :: nat where "MAX_AGENT_TOOLS = 256"
definition ACCESS_REQUEST_BUDGET_WINDOW_MS :: int where
  "ACCESS_REQUEST_BUDGET_WINDOW_MS = 24 * 60 * 60 * 1000"
definition ACCESS_REQUEST_BUDGET_WINDOW_LABEL :: string where "ACCESS_REQUEST_BUDGET_WINDOW_LABEL = ''24h''"
definition INACTIVE_GRANT_NOTE :: string where
  "INACTIVE_GRANT_NOTE = ''The grant this request would extend is no longer active''"

fun request_status_name :: "request_status \<Rightarrow> string" where
  "request_status_name Rq_Pending = ''pending''"
| "request_status_name Rq_Approved = ''approved''"
| "request_status_name Rq_Denied = ''denied''"
| "request_status_name Rq_Revoked = ''revoked''"
| "request_status_name Rq_Cancelled = ''cancelled''"

fun grant_status_name :: "grant_status \<Rightarrow> string" where
  "grant_status_name Gr_Active = ''active''"
| "grant_status_name Gr_Revoked = ''revoked''"

text \<open>A nullable string in a condition: \<open>null\<close> and the empty string are false.\<close>

definition truthy :: "string option \<Rightarrow> bool" where
  "truthy v = (case v of None \<Rightarrow> False | Some s \<Rightarrow> s \<noteq> [])"

subsection \<open>Transaction bodies\<close>

definition tx_return :: "'a \<Rightarrow> 'a tx" where "tx_return a db = Inr (a, db)"

definition tx_throw :: "nexus_error \<Rightarrow> 'a tx" where "tx_throw e db = Inl e"

definition tx_bind :: "'a tx \<Rightarrow> ('a \<Rightarrow> 'b tx) \<Rightarrow> 'b tx" where
  "tx_bind m k db = rbind (m db) (\<lambda>(a, db'). k a db')"

definition tx_read :: "(portal_db \<Rightarrow> 'a) \<Rightarrow> 'a tx" where "tx_read f db = Inr (f db, db)"

definition tx_of :: "(portal_db \<Rightarrow> 'a \<times> portal_db) \<Rightarrow> 'a tx" where "tx_of f db = Inr (f db)"

definition tx_audit :: "string option \<Rightarrow> audit_action \<Rightarrow> string \<Rightarrow> int \<Rightarrow> unit tx" where
  "tx_audit actor action target now db = Inr ((), auditLogs_create None actor action target now db)"

definition tx_audit_as :: "string \<Rightarrow> string option \<Rightarrow> audit_action \<Rightarrow> string \<Rightarrow> int \<Rightarrow> unit tx" where
  "tx_audit_as minted actor action target now db = Inr ((), auditLogs_create (Some minted) actor action target now db)"

lemma tx_simps [result_simps]:
  "tx_return a db = Inr (a', db') \<longleftrightarrow> a' = a \<and> db' = db"
  "tx_throw e db = Inr x \<longleftrightarrow> False"
  "tx_bind m k db = Inr (b, db') \<longleftrightarrow> (\<exists>c db1. m db = Inr (c, db1) \<and> k c db1 = Inr (b, db'))"
  "tx_read f db = Inr (d, db') \<longleftrightarrow> d = f db \<and> db' = db"
  "tx_of g db = Inr (v, db') \<longleftrightarrow> (v, db') = g db"
  "tx_audit actor action target now db = Inr (u, db') \<longleftrightarrow> db' = auditLogs_create None actor action target now db"
  "tx_audit_as minted actor action target now db = Inr (u, db') \<longleftrightarrow>
     db' = auditLogs_create (Some minted) actor action target now db"
  by (auto simp: tx_return_def tx_throw_def tx_bind_def tx_read_def tx_of_def tx_audit_def tx_audit_as_def rbind_eq_Inr)

subsection \<open>Rules\<close>

definition assertCanReview :: "user \<Rightarrow> api \<Rightarrow> nexus_error + unit" where
  "assertCanReview actor api =
     (if a_owner_user_id api = u_id actor \<and> roleAtLeast (u_role actor) Provider then Inr ()
      else if roleAtLeast (u_role actor) Admin then Inr ()
      else Inl (forbidden ''Only an API owner with the provider role or an admin can decide this request''))"

definition loadRequest :: "string \<Rightarrow> (access_request \<times> api \<times> user) io" where
  "loadRequest requestId =
     io_bind (io_read (\<lambda>db. accessRequests_findById db requestId)) (\<lambda>r. case r of
       None \<Rightarrow> io_throw (plain (notFound ''Access request'' (Some requestId)))
     | Some req \<Rightarrow> io_bind (io_read (\<lambda>db. apis_findById db (rq_api_id req))) (\<lambda>a. case a of
         None \<Rightarrow> io_throw (plain (notFound ''API'' (Some (rq_api_id req))))
       | Some api \<Rightarrow> io_bind (io_read (\<lambda>db. users_findById db (rq_user_id req))) (\<lambda>u. case u of
           None \<Rightarrow> io_throw (plain (notFound ''Requester'' (Some (rq_user_id req))))
         | Some requester \<Rightarrow> io_return (req, api, requester))))"

definition published_tools :: "api \<Rightarrow> string option list" where
  "published_tools api = (case a_agents api of None \<Rightarrow> [] | Some ops \<Rightarrow> ops)"

definition validateToolSubset :: "api \<Rightarrow> string list option \<Rightarrow> nexus_error + unit" where
  "validateToolSubset api tools =
     (case tools of
        None \<Rightarrow> Inr ()
      | Some ids \<Rightarrow>
          if list_ex (\<lambda>t. \<not> truthy t) (published_tools api)
          then Inl (conflict ''The provider must republish this phase-1 API before accepting tool subsets'' None)
          else if length ids > MAX_AGENT_TOOLS \<or> length (js_set ids) \<noteq> length ids \<or>
            list_ex (\<lambda>i. Some i \<notin> set (published_tools api)) ids
          then Inl (validationFailed ''Tool subsets must contain unique currently published exposure IDs'' None)
          else Inr ())"

definition checkedJustification :: "string \<Rightarrow> nexus_error + string" where
  "checkedJustification justification =
     (let trimmed = js_trim justification in
      if trimmed = [] then Inl (validationFailed ''A justification is required'' None)
      else if length trimmed > MAX_JUSTIFICATION_LENGTH
      then Inl (validationFailed (''A justification may be at most '' @ show_nat MAX_JUSTIFICATION_LENGTH @
             '' characters'') None)
      else Inr trimmed)"

definition assertApplicationActive :: "portal_db \<Rightarrow> string \<Rightarrow> string \<Rightarrow> nexus_error + unit" where
  "assertApplicationActive db applicationId ownerUserId = assertApplicationUsable db ownerUserId applicationId"

definition assertCanWithdraw :: "user \<Rightarrow> grant \<Rightarrow> bool \<Rightarrow> nexus_error + unit" where
  "assertCanWithdraw actor g relinquish =
     (if relinquish \<and> gr_user_id g \<noteq> u_id actor then Inl (notFound ''Grant'' (Some (gr_id g))) else Inr ())"

definition supersededApproval :: nexus_error where
  "supersededApproval =
     conflict ''This approval took too long and was handed to recovery; reload the request and retry'' None"

definition inactiveGrant :: nexus_error where
  "inactiveGrant = conflict ''The grant this request would extend is no longer active'' None"

definition decisionConflict :: "portal_db \<Rightarrow> string \<Rightarrow> nexus_error" where
  "decisionConflict db requestId = (case accessRequests_findById db requestId of
      None \<Rightarrow> notFound ''Access request'' (Some requestId)
    | Some r \<Rightarrow> conflict (''This request is already '' @ request_status_name (rq_status r)) None)"

definition revocationConflict :: "portal_db \<Rightarrow> string \<Rightarrow> nexus_error" where
  "revocationConflict db grantId = (case grants_findById db grantId of
      None \<Rightarrow> notFound ''Grant'' (Some grantId)
    | Some g \<Rightarrow> conflict (''This grant is already '' @ grant_status_name (gr_status g)) None)"

subsection \<open>The daily budget\<close>

definition budget_used :: "portal_db \<Rightarrow> string \<Rightarrow> int \<Rightarrow> nat" where
  "budget_used db requesterUserId since =
     auditLogs_count db requesterUserId ACCESS_REQUEST since +
     auditLogs_count db requesterUserId ACCESS_TOOLS_REQUEST since"

text \<open>\<open>limit\<close> is \<open>config.maxAccessRequestsPerUserPerDay\<close>, zero or less when there is no budget.\<close>

definition assertWithinBudget :: "int \<Rightarrow> string \<Rightarrow> int \<Rightarrow> unit tx" where
  "assertWithinBudget limit requesterUserId now db =
     (if limit \<le> 0 then Inr ((), db)
      else if int (budget_used db requesterUserId (now - ACCESS_REQUEST_BUDGET_WINDOW_MS)) < limit then Inr ((), db)
      else Inl (mk_error QUOTA_EXCEEDED
        (''You have reached the limit of '' @ show_nat (nat limit) @ '' access requests per '' @
         ACCESS_REQUEST_BUDGET_WINDOW_LABEL @
         ''. Wait for the oldest of them to age out, or ask an administrator to raise the limit.'')
        (Some (JObj [(''limit'', JNum (of_int limit)), (''window'', JStr ACCESS_REQUEST_BUDGET_WINDOW_LABEL),
           (''setting'', JStr ''NEXUS_MAX_ACCESS_REQUESTS_PER_USER_PER_DAY'')]))))"

definition spendBudget :: "int \<Rightarrow> string \<Rightarrow> 'a io \<Rightarrow> 'a io" where
  "spendBudget limit requesterUserId write =
     (if limit \<le> 0 then write else io_lock (accessRequestBudgetLockKey requesterUserId) write)"

subsection \<open>Requests\<close>

definition new_request ::
  "string \<Rightarrow> string \<Rightarrow> string \<Rightarrow> string option \<Rightarrow> string \<Rightarrow> string list option \<Rightarrow> string option \<Rightarrow> int \<Rightarrow> access_request"
where
  "new_request newId apiId userId applicationId justification tools grantId now =
     \<lparr>rq_id = newId, rq_api_id = apiId, rq_user_id = userId, rq_application_id = applicationId,
      rq_justification = justification, rq_status = Rq_Pending, rq_decided_by = None, rq_decided_at = None,
      rq_decision_note = None, rq_requested_tools = tools, rq_approved_tools = None, rq_grant_id = grantId,
      rq_created_at = now, rq_updated_at = now\<rparr>"

text \<open>The transaction of \<open>request\<close>: the budget, a stale tool request that holds the identity's pending
  slot, the insert and its charge.\<close>

definition request_tx ::
  "int \<Rightarrow> user \<Rightarrow> api \<Rightarrow> string option \<Rightarrow> string \<Rightarrow> string list option \<Rightarrow> string \<Rightarrow> int \<Rightarrow> access_request tx"
where
  "request_tx limit user api applicationId justification tools newId now =
     tx_bind (assertWithinBudget limit (u_id user) now) (\<lambda>_.
     tx_bind (tx_read (\<lambda>db. accessRequests_findPendingByApiAndUser db (a_id api) (u_id user) applicationId)) (\<lambda>pending.
     tx_bind (case pending of
         None \<Rightarrow> tx_return ()
       | Some p \<Rightarrow>
           tx_bind (tx_read (\<lambda>db. rq_grant_id p \<noteq> None \<and>
               (case (if truthy (rq_grant_id p) then grants_findById db (the (rq_grant_id p)) else None) of
                  None \<Rightarrow> True | Some g \<Rightarrow> gr_status g \<noteq> Gr_Active))) (\<lambda>stale.
           tx_bind (if stale then accessRequests_updateIfStatus now (rq_id p) Rq_Pending
                      (no_request_patch\<lparr>pq_status := Some Rq_Cancelled, pq_decided_by := Some (Some (u_id user)),
                         pq_decided_at := Some (Some now), pq_decision_note := Some (Some INACTIVE_GRANT_NOTE)\<rparr>)
                    else tx_return None) (\<lambda>closed. case closed of
              None \<Rightarrow> tx_throw (conflict PENDING_CONFLICT None)
            | Some r \<Rightarrow> tx_audit (Some (u_id user)) ACCESS_CANCEL (rq_id p) now))) (\<lambda>_.
     tx_bind (accessRequests_create (new_request newId (a_id api) (u_id user) applicationId justification tools None now)) (\<lambda>inserted.
     tx_bind (tx_audit (Some (u_id user)) ACCESS_REQUEST (rq_id inserted) now) (\<lambda>_.
     tx_return inserted)))))"

definition ALREADY_OWN :: string where "ALREADY_OWN = ''You already own this API''"
definition RETIRED_REQUESTS :: string where
  "RETIRED_REQUESTS = ''This API is retired and is no longer accepting access requests''"
definition NOT_REQUESTABLE :: string where "NOT_REQUESTABLE = ''This API does not accept access requests''"
definition CHANGED_WAITING :: string where
  "CHANGED_WAITING = ''This API changed while the request was waiting; reload and retry''"

text \<open>The reading rule of a private API, by its reads: an account's own grant, a grant through any of
  its identities, the viewer's authorization.\<close>

definition may_view :: "portal_db \<Rightarrow> user \<Rightarrow> api \<Rightarrow> bool" where
  "may_view db user api \<longleftrightarrow> canViewApi user api (resolveReadAccess db (u_id user) (a_id api))"

definition admit_api :: "user \<Rightarrow> api \<Rightarrow> nexus_error \<Rightarrow> api io" where
  "admit_api user api hidden =
     io_bind (io_read (\<lambda>db. apis_findById db (a_id api))) (\<lambda>fresh. case fresh of
       None \<Rightarrow> io_throw (plain (conflict CHANGED_WAITING None))
     | Some fresh \<Rightarrow>
         if a_ferrum_proxy_id fresh \<noteq> a_ferrum_proxy_id api \<or> a_status fresh \<noteq> Published \<or> \<not> a_requestable fresh
         then io_throw (plain (conflict CHANGED_WAITING None))
         else if a_visibility fresh = Vis_Private
         then io_bind (io_read (\<lambda>db. may_view db user fresh)) (\<lambda>ok.
                if ok then io_return fresh else io_throw (plain hidden))
         else io_return fresh)"

text \<open>The keys a request is admitted under: the API's proxy, then the application's name.\<close>

definition under_request_keys :: "string \<Rightarrow> api \<Rightarrow> string option \<Rightarrow> 'a io \<Rightarrow> 'a io" where
  "under_request_keys namespace api applicationId admit =
     (let submit = (case applicationId of
            None \<Rightarrow> admit
          | Some app \<Rightarrow> io_lock (canonicalConsumerLockKey namespace (consumerUsernameForApplication app)) admit)
      in if truthy (a_ferrum_proxy_id api) then io_lock (proxyLockKey (the (a_ferrum_proxy_id api))) submit
         else submit)"

definition assert_application :: "string option \<Rightarrow> string \<Rightarrow> unit io" where
  "assert_application applicationId owner = (case applicationId of
      None \<Rightarrow> io_return ()
    | Some app \<Rightarrow> io_bind (io_read (\<lambda>db. assertApplicationActive db app owner)) io_result)"

definition request_access ::
  "int \<Rightarrow> string \<Rightarrow> user \<Rightarrow> string \<Rightarrow> string \<Rightarrow> string option \<Rightarrow> string list option \<Rightarrow> access_request io"
where
  "request_access limit namespace user apiId justification applicationId requestedTools =
     io_bind (io_result (checkedJustification justification)) (\<lambda>trimmed.
     io_bind (io_read (\<lambda>db. apis_findById db apiId)) (\<lambda>found. case found of
       None \<Rightarrow> io_throw (plain (notFound ''API'' (Some apiId)))
     | Some api \<Rightarrow>
         io_bind (if a_visibility api = Vis_Private then io_read (\<lambda>db. may_view db user api) else io_return True) (\<lambda>seen.
         io_bind (io_guard seen (notFound ''API'' (Some apiId))) (\<lambda>_.
         io_bind (io_guard (a_owner_user_id api \<noteq> u_id user) (conflict ALREADY_OWN None)) (\<lambda>_.
         io_bind (io_guard (a_status api = Published) (conflict RETIRED_REQUESTS None)) (\<lambda>_.
         io_bind (io_guard (a_requestable api) (conflict NOT_REQUESTABLE None)) (\<lambda>_.
         io_bind (io_read (\<lambda>db. grants_findActiveByApiAndUser db (a_id api) (u_id user) applicationId)) (\<lambda>held.
         io_bind (io_guard (held = None) (conflict (if applicationId = None
             then ''You already have access to this API''
             else ''This application already has access to this API'') None)) (\<lambda>_.
         under_request_keys namespace api applicationId
           (io_bind (admit_api user api (notFound ''API'' (Some apiId))) (\<lambda>fresh.
            io_bind (io_result (validateToolSubset fresh requestedTools)) (\<lambda>_.
            io_bind (assert_application applicationId (u_id user)) (\<lambda>_.
            spendBudget limit (u_id user) (io_bind io_newId (\<lambda>newId. io_bind io_now (\<lambda>now.
               io_tx (request_tx limit user api applicationId trimmed requestedTools newId now)))))))))))))))))"

text \<open>The transaction of \<open>requestTools\<close>.\<close>

definition tools_request_tx ::
  "int \<Rightarrow> user \<Rightarrow> api \<Rightarrow> grant \<Rightarrow> string \<Rightarrow> string list \<Rightarrow> string \<Rightarrow> int \<Rightarrow> access_request tx" where
  "tools_request_tx limit user api g justification tools newId now =
     tx_bind (assertWithinBudget limit (u_id user) now) (\<lambda>_.
     tx_bind (tx_read (\<lambda>db. grants_findById db (gr_id g))) (\<lambda>live.
     if (case live of None \<Rightarrow> True | Some l \<Rightarrow> gr_status l \<noteq> Gr_Active) then tx_throw inactiveGrant
     else tx_bind (tx_read (\<lambda>db. accessRequests_findPendingByApiAndUser db (a_id api) (u_id user) (gr_application_id g))) (\<lambda>pending.
     if pending \<noteq> None then tx_throw (conflict PENDING_CONFLICT None)
     else tx_bind (accessRequests_create (new_request newId (a_id api) (u_id user) (gr_application_id g) justification
              (Some tools) (Some (gr_id g)) now)) (\<lambda>inserted.
     tx_bind (tx_audit (Some (u_id user)) ACCESS_TOOLS_REQUEST (rq_id inserted) now) (\<lambda>_.
     tx_return inserted)))))"

definition requestTools ::
  "int \<Rightarrow> string \<Rightarrow> user \<Rightarrow> string \<Rightarrow> string \<Rightarrow> string list \<Rightarrow> access_request io" where
  "requestTools limit namespace user grantId justification requestedTools =
     io_bind (io_result (checkedJustification justification)) (\<lambda>trimmed.
     io_bind (io_read (\<lambda>db. grants_findById db grantId)) (\<lambda>found. case found of
       None \<Rightarrow> io_throw (plain (notFound ''Grant'' (Some grantId)))
     | Some initial \<Rightarrow>
         io_bind (io_guard (gr_user_id initial = u_id user) (notFound ''Grant'' (Some grantId))) (\<lambda>_.
         io_bind (io_read (\<lambda>db. apis_findById db (gr_api_id initial))) (\<lambda>a. case a of
           None \<Rightarrow> io_throw (plain (notFound ''Grant'' (Some grantId)))
         | Some api \<Rightarrow>
         io_bind (io_guard (a_owner_user_id api \<noteq> u_id user) (conflict ALREADY_OWN None)) (\<lambda>_.
         io_bind (io_guard (gr_status initial = Gr_Active) inactiveGrant) (\<lambda>_.
         io_bind (io_guard (a_status api = Published) (conflict RETIRED_REQUESTS None)) (\<lambda>_.
         io_bind (io_guard (a_requestable api) (conflict NOT_REQUESTABLE None)) (\<lambda>_.
         io_bind (io_guard (gr_approved_tools initial \<noteq> None)
             (conflict ''This grant already covers every published tool'' None)) (\<lambda>_.
         io_bind (io_guard (requestedTools \<noteq> [])
             (validationFailed ''Request at least one tool the grant does not cover yet'' None)) (\<lambda>_.
         under_request_keys namespace api (gr_application_id initial)
           (io_bind (admit_api user api (notFound ''Grant'' (Some grantId))) (\<lambda>fresh.
            io_bind (io_guard (a_agents fresh \<noteq> None) (conflict ''This API does not expose agent tools'' None)) (\<lambda>_.
            io_bind (io_result (validateToolSubset fresh (Some requestedTools))) (\<lambda>_.
            io_bind (io_read (\<lambda>db. grants_findById db grantId)) (\<lambda>current. case current of
              None \<Rightarrow> io_throw (plain inactiveGrant)
            | Some g \<Rightarrow>
            io_bind (io_guard (gr_status g = Gr_Active \<and> gr_user_id g = u_id user) inactiveGrant) (\<lambda>_.
            case gr_approved_tools g of
              None \<Rightarrow> io_throw (plain (conflict ''This grant already covers every published tool'' None))
            | Some covered \<Rightarrow>
            io_bind (io_guard (\<not> list_ex (\<lambda>i. i \<in> set covered) requestedTools)
                (validationFailed ''Request only tools the grant does not cover yet'' None)) (\<lambda>_.
            io_bind (assert_application (gr_application_id g) (u_id user)) (\<lambda>_.
            spendBudget limit (u_id user) (io_bind io_newId (\<lambda>newId. io_bind io_now (\<lambda>now.
               io_tx (tools_request_tx limit user api g trimmed requestedTools newId now))))))))))))))))))))))"

subsection \<open>Cancelling and denying\<close>

definition decide_tx ::
  "access_request \<Rightarrow> string \<Rightarrow> request_patch \<Rightarrow> audit_action \<Rightarrow> int \<Rightarrow> access_request option tx" where
  "decide_tx req actorId patch action now =
     tx_bind (accessRequests_updateIfStatus now (rq_id req) Rq_Pending patch) (\<lambda>moved. case moved of
       None \<Rightarrow> tx_return None
     | Some r \<Rightarrow> tx_bind (tx_audit (Some actorId) action (rq_id req) now) (\<lambda>_. tx_return (Some r)))"

definition io_decision :: "access_request \<Rightarrow> access_request option \<Rightarrow> access_request io" where
  "io_decision req updated = (case updated of
      Some r \<Rightarrow> io_return r
    | None \<Rightarrow> io_bind (io_read (\<lambda>db. decisionConflict db (rq_id req))) (\<lambda>e. io_throw (plain e)))"

definition cancel_request :: "user \<Rightarrow> string \<Rightarrow> access_request io" where
  "cancel_request user requestId =
     io_bind (loadRequest requestId) (\<lambda>(req, api, requester).
     io_bind (io_guard (rq_user_id req = u_id user) (forbidden ''Only the requester can cancel this request'')) (\<lambda>_.
     io_bind (io_guard (rq_status req = Rq_Pending)
        (conflict (''This request is already '' @ request_status_name (rq_status req)) None)) (\<lambda>_.
     io_bind io_now (\<lambda>now.
     io_bind (io_tx (decide_tx req (u_id user)
        (no_request_patch\<lparr>pq_status := Some Rq_Cancelled, pq_decided_by := Some (Some (u_id user)),
           pq_decided_at := Some (Some now)\<rparr>) ACCESS_CANCEL now)) (io_decision req)))))"

definition deny :: "user \<Rightarrow> string \<Rightarrow> string option \<Rightarrow> access_request io" where
  "deny actor requestId note =
     io_bind (loadRequest requestId) (\<lambda>(req, api, requester).
     io_bind (io_result (assertCanReview actor api)) (\<lambda>_.
     io_bind (io_guard (rq_status req = Rq_Pending)
        (conflict (''This request is already '' @ request_status_name (rq_status req)) None)) (\<lambda>_.
     io_bind io_now (\<lambda>now.
     io_bind (io_tx (decide_tx req (u_id actor)
        (no_request_patch\<lparr>pq_status := Some Rq_Denied, pq_decided_by := Some (Some (u_id actor)),
           pq_decided_at := Some (Some now), pq_decision_note := Some note\<rparr>) ACCESS_DENY now)) (io_decision req)))))"

end
