(* ===== verification/Approval.thy ===== *)
theory Approval
  imports Access
begin

section \<open>Approvals\<close>

text \<open>
  Models the approval of a request (\<open>approve\<close>, \<open>approveTools\<close>) of \<open>server/src/access/service.ts\<close>,
  with everything it does when the gateway or the store fails under it: the claim that commits with
  a durable job, the guarded group write, the grant committed inside the consumer's key, the
  compensation, and the settlement of the job.
\<close>

subsection \<open>Durable jobs\<close>

definition stillOwned :: "job \<Rightarrow> bool io" where
  "stillOwned job = io_read (\<lambda>db. case accessGatewayJobs_findBySubject db (jb_subject_id job) of
      None \<Rightarrow> False | Some current \<Rightarrow> owns_row job current)"

definition settleOwnRequest ::
  "job \<Rightarrow> string \<Rightarrow> request_patch \<Rightarrow> int \<Rightarrow> (access_request option \<times> bool) tx" where
  "settleOwnRequest job requestId patch now =
     tx_bind (tx_read (\<lambda>db. accessGatewayJobs_findBySubject db (jb_subject_id job))) (\<lambda>current.
     if (case current of None \<Rightarrow> True | Some c \<Rightarrow> \<not> owns_row job c) then tx_return (None, True)
     else tx_bind (accessRequests_updateIfStatus now requestId Rq_Approved patch) (\<lambda>moved. tx_return (moved, False)))"

definition settleOwnedJob :: "job option \<Rightarrow> bool \<Rightarrow> string \<Rightarrow> unit io" where
  "settleOwnedJob job settled cause = (case job of
      None \<Rightarrow> io_return ()
    | Some j \<Rightarrow> io_bind (io_try (io_bind io_now (\<lambda>now. io_tx (tx_of (
        if settled then accessGatewayJobs_deleteClaimed j
        else accessGatewayJobs_reschedule j now cause now))))) (\<lambda>_. io_return ()))"

definition released :: request_patch where
  "released = no_request_patch\<lparr>pq_status := Some Rq_Pending, pq_decided_by := Some None, pq_decided_at := Some None,
     pq_decision_note := Some None, pq_approved_tools := Some None\<rparr>"

definition claim_tx ::
  "user \<Rightarrow> access_request \<Rightarrow> user \<Rightarrow> string list option \<Rightarrow> string option \<Rightarrow> string \<Rightarrow> string \<Rightarrow> int
    \<Rightarrow> (access_request \<times> job) option tx" where
  "claim_tx actor req requester tools note newId generation decidedAt =
     tx_bind (accessRequests_updateIfStatus decidedAt (rq_id req) Rq_Pending
        (no_request_patch\<lparr>pq_status := Some Rq_Approved, pq_approved_tools := Some tools,
           pq_decided_by := Some (Some (u_id actor)), pq_decided_at := Some (Some decidedAt),
           pq_decision_note := Some note\<rparr>)) (\<lambda>moved. case moved of
       None \<Rightarrow> tx_return None
     | Some updated \<Rightarrow>
         tx_bind (accessGatewayJobs_upsertClaimed newId generation
            \<lparr>ji_kind = Job_Approve, ji_subject_id = rq_id req, ji_api_id = rq_api_id req, ji_user_id = u_id requester,
             ji_application_id = rq_application_id req, ji_requested_by = Some (u_id actor)\<rparr> decidedAt) (\<lambda>job.
         tx_return (Some (updated, job))))"

definition claimApproval ::
  "user \<Rightarrow> access_request \<Rightarrow> user \<Rightarrow> string list option \<Rightarrow> string option \<Rightarrow> (access_request \<times> job) io" where
  "claimApproval actor req requester tools note =
     io_bind io_newId (\<lambda>newId. io_bind io_newId (\<lambda>generation. io_bind io_now (\<lambda>decidedAt.
     io_bind (io_tx (claim_tx actor req requester tools note newId generation decidedAt)) (\<lambda>claimed. case claimed of
       Some c \<Rightarrow> io_return c
     | None \<Rightarrow> io_bind (io_read (\<lambda>db. decisionConflict db (rq_id req))) (\<lambda>e. io_throw (plain e))))))"

subsection \<open>Groups of an identity\<close>

definition not_of_api :: "string \<Rightarrow> string \<Rightarrow> bool" where
  "not_of_api apiId entry \<longleftrightarrow> entry \<noteq> aclGroupForApi apiId \<and> \<not> isMcpGroupForApi entry apiId"

definition membership_change ::
  "string \<Rightarrow> bool \<Rightarrow> string list \<Rightarrow> string list \<Rightarrow> string list" where
  "membership_change apiId present toolGroups groups =
     (let retained = filter (not_of_api apiId) groups
      in if present then retained @ [aclGroupForApi apiId] @ toolGroups else retained)"

definition setGroupMembership ::
  "string \<Rightarrow> user \<Rightarrow> string \<Rightarrow> bool \<Rightarrow> string option \<Rightarrow> bool \<Rightarrow> ('g \<times> bool) io \<Rightarrow> 'a io option \<Rightarrow> string list option
    \<Rightarrow> ('g option \<times> 'a option) io" where
  "setGroupMembership namespace user apiId present applicationId absentIsDone guardian afterWrite tools =
     io_bind (if present then io_read (\<lambda>db. apis_findById db apiId) else io_return None) (\<lambda>api.
     let toolGroups = (case api of
           None \<Rightarrow> [] | Some a \<Rightarrow> if a_agents a = None then [] else mcpGroupsForGrant apiId tools)
     in io_bind (if present then io_bind (ensureConsumer namespace user applicationId) (\<lambda>c. io_return (Some c))
                 else io_read (\<lambda>db. consumers_findByUser db (u_id user) applicationId)) (\<lambda>consumer. case consumer of
          None \<Rightarrow> io_return (None, None)
        | Some c \<Rightarrow>
            io_bind (mutateAclGroups (co_ferrum_consumer_id c) (\<lambda>_. membership_change apiId present toolGroups)
                (no_options\<lparr>mo_absentIsDone := absentIsDone,
                   mo_requireActiveUser := (if present then Some (u_id user) else None)\<rparr>) guardian afterWrite)
              (\<lambda>(seen, r). case r of
                  Inl f \<Rightarrow> io_throw f
                | Inr (Written v) \<Rightarrow> io_return (seen, v)
                | Inr _ \<Rightarrow> io_return (seen, None))))"

text \<open>The guard of a removal that must not strip what an active grant owns by now.\<close>

definition regrant_guard :: "string \<Rightarrow> string \<Rightarrow> string option \<Rightarrow> (grant option \<times> bool) io" where
  "regrant_guard apiId userId applicationId =
     io_bind (io_read (\<lambda>db. grants_findActiveByApiAndUser db apiId userId applicationId))
       (\<lambda>g. io_return (g, g = None))"

text \<open>\<open>reconcileGroups\<close>: the groups of one API set to what the identity's active grant covers.\<close>

definition reconcile_change ::
  "api \<Rightarrow> grant option \<times> bool \<Rightarrow> string list \<Rightarrow> string list" where
  "reconcile_change api seen groups =
     (let rest = aclGroupForApi (a_id api);
          canonical = (case fst seen of
              None \<Rightarrow> []
            | Some g \<Rightarrow> rest # (if a_agents api = None then [] else mcpGroupsForGrant (a_id api) (gr_approved_tools g)));
          kept = filter (\<lambda>entry. not_of_api (a_id api) entry \<or> entry \<in> set canonical) groups;
          restored = (if snd seen then filter (\<lambda>entry. entry \<notin> set kept) canonical else [])
      in kept @ restored)"

definition reconcile_read :: "string \<Rightarrow> string \<Rightarrow> string option \<Rightarrow> ((grant option \<times> bool) \<times> bool) io" where
  "reconcile_read apiId userId applicationId =
     io_bind (io_read (\<lambda>db. grants_findActiveByApiAndUser db apiId userId applicationId)) (\<lambda>live.
     io_bind (io_read (\<lambda>db. users_findById db userId)) (\<lambda>u.
     io_return ((live, (case u of None \<Rightarrow> False | Some a \<Rightarrow> u_status a = User_Active)), True)))"

definition reconcileGroups :: "user \<Rightarrow> api \<Rightarrow> string option \<Rightarrow> grant option io" where
  "reconcileGroups requester api applicationId =
     io_bind (io_read (\<lambda>db. consumers_findByUser db (u_id requester) applicationId)) (\<lambda>consumer. case consumer of
       None \<Rightarrow> io_bind (reconcile_read (a_id api) (u_id requester) applicationId) (\<lambda>((live, _), _). io_return live)
     | Some c \<Rightarrow>
         io_bind (mutateAclGroups (co_ferrum_consumer_id c) (reconcile_change api)
             (no_options\<lparr>mo_absentIsDone := True\<rparr>) (reconcile_read (a_id api) (u_id requester) applicationId)
             (None :: unit io option))
           (\<lambda>(seen, r). case r of
               Inl f \<Rightarrow> io_throw f
             | Inr _ \<Rightarrow> io_return (case seen of None \<Rightarrow> None | Some s \<Rightarrow> fst s)))"

subsection \<open>Undoing an approval\<close>

definition unwindApproval ::
  "string \<Rightarrow> user \<Rightarrow> api \<Rightarrow> user \<Rightarrow> string \<Rightarrow> bool \<Rightarrow> string option \<Rightarrow> job \<Rightarrow> bool io" where
  "unwindApproval namespace actor api requester requestId groupAdded applicationId job =
     io_bind (io_catch (io_read (\<lambda>db. grants_findActiveByApiAndUser db (a_id api) (u_id requester) applicationId))
                (\<lambda>_. io_return None)) (\<lambda>live.
     io_bind (case live of
         Some l \<Rightarrow> io_return (gr_access_request_id l = Some requestId)
       | None \<Rightarrow>
           io_bind (if groupAdded
               then io_bind (io_try (setGroupMembership namespace requester (a_id api) False applicationId False
                        (regrant_guard (a_id api) (u_id requester) applicationId) (None :: unit io option) None))
                      (\<lambda>r. case r of
                          Inl f \<Rightarrow> io_return (None, False)
                        | Inr (seen, _) \<Rightarrow> io_return (case seen of None \<Rightarrow> None | Some g \<Rightarrow> g, True))
               else io_return (None, True)) (\<lambda>(regrant, settled). case regrant of
             Some g \<Rightarrow> io_return (settled \<and> gr_access_request_id g = Some requestId)
           | None \<Rightarrow>
               io_bind (io_try (io_bind io_now (\<lambda>now. io_tx (settleOwnRequest job requestId released now))))
                 (\<lambda>r. case r of Inl f \<Rightarrow> io_return False | Inr _ \<Rightarrow> io_return settled))) (\<lambda>settled.
     io_bind (io_try (io_bind io_now (\<lambda>now. io_tx (tx_audit (Some (u_id actor)) ACCESS_APPROVE_ROLLBACK requestId now))))
       (\<lambda>_. io_return settled)))"

subsection \<open>approve\<close>

definition disabled_application :: "string \<Rightarrow> nexus_error" where
  "disabled_application applicationId = conflict ''The application this request is for is disabled''
     (Some (JObj [(''application_id'', JStr applicationId)]))"

definition approve_application :: "portal_db \<Rightarrow> string option \<Rightarrow> string \<Rightarrow> nexus_error + unit" where
  "approve_application db applicationId owner = (case applicationId of
      None \<Rightarrow> Inr ()
    | Some app \<Rightarrow> (case applications_findById db app of
          None \<Rightarrow> Inl (notFound ''Application'' (Some app))
        | Some a \<Rightarrow> if ap_owner_user_id a \<noteq> owner then Inl (notFound ''Application'' (Some app))
                   else if ap_status a \<noteq> App_Active then Inl (disabled_application app) else Inr ()))"

definition tx_check :: "(portal_db \<Rightarrow> nexus_error + unit) \<Rightarrow> unit tx" where
  "tx_check c db = rbind (c db) (\<lambda>_. Inr ((), db))"

definition approved_grant ::
  "user \<Rightarrow> access_request \<Rightarrow> api \<Rightarrow> user \<Rightarrow> string list option \<Rightarrow> string \<Rightarrow> int \<Rightarrow> grant" where
  "approved_grant actor req api requester tools newId now =
     \<lparr>gr_id = newId, gr_api_id = a_id api, gr_user_id = u_id requester,
      gr_application_id = rq_application_id req, gr_access_request_id = Some (rq_id req),
      gr_acl_group = aclGroupForApi (a_id api), gr_status = Gr_Active, gr_granted_by = u_id actor,
      gr_revoked_by = None, gr_revoked_at = None, gr_approved_tools = tools,
      gr_created_at = now, gr_updated_at = now\<rparr>"

definition approve_commit_tx ::
  "user \<Rightarrow> access_request \<Rightarrow> api \<Rightarrow> user \<Rightarrow> string list option \<Rightarrow> job \<Rightarrow> string \<Rightarrow> int \<Rightarrow> grant tx" where
  "approve_commit_tx actor req api requester tools job newId now =
     tx_bind (tx_check (\<lambda>db. approve_application db (rq_application_id req) (u_id requester))) (\<lambda>_.
     tx_bind (grants_create (approved_grant actor req api requester tools newId now)) (\<lambda>created.
     tx_bind (tx_audit (Some (u_id actor)) ACCESS_APPROVE (rq_id req) now) (\<lambda>_.
     tx_bind (tx_of (accessGatewayJobs_deleteClaimed job)) (\<lambda>mine.
     if mine then tx_return created else tx_throw supersededApproval))))"

text \<open>The guard inside the consumer's key; it notes \<open>superseded\<close> and \<open>regranted\<close>.\<close>

definition approve_guard :: "job \<Rightarrow> api \<Rightarrow> user \<Rightarrow> access_request \<Rightarrow> ((bool \<times> bool) \<times> bool) io" where
  "approve_guard job api requester req =
     io_bind (stillOwned job) (\<lambda>owned.
     if \<not> owned then io_return ((True, False), False)
     else io_bind (io_read (\<lambda>db. grants_findActiveByApiAndUser db (a_id api) (u_id requester) (rq_application_id req)))
       (\<lambda>holder. let regranted = (case holder of
             None \<Rightarrow> False | Some h \<Rightarrow> gr_access_request_id h \<noteq> Some (rq_id req))
          in io_return ((False, regranted), \<not> regranted)))"

text \<open>Steps 2 and 3, behind the claim.\<close>

definition approve_gateway ::
  "string \<Rightarrow> user \<Rightarrow> access_request \<Rightarrow> api \<Rightarrow> user \<Rightarrow> string list option \<Rightarrow> job \<Rightarrow> grant io" where
  "approve_gateway namespace actor req api requester tools job =
     io_bind (io_try (setGroupMembership namespace requester (a_id api) True (rq_application_id req) False
         (approve_guard job api requester req)
         (Some (io_bind io_newId (\<lambda>newId. io_bind io_now (\<lambda>now.
            io_tx (approve_commit_tx actor req api requester tools job newId now))))) tools))
       (\<lambda>r. case r of
           Inr (seen, committed) \<Rightarrow>
             if seen = Some (True, False) then io_throw (plain supersededApproval)
             else if seen = Some (False, True)
             then (let e = conflict ''This identity already has an active grant for this API'' None
                   in io_bind (settleOwnedJob (Some job) False (err_message e)) (\<lambda>_. io_throw (plain e)))
             else (case committed of
                 Some g \<Rightarrow> io_return g
               | None \<Rightarrow> io_throw (plain (internal_error ''The approval recorded no grant'')))
         | Inl f \<Rightarrow>
             io_bind (unwindApproval namespace actor api requester (rq_id req)
                 (err_code (f_error f) \<noteq> USER_DISABLED) (rq_application_id req) job) (\<lambda>settled.
             io_bind (settleOwnedJob (Some job) settled (err_message (f_error f))) (\<lambda>_. io_throw f)))"

text \<open>The admission, re-read under the proxy's key.\<close>

definition admission_checks :: "user \<Rightarrow> api \<Rightarrow> access_request \<Rightarrow> api \<Rightarrow> unit io" where
  "admission_checks actor initialApi req api =
     io_bind (io_result (assertCanReview actor api)) (\<lambda>_.
     io_bind (io_guard (a_ferrum_proxy_id api = a_ferrum_proxy_id initialApi)
        (conflict ''The gateway proxy changed while approval was waiting; reload and retry'' None)) (\<lambda>_.
     io_bind (io_guard (a_status api = Published)
        (conflict ''This API is retired and is no longer accepting access approvals'' None)) (\<lambda>_.
     io_bind (io_guard (a_requestable api) (conflict ''This API does not accept access approvals'' None)) (\<lambda>_.
     io_bind (io_guard (rq_status req = Rq_Pending)
        (conflict (''This request is already '' @ request_status_name (rq_status req)) None)) (\<lambda>_.
     case rq_application_id req of
         None \<Rightarrow> io_return ()
       | Some app \<Rightarrow> io_bind (io_read (\<lambda>db. applications_findById db app)) (\<lambda>a.
           io_guard (case a of None \<Rightarrow> False | Some x \<Rightarrow> ap_status x = App_Active) (disabled_application app)))))))"

subsection \<open>approveTools\<close>

definition cancelled_inactive :: request_patch where
  "cancelled_inactive = no_request_patch\<lparr>pq_status := Some Rq_Cancelled, pq_decided_by := Some None,
     pq_decided_at := Some None, pq_approved_tools := Some None, pq_decision_note := Some (Some INACTIVE_GRANT_NOTE)\<rparr>"

text \<open>Taking back tool groups: what the guard read is the current subset, \<open>null\<close> for every tool.\<close>

definition strip_guard :: "string \<Rightarrow> string \<Rightarrow> string option \<Rightarrow> (string list option \<times> bool) io" where
  "strip_guard apiId userId applicationId =
     io_bind (io_read (\<lambda>db. grants_findActiveByApiAndUser db apiId userId applicationId))
       (\<lambda>g. io_return (case g of None \<Rightarrow> Some [] | Some x \<Rightarrow> gr_approved_tools x, True))"

definition strip_change :: "string \<Rightarrow> string list \<Rightarrow> string list option \<Rightarrow> string list \<Rightarrow> string list" where
  "strip_change apiId uncovered covered groups =
     (let still = (case covered of
            None \<Rightarrow> []
          | Some ids \<Rightarrow> mcpGroupsForGrant apiId (Some (filter (\<lambda>i. i \<notin> set ids) uncovered)))
      in filter (\<lambda>grp. grp \<notin> set still) groups)"

text \<open>What the consumer's key showed: a grant that owns the groups, the current subset if it was read,
  and whether nothing was left behind.\<close>

definition unwind_tool_groups ::
  "string \<Rightarrow> api \<Rightarrow> user \<Rightarrow> access_request \<Rightarrow> string list \<Rightarrow> bool \<Rightarrow> grant option
    \<Rightarrow> (grant option \<times> string list option option \<times> bool) io" where
  "unwind_tool_groups namespace api requester req uncovered attempted holder =
     (if attempted \<and> holder = None
      then io_bind (io_try (setGroupMembership namespace requester (a_id api) False (rq_application_id req) True
               (regrant_guard (a_id api) (u_id requester) (rq_application_id req)) (None :: unit io option) None))
             (\<lambda>r. case r of
                 Inl f \<Rightarrow> io_return (None, None, False)
               | Inr (seen, _) \<Rightarrow> io_return (case seen of None \<Rightarrow> None | Some g \<Rightarrow> g, None, True))
      else if attempted \<and> uncovered \<noteq> []
      then io_bind (io_try (io_read (\<lambda>db. consumers_findByUser db (u_id requester) (rq_application_id req))))
             (\<lambda>c. case c of
                 Inl f \<Rightarrow> io_return (None, None, False)
               | Inr None \<Rightarrow> io_return (None, None, True)
               | Inr (Some consumer) \<Rightarrow>
                   io_bind (mutateAclGroups (co_ferrum_consumer_id consumer) (strip_change (a_id api) uncovered)
                       (no_options\<lparr>mo_absentIsDone := True\<rparr>)
                       (strip_guard (a_id api) (u_id requester) (rq_application_id req)) (None :: unit io option))
                     (\<lambda>(seen, r). io_return (None, seen, (case r of Inl f \<Rightarrow> False | Inr _ \<Rightarrow> True))))
      else io_return (None, None, True))"

definition unwindToolApproval ::
  "string \<Rightarrow> user \<Rightarrow> api \<Rightarrow> user \<Rightarrow> access_request \<Rightarrow> string \<Rightarrow> string list \<Rightarrow> bool \<Rightarrow> job \<Rightarrow> bool io" where
  "unwindToolApproval namespace actor api requester req grantId added attempted job =
     io_bind (io_catch (io_read (\<lambda>db. grants_findById db grantId)) (\<lambda>_. io_return None)) (\<lambda>live.
     let active = (case live of None \<Rightarrow> None | Some g \<Rightarrow> if gr_status g = Gr_Active then Some g else None)
     in io_bind (case active of
          Some g \<Rightarrow> io_return (Some g)
        | None \<Rightarrow> io_catch (io_read (\<lambda>db. grants_findActiveByApiAndUser db (a_id api) (u_id requester)
                     (rq_application_id req))) (\<lambda>_. io_return None)) (\<lambda>holder.
     let uncovered = (case holder of
           None \<Rightarrow> added
         | Some h \<Rightarrow> (case gr_approved_tools h of None \<Rightarrow> [] | Some covered \<Rightarrow> filter (\<lambda>i. i \<notin> set covered) added))
     in io_bind (
          if active \<noteq> None \<and> uncovered = []
          then io_bind (io_try (reconcileGroups requester api (rq_application_id req)))
                 (\<lambda>r. case r of Inl f \<Rightarrow> io_return False | Inr _ \<Rightarrow> io_return True)
          else if active = None \<and> holder \<noteq> None then io_return False
          else io_bind (unwind_tool_groups namespace api requester req uncovered attempted holder)
            (\<lambda>(regrant, nowCovered, settled).
               let decided = (regrant \<noteq> None \<or> (case nowCovered of
                     None \<Rightarrow> False
                   | Some None \<Rightarrow> True
                   | Some (Some ids) \<Rightarrow> list_all (\<lambda>i. i \<in> set ids) added))
               in if decided then io_return settled
                  else io_bind (io_try (io_bind io_now (\<lambda>now. io_tx (settleOwnRequest job (rq_id req)
                           (if active \<noteq> None then released else cancelled_inactive) now))))
                         (\<lambda>r. case r of Inl f \<Rightarrow> io_return False | Inr _ \<Rightarrow> io_return settled)))
     (\<lambda>settled.
        io_bind (io_try (io_bind io_now (\<lambda>now. io_tx (tx_audit (Some (u_id actor))
            ACCESS_TOOLS_APPROVE_ROLLBACK (rq_id req) now)))) (\<lambda>_. io_return settled))))"

definition tools_guard ::
  "job \<Rightarrow> api \<Rightarrow> user \<Rightarrow> access_request \<Rightarrow> string \<Rightarrow> string list \<Rightarrow> ((bool \<times> bool) \<times> bool) io" where
  "tools_guard job api requester req grantId current =
     io_bind (stillOwned job) (\<lambda>owned.
     if \<not> owned then io_return ((True, False), False)
     else io_bind (io_read (\<lambda>db. grants_findActiveByApiAndUser db (a_id api) (u_id requester) (rq_application_id req)))
       (\<lambda>holder. let regranted = (case holder of
             None \<Rightarrow> False | Some h \<Rightarrow> gr_id h \<noteq> grantId \<or> gr_approved_tools h \<noteq> Some current)
          in io_return ((False, regranted), \<not> regranted)))"

definition tools_commit_tx ::
  "user \<Rightarrow> access_request \<Rightarrow> user \<Rightarrow> string \<Rightarrow> string list \<Rightarrow> string list \<Rightarrow> job \<Rightarrow> int \<Rightarrow> grant tx" where
  "tools_commit_tx actor req requester grantId current after_tools job now =
     tx_bind (tx_check (\<lambda>db. case rq_application_id req of
         None \<Rightarrow> Inr () | Some app \<Rightarrow> assertApplicationActive db app (u_id requester))) (\<lambda>_.
     tx_bind (tx_read (\<lambda>db. grants_findById db grantId)) (\<lambda>live.
     if (case live of None \<Rightarrow> True
         | Some l \<Rightarrow> gr_status l \<noteq> Gr_Active \<or> gr_approved_tools l \<noteq> Some current) then tx_throw inactiveGrant
     else tx_bind (grants_updateIfStatus now grantId Gr_Active
             (no_grant_patch\<lparr>pg_approved_tools := Some (Some after_tools)\<rparr>)) (\<lambda>widened. case widened of
         None \<Rightarrow> tx_throw inactiveGrant
       | Some g \<Rightarrow>
           tx_bind (tx_of (accessGatewayJobs_deleteClaimed job)) (\<lambda>mine.
           if \<not> mine then tx_throw supersededApproval
           else tx_bind (tx_audit (Some (u_id actor)) ACCESS_TOOLS_APPROVE (rq_id req) now) (\<lambda>_.
           tx_return g)))))"

definition tools_gateway ::
  "string \<Rightarrow> user \<Rightarrow> access_request \<Rightarrow> api \<Rightarrow> user \<Rightarrow> string \<Rightarrow> string list \<Rightarrow> string list \<Rightarrow> access_request \<Rightarrow> job
    \<Rightarrow> grant io" where
  "tools_gateway namespace actor req api requester grantId current added updated job =
     io_bind (io_try (setGroupMembership namespace requester (a_id api) True (rq_application_id req) False
         (tools_guard job api requester req grantId current)
         (Some (io_bind io_now (\<lambda>now.
            io_tx (tools_commit_tx actor req requester grantId current (current @ added) job now))))
         (Some (current @ added))))
       (\<lambda>r. case r of
           Inr (seen, committed) \<Rightarrow>
             if seen = Some (True, False) then io_throw (plain supersededApproval)
             else if seen = Some (False, True)
             then io_bind (settleOwnedJob (Some job) False (err_message inactiveGrant)) (\<lambda>_. io_throw (plain inactiveGrant))
             else (case committed of
                 Some g \<Rightarrow> io_return g
               | None \<Rightarrow> io_throw (plain (internal_error ''The tool approval recorded no grant'')))
         | Inl f \<Rightarrow>
             io_bind (unwindToolApproval namespace actor api requester updated grantId added
                 (err_code (f_error f) \<noteq> USER_DISABLED) job) (\<lambda>settled.
             io_bind (settleOwnedJob (Some job) settled (err_message (f_error f))) (\<lambda>_. io_throw f)))"

definition approveTools ::
  "string \<Rightarrow> user \<Rightarrow> access_request \<Rightarrow> api \<Rightarrow> user \<Rightarrow> string option \<Rightarrow> string list option option
    \<Rightarrow> (access_request \<times> grant) io" where
  "approveTools namespace actor req api requester note approvedTools =
     (let grantId = the (rq_grant_id req) in
      io_bind (io_read (\<lambda>db. grants_findById db grantId)) (\<lambda>found. case found of
        None \<Rightarrow> io_throw (plain inactiveGrant)
      | Some g \<Rightarrow>
      io_bind (io_guard (gr_status g = Gr_Active \<and> gr_api_id g = a_id api \<and> gr_user_id g = u_id requester \<and>
          gr_application_id g = rq_application_id req) inactiveGrant) (\<lambda>_.
      case gr_approved_tools g of
        None \<Rightarrow> io_throw (plain (conflict ''This grant already covers every published tool'' None))
      | Some current \<Rightarrow>
      let requested = (case rq_requested_tools req of None \<Rightarrow> [] | Some ids \<Rightarrow> ids);
          chosen = (case approvedTools of None \<Rightarrow> Some requested | Some t \<Rightarrow> t)
      in case chosen of
        None \<Rightarrow> io_throw (plain (validationFailed ''Approve at least one requested tool, or deny the request'' None))
      | Some added \<Rightarrow>
      io_bind (io_guard (added \<noteq> [])
          (validationFailed ''Approve at least one requested tool, or deny the request'' None)) (\<lambda>_.
      io_bind (io_guard (\<not> list_ex (\<lambda>i. i \<notin> set requested) added)
          (validationFailed ''Approval cannot broaden the requested tool subset'' None)) (\<lambda>_.
      io_bind (io_guard (\<not> list_ex (\<lambda>i. i \<in> set current) added)
          (validationFailed ''The grant already covers some of these tools'' None)) (\<lambda>_.
      io_bind (io_result (validateToolSubset api (Some added))) (\<lambda>_.
      io_bind (claimApproval actor req requester (Some added) note) (\<lambda>(updated, job).
      io_bind (tools_gateway namespace actor req api requester grantId current added updated job)
        (\<lambda>widened. io_return (updated, widened))))))))))"

text \<open>A request for access: no grant yet, a subset it asked for, the claim, then the gateway.\<close>

definition approve_checks :: "access_request \<Rightarrow> api \<Rightarrow> string list option \<Rightarrow> unit io" where
  "approve_checks req api tools =
     io_bind (io_result (validateToolSubset api tools)) (\<lambda>_.
       io_guard (case rq_requested_tools req of
           None \<Rightarrow> True
         | Some asked \<Rightarrow> (case tools of None \<Rightarrow> False | Some ids \<Rightarrow> list_all (\<lambda>i. i \<in> set asked) ids))
       (validationFailed ''Approval cannot broaden the requested tool subset'' None))"

definition approve_access ::
  "string \<Rightarrow> user \<Rightarrow> access_request \<Rightarrow> api \<Rightarrow> user \<Rightarrow> string option \<Rightarrow> string list option option
    \<Rightarrow> (access_request \<times> grant) io" where
  "approve_access namespace actor req api requester note approvedTools =
     io_bind (io_read (\<lambda>db. grants_findActiveByApiAndUser db (a_id api) (u_id requester) (rq_application_id req))) (\<lambda>held.
     if held \<noteq> None then io_throw (plain (conflict ''This identity already has an active grant for this API'' None))
     else (let tools = (case approvedTools of None \<Rightarrow> rq_requested_tools req | Some t \<Rightarrow> t)
       in io_bind (approve_checks req api tools) (\<lambda>_.
          io_bind (claimApproval actor req requester tools note) (\<lambda>(updated, job).
          io_bind (approve_gateway namespace actor req api requester tools job) (\<lambda>g. io_return (updated, g))))))"

definition approve_decide ::
  "string \<Rightarrow> user \<Rightarrow> string \<Rightarrow> api \<Rightarrow> string option \<Rightarrow> string list option option \<Rightarrow> (access_request \<times> grant) io" where
  "approve_decide namespace actor requestId initialApi note approvedTools =
     io_bind (loadRequest requestId) (\<lambda>(req, api, requester).
     io_bind (admission_checks actor initialApi req api) (\<lambda>_.
     if rq_grant_id req \<noteq> None then approveTools namespace actor req api requester note approvedTools
     else approve_access namespace actor req api requester note approvedTools))"

definition approve ::
  "string \<Rightarrow> user \<Rightarrow> string \<Rightarrow> string option \<Rightarrow> string list option option \<Rightarrow> (access_request \<times> grant) io" where
  "approve namespace actor requestId note approvedTools =
     io_bind (loadRequest requestId) (\<lambda>(req0, initialApi, requester0).
     io_bind (io_result (assertCanReview actor initialApi)) (\<lambda>_.
     let decide = approve_decide namespace actor requestId initialApi note approvedTools
     in if truthy (a_ferrum_proxy_id initialApi)
        then io_lock (proxyLockKey (the (a_ferrum_proxy_id initialApi))) decide
        else decide))"

end
