(* ===== verification/Approval_Safety.thy ===== *)
theory Approval_Safety
  imports Approval
begin

section \<open>An approval never strands access\<close>

text \<open>
  What is left behind when an approval ends, whatever the gateway answered, whichever transaction
  was refused or lost its acknowledgement, and whatever the other requests and instances did to the
  rest of the store. The others are only assumed to leave alone the rows of the request being
  decided (which its keys order): the request, its durable job, the identity's active grant and its
  consumer.
\<close>

declare error_constructors [simp del]

record ident =
  i_request :: string
  i_api :: string
  i_user :: string
  i_app :: "string option"

definition active_of :: "ident \<Rightarrow> portal_db \<Rightarrow> grant option" where
  "active_of i db = grants_findActiveByApiAndUser db (i_api i) (i_user i) (i_app i)"

definition job_of :: "ident \<Rightarrow> portal_db \<Rightarrow> job option" where
  "job_of i db = accessGatewayJobs_findBySubject db (i_request i)"

definition request_of :: "ident \<Rightarrow> portal_db \<Rightarrow> access_request option" where
  "request_of i db = accessRequests_findById db (i_request i)"

definition consumer_of :: "ident \<Rightarrow> portal_db \<Rightarrow> consumer option" where
  "consumer_of i db = consumers_findByUser db (i_user i) (i_app i)"

definition keyed :: "portal_db \<Rightarrow> bool" where
  "keyed db \<longleftrightarrow> requests_unique (db_requests db) \<and> distinct (map jb_subject_id (db_jobs db))"

definition leaves_alone :: "ident \<Rightarrow> portal_db \<Rightarrow> portal_db \<Rightarrow> bool" where
  "leaves_alone i db db' \<longleftrightarrow> (keyed db \<longrightarrow> keyed db') \<and> request_of i db' = request_of i db \<and>
     job_of i db' = job_of i db \<and> active_of i db' = active_of i db \<and>
     (consumer_of i db = None \<or> consumer_of i db' = consumer_of i db)"

text \<open>The others leave the identity alone, and only the provisioner reports a disabled account: neither
  the gateway nor the store answers with that code.\<close>

definition fair_env :: "ident \<Rightarrow> env \<Rightarrow> bool" where
  "fair_env i env \<longleftrightarrow> (\<forall>n db. leaves_alone i db (e_other env n db)) \<and>
     (\<forall>n f. e_put env n = Some f \<longrightarrow> err_code (f_error f) \<noteq> USER_DISABLED) \<and>
     (\<forall>n f. e_fault env n = Some (Refused f) \<longrightarrow> err_code (f_error f) \<noteq> USER_DISABLED) \<and>
     (\<forall>n f. e_fault env n = Some (Lost_Ack f) \<longrightarrow> err_code (f_error f) \<noteq> USER_DISABLED)"

subsection \<open>What an approval may leave behind\<close>

definition last_write :: "ident \<Rightarrow> world \<Rightarrow> (string list \<Rightarrow> bool) \<Rightarrow> bool" where
  "last_write i w P \<longleftrightarrow> (\<exists>c. consumer_of i (w_db w) = Some c \<and> w_puts w \<noteq> [] \<and>
     pt_consumer (last (w_puts w)) = co_ferrum_consumer_id c \<and> pt_acked (last (w_puts w)) \<and>
     P (pt_groups (last (w_puts w))))"

text \<open>Untouched: nothing of the identity changed and nothing was sent to the gateway.\<close>

definition untouched :: "ident \<Rightarrow> world \<Rightarrow> world \<Rightarrow> bool" where
  "untouched i w0 w \<longleftrightarrow> keyed (w_db w) \<and> request_of i (w_db w) = request_of i (w_db w0) \<and>
     job_of i (w_db w) = job_of i (w_db w0) \<and> active_of i (w_db w) = active_of i (w_db w0) \<and> w_puts w = w_puts w0"

text \<open>Granted: an active grant of this request, its group acknowledged by the gateway, no job owed.\<close>

definition granted :: "ident \<Rightarrow> world \<Rightarrow> bool" where
  "granted i w \<longleftrightarrow> keyed (w_db w) \<and> (\<exists>g. active_of i (w_db w) = Some g \<and> gr_access_request_id g = Some (i_request i)) \<and>
     job_of i (w_db w) = None \<and> last_write i w (\<lambda>gs. aclGroupForApi (i_api i) \<in> set gs)"

text \<open>Compensated: the request is pending again, there is no grant, and the gateway was either never
  written or has acknowledged a last write with none of the API's groups.\<close>

definition compensated :: "ident \<Rightarrow> put list \<Rightarrow> world \<Rightarrow> bool" where
  "compensated i p0 w \<longleftrightarrow> active_of i (w_db w) = None \<and>
     (\<exists>r. request_of i (w_db w) = Some r \<and> rq_status r = Rq_Pending) \<and>
     (w_puts w = p0 \<or> last_write i w (\<lambda>gs. \<forall>g\<in>set gs. \<not> group_of_api (i_api i) g))"

text \<open>Owed: the durable job is still there, for the worker to finish.\<close>

definition owed :: "ident \<Rightarrow> world \<Rightarrow> bool" where
  "owed i w \<longleftrightarrow> job_of i (w_db w) \<noteq> None"

text \<open>Between the claim and its outcome.\<close>

definition claimed :: "ident \<Rightarrow> job \<Rightarrow> world \<Rightarrow> bool" where
  "claimed i j w \<longleftrightarrow> keyed (w_db w) \<and> job_of i (w_db w) = Some j \<and> owns_row j j \<and> active_of i (w_db w) = None \<and>
     (\<exists>r. request_of i (w_db w) = Some r \<and> rq_status r = Rq_Approved)"

lemma fair_leaves: "fair_env i env \<Longrightarrow> leaves_alone i db (e_other env n db)"
  by (simp add: fair_env_def)

lemma last_write_advance: "leaves_alone i (w_db w) (e_other env (w_tick w) (w_db w)) \<Longrightarrow>
    last_write i w P \<Longrightarrow> last_write i (advance env w) P"
  by (auto simp: last_write_def leaves_alone_def)

lemma stable_states:
  assumes "fair_env i env"
  shows "stable env (untouched i w0)" "stable env (granted i)" "stable env (compensated i p0)"
    "stable env (owed i)" "stable env (claimed i j)" "stable env (\<lambda>w. consumer_of i (w_db w) = Some c)"
    "stable env (\<lambda>w. last_write i w P)"
proof -
  note l = fair_leaves [OF assms]
  note lw = last_write_advance [OF l]
  show "stable env (untouched i w0)" by (rule stableI) (use l in \<open>auto simp: untouched_def leaves_alone_def\<close>)
  show "stable env (granted i)"
    by (rule stableI) (use l lw in \<open>auto simp: granted_def leaves_alone_def\<close>, auto simp: last_write_def)
  show "stable env (compensated i p0)"
    by (rule stableI) (use l lw in \<open>auto simp: compensated_def leaves_alone_def\<close>, auto simp: last_write_def)
  show "stable env (owed i)" by (rule stableI) (use l in \<open>auto simp: owed_def leaves_alone_def\<close>)
  show "stable env (claimed i j)" by (rule stableI) (use l in \<open>auto simp: claimed_def leaves_alone_def\<close>)
  show "stable env (\<lambda>w. consumer_of i (w_db w) = Some c)"
    by (rule stableI) (use l in \<open>auto simp: leaves_alone_def\<close>, metis option.distinct(1))
  show "stable env (\<lambda>w. last_write i w P)"
    by (rule stableI) (use lw in \<open>auto simp: last_write_def\<close>)
qed

subsection \<open>The transactions\<close>

text \<open>A status move of the request touches nothing else.\<close>

lemma request_update_frame:
  assumes "accessRequests_updateIfStatus now k ex p db = Inr (a, db')"
  shows "db_jobs db' = db_jobs db" "db_grants db' = db_grants db" "db_consumers db' = db_consumers db"
    "db_audit db' = db_audit db" "db_users db' = db_users db" "db_applications db' = db_applications db"
  using assms by (auto simp: requests_cas_eq Let_def result_simps mapConflict_Inr split: if_splits)

lemma keyed_update:
  assumes "keyed db" "accessRequests_updateIfStatus now k ex p db = Inr (a, db')"
  shows "keyed db'"
proof -
  have u: "requests_unique (db_requests db)" using assms(1) by (simp add: keyed_def)
  have "requests_unique (db_requests db')"
  proof (cases "\<exists>r. accessRequests_findById db k = Some r \<and> rq_status r = ex")
    case True
    then show ?thesis using request_cas.cas_won [OF u _ _ assms(2)] by auto
  next
    case False
    then have "accessRequests_updateIfStatus now k ex p db = Inr (None, db)"
      by (intro request_cas.cas_lost [OF u]) auto
    then show ?thesis using assms(2) u by simp
  qed
  then show ?thesis using assms(1) request_update_frame(1) [OF assms(2)] by (simp add: keyed_def)
qed

lemma request_row_after_status:
  "pq_status p = Some s \<Longrightarrow> rq_status (request_row_after now p r) = s"
  by (auto simp: request_row_after_def accessRequestUpdateColumns_def patched_def no_request_patch_def)

lemma request_moved:
  assumes "keyed db" "accessRequests_findById db k = Some r" "rq_status r = ex" "pq_status p = Some s"
    and "accessRequests_updateIfStatus now k ex p db = Inr (a, db')"
  shows "a \<noteq> None" "\<exists>r'. accessRequests_findById db' k = Some r' \<and> rq_status r' = s"
  using request_cas.cas_won [OF _ assms(2,3,5)] assms(1,4) request_row_after_status
  by (auto simp: keyed_def)

lemma request_not_moved:
  assumes "keyed db" "accessRequests_updateIfStatus now k ex p db = Inr (None, db')"
  shows "db' = db"
proof (cases "\<exists>r. accessRequests_findById db k = Some r \<and> rq_status r = ex")
  case True
  then show ?thesis using request_cas.cas_won [OF _ _ _ assms(2)] assms(1) by (auto simp: keyed_def)
next
  case False
  then have "accessRequests_updateIfStatus now k ex p db = Inr (None, db)"
    using assms(1) by (intro request_cas.cas_lost) (auto simp: keyed_def)
  then show ?thesis using assms(2) by simp
qed

text \<open>A job row of one subject.\<close>

lemma findBySubject_iff:
  "distinct (map jb_subject_id (db_jobs db)) \<Longrightarrow> accessGatewayJobs_findBySubject db k = Some j \<longleftrightarrow>
     j \<in> set (db_jobs db) \<and> jb_subject_id j = k"
  by (simp add: accessGatewayJobs_findBySubject_def find_by_Some_iff)

lemma findBySubject_none:
  "accessGatewayJobs_findBySubject db k = None \<longleftrightarrow> (\<forall>j\<in>set (db_jobs db). jb_subject_id j \<noteq> k)"
  by (simp add: accessGatewayJobs_findBySubject_def find_by_None_iff)

lemma upsert_keyed:
  assumes "keyed db" "accessGatewayJobs_upsertClaimed newId gen ji now db = Inr (j, db')"
  shows "keyed db'" "owns_row j j"
proof -
  note r = upsertClaimed_rows [OF assms(2)]
  show "owns_row j j" using r(3) by (simp add: owns_row_def)
  let ?f = "\<lambda>j. (job_row newId gen ji Job_Sending now)\<lparr>jb_id := jb_id j, jb_created_at := jb_created_at j\<rparr>"
  let ?same = "\<lambda>j. jb_subject_id j = ji_subject_id ji"
  have "map jb_subject_id (update_where ?same ?f (db_jobs db)) = map jb_subject_id (db_jobs db)"
    by (simp add: update_where_def job_row_def)
  moreover have "db_jobs db' = (if list_ex ?same (db_jobs db) then update_where ?same ?f (db_jobs db)
      else db_jobs db @ [job_row newId gen ji Job_Sending now])"
    using assms(2) by (auto simp: accessGatewayJobs_upsertClaimed_def Let_def split: if_splits option.splits)
  moreover have "jb_subject_id (job_row newId gen ji Job_Sending now) = ji_subject_id ji" by (simp add: job_row_def)
  ultimately have "distinct (map jb_subject_id (db_jobs db'))"
    using assms(1) by (auto simp: keyed_def list_ex_iff)
  then show "keyed db'" using assms(1) r by (simp add: keyed_def)
qed

lemma claim_tx_None:
  assumes "keyed db" "claim_tx actor req requester tools note newId gen at1 db = Inr (None, db')"
  shows "db' = db"
proof -
  obtain a db1 where a: "accessRequests_updateIfStatus at1 (rq_id req) Rq_Pending
      (no_request_patch\<lparr>pq_status := Some Rq_Approved, pq_approved_tools := Some tools,
           pq_decided_by := Some (Some (u_id actor)), pq_decided_at := Some (Some at1),
           pq_decision_note := Some note\<rparr>) db = Inr (a, db1)" and n: "a = None" "db' = db1"
    using assms(2) by (auto simp: claim_tx_def tx_simps split: option.splits)
  show ?thesis using request_not_moved [OF assms(1)] a n by blast
qed

lemma claim_tx_Some:
  assumes "keyed db" "claim_tx actor req requester tools note newId gen at1 db = Inr (Some (updated, j), db')"
  shows "keyed db'" "accessGatewayJobs_findBySubject db' (rq_id req) = Some j" "owns_row j j"
    "db_grants db' = db_grants db" "db_consumers db' = db_consumers db"
    "\<exists>r. accessRequests_findById db' (rq_id req) = Some r \<and> rq_status r = Rq_Approved"
proof -
  let ?p = "no_request_patch\<lparr>pq_status := Some Rq_Approved, pq_approved_tools := Some tools,
           pq_decided_by := Some (Some (u_id actor)), pq_decided_at := Some (Some at1),
           pq_decision_note := Some note\<rparr>"
  obtain ji db1 where m: "accessRequests_updateIfStatus at1 (rq_id req) Rq_Pending ?p db = Inr (Some updated, db1)"
    and u: "accessGatewayJobs_upsertClaimed newId gen ji at1 db1 = Inr (j, db')" and s: "ji_subject_id ji = rq_id req"
    using assms(2) by (auto simp: claim_tx_def tx_simps split: option.splits)
  note k = keyed_update [OF assms(1) m]
  note up = upsert_keyed [OF k u] upsertClaimed_rows [OF u] and fr = request_update_frame [OF m]
  show "keyed db'" "accessGatewayJobs_findBySubject db' (rq_id req) = Some j" "owns_row j j"
    "db_grants db' = db_grants db" "db_consumers db' = db_consumers db" using up fr s by auto
  obtain r where "accessRequests_findById db (rq_id req) = Some r" "rq_status r = Rq_Pending"
    using request_cas.cas_lost [of db "rq_id req" Rq_Pending at1 ?p] assms(1) m by (force simp: keyed_def)
  from request_moved(2) [OF assms(1) this _ m]
  show "\<exists>r. accessRequests_findById db' (rq_id req) = Some r \<and> rq_status r = Rq_Approved"
    using up by (auto simp: accessRequests_findById_def)
qed

lemma deleteClaimed_keyed:
  assumes "keyed db"
  shows "keyed (snd (accessGatewayJobs_deleteClaimed j db))"
    "keyed (snd (accessGatewayJobs_reschedule j t e st db))"
  using assms by (auto simp: keyed_def accessGatewayJobs_deleteClaimed_def accessGatewayJobs_reschedule_def
      distinct_map_filter update_where_def comp_def if_distrib cong: if_cong)

lemma deleteClaimed_own:
  assumes "keyed db" "accessGatewayJobs_findBySubject db k = Some j" "owns_row j j"
  shows "accessGatewayJobs_findBySubject (snd (accessGatewayJobs_deleteClaimed j db)) k = None"
proof -
  have d: "distinct (map jb_subject_id (db_jobs db))" using assms(1) by (simp add: keyed_def)
  then have j: "j \<in> set (db_jobs db)" "jb_subject_id j = k" using assms(2) by (auto simp: findBySubject_iff)
  show ?thesis unfolding findBySubject_none
    using j d assms(2,3) by (auto simp: accessGatewayJobs_deleteClaimed_def findBySubject_iff)
       (metis findBySubject_iff option.inject)
qed

lemma active_of_cong: "db_grants db' = db_grants db \<Longrightarrow> active_of i db' = active_of i db"
  and job_of_cong: "db_jobs db' = db_jobs db \<Longrightarrow> job_of i db' = job_of i db"
  and request_of_cong: "db_requests db' = db_requests db \<Longrightarrow> request_of i db' = request_of i db"
  and consumer_of_cong: "db_consumers db' = db_consumers db \<Longrightarrow> consumer_of i db' = consumer_of i db"
  and keyed_cong: "db_requests db' = db_requests db \<Longrightarrow> db_jobs db' = db_jobs db \<Longrightarrow> keyed db' = keyed db"
  by (simp_all add: active_of_def grants_findActiveByApiAndUser_def job_of_def accessGatewayJobs_findBySubject_def
      request_of_def accessRequests_findById_def consumer_of_def consumers_findByUser_def keyed_def)

lemma commit_tx:
  assumes "claimed i j w" "approve_commit_tx actor req api requester tools j newId now (w_db w) = Inr (g, db')"
    and "rq_id req = i_request i" "a_id api = i_api i" "u_id requester = i_user i" "rq_application_id req = i_app i"
  shows "keyed db'" "active_of i db' = Some g" "gr_access_request_id g = Some (i_request i)" "job_of i db' = None"
    "consumer_of i db' = consumer_of i (w_db w)" "gr_approved_tools g = tools"
proof -
  let ?g = "approved_grant actor req api requester tools newId now"
  let ?db1 = "auditLogs_create None (Some (u_id actor)) ACCESS_APPROVE (rq_id req) now
      ((w_db w)\<lparr>db_grants := db_grants (w_db w) @ [?g]\<rparr>)"
  have g: "g = ?g" and d: "accessGatewayJobs_deleteClaimed j ?db1 = (True, db')"
    using assms(2) by (auto simp: approve_commit_tx_def tx_simps tx_check_def rbind_eq_Inr grants_create_def
        mapConflict_Inr split: if_splits)
  then have d: "db' = snd (accessGatewayJobs_deleteClaimed j ?db1)" by simp
  have k1: "keyed ?db1" "job_of i ?db1 = Some j" and own: "owns_row j j"
    using assms(1) by (simp_all add: claimed_def auditLogs_create_def keyed_def job_of_def accessGatewayJobs_findBySubject_def)
  show "keyed db'" unfolding d by (rule deleteClaimed_keyed(1) [OF k1(1)])
  show "job_of i db' = None" unfolding d job_of_def
    by (rule deleteClaimed_own [OF k1(1) _ own]) (use k1(2) in \<open>simp add: job_of_def\<close>)
  have gr: "db_grants db' = db_grants (w_db w) @ [?g]" "db_consumers db' = db_consumers (w_db w)"
    unfolding d by (simp_all add: accessGatewayJobs_deleteClaimed_def auditLogs_create_def)
  show "consumer_of i db' = consumer_of i (w_db w)" by (rule consumer_of_cong [OF gr(2)])
  have "active_of i (w_db w) = None" using assms(1) by (simp add: claimed_def)
  then show "active_of i db' = Some g" unfolding g
    using assms(4-6) by (simp add: approved_grant_def active_of_def grants_findActiveByApiAndUser_def gr(1) find_append_last)
  show "gr_access_request_id g = Some (i_request i)" "gr_approved_tools g = tools"
    using g assms(3) by (simp_all add: approved_grant_def)
qed

text \<open>Returning the request while its job is owned.\<close>

lemma settleOwnRequest_claimed:
  assumes "claimed i j w" "jb_subject_id j = i_request i" "pq_status p = Some s"
    and "settleOwnRequest j (i_request i) p now (w_db w) = Inr (x, db')"
  shows "keyed db'" "job_of i db' = Some j" "active_of i db' = None" "consumer_of i db' = consumer_of i (w_db w)"
    "\<exists>r. request_of i db' = Some r \<and> rq_status r = s"
proof -
  have c: "keyed (w_db w)" "accessGatewayJobs_findBySubject (w_db w) (jb_subject_id j) = Some j" "owns_row j j"
    "active_of i (w_db w) = None" using assms(1,2) by (auto simp: claimed_def job_of_def)
  then obtain a where u: "accessRequests_updateIfStatus now (i_request i) Rq_Approved p (w_db w) = Inr (a, db')"
    using assms(4) by (auto simp: settleOwnRequest_def tx_simps split: if_splits)
  note fr = request_update_frame [OF u]
  show "keyed db'" by (rule keyed_update [OF c(1) u])
  show "job_of i db' = Some j" using c(2) assms(2) job_of_cong [OF fr(1)] by (simp add: job_of_def)
  show "active_of i db' = None" "consumer_of i db' = consumer_of i (w_db w)"
    using c(4) active_of_cong [OF fr(2)] consumer_of_cong [OF fr(3)] by simp_all
  obtain r where "accessRequests_findById (w_db w) (i_request i) = Some r" "rq_status r = Rq_Approved"
    using assms(1) by (auto simp: claimed_def request_of_def)
  from request_moved(2) [OF c(1) this assms(3) u]
  show "\<exists>r. request_of i db' = Some r \<and> rq_status r = s" by (simp add: request_of_def)
qed

lemma settleOwnRequest_unowned:
  "accessGatewayJobs_findBySubject db (jb_subject_id j) = None \<Longrightarrow>
     settleOwnRequest j k p now db = Inr ((None, True), db)"
  by (simp add: settleOwnRequest_def tx_bind_def tx_read_def tx_return_def)

subsection \<open>Settling the job\<close>

lemma granted_jobs:
  assumes "granted i w"
  shows "granted i (w\<lparr>w_db := snd (accessGatewayJobs_deleteClaimed j (w_db w))\<rparr>)"
    "granted i (w\<lparr>w_db := snd (accessGatewayJobs_reschedule j t e st (w_db w))\<rparr>)"
proof -
  have k: "keyed (w_db w)" "job_of i (w_db w) = None" using assms by (auto simp: granted_def)
  have n: "job_of i (snd (accessGatewayJobs_deleteClaimed j (w_db w))) = None"
    "job_of i (snd (accessGatewayJobs_reschedule j t e st (w_db w))) = None"
    using k(2) by (auto simp: job_of_def findBySubject_none accessGatewayJobs_deleteClaimed_def
        accessGatewayJobs_reschedule_def update_where_def split: if_splits)
  have f: "active_of i (snd (accessGatewayJobs_deleteClaimed j (w_db w))) = active_of i (w_db w)"
    "active_of i (snd (accessGatewayJobs_reschedule j t e st (w_db w))) = active_of i (w_db w)"
    "consumer_of i (snd (accessGatewayJobs_deleteClaimed j (w_db w))) = consumer_of i (w_db w)"
    "consumer_of i (snd (accessGatewayJobs_reschedule j t e st (w_db w))) = consumer_of i (w_db w)"
    by (simp_all add: active_of_def grants_findActiveByApiAndUser_def consumer_of_def consumers_findByUser_def
        accessGatewayJobs_deleteClaimed_def accessGatewayJobs_reschedule_def)
  show "granted i (w\<lparr>w_db := snd (accessGatewayJobs_deleteClaimed j (w_db w))\<rparr>)"
    "granted i (w\<lparr>w_db := snd (accessGatewayJobs_reschedule j t e st (w_db w))\<rparr>)"
    using assms n f deleteClaimed_keyed [OF k(1)] by (simp_all add: granted_def last_write_def)
qed

lemma compensated_delete:
  "compensated i p0 w \<Longrightarrow> compensated i p0 (w\<lparr>w_db := snd (accessGatewayJobs_deleteClaimed j (w_db w))\<rparr>)"
  by (simp add: compensated_def last_write_def active_of_def grants_findActiveByApiAndUser_def consumer_of_def
      consumers_findByUser_def request_of_def accessRequests_findById_def accessGatewayJobs_deleteClaimed_def)

lemma owed_reschedule:
  assumes "owed i w"
  shows "owed i (w\<lparr>w_db := snd (accessGatewayJobs_reschedule j t e st (w_db w))\<rparr>)"
proof -
  let ?f = "\<lambda>r. r\<lparr>jb_status := Job_Pending, jb_next_attempt_at := Some t, jb_last_error := Some e, jb_updated_at := st\<rparr>"
  have "find_by jb_subject_id k (update_where (owns_row j) ?f rows) =
      map_option (\<lambda>r. if owns_row j r then ?f r else r) (find_by jb_subject_id k rows)" for k rows
    by (rule find_by_update_where) simp
  then show ?thesis using assms
    by (auto simp: owed_def job_of_def accessGatewayJobs_findBySubject_def accessGatewayJobs_reschedule_def)
qed

text \<open>What the compensation reports decides what becomes of the job.\<close>

definition settled_state :: "ident \<Rightarrow> put list \<Rightarrow> bool \<Rightarrow> world \<Rightarrow> bool" where
  "settled_state i p0 settled w \<longleftrightarrow> granted i w \<or> (if settled then compensated i p0 w else owed i w)"

definition nothing_stranded :: "ident \<Rightarrow> put list \<Rightarrow> world \<Rightarrow> bool" where
  "nothing_stranded i p0 w \<longleftrightarrow> granted i w \<or> compensated i p0 w \<or> owed i w"

lemma hoare_settleOwnedJob:
  assumes "fair_env i env"
  shows "hoare env (settled_state i p0 settled) (settleOwnedJob (Some j) settled c)
    (\<lambda>_. nothing_stranded i p0) E"
proof -
  note st = stable_states [OF assms]
  let ?N = "nothing_stranded i p0"
  have s: "stable env (settled_state i p0 settled)"
    unfolding settled_state_def using st(2-4) by (cases settled) (auto intro: stable_disj)
  have tx: "hoare env (settled_state i p0 settled) (io_tx (tx_of (if settled then accessGatewayJobs_deleteClaimed j
        else accessGatewayJobs_reschedule j now c now))) (\<lambda>_. ?N) (\<lambda>_. ?N)" for now
  proof (rule hoare_tx [OF s])
    fix w a db'
    assume "settled_state i p0 settled w" and "tx_of (if settled then accessGatewayJobs_deleteClaimed j
        else accessGatewayJobs_reschedule j now c now) (w_db w) = Inr (a, db')"
    then show "?N (w\<lparr>w_db := db'\<rparr>) \<and> (\<forall>f. ?N (w\<lparr>w_db := db'\<rparr>))"
      using granted_jobs [of i w j] compensated_delete [of i p0 w j] owed_reschedule [of i w j]
      by (auto simp: tx_simps settled_state_def nothing_stranded_def split: if_splits) (metis snd_conv)+
  qed (auto simp: settled_state_def nothing_stranded_def split: if_splits)
  have "hoare env (settled_state i p0 settled) (io_bind io_now (\<lambda>now. io_tx (tx_of (
      if settled then accessGatewayJobs_deleteClaimed j else accessGatewayJobs_reschedule j now c now))))
      (\<lambda>_. ?N) (\<lambda>_. ?N)"
    by (rule hoare_bind [where R = "\<lambda>_. settled_state i p0 settled"], rule hoare_now [OF s]) (assumption, rule tx)
  then have "hoare env (settled_state i p0 settled) (io_try (io_bind io_now (\<lambda>now. io_tx (tx_of (
      if settled then accessGatewayJobs_deleteClaimed j else accessGatewayJobs_reschedule j now c now)))))
      (\<lambda>_. ?N) E" by (rule hoare_try)
  then show ?thesis unfolding settleOwnedJob_def option.case by (rule hoare_bind) (rule hoare_return)
qed

subsection \<open>The compensation\<close>

lemma not_of_api_iff: "not_of_api a g \<longleftrightarrow> \<not> group_of_api a g"
  by (simp add: not_of_api_def group_of_api_def)

lemma last_write_put:
  "consumer_of i (w_db w) = Some c \<Longrightarrow> P gs \<Longrightarrow> last_write i (w\<lparr>w_puts := w_puts w @
     [\<lparr>pt_consumer = co_ferrum_consumer_id c, pt_groups = gs, pt_acked = True\<rparr>]\<rparr>) P"
  by (simp add: last_write_def)

lemma claimed_puts [simp]: "claimed i j (w\<lparr>w_puts := p\<rparr>) = claimed i j w"
  by (simp add: claimed_def)

text \<open>Once the consumer was written there is a consumer to take the groups back from.\<close>

definition midway :: "ident \<Rightarrow> job \<Rightarrow> put list \<Rightarrow> world \<Rightarrow> bool" where
  "midway i j p0 w \<longleftrightarrow> claimed i j w \<and> (w_puts w = p0 \<or> consumer_of i (w_db w) \<noteq> None)"

lemma stable_midway:
  assumes "fair_env i env"
  shows "stable env (midway i j p0)"
proof -
  note l = fair_leaves [OF assms]
  have "midway i j p0 (advance env w)" if "midway i j p0 w" for w
    using that stableD [OF stable_states(5) [OF assms], of j w] l [of "w_db w" "w_tick w"]
    by (auto simp: midway_def leaves_alone_def)
  then show ?thesis by (intro stableI) (auto simp: midway_def claimed_def)
qed

definition clean :: "ident \<Rightarrow> string list \<Rightarrow> bool" where
  "clean i gs \<longleftrightarrow> (\<forall>g\<in>set gs. \<not> group_of_api (i_api i) g)"

definition own_grant :: "ident \<Rightarrow> grant \<Rightarrow> bool" where
  "own_grant i g \<longleftrightarrow> gr_access_request_id g = Some (i_request i)"

lemma granted_own: "granted i w \<Longrightarrow> active_of i (w_db w) = Some g \<Longrightarrow> own_grant i g"
  by (auto simp: granted_def own_grant_def)

lemma hoare_regrant_guard:
  assumes "fair_env i env" "stable env P" "\<And>w. P w \<Longrightarrow> granted i w \<or> claimed i j w"
    and "a = i_api i" "u = i_user i" "app = i_app i"
  shows "hoare env P (regrant_guard a u app)
    (\<lambda>(g, ok) w. P w \<and> (case g of Some x \<Rightarrow> \<not> ok \<and> own_grant i x \<and> granted i w | None \<Rightarrow> ok \<and> claimed i j w)) (\<lambda>_. P)"
  unfolding regrant_guard_def
proof (rule hoare_bind [where R = "\<lambda>g w. P w \<and> (case g of Some x \<Rightarrow> own_grant i x \<and> granted i w | None \<Rightarrow> claimed i j w)"])
  show "hoare env P (io_read (\<lambda>db. grants_findActiveByApiAndUser db a u app))
      (\<lambda>g w. P w \<and> (case g of Some x \<Rightarrow> own_grant i x \<and> granted i w | None \<Rightarrow> claimed i j w)) (\<lambda>_. P)"
  proof (rule hoare_read [OF assms(2)])
    fix w
    assume P: "P w"
    have a: "grants_findActiveByApiAndUser (w_db w) a u app = active_of i (w_db w)"
      using assms(4-6) by (simp add: active_of_def)
    show "P w \<and> (case grants_findActiveByApiAndUser (w_db w) a u app of Some x \<Rightarrow> own_grant i x \<and> granted i w | None \<Rightarrow> claimed i j w)"
      using P assms(3) [OF P] granted_own [of i w]
      by (auto simp: a claimed_def granted_def own_grant_def split: option.splits)
  qed
qed (auto intro!: hoare_return split: option.splits)

text \<open>Removing the API's groups.\<close>

lemma hoare_remove_groups:
  assumes fair: "fair_env i env" and ids: "apiId = i_api i" "u_id requester = i_user i" "app = i_app i"
  shows "hoare env (\<lambda>w. granted i w \<or> midway i j p0 w)
    (setGroupMembership ns requester apiId False app False (regrant_guard apiId (u_id requester) app) (None :: unit io option) None)
    (\<lambda>(seen, _) w. case seen of
        Some (Some g) \<Rightarrow> own_grant i g \<and> granted i w
      | Some None \<Rightarrow> claimed i j w \<and> last_write i w (clean i)
      | None \<Rightarrow> claimed i j w \<and> w_puts w = p0)
    (\<lambda>_ w. granted i w \<or> claimed i j w)"
proof -
  let ?P = "\<lambda>w. granted i w \<or> midway i j p0 w"
  let ?Q = "\<lambda>(seen :: grant option option, _ :: unit option) w. case seen of
        Some (Some g) \<Rightarrow> own_grant i g \<and> granted i w
      | Some None \<Rightarrow> claimed i j w \<and> last_write i w (clean i)
      | None \<Rightarrow> claimed i j w \<and> w_puts w = p0"
  let ?E = "\<lambda>_ w. granted i w \<or> claimed i j w"
  note st = stable_states [OF fair]
  have sP: "stable env ?P" by (intro stable_disj st stable_midway [OF fair])
  have weak: "\<And>w. ?P w \<Longrightarrow> granted i w \<or> claimed i j w" by (auto simp: midway_def)
  let ?R = "\<lambda>consumer w. case consumer of
      None \<Rightarrow> claimed i j w \<and> w_puts w = p0 | Some c \<Rightarrow> ?P w \<and> consumer_of i (w_db w) = Some c"
  have read: "hoare env ?P (io_read (\<lambda>db. consumers_findByUser db (u_id requester) app)) ?R ?E"
  proof (rule hoare_read [OF sP])
    fix w
    assume P: "?P w"
    have "consumers_findByUser (w_db w) (u_id requester) app = consumer_of i (w_db w)"
      using ids by (simp add: consumer_of_def)
    then show "?R (consumers_findByUser (w_db w) (u_id requester) app) w"
      using P by (auto simp: midway_def granted_def last_write_def split: option.splits)
  qed (use weak in auto)
  have mut: "hoare env (?R (Some c)) (mutateAclGroups (co_ferrum_consumer_id c) (\<lambda>_. membership_change apiId False tg)
      (no_options\<lparr>mo_absentIsDone := False, mo_requireActiveUser := None\<rparr>)
      (regrant_guard apiId (u_id requester) app) (None :: unit io option))
      (\<lambda>(seen, r) w. case r of
          Inl f \<Rightarrow> granted i w \<or> claimed i j w
        | Inr (Written v) \<Rightarrow> seen = Some None \<and> claimed i j w \<and> last_write i w (clean i)
        | Inr _ \<Rightarrow> (\<exists>g. seen = Some (Some g) \<and> own_grant i g) \<and> granted i w) ?E" for c tg
  proof (rule hoare_mutateAclGroups [where
        G = "\<lambda>g ok w. ?R (Some c) w \<and> (case g of Some x \<Rightarrow> \<not> ok \<and> own_grant i x \<and> granted i w | None \<Rightarrow> ok \<and> claimed i j w)" and
        A = "\<lambda>g w. g = None \<and> claimed i j w \<and> last_write i w (clean i)"])
    show sR: "stable env (?R (Some c))" using stable_conj [OF sP st(6)] by simp
    show "stable env (\<lambda>w. ?R (Some c) w \<and> (case g of Some x \<Rightarrow> \<not> True \<and> own_grant i x \<and> granted i w | None \<Rightarrow> True \<and> claimed i j w))" for g
      by (cases g) (auto intro!: stable_conj sP st stable_const)
    show "hoare env (?R (Some c)) (regrant_guard apiId (u_id requester) app)
       (\<lambda>(g, ok) w. ?R (Some c) w \<and> (case g of Some x \<Rightarrow> \<not> ok \<and> own_grant i x \<and> granted i w | None \<Rightarrow> ok \<and> claimed i j w)) (\<lambda>f. ?R (Some c))"
      by (rule hoare_regrant_guard [OF fair sR]) (use weak ids in auto)
    have "clean i (membership_change apiId False tg cur)" for cur
      by (auto simp: membership_change_def clean_def not_of_api_iff ids)
    then show "(g :: grant option) = None \<and> claimed i j (w\<lparr>w_puts := w_puts w @ [\<lparr>pt_consumer = co_ferrum_consumer_id c,
        pt_groups = membership_change apiId False tg cur, pt_acked = True\<rparr>]\<rparr>) \<and>
       last_write i (w\<lparr>w_puts := w_puts w @ [\<lparr>pt_consumer = co_ferrum_consumer_id c,
        pt_groups = membership_change apiId False tg cur, pt_acked = True\<rparr>]\<rparr>) (clean i)"
      if "?R (Some c) w \<and> (case g of Some x \<Rightarrow> \<not> True \<and> own_grant i x \<and> granted i w | None \<Rightarrow> True \<and> claimed i j w)" for g w cur
      using that by (auto intro!: last_write_put split: option.splits)
  qed (use weak in \<open>auto simp: no_options_def split: option.splits\<close>)
  show ?thesis unfolding setGroupMembership_def Let_def if_False
  proof (rule hoare_bind [where R = "\<lambda>_. ?P"], rule hoare_return, assumption,
      rule hoare_bind [where R = ?R], rule read)
    fix api :: "api option" and consumer
    show "hoare env (?R consumer) (case consumer of None \<Rightarrow> io_return (None, None)
      | Some c \<Rightarrow> io_bind (mutateAclGroups (co_ferrum_consumer_id c) (\<lambda>_. membership_change apiId False
            (case api of None \<Rightarrow> [] | Some a \<Rightarrow> if a_agents a = None then [] else mcpGroupsForGrant apiId None))
          (no_options\<lparr>mo_absentIsDone := False, mo_requireActiveUser := None\<rparr>)
          (regrant_guard apiId (u_id requester) app) None)
        (\<lambda>(seen, r). case r of Inl f \<Rightarrow> io_throw f | Inr (Written v) \<Rightarrow> io_return (seen, v) | Inr _ \<Rightarrow> io_return (seen, None)))
      ?Q ?E"
    proof (cases consumer)
      case (Some c)
      show ?thesis unfolding Some option.case
        by (rule hoare_bind [OF mut [of c, unfolded option.case]])
           (auto intro!: hoare_throw hoare_return split: sum.splits mutation.splits)
    qed (auto intro!: hoare_return)
  qed
qed

text \<open>An audit row changes none of this.\<close>

lemma audit_frame [simp]:
  "request_of i (auditLogs_create m a b c d db) = request_of i db" "job_of i (auditLogs_create m a b c d db) = job_of i db"
  "active_of i (auditLogs_create m a b c d db) = active_of i db" "consumer_of i (auditLogs_create m a b c d db) = consumer_of i db"
  "keyed (auditLogs_create m a b c d db) = keyed db"
  by (simp_all add: auditLogs_create_def request_of_def accessRequests_findById_def job_of_def
      accessGatewayJobs_findBySubject_def active_of_def grants_findActiveByApiAndUser_def consumer_of_def
      consumers_findByUser_def keyed_def)

lemma hoare_audit_try:
  assumes "stable env P" "\<And>w m a b c d. P w \<Longrightarrow> P (w\<lparr>w_db := auditLogs_create m a b c d (w_db w)\<rparr>)"
  shows "hoare env P (io_try (io_bind io_now (\<lambda>now. io_tx (tx_audit actor action target now)))) (\<lambda>_. P) E"
proof (rule hoare_try, rule hoare_bind [where R = "\<lambda>_. P"], rule hoare_now [OF assms(1)], assumption)
  show "hoare env P (io_tx (tx_audit actor action target now)) (\<lambda>_. P) (\<lambda>_. P)" for now
    by (rule hoare_tx [OF assms(1)]) (use assms(2) in \<open>auto simp: tx_simps\<close>)
qed

lemma settled_state_audit:
  "settled_state i p0 s w \<Longrightarrow> settled_state i p0 s (w\<lparr>w_db := auditLogs_create m a b c d (w_db w)\<rparr>)"
  by (auto simp: settled_state_def granted_def compensated_def owed_def last_write_def split: if_splits)

lemma stable_settled:
  "fair_env i env \<Longrightarrow> stable env (settled_state i p0 settled)"
  unfolding settled_state_def using stable_states(2-4) by (cases settled) (auto intro: stable_disj)

text \<open>Returning the request: with nothing left on the gateway the compensation is complete.\<close>

definition taken_back :: "ident \<Rightarrow> put list \<Rightarrow> bool \<Rightarrow> world \<Rightarrow> bool" where
  "taken_back i p0 settled w \<longleftrightarrow> settled \<longrightarrow> w_puts w = p0 \<or> last_write i w (clean i)"

lemma stable_taken_back: "fair_env i env \<Longrightarrow> stable env (taken_back i p0 settled)"
  unfolding taken_back_def
  by (cases settled) (auto intro!: stable_disj stable_puts [of env "\<lambda>p. p = p0"] stable_states(7) stable_const)

lemma hoare_release:
  assumes fair: "fair_env i env" and sub: "jb_subject_id j = i_request i"
  shows "hoare env (\<lambda>w. granted i w \<or> claimed i j w \<and> taken_back i p0 settled w)
    (io_bind (io_try (io_bind io_now (\<lambda>now. io_tx (settleOwnRequest j (i_request i) released now))))
       (\<lambda>r. case r of Inl f \<Rightarrow> io_return False | Inr _ \<Rightarrow> io_return settled))
    (\<lambda>s. settled_state i p0 s) E"
proof -
  let ?P = "\<lambda>w. granted i w \<or> claimed i j w \<and> taken_back i p0 settled w"
  have sP: "stable env ?P" by (intro stable_disj stable_conj stable_states [OF fair] stable_taken_back [OF fair])
  let ?R = "\<lambda>r w. granted i w \<or> (case r of Inl f \<Rightarrow> owed i w | Inr _ \<Rightarrow> owed i w \<and> (settled \<longrightarrow> compensated i p0 w))"
  have tx: "hoare env ?P (io_tx (settleOwnRequest j (i_request i) released now)) (\<lambda>a. ?R (Inr a)) (\<lambda>f. ?R (Inl f))" for now
  proof (rule hoare_tx [OF sP])
    fix w a db'
    assume P: "?P w" and t: "settleOwnRequest j (i_request i) released now (w_db w) = Inr (a, db')"
    show "?R (Inr a) (w\<lparr>w_db := db'\<rparr>) \<and> (\<forall>f. ?R (Inl f) (w\<lparr>w_db := db'\<rparr>))"
    proof (cases "granted i w")
      case True
      then have "accessGatewayJobs_findBySubject (w_db w) (jb_subject_id j) = None"
        using sub by (simp add: granted_def job_of_def)
      then have "db' = w_db w" using settleOwnRequest_unowned t by auto
      then show ?thesis using True by simp
    next
      case False
      then have c: "claimed i j w" "taken_back i p0 settled w" using P by auto
      have "pq_status released = Some Rq_Pending" by (simp add: released_def)
      note s = settleOwnRequest_claimed [OF c(1) sub this t]
      have "owed i (w\<lparr>w_db := db'\<rparr>)" using s(2) by (simp add: owed_def)
      moreover have "compensated i p0 (w\<lparr>w_db := db'\<rparr>)" if settled
        using that s(3-5) c(2) by (auto simp: compensated_def taken_back_def last_write_def clean_def)
      ultimately show ?thesis by simp
    qed
  next
    fix w f
    assume "?P w"
    then show "?R (Inl f) w" by (auto simp: claimed_def owed_def)
  qed
  have "hoare env ?P (io_try (io_bind io_now (\<lambda>now. io_tx (settleOwnRequest j (i_request i) released now)))) ?R E"
    by (rule hoare_try, rule hoare_bind [where R = "\<lambda>_. ?P"], rule hoare_now [OF sP], assumption, rule tx)
  then show ?thesis
    by (rule hoare_bind) (auto intro!: hoare_return simp: settled_state_def split: sum.splits)
qed

lemma hoare_unwindApproval:
  assumes fair: "fair_env i env" and sub: "jb_subject_id j = i_request i"
    and ids: "a_id api = i_api i" "u_id requester = i_user i" "app = i_app i"
  shows "hoare env (\<lambda>w. granted i w \<or> midway i j p0 w \<and> (groupAdded \<or> w_puts w = p0))
    (unwindApproval ns actor api requester (i_request i) groupAdded app j) (\<lambda>s. settled_state i p0 s) E"
proof -
  let ?P = "\<lambda>w. granted i w \<or> midway i j p0 w \<and> (groupAdded \<or> w_puts w = p0)"
  have sP: "stable env ?P"
    by (intro stable_disj stable_conj stable_states [OF fair] stable_midway [OF fair] stable_const
        stable_puts [of env "\<lambda>p. p = p0"])
  let ?R = "\<lambda>live w. case live of Some l \<Rightarrow> own_grant i l \<and> granted i w | None \<Rightarrow> ?P w"
  have read: "hoare env ?P (io_catch (io_read (\<lambda>db. grants_findActiveByApiAndUser db (a_id api) (u_id requester) app))
      (\<lambda>_. io_return None)) ?R E"
  proof (rule hoare_catch [where R = "\<lambda>_. ?P"])
    show "hoare env ?P (io_read (\<lambda>db. grants_findActiveByApiAndUser db (a_id api) (u_id requester) app)) ?R (\<lambda>_. ?P)"
    proof (rule hoare_read [OF sP])
      fix w
      assume P: "?P w"
      have a: "grants_findActiveByApiAndUser (w_db w) (a_id api) (u_id requester) app = active_of i (w_db w)"
        using ids by (simp add: active_of_def)
      show "?R (grants_findActiveByApiAndUser (w_db w) (a_id api) (u_id requester) app) w"
        using P granted_own [of i w] by (auto simp: a midway_def claimed_def granted_def own_grant_def split: option.splits)
    qed
  qed (auto intro!: hoare_return)
  let ?S = "\<lambda>(regrant, settled) w. case regrant of
      Some g \<Rightarrow> settled \<and> own_grant i g \<and> granted i w
    | None \<Rightarrow> granted i w \<or> claimed i j w \<and> taken_back i p0 settled w"
  have take: "hoare env ?P (if groupAdded
       then io_bind (io_try (setGroupMembership ns requester (a_id api) False app False
              (regrant_guard (a_id api) (u_id requester) app) (None :: unit io option) None))
            (\<lambda>r. case r of Inl f \<Rightarrow> io_return (None, False)
               | Inr (seen, _) \<Rightarrow> io_return (case seen of None \<Rightarrow> None | Some g \<Rightarrow> g, True))
       else io_return (None, True)) ?S E"
  proof (cases groupAdded)
    case True
    let ?r = "\<lambda>(seen :: grant option option) w. case seen of
        Some (Some g) \<Rightarrow> own_grant i g \<and> granted i w
      | Some None \<Rightarrow> claimed i j w \<and> last_write i w (clean i) | None \<Rightarrow> claimed i j w \<and> w_puts w = p0"
    have "hoare env ?P (io_try (setGroupMembership ns requester (a_id api) False app False
              (regrant_guard (a_id api) (u_id requester) app) (None :: unit io option) None))
          (\<lambda>r w. case r of Inl f \<Rightarrow> granted i w \<or> claimed i j w | Inr (seen, _) \<Rightarrow> ?r seen w) E"
      by (rule hoare_try, rule hoare_weaken [OF hoare_remove_groups [OF fair ids, where j = j and ?p0.0 = p0]]) auto
    then show ?thesis unfolding if_P [OF True]
      by (rule hoare_bind) (auto intro!: hoare_return simp: taken_back_def split: sum.splits option.splits)
  next
    case False
    then show ?thesis by (auto intro!: hoare_return simp: midway_def taken_back_def)
  qed
  have body: "hoare env (?R live) (case live of
         Some l \<Rightarrow> io_return (gr_access_request_id l = Some (i_request i))
       | None \<Rightarrow>
           io_bind (if groupAdded
               then io_bind (io_try (setGroupMembership ns requester (a_id api) False app False
                        (regrant_guard (a_id api) (u_id requester) app) (None :: unit io option) None))
                      (\<lambda>r. case r of
                          Inl f \<Rightarrow> io_return (None, False)
                        | Inr (seen, _) \<Rightarrow> io_return (case seen of None \<Rightarrow> None | Some g \<Rightarrow> g, True))
               else io_return (None, True)) (\<lambda>(regrant, settled). case regrant of
             Some g \<Rightarrow> io_return (settled \<and> gr_access_request_id g = Some (i_request i))
           | None \<Rightarrow>
               io_bind (io_try (io_bind io_now (\<lambda>now. io_tx (settleOwnRequest j (i_request i) released now))))
                 (\<lambda>r. case r of Inl f \<Rightarrow> io_return False | Inr _ \<Rightarrow> io_return settled)))
       (\<lambda>s. settled_state i p0 s) E" for live
  proof (cases live)
    case (Some l)
    then show ?thesis by (auto intro!: hoare_return simp: settled_state_def)
  next
    case None
    have "hoare env (?S (regrant, settled)) (case regrant of
             Some g \<Rightarrow> io_return (settled \<and> gr_access_request_id g = Some (i_request i))
           | None \<Rightarrow> io_bind (io_try (io_bind io_now (\<lambda>now. io_tx (settleOwnRequest j (i_request i) released now))))
                 (\<lambda>r. case r of Inl f \<Rightarrow> io_return False | Inr _ \<Rightarrow> io_return settled))
       (\<lambda>s. settled_state i p0 s) E" for regrant settled
      using hoare_release [OF fair sub]
      by (cases regrant) (auto intro!: hoare_return simp: settled_state_def)
    then show ?thesis unfolding None option.case by (intro hoare_bind [OF take]) auto
  qed
  show ?thesis unfolding unwindApproval_def
    by (rule hoare_bind [OF read], rule hoare_bind [OF body],
        rule hoare_bind [where R = "\<lambda>_. settled_state i p0 settled" for settled],
        rule hoare_audit_try [OF stable_settled [OF fair] settled_state_audit]) (auto intro!: hoare_return)
qed

subsection \<open>The group write and the grant\<close>

text \<open>A failure of the write may name a disabled account only before anything was sent.\<close>

definition add_failed :: "ident \<Rightarrow> job \<Rightarrow> put list \<Rightarrow> failure \<Rightarrow> world \<Rightarrow> bool" where
  "add_failed i j p0 f w \<longleftrightarrow> granted i w \<or> midway i j p0 w \<and> (err_code (f_error f) \<noteq> USER_DISABLED \<or> w_puts w = p0)"

lemma commit_tx_error:
  "approve_commit_tx actor req api requester tools j newId now db = Inl e \<Longrightarrow> err_code e \<noteq> USER_DISABLED"
  by (auto simp: approve_commit_tx_def tx_bind_def tx_check_def rbind_eq_Inl grants_create_def mapConflict_def
      tx_audit_def tx_of_def tx_return_def tx_throw_def approve_application_def supersededApproval_def
      disabled_application_def conflict_def notFound_def mk_error_def accessGatewayJobs_deleteClaimed_def
      split: if_splits option.splits)

lemma hoare_approve_guard:
  assumes fair: "fair_env i env" and sub: "jb_subject_id j = i_request i"
    and ids: "a_id api = i_api i" "u_id requester = i_user i" "rq_application_id req = i_app i"
    and P: "stable env P" "\<And>w. P w \<Longrightarrow> claimed i j w"
  shows "hoare env P (approve_guard j api requester req) (\<lambda>(g, ok) w. g = (False, False) \<and> ok \<and> P w) (\<lambda>_. P)"
proof -
  have own: "hoare env P (stillOwned j) (\<lambda>owned w. owned \<and> P w) (\<lambda>_. P)"
    unfolding stillOwned_def
    by (rule hoare_read [OF P(1)]) (use P(2) sub in \<open>auto simp: claimed_def job_of_def\<close>)
  have read: "hoare env P (io_read (\<lambda>db. grants_findActiveByApiAndUser db (a_id api) (u_id requester) (rq_application_id req)))
      (\<lambda>holder w. holder = None \<and> P w) (\<lambda>_. P)"
    by (rule hoare_read [OF P(1)]) (use P(2) ids in \<open>auto simp: claimed_def active_of_def\<close>)
  have "hoare env (\<lambda>w. holder = None \<and> P w) (let regranted = (case holder of
       None \<Rightarrow> False | Some h \<Rightarrow> gr_access_request_id h \<noteq> Some (rq_id req))
     in io_return ((False, regranted), \<not> regranted)) (\<lambda>(g, ok) w. g = (False, False) \<and> ok \<and> P w) (\<lambda>_. P)" for holder
    by (cases holder) (auto simp: hoare_def io_return_def)
  note rest = hoare_bind [OF read this]
  have "hoare env (\<lambda>w. owned \<and> P w) (if \<not> owned then io_return ((True, False), False)
      else io_bind (io_read (\<lambda>db. grants_findActiveByApiAndUser db (a_id api) (u_id requester) (rq_application_id req)))
        (\<lambda>holder. let regranted = (case holder of None \<Rightarrow> False | Some h \<Rightarrow> gr_access_request_id h \<noteq> Some (rq_id req))
           in io_return ((False, regranted), \<not> regranted))) (\<lambda>(g, ok) w. g = (False, False) \<and> ok \<and> P w) (\<lambda>_. P)" for owned
    using rest by (cases owned) (auto simp: hoare_def)
  then show ?thesis unfolding approve_guard_def by (rule hoare_bind [OF own])
qed

text \<open>The commit behind an acknowledged write.\<close>

lemma hoare_commit:
  assumes fair: "fair_env i env"
    and ids: "rq_id req = i_request i" "a_id api = i_api i" "u_id requester = i_user i" "rq_application_id req = i_app i"
  shows "hoare env (\<lambda>w. claimed i j w \<and> last_write i w (\<lambda>gs. aclGroupForApi (i_api i) \<in> set gs))
    (io_bind io_newId (\<lambda>newId. io_bind io_now (\<lambda>now. io_tx (approve_commit_tx actor req api requester tools j newId now))))
    (\<lambda>g w. granted i w \<and> active_of i (w_db w) = Some g \<and> gr_approved_tools g = tools) (add_failed i j p0)"
proof -
  let ?P = "\<lambda>w. claimed i j w \<and> last_write i w (\<lambda>gs. aclGroupForApi (i_api i) \<in> set gs)"
  have sP: "stable env ?P" by (intro stable_conj stable_states [OF fair])
  have mid: "midway i j p0 w" if "?P w" for w using that by (auto simp: midway_def last_write_def)
  have code: "err_code (f_error f) \<noteq> USER_DISABLED" if "store_failure env f" for f
    using that fair by (auto simp: store_failure_def fair_env_def)
  have tx: "hoare env ?P (io_tx (approve_commit_tx actor req api requester tools j newId now))
    (\<lambda>g w. granted i w \<and> active_of i (w_db w) = Some g \<and> gr_approved_tools g = tools) (add_failed i j p0)" for newId now
  proof (rule hoare_tx_cases [OF sP])
    fix w g db'
    assume P: "?P w" and t: "approve_commit_tx actor req api requester tools j newId now (w_db w) = Inr (g, db')"
    then show "granted i (w\<lparr>w_db := db'\<rparr>) \<and> active_of i (w_db (w\<lparr>w_db := db'\<rparr>)) = Some g \<and> gr_approved_tools g = tools"
      using commit_tx [OF _ t ids] by (auto simp: granted_def last_write_def)
    then show "add_failed i j p0 f (w\<lparr>w_db := db'\<rparr>)" for f by (simp add: add_failed_def)
  qed (use mid code commit_tx_error in \<open>auto simp: add_failed_def plain_def\<close>)
  show ?thesis
    by (rule hoare_bind [where R = "\<lambda>_. ?P"], rule hoare_newId [OF sP], assumption,
        rule hoare_bind [where R = "\<lambda>_. ?P"], rule hoare_now [OF sP], assumption, rule tx)
qed

lemma hoare_add_group:
  assumes fair: "fair_env i env" and sub: "jb_subject_id j = i_request i"
    and ids: "rq_id req = i_request i" "a_id api = i_api i" "u_id requester = i_user i" "rq_application_id req = i_app i"
  shows "hoare env (\<lambda>w. claimed i j w \<and> w_puts w = p0)
    (setGroupMembership ns requester (a_id api) True (rq_application_id req) False (approve_guard j api requester req)
       (Some (io_bind io_newId (\<lambda>newId. io_bind io_now (\<lambda>now.
          io_tx (approve_commit_tx actor req api requester tools j newId now))))) tools)
    (\<lambda>(seen, committed) w. seen = Some (False, False) \<and> (\<exists>g. committed = Some g \<and>
       active_of i (w_db w) = Some g \<and> gr_approved_tools g = tools) \<and> granted i w)
    (add_failed i j p0)"
proof -
  let ?P = "\<lambda>w. claimed i j w \<and> w_puts w = p0"
  let ?Q = "\<lambda>(seen, committed) w. seen = Some (False, False) \<and> (\<exists>g. committed = Some g \<and>
       active_of i (w_db w) = Some g \<and> gr_approved_tools g = tools) \<and> granted i w"
  have sP: "stable env ?P" by (intro stable_conj stable_states [OF fair] stable_puts [of env "\<lambda>p. p = p0"])
  have err: "\<And>w f. ?P w \<Longrightarrow> add_failed i j p0 f w" by (auto simp: add_failed_def midway_def)
  let ?C = "\<lambda>c w. ?P w \<and> consumer_of i (w_db w) = Some c"
  have sC: "stable env (?C c)" for c by (intro stable_conj sP stable_states(6) [OF fair])
  have ens: "hoare env ?P (ensureConsumer ns requester (rq_application_id req)) ?C (add_failed i j p0)"
  proof (rule hoare_weaken [OF hoare_ensureConsumer [OF sP, where E = "add_failed i j p0"]])
    fix w c db'
    assume "?P w" "consumers_create c (w_db w) = Inr (c, db')"
    then have "?P w" "db' = (w_db w)\<lparr>db_consumers := db_consumers (w_db w) @ [c]\<rparr>"
      using consumers_create_Inr(2) by blast+
    then show "?P (w\<lparr>w_db := db'\<rparr>)"
      by (auto simp: claimed_def keyed_def job_of_def active_of_def request_of_def
          accessGatewayJobs_findBySubject_def grants_findActiveByApiAndUser_def accessRequests_findById_def)
  qed (use ids err in \<open>auto simp: consumer_of_def\<close>)
  let ?commit = "io_bind io_newId (\<lambda>newId. io_bind io_now (\<lambda>now.
          io_tx (approve_commit_tx actor req api requester tools j newId now)))"
  have put: "e_put env n = Some f \<Longrightarrow> err_code (f_error f) \<noteq> USER_DISABLED" for n f
    using fair by (simp add: fair_env_def)
  have mut: "hoare env (?C c) (mutateAclGroups (co_ferrum_consumer_id c) (\<lambda>_. membership_change (a_id api) True tg)
      (no_options\<lparr>mo_absentIsDone := False, mo_requireActiveUser := Some (u_id requester)\<rparr>)
      (approve_guard j api requester req) (Some ?commit))
      (\<lambda>(seen, r) w. case r of
          Inl f \<Rightarrow> add_failed i j p0 f w
        | Inr (Written v) \<Rightarrow> ?Q (seen, v) w
        | Inr _ \<Rightarrow> False) (add_failed i j p0)" for c tg
  proof (rule hoare_mutateAclGroups [where G = "\<lambda>g ok w. g = (False, False) \<and> ok \<and> ?C c w" and
        A = "\<lambda>g w. g = (False, False) \<and> claimed i j w \<and> last_write i w (\<lambda>gs. aclGroupForApi (i_api i) \<in> set gs)"])
    show "stable env (?C c)" by (rule sC)
    show "stable env (\<lambda>w. g = (False, False) \<and> True \<and> ?C c w)" for g
      by (cases "g = (False, False)") (use sC in \<open>auto simp: stable_def\<close>)
    show "hoare env (?C c) (approve_guard j api requester req) (\<lambda>(g, ok) w. g = (False, False) \<and> ok \<and> ?C c w) (\<lambda>f. ?C c)"
      by (rule hoare_approve_guard [OF fair sub ids(2-4) sC]) simp
    show "g = (False, False) \<and> claimed i j (w\<lparr>w_puts := w_puts w @ [\<lparr>pt_consumer = co_ferrum_consumer_id c,
          pt_groups = membership_change (a_id api) True tg cur, pt_acked = True\<rparr>]\<rparr>) \<and>
        last_write i (w\<lparr>w_puts := w_puts w @ [\<lparr>pt_consumer = co_ferrum_consumer_id c,
          pt_groups = membership_change (a_id api) True tg cur, pt_acked = True\<rparr>]\<rparr>) (\<lambda>gs. aclGroupForApi (i_api i) \<in> set gs)"
      if "g = (False, False) \<and> True \<and> ?C c w" for g w cur
      using that ids by (auto intro!: last_write_put simp: membership_change_def)
    show "case Some ?commit of
          None \<Rightarrow> \<forall>w. g = (False, False) \<and> claimed i j w \<and> last_write i w (\<lambda>gs. aclGroupForApi (i_api i) \<in> set gs) \<longrightarrow>
            (case (Some g, Inr (Written None)) of (seen, r) \<Rightarrow> \<lambda>w. case r of Inl f \<Rightarrow> add_failed i j p0 f w
              | Inr (Written v) \<Rightarrow> ?Q (seen, v) w | Inr _ \<Rightarrow> False) w
        | Some m \<Rightarrow> hoare env (\<lambda>w. g = (False, False) \<and> claimed i j w \<and> last_write i w (\<lambda>gs. aclGroupForApi (i_api i) \<in> set gs)) m
            (\<lambda>v. case (Some g, Inr (Written (Some v))) of (seen, r) \<Rightarrow> \<lambda>w. case r of Inl f \<Rightarrow> add_failed i j p0 f w
              | Inr (Written v) \<Rightarrow> ?Q (seen, v) w | Inr _ \<Rightarrow> False)
            (\<lambda>f. case (Some g, Inl f) of (seen, r) \<Rightarrow> \<lambda>w. case r of Inl f \<Rightarrow> add_failed i j p0 f w
              | Inr (Written v) \<Rightarrow> ?Q (seen, v) w | Inr _ \<Rightarrow> False)" for g
    proof (cases "g = (False, False)")
      case True
      show ?thesis unfolding option.case True
        by (rule hoare_weaken [OF hoare_commit [OF fair ids, where j = j and actor = actor and tools = tools and ?p0.0 = p0]]) auto
    qed (simp add: hoare_def)
  qed (use err put in \<open>auto simp: no_options_def add_failed_def midway_def\<close>)
  show ?thesis unfolding setGroupMembership_def Let_def if_True
  proof (rule hoare_bind [where R = "\<lambda>_. ?P"])
    show "hoare env ?P (io_read (\<lambda>db. apis_findById db (a_id api))) (\<lambda>_. ?P) (add_failed i j p0)"
      by (rule hoare_read [OF sP err])
    fix x
    show "hoare env ?P (io_bind (io_bind (ensureConsumer ns requester (rq_application_id req)) (\<lambda>c. io_return (Some c)))
        (\<lambda>consumer. case consumer of None \<Rightarrow> io_return (None, None)
          | Some c \<Rightarrow> io_bind (mutateAclGroups (co_ferrum_consumer_id c) (\<lambda>_. membership_change (a_id api) True
                (case x of None \<Rightarrow> [] | Some a \<Rightarrow> if a_agents a = None then [] else mcpGroupsForGrant (a_id api) tools))
              (no_options\<lparr>mo_absentIsDone := False, mo_requireActiveUser := Some (u_id requester)\<rparr>)
              (approve_guard j api requester req) (Some ?commit))
             (\<lambda>(seen, r). case r of Inl f \<Rightarrow> io_throw f | Inr (Written v) \<Rightarrow> io_return (seen, v)
                | Inr _ \<Rightarrow> io_return (seen, None)))) ?Q (add_failed i j p0)"
    proof (rule hoare_bind [where R = "\<lambda>consumer w. case consumer of None \<Rightarrow> False | Some c \<Rightarrow> ?C c w"])
      show "hoare env ?P (io_bind (ensureConsumer ns requester (rq_application_id req)) (\<lambda>c. io_return (Some c)))
          (\<lambda>consumer w. case consumer of None \<Rightarrow> False | Some c \<Rightarrow> ?C c w) (add_failed i j p0)"
        by (rule hoare_bind [OF ens]) (auto intro!: hoare_return)
    next
      fix consumer
      let ?rest = "\<lambda>c. io_bind (mutateAclGroups (co_ferrum_consumer_id c) (\<lambda>_. membership_change (a_id api) True
                (case x of None \<Rightarrow> [] | Some a \<Rightarrow> if a_agents a = None then [] else mcpGroupsForGrant (a_id api) tools))
              (no_options\<lparr>mo_absentIsDone := False, mo_requireActiveUser := Some (u_id requester)\<rparr>)
              (approve_guard j api requester req) (Some ?commit))
             (\<lambda>(seen, r). case r of Inl f \<Rightarrow> io_throw f | Inr (Written v) \<Rightarrow> io_return (seen, v)
                | Inr _ \<Rightarrow> io_return (seen, None))"
      have "hoare env (?C c) (?rest c) ?Q (add_failed i j p0)" for c
        by (rule hoare_bind [OF mut]) (auto intro!: hoare_throw hoare_return split: sum.splits mutation.splits)
      then show "hoare env (\<lambda>w. case consumer of None \<Rightarrow> False | Some c \<Rightarrow> ?C c w)
          (case consumer of None \<Rightarrow> io_return (None, None) | Some c \<Rightarrow> ?rest c) ?Q (add_failed i j p0)"
        by (cases consumer) (simp_all only: option.case, simp add: hoare_def)
    qed
  qed
qed

subsection \<open>The approval\<close>

lemma hoare_approve_gateway:
  assumes fair: "fair_env i env" and sub: "jb_subject_id j = i_request i"
    and ids: "rq_id req = i_request i" "a_id api = i_api i" "u_id requester = i_user i" "rq_application_id req = i_app i"
  shows "hoare env (\<lambda>w. claimed i j w \<and> w_puts w = p0) (approve_gateway ns actor req api requester tools j)
    (\<lambda>g w. granted i w \<and> active_of i (w_db w) = Some g \<and> gr_approved_tools g = tools) (\<lambda>_. nothing_stranded i p0)"
  unfolding approve_gateway_def
proof (rule hoare_bind [OF hoare_try])
  let ?Q = "\<lambda>r w. case r of Inl f \<Rightarrow> add_failed i j p0 f w
    | Inr (seen, committed) \<Rightarrow> seen = Some (False, False) \<and> (\<exists>g. committed = Some g \<and>
       active_of i (w_db w) = Some g \<and> gr_approved_tools g = tools) \<and> granted i w"
  show "hoare env (\<lambda>w. claimed i j w \<and> w_puts w = p0) (setGroupMembership ns requester (a_id api) True
      (rq_application_id req) False (approve_guard j api requester req) (Some (io_bind io_newId (\<lambda>newId. io_bind io_now (\<lambda>now.
        io_tx (approve_commit_tx actor req api requester tools j newId now))))) tools)
      (\<lambda>a. ?Q (Inr a)) (\<lambda>f. ?Q (Inl f))"
    by (rule hoare_weaken [OF hoare_add_group [OF fair sub ids, where ?p0.0 = p0]]) auto
  have "hoare env (add_failed i j p0 f) (io_bind (unwindApproval ns actor api requester (rq_id req)
          (err_code (f_error f) \<noteq> USER_DISABLED) (rq_application_id req) j) (\<lambda>settled.
        io_bind (settleOwnedJob (Some j) settled (err_message (f_error f))) (\<lambda>_. io_throw f)))
      Q (\<lambda>_. nothing_stranded i p0)" for f and Q :: "grant \<Rightarrow> world \<Rightarrow> bool"
  proof (rule hoare_bind)
    show "hoare env (add_failed i j p0 f) (unwindApproval ns actor api requester (rq_id req)
          (err_code (f_error f) \<noteq> USER_DISABLED) (rq_application_id req) j) (settled_state i p0) (\<lambda>_. nothing_stranded i p0)"
      unfolding ids(1)
      by (rule hoare_weaken [OF hoare_unwindApproval [OF fair sub ids(2-4), where ?p0.0 = p0]])
         (auto simp: add_failed_def)
  qed (rule hoare_bind [OF hoare_settleOwnedJob [OF fair]], rule hoare_throw)
  then show "hoare env (?Q r) (case r of
           Inr (seen, committed) \<Rightarrow>
             if seen = Some (True, False) then io_throw (plain supersededApproval)
             else if seen = Some (False, True)
             then (let e = conflict ''This identity already has an active grant for this API'' None
                   in io_bind (settleOwnedJob (Some j) False (err_message e)) (\<lambda>_. io_throw (plain e)))
             else (case committed of
                 Some g \<Rightarrow> io_return g
               | None \<Rightarrow> io_throw (plain (internal_error ''The approval recorded no grant'')))
         | Inl f \<Rightarrow>
             io_bind (unwindApproval ns actor api requester (rq_id req)
                 (err_code (f_error f) \<noteq> USER_DISABLED) (rq_application_id req) j) (\<lambda>settled.
             io_bind (settleOwnedJob (Some j) settled (err_message (f_error f))) (\<lambda>_. io_throw f)))
      (\<lambda>g w. granted i w \<and> active_of i (w_db w) = Some g \<and> gr_approved_tools g = tools) (\<lambda>_. nothing_stranded i p0)" for r
    by (cases r) (auto simp: hoare_def io_return_def split: prod.splits)
qed

lemma hoare_loadRequest:
  assumes fair: "fair_env i env" and r0: "request_of i (w_db w0) = Some r0"
    and i: "i = \<lparr>i_request = k, i_api = rq_api_id r0, i_user = rq_user_id r0, i_app = rq_application_id r0\<rparr>"
  shows "hoare env (untouched i w0) (loadRequest k)
    (\<lambda>(req, api, requester) w. untouched i w0 w \<and> req = r0 \<and> a_id api = i_api i \<and> u_id requester = i_user i) (\<lambda>_. untouched i w0)"
proof -
  note sU = stable_states(1) [OF fair, of w0]
  let ?U = "untouched i w0"
  have r: "hoare env ?U (io_read (\<lambda>db. accessRequests_findById db k)) (\<lambda>r w. ?U w \<and> r = Some r0) (\<lambda>_. ?U)"
    by (rule hoare_read [OF sU]) (use r0 i in \<open>auto simp: untouched_def request_of_def\<close>)
  have a: "hoare env ?U (io_read (\<lambda>db. apis_findById db (rq_api_id r0)))
      (\<lambda>a w. ?U w \<and> (\<forall>x. a = Some x \<longrightarrow> a_id x = rq_api_id r0)) (\<lambda>_. ?U)"
    by (rule hoare_read [OF sU]) (auto simp: apis_findById_def find_by_def find_Some_iff)
  have u: "hoare env ?U (io_read (\<lambda>db. users_findById db (rq_user_id r0)))
      (\<lambda>a w. ?U w \<and> (\<forall>x. a = Some x \<longrightarrow> u_id x = rq_user_id r0)) (\<lambda>_. ?U)"
    by (rule hoare_read [OF sU]) (auto simp: users_findById_def find_by_def find_Some_iff)
  let ?Q = "\<lambda>(req, api, requester) w. ?U w \<and> req = r0 \<and> a_id api = i_api i \<and> u_id requester = i_user i"
  have "hoare env ?U (io_bind (io_read (\<lambda>db. users_findById db (rq_user_id r0))) (\<lambda>u. case u of
           None \<Rightarrow> io_throw (plain (notFound ''Requester'' (Some (rq_user_id r0))))
         | Some requester \<Rightarrow> io_return (r0, x, requester))) ?Q (\<lambda>_. ?U)" if "a_id x = rq_api_id r0" for x
    using that by (intro hoare_bind [OF u]) (auto simp: i intro!: hoare_throw hoare_return split: option.splits)
  then have "hoare env (\<lambda>w. ?U w \<and> (\<forall>x. a = Some x \<longrightarrow> a_id x = rq_api_id r0)) (case a of
         None \<Rightarrow> io_throw (plain (notFound ''API'' (Some (rq_api_id r0))))
       | Some api \<Rightarrow> io_bind (io_read (\<lambda>db. users_findById db (rq_user_id r0))) (\<lambda>u. case u of
           None \<Rightarrow> io_throw (plain (notFound ''Requester'' (Some (rq_user_id r0))))
         | Some requester \<Rightarrow> io_return (r0, api, requester))) ?Q (\<lambda>_. ?U)" for a
    by (cases a) (auto intro!: hoare_pure hoare_throw)
  note rest = hoare_bind [OF a this]
  show ?thesis unfolding loadRequest_def
  proof (rule hoare_bind [OF r])
    fix x
    show "hoare env (\<lambda>w. ?U w \<and> x = Some r0) (case x of
         None \<Rightarrow> io_throw (plain (notFound ''Access request'' (Some k)))
       | Some req \<Rightarrow> io_bind (io_read (\<lambda>db. apis_findById db (rq_api_id req))) (\<lambda>a. case a of
           None \<Rightarrow> io_throw (plain (notFound ''API'' (Some (rq_api_id req))))
         | Some api \<Rightarrow> io_bind (io_read (\<lambda>db. users_findById db (rq_user_id req))) (\<lambda>u. case u of
             None \<Rightarrow> io_throw (plain (notFound ''Requester'' (Some (rq_user_id req))))
           | Some requester \<Rightarrow> io_return (req, api, requester)))) ?Q (\<lambda>_. ?U)"
      by (rule hoare_pure) (simp only: option.case rest)
  qed
qed

lemma hoare_claimApproval:
  assumes fair: "fair_env i env" and act: "active_of i (w_db w0) = None"
    and ids: "rq_id req = i_request i"
  shows "hoare env (untouched i w0) (claimApproval actor req requester tools note)
    (\<lambda>(updated, j) w. claimed i j w \<and> w_puts w = w_puts w0 \<and> jb_subject_id j = i_request i)
    (\<lambda>_ w. untouched i w0 w \<or> owed i w)"
proof -
  let ?U = "untouched i w0" and ?E = "\<lambda>_ w. untouched i w0 w \<or> owed i w"
  note sU = stable_states(1) [OF fair, of w0]
  let ?Q = "\<lambda>(updated, j) w. claimed i j w \<and> w_puts w = w_puts w0 \<and> jb_subject_id j = i_request i"
  have tx: "hoare env ?U (io_tx (claim_tx actor req requester tools note newId gen at1))
      (\<lambda>c w. case c of None \<Rightarrow> ?U w | Some x \<Rightarrow> ?Q x w) ?E" for newId gen at1
  proof (rule hoare_tx [OF sU])
    fix w a db'
    assume U: "?U w" and t: "claim_tx actor req requester tools note newId gen at1 (w_db w) = Inr (a, db')"
    have k: "keyed (w_db w)" using U by (simp add: untouched_def)
    show "(case a of None \<Rightarrow> ?U (w\<lparr>w_db := db'\<rparr>) | Some x \<Rightarrow> ?Q x (w\<lparr>w_db := db'\<rparr>)) \<and> (\<forall>f. ?E f (w\<lparr>w_db := db'\<rparr>))"
    proof (cases a)
      case None
      then have "db' = w_db w" using claim_tx_None [OF k] t by blast
      then show ?thesis using U None by simp
    next
      case (Some x)
      obtain updated j where x: "x = (updated, j)" by (rule prod.exhaust)
      note c = claim_tx_Some [OF k t [unfolded Some x]]
      have "jb_subject_id j = i_request i"
        using c(1,2) ids by (simp add: findBySubject_iff keyed_def)
      moreover have "claimed i j (w\<lparr>w_db := db'\<rparr>)"
        using c U act active_of_cong [OF c(4), of i] ids
        by (simp add: claimed_def untouched_def job_of_def request_of_def)
      ultimately show ?thesis using Some x U by (auto simp: untouched_def claimed_def owed_def)
    qed
  qed simp
  have "hoare env (\<lambda>w. case c of None \<Rightarrow> ?U w | Some x \<Rightarrow> ?Q x w) (case c of Some c \<Rightarrow> io_return c
      | None \<Rightarrow> io_bind (io_read (\<lambda>db. decisionConflict db (rq_id req))) (\<lambda>e. io_throw (plain e))) ?Q ?E" for c
    by (cases c) (auto intro!: hoare_return hoare_throw hoare_bind [where R = "\<lambda>_. ?U"] hoare_read [OF sU])
  note rest = hoare_bind [OF tx this]
  show ?thesis unfolding claimApproval_def
    by (rule hoare_bind [where R = "\<lambda>_. ?U"], rule hoare_newId [OF sU], assumption,
        rule hoare_bind [where R = "\<lambda>_. ?U"], rule hoare_newId [OF sU], assumption,
        rule hoare_bind [where R = "\<lambda>_. ?U"], rule hoare_now [OF sU], assumption, rule rest)
qed

lemma admission_quiet: "quiet env (admission_checks actor initialApi req api)"
  unfolding admission_checks_def by (intro quiets)

lemma approve_checks_quiet: "quiet env (approve_checks req api tools)"
  unfolding approve_checks_def by (intro quiets)

text \<open>Everything an approval leaves behind.\<close>

definition approval_left :: "ident \<Rightarrow> world \<Rightarrow> world \<Rightarrow> bool" where
  "approval_left i w0 w \<longleftrightarrow> untouched i w0 w \<or> nothing_stranded i (w_puts w0) w"

lemma approval_leftI: "untouched i w0 w \<Longrightarrow> approval_left i w0 w"
  "nothing_stranded i (w_puts w0) w \<Longrightarrow> approval_left i w0 w" "owed i w \<Longrightarrow> approval_left i w0 w"
  by (auto simp: approval_left_def nothing_stranded_def)

definition approved :: "ident \<Rightarrow> access_request \<times> grant \<Rightarrow> world \<Rightarrow> bool" where
  "approved i x w \<longleftrightarrow> granted i w \<and> active_of i (w_db w) = Some (snd x)"

lemma hoare_approve_claimed:
  assumes fair: "fair_env i env" and act: "active_of i (w_db w0) = None"
    and ids: "rq_id req = i_request i" "a_id api = i_api i" "u_id requester = i_user i" "rq_application_id req = i_app i"
  shows "hoare env (untouched i w0) (io_bind (claimApproval actor req requester tools note) (\<lambda>(updated, job).
      io_bind (approve_gateway ns actor req api requester tools job) (\<lambda>g. io_return (updated, g))))
    (approved i) (\<lambda>_. approval_left i w0)"
proof (rule hoare_bind)
  let ?C = "\<lambda>(updated :: access_request, j) w. claimed i j w \<and> w_puts w = w_puts w0 \<and> jb_subject_id j = i_request i"
  show "hoare env (untouched i w0) (claimApproval actor req requester tools note) ?C (\<lambda>_. approval_left i w0)"
    by (rule hoare_weaken [OF hoare_claimApproval [OF fair act ids(1)]]) (auto intro: approval_leftI)
  fix x :: "access_request \<times> job"
  obtain updated j where x: "x = (updated, j)" by (rule prod.exhaust)
  have "hoare env (\<lambda>w. (claimed i j w \<and> w_puts w = w_puts w0) \<and> jb_subject_id j = i_request i)
      (io_bind (approve_gateway ns actor req api requester tools j) (\<lambda>g. io_return (updated, g))) (approved i) (\<lambda>_. approval_left i w0)"
  proof (rule hoare_pure, rule hoare_bind)
    assume sub: "jb_subject_id j = i_request i"
    show "hoare env (\<lambda>w. claimed i j w \<and> w_puts w = w_puts w0) (approve_gateway ns actor req api requester tools j)
        (\<lambda>g w. approved i (updated, g) w) (\<lambda>_. approval_left i w0)"
      by (rule hoare_weaken [OF hoare_approve_gateway [OF fair sub ids, where ?p0.0 = "w_puts w0"]])
         (auto simp: approved_def intro: approval_leftI)
  qed (auto intro: hoare_return)
  then show "hoare env (?C x) (case x of (updated, job) \<Rightarrow>
      io_bind (approve_gateway ns actor req api requester tools job) (\<lambda>g. io_return (updated, g))) (approved i) (\<lambda>_. approval_left i w0)"
    by (simp add: x)
qed

lemma hoare_approve_access:
  assumes fair: "fair_env i env"
    and ids: "rq_id req = i_request i" "a_id api = i_api i" "u_id requester = i_user i" "rq_application_id req = i_app i"
  shows "hoare env (untouched i w0) (approve_access ns actor req api requester note approvedTools)
    (approved i) (\<lambda>_. approval_left i w0)"
proof -
  note sU = stable_states(1) [OF fair, of w0]
  have read: "hoare env (untouched i w0) (io_read (\<lambda>db. grants_findActiveByApiAndUser db (a_id api) (u_id requester)
      (rq_application_id req))) (\<lambda>held w. untouched i w0 w \<and> held = active_of i (w_db w0)) (\<lambda>_. approval_left i w0)"
    by (rule hoare_read [OF sU]) (use ids in \<open>auto simp: untouched_def active_of_def intro: approval_leftI\<close>)
  have rest: "hoare env (untouched i w0) (io_bind (approve_checks req api tools) (\<lambda>_.
      io_bind (claimApproval actor req requester tools note) (\<lambda>(updated, job).
      io_bind (approve_gateway ns actor req api requester tools job) (\<lambda>g. io_return (updated, g)))))
      (approved i) (\<lambda>_. approval_left i w0)" if "active_of i (w_db w0) = None" for tools
    by (rule hoare_quiet [OF approve_checks_quiet sU hoare_approve_claimed [OF fair that ids]]) (rule approval_leftI)
  show ?thesis unfolding approve_access_def Let_def
    by (rule hoare_bind [OF read], rule hoare_pure) (use rest in \<open>auto intro!: hoare_throw approval_leftI(1)\<close>)
qed

lemma hoare_approve:
  assumes fair: "fair_env i env" and r0: "request_of i (w_db w0) = Some r0" "rq_grant_id r0 = None"
    and i: "i = \<lparr>i_request = k, i_api = rq_api_id r0, i_user = rq_user_id r0, i_app = rq_application_id r0\<rparr>"
  shows "hoare env (untouched i w0) (approve ns actor k note approvedTools) (approved i) (\<lambda>_. approval_left i w0)"
proof -
  let ?U = "untouched i w0" and ?E = "\<lambda>_ :: failure. approval_left i w0"
  note sU = stable_states(1) [OF fair, of w0]
  have k: "rq_id r0 = i_request i" "rq_application_id r0 = i_app i"
    using r0(1) i by (auto simp: request_of_def accessRequests_findById_def find_by_def find_Some_iff)
  let ?L = "\<lambda>(req, api, requester) w. ?U w \<and> req = r0 \<and> a_id api = i_api i \<and> u_id requester = i_user i"
  have load: "hoare env ?U (loadRequest k) ?L ?E"
    by (rule hoare_weaken [OF hoare_loadRequest [OF fair r0(1) i]]) (auto intro: approval_leftI)
  have "hoare env (\<lambda>w. ?U w \<and> req = r0 \<and> a_id api = i_api i \<and> u_id requester = i_user i)
      (io_bind (admission_checks actor initialApi req api) (\<lambda>_.
       if rq_grant_id req \<noteq> None then approveTools ns actor req api requester note approvedTools
       else approve_access ns actor req api requester note approvedTools)) (approved i) ?E" for initialApi req api requester
  proof (rule hoare_pure, elim conjE)
    assume "req = r0" and a: "a_id api = i_api i" "u_id requester = i_user i"
    then show "hoare env ?U (io_bind (admission_checks actor initialApi req api) (\<lambda>_.
       if rq_grant_id req \<noteq> None then approveTools ns actor req api requester note approvedTools
       else approve_access ns actor req api requester note approvedTools)) (approved i) ?E"
      using hoare_approve_access [OF fair k(1) a k(2)] r0(2)
      by (intro hoare_quiet [OF admission_quiet sU]) (auto intro: approval_leftI)
  qed
  then have "hoare env (?L x) (case x of (req, api, requester) \<Rightarrow> io_bind (admission_checks actor initialApi req api) (\<lambda>_.
       if rq_grant_id req \<noteq> None then approveTools ns actor req api requester note approvedTools
       else approve_access ns actor req api requester note approvedTools)) (approved i) ?E" for initialApi x
    by (cases x) simp
  then have decide: "hoare env ?U (approve_decide ns actor k initialApi note approvedTools) (approved i) ?E" for initialApi
    unfolding approve_decide_def by (rule hoare_bind [OF load])
  have tail: "hoare env ?U (io_bind (io_result (assertCanReview actor initialApi)) (\<lambda>_.
       if truthy (a_ferrum_proxy_id initialApi)
       then io_lock (proxyLockKey (the (a_ferrum_proxy_id initialApi))) (approve_decide ns actor k initialApi note approvedTools)
       else approve_decide ns actor k initialApi note approvedTools)) (approved i) ?E" for initialApi
    by (rule hoare_quiet [OF quiet_result sU]) (auto intro!: hoare_lock [OF sU] decide approval_leftI(1))
  show ?thesis unfolding approve_def Let_def
    by (rule hoare_bind [OF load], rule hoare_prodI, rule hoare_prodI, simp only: prod.case, rule hoare_weaken [OF tail]) auto
qed

text \<open>
  C1. However an approval of a request for access ends, access is not stranded. If it returns, the
  request's grant is active, the gateway acknowledged the API's group in its last write of that
  consumer, and no job is owed. If it throws, then either nothing of the identity changed and
  nothing was sent; or the grant stands with its group acknowledged; or the request is pending again
  with no grant and no group of the API in the last write; or the durable job is still there for the
  worker. This holds for every answer of the gateway, every refused or unacknowledged transaction
  and every action of the others outside the rows the keys protect.
\<close>

theorem approve_never_strands:
  assumes "fair_env i env" "keyed (w_db w0)" "request_of i (w_db w0) = Some r0" "rq_grant_id r0 = None"
    and "i = \<lparr>i_request = k, i_api = rq_api_id r0, i_user = rq_user_id r0, i_app = rq_application_id r0\<rparr>"
  shows "case approve ns actor k note tools env w0 of
      (Inr x, w') \<Rightarrow> approved i x w'
    | (Inl f, w') \<Rightarrow> untouched i w0 w' \<or> granted i w' \<or> compensated i (w_puts w0) w' \<or> owed i w'"
proof -
  have "untouched i w0 w0" using assms(2) by (simp add: untouched_def)
  with hoare_approve [OF assms(1,3-5), of ns actor "note" tools] show ?thesis
    unfolding hoare_def approval_left_def nothing_stranded_def by simp
qed

definition quiet_env :: env where
  "quiet_env = \<lparr>e_other = (\<lambda>n db. db), e_fault = (\<lambda>n. None), e_lock = (\<lambda>n k. None),
     e_get = (\<lambda>n c. Inr (Some [])), e_put = (\<lambda>n. None), e_ensure = (\<lambda>n. Inr ''c1''),
     e_now = int, e_id = (\<lambda>n. ''id''), e_send = (\<lambda>n. Accepted),
     e_find = (\<lambda>n c. Inr True), e_named = (\<lambda>n u. Inr None), e_act = (\<lambda>n. None)\<rparr>"

definition ex_request :: access_request where
  "ex_request = \<lparr>rq_id = ''r1'', rq_api_id = ''a1'', rq_user_id = ''u1'', rq_application_id = None,
     rq_justification = ''why'', rq_status = Rq_Pending, rq_decided_by = None, rq_decided_at = None,
     rq_decision_note = None, rq_requested_tools = None, rq_approved_tools = None, rq_grant_id = None,
     rq_created_at = 0, rq_updated_at = 0\<rparr>"

definition ex_world :: world where
  "ex_world = \<lparr>w_db = \<lparr>db_users = [example_user ''u1'' Client],
       db_apis = [\<lparr>a_id = ''a1'', a_owner_user_id = ''o1'', a_status = Published, a_visibility = Vis_Public,
         a_requestable = True, a_ferrum_proxy_id = Some ''p1'', a_agents = None\<rparr>],
       db_applications = [], db_viewers = [], db_consumers = [], db_requests = [ex_request], db_grants = [],
       db_jobs = [], db_audit = [], db_recovery = [], db_outbox = [], db_sessions = [], db_tokens = [], db_identities = [],
       db_orgs = [], db_teardown = [], db_credentials = [], db_registry = [], db_settings = [], db_proofs = [], db_password_locks = [], db_claims = []\<rparr>, w_tick = 0, w_puts = [], w_sent = [], w_acts = []\<rparr>"

definition ex_ident :: ident where
  "ex_ident = \<lparr>i_request = ''r1'', i_api = ''a1'', i_user = ''u1'', i_app = None\<rparr>"

definition ex_owner :: user where
  "ex_owner = example_user ''o1'' Provider"

theorem approve_never_strands_witness:
  "case approve ''ns'' ex_owner ''r1'' None None quiet_env ex_world of
      (Inr x, w') \<Rightarrow> approved ex_ident x w'
    | (Inl f, w') \<Rightarrow> untouched ex_ident ex_world w' \<or> granted ex_ident w' \<or>
        compensated ex_ident (w_puts ex_world) w' \<or> owed ex_ident w'"
proof -
  have "fair_env ex_ident quiet_env" by (simp add: fair_env_def quiet_env_def leaves_alone_def)
  moreover have "keyed (w_db ex_world)" by (simp add: keyed_def ex_world_def requests_unique_def)
  moreover have "request_of ex_ident (w_db ex_world) = Some ex_request"
    by (simp add: request_of_def ex_ident_def ex_world_def accessRequests_findById_def find_by_def ex_request_def)
  moreover have "rq_grant_id ex_request = None" by (simp add: ex_request_def)
  moreover have "ex_ident = \<lparr>i_request = ''r1'', i_api = rq_api_id ex_request, i_user = rq_user_id ex_request,
      i_app = rq_application_id ex_request\<rparr>"
    by (simp add: ex_ident_def ex_request_def)
  ultimately show ?thesis by (rule approve_never_strands)
qed

end
