(* ===== verification/Revocation.thy ===== *)
theory Revocation
  imports Approval
begin

section \<open>Revocations\<close>

text \<open>
  Models the withdrawal of grants of \<open>server/src/access/service.ts\<close>: \<open>withdrawGrant\<close> behind \<open>revoke\<close> and
  \<open>relinquish\<close>, with the claim that commits the revocation together with its durable job, the guarded
  removal of the groups, and the rollback of a revocation the gateway would not accept; and the sweep
  \<open>revokeAllForUser\<close>.

  The loops of the rollback retry for as long as a crashed instance may hold a key: they run until the
  clock has passed the lease's time to live. Here they take fuel, and running out of it is a failure of
  its own, \<open>out_of_fuel\<close>; \<open>Rollback_Loops\<close> shows that with an advancing clock it never happens.
  The notices of a revocation and the details of its audit rows are not modelled.
\<close>

definition out_of_fuel :: failure where
  "out_of_fuel = plain (internal_error ''the loop has not ended yet'')"

subsection \<open>The claim\<close>

definition moveRequestToRevoked ::
  "grant \<Rightarrow> string \<Rightarrow> int \<Rightarrow> string option \<Rightarrow> access_request option tx" where
  "moveRequestToRevoked g actorId at1 note =
     (if \<not> truthy (gr_access_request_id g) then tx_return None
      else tx_bind (tx_read (\<lambda>db. accessRequests_findById db (the (gr_access_request_id g)))) (\<lambda>found. case found of
          None \<Rightarrow> tx_return None
        | Some req \<Rightarrow>
            if rq_status req \<noteq> Rq_Approved then tx_return None
            else tx_bind (accessRequests_updateIfStatus at1 (rq_id req) Rq_Approved
                (no_request_patch\<lparr>pq_status := Some Rq_Revoked, pq_decided_by := Some (Some actorId),
                   pq_decided_at := Some (Some at1),
                   pq_decision_note := Some (if note = None then rq_decision_note req else note)\<rparr>))
              (\<lambda>moved. tx_return (if moved = None then None else Some req))))"

definition cancelPendingToolRequest :: "grant \<Rightarrow> user \<Rightarrow> int \<Rightarrow> access_request option tx" where
  "cancelPendingToolRequest g actor at1 =
     tx_bind (tx_read (\<lambda>db. accessRequests_findPendingByApiAndUser db (gr_api_id g) (gr_user_id g) (gr_application_id g)))
       (\<lambda>pending. case pending of
          None \<Rightarrow> tx_return None
        | Some p \<Rightarrow>
            if rq_grant_id p \<noteq> Some (gr_id g) then tx_return None
            else tx_bind (accessRequests_updateIfStatus at1 (rq_id p) Rq_Pending
                (no_request_patch\<lparr>pq_status := Some Rq_Cancelled, pq_decided_by := Some (Some (u_id actor)),
                   pq_decided_at := Some (Some at1), pq_decision_note := Some (Some INACTIVE_GRANT_NOTE)\<rparr>))
              (\<lambda>closed. if closed = None then tx_return None
                 else tx_bind (tx_audit (Some (u_id actor)) ACCESS_CANCEL (rq_id p) at1) (\<lambda>_. tx_return (Some p))))"

definition revoked_patch :: "string \<Rightarrow> int \<Rightarrow> grant_patch" where
  "revoked_patch actorId at1 = no_grant_patch\<lparr>pg_status := Some Gr_Revoked, pg_revoked_by := Some (Some actorId),
     pg_revoked_at := Some (Some at1)\<rparr>"

text \<open>The row as the claim left it, the requests it moved, and the job it wrote. \<open>extra\<close> is the
  caller's \<open>recordWithRevoke\<close>.\<close>

record claim =
  cl_grant :: grant
  cl_request :: "access_request option"
  cl_toolRequest :: "access_request option"
  cl_job :: job

definition revoke_tx ::
  "user \<Rightarrow> grant \<Rightarrow> string option \<Rightarrow> (grant \<Rightarrow> unit tx) \<Rightarrow> string \<Rightarrow> string \<Rightarrow> int \<Rightarrow> claim option tx" where
  "revoke_tx actor g reason extra newId generation revokedAt =
     tx_bind (grants_updateIfStatus revokedAt (gr_id g) Gr_Active (revoked_patch (u_id actor) revokedAt)) (\<lambda>result.
     case result of
       None \<Rightarrow> tx_return None
     | Some updated \<Rightarrow>
         tx_bind (moveRequestToRevoked g (u_id actor) revokedAt reason) (\<lambda>moved.
         tx_bind (cancelPendingToolRequest g actor revokedAt) (\<lambda>tool.
         tx_bind (accessGatewayJobs_upsertClaimed newId generation
            \<lparr>ji_kind = Job_Revoke, ji_subject_id = gr_id g, ji_api_id = gr_api_id g, ji_user_id = gr_user_id g,
             ji_application_id = gr_application_id g, ji_requested_by = Some (u_id actor)\<rparr> revokedAt) (\<lambda>job.
         tx_bind (tx_audit (Some (u_id actor)) ACCESS_REVOKE (gr_id g) revokedAt) (\<lambda>_.
         tx_bind (extra updated) (\<lambda>_.
         tx_return (Some \<lparr>cl_grant = updated, cl_request = moved, cl_toolRequest = tool, cl_job = job\<rparr>)))))))"

subsection \<open>Putting a claim back\<close>

datatype tool_restore = Tool_Restored | Tool_Account_Recovery | Tool_Left

definition restoreToolRequest :: "grant \<Rightarrow> access_request \<Rightarrow> int \<Rightarrow> tool_restore tx" where
  "restoreToolRequest cl req now =
     tx_bind (tx_read (\<lambda>db. (accessRequests_findById db (rq_id req), accountRecoveryJobs_findByUser db (gr_user_id cl) \<noteq> None,
         accessRequests_findPendingByApiAndUser db (gr_api_id cl) (gr_user_id cl) (gr_application_id cl))))
       (\<lambda>(found, recovering, occupied). case found of
          None \<Rightarrow> tx_return Tool_Left
        | Some current \<Rightarrow>
            if rq_status current \<noteq> Rq_Cancelled \<or> rq_grant_id current \<noteq> Some (gr_id cl) \<or>
               rq_decided_by current \<noteq> gr_revoked_by cl \<or> rq_decided_at current \<noteq> gr_revoked_at cl
            then tx_return Tool_Left
            else if recovering then tx_return Tool_Account_Recovery
            else if occupied \<noteq> None then tx_return Tool_Left
            else tx_bind (accessRequests_updateIfStatus now (rq_id req) Rq_Cancelled
                (no_request_patch\<lparr>pq_status := Some Rq_Pending, pq_decided_by := Some (rq_decided_by req),
                   pq_decided_at := Some (rq_decided_at req), pq_decision_note := Some (rq_decision_note req)\<rparr>))
              (\<lambda>back. tx_return (if back = None then Tool_Left else Tool_Restored)))"

datatype restore_skip = Grantee_Disabled | Grantee_Missing | Application_Missing | Group_Absent

definition restoreRefusal :: "portal_db \<Rightarrow> grant \<Rightarrow> restore_skip option" where
  "restoreRefusal db g = (case users_findById db (gr_user_id g) of
      None \<Rightarrow> Some Grantee_Missing
    | Some owner \<Rightarrow>
        if u_status owner \<noteq> User_Active then Some Grantee_Disabled
        else if truthy (gr_application_id g) then
          (case applications_findById db (the (gr_application_id g)) of
             None \<Rightarrow> Some Application_Missing
           | Some application \<Rightarrow>
               if ap_owner_user_id application \<noteq> gr_user_id g then Some Application_Missing else None)
        else None)"

record restore =
  rs_restored :: bool
  rs_skipped :: "restore_skip option"
  rs_tool :: tool_restore

definition not_restored :: restore where
  "not_restored = \<lparr>rs_restored = False, rs_skipped = None, rs_tool = Tool_Left\<rparr>"

definition restored_patch :: grant_patch where
  "restored_patch = no_grant_patch\<lparr>pg_status := Some Gr_Active, pg_revoked_by := Some None, pg_revoked_at := Some None\<rparr>"

text \<open>After the grant went back: its job, its originating request, the tool request its claim cancelled.\<close>

definition restore_rest :: "grant \<Rightarrow> access_request option \<Rightarrow> access_request option \<Rightarrow> int \<Rightarrow> restore tx" where
  "restore_rest cl request toolRequest now =
     tx_bind (tx_of (accessGatewayJobs_deleteBySubject (gr_id cl))) (\<lambda>_.
     tx_bind (case request of
         None \<Rightarrow> tx_return None
       | Some r \<Rightarrow> accessRequests_updateIfStatus now (rq_id r) Rq_Revoked
           (no_request_patch\<lparr>pq_status := Some (rq_status r), pq_decided_by := Some (rq_decided_by r),
              pq_decided_at := Some (rq_decided_at r), pq_decision_note := Some (rq_decision_note r)\<rparr>)) (\<lambda>_.
     tx_bind (case toolRequest of None \<Rightarrow> tx_return Tool_Left | Some t \<Rightarrow> restoreToolRequest cl t now) (\<lambda>tool.
     tx_return \<lparr>rs_restored = True, rs_skipped = None, rs_tool = tool\<rparr>)))"

definition restoreRevoked ::
  "grant \<Rightarrow> access_request option \<Rightarrow> access_request option \<Rightarrow> bool \<Rightarrow> int \<Rightarrow> restore tx" where
  "restoreRevoked cl request toolRequest groupPresent now =
     tx_bind (tx_read (\<lambda>db. (grants_findById db (gr_id cl),
         case grants_findById db (gr_id cl) of None \<Rightarrow> None | Some g \<Rightarrow> restoreRefusal db g))) (\<lambda>(found, refusal).
     case found of
       None \<Rightarrow> tx_return not_restored
     | Some current \<Rightarrow>
         if gr_status current \<noteq> Gr_Revoked \<or> gr_revoked_at current \<noteq> gr_revoked_at cl \<or>
            gr_revoked_by current \<noteq> gr_revoked_by cl
         then tx_return not_restored
         else if refusal \<noteq> None then tx_return (not_restored\<lparr>rs_skipped := refusal\<rparr>)
         else if \<not> groupPresent then tx_return (not_restored\<lparr>rs_skipped := Some Group_Absent\<rparr>)
         else tx_bind (grants_updateIfStatus now (gr_id cl) Gr_Revoked restored_patch) (\<lambda>back.
           if back = None then tx_return not_restored else restore_rest cl request toolRequest now))"

text \<open>An unreadable consumer answers \<open>true\<close>; only a confirmed absence of it answers \<open>false\<close>.\<close>

definition groupStillOn :: "string \<Rightarrow> string \<Rightarrow> string list \<Rightarrow> bool io" where
  "groupStillOn consumerId grp tools =
     io_catch (io_bind (edge_verification consumerId) (\<lambda>live. io_return (case live of
         None \<Rightarrow> False
       | Some groups \<Rightarrow> list_ex (\<lambda>entry. entry \<in> set groups) (grp # tools)))) (\<lambda>_. io_return True)"

definition live_tool_groups :: "portal_db \<Rightarrow> grant \<Rightarrow> string option \<Rightarrow> string list" where
  "live_tool_groups db cl proxyId =
     (let published = (case apis_findById db (gr_api_id cl) of
            None \<Rightarrow> []
          | Some api \<Rightarrow> if truthy proxyId \<and> a_ferrum_proxy_id api = proxyId
                       then map the (filter truthy (published_tools api)) else [])
      in if published = [] then []
         else mcpGroupsForGrant (gr_api_id cl) (map_option (filter (\<lambda>i. i \<in> set published)) (gr_approved_tools cl)))"

definition under_lifecycle :: "string \<Rightarrow> (int \<Rightarrow> 'a tx) \<Rightarrow> 'a io" where
  "under_lifecycle userId body =
     io_lock (userLifecycleLockKey userId) (io_lock (accountRecoveryLockKey userId)
       (io_bind io_now (\<lambda>now. io_tx (body now))))"

definition restoreOnce :: "grant \<Rightarrow> string option \<Rightarrow> (bool \<Rightarrow> int \<Rightarrow> 'a tx) \<Rightarrow> 'a io" where
  "restoreOnce cl proxyId body =
     io_bind (io_read (\<lambda>db. consumers_findByUser db (gr_user_id cl) (gr_application_id cl))) (\<lambda>consumer.
     case consumer of
       None \<Rightarrow> under_lifecycle (gr_user_id cl) (body False)
     | Some c \<Rightarrow> io_lock (co_ferrum_consumer_id c)
         (io_bind (io_read (\<lambda>db. live_tool_groups db cl proxyId)) (\<lambda>tools.
          io_bind (groupStillOn (co_ferrum_consumer_id c) (gr_acl_group cl) tools) (\<lambda>present.
          under_lifecycle (gr_user_id cl) (body present)))))"

fun restoreUnderKeys :: "nat \<Rightarrow> grant \<Rightarrow> int \<Rightarrow> string option \<Rightarrow> (bool \<Rightarrow> int \<Rightarrow> 'a tx) \<Rightarrow> 'a io" where
  "restoreUnderKeys 0 cl since proxyId body = io_throw out_of_fuel"
| "restoreUnderKeys (Suc fuel) cl since proxyId body =
     io_bind io_now (\<lambda>attempt.
     io_catch (restoreOnce cl proxyId body) (\<lambda>f.
       if isLockTimeout f \<and> attempt - since \<le> LEASE_TTL_MS then restoreUnderKeys fuel cl since proxyId body
       else io_throw f))"

definition PROXY_KEPT_CHANGING :: failure where
  "PROXY_KEPT_CHANGING =
     plain (conflict ''The gateway proxy kept changing while this revocation was rolled back'' None)"

text \<open>One round under the current proxy's key: \<open>None\<close> when the proxy has moved on meanwhile.\<close>

definition restore_under_proxy ::
  "nat \<Rightarrow> grant \<Rightarrow> int \<Rightarrow> string \<Rightarrow> (bool \<Rightarrow> int \<Rightarrow> 'a tx) \<Rightarrow> 'a option io" where
  "restore_under_proxy fuel cl since proxyId body =
     io_lock (proxyLockKey proxyId) (io_bind (io_read (\<lambda>db. apis_findById db (gr_api_id cl))) (\<lambda>current.
       if (case current of None \<Rightarrow> True | Some a \<Rightarrow> a_ferrum_proxy_id a \<noteq> Some proxyId) then io_return None
       else io_bind (restoreUnderKeys fuel cl since (Some proxyId) body) (\<lambda>v. io_return (Some v))))"

definition retry_round :: "int \<Rightarrow> int \<Rightarrow> 'a io \<Rightarrow> failure + 'a option \<Rightarrow> 'a io" where
  "retry_round attempt since again r = (case r of
      Inr result \<Rightarrow> (case result of
          Some v \<Rightarrow> io_return v
        | None \<Rightarrow> if attempt - since > LEASE_TTL_MS then io_throw PROXY_KEPT_CHANGING else again)
    | Inl f \<Rightarrow> if isLockTimeout f \<and> attempt - since \<le> LEASE_TTL_MS then again else io_throw f)"

fun restoreUnderFreshProxy ::
  "nat \<Rightarrow> nat \<Rightarrow> grant \<Rightarrow> int \<Rightarrow> (bool \<Rightarrow> int \<Rightarrow> 'a tx) \<Rightarrow> 'a io" where
  "restoreUnderFreshProxy 0 inner cl since body = io_throw out_of_fuel"
| "restoreUnderFreshProxy (Suc fuel) inner cl since body =
     io_bind io_now (\<lambda>attempt.
     io_bind (io_read (\<lambda>db. apis_findById db (gr_api_id cl))) (\<lambda>api.
     let proxyId = (case api of None \<Rightarrow> None | Some a \<Rightarrow> if a_agents a = None then None else a_ferrum_proxy_id a)
     in if \<not> truthy proxyId then restoreUnderKeys inner cl since None body
        else io_bind (io_try (restore_under_proxy inner cl since (the proxyId) body))
               (retry_round attempt since (restoreUnderFreshProxy fuel inner cl since body))))"

subsection \<open>Undoing a revocation\<close>

definition MAX_PAGE_SIZE :: nat where "MAX_PAGE_SIZE = 200"

text \<open>The newest page of a target's audit rows; rows of one instant in the order they were written. The
  source asks for the target's type beside its id; the model's rows carry the id alone, which is a UUID of
  its own for every entity.\<close>

definition auditRowCommitted :: "string \<Rightarrow> string \<Rightarrow> bool io" where
  "auditRowCommitted target rowId =
     io_catch (io_read (\<lambda>db. list_ex (\<lambda>a. au_id a = Some rowId) (take MAX_PAGE_SIZE
         (rev (sort_key au_created_at (filter (\<lambda>a. au_target a = target) (db_audit db)))))))
       (\<lambda>_. io_return False)"

definition restore_body :: "claim \<Rightarrow> bool \<Rightarrow> int \<Rightarrow> restore tx" where
  "restore_body c = restoreRevoked (cl_grant c) (cl_request c) (cl_toolRequest c)"

text \<open>The restore without its audit row; \<open>True\<close> asks the caller to resume under a fresh proxy once it
  has left its section.\<close>

definition restoreAlone :: "nat \<Rightarrow> user \<Rightarrow> claim \<Rightarrow> int \<Rightarrow> string option \<Rightarrow> bool \<Rightarrow> bool io" where
  "restoreAlone fuel actor c since proxyId freshProxy =
     io_bind (io_try (if freshProxy then restoreUnderFreshProxy fuel fuel (cl_grant c) since (restore_body c)
                      else restoreUnderKeys fuel (cl_grant c) since proxyId (restore_body c))) (\<lambda>r.
     if (case r of Inl f \<Rightarrow> \<not> freshProxy \<and> isLeaseLost f | Inr _ \<Rightarrow> False) then io_return True
     else io_bind (io_try (io_bind io_now (\<lambda>now.
              io_tx (tx_audit (Some (u_id actor)) ACCESS_REVOKE_ROLLBACK (gr_id (cl_grant c)) now))))
            (\<lambda>_. io_return False))"

text \<open>The value is the instant the rollback began, when it has to be resumed under a fresh proxy.\<close>

definition unwindRevocation :: "nat \<Rightarrow> user \<Rightarrow> claim \<Rightarrow> string option \<Rightarrow> int option io" where
  "unwindRevocation fuel actor c proxyId =
     io_bind io_newId (\<lambda>rollbackId. io_bind io_now (\<lambda>since.
     io_bind (io_try (restoreUnderKeys fuel (cl_grant c) since proxyId (\<lambda>present now.
         tx_bind (restore_body c present now) (\<lambda>_.
         tx_audit_as rollbackId (Some (u_id actor)) ACCESS_REVOKE_ROLLBACK (gr_id (cl_grant c)) now)))) (\<lambda>r. case r of
       Inr _ \<Rightarrow> io_return None
     | Inl f \<Rightarrow>
         io_bind (auditRowCommitted (gr_id (cl_grant c)) rollbackId) (\<lambda>committed.
         if committed then io_return None
         else if isLeaseLost f then io_return (Some since)
         else io_bind (restoreAlone fuel actor c since proxyId False)
                (\<lambda>resume. io_return (if resume then Some since else None))))))"

subsection \<open>withdrawGrant\<close>

datatype obsolete = Superseded | Grant_Active | Regranted

definition revocationObsolete :: "job \<Rightarrow> obsolete option io" where
  "revocationObsolete job =
     io_bind (stillOwned job) (\<lambda>owned.
     if \<not> owned then io_return (Some Superseded)
     else io_bind (io_read (\<lambda>db. grants_findById db (jb_subject_id job))) (\<lambda>g.
       if (case g of None \<Rightarrow> False | Some x \<Rightarrow> gr_status x = Gr_Active) then io_return (Some Grant_Active)
       else io_bind (io_read (\<lambda>db. grants_findActiveByApiAndUser db (jb_api_id job) (jb_user_id job) (jb_application_id job)))
         (\<lambda>live. io_return (if live = None then None else Some Regranted))))"

definition obsolete_guard :: "job \<Rightarrow> (obsolete option \<times> bool) io" where
  "obsolete_guard job = io_bind (revocationObsolete job) (\<lambda>lost. io_return (lost, lost = None))"

definition load_grant :: "user \<Rightarrow> string \<Rightarrow> bool \<Rightarrow> (grant \<times> api) io" where
  "load_grant actor grantId relinquish =
     io_bind (io_read (\<lambda>db. grants_findById db grantId)) (\<lambda>found. case found of
       None \<Rightarrow> io_throw (plain (notFound ''Grant'' (Some grantId)))
     | Some g \<Rightarrow>
         io_bind (io_result (assertCanWithdraw actor g relinquish)) (\<lambda>_.
         io_bind (io_read (\<lambda>db. apis_findById db (gr_api_id g))) (\<lambda>a. case a of
           None \<Rightarrow> io_throw (plain (notFound ''API'' (Some (gr_api_id g))))
         | Some api \<Rightarrow>
             io_bind (if relinquish then io_return () else io_result (assertCanReview actor api)) (\<lambda>_.
             io_return (g, api)))))"

definition claim_revocation ::
  "user \<Rightarrow> grant \<Rightarrow> string option \<Rightarrow> (grant \<Rightarrow> unit tx) \<Rightarrow> claim io" where
  "claim_revocation actor g reason extra =
     io_bind io_newId (\<lambda>newId. io_bind io_newId (\<lambda>generation. io_bind io_now (\<lambda>revokedAt.
     io_bind (io_tx (revoke_tx actor g reason extra newId generation revokedAt)) (\<lambda>claimed. case claimed of
       Some c \<Rightarrow> io_return c
     | None \<Rightarrow> io_bind (io_read (\<lambda>db. revocationConflict db (gr_id g))) (\<lambda>e. io_throw (plain e))))))"

text \<open>The gateway step. The left value is what remains to be done after the proxy's section: resume the
  rollback, settle the job, and throw.\<close>

definition withdraw_gateway ::
  "nat \<Rightarrow> string \<Rightarrow> user \<Rightarrow> api \<Rightarrow> user option \<Rightarrow> claim \<Rightarrow> string option \<Rightarrow> ((int \<times> claim \<times> failure) + grant) io" where
  "withdraw_gateway fuel namespace actor api grantee c proxyId =
     io_bind (case grantee of
         None \<Rightarrow> io_return (Inr None)
       | Some u \<Rightarrow> io_try (io_bind (setGroupMembership namespace u (a_id api) False (gr_application_id (cl_grant c)) False
             (obsolete_guard (cl_job c)) (None :: unit io option) None)
             (\<lambda>(seen, _). io_return (case seen of None \<Rightarrow> None | Some lost \<Rightarrow> lost)))) (\<lambda>r. case r of
       Inl f \<Rightarrow>
         io_bind (unwindRevocation fuel actor c proxyId) (\<lambda>resume. case resume of
           Some since \<Rightarrow> io_return (Inl (since, c, f))
         | None \<Rightarrow> io_bind (settleOwnedJob (Some (cl_job c)) False (err_message (f_error f))) (\<lambda>_. io_throw f))
     | Inr lost \<Rightarrow>
         io_bind (if lost = Some Superseded then io_return () else settleOwnedJob (Some (cl_job c)) True [])
           (\<lambda>_. io_return (Inr (cl_grant c))))"

definition withdraw_section ::
  "nat \<Rightarrow> string \<Rightarrow> user \<Rightarrow> string \<Rightarrow> string option \<Rightarrow> bool \<Rightarrow> (grant \<Rightarrow> unit tx) \<Rightarrow> api
    \<Rightarrow> ((int \<times> claim \<times> failure) + grant) io" where
  "withdraw_section fuel namespace actor grantId reason relinquish extra initialApi =
     io_bind (load_grant actor grantId relinquish) (\<lambda>(g, api).
     io_bind (io_guard (a_ferrum_proxy_id api = a_ferrum_proxy_id initialApi)
         (conflict ''The gateway proxy changed while this revocation was waiting; reload and retry'' None)) (\<lambda>_.
     io_bind (io_read (\<lambda>db. users_findById db (gr_user_id g))) (\<lambda>grantee.
     io_bind (claim_revocation actor g reason extra) (\<lambda>c.
     withdraw_gateway fuel namespace actor api grantee c (a_ferrum_proxy_id initialApi)))))"

definition resume_withdrawal :: "nat \<Rightarrow> user \<Rightarrow> int \<Rightarrow> claim \<Rightarrow> failure \<Rightarrow> grant io" where
  "resume_withdrawal fuel actor since c f =
     io_bind (restoreAlone fuel actor c since None True) (\<lambda>_.
     io_bind (settleOwnedJob (Some (cl_job c)) False (err_message (f_error f))) (\<lambda>_. io_throw f))"

definition withdrawGrant ::
  "nat \<Rightarrow> string \<Rightarrow> user \<Rightarrow> string \<Rightarrow> string option \<Rightarrow> bool \<Rightarrow> (grant \<Rightarrow> unit tx) \<Rightarrow> grant io" where
  "withdrawGrant fuel namespace actor grantId reason relinquish extra =
     io_bind (load_grant actor grantId relinquish) (\<lambda>(initial, initialApi).
     io_bind (io_guard (gr_status initial = Gr_Active) (conflict ''This grant is already revoked'' None)) (\<lambda>_.
     let withdraw = withdraw_section fuel namespace actor grantId reason relinquish extra initialApi
     in io_bind (if truthy (a_ferrum_proxy_id initialApi)
                 then io_lock (proxyLockKey (the (a_ferrum_proxy_id initialApi))) withdraw
                 else withdraw)
          (\<lambda>withdrawn. case withdrawn of
              Inr updated \<Rightarrow> io_return updated
            | Inl (since, c, f) \<Rightarrow> resume_withdrawal fuel actor since c f)))"

definition revoke ::
  "nat \<Rightarrow> string \<Rightarrow> user \<Rightarrow> string \<Rightarrow> string option \<Rightarrow> (grant \<Rightarrow> unit tx) \<Rightarrow> grant io" where
  "revoke fuel namespace actor grantId reason extra = withdrawGrant fuel namespace actor grantId reason False extra"

definition relinquish :: "nat \<Rightarrow> string \<Rightarrow> user \<Rightarrow> string \<Rightarrow> grant io" where
  "relinquish fuel namespace user grantId = withdrawGrant fuel namespace user grantId None True (\<lambda>_. tx_return ())"

subsection \<open>revokeAllForUser\<close>

datatype bulk_stage = Stage_Claim | Stage_Lookup | Stage_Gateway

definition bulk_claim_tx :: "user \<Rightarrow> grant \<Rightarrow> string option \<Rightarrow> int \<Rightarrow> bool tx" where
  "bulk_claim_tx actor g reason revokedAt =
     tx_bind (grants_updateIfStatus revokedAt (gr_id g) Gr_Active (revoked_patch (u_id actor) revokedAt)) (\<lambda>result.
     if result = None then tx_return False
     else tx_bind (moveRequestToRevoked g (u_id actor) revokedAt reason) (\<lambda>_.
       tx_bind (cancelPendingToolRequest g actor revokedAt) (\<lambda>_.
       tx_bind (tx_audit (Some (u_id actor)) ACCESS_REVOKE (gr_id g) revokedAt) (\<lambda>_.
       tx_return True))))"

definition bulk_consumer :: "string \<Rightarrow> grant \<Rightarrow> string option io" where
  "bulk_consumer userId g =
     io_bind (io_read (\<lambda>db. apis_findById db (gr_api_id g))) (\<lambda>api.
     io_bind (io_read (\<lambda>db. users_findById db userId)) (\<lambda>grantee.
     if api = None \<or> grantee = None then io_return None
     else io_bind (io_read (\<lambda>db. consumers_findByUser db userId (gr_application_id g)))
            (\<lambda>c. io_return (map_option co_ferrum_consumer_id c))))"

definition bulk_remove :: "grant \<Rightarrow> string \<Rightarrow> unit io" where
  "bulk_remove g consumerId =
     io_bind (mutateAclGroups consumerId (\<lambda>_. filter (not_of_api (gr_api_id g))) (no_options\<lparr>mo_absentIsDone := True\<rparr>)
         (io_return ((), True)) (None :: unit io option))
       (\<lambda>(_, r). case r of Inl f \<Rightarrow> io_throw f | Inr _ \<Rightarrow> io_return ())"

text \<open>One grant of the sweep: whether it counts as revoked, or the stage that failed.\<close>

definition bulk_one :: "user \<Rightarrow> string \<Rightarrow> string option \<Rightarrow> grant \<Rightarrow> (bulk_stage + bool) io" where
  "bulk_one actor userId reason g =
     io_bind io_now (\<lambda>revokedAt.
     io_bind (io_try (io_tx (bulk_claim_tx actor g reason revokedAt))) (\<lambda>claimed. case claimed of
       Inl f \<Rightarrow> io_return (Inl Stage_Claim)
     | Inr False \<Rightarrow> io_return (Inr False)
     | Inr True \<Rightarrow>
         io_bind (io_try (bulk_consumer userId g)) (\<lambda>consumer. case consumer of
           Inl f \<Rightarrow> io_return (Inl Stage_Lookup)
         | Inr None \<Rightarrow> io_return (Inr True)
         | Inr (Some consumerId) \<Rightarrow>
             io_bind (io_try (bulk_remove g consumerId)) (\<lambda>r.
             io_return (case r of Inl f \<Rightarrow> Inl Stage_Gateway | Inr _ \<Rightarrow> Inr True)))))"

fun bulk_loop ::
  "user \<Rightarrow> string \<Rightarrow> string option \<Rightarrow> grant list \<Rightarrow> nat \<Rightarrow> (grant \<times> bulk_stage) list
    \<Rightarrow> (nat \<times> (grant \<times> bulk_stage) list) io" where
  "bulk_loop actor userId reason [] revoked failed = io_return (revoked, failed)"
| "bulk_loop actor userId reason (g # gs) revoked failed =
     io_bind (bulk_one actor userId reason g) (\<lambda>r. case r of
       Inl stage \<Rightarrow> bulk_loop actor userId reason gs revoked (failed @ [(g, stage)])
     | Inr True \<Rightarrow> bulk_loop actor userId reason gs (Suc revoked) failed
     | Inr False \<Rightarrow> bulk_loop actor userId reason gs revoked failed)"

definition revokeAllForUser ::
  "user \<Rightarrow> string \<Rightarrow> string option \<Rightarrow> (nat \<times> (grant \<times> bulk_stage) list) io" where
  "revokeAllForUser actor userId reason =
     io_bind (io_read (\<lambda>db. grants_listActiveByUser db userId None))
       (\<lambda>grants. bulk_loop actor userId reason grants 0 [])"

end
