(* ===== verification/Keeping.thy ===== *)
theory Keeping
  imports Access
begin

section \<open>Assertions a program keeps\<close>

text \<open>
  For an invariant the triples of a program are the same everywhere: what holds before holds after,
  whether it returns or throws. \<open>tx_keeps\<close> says so of a transaction body and \<open>keeps\<close> of a program; the
  collection \<open>keeping\<close> has one rule per construct, so that a proof about a program names only its
  transactions.
\<close>

named_theorems keeping \<open>programs that keep an assertion\<close>

definition tx_keeps :: "(portal_db \<Rightarrow> bool) \<Rightarrow> 'a tx \<Rightarrow> bool" where
  "tx_keeps D m \<longleftrightarrow> (\<forall>db a db'. D db \<longrightarrow> m db = Inr (a, db') \<longrightarrow> D db')"

lemma tx_keepsI: "(\<And>db a db'. D db \<Longrightarrow> m db = Inr (a, db') \<Longrightarrow> D db') \<Longrightarrow> tx_keeps D m"
  by (auto simp: tx_keeps_def)

lemma tx_keepsD: "tx_keeps D m \<Longrightarrow> D db \<Longrightarrow> m db = Inr (a, db') \<Longrightarrow> D db'"
  by (auto simp: tx_keeps_def)

lemma tx_keeps_return [keeping]: "tx_keeps D (tx_return a)"
  and tx_keeps_throw [keeping]: "tx_keeps D (tx_throw e)"
  and tx_keeps_read [keeping]: "tx_keeps D (tx_read f)"
  by (auto simp: tx_keeps_def tx_simps)

lemma tx_keeps_bind [keeping]:
  assumes "tx_keeps D m" "\<And>a. tx_keeps D (k a)"
  shows "tx_keeps D (tx_bind m k)"
proof (rule tx_keepsI)
  fix db b db'
  assume D: "D db" and t: "tx_bind m k db = Inr (b, db')"
  obtain a db1 where s: "m db = Inr (a, db1)" "k a db1 = Inr (b, db')" using t unfolding tx_simps by blast
  show "D db'" by (rule tx_keepsD [OF assms(2) tx_keepsD [OF assms(1) D s(1)] s(2)])
qed

lemma tx_keeps_of: "(\<And>db. D db \<Longrightarrow> D (snd (f db))) \<Longrightarrow> tx_keeps D (tx_of f)"
  by (rule tx_keepsI) (metis Inr_inject snd_conv tx_of_def)

lemma tx_keeps_if [keeping]: "(b \<Longrightarrow> tx_keeps D m) \<Longrightarrow> (\<not> b \<Longrightarrow> tx_keeps D m') \<Longrightarrow> tx_keeps D (if b then m else m')"
  by simp

lemma tx_keeps_option [keeping]:
  "(v = None \<Longrightarrow> tx_keeps D m) \<Longrightarrow> (\<And>x. v = Some x \<Longrightarrow> tx_keeps D (k x)) \<Longrightarrow>
     tx_keeps D (case v of None \<Rightarrow> m | Some x \<Rightarrow> k x)"
  by (cases v) auto

lemma tx_keeps_prod [keeping]: "(\<And>a b. tx_keeps D (k a b)) \<Longrightarrow> tx_keeps D (case x of (a, b) \<Rightarrow> k a b)"
  by (cases x) simp

definition keeps :: "env \<Rightarrow> (world \<Rightarrow> bool) \<Rightarrow> 'a io \<Rightarrow> bool" where
  "keeps env P m \<longleftrightarrow> hoare env P m (\<lambda>_. P) (\<lambda>_. P)"

lemma keepsD: "keeps env P m \<Longrightarrow> hoare env P m (\<lambda>_. P) (\<lambda>_. P)"
  by (simp add: keeps_def)

lemma keeps_return [keeping]: "keeps env P (io_return a)"
  and keeps_throw [keeping]: "keeps env P (io_throw f)"
  by (auto simp: keeps_def intro: hoare_return hoare_throw)

lemma keeps_bind [keeping]: "keeps env P m \<Longrightarrow> (\<And>a. keeps env P (k a)) \<Longrightarrow> keeps env P (io_bind m k)"
  by (auto simp: keeps_def intro!: hoare_bind)

lemma keeps_catch [keeping]: "keeps env P m \<Longrightarrow> (\<And>f. keeps env P (h f)) \<Longrightarrow> keeps env P (io_catch m h)"
  by (auto simp: keeps_def intro!: hoare_catch)

lemma keeps_try [keeping]: "keeps env P m \<Longrightarrow> keeps env P (io_try m)"
  by (auto simp: keeps_def intro!: hoare_try)

lemma keeps_if [keeping]: "(b \<Longrightarrow> keeps env P m) \<Longrightarrow> (\<not> b \<Longrightarrow> keeps env P m') \<Longrightarrow> keeps env P (if b then m else m')"
  by simp

lemma keeps_option [keeping]:
  "(v = None \<Longrightarrow> keeps env P m) \<Longrightarrow> (\<And>x. v = Some x \<Longrightarrow> keeps env P (k x)) \<Longrightarrow>
     keeps env P (case v of None \<Rightarrow> m | Some x \<Rightarrow> k x)"
  by (cases v) auto

lemma keeps_sum [keeping]:
  "(\<And>f. v = Inl f \<Longrightarrow> keeps env P (k f)) \<Longrightarrow> (\<And>a. v = Inr a \<Longrightarrow> keeps env P (h a)) \<Longrightarrow>
     keeps env P (case v of Inl f \<Rightarrow> k f | Inr a \<Rightarrow> h a)"
  by (cases v) auto

lemma keeps_prod [keeping]: "(\<And>a b. keeps env P (k a b)) \<Longrightarrow> keeps env P (case x of (a, b) \<Rightarrow> k a b)"
  by (cases x) simp

lemma keeps_quiet: "stable env P \<Longrightarrow> quiet env m \<Longrightarrow> keeps env P m"
  by (simp add: keeps_def quiet_def)

text \<open>The rules that need a stable assertion.\<close>

lemma keeps_read: "stable env P \<Longrightarrow> keeps env P (io_read f)"
  and keeps_now: "stable env P \<Longrightarrow> keeps env P io_now"
  and keeps_newId: "stable env P \<Longrightarrow> keeps env P io_newId"
  and keeps_result: "stable env P \<Longrightarrow> keeps env P (io_result r)"
  and keeps_guard: "stable env P \<Longrightarrow> keeps env P (io_guard b e)"
  by (auto intro!: keeps_quiet quiets)

lemma keeps_verification: "stable env P \<Longrightarrow> keeps env P (edge_verification c)"
  by (auto simp: keeps_def intro: hoare_verification)

lemma keeps_lock: "stable env P \<Longrightarrow> keeps env P m \<Longrightarrow> keeps env P (io_lock key m)"
  by (auto simp: keeps_def intro: hoare_lock)

lemma keeps_tx:
  "stable env (\<lambda>w. D (w_db w)) \<Longrightarrow> tx_keeps D m \<Longrightarrow> keeps env (\<lambda>w. D (w_db w)) (io_tx m)"
  unfolding keeps_def by (rule hoare_tx) (auto dest: tx_keepsD)

lemmas keeps_stable = keeps_read keeps_now keeps_newId keeps_result keeps_guard keeps_verification keeps_lock

lemma hoare_keeps:
  "keeps env P m \<Longrightarrow> (\<And>a. hoare env P (k a) Q E) \<Longrightarrow> (\<And>f w. P w \<Longrightarrow> E f w) \<Longrightarrow> hoare env P (io_bind m k) Q E"
  by (rule hoare_bind [where R = "\<lambda>_. P"],
      rule hoare_weaken [where P = P and Q = "\<lambda>_. P" and E = "\<lambda>_. P"]) (auto simp: keeps_def)

lemma hoare_try_keeps: "keeps env P m \<Longrightarrow> hoare env P (io_try m) (\<lambda>_. P) E"
  by (auto simp: keeps_def intro!: hoare_try)

text \<open>A case distinction on the value of the step before.\<close>

lemma hoare_sum:
  "(\<And>f. hoare env (P (Inl f)) (k f) Q E) \<Longrightarrow> (\<And>a. hoare env (P (Inr a)) (h a) Q E) \<Longrightarrow>
     hoare env (P r) (case r of Inl f \<Rightarrow> k f | Inr a \<Rightarrow> h a) Q E"
  by (cases r) auto

lemma hoare_option:
  "hoare env (P None) m Q E \<Longrightarrow> (\<And>a. hoare env (P (Some a)) (h a) Q E) \<Longrightarrow>
     hoare env (P r) (case r of None \<Rightarrow> m | Some a \<Rightarrow> h a) Q E"
  by (cases r) auto

text \<open>A group write changes nothing of the store beyond what its callbacks do.\<close>

lemma mutateAclGroups_keeps:
  assumes "stable env (\<lambda>w. D (w_db w))" "keeps env (\<lambda>w. D (w_db w)) guardian"
  shows "keeps env (\<lambda>w. D (w_db w)) (mutateAclGroups c change options guardian None)"
  unfolding keeps_def
  by (rule hoare_mutateAclGroups [where G = "\<lambda>_ _ w. D (w_db w)" and A = "\<lambda>_ w. D (w_db w)"])
     (use assms in \<open>auto simp: keeps_def hoare_def split: prod.splits sum.splits\<close>)

end
