(* ===== verification/Revocation_Safety.thy ===== *)
theory Revocation_Safety
  imports Revocation Approval_Safety Keeping
begin

section \<open>A revocation never strands access\<close>

text \<open>
  What is left behind when a revocation ends, whatever the gateway answered, whichever transaction was
  refused or lost its acknowledgement, and however the rollback went. The others are only assumed to
  leave alone, while it runs, the grant being withdrawn, its durable job, the identity's active grant
  and its consumer; what they do to accounts, applications, APIs and requests is arbitrary. An \<open>ident\<close>
  names the grant here in its first field, the subject of the durable job.
\<close>

definition grant_of :: "ident \<Rightarrow> portal_db \<Rightarrow> grant option" where
  "grant_of i db = grants_findById db (i_request i)"

definition well_keyed :: "portal_db \<Rightarrow> bool" where
  "well_keyed db \<longleftrightarrow> keyed db \<and> grants_unique (db_grants db)"

definition spares :: "ident \<Rightarrow> portal_db \<Rightarrow> portal_db \<Rightarrow> bool" where
  "spares i db db' \<longleftrightarrow> (well_keyed db \<longrightarrow> well_keyed db') \<and> grant_of i db' = grant_of i db \<and>
     job_of i db' = job_of i db \<and> active_of i db' = active_of i db \<and>
     (consumer_of i db = None \<or> consumer_of i db' = consumer_of i db)"

definition patient_env :: "ident \<Rightarrow> env \<Rightarrow> bool" where
  "patient_env i env \<longleftrightarrow> (\<forall>n db. spares i db (e_other env n db))"

text \<open>Nothing of the grant changed and nothing was sent.\<close>

definition standing :: "ident \<Rightarrow> world \<Rightarrow> world \<Rightarrow> bool" where
  "standing i w0 w \<longleftrightarrow> well_keyed (w_db w) \<and> grant_of i (w_db w) = grant_of i (w_db w0) \<and>
     job_of i (w_db w) = job_of i (w_db w0) \<and> active_of i (w_db w) = active_of i (w_db w0) \<and> w_puts w = w_puts w0"

text \<open>The claim: revoked, with its job owned.\<close>

definition withdrawn :: "ident \<Rightarrow> claim \<Rightarrow> portal_db \<Rightarrow> bool" where
  "withdrawn i c db \<longleftrightarrow> well_keyed db \<and> grant_of i db = Some (cl_grant c) \<and> gr_status (cl_grant c) = Gr_Revoked \<and>
     job_of i db = Some (cl_job c) \<and> owns_row (cl_job c) (cl_job c) \<and> active_of i db = None"

text \<open>Accounted for: the grant is active, or its job is there for the worker.\<close>

definition accounted :: "ident \<Rightarrow> portal_db \<Rightarrow> bool" where
  "accounted i db \<longleftrightarrow> well_keyed db \<and>
     (\<exists>g. grant_of i db = Some g \<and> (gr_status g = Gr_Active \<or> job_of i db \<noteq> None))"

text \<open>One write followed \<open>p0\<close>: the identity's consumer, acknowledged, with none of the API's groups.\<close>

definition taken_off :: "ident \<Rightarrow> put list \<Rightarrow> world \<Rightarrow> bool" where
  "taken_off i p0 w \<longleftrightarrow> (\<exists>p. w_puts w = p0 @ [p]) \<and> last_write i w (clean i)"

text \<open>Withdrawn for good: no active grant, and the gateway acknowledged the removal. Only where \<open>must\<close> does
  not hold may nothing have been sent.\<close>

definition removed :: "ident \<Rightarrow> bool \<Rightarrow> put list \<Rightarrow> grant \<Rightarrow> world \<Rightarrow> bool" where
  "removed i must p0 g w \<longleftrightarrow> grant_of i (w_db w) = Some g \<and> gr_status g = Gr_Revoked \<and> active_of i (w_db w) = None \<and>
     (taken_off i p0 w \<or> \<not> must \<and> w_puts w = p0)"

text \<open>A removal must be sent when the identity has a consumer and its account exists and is not deleted
  meanwhile.\<close>

definition removal_due :: "env \<Rightarrow> ident \<Rightarrow> portal_db \<Rightarrow> bool" where
  "removal_due env i db \<longleftrightarrow> consumer_of i db \<noteq> None \<and> users_findById db (i_user i) \<noteq> None \<and>
     (\<forall>n db. users_findById db (i_user i) \<noteq> None \<longrightarrow> users_findById (e_other env n db) (i_user i) \<noteq> None)"

definition reachable :: "bool \<Rightarrow> ident \<Rightarrow> portal_db \<Rightarrow> bool" where
  "reachable must i db \<longleftrightarrow> (must \<longrightarrow> consumer_of i db \<noteq> None)"

definition targeted :: "env \<Rightarrow> bool \<Rightarrow> ident \<Rightarrow> portal_db \<Rightarrow> bool" where
  "targeted env must i db \<longleftrightarrow> (must \<longrightarrow> removal_due env i db)"

lemma patient_spares: "patient_env i env \<Longrightarrow> spares i db (e_other env n db)"
  by (simp add: patient_env_def)

lemma last_write_spares: "spares i (w_db w) (e_other env (w_tick w) (w_db w)) \<Longrightarrow>
    last_write i w P \<Longrightarrow> last_write i (advance env w) P"
  by (auto simp: last_write_def spares_def)

lemma stable_patient:
  assumes "patient_env i env"
  shows "stable env (standing i w0)" "stable env (\<lambda>w. withdrawn i c (w_db w))" "stable env (\<lambda>w. accounted i (w_db w))"
    "stable env (removed i must p0 g)" "stable env (\<lambda>w. consumer_of i (w_db w) = Some cn)"
    "stable env (\<lambda>w. reachable must i (w_db w))" "stable env (\<lambda>w. targeted env must i (w_db w))"
    "stable env (taken_off i p0)"
proof -
  note l = patient_spares [OF assms]
  show "stable env (standing i w0)" by (rule stableI) (use l in \<open>auto simp: standing_def spares_def\<close>)
  show "stable env (\<lambda>w. withdrawn i c (w_db w))" by (rule stableI) (use l in \<open>auto simp: withdrawn_def spares_def\<close>)
  show "stable env (\<lambda>w. accounted i (w_db w))" by (rule stableI) (use l in \<open>auto simp: accounted_def spares_def\<close>)
  have off: "taken_off i p0 w \<Longrightarrow> taken_off i p0 (advance env w)" for w
    using last_write_spares [OF l] by (auto simp: taken_off_def)
  show "stable env (taken_off i p0)" by (rule stableI) (use off in \<open>auto simp: taken_off_def last_write_def\<close>)
  show "stable env (removed i must p0 g)"
  proof (rule stableI)
    show "removed i must p0 g w \<Longrightarrow> removed i must p0 g (advance env w)" for w
      using l [of "w_db w" "w_tick w"] off [of w] by (auto simp: removed_def spares_def)
  qed (simp add: removed_def taken_off_def last_write_def)
  show "stable env (\<lambda>w. reachable must i (w_db w))"
    by (rule stableI) (use l in \<open>auto simp: spares_def reachable_def\<close>, metis option.distinct(1))
  show "stable env (\<lambda>w. targeted env must i (w_db w))"
  proof (rule stableI)
    show "targeted env must i (w_db w) \<Longrightarrow> targeted env must i (w_db (advance env w))" for w
      using l [of "w_db w" "w_tick w"] by (auto simp: targeted_def removal_due_def spares_def)
  qed simp
  show "stable env (\<lambda>w. consumer_of i (w_db w) = Some cn)"
    by (rule stableI) (use l in \<open>auto simp: spares_def\<close>, metis option.distinct(1))
qed

lemma withdrawn_accounted: "withdrawn i c db \<Longrightarrow> accounted i db"
  by (auto simp: withdrawn_def accounted_def)

subsection \<open>What the transactions keep\<close>

lemma grant_of_cong: "db_grants db' = db_grants db \<Longrightarrow> grant_of i db' = grant_of i db"
  by (simp add: grant_of_def grants_findById_def)

lemma grant_update_frame:
  assumes "grants_updateIfStatus now k ex p db = Inr (a, db')"
  shows "db_jobs db' = db_jobs db" "db_requests db' = db_requests db" "db_consumers db' = db_consumers db"
  using assms by (auto simp: grants_cas_eq Let_def result_simps mapConflict_Inr split: if_splits)

lemma grant_row_after_status: "pg_status p = Some s \<Longrightarrow> gr_status (grant_row_after now p g) = s"
  by (auto simp: grant_row_after_def grantUpdateColumns_def patched_def no_grant_patch_def)

lemma grant_row_after_identity:
  "gr_api_id (grant_row_after now p g) = gr_api_id g" "gr_user_id (grant_row_after now p g) = gr_user_id g"
  "gr_application_id (grant_row_after now p g) = gr_application_id g"
  by (simp_all add: grant_row_after_def grantUpdateColumns_def)

lemma grant_moved:
  assumes "well_keyed db" "grants_updateIfStatus now k ex p db = Inr (Some a, db')" "pg_status p = Some s"
  shows "well_keyed db'" "grants_findById db' k = Some a" "gr_status a = s"
    "\<exists>g. grants_findById db k = Some g \<and> gr_status g = ex \<and> a = grant_row_after now p g"
proof -
  have u: "grants_unique (db_grants db)" using assms(1) by (simp add: well_keyed_def)
  obtain g where g: "grants_findById db k = Some g" "gr_status g = ex"
    using grant_cas.cas_lost [OF u, of k ex now p] assms(2) by force
  note won = grant_cas.cas_won [OF u g assms(2)]
  show "grants_findById db' k = Some a" "\<exists>g. grants_findById db k = Some g \<and> gr_status g = ex \<and> a = grant_row_after now p g"
    "gr_status a = s" using won g grant_row_after_status [OF assms(3)] by auto
  show "well_keyed db'" using won assms(1) grant_update_frame [OF assms(2)] by (simp add: well_keyed_def keyed_def)
qed

lemma grant_not_moved:
  assumes "well_keyed db" "grants_updateIfStatus now k ex p db = Inr (None, db')"
  shows "db' = db"
proof (cases "\<exists>g. grants_findById db k = Some g \<and> gr_status g = ex")
  case True
  then show ?thesis using grant_cas.cas_won [OF _ _ _ assms(2)] assms(1) by (auto simp: well_keyed_def)
next
  case False
  then have "grants_updateIfStatus now k ex p db = Inr (None, db)"
    using assms(1) by (intro grant_cas.cas_lost) (auto simp: well_keyed_def)
  then show ?thesis using assms(2) by simp
qed

text \<open>An assertion about the grants and the jobs.\<close>

definition framed :: "(portal_db \<Rightarrow> bool) \<Rightarrow> bool" where
  "framed D \<longleftrightarrow> (\<forall>db db'. D db \<longrightarrow> db_grants db' = db_grants db \<longrightarrow> db_jobs db' = db_jobs db \<longrightarrow>
     (keyed db \<longrightarrow> keyed db') \<longrightarrow> D db')"

lemma framed_accounted: "framed (accounted i)"
  unfolding framed_def accounted_def well_keyed_def using grant_of_cong [of _ _ i] job_of_cong [of _ _ i] by metis

definition restored :: "ident \<Rightarrow> portal_db \<Rightarrow> bool" where
  "restored i db \<longleftrightarrow> well_keyed db \<and> (\<exists>g. grant_of i db = Some g \<and> gr_status g = Gr_Active)"

lemma framed_restored: "framed (restored i)"
  unfolding framed_def restored_def well_keyed_def using grant_of_cong [of _ _ i] by metis

lemma framed_request_update: "framed D \<Longrightarrow> tx_keeps D (accessRequests_updateIfStatus now k ex p)"
  unfolding framed_def by (rule tx_keepsI) (meson request_update_frame keyed_update)

lemma framed_audit: "framed D \<Longrightarrow> tx_keeps D (tx_audit actor action target now)"
  "framed D \<Longrightarrow> tx_keeps D (tx_audit_as minted actor action target now)"
  unfolding framed_def by (auto intro!: tx_keepsI simp: tx_simps) (simp_all add: auditLogs_create_def keyed_def)

lemma restored_deleteBySubject: "restored i db \<Longrightarrow> restored i (snd (accessGatewayJobs_deleteBySubject k db))"
  by (auto simp: restored_def well_keyed_def keyed_def accessGatewayJobs_deleteBySubject_def grant_of_def
      grants_findById_def distinct_map_filter)

lemma restoreToolRequest_keeps: "framed D \<Longrightarrow> tx_keeps D (restoreToolRequest cl req now)"
  unfolding restoreToolRequest_def by (intro keeping framed_request_update)

lemma restore_rest_keeps: "tx_keeps (restored i) (restore_rest cl rq tq now)"
  unfolding restore_rest_def
  by (intro keeping tx_keeps_of restored_deleteBySubject framed_request_update restoreToolRequest_keeps framed_restored)

lemma restored_accounted: "restored i db \<Longrightarrow> accounted i db"
  by (auto simp: restored_def accounted_def)

lemma restoreRevoked_keeps:
  assumes "gr_id cl = i_request i"
  shows "tx_keeps (accounted i) (restoreRevoked cl rq tq present now)"
proof (rule tx_keepsI)
  fix db a db'
  assume D: "accounted i db" and t: "restoreRevoked cl rq tq present now db = Inr (a, db')"
  then have k: "well_keyed db" by (simp add: accounted_def)
  consider "db' = db"
    | res db1 where "grants_updateIfStatus now (gr_id cl) Gr_Revoked restored_patch db = Inr (res, db1)"
        "if res = None then db' = db1 else restore_rest cl rq tq now db1 = Inr (a, db')"
    using t by (auto simp: restoreRevoked_def tx_simps split: option.splits if_splits)
  then show "accounted i db'"
  proof cases
    case 2
    show ?thesis
    proof (cases res)
      case None
      then have "db' = db" using 2 grant_not_moved [OF k, of now "gr_id cl" Gr_Revoked restored_patch db'] by simp
      then show ?thesis using D by simp
    next
      case (Some g)
      have "restored i db1"
        using grant_moved [OF k 2(1) [unfolded Some], of Gr_Active] assms
        by (auto simp: restored_def grant_of_def restored_patch_def)
      moreover have "restore_rest cl rq tq now db1 = Inr (a, db')" using 2(2) Some by simp
      ultimately have "restored i db'" by (rule tx_keepsD [OF restore_rest_keeps])
      then show ?thesis by (rule restored_accounted)
    qed
  qed (use D in simp)
qed

lemma accounted_reschedule: "accounted i db \<Longrightarrow> accounted i (snd (accessGatewayJobs_reschedule j t e st db))"
proof -
  assume D: "accounted i db"
  then have "well_keyed (snd (accessGatewayJobs_reschedule j t e st db))"
    using deleteClaimed_keyed(2) [of db j t e st]
    by (auto simp: accounted_def well_keyed_def accessGatewayJobs_reschedule_def)
  moreover have "job_of i (snd (accessGatewayJobs_reschedule j t e st db)) = None \<longleftrightarrow> job_of i db = None"
    by (simp add: job_of_def accessGatewayJobs_findBySubject_def accessGatewayJobs_reschedule_def find_by_update_where)
  moreover have "grant_of i (snd (accessGatewayJobs_reschedule j t e st db)) = grant_of i db"
    by (rule grant_of_cong) (simp add: accessGatewayJobs_reschedule_def)
  ultimately show ?thesis using D by (auto simp: accounted_def)
qed

subsection \<open>The rollback\<close>

text \<open>Whatever happens in a rollback, the grant stays accounted for.\<close>

lemma under_lifecycle_keeps:
  "stable env (\<lambda>w. D (w_db w)) \<Longrightarrow> (\<And>now. tx_keeps D (body now)) \<Longrightarrow> keeps env (\<lambda>w. D (w_db w)) (under_lifecycle u body)"
  unfolding under_lifecycle_def by (intro keeping keeps_stable keeps_tx)

lemma groupStillOn_keeps: "stable env P \<Longrightarrow> keeps env P (groupStillOn c grp tools)"
  unfolding groupStillOn_def by (intro keeping keeps_stable)

lemma restoreOnce_keeps:
  "stable env (\<lambda>w. D (w_db w)) \<Longrightarrow> (\<And>present now. tx_keeps D (body present now)) \<Longrightarrow>
     keeps env (\<lambda>w. D (w_db w)) (restoreOnce cl proxyId body)"
  unfolding restoreOnce_def by (intro keeping keeps_stable under_lifecycle_keeps groupStillOn_keeps)

lemma restoreUnderKeys_keeps:
  "stable env (\<lambda>w. D (w_db w)) \<Longrightarrow> (\<And>present now. tx_keeps D (body present now)) \<Longrightarrow>
     keeps env (\<lambda>w. D (w_db w)) (restoreUnderKeys fuel cl since proxyId body)"
  by (induction fuel) (auto intro!: keeping keeps_stable restoreOnce_keeps)

lemma restoreUnderFreshProxy_keeps:
  "stable env (\<lambda>w. D (w_db w)) \<Longrightarrow> (\<And>present now. tx_keeps D (body present now)) \<Longrightarrow>
     keeps env (\<lambda>w. D (w_db w)) (restoreUnderFreshProxy fuel inner cl since body)"
  by (induction fuel)
     (auto simp: Let_def restore_under_proxy_def retry_round_def intro!: keeping keeps_stable restoreUnderKeys_keeps)

lemma restoreAlone_keeps:
  assumes "patient_env i env" "gr_id (cl_grant c) = i_request i"
  shows "keeps env (\<lambda>w. accounted i (w_db w)) (restoreAlone fuel actor c since proxyId fresh)"
  unfolding restoreAlone_def restore_body_def using assms
  by (intro keeping keeps_stable keeps_tx restoreUnderKeys_keeps restoreUnderFreshProxy_keeps restoreRevoked_keeps
      framed_audit framed_accounted stable_patient)

lemma unwindRevocation_keeps:
  assumes "patient_env i env" "gr_id (cl_grant c) = i_request i"
  shows "keeps env (\<lambda>w. accounted i (w_db w)) (unwindRevocation fuel actor c proxyId)"
  unfolding unwindRevocation_def auditRowCommitted_def restore_body_def using assms
  by (intro keeping keeps_stable restoreUnderKeys_keeps restoreRevoked_keeps restoreAlone_keeps
      framed_audit framed_accounted stable_patient)

lemma settleOwnedJob_keeps:
  assumes "patient_env i env"
  shows "keeps env (\<lambda>w. accounted i (w_db w)) (settleOwnedJob job False cause)"
  unfolding settleOwnedJob_def if_False using assms
  by (intro keeping keeps_stable keeps_tx tx_keeps_of accounted_reschedule stable_patient)

subsection \<open>The claim\<close>

lemma active_of_None:
  "active_of i db = None \<longleftrightarrow> (\<forall>h\<in>set (db_grants db). \<not> (gr_status h = Gr_Active \<and> gr_api_id h = i_api i \<and>
     gr_user_id h = i_user i \<and> gr_application_id h = i_app i))"
  by (auto simp: active_of_def grants_findActiveByApiAndUser_def find_None_iff)

lemma active_of_revoked:
  assumes "well_keyed db" "grants_updateIfStatus now (i_request i) Gr_Active p db = Inr (Some a, db')"
    and "pg_status p = Some Gr_Revoked"
    and "gr_api_id a = i_api i" "gr_user_id a = i_user i" "gr_application_id a = i_app i"
  shows "active_of i db' = None"
proof (rule ccontr)
  assume "active_of i db' \<noteq> None"
  then obtain h where h: "h \<in> set (db_grants db')" "gr_status h = Gr_Active" "gr_api_id h = i_api i"
      "gr_user_id h = i_user i" "gr_application_id h = i_app i"
    unfolding active_of_None by blast
  note m = grant_moved [OF assms(1-3)]
  obtain g where g: "grants_findById db (i_request i) = Some g" "gr_status g = Gr_Active" "a = grant_row_after now p g"
    using m(4) by blast
  have u: "grants_unique (db_grants db)" "grants_unique (db_grants db')" using assms(1) m(1) by (auto simp: well_keyed_def)
  have look: "grants_findById x k = Some y \<longleftrightarrow> y \<in> set (db_grants x) \<and> gr_id y = k"
    if "grants_unique (db_grants x)" for x k y
    using that by (simp add: grants_findById_def find_by_Some_iff grants_unique_def)
  have ne: "gr_id h \<noteq> i_request i" using h(1,2) m(2,3) look [OF u(2)] by (metis grant_status.distinct(1) option.inject)
  have old: "grants_findById db (gr_id h) = Some h"
    using ne h(1) grant_cas.cas_won [OF u(1) g(1,2) assms(2)] look [OF u(2)] by metis
  have "g \<in> set (db_grants db)" "h \<in> set (db_grants db)" "gr_id g = i_request i" using g(1) old look [OF u(1)] by auto
  moreover have "gr_api_id g = i_api i" "gr_user_id g = i_user i" "gr_application_id g = i_app i"
    using assms(4-6) g(3) by (auto simp: grant_row_after_identity)
  ultimately have "h = g"
    using h g(2) u(1)
    by (intro distinct_key_unique [where k = "\<lambda>g. (gr_api_id g, gr_user_id g, coalesce (gr_application_id g))"
          and P = "\<lambda>g. gr_status g = Gr_Active" and rows = "db_grants db"]) (auto simp: grants_unique_def)
  then show False using ne \<open>gr_id g = i_request i\<close> by simp
qed

lemma moveRequestToRevoked_keeps: "framed D \<Longrightarrow> tx_keeps D (moveRequestToRevoked g actorId at1 note)"
  unfolding moveRequestToRevoked_def by (intro keeping framed_request_update)

lemma cancelPendingToolRequest_keeps: "framed D \<Longrightarrow> tx_keeps D (cancelPendingToolRequest g actor at1)"
  unfolding cancelPendingToolRequest_def by (intro keeping framed_request_update framed_audit)

lemma consumers_kept:
  "tx_keeps (\<lambda>db. db_consumers db = cs) (accessRequests_updateIfStatus now k ex p)"
  "tx_keeps (\<lambda>db. db_consumers db = cs) (tx_audit actor action target now)"
proof -
  show "tx_keeps (\<lambda>db. db_consumers db = cs) (accessRequests_updateIfStatus now k ex p)"
    by (rule tx_keepsI) (metis request_update_frame(3))
  show "tx_keeps (\<lambda>db. db_consumers db = cs) (tx_audit actor action target now)"
    by (auto intro!: tx_keepsI simp: tx_simps tx_audit_def auditLogs_create_def)
qed

lemma claim_steps_keep_consumers:
  "tx_keeps (\<lambda>db. db_consumers db = cs) (moveRequestToRevoked g actorId at1 note1)"
  "tx_keeps (\<lambda>db. db_consumers db = cs) (cancelPendingToolRequest g actor at1)"
  unfolding moveRequestToRevoked_def cancelPendingToolRequest_def by (intro keeping consumers_kept)+

text \<open>What the caller's \<open>recordWithRevoke\<close> may do: write rows outside the tables of the workflow (it
  records an audit row).\<close>

definition records_only :: "(grant \<Rightarrow> unit tx) \<Rightarrow> bool" where
  "records_only extra \<longleftrightarrow> (\<forall>g db u db'. extra g db = Inr (u, db') \<longrightarrow> db_grants db' = db_grants db \<and>
     db_jobs db' = db_jobs db \<and> db_requests db' = db_requests db \<and> db_consumers db' = db_consumers db)"

definition of_ident :: "ident \<Rightarrow> grant \<Rightarrow> bool" where
  "of_ident i g \<longleftrightarrow> gr_id g = i_request i \<and> gr_api_id g = i_api i \<and> gr_user_id g = i_user i \<and> gr_application_id g = i_app i"

definition claim_for :: "ident \<Rightarrow> claim \<Rightarrow> bool" where
  "claim_for i c \<longleftrightarrow> of_ident i (cl_grant c) \<and> jb_subject_id (cl_job c) = i_request i \<and> jb_api_id (cl_job c) = i_api i \<and>
     jb_user_id (cl_job c) = i_user i \<and> jb_application_id (cl_job c) = i_app i"

text \<open>The rows of the claim before its job is written.\<close>

definition revoked_row :: "ident \<Rightarrow> grant \<Rightarrow> portal_db \<Rightarrow> bool" where
  "revoked_row i g db \<longleftrightarrow> well_keyed db \<and> grant_of i db = Some g \<and> gr_status g = Gr_Revoked \<and> active_of i db = None"

lemma framed_revoked_row: "framed (revoked_row i g)"
  unfolding framed_def revoked_row_def well_keyed_def using grant_of_cong [of _ _ i] active_of_cong [of _ _ i] by metis

lemma framed_keeps:
  assumes "framed D" "D db" "db_grants db' = db_grants db" "db_jobs db' = db_jobs db" "db_requests db' = db_requests db"
  shows "D db'"
  using assms unfolding framed_def by (metis keyed_def)

lemma revoke_tx_claims:
  assumes k: "well_keyed db" and g: "of_ident i g" "grant_of i db = Some g" and extra: "records_only extra"
    and t: "revoke_tx actor g reason extra newId gen at1 db = Inr (Some c, db')"
  shows "withdrawn i c db'" "claim_for i c" "consumer_of i db' = consumer_of i db"
proof -
  let ?p = "revoked_patch (u_id actor) at1"
  obtain mv tl1 ji db1 db2 db3 db4 where
      u: "grants_updateIfStatus at1 (gr_id g) Gr_Active ?p db = Inr (Some (cl_grant c), db1)"
    and m: "moveRequestToRevoked g (u_id actor) at1 reason db1 = Inr (mv, db2)"
    and ct: "cancelPendingToolRequest g actor at1 db2 = Inr (tl1, db3)"
    and up: "accessGatewayJobs_upsertClaimed newId gen ji at1 db3 = Inr (cl_job c, db4)" "ji_subject_id ji = gr_id g"
      "ji_api_id ji = gr_api_id g" "ji_user_id ji = gr_user_id g" "ji_application_id ji = gr_application_id g"
    and ex: "extra (cl_grant c) (auditLogs_create None (Some (u_id actor)) ACCESS_REVOKE (gr_id g) at1 db4) = Inr ((), db')"
    using t by (auto simp: revoke_tx_def tx_simps split: option.splits)
  have p: "pg_status ?p = Some Gr_Revoked" by (simp add: revoked_patch_def)
  note mv = grant_moved [OF k u p]
  have row: "of_ident i (cl_grant c)"
    using mv(4) g by (auto simp: of_ident_def grant_of_def grant_row_after_identity)
  have "revoked_row i (cl_grant c) db1"
    using mv active_of_revoked [OF k _ p, of at1 i "cl_grant c" db1] u g row
    by (auto simp: revoked_row_def grant_of_def of_ident_def)
  then have r3: "revoked_row i (cl_grant c) db3"
    using tx_keepsD [OF cancelPendingToolRequest_keeps [OF framed_revoked_row]
        tx_keepsD [OF moveRequestToRevoked_keeps [OF framed_revoked_row] _ m] ct] by blast
  have k3: "keyed db3" using r3 by (simp add: revoked_row_def well_keyed_def)
  note rows = upsertClaimed_rows [OF up(1)] and kd = upsert_keyed [OF k3 up(1)]
  let ?db5 = "auditLogs_create None (Some (u_id actor)) ACCESS_REVOKE (gr_id g) at1 db4"
  have fr: "db_grants db' = db_grants db4" "db_jobs db' = db_jobs db4" "db_requests db' = db_requests db4"
    using ex extra by (auto simp: records_only_def auditLogs_create_def)
  have "well_keyed db4" "grant_of i db4 = Some (cl_grant c)" "active_of i db4 = None" "gr_status (cl_grant c) = Gr_Revoked"
    using r3 kd rows grant_of_cong [of db4 db3 i] active_of_cong [of db4 db3 i] by (auto simp: revoked_row_def well_keyed_def)
  moreover have "job_of i db4 = Some (cl_job c)" using rows up(2) g(1) by (simp add: job_of_def of_ident_def)
  ultimately show "withdrawn i c db'"
    using kd(2) fr grant_of_cong [of db' db4 i] active_of_cong [of db' db4 i] job_of_cong [of db' db4 i]
    by (auto simp: withdrawn_def well_keyed_def keyed_def)
  show "claim_for i c" using row rows up g(1) by (simp add: claim_for_def of_ident_def)
  have "db_consumers db2 = db_consumers db1" "db_consumers db3 = db_consumers db2"
    using tx_keepsD [OF claim_steps_keep_consumers(1) refl m] tx_keepsD [OF claim_steps_keep_consumers(2) refl ct] by simp_all
  moreover have "db_consumers db' = db_consumers db4" using ex extra by (auto simp: records_only_def auditLogs_create_def)
  ultimately show "consumer_of i db' = consumer_of i db"
    using grant_update_frame(3) [OF u] rows(11) by (intro consumer_of_cong) simp
qed

lemma revoke_tx_lost:
  assumes "well_keyed db" "revoke_tx actor g reason extra newId gen at1 db = Inr (None, db')"
  shows "db' = db"
proof -
  have "grants_updateIfStatus at1 (gr_id g) Gr_Active (revoked_patch (u_id actor) at1) db = Inr (None, db')"
    using assms(2) by (auto simp: revoke_tx_def tx_simps split: option.splits)
  then show ?thesis by (rule grant_not_moved [OF assms(1)])
qed

text \<open>What a revocation leaves behind when it fails.\<close>

definition revocation_left :: "ident \<Rightarrow> world \<Rightarrow> world \<Rightarrow> bool" where
  "revocation_left i w0 w \<longleftrightarrow> standing i w0 w \<or> accounted i (w_db w)"

lemma hoare_claim_revocation:
  assumes pe: "patient_env i env" and g: "of_ident i g" "grant_of i (w_db w0) = Some g" and extra: "records_only extra"
  shows "hoare env (\<lambda>w. standing i w0 w \<and> reachable must i (w_db w)) (claim_revocation actor g reason extra)
    (\<lambda>c w. (withdrawn i c (w_db w) \<and> w_puts w = w_puts w0 \<and> reachable must i (w_db w)) \<and> claim_for i c) (\<lambda>_. revocation_left i w0)"
proof -
  let ?S = "\<lambda>w. standing i w0 w \<and> reachable must i (w_db w)"
  have sS: "stable env ?S" by (intro stable_conj stable_patient [OF pe])
  let ?C = "\<lambda>claimed w. case claimed of None \<Rightarrow> ?S w | Some c \<Rightarrow> (withdrawn i c (w_db w) \<and> w_puts w = w_puts w0 \<and> reachable must i (w_db w)) \<and> claim_for i c"
  have tx: "hoare env ?S (io_tx (revoke_tx actor g reason extra newId gen at1)) ?C (\<lambda>_. revocation_left i w0)" for newId gen at1
  proof (rule hoare_tx [OF sS])
    fix w a db'
    assume S: "?S w" and t: "revoke_tx actor g reason extra newId gen at1 (w_db w) = Inr (a, db')"
    show "?C a (w\<lparr>w_db := db'\<rparr>) \<and> (\<forall>f :: failure. revocation_left i w0 (w\<lparr>w_db := db'\<rparr>))"
    proof (cases a)
      case None
      then have "db' = w_db w" using revoke_tx_lost t S by (auto simp: standing_def)
      then show ?thesis using S None by (simp add: revocation_left_def)
    next
      case (Some c)
      have "withdrawn i c db'" "claim_for i c"
        by (rule revoke_tx_claims [OF _ g(1) _ extra t [unfolded Some]]; use S g(2) in \<open>auto simp: standing_def\<close>)+
      moreover have "consumer_of i db' = consumer_of i (w_db w)"
        by (rule revoke_tx_claims(3) [OF _ g(1) _ extra t [unfolded Some]]; use S g(2) in \<open>auto simp: standing_def\<close>)
      ultimately show ?thesis using S Some withdrawn_accounted by (auto simp: revocation_left_def standing_def reachable_def)
    qed
  qed (simp add: revocation_left_def)
  have fail: "hoare env ?S (io_bind (io_read (\<lambda>db. revocationConflict db (gr_id g))) (\<lambda>e. io_throw (plain e)))
      (\<lambda>c w. (withdrawn i c (w_db w) \<and> w_puts w = w_puts w0 \<and> reachable must i (w_db w)) \<and> claim_for i c) (\<lambda>_. revocation_left i w0)"
    by (rule hoare_quiet [OF quiet_read sS]) (auto intro!: hoare_throw simp: revocation_left_def)
  have rest: "hoare env (?C claimed) (case claimed of Some c \<Rightarrow> io_return c
      | None \<Rightarrow> io_bind (io_read (\<lambda>db. revocationConflict db (gr_id g))) (\<lambda>e. io_throw (plain e)))
      (\<lambda>c w. (withdrawn i c (w_db w) \<and> w_puts w = w_puts w0 \<and> reachable must i (w_db w)) \<and> claim_for i c) (\<lambda>_. revocation_left i w0)" for claimed
    using fail by (cases claimed) (simp_all add: hoare_return)
  show ?thesis unfolding claim_revocation_def
    by (rule hoare_quiet [OF quiet_newId sS], rule hoare_quiet [OF quiet_newId sS], rule hoare_quiet [OF quiet_now sS],
        rule hoare_bind [OF tx], rule rest) (auto simp: revocation_left_def)
qed

subsection \<open>The gateway step\<close>

lemma hoare_obsolete_guard:
  assumes pe: "patient_env i env" and job: "jb_subject_id (cl_job c) = i_request i" "jb_api_id (cl_job c) = i_api i"
    "jb_user_id (cl_job c) = i_user i" "jb_application_id (cl_job c) = i_app i"
    and st: "stable env P" and P: "\<And>w. P w \<Longrightarrow> withdrawn i c (w_db w)"
  shows "hoare env P (obsolete_guard (cl_job c)) (\<lambda>(lost, ok) w. P w \<and> lost = None \<and> ok) (\<lambda>_. P)"
proof -
  have owned: "hoare env P (stillOwned (cl_job c)) (\<lambda>owned w. P w \<and> owned) (\<lambda>_. P)"
    unfolding stillOwned_def
    by (rule hoare_read [OF st]) (use P job in \<open>auto simp: withdrawn_def job_of_def dest!: P\<close>)
  have row: "hoare env P (io_read (\<lambda>db. grants_findById db (jb_subject_id (cl_job c))))
      (\<lambda>g w. P w \<and> (case g of None \<Rightarrow> False | Some x \<Rightarrow> gr_status x \<noteq> Gr_Active)) (\<lambda>_. P)"
    by (rule hoare_read [OF st]) (use job in \<open>auto simp: withdrawn_def grant_of_def dest!: P\<close>)
  have live: "hoare env P (io_read (\<lambda>db. grants_findActiveByApiAndUser db (jb_api_id (cl_job c)) (jb_user_id (cl_job c))
      (jb_application_id (cl_job c)))) (\<lambda>l w. P w \<and> l = None) (\<lambda>_. P)"
    by (rule hoare_read [OF st]) (use job in \<open>auto simp: withdrawn_def active_of_def dest!: P\<close>)
  have "hoare env P (revocationObsolete (cl_job c)) (\<lambda>lost w. P w \<and> lost = None) (\<lambda>_. P)"
    unfolding revocationObsolete_def
    by (rule hoare_bind [OF owned], rule hoare_pure, simp, rule hoare_bind [OF row], rule hoare_pure)
       (auto split: option.splits intro!: hoare_bind [OF live] hoare_return)
  then show ?thesis unfolding obsolete_guard_def by (rule hoare_bind) (auto intro: hoare_return)
qed

lemma hoare_withdraw_groups:
  assumes pe: "patient_env i env" and job: "jb_subject_id (cl_job c) = i_request i" "jb_api_id (cl_job c) = i_api i"
    "jb_user_id (cl_job c) = i_user i" "jb_application_id (cl_job c) = i_app i"
    and ids: "apiId = i_api i" "u_id u = i_user i" "app = i_app i"
  shows "hoare env (\<lambda>w. withdrawn i c (w_db w) \<and> w_puts w = p0 \<and> reachable must i (w_db w))
    (setGroupMembership ns u apiId False app False (obsolete_guard (cl_job c)) (None :: unit io option) None)
    (\<lambda>(seen, _) w. withdrawn i c (w_db w) \<and> (case seen of None \<Rightarrow> w_puts w = p0 \<and> \<not> must | Some lost \<Rightarrow> lost = None \<and> taken_off i p0 w))
    (\<lambda>_ w. withdrawn i c (w_db w))"
proof -
  let ?P = "\<lambda>w. withdrawn i c (w_db w) \<and> w_puts w = p0 \<and> reachable must i (w_db w)"
  let ?E = "\<lambda>_ :: failure. \<lambda>w. withdrawn i c (w_db w)"
  note st = stable_patient [OF pe]
  have sP: "stable env ?P" by (intro stable_conj st stable_puts [of env "\<lambda>p. p = p0"])
  let ?R = "\<lambda>consumer w. ?P w \<and> (case consumer of None \<Rightarrow> \<not> must | Some cn \<Rightarrow> consumer_of i (w_db w) = Some cn)"
  let ?M = "\<lambda>(seen, r) w. withdrawn i c (w_db w) \<and> (case r of
      Inl f \<Rightarrow> True | Inr (Written (v :: unit option)) \<Rightarrow> seen = Some None \<and> taken_off i p0 w | Inr _ \<Rightarrow> False)"
  have read: "hoare env ?P (io_read (\<lambda>db. consumers_findByUser db (u_id u) app)) ?R ?E"
    by (rule hoare_read [OF sP]) (use ids in \<open>auto simp: consumer_of_def reachable_def split: option.splits\<close>)
  have mut: "hoare env (?R (Some cn)) (mutateAclGroups (co_ferrum_consumer_id cn) (\<lambda>_. membership_change apiId False tg)
      (no_options\<lparr>mo_absentIsDone := False, mo_requireActiveUser := None\<rparr>)
      (obsolete_guard (cl_job c)) (None :: unit io option)) ?M ?E" for cn tg
  proof (rule hoare_mutateAclGroups [where G = "\<lambda>lost ok w. ?R (Some cn) w \<and> lost = None \<and> ok"
        and A = "\<lambda>lost w. lost = None \<and> withdrawn i c (w_db w) \<and> taken_off i p0 w"])
    show sR: "stable env (?R (Some cn))" using stable_conj [OF sP st(5)] by simp
    show "stable env (\<lambda>w. ?R (Some cn) w \<and> (lost :: obsolete option) = None \<and> True)" for lost
      by (intro stable_conj stable_const sR)
    show "hoare env (?R (Some cn)) (obsolete_guard (cl_job c)) (\<lambda>(lost, ok) w. ?R (Some cn) w \<and> lost = None \<and> ok) (\<lambda>f. ?R (Some cn))"
      by (rule hoare_obsolete_guard [OF pe job sR]) simp
    have "clean i (membership_change apiId False tg cur)" for cur
      by (auto simp: membership_change_def clean_def not_of_api_iff ids)
    then show "lost = None \<and> withdrawn i c (w_db (w\<lparr>w_puts := w_puts w @ [\<lparr>pt_consumer = co_ferrum_consumer_id cn,
        pt_groups = membership_change apiId False tg cur, pt_acked = True\<rparr>]\<rparr>)) \<and>
       taken_off i p0 (w\<lparr>w_puts := w_puts w @ [\<lparr>pt_consumer = co_ferrum_consumer_id cn,
        pt_groups = membership_change apiId False tg cur, pt_acked = True\<rparr>]\<rparr>)"
      if "?R (Some cn) w \<and> (lost :: obsolete option) = None \<and> True" for lost w cur
      using that by (auto simp: taken_off_def intro!: last_write_put)
  qed (auto simp: no_options_def)
  show ?thesis unfolding setGroupMembership_def Let_def if_False
  proof (rule hoare_bind [where R = "\<lambda>_. ?P"], rule hoare_return, assumption, rule hoare_bind [where R = ?R], rule read)
    fix api :: "api option" and consumer
    show "hoare env (?R consumer) (case consumer of None \<Rightarrow> io_return (None, None)
      | Some cn \<Rightarrow> io_bind (mutateAclGroups (co_ferrum_consumer_id cn) (\<lambda>_. membership_change apiId False
            (case api of None \<Rightarrow> [] | Some a \<Rightarrow> if a_agents a = None then [] else mcpGroupsForGrant apiId None))
          (no_options\<lparr>mo_absentIsDone := False, mo_requireActiveUser := None\<rparr>) (obsolete_guard (cl_job c)) (None :: unit io option))
        (\<lambda>(seen, r). case r of Inl f \<Rightarrow> io_throw f | Inr (Written v) \<Rightarrow> io_return (seen, v) | Inr _ \<Rightarrow> io_return (seen, None)))
      (\<lambda>(seen, _) w. withdrawn i c (w_db w) \<and> (case seen of None \<Rightarrow> w_puts w = p0 \<and> \<not> must | Some lost \<Rightarrow> lost = None \<and> taken_off i p0 w)) ?E"
    proof (cases consumer)
      case (Some cn)
      show ?thesis unfolding Some option.case
        by (rule hoare_bind [OF mut [of cn, unfolded option.case]])
           (auto intro!: hoare_throw hoare_return split: sum.splits mutation.splits)
    qed (auto intro!: hoare_return)
  qed
qed

lemma removed_settle:
  assumes pe: "patient_env i env"
  shows "hoare env (removed i must p0 g) (settleOwnedJob job True cause) (\<lambda>_. removed i must p0 g) E"
proof -
  note st = stable_patient(4) [OF pe, of must p0 g]
  have keep: "removed i must p0 g (w\<lparr>w_db := snd (accessGatewayJobs_deleteClaimed j (w_db w))\<rparr>)" if "removed i must p0 g w" for w j
    using that grant_of_cong [of "snd (accessGatewayJobs_deleteClaimed j (w_db w))" "w_db w" i]
      active_of_cong [of "snd (accessGatewayJobs_deleteClaimed j (w_db w))" "w_db w" i]
      consumer_of_cong [of "snd (accessGatewayJobs_deleteClaimed j (w_db w))" "w_db w" i]
    by (simp add: removed_def taken_off_def last_write_def accessGatewayJobs_deleteClaimed_def)
  have tx: "hoare env (removed i must p0 g) (io_tx (tx_of (accessGatewayJobs_deleteClaimed j))) (\<lambda>_. removed i must p0 g)
      (\<lambda>_. removed i must p0 g)" for j
  proof (rule hoare_tx [OF st])
    fix w a db'
    assume r: "removed i must p0 g w" and t: "tx_of (accessGatewayJobs_deleteClaimed j) (w_db w) = Inr (a, db')"
    then have "db' = snd (accessGatewayJobs_deleteClaimed j (w_db w))" by (metis Inr_inject snd_conv tx_of_def)
    then show "removed i must p0 g (w\<lparr>w_db := db'\<rparr>) \<and> (\<forall>f :: failure. removed i must p0 g (w\<lparr>w_db := db'\<rparr>))" using keep [OF r] by simp
  qed
  have "keeps env (removed i must p0 g) (settleOwnedJob job True cause)"
    unfolding settleOwnedJob_def if_True
    by (intro keeping keeps_now st) (use tx in \<open>simp add: keeps_def\<close>)
  then show ?thesis
    unfolding settleOwnedJob_def if_True by (cases job) (auto simp: keeps_def hoare_def io_bind_def io_try_def io_return_def split: prod.splits sum.splits)
qed

text \<open>What the section under the proxy's key leaves: the grant withdrawn, or a rollback to resume.\<close>

definition section_done :: "ident \<Rightarrow> bool \<Rightarrow> put list \<Rightarrow> (int \<times> claim \<times> failure) + grant \<Rightarrow> world \<Rightarrow> bool" where
  "section_done i must p0 r w \<longleftrightarrow> (case r of
      Inr g \<Rightarrow> removed i must p0 g w
    | Inl (since, c, f) \<Rightarrow> accounted i (w_db w) \<and> gr_id (cl_grant c) = i_request i)"

lemma hoare_withdraw_gateway:
  assumes pe: "patient_env i env" and cf: "claim_for i c" and api: "a_id api = i_api i" and grantee: "\<And>u. grantee = Some u \<Longrightarrow> u_id u = i_user i"
    and none: "grantee = None \<Longrightarrow> \<not> must"
  shows "hoare env (\<lambda>w. withdrawn i c (w_db w) \<and> w_puts w = p0 \<and> reachable must i (w_db w)) (withdraw_gateway fuel ns actor api grantee c proxyId)
    (section_done i must p0) (\<lambda>_ w. accounted i (w_db w))"
proof -
  let ?P = "\<lambda>w. withdrawn i c (w_db w) \<and> w_puts w = p0 \<and> reachable must i (w_db w)" and ?A = "\<lambda>w. accounted i (w_db w)"
  let ?R = "\<lambda>r w. case r of Inl (f :: failure) \<Rightarrow> ?A w | Inr (lost :: obsolete option) \<Rightarrow> removed i must p0 (cl_grant c) w"
  have fin: "removed i must p0 (cl_grant c) w" if "withdrawn i c (w_db w)" "taken_off i p0 w \<or> \<not> must \<and> w_puts w = p0" for w
    using that by (auto simp: withdrawn_def removed_def)
  have app: "gr_application_id (cl_grant c) = i_app i" and cid: "gr_id (cl_grant c) = i_request i"
    and job: "jb_subject_id (cl_job c) = i_request i" "jb_api_id (cl_job c) = i_api i"
      "jb_user_id (cl_job c) = i_user i" "jb_application_id (cl_job c) = i_app i"
    using cf by (auto simp: claim_for_def of_ident_def)
  have step: "hoare env ?P (io_bind (setGroupMembership ns u (a_id api) False (gr_application_id (cl_grant c)) False
             (obsolete_guard (cl_job c)) (None :: unit io option) None)
             (\<lambda>(seen, _). io_return (case seen of None \<Rightarrow> None | Some lost \<Rightarrow> lost))) (\<lambda>a. ?R (Inr a)) (\<lambda>f. ?R (Inl f))"
    if "grantee = Some u" for u
  proof (rule hoare_bind)
    show "hoare env ?P (setGroupMembership ns u (a_id api) False (gr_application_id (cl_grant c)) False
             (obsolete_guard (cl_job c)) (None :: unit io option) None)
         (\<lambda>x. removed i must p0 (cl_grant c)) (\<lambda>f. ?R (Inl f))"
      by (rule hoare_weaken [OF hoare_withdraw_groups [OF pe job api grantee [OF that] app]])
         (auto intro!: fin withdrawn_accounted split: option.splits)
  qed (auto intro!: hoare_return)
  have first: "hoare env ?P (case grantee of None \<Rightarrow> io_return (Inr None)
       | Some u \<Rightarrow> io_try (io_bind (setGroupMembership ns u (a_id api) False (gr_application_id (cl_grant c)) False
             (obsolete_guard (cl_job c)) (None :: unit io option) None)
             (\<lambda>(seen, _). io_return (case seen of None \<Rightarrow> None | Some lost \<Rightarrow> lost)))) ?R (\<lambda>_. ?A)"
  proof (cases grantee)
    case None
    then show ?thesis using none by (auto simp: removed_def withdrawn_def intro!: hoare_return)
  next
    case (Some u)
    show ?thesis unfolding Some option.case by (rule hoare_try [OF step [OF Some]])
  qed
  have unwind: "hoare env ?A (io_bind (unwindRevocation fuel actor c proxyId) (\<lambda>resume. case resume of
           Some since \<Rightarrow> io_return (Inl (since, c, f))
         | None \<Rightarrow> io_bind (settleOwnedJob (Some (cl_job c)) False (err_message (f_error f))) (\<lambda>_. io_throw f)))
      (section_done i must p0) (\<lambda>_. ?A)" for f
    by (rule hoare_keeps [OF unwindRevocation_keeps [OF pe cid]])
       (auto simp: section_done_def cid intro!: hoare_return hoare_throw hoare_keeps [OF settleOwnedJob_keeps [OF pe]] split: option.splits)
  have settle: "hoare env (removed i must p0 (cl_grant c)) (io_bind (if lost = Some Superseded then io_return ()
       else settleOwnedJob (Some (cl_job c)) True []) (\<lambda>_. io_return (Inr (cl_grant c)))) (section_done i must p0) (\<lambda>_. ?A)" for lost
    by (rule hoare_bind [where R = "\<lambda>_. removed i must p0 (cl_grant c)"])
       (auto simp: section_done_def intro!: hoare_return removed_settle [OF pe])
  show ?thesis unfolding withdraw_gateway_def
    by (rule hoare_bind [OF first], rule hoare_sum) (simp_all only: sum.case unwind settle)
qed

subsection \<open>The whole revocation\<close>

lemma hoare_load_grant:
  assumes pe: "patient_env i env" and g0: "grant_of i (w_db w0) = Some g0"
    and i: "i = \<lparr>i_request = k, i_api = gr_api_id g0, i_user = gr_user_id g0, i_app = gr_application_id g0\<rparr>"
  shows "hoare env (standing i w0) (load_grant actor k rel)
    (\<lambda>(g, api) w. standing i w0 w \<and> g = g0 \<and> a_id api = i_api i) (\<lambda>_. standing i w0)"
proof -
  let ?S = "standing i w0" and ?Q = "\<lambda>(g, api) w. standing i w0 w \<and> g = g0 \<and> a_id api = i_api i"
  note sS = stable_patient(1) [OF pe, of w0]
  have r: "hoare env ?S (io_read (\<lambda>db. grants_findById db k)) (\<lambda>r w. ?S w \<and> r = Some g0) (\<lambda>_. ?S)"
    by (rule hoare_read [OF sS]) (use g0 i in \<open>auto simp: standing_def grant_of_def\<close>)
  have a: "hoare env ?S (io_read (\<lambda>db. apis_findById db (gr_api_id g0)))
      (\<lambda>a w. ?S w \<and> (\<forall>x. a = Some x \<longrightarrow> a_id x = gr_api_id g0)) (\<lambda>_. ?S)"
    by (rule hoare_read [OF sS]) (auto simp: apis_findById_def find_by_def find_Some_iff)
  have fin: "hoare env ?S (io_bind (if rel then io_return () else io_result (assertCanReview actor x)) (\<lambda>_. io_return (g0, x)))
      ?Q (\<lambda>_. ?S)" if "a_id x = gr_api_id g0" for x
    by (rule hoare_quiet [OF _ sS]) (use that i in \<open>auto intro!: quiets hoare_return\<close>)
  have "hoare env (\<lambda>w. ?S w \<and> (\<forall>x. a = Some x \<longrightarrow> a_id x = gr_api_id g0)) (case a of
           None \<Rightarrow> io_throw (plain (notFound ''API'' (Some (gr_api_id g0))))
         | Some api \<Rightarrow> io_bind (if rel then io_return () else io_result (assertCanReview actor api)) (\<lambda>_.
             io_return (g0, api))) ?Q (\<lambda>_. ?S)" for a
    using fin by (cases a) (auto intro!: hoare_pure hoare_throw)
  note rest = hoare_bind [OF a this]
  have "hoare env ?S (io_bind (io_result (assertCanWithdraw actor g0 rel)) (\<lambda>_.
         io_bind (io_read (\<lambda>db. apis_findById db (gr_api_id g0))) (\<lambda>a. case a of
           None \<Rightarrow> io_throw (plain (notFound ''API'' (Some (gr_api_id g0))))
         | Some api \<Rightarrow> io_bind (if rel then io_return () else io_result (assertCanReview actor api)) (\<lambda>_.
             io_return (g0, api))))) ?Q (\<lambda>_. ?S)"
    by (rule hoare_quiet [OF quiet_result sS rest]) simp
  then show ?thesis unfolding load_grant_def
    by (intro hoare_bind [OF r] hoare_pure) (simp only: option.case)
qed

lemma quiet_load_grant: "quiet env (load_grant actor k rel)"
  unfolding load_grant_def by (intro quiets)

lemma hoare_withdraw_section:
  assumes pe: "patient_env i env" and g0: "grant_of i (w_db w0) = Some g0" and extra: "records_only extra"
    and i: "i = \<lparr>i_request = k, i_api = gr_api_id g0, i_user = gr_user_id g0, i_app = gr_application_id g0\<rparr>"
    and due: "must \<Longrightarrow> removal_due env i (w_db w0)"
  shows "hoare env (\<lambda>w. standing i w0 w \<and> targeted env must i (w_db w)) (withdraw_section fuel ns actor k reason rel extra initialApi)
    (section_done i must (w_puts w0)) (\<lambda>_. revocation_left i w0)"
proof -
  let ?S = "\<lambda>w. standing i w0 w \<and> targeted env must i (w_db w)" and ?E = "\<lambda>_ :: failure. revocation_left i w0"
  have sS: "stable env ?S" by (intro stable_conj stable_patient [OF pe])
  have sE: "\<And>w. ?S w \<Longrightarrow> revocation_left i w0 w" by (simp add: revocation_left_def)
  have of_g0: "of_ident i g0"
    using g0 i by (auto simp: of_ident_def grant_of_def grants_findById_def find_by_def find_Some_iff)
  have uid: "users_findById db j = Some x \<Longrightarrow> u_id x = j" for db j x by (auto simp: users_findById_def find_by_def find_Some_iff)
  have u: "hoare env ?S (io_read (\<lambda>db. users_findById db (gr_user_id g0)))
      (\<lambda>u w. ?S w \<and> (\<forall>x. u = Some x \<longrightarrow> u_id x = i_user i) \<and> (u = None \<longrightarrow> \<not> must)) ?E"
    by (rule hoare_read [OF sS]) (use sE i uid in \<open>auto simp: targeted_def removal_due_def\<close>)
  have gateway: "hoare env (\<lambda>w. (withdrawn i c (w_db w) \<and> w_puts w = w_puts w0 \<and> reachable must i (w_db w)) \<and> claim_for i c)
      (withdraw_gateway fuel ns actor api grantee c proxyId) (section_done i must (w_puts w0)) ?E"
    if "a_id api = i_api i" "\<And>x. grantee = Some x \<Longrightarrow> u_id x = i_user i" "grantee = None \<Longrightarrow> \<not> must" for c api grantee proxyId
  proof (rule hoare_pure)
    assume cf: "claim_for i c"
    show "hoare env (\<lambda>w. withdrawn i c (w_db w) \<and> w_puts w = w_puts w0 \<and> reachable must i (w_db w)) (withdraw_gateway fuel ns actor api grantee c proxyId)
        (section_done i must (w_puts w0)) ?E"
      by (rule hoare_weaken [OF hoare_withdraw_gateway [OF pe cf that]]) (auto simp: revocation_left_def)
  qed
  have claimed: "hoare env ?S (claim_revocation actor g0 reason extra)
      (\<lambda>c w. (withdrawn i c (w_db w) \<and> w_puts w = w_puts w0 \<and> reachable must i (w_db w)) \<and> claim_for i c) ?E"
    by (rule hoare_weaken [OF hoare_claim_revocation [OF pe of_g0 g0 extra, where must = must]])
       (auto simp: targeted_def reachable_def removal_due_def)
  have claim: "hoare env (\<lambda>w. ?S w \<and> (\<forall>x. grantee = Some x \<longrightarrow> u_id x = i_user i) \<and> (grantee = None \<longrightarrow> \<not> must))
      (io_bind (claim_revocation actor g0 reason extra)
        (\<lambda>c. withdraw_gateway fuel ns actor api grantee c proxyId)) (section_done i must (w_puts w0)) ?E"
    if "a_id api = i_api i" for api grantee proxyId
    by (rule hoare_pure, rule hoare_bind [OF claimed]) (use gateway that in auto)
  have body: "hoare env ?S (io_bind (io_guard (a_ferrum_proxy_id api = a_ferrum_proxy_id initialApi)
         (conflict ''The gateway proxy changed while this revocation was waiting; reload and retry'' None)) (\<lambda>_.
     io_bind (io_read (\<lambda>db. users_findById db (gr_user_id g0))) (\<lambda>grantee.
     io_bind (claim_revocation actor g0 reason extra) (\<lambda>c.
     withdraw_gateway fuel ns actor api grantee c (a_ferrum_proxy_id initialApi))))) (section_done i must (w_puts w0)) ?E"
    if "a_id api = i_api i" for api
    by (rule hoare_quiet [OF quiet_guard sS hoare_bind [OF u claim [OF that]]]) (rule sE)
  have load: "hoare env ?S (load_grant actor k rel) (\<lambda>(g, api) w. ?S w \<and> g = g0 \<and> a_id api = i_api i) ?E"
    by (rule hoare_weaken [OF hoare_conj [OF hoare_load_grant [OF pe g0 i] quietD [OF quiet_load_grant stable_patient(7) [OF pe]]]])
       (use sE in auto)
  show ?thesis unfolding withdraw_section_def
    by (rule hoare_bind [OF load], rule hoare_prodI, simp only: prod.case, rule hoare_pure) (use body in auto)
qed

lemma hoare_withdrawGrant:
  assumes pe: "patient_env i env" and g0: "grant_of i (w_db w0) = Some g0" and extra: "records_only extra"
    and i: "i = \<lparr>i_request = k, i_api = gr_api_id g0, i_user = gr_user_id g0, i_app = gr_application_id g0\<rparr>"
    and due: "must \<Longrightarrow> removal_due env i (w_db w0)"
  shows "hoare env (\<lambda>w. standing i w0 w \<and> targeted env must i (w_db w)) (withdrawGrant fuel ns actor k reason rel extra)
    (\<lambda>g. removed i must (w_puts w0) g) (\<lambda>_. revocation_left i w0)"
proof -
  let ?S = "\<lambda>w. standing i w0 w \<and> targeted env must i (w_db w)" and ?E = "\<lambda>_ :: failure. revocation_left i w0"
  have sS: "stable env ?S" by (intro stable_conj stable_patient [OF pe])
  have sE: "\<And>w. ?S w \<Longrightarrow> revocation_left i w0 w" by (simp add: revocation_left_def)
  have resume: "hoare env (\<lambda>w. accounted i (w_db w)) (resume_withdrawal fuel actor since c f) (\<lambda>g. removed i must (w_puts w0) g) ?E"
    if "gr_id (cl_grant c) = i_request i" for since c f
    unfolding resume_withdrawal_def
    by (rule hoare_keeps [OF restoreAlone_keeps [OF pe that]], rule hoare_keeps [OF settleOwnedJob_keeps [OF pe]])
       (auto intro!: hoare_throw simp: revocation_left_def)
  have fin: "hoare env (section_done i must (w_puts w0) r) (case r of Inr updated \<Rightarrow> io_return updated
      | Inl (since, c, f) \<Rightarrow> resume_withdrawal fuel actor since c f) (\<lambda>g. removed i must (w_puts w0) g) ?E" for r
  proof (cases r)
    case (Inl x)
    obtain since c f where x: "x = (since, c, f)" by (metis prod.exhaust)
    show ?thesis unfolding Inl x section_done_def sum.case prod.case by (rule hoare_pure) (rule resume)
  qed (auto simp: section_done_def intro: hoare_return)
  have sect: "hoare env ?S (if truthy p then io_lock key (withdraw_section fuel ns actor k reason rel extra a)
      else withdraw_section fuel ns actor k reason rel extra a) (section_done i must (w_puts w0)) ?E" for p key a
    using hoare_withdraw_section [OF pe g0 extra i due] by (auto intro!: hoare_lock [OF sS] sE)
  have load: "hoare env ?S (load_grant actor k rel) (\<lambda>(g, api) w. ?S w \<and> g = g0 \<and> a_id api = i_api i) ?E"
    by (rule hoare_weaken [OF hoare_conj [OF hoare_load_grant [OF pe g0 i] quietD [OF quiet_load_grant stable_patient(7) [OF pe]]]])
       (use sE in auto)
  show ?thesis unfolding withdrawGrant_def Let_def
    by (rule hoare_bind [OF load], rule hoare_prodI, simp only: prod.case, rule hoare_pure,
        rule hoare_quiet [OF quiet_guard sS hoare_bind [OF sect fin]]) (rule sE)
qed

text \<open>
  C2. However a revocation (by a reviewer, or by the grantee giving up its own access) ends, access is
  not stranded. If it returns, the grant is revoked, no active grant of the identity is left, and the
  gateway acknowledged the one write it was sent, of that identity's consumer with none of the API's
  groups; nothing may have been sent only if the identity had no consumer when the revocation began, or its
  account did not exist or was deleted meanwhile. If it throws, then nothing of the grant changed and nothing was
  sent, or the grant is active, or the durable job that owes the removal is still there for the worker;
  whatever the gateway answered, whichever transactions were refused or unacknowledged, and however far
  the rollback got.
\<close>

theorem revoke_never_strands:
  assumes "patient_env i env" "well_keyed (w_db w0)" "grant_of i (w_db w0) = Some g0" "records_only extra"
    and "i = \<lparr>i_request = k, i_api = gr_api_id g0, i_user = gr_user_id g0, i_app = gr_application_id g0\<rparr>"
  shows "case withdrawGrant fuel ns actor k reason rel extra env w0 of
      (Inr g, w') \<Rightarrow> removed i (removal_due env i (w_db w0)) (w_puts w0) g w'
    | (Inl f, w') \<Rightarrow> standing i w0 w' \<or> accounted i (w_db w')"
proof -
  have "standing i w0 w0" using assms(2) by (simp add: standing_def)
  moreover have "targeted env (removal_due env i (w_db w0)) i (w_db w0)" by (simp add: targeted_def)
  ultimately show ?thesis
    using hoare_withdrawGrant [OF assms(1,3-5), of "removal_due env i (w_db w0)" fuel ns actor reason rel]
    unfolding hoare_def revocation_left_def by simp
qed

definition ex_grant :: grant where
  "ex_grant = \<lparr>gr_id = ''g1'', gr_api_id = ''a1'', gr_user_id = ''u1'', gr_application_id = None,
     gr_access_request_id = Some ''r1'', gr_acl_group = aclGroupForApi ''a1'', gr_status = Gr_Active,
     gr_granted_by = ''o1'', gr_revoked_by = None, gr_revoked_at = None, gr_approved_tools = None,
     gr_created_at = 0, gr_updated_at = 0\<rparr>"

definition ex_granted :: world where
  "ex_granted = ex_world\<lparr>w_db := (w_db ex_world)\<lparr>db_grants := [ex_grant],
     db_users := [ex_owner, example_user ''u1'' Client],
     db_consumers := [\<lparr>co_user_id = ''u1'', co_application_id = None, co_ferrum_consumer_id = ''c1''\<rparr>]\<rparr>\<rparr>"

definition ex_grant_ident :: ident where
  "ex_grant_ident = \<lparr>i_request = ''g1'', i_api = ''a1'', i_user = ''u1'', i_app = None\<rparr>"

theorem revoke_never_strands_witness:
  "case withdrawGrant 1 ''ns'' ex_owner ''g1'' None False (\<lambda>_. tx_return ()) quiet_env ex_granted of
      (Inr g, w') \<Rightarrow> removed ex_grant_ident True (w_puts ex_granted) g w'
    | (Inl f, w') \<Rightarrow> standing ex_grant_ident ex_granted w' \<or> accounted ex_grant_ident (w_db w')"
proof -
  have "patient_env ex_grant_ident quiet_env" by (simp add: patient_env_def quiet_env_def spares_def)
  moreover have "well_keyed (w_db ex_granted)"
    by (simp add: well_keyed_def keyed_def ex_granted_def ex_world_def requests_unique_def grants_unique_def)
  moreover have "grant_of ex_grant_ident (w_db ex_granted) = Some ex_grant"
    by (simp add: grant_of_def ex_grant_ident_def ex_granted_def ex_world_def grants_findById_def find_by_def ex_grant_def)
  moreover have "records_only (\<lambda>_. tx_return ())" by (simp add: records_only_def tx_return_def)
  moreover have "ex_grant_ident = \<lparr>i_request = ''g1'', i_api = gr_api_id ex_grant, i_user = gr_user_id ex_grant,
      i_app = gr_application_id ex_grant\<rparr>"
    by (simp add: ex_grant_ident_def ex_grant_def)
  ultimately have "case withdrawGrant 1 ''ns'' ex_owner ''g1'' None False (\<lambda>_. tx_return ()) quiet_env ex_granted of
      (Inr g, w') \<Rightarrow> removed ex_grant_ident (removal_due quiet_env ex_grant_ident (w_db ex_granted)) (w_puts ex_granted) g w'
    | (Inl f, w') \<Rightarrow> standing ex_grant_ident ex_granted w' \<or> accounted ex_grant_ident (w_db w')"
    by (rule revoke_never_strands)
  moreover have "removal_due quiet_env ex_grant_ident (w_db ex_granted) = True"
    by (simp add: removal_due_def quiet_env_def ex_granted_def ex_world_def ex_grant_ident_def consumer_of_def consumers_findByUser_def
        users_findById_def find_by_def ex_owner_def)
  ultimately show ?thesis by (simp only:)
qed

subsection \<open>What a rollback may put back\<close>

lemma restore_rest_result: "restore_rest cl rq tq now db = Inr (r, db') \<Longrightarrow> rs_restored r"
  by (auto simp: restore_rest_def tx_simps)

definition job_settled :: "string \<Rightarrow> portal_db \<Rightarrow> bool" where
  "job_settled k db \<longleftrightarrow> keyed db \<and> accessGatewayJobs_findBySubject db k = None"

lemma framed_job_settled: "framed (job_settled k)"
  unfolding framed_def job_settled_def accessGatewayJobs_findBySubject_def by simp

lemma restore_rest_job:
  assumes "keyed db" "restore_rest cl rq tq now db = Inr (r, db')"
  shows "accessGatewayJobs_findBySubject db' (gr_id cl) = None"
proof -
  let ?db1 = "snd (accessGatewayJobs_deleteBySubject (gr_id cl) db)"
  let ?D = "job_settled (gr_id cl)"
  have "?D ?db1"
    using assms(1) by (auto simp: job_settled_def findBySubject_none accessGatewayJobs_deleteBySubject_def keyed_def
        distinct_map_filter)
  moreover have "tx_keeps ?D (tx_bind (case rq of
         None \<Rightarrow> tx_return None
       | Some r \<Rightarrow> accessRequests_updateIfStatus now (rq_id r) Rq_Revoked
           (no_request_patch\<lparr>pq_status := Some (rq_status r), pq_decided_by := Some (rq_decided_by r),
              pq_decided_at := Some (rq_decided_at r), pq_decision_note := Some (rq_decision_note r)\<rparr>)) (\<lambda>_.
     tx_bind (case tq of None \<Rightarrow> tx_return Tool_Left | Some t \<Rightarrow> restoreToolRequest cl t now) (\<lambda>tool.
     tx_return \<lparr>rs_restored = True, rs_skipped = None, rs_tool = tool\<rparr>)))"
    by (intro keeping framed_request_update restoreToolRequest_keeps framed_job_settled)
  ultimately have "?D db'"
    using assms(2) unfolding restore_rest_def tx_bind_def [of "tx_of _"] tx_of_def
    by (auto simp: tx_keeps_def split: prod.splits)
  then show ?thesis by (simp add: job_settled_def)
qed


definition ex_claim :: grant where
  "ex_claim = ex_grant\<lparr>gr_status := Gr_Revoked, gr_revoked_by := Some ''o1'', gr_revoked_at := Some 9\<rparr>"

definition ex_revoked_db :: portal_db where
  "ex_revoked_db = (w_db ex_granted)\<lparr>db_grants := [ex_claim]\<rparr>"


end
