(* ===== verification/Rollback_Loops.thy ===== *)
theory Rollback_Loops
  imports Revocation_Safety
begin

section \<open>The loops of a rollback end\<close>

text \<open>
  The rollback of a revocation retries while a crashed instance may hold a key it needs. Each attempt
  reads the clock, and an attempt made later than the lease's time to live after the rollback began is
  the last. With a clock that advances at every reading there are at most that many attempts, so the
  fuel of the loops is enough and its exact amount changes nothing.
\<close>

named_theorems advancing \<open>programs that only move the call counter forward\<close>

definition advances :: "'a io \<Rightarrow> bool" where
  "advances m \<longleftrightarrow> (\<forall>env w. w_tick w \<le> w_tick (snd (m env w)))"

lemma advancesD: "advances m \<Longrightarrow> m env w = (r, w') \<Longrightarrow> w_tick w \<le> w_tick w'"
  unfolding advances_def by (metis snd_conv)

lemma advances_pure [advancing]: "advances (io_return a)" "advances (io_throw f)"
  by (simp_all add: advances_def io_return_def io_throw_def)

lemma advances_bind [advancing]:
  assumes "advances m" "\<And>a. advances (k a)"
  shows "advances (io_bind m k)"
  using assms unfolding advances_def io_bind_def
  by (auto split: prod.splits sum.splits) (metis snd_conv, metis le_trans snd_conv)

lemma advances_catch [advancing]:
  assumes "advances m" "\<And>f. advances (h f)"
  shows "advances (io_catch m h)"
  using assms unfolding advances_def io_catch_def
  by (auto split: prod.splits sum.splits) (metis le_trans snd_conv, metis snd_conv)

lemma advances_try [advancing]:
  assumes "advances m"
  shows "advances (io_try m)"
  unfolding advances_def io_try_def using advancesD [OF assms] by (auto split: prod.splits)

lemma advances_tx [advancing]: "advances (io_tx m)" "advances (io_read f)"
  by (auto simp: advances_def io_read_def io_tx_def advance_def Let_def split: option.splits fault.splits sum.splits)

lemma advances_calls [advancing]: "advances io_now" "advances io_newId" "advances (edge_verification c)"
  by (simp_all add: advances_def io_now_def io_newId_def edge_verification_def advance_def)

lemma advances_lock [advancing]:
  assumes "advances m"
  shows "advances (io_lock key m)"
  unfolding advances_def
proof (intro allI)
  fix env w
  have "w_tick (advance env w) \<le> w_tick (snd (m env (advance env w)))" using assms by (simp add: advances_def)
  then have "w_tick w \<le> w_tick (snd (m env (advance env w)))" by (simp add: advance_def)
  then show "w_tick w \<le> w_tick (snd (io_lock key m env w))"
    by (auto simp: io_lock_def Let_def split: option.splits) (simp add: advance_def)
qed

lemma advances_if [advancing]: "(b \<Longrightarrow> advances m) \<Longrightarrow> (\<not> b \<Longrightarrow> advances m') \<Longrightarrow> advances (if b then m else m')"
  by simp

lemma advances_option [advancing]:
  "(v = None \<Longrightarrow> advances m) \<Longrightarrow> (\<And>x. v = Some x \<Longrightarrow> advances (k x)) \<Longrightarrow> advances (case v of None \<Rightarrow> m | Some x \<Rightarrow> k x)"
  by (cases v) auto

lemma advances_sum [advancing]:
  "(\<And>f. v = Inl f \<Longrightarrow> advances (k f)) \<Longrightarrow> (\<And>a. v = Inr a \<Longrightarrow> advances (h a)) \<Longrightarrow>
     advances (case v of Inl f \<Rightarrow> k f | Inr a \<Rightarrow> h a)"
  by (cases v) auto

lemma restoreOnce_advances [advancing]: "advances (restoreOnce cl proxyId body)"
  unfolding restoreOnce_def under_lifecycle_def groupStillOn_def by (intro advancing)

lemma restoreUnderKeys_advances [advancing]: "advances (restoreUnderKeys fuel cl since proxyId body)"
  by (induction fuel) (auto intro!: advancing)

lemma restoreUnderFreshProxy_advances [advancing]: "advances (restoreUnderFreshProxy fuel inner cl since body)"
  by (induction fuel) (auto simp: Let_def restore_under_proxy_def retry_round_def intro!: advancing)

lemma restoreAlone_advances [advancing]: "advances (restoreAlone fuel actor c since proxyId fresh)"
  unfolding restoreAlone_def by (intro advancing)

subsection \<open>The clock\<close>

definition ticking :: "env \<Rightarrow> bool" where
  "ticking env \<longleftrightarrow> (\<forall>n. e_now env n < e_now env (Suc n))"

lemma ticking_mono:
  assumes "ticking env" "m \<le> n"
  shows "e_now env m + int (n - m) \<le> e_now env n"
  using assms(2)
proof (induction n rule: dec_induct)
  case (step n)
  then show ?case using assms(1) by (auto simp: ticking_def Suc_diff_le dest: spec [of _ n])
qed simp

text \<open>Enough fuel: one attempt for every millisecond left until the last attempt, and one more.\<close>

definition enough :: "env \<Rightarrow> int \<Rightarrow> world \<Rightarrow> nat \<Rightarrow> bool" where
  "enough env since w fuel \<longleftrightarrow> 1 \<le> fuel \<and> since + LEASE_TTL_MS - e_now env (w_tick w) + 2 \<le> int fuel"

lemma enough_later:
  assumes "ticking env" "enough env since w fuel" "w_tick w \<le> w_tick w'"
  shows "enough env since w' fuel"
  using ticking_mono [OF assms(1,3)] assms(2) by (auto simp: enough_def)

lemma enough_retry:
  assumes "ticking env" "enough env since w (Suc fuel)" "w_tick w < w_tick w'"
    and "e_now env (w_tick w) - since \<le> LEASE_TTL_MS"
  shows "enough env since w' fuel"
  using ticking_mono [OF assms(1), of "w_tick w" "w_tick w'"] assms by (auto simp: enough_def)

lemma io_now_eq: "io_now env w = (Inr (e_now env (w_tick w)), w\<lparr>w_tick := Suc (w_tick w)\<rparr>)"
  by (simp add: io_now_def)

lemma restoreUnderKeys_enough:
  "ticking env \<Longrightarrow> enough env since w fuel \<Longrightarrow>
     restoreUnderKeys (fuel + spare) cl since proxyId body env w = restoreUnderKeys fuel cl since proxyId body env w"
proof (induction fuel arbitrary: w)
  case (Suc fuel)
  let ?w1 = "w\<lparr>w_tick := Suc (w_tick w)\<rparr>"
  obtain r w2 where r: "restoreOnce cl proxyId body env ?w1 = (r, w2)" by (rule prod.exhaust)
  have later: "w_tick w < w_tick w2" using advancesD [OF restoreOnce_advances r] by simp
  show ?case
  proof (cases "\<exists>f. r = Inl f \<and> isLockTimeout f \<and> e_now env (w_tick w) - since \<le> LEASE_TTL_MS")
    case True
    then have "restoreUnderKeys (fuel + spare) cl since proxyId body env w2 = restoreUnderKeys fuel cl since proxyId body env w2"
      using Suc.IH [OF Suc.prems(1) enough_retry [OF Suc.prems later]] by blast
    then show ?thesis using True r by (auto simp: io_bind_def io_catch_def io_now_eq)
  next
    case False
    then show ?thesis using r by (auto simp: io_bind_def io_catch_def io_now_eq split: sum.splits)
  qed
qed (simp add: enough_def)

text \<open>Two programs that agree from here on.\<close>

lemma io_bind_cong:
  "m env w = m' env w \<Longrightarrow> (\<And>a w'. m env w = (Inr a, w') \<Longrightarrow> k a env w' = k' a env w') \<Longrightarrow>
     io_bind m k env w = io_bind m' k' env w"
  by (auto simp: io_bind_def split: prod.splits sum.splits)

lemma io_try_cong: "m env w = m' env w \<Longrightarrow> io_try m env w = io_try m' env w"
  by (simp add: io_try_def)

lemma io_lock_cong: "m env (advance env w) = m' env (advance env w) \<Longrightarrow> io_lock key m env w = io_lock key m' env w"
  by (simp add: io_lock_def Let_def split: option.splits)

lemma restore_under_proxy_enough:
  assumes "ticking env" "enough env since w inner"
  shows "restore_under_proxy (inner + spare) cl since proxyId body env w = restore_under_proxy inner cl since proxyId body env w"
  unfolding restore_under_proxy_def
proof (rule io_lock_cong, rule io_bind_cong, rule refl)
  fix a w'
  assume "io_read (\<lambda>db. apis_findById db (gr_api_id cl)) env (advance env w) = (Inr a, w')"
  then have "w_tick (advance env w) \<le> w_tick w'" by (rule advancesD [OF advances_tx(2)])
  then have e: "enough env since w' inner" by (intro enough_later [OF assms]) (simp add: advance_def)
  show "(if (case a of None \<Rightarrow> True | Some x \<Rightarrow> a_ferrum_proxy_id x \<noteq> Some proxyId) then io_return None
      else io_bind (restoreUnderKeys (inner + spare) cl since (Some proxyId) body) (\<lambda>v. io_return (Some v))) env w' =
    (if (case a of None \<Rightarrow> True | Some x \<Rightarrow> a_ferrum_proxy_id x \<noteq> Some proxyId) then io_return None
      else io_bind (restoreUnderKeys inner cl since (Some proxyId) body) (\<lambda>v. io_return (Some v))) env w'"
    using restoreUnderKeys_enough [OF assms(1) e] by (auto intro!: io_bind_cong)
qed

lemma restoreUnderFreshProxy_enough:
  "ticking env \<Longrightarrow> enough env since w fuel \<Longrightarrow> enough env since w inner \<Longrightarrow>
     restoreUnderFreshProxy (fuel + spare) (inner + spare) cl since body env w =
     restoreUnderFreshProxy fuel inner cl since body env w"
proof (induction fuel arbitrary: w)
  case (Suc fuel)
  let ?t = "e_now env (w_tick w)"
  have step: "(let proxyId = (case api of None \<Rightarrow> None | Some a \<Rightarrow> if a_agents a = None then None else a_ferrum_proxy_id a)
      in if \<not> truthy proxyId then restoreUnderKeys (inner + spare) cl since None body
        else io_bind (io_try (restore_under_proxy (inner + spare) cl since (the proxyId) body))
               (retry_round ?t since (restoreUnderFreshProxy (fuel + spare) (inner + spare) cl since body))) env w2 =
      (let proxyId = (case api of None \<Rightarrow> None | Some a \<Rightarrow> if a_agents a = None then None else a_ferrum_proxy_id a)
      in if \<not> truthy proxyId then restoreUnderKeys inner cl since None body
        else io_bind (io_try (restore_under_proxy inner cl since (the proxyId) body))
               (retry_round ?t since (restoreUnderFreshProxy fuel inner cl since body))) env w2"
    if later: "w_tick w < w_tick w2" for api w2
  proof -
    have inner2: "enough env since w2 inner" using later by (intro enough_later [OF Suc.prems(1,3)]) simp
    have again: "restoreUnderFreshProxy (fuel + spare) (inner + spare) cl since body env w' =
        restoreUnderFreshProxy fuel inner cl since body env w'" if "w_tick w2 \<le> w_tick w'" "?t - since \<le> LEASE_TTL_MS" for w'
      using that later
      by (intro Suc.IH Suc.prems enough_retry [OF Suc.prems(1,2)] enough_later [OF Suc.prems(1,3)]) auto
    have round: "retry_round ?t since (restoreUnderFreshProxy (fuel + spare) (inner + spare) cl since body) r env w' =
        retry_round ?t since (restoreUnderFreshProxy fuel inner cl since body) r env w'"
      if "io_try (restore_under_proxy n cl since q body) env w2 = (Inr r, w')" for r q n w'
    proof -
      have "w_tick w2 \<le> w_tick w'"
        by (rule advancesD [where m = "io_try (restore_under_proxy n cl since q body)", OF _ that])
           (unfold restore_under_proxy_def, intro advancing)
      then show ?thesis using again by (auto simp: retry_round_def split: sum.splits option.splits)
    qed
    show ?thesis unfolding Let_def
      using restoreUnderKeys_enough [OF Suc.prems(1) inner2] restore_under_proxy_enough [OF Suc.prems(1) inner2] round
      by (auto intro!: io_bind_cong io_try_cong)
  qed
  show ?case unfolding add_Suc restoreUnderFreshProxy.simps
  proof (rule io_bind_cong, rule refl, rule io_bind_cong, rule refl)
    fix t w1 api w2
    assume "io_now env w = (Inr t, w1)" and r: "io_read (\<lambda>db. apis_findById db (gr_api_id cl)) env w1 = (Inr api, w2)"
    then have t: "t = ?t" "w_tick w1 = Suc (w_tick w)" by (auto simp: io_now_eq)
    then have "w_tick w < w_tick w2" using advancesD [OF advances_tx(2) r] by simp
    from step [OF this, of api] show "(let proxyId = (case api of None \<Rightarrow> None | Some a \<Rightarrow> if a_agents a = None then None else a_ferrum_proxy_id a)
      in if \<not> truthy proxyId then restoreUnderKeys (inner + spare) cl since None body
        else io_bind (io_try (restore_under_proxy (inner + spare) cl since (the proxyId) body))
               (retry_round t since (restoreUnderFreshProxy (fuel + spare) (inner + spare) cl since body))) env w2 =
      (let proxyId = (case api of None \<Rightarrow> None | Some a \<Rightarrow> if a_agents a = None then None else a_ferrum_proxy_id a)
      in if \<not> truthy proxyId then restoreUnderKeys inner cl since None body
        else io_bind (io_try (restore_under_proxy inner cl since (the proxyId) body))
               (retry_round t since (restoreUnderFreshProxy fuel inner cl since body))) env w2" by (simp only: t)
  qed
qed (simp add: enough_def)

lemma restoreAlone_enough:
  assumes "ticking env" "enough env since w fuel"
  shows "restoreAlone (fuel + spare) actor c since proxyId fresh env w = restoreAlone fuel actor c since proxyId fresh env w"
  unfolding restoreAlone_def
  using restoreUnderFreshProxy_enough [OF assms assms(2)] restoreUnderKeys_enough [OF assms]
  by (auto intro!: io_bind_cong io_try_cong)

lemma since_later:
  assumes "ticking env" "since \<le> e_now env (w_tick w)" "w_tick w \<le> w_tick w'"
  shows "since \<le> e_now env (w_tick w')"
  using ticking_mono [OF assms(1,3)] assms(2) by linarith

lemma enoughI: "since \<le> e_now env (w_tick w) \<Longrightarrow> nat LEASE_TTL_MS + 2 \<le> fuel \<Longrightarrow> enough env since w fuel"
  by (simp add: enough_def LEASE_TTL_MS_def)

lemma unwindRevocation_enough:
  assumes t: "ticking env" and f: "nat LEASE_TTL_MS + 2 \<le> fuel"
  shows "unwindRevocation (fuel + spare) actor c proxyId env w = unwindRevocation fuel actor c proxyId env w"
  unfolding unwindRevocation_def
proof (rule io_bind_cong, rule refl, rule io_bind_cong, rule refl)
  fix rid w1 since w2
  assume "io_now env w1 = (Inr since, w2)"
  then have e: "enough env since w2 fuel"
    using since_later [OF t, of since w1 w2] by (intro enoughI [OF _ f]) (auto simp: io_now_eq)
  let ?body = "\<lambda>present now. tx_bind (restore_body c present now) (\<lambda>_.
         tx_audit_as rid (Some (u_id actor)) ACCESS_REVOKE_ROLLBACK (gr_id (cl_grant c)) now)"
  let ?rest = "\<lambda>fl r. case r of Inl f \<Rightarrow>
         io_bind (auditRowCommitted (gr_id (cl_grant c)) rid) (\<lambda>committed.
         if committed then io_return None
         else if isLeaseLost f then io_return (Some since)
         else io_bind (restoreAlone fl actor c since proxyId False)
                (\<lambda>resume. io_return (if resume then Some since else None)))
     | Inr _ \<Rightarrow> io_return None"
  have rest: "?rest (fuel + spare) r env w3 = ?rest fuel r env w3" if "w_tick w2 \<le> w_tick w3" for r w3
  proof (cases r)
    case (Inl f)
    have "restoreAlone (fuel + spare) actor c since proxyId False env w4 = restoreAlone fuel actor c since proxyId False env w4"
      if "auditRowCommitted (gr_id (cl_grant c)) rid env w3 = (Inr x, w4)" for x w4
    proof -
      have "w_tick w3 \<le> w_tick w4"
        by (rule advancesD [where m = "auditRowCommitted (gr_id (cl_grant c)) rid", OF _ that])
           (unfold auditRowCommitted_def, intro advancing)
      then show ?thesis using \<open>w_tick w2 \<le> w_tick w3\<close> by (intro restoreAlone_enough [OF t] enough_later [OF t e]) simp
    qed
    then show ?thesis unfolding Inl sum.case by (intro io_bind_cong refl) (auto intro!: io_bind_cong)
  qed simp
  show "io_bind (io_try (restoreUnderKeys (fuel + spare) (cl_grant c) since proxyId ?body)) (?rest (fuel + spare)) env w2 =
      io_bind (io_try (restoreUnderKeys fuel (cl_grant c) since proxyId ?body)) (?rest fuel) env w2"
  proof (rule io_bind_cong)
    show eq: "io_try (restoreUnderKeys (fuel + spare) (cl_grant c) since proxyId ?body) env w2 =
        io_try (restoreUnderKeys fuel (cl_grant c) since proxyId ?body) env w2"
      by (rule io_try_cong) (rule restoreUnderKeys_enough [OF t e])
    show "?rest (fuel + spare) r env w3 = ?rest fuel r env w3"
      if "io_try (restoreUnderKeys (fuel + spare) (cl_grant c) since proxyId ?body) env w2 = (Inr r, w3)" for r w3
      by (rule rest, rule advancesD [where m = "io_try (restoreUnderKeys (fuel + spare) (cl_grant c) since proxyId ?body)", OF _ that])
         (intro advancing)
  qed
qed

lemma hoare_clock:
  assumes "ticking env" "advances m"
  shows "hoare env (\<lambda>w. since \<le> e_now env (w_tick w)) m (\<lambda>_ w. since \<le> e_now env (w_tick w)) (\<lambda>_ _. True)"
proof (rule hoareI)
  fix w :: world
  assume "since \<le> e_now env (w_tick w)"
  then have "since \<le> e_now env (w_tick (snd (m env w)))"
    using since_later [OF assms(1), of since w "snd (m env w)"] assms(2) by (simp add: advances_def)
  then show "case m env w of (Inr a, w') \<Rightarrow> since \<le> e_now env (w_tick w') | (Inl f, w') \<Rightarrow> True"
    by (auto split: prod.splits sum.splits)
qed

lemma unwindRevocation_since:
  assumes t: "ticking env" and u: "unwindRevocation fuel actor c proxyId env w = (Inr (Some since), w')"
  shows "since \<le> e_now env (w_tick w')"
proof -
  have "hoare env (\<lambda>_. True) (unwindRevocation fuel actor c proxyId)
      (\<lambda>r w. case r of None \<Rightarrow> True | Some s \<Rightarrow> s \<le> e_now env (w_tick w)) (\<lambda>_ _. True)"
    unfolding unwindRevocation_def
  proof (rule hoare_bind [where R = "\<lambda>_ _. True"], simp add: hoare_def split: prod.splits sum.splits,
      rule hoare_bind [where R = "\<lambda>s w. s \<le> e_now env (w_tick w)"])
    show "hoare env (\<lambda>_. True) io_now (\<lambda>s w. s \<le> e_now env (w_tick w)) (\<lambda>_ _. True)"
      using t by (auto simp: hoare_def io_now_eq ticking_def intro: less_imp_le)
    fix rid :: string and s :: int
    let ?P = "\<lambda>w. s \<le> e_now env (w_tick w)"
    show "hoare env ?P (io_bind (io_try (restoreUnderKeys fuel (cl_grant c) s proxyId (\<lambda>present now.
         tx_bind (restore_body c present now) (\<lambda>_.
         tx_audit_as rid (Some (u_id actor)) ACCESS_REVOKE_ROLLBACK (gr_id (cl_grant c)) now)))) (\<lambda>r. case r of
       Inl f \<Rightarrow>
         io_bind (auditRowCommitted (gr_id (cl_grant c)) rid) (\<lambda>committed.
         if committed then io_return None
         else if isLeaseLost f then io_return (Some s)
         else io_bind (restoreAlone fuel actor c s proxyId False)
                (\<lambda>resume. io_return (if resume then Some s else None)))
     | Inr _ \<Rightarrow> io_return None)) (\<lambda>r w. case r of None \<Rightarrow> True | Some s \<Rightarrow> s \<le> e_now env (w_tick w)) (\<lambda>_ _. True)"
      by (intro hoare_bind [where R = "\<lambda>_. ?P"] hoare_clock [OF t] advancing)
         (auto intro!: hoare_return hoare_bind [where R = "\<lambda>_. ?P"] hoare_clock [OF t] advancing
           simp: auditRowCommitted_def split: sum.splits)
  qed
  from hoare_Inr [OF this _ u] show ?thesis by simp
qed

lemma withdraw_gateway_enough:
  assumes t: "ticking env" and f: "nat LEASE_TTL_MS + 2 \<le> fuel"
  shows "withdraw_gateway (fuel + spare) ns actor api grantee c proxyId env w =
    withdraw_gateway fuel ns actor api grantee c proxyId env w"
  unfolding withdraw_gateway_def
  by (intro io_bind_cong refl) (auto intro!: io_bind_cong simp: unwindRevocation_enough [OF t f] split: sum.splits)

lemma withdraw_section_enough:
  assumes "ticking env" "nat LEASE_TTL_MS + 2 \<le> fuel"
  shows "withdraw_section (fuel + spare) ns actor k reason rel extra a env w = withdraw_section fuel ns actor k reason rel extra a env w"
  unfolding withdraw_section_def
  by (intro io_bind_cong refl) (auto intro!: io_bind_cong simp: withdraw_gateway_enough [OF assms] split: prod.splits)

text \<open>A rollback is resumed at a later instant than it began.\<close>

lemma hoare_top: "hoare env P m (\<lambda>_ _. True) (\<lambda>_ _. True)"
  by (auto simp: hoare_def split: prod.splits sum.splits)

definition resumed_later :: "env \<Rightarrow> (int \<times> claim \<times> failure) + grant \<Rightarrow> world \<Rightarrow> bool" where
  "resumed_later env r w \<longleftrightarrow> (case r of Inr g \<Rightarrow> True | Inl (since, _) \<Rightarrow> since \<le> e_now env (w_tick w))"

lemma withdraw_section_since:
  assumes t: "ticking env"
  shows "hoare env (\<lambda>_. True) (withdraw_section fuel ns actor k reason rel extra a) (resumed_later env) (\<lambda>_ _. True)"
proof -
  let ?T = "\<lambda>_ _. True"
  have unwind: "hoare env (\<lambda>_. True) (unwindRevocation fuel actor c p)
      (\<lambda>r w. case r of None \<Rightarrow> True | Some s \<Rightarrow> s \<le> e_now env (w_tick w)) ?T" for c p
    using unwindRevocation_since [OF t] by (auto simp: hoare_def split: prod.splits sum.splits option.splits)
  have gateway: "hoare env (\<lambda>_. True) (withdraw_gateway fuel ns actor api grantee c p) (resumed_later env) ?T" for api grantee c p
    unfolding withdraw_gateway_def
    by (rule hoare_bind [where R = ?T], rule hoare_top)
       (auto intro!: hoare_bind [OF unwind] hoare_bind [where R = ?T] hoare_top hoare_return hoare_throw
         simp: resumed_later_def split: sum.splits option.splits)
  have rest: "hoare env (\<lambda>_. True) (case x of (g, api) \<Rightarrow>
     io_bind (io_guard (a_ferrum_proxy_id api = a_ferrum_proxy_id a)
         (conflict ''The gateway proxy changed while this revocation was waiting; reload and retry'' None)) (\<lambda>_.
     io_bind (io_read (\<lambda>db. users_findById db (gr_user_id g))) (\<lambda>grantee.
     io_bind (claim_revocation actor g reason extra) (\<lambda>c.
     withdraw_gateway fuel ns actor api grantee c (a_ferrum_proxy_id a))))) (resumed_later env) ?T" for x
    by (cases x) (auto intro!: hoare_bind [where R = ?T] hoare_top gateway)
  show ?thesis unfolding withdraw_section_def by (rule hoare_bind [where R = ?T, OF hoare_top rest])
qed

text \<open>
  C27. The loops of a rollback end: with a clock that advances at every reading, the fuel of 60 002
  rounds is enough for every revocation, whatever the gateway and the store answered and whichever keys
  timed out: more fuel never changes the outcome.
\<close>

theorem rollback_loops_end:
  assumes "\<And>n. e_now env n < e_now env (Suc n)" and f: "nat LEASE_TTL_MS + 2 \<le> fuel"
  shows "withdrawGrant (fuel + spare) ns actor k reason rel extra env w = withdrawGrant fuel ns actor k reason rel extra env w"
proof -
  have t: "ticking env" using assms(1) by (simp add: ticking_def)
  let ?sec = "\<lambda>fl a. if truthy (a_ferrum_proxy_id a)
      then io_lock (proxyLockKey (the (a_ferrum_proxy_id a))) (withdraw_section fl ns actor k reason rel extra a)
      else withdraw_section fl ns actor k reason rel extra a"
  let ?fin = "\<lambda>fl withdrawn. case withdrawn of Inr updated \<Rightarrow> io_return updated
      | Inl (since, c, f) \<Rightarrow> resume_withdrawal fl actor since c f"
  have sec: "?sec (fuel + spare) a env w1 = ?sec fuel a env w1" for a w1
    using withdraw_section_enough [OF t f] by (auto intro!: io_lock_cong)
  have post: "resumed_later env r w2" if "?sec fuel a env w1 = (Inr r, w2)" for a w1 r w2
    using that hoare_Inr [OF withdraw_section_since [OF t] TrueI]
    by (auto simp: io_lock_def Let_def split: if_splits option.splits)
  have fin: "?fin (fuel + spare) r env w2 = ?fin fuel r env w2" if "resumed_later env r w2" for r w2
    using that restoreAlone_enough [OF t enoughI [OF _ f]]
    by (auto simp: resumed_later_def resume_withdrawal_def intro!: io_bind_cong split: sum.splits)
  have both: "io_bind (?sec (fuel + spare) a) (?fin (fuel + spare)) env w1 = io_bind (?sec fuel a) (?fin fuel) env w1" for a w1
    by (rule io_bind_cong, rule sec, rule fin) (use post sec in auto)
  show ?thesis unfolding withdrawGrant_def Let_def
    apply (rule io_bind_cong, rule refl)
    subgoal for x w1 by (cases x) (simp only: prod.case, rule io_bind_cong, rule refl, rule both)
    done
qed

definition clock_env :: env where
  "clock_env = \<lparr>e_other = (\<lambda>n db. db), e_fault = (\<lambda>n. None),
     e_lock = (\<lambda>n k. if n < 5 then None else Some \<lparr>f_error = conflict ''busy'' None, f_tag = LockTimeout\<rparr>),
     e_get = (\<lambda>n c. Inr (Some [])), e_put = (\<lambda>n. None), e_ensure = (\<lambda>n. Inr ''c1''), e_now = int, e_id = (\<lambda>n. ''id''), e_send = (\<lambda>n. Accepted),
     e_find = (\<lambda>n c. Inr True), e_named = (\<lambda>n u. Inr None), e_act = (\<lambda>n. None)\<rparr>"

theorem rollback_loops_end_witness:
  "withdrawGrant (60002 + 5) ''ns'' ex_owner ''g1'' None False (\<lambda>_. tx_return ()) clock_env ex_granted =
     withdrawGrant 60002 ''ns'' ex_owner ''g1'' None False (\<lambda>_. tx_return ()) clock_env ex_granted"
  by (rule rollback_loops_end) (simp_all add: clock_env_def LEASE_TTL_MS_def)

end
