(* ===== verification/Sweep.thy ===== *)
theory Sweep
  imports Revocation_Safety
begin

section \<open>The sweep of an account fails closed\<close>

text \<open>
  \<open>revokeAllForUser\<close> withdraws everything an account holds. Unlike a targeted revocation it never puts a
  grant back: a gateway that refuses leaves the portal's row revoked, and the failure is reported.
\<close>

definition inactive :: "portal_db \<Rightarrow> string \<Rightarrow> bool" where
  "inactive db k \<longleftrightarrow> (\<forall>g. grants_findById db k = Some g \<longrightarrow> gr_status g \<noteq> Gr_Active)"

text \<open>What is assumed of the others: they keep the schema's keys and reactivate no grant.\<close>

definition never_reactivates :: "env \<Rightarrow> bool" where
  "never_reactivates env \<longleftrightarrow> (\<forall>n db. (well_keyed db \<longrightarrow> well_keyed (e_other env n db)) \<and>
     (\<forall>k. inactive db k \<longrightarrow> inactive (e_other env n db) k))"

definition swept :: "string set \<Rightarrow> portal_db \<Rightarrow> bool" where
  "swept S db \<longleftrightarrow> well_keyed db \<and> (\<forall>k\<in>S. inactive db k)"

lemma stable_swept: "never_reactivates env \<Longrightarrow> stable env (\<lambda>w. swept S (w_db w))"
  by (rule stableI) (auto simp: never_reactivates_def swept_def)

lemma framed_swept: "framed (swept S)"
  by (auto simp: framed_def swept_def well_keyed_def inactive_def grants_findById_def)

lemma swept_insert: "swept (insert k S) db \<longleftrightarrow> swept S db \<and> inactive db k"
  by (auto simp: swept_def)

lemma revoking_sweeps:
  assumes "swept S db" "grants_updateIfStatus now k Gr_Active (revoked_patch a t) db = Inr (res, db')"
  shows "swept (insert k S) db'"
proof (cases res)
  case None
  have wk: "well_keyed db" using assms(1) by (simp add: swept_def)
  then have "db' = db" using grant_not_moved assms(2) None by blast
  moreover have "inactive db k"
  proof (rule ccontr)
    assume "\<not> inactive db k"
    then obtain g where "grants_findById db k = Some g" "gr_status g = Gr_Active" by (auto simp: inactive_def)
    then show False using grant_cas.cas_won [OF _ _ _ assms(2)] wk None by (auto simp: well_keyed_def)
  qed
  ultimately show ?thesis using assms(1) by (simp add: swept_insert)
next
  case (Some g)
  have wk: "well_keyed db" and u: "grants_unique (db_grants db)" using assms(1) by (simp_all add: swept_def well_keyed_def)
  note m = grant_moved [OF wk assms(2) [unfolded Some], of Gr_Revoked]
  obtain g0 where g0: "grants_findById db k = Some g0" "gr_status g0 = Gr_Active" using m(4) by (auto simp: revoked_patch_def)
  note won = grant_cas.cas_won [OF u g0 assms(2)]
  have k: "grants_findById db' k = Some g" "gr_status g = Gr_Revoked" "well_keyed db'" using m by (auto simp: revoked_patch_def)
  have "inactive db' j" if "inactive db j" for j
    using that won k by (cases "j = k") (auto simp: inactive_def)
  then show ?thesis using assms(1) k by (auto simp: swept_def inactive_def)
qed

lemma bulk_claim_sweeps:
  assumes "swept S db" "bulk_claim_tx actor g reason at1 db = Inr (b, db')"
  shows "swept (insert (gr_id g) S) db'"
proof -
  let ?rest = "tx_bind (moveRequestToRevoked g (u_id actor) at1 reason) (\<lambda>_.
       tx_bind (cancelPendingToolRequest g actor at1) (\<lambda>_.
       tx_bind (tx_audit (Some (u_id actor)) ACCESS_REVOKE (gr_id g) at1) (\<lambda>_. tx_return True)))"
  obtain res db1 where u: "grants_updateIfStatus at1 (gr_id g) Gr_Active (revoked_patch (u_id actor) at1) db = Inr (res, db1)"
    and r: "(if res = None then tx_return False else ?rest) db1 = Inr (b, db')"
    using assms(2) unfolding bulk_claim_tx_def tx_simps(3) by blast
  have "tx_keeps (swept (insert (gr_id g) S)) (if res = None then tx_return False else ?rest)"
    by (intro keeping moveRequestToRevoked_keeps cancelPendingToolRequest_keeps framed_audit framed_swept)
  then show ?thesis using revoking_sweeps [OF assms(1) u] r unfolding tx_keeps_def by blast
qed

lemma bulk_remove_keeps: "stable env (\<lambda>w. D (w_db w)) \<Longrightarrow> keeps env (\<lambda>w. D (w_db w)) (bulk_remove g c)"
  unfolding bulk_remove_def by (intro keeping mutateAclGroups_keeps)

lemma bulk_consumer_keeps: "stable env P \<Longrightarrow> keeps env P (bulk_consumer u g)"
  unfolding bulk_consumer_def by (intro keeping keeps_read)

lemma hoare_bulk_one:
  assumes nr: "never_reactivates env"
  shows "hoare env (\<lambda>w. swept S (w_db w)) (bulk_one actor u reason g)
    (\<lambda>r w. swept S (w_db w) \<and> (r = Inl Stage_Claim \<or> inactive (w_db w) (gr_id g))) (\<lambda>_ _. False)"
proof -
  let ?S = "\<lambda>w. swept S (w_db w)" and ?G = "\<lambda>w. swept (insert (gr_id g) S) (w_db w)"
  note sS = stable_swept [OF nr, of S] and sG = stable_swept [OF nr, of "insert (gr_id g) S"]
  have claim: "hoare env ?S (io_try (io_tx (bulk_claim_tx actor g reason at1)))
      (\<lambda>r. case r of Inl f \<Rightarrow> ?S | Inr b \<Rightarrow> ?G) (\<lambda>_ _. False)" for at1
    by (rule hoare_try, rule hoare_tx [OF sS]) (auto simp: swept_insert dest: bulk_claim_sweeps)
  let ?tail = "io_bind (io_try (bulk_consumer u g)) (\<lambda>consumer. case consumer of
           Inl f \<Rightarrow> io_return (Inl Stage_Lookup)
         | Inr None \<Rightarrow> io_return (Inr True)
         | Inr (Some consumerId) \<Rightarrow>
             io_bind (io_try (bulk_remove g consumerId)) (\<lambda>r.
             io_return (case r of Inl f \<Rightarrow> Inl Stage_Gateway | Inr _ \<Rightarrow> Inr True)))"
  let ?Q = "\<lambda>r w. swept S (w_db w) \<and> (r = Inl Stage_Claim \<or> inactive (w_db w) (gr_id g))"
  have ret: "hoare env ?G (io_return x) ?Q (\<lambda>_ _. False)" for x
    by (rule hoare_return) (simp add: swept_insert)
  have rem: "hoare env ?G (io_bind (io_try (bulk_remove g cid)) (\<lambda>r.
      io_return (case r of Inl f \<Rightarrow> Inl Stage_Gateway | Inr _ \<Rightarrow> Inr True))) ?Q (\<lambda>_ _. False)" for cid
    by (rule hoare_bind [OF hoare_try_keeps [OF bulk_remove_keeps [OF sG]]]) (rule ret)
  have tail: "hoare env ?G ?tail ?Q (\<lambda>_ _. False)"
    by (rule hoare_bind [OF hoare_try_keeps [OF bulk_consumer_keeps [OF sG]]])
       (auto intro!: ret rem split: sum.splits option.splits)
  have rest: "hoare env (case r of Inl (f :: failure) \<Rightarrow> ?S | Inr b \<Rightarrow> ?G) (case r of
       Inl f \<Rightarrow> io_return (Inl Stage_Claim)
     | Inr False \<Rightarrow> io_return (Inr False)
     | Inr True \<Rightarrow> ?tail) ?Q (\<lambda>_ _. False)" for r
  proof (cases r)
    case (Inl f)
    then show ?thesis by (simp add: hoare_return)
  next
    case (Inr b)
    then show ?thesis using tail ret by (cases b) simp_all
  qed
  show ?thesis unfolding bulk_one_def
    by (rule hoare_bind [where R = "\<lambda>_. ?S"], rule hoare_now [OF sS], assumption, rule hoare_bind [OF claim], rule rest)
qed

lemma hoare_bulk_loop:
  assumes nr: "never_reactivates env"
  shows "hoare env (\<lambda>w. swept S (w_db w)) (bulk_loop actor u reason gs n failed)
    (\<lambda>(n', failed') w. swept S (w_db w) \<and> set failed \<subseteq> set failed' \<and> n' + length failed' \<le> n + length failed + length gs \<and>
       (\<forall>g\<in>set gs. (g, Stage_Claim) \<in> set failed' \<or> inactive (w_db w) (gr_id g))) (\<lambda>_ _. False)"
proof (induction gs arbitrary: S n failed)
  case Nil
  show ?case by (auto intro!: hoare_return)
next
  case (Cons g gs)
  let ?Q = "\<lambda>(n', failed') w. swept S (w_db w) \<and> set failed \<subseteq> set failed' \<and>
      n' + length failed' \<le> n + length failed + length (g # gs) \<and>
      (\<forall>h\<in>set (g # gs). (h, Stage_Claim) \<in> set failed' \<or> inactive (w_db w) (gr_id h))"
  let ?R = "\<lambda>(r :: bulk_stage + bool) w. swept S (w_db w) \<and> (r = Inl Stage_Claim \<or> inactive (w_db w) (gr_id g))"
  have claimed: "hoare env (?R r) (bulk_loop actor u reason gs m fl) ?Q (\<lambda>_ _. False)"
    if "r \<noteq> Inl Stage_Claim" "set failed \<subseteq> set fl" "m + length fl \<le> n + length failed + 1" for r m fl
    by (rule hoare_weaken [OF Cons.IH [where S = "insert (gr_id g) S" and n = m and failed = fl]]) (use that in \<open>auto simp: swept_insert\<close>)
  have lost: "hoare env (?R r) (bulk_loop actor u reason gs n (failed @ [(g, Stage_Claim)])) ?Q (\<lambda>_ _. False)" for r
    by (rule hoare_weaken [OF Cons.IH [where S = S and n = n and failed = "failed @ [(g, Stage_Claim)]"]]) auto
  have "hoare env (?R r) (case r of
       Inl stage \<Rightarrow> bulk_loop actor u reason gs n (failed @ [(g, stage)])
     | Inr True \<Rightarrow> bulk_loop actor u reason gs (Suc n) failed
     | Inr False \<Rightarrow> bulk_loop actor u reason gs n failed) ?Q (\<lambda>_ _. False)" for r
  proof (cases r)
    case (Inl stage)
    then show ?thesis using lost [of r] claimed [of r "failed @ [(g, stage)]" n] by (cases "stage = Stage_Claim") auto
  next
    case (Inr b)
    then show ?thesis using claimed [of r failed "Suc n"] claimed [of r failed n] by (cases b) auto
  qed
  then show ?case unfolding bulk_loop.simps by (rule hoare_bind [OF hoare_bulk_one [OF nr]])
qed

text \<open>
  C10. The sweep of an account's grants fails closed. Every grant the sweep found active is, when it
  returns, no longer active, unless its claim itself failed and the report says so; a gateway that
  refused a removal, or a lookup that failed, never puts a grant back. Every grant is counted at most
  once, and once the grants are listed the sweep always returns.
\<close>

theorem sweep_fails_closed:
  assumes "never_reactivates env" "well_keyed (w_db w)"
    and "revokeAllForUser actor userId reason env w = (r, w')" "e_fault env (w_tick w) = None"
  shows "\<exists>n failed. r = Inr (n, failed) \<and>
    (\<forall>g\<in>set (grants_listActiveByUser (e_other env (w_tick w) (w_db w)) userId None).
       (g, Stage_Claim) \<in> set failed \<or> inactive (w_db w') (gr_id g)) \<and>
    n + length failed \<le> length (grants_listActiveByUser (e_other env (w_tick w) (w_db w)) userId None)"
proof -
  let ?gs = "grants_listActiveByUser (e_other env (w_tick w) (w_db w)) userId None"
  have "bulk_loop actor userId reason ?gs 0 [] env (advance env w) = (r, w')"
    using assms(3,4) by (simp add: revokeAllForUser_def io_bind_def io_read_def io_tx_def Let_def advance_def)
  moreover have "swept {} (w_db (advance env w))"
    using assms(1,2) by (simp add: swept_def never_reactivates_def)
  moreover have "hoare env (\<lambda>w. swept {} (w_db w)) (bulk_loop actor userId reason ?gs 0 [])
      (\<lambda>(n, failed) w. (\<forall>g\<in>set ?gs. (g, Stage_Claim) \<in> set failed \<or> inactive (w_db w) (gr_id g)) \<and>
         n + length failed \<le> length ?gs) (\<lambda>_ _. False)"
    by (rule hoare_weaken [OF hoare_bulk_loop [OF assms(1), where S = "{}" and n = 0 and failed = "[]"]]) auto
  ultimately show ?thesis unfolding hoare_def by (cases r) (drule spec [of _ "advance env w"], force)+
qed

theorem sweep_fails_closed_witness:
  "\<exists>n failed w'. revokeAllForUser ex_owner ''u1'' None quiet_env ex_granted = (Inr (n, failed), w') \<and>
     ((ex_grant, Stage_Claim) \<in> set failed \<or> inactive (w_db w') ''g1'')"
proof -
  have nr: "never_reactivates quiet_env" by (simp add: never_reactivates_def quiet_env_def)
  have k: "well_keyed (w_db ex_granted)"
    by (simp add: well_keyed_def keyed_def ex_granted_def ex_world_def requests_unique_def grants_unique_def)
  have f: "e_fault quiet_env (w_tick ex_granted) = None" by (simp add: quiet_env_def)
  obtain r w' where r: "revokeAllForUser ex_owner ''u1'' None quiet_env ex_granted = (r, w')" by (rule prod.exhaust)
  have "ex_grant \<in> set (grants_listActiveByUser (e_other quiet_env (w_tick ex_granted) (w_db ex_granted)) ''u1'' None)"
    by (simp add: grants_listActiveByUser_def quiet_env_def ex_granted_def ex_grant_def)
  moreover have "gr_id ex_grant = ''g1''" by (simp add: ex_grant_def)
  ultimately show ?thesis using sweep_fails_closed [OF nr k r f] r by force
qed

end
