(* ===== verification/Recovery.thy ===== *)
theory Recovery
  imports Revocation
begin

section \<open>Recovery of unfinished gateway steps\<close>

text \<open>
  Models what the worker asks of the access service for a durable job somebody left behind:
  \<open>recoverGatewayJob\<close> of \<open>server/src/access/service.ts\<close>. A revocation is finished, an approval is
  compensated, and a job whose work is no longer owed is dropped.
\<close>

datatype job_outcome = Out_Completed | Out_Obsolete | Out_Superseded

definition dropJob :: "job \<Rightarrow> job_outcome io" where
  "dropJob job = io_bind (io_tx (tx_of (accessGatewayJobs_deleteClaimed job)))
     (\<lambda>dropped. io_return (if dropped then Out_Obsolete else Out_Superseded))"

subsection \<open>A revocation\<close>

text \<open>The rest of the removal: what the guard found, read under the consumer's key when there is one.\<close>

definition recover_removal :: "job \<Rightarrow> consumer option \<Rightarrow> obsolete option io" where
  "recover_removal job consumer = (case consumer of
      None \<Rightarrow> revocationObsolete job
    | Some c \<Rightarrow>
        io_bind (mutateAclGroups (co_ferrum_consumer_id c) (\<lambda>_. filter (not_of_api (jb_api_id job)))
            (no_options\<lparr>mo_absentIsDone := True\<rparr>) (obsolete_guard job) (None :: unit io option))
          (\<lambda>(seen, r). case r of
              Inl f \<Rightarrow> io_throw f
            | Inr _ \<Rightarrow> io_return (case seen of None \<Rightarrow> None | Some lost \<Rightarrow> lost)))"

definition complete_tx :: "job \<Rightarrow> int \<Rightarrow> bool tx" where
  "complete_tx job now =
     tx_bind (tx_of (accessGatewayJobs_deleteClaimed job)) (\<lambda>dropped.
     if \<not> dropped then tx_return False
     else tx_bind (tx_audit None ACCESS_REVOKE_COMPLETE (jb_subject_id job) now) (\<lambda>_. tx_return True))"

definition recoverRevocation :: "job \<Rightarrow> job_outcome io" where
  "recoverRevocation job =
     io_bind (io_read (\<lambda>db. users_findById db (jb_user_id job))) (\<lambda>grantee.
     if grantee = None then dropJob job
     else io_bind (io_read (\<lambda>db. consumers_findByUser db (jb_user_id job) (jb_application_id job))) (\<lambda>consumer.
       io_bind (recover_removal job consumer) (\<lambda>obsolete. case obsolete of
         Some Superseded \<Rightarrow> io_return Out_Superseded
       | Some _ \<Rightarrow> dropJob job
       | None \<Rightarrow>
           io_bind io_now (\<lambda>now. io_bind (io_tx (complete_tx job now)) (\<lambda>completed.
           io_return (if completed then Out_Completed else Out_Superseded))))))"

subsection \<open>An approval\<close>

datatype settlement = Settle_Release | Settle_Cancel | Settle_Kept | Settle_None

definition settlement_for :: "access_request \<Rightarrow> grant option \<Rightarrow> settlement" where
  "settlement_for req live =
     (if rq_status req \<noteq> Rq_Approved then Settle_None
      else (case rq_grant_id req of
          None \<Rightarrow> (case live of
              None \<Rightarrow> Settle_Release
            | Some g \<Rightarrow> if gr_access_request_id g = Some (rq_id req) then Settle_Kept else Settle_Cancel)
        | Some grantId \<Rightarrow>
            let g = (case live of None \<Rightarrow> None | Some l \<Rightarrow> if gr_id l = grantId then Some l else None);
                added = (case rq_approved_tools req of None \<Rightarrow> [] | Some ids \<Rightarrow> ids);
                covers = (case g of
                    None \<Rightarrow> False
                  | Some l \<Rightarrow> (case gr_approved_tools l of
                        None \<Rightarrow> True | Some has \<Rightarrow> list_all (\<lambda>i. i \<in> set has) added))
            in if covers then Settle_Kept else if g = None then Settle_Cancel else Settle_Release))"

definition NEWER_REQUEST_NOTE :: string where
  "NEWER_REQUEST_NOTE = ''A newer request for this API is pending''"

definition HELD_GRANT_NOTE :: string where
  "HELD_GRANT_NOTE = ''This identity already holds an active grant for this API''"

definition cancelled_patch :: "string \<Rightarrow> request_patch" where
  "cancelled_patch reason = no_request_patch\<lparr>pq_status := Some Rq_Cancelled, pq_decided_by := Some None,
     pq_decided_at := Some None, pq_approved_tools := Some None, pq_decision_note := Some (Some reason)\<rparr>"

definition settle_tx :: "job \<Rightarrow> access_request \<Rightarrow> settlement \<Rightarrow> int \<Rightarrow> settlement option tx" where
  "settle_tx job req settle now =
     tx_bind (tx_of (accessGatewayJobs_deleteClaimed job)) (\<lambda>dropped.
     if \<not> dropped then tx_return None
     else tx_bind (if settle = Settle_Release
                   then tx_read (\<lambda>db. accessRequests_findPendingByApiAndUser db (rq_api_id req) (rq_user_id req)
                          (rq_application_id req))
                   else tx_return None) (\<lambda>occupied.
       let outcome = (if (case occupied of None \<Rightarrow> False | Some o1 \<Rightarrow> rq_id o1 \<noteq> rq_id req)
                      then Settle_Cancel else settle)
       in tx_bind (case outcome of
              Settle_Release \<Rightarrow> accessRequests_updateIfStatus now (rq_id req) Rq_Approved released
            | Settle_Cancel \<Rightarrow> accessRequests_updateIfStatus now (rq_id req) Rq_Approved
                (cancelled_patch (if occupied \<noteq> None then NEWER_REQUEST_NOTE
                                  else if rq_grant_id req = None then HELD_GRANT_NOTE else INACTIVE_GRANT_NOTE))
            | _ \<Rightarrow> tx_return None) (\<lambda>_.
          tx_bind (tx_audit None (if truthy (rq_grant_id req) then ACCESS_TOOLS_APPROVE_ROLLBACK
                                  else ACCESS_APPROVE_ROLLBACK) (rq_id req) now) (\<lambda>_.
          tx_return (Some outcome)))))"

definition settleApproval :: "job \<Rightarrow> api option \<Rightarrow> job_outcome io" where
  "settleApproval job api =
     io_bind (stillOwned job) (\<lambda>owned.
     if \<not> owned then io_return Out_Superseded
     else io_bind (io_read (\<lambda>db. accessRequests_findById db (jb_subject_id job))) (\<lambda>request.
       io_bind (io_read (\<lambda>db. users_findById db (jb_user_id job))) (\<lambda>requester.
       case api of
         None \<Rightarrow> dropJob job
       | Some a \<Rightarrow> (case request of
           None \<Rightarrow> dropJob job
         | Some req \<Rightarrow> (case requester of
             None \<Rightarrow> dropJob job
           | Some u \<Rightarrow>
               io_bind (reconcileGroups u a (jb_application_id job)) (\<lambda>live.
               io_bind io_now (\<lambda>now.
               io_bind (io_tx (settle_tx job req (settlement_for req live) now)) (\<lambda>settled.
               io_return (if settled = None then Out_Superseded else Out_Completed)))))))))"

definition RECOVERY_PROXY_ATTEMPTS :: nat where "RECOVERY_PROXY_ATTEMPTS = 5"

definition PROXY_CHANGED_RECOVERING :: nexus_error where
  "PROXY_CHANGED_RECOVERING =
     conflict ''The gateway proxy kept changing while an approval was being compensated'' None"

text \<open>One attempt under the proxy's key: \<open>None\<close> when the API has moved to another proxy.\<close>

definition settle_under_proxy :: "job \<Rightarrow> string \<Rightarrow> job_outcome option io" where
  "settle_under_proxy job proxyId =
     io_lock (proxyLockKey proxyId) (io_bind (io_read (\<lambda>db. apis_findById db (jb_api_id job))) (\<lambda>api.
       if (case api of None \<Rightarrow> False | Some a \<Rightarrow> a_ferrum_proxy_id a \<noteq> Some proxyId) then io_return None
       else io_bind (settleApproval job api) (\<lambda>outcome. io_return (Some outcome))))"

fun recover_attempts :: "nat \<Rightarrow> job \<Rightarrow> job_outcome io" where
  "recover_attempts 0 job = io_throw (plain PROXY_CHANGED_RECOVERING)"
| "recover_attempts (Suc n) job =
     io_bind (io_read (\<lambda>db. apis_findById db (jb_api_id job))) (\<lambda>seen.
     let proxyId = (case seen of None \<Rightarrow> None | Some a \<Rightarrow> a_ferrum_proxy_id a)
     in if \<not> truthy proxyId then settleApproval job seen
        else io_bind (settle_under_proxy job (the proxyId)) (\<lambda>settled. case settled of
            Some outcome \<Rightarrow> io_return outcome
          | None \<Rightarrow> recover_attempts n job))"

definition recoverApproval :: "job \<Rightarrow> job_outcome io" where
  "recoverApproval job = recover_attempts RECOVERY_PROXY_ATTEMPTS job"

definition recoverGatewayJob :: "job \<Rightarrow> job_outcome io" where
  "recoverGatewayJob job = (if jb_kind job = Job_Revoke then recoverRevocation job else recoverApproval job)"

end
