(* ===== verification/Recovery_Safety.thy ===== *)
theory Recovery_Safety
  imports Recovery Revocation_Safety
begin

section \<open>Recovery never adds access\<close>

text \<open>
  What the worker's recovery may do, whatever it finds: it makes no grant and writes no group that no
  active grant covers; a worker whose claim was taken over changes nothing; and a recovered revocation
  ends with the removal acknowledged, with the job dropped because nothing is owed any more, or with the
  job still there.
\<close>

subsection \<open>Groups a grant covers\<close>

definition covered :: "grant list \<Rightarrow> job \<Rightarrow> string \<Rightarrow> bool" where
  "covered grants job grp \<longleftrightarrow> (\<exists>g\<in>set grants. gr_status g = Gr_Active \<and> gr_api_id g = jb_api_id job \<and>
     gr_user_id g = jb_user_id job \<and> gr_application_id g = jb_application_id job \<and>
     grp \<in> set (aclGroupForApi (jb_api_id job) # mcpGroupsForGrant (jb_api_id job) (gr_approved_tools g)))"

definition adds_nothing :: "grant list \<Rightarrow> job \<Rightarrow> string list \<Rightarrow> bool" where
  "adds_nothing grants job groups \<longleftrightarrow> (\<forall>grp\<in>set groups. not_of_api (jb_api_id job) grp \<or> covered grants job grp)"

definition harmless :: "grant list \<Rightarrow> job \<Rightarrow> put list \<Rightarrow> world \<Rightarrow> bool" where
  "harmless grants job p0 w \<longleftrightarrow> db_grants (w_db w) = grants \<and>
     (\<exists>ps. w_puts w = p0 @ ps \<and> (\<forall>p\<in>set ps. adds_nothing grants job (pt_groups p)))"

definition grants_at_rest :: "env \<Rightarrow> bool" where
  "grants_at_rest env \<longleftrightarrow> (\<forall>n db. db_grants (e_other env n db) = db_grants db)"

lemma stable_harmless: "grants_at_rest env \<Longrightarrow> stable env (harmless grants job p0)"
  by (rule stableI) (simp_all add: harmless_def grants_at_rest_def)

lemma harmless_tx:
  assumes "grants_at_rest env" "tx_keeps (\<lambda>db. db_grants db = grants) m"
  shows "keeps env (harmless grants job p0) (io_tx m)"
  unfolding keeps_def using assms
  by (intro hoare_tx stable_harmless) (auto simp: harmless_def tx_keeps_def)

lemma harmless_put:
  "harmless grants job p0 w \<Longrightarrow> adds_nothing grants job gs \<Longrightarrow>
     harmless grants job p0 (w\<lparr>w_puts := w_puts w @ [\<lparr>pt_consumer = c, pt_groups = gs, pt_acked = ok\<rparr>]\<rparr>)"
  by (auto simp: harmless_def)

lemma harmless_mutate:
  assumes env: "grants_at_rest env"
    and guard: "hoare env (harmless grants job p0) guardian (\<lambda>(g, ok) w. harmless grants job p0 w \<and> (ok \<longrightarrow> fits g))
      (\<lambda>_. harmless grants job p0)"
    and change: "\<And>g cur. fits g \<Longrightarrow> adds_nothing grants job (change g cur)"
  shows "keeps env (harmless grants job p0) (mutateAclGroups c change options guardian (None :: unit io option))"
  unfolding keeps_def
proof (rule hoare_mutateAclGroups [where G = "\<lambda>g ok w. harmless grants job p0 w \<and> (ok \<longrightarrow> fits g)"
      and A = "\<lambda>_. harmless grants job p0"])
  note st = stable_harmless [OF env, of grants job p0]
  show "stable env (harmless grants job p0)" "stable env (\<lambda>w. harmless grants job p0 w \<and> (True \<longrightarrow> fits g))" for g
    by (intro stable_conj stable_const st)+
qed (use guard change in \<open>auto intro!: harmless_put\<close>)

subsection \<open>The transactions make no grant\<close>

lemma framed_grants: "framed (\<lambda>db. db_grants db = grants)"
  by (simp add: framed_def)

lemma grants_deleteClaimed: "tx_keeps (\<lambda>db. db_grants db = grants) (tx_of (accessGatewayJobs_deleteClaimed job))"
  by (rule tx_keeps_of) (simp add: accessGatewayJobs_deleteClaimed_def)

lemma complete_tx_grants: "tx_keeps (\<lambda>db. db_grants db = grants) (complete_tx job now)"
  unfolding complete_tx_def by (intro keeping grants_deleteClaimed framed_audit framed_grants)

lemma settle_tx_grants: "tx_keeps (\<lambda>db. db_grants db = grants) (settle_tx job req settle now)"
  unfolding settle_tx_def Let_def
  by (intro keeping grants_deleteClaimed framed_audit framed_grants)
     (auto intro!: keeping framed_request_update framed_grants split: settlement.splits)

lemma harmless_dropJob: "grants_at_rest env \<Longrightarrow> keeps env (harmless grants job p0) (dropJob j)"
  unfolding dropJob_def by (intro keeping harmless_tx grants_deleteClaimed)

subsection \<open>The programs\<close>

lemma filter_adds_nothing: "adds_nothing grants job (filter (not_of_api (jb_api_id job)) cur)"
  by (simp add: adds_nothing_def)

lemma revocationObsolete_quiet: "quiet env (revocationObsolete job)"
  unfolding revocationObsolete_def stillOwned_def by (intro quiets)

lemma obsolete_guard_quiet: "quiet env (obsolete_guard job)"
  unfolding obsolete_guard_def by (intro quiets revocationObsolete_quiet)

lemma harmless_recover_removal:
  assumes "grants_at_rest env"
  shows "keeps env (harmless grants job p0) (recover_removal job consumer)"
proof -
  have "hoare env (harmless grants job p0) (obsolete_guard job) (\<lambda>(g, ok) w. harmless grants job p0 w \<and> (ok \<longrightarrow> True))
      (\<lambda>_. harmless grants job p0)"
    by (rule hoare_weaken [OF quietD [OF obsolete_guard_quiet stable_harmless [OF assms]]]) auto
  then have mut: "keeps env (harmless grants job p0) (mutateAclGroups c (\<lambda>_. filter (not_of_api (jb_api_id job)))
      options (obsolete_guard job) (None :: unit io option))" for c options
    by (rule harmless_mutate [OF assms]) (rule filter_adds_nothing)
  show ?thesis
    unfolding recover_removal_def
    by (intro keeping mut keeps_quiet [OF stable_harmless [OF assms] revocationObsolete_quiet])
qed

lemma harmless_recoverRevocation:
  assumes "grants_at_rest env"
  shows "keeps env (harmless grants job p0) (recoverRevocation job)"
  unfolding recoverRevocation_def using assms
  by (intro keeping keeps_stable stable_harmless harmless_dropJob harmless_recover_removal harmless_tx complete_tx_grants)
     (auto intro!: keeping harmless_dropJob keeps_stable stable_harmless harmless_tx complete_tx_grants
        split: obsolete.splits)

lemma reconcile_adds_nothing:
  assumes "a_id api = jb_api_id job"
    and "\<And>g. fst seen = Some g \<Longrightarrow> g \<in> set grants \<and> gr_status g = Gr_Active \<and> gr_api_id g = jb_api_id job \<and>
      gr_user_id g = jb_user_id job \<and> gr_application_id g = jb_application_id job"
  shows "adds_nothing grants job (reconcile_change api seen cur)"
proof (cases "fst seen")
  case None
  then show ?thesis using assms(1) by (auto simp: adds_nothing_def reconcile_change_def Let_def)
next
  case (Some g)
  have "covered grants job grp"
    if "grp \<in> set (aclGroupForApi (jb_api_id job) #
      (if a_agents api = None then [] else mcpGroupsForGrant (jb_api_id job) (gr_approved_tools g)))" for grp
    using that assms(2) [OF Some] unfolding covered_def by (intro bexI [of _ g]) (auto split: if_splits)
  then show ?thesis
    using assms(1) Some unfolding adds_nothing_def reconcile_change_def Let_def by (auto split: if_splits)
qed

lemma harmless_reconcile_read:
  assumes "grants_at_rest env"
  shows "hoare env (harmless grants job p0) (reconcile_read (jb_api_id job) (jb_user_id job) (jb_application_id job))
    (\<lambda>(seen, ok) w. harmless grants job p0 w \<and> (ok \<longrightarrow> (\<forall>g. fst seen = Some g \<longrightarrow> g \<in> set grants \<and>
       gr_status g = Gr_Active \<and> gr_api_id g = jb_api_id job \<and> gr_user_id g = jb_user_id job \<and>
       gr_application_id g = jb_application_id job))) (\<lambda>_. harmless grants job p0)"
proof -
  let ?H = "harmless grants job p0"
  note st = stable_harmless [OF assms, of grants job p0]
  let ?L = "\<lambda>live. \<forall>g. live = Some g \<longrightarrow> g \<in> set grants \<and> gr_status g = Gr_Active \<and> gr_api_id g = jb_api_id job \<and>
      gr_user_id g = jb_user_id job \<and> gr_application_id g = jb_application_id job"
  have live: "hoare env ?H (io_read (\<lambda>db. grants_findActiveByApiAndUser db (jb_api_id job) (jb_user_id job)
      (jb_application_id job))) (\<lambda>live w. ?H w \<and> ?L live) (\<lambda>_. ?H)"
    by (rule hoare_read [OF st]) (auto simp: harmless_def grants_findActiveByApiAndUser_def find_Some_iff)
  show ?thesis unfolding reconcile_read_def
    by (rule hoare_bind [OF live], rule hoare_pure, rule hoare_quiet [OF quiet_read st])
       (auto intro!: hoare_return)
qed

lemma harmless_reconcileGroups:
  assumes env: "grants_at_rest env" and ids: "a_id api = jb_api_id job" "u_id u = jb_user_id job"
  shows "keeps env (harmless grants job p0) (reconcileGroups u api (jb_application_id job))"
proof -
  note st = stable_harmless [OF env, of grants job p0]
  let ?read = "reconcile_read (jb_api_id job) (jb_user_id job) (jb_application_id job)"
  have "quiet env ?read" unfolding reconcile_read_def by (intro quiets)
  then have read: "keeps env (harmless grants job p0) ?read" using st by (intro keeps_quiet)
  have mut: "keeps env (harmless grants job p0) (mutateAclGroups c (reconcile_change api) options ?read (None :: unit io option))"
    for c options
    by (rule harmless_mutate [OF env harmless_reconcile_read [OF env]]) (use ids in \<open>auto intro: reconcile_adds_nothing\<close>)
  show ?thesis unfolding reconcileGroups_def ids
    by (intro keeping keeps_read [OF st] read mut) (auto intro: keeping split: prod.splits)
qed

lemma harmless_settleApproval:
  assumes env: "grants_at_rest env" and api: "\<And>a. api = Some a \<Longrightarrow> a_id a = jb_api_id job"
  shows "keeps env (harmless grants job p0) (settleApproval job api)"
proof -
  let ?H = "harmless grants job p0"
  note st = stable_harmless [OF env, of grants job p0]
  have user: "hoare env ?H (io_read (\<lambda>db. users_findById db (jb_user_id job)))
      (\<lambda>u w. ?H w \<and> (\<forall>x. u = Some x \<longrightarrow> u_id x = jb_user_id job)) (\<lambda>_. ?H)"
    by (rule hoare_read [OF st]) (auto simp: users_findById_def find_by_def find_Some_iff)
  have settle: "keeps env ?H (io_bind (reconcileGroups u a (jb_application_id job)) (\<lambda>live.
      io_bind io_now (\<lambda>now. io_bind (io_tx (settle_tx job req (settlement_for req live) now)) (\<lambda>settled.
      io_return (if settled = None then Out_Superseded else Out_Completed)))))"
    if "api = Some a" "u_id u = jb_user_id job" for a u req
    using that api env st by (intro keeping keeps_now harmless_reconcileGroups harmless_tx settle_tx_grants)
  have rest: "keeps env ?H (case api of
         None \<Rightarrow> dropJob job
       | Some a \<Rightarrow> (case request of
           None \<Rightarrow> dropJob job
         | Some req \<Rightarrow> (case requester of
             None \<Rightarrow> dropJob job
           | Some u \<Rightarrow>
               io_bind (reconcileGroups u a (jb_application_id job)) (\<lambda>live.
               io_bind io_now (\<lambda>now.
               io_bind (io_tx (settle_tx job req (settlement_for req live) now)) (\<lambda>settled.
               io_return (if settled = None then Out_Superseded else Out_Completed)))))))"
    if "\<forall>x. requester = Some x \<longrightarrow> u_id x = jb_user_id job" for request requester
    using that harmless_dropJob [OF env] settle by (auto split: option.splits)
  have requested: "keeps env ?H (io_bind (io_read (\<lambda>db. users_findById db (jb_user_id job))) (\<lambda>requester. case api of
         None \<Rightarrow> dropJob job
       | Some a \<Rightarrow> (case request of
           None \<Rightarrow> dropJob job
         | Some req \<Rightarrow> (case requester of
             None \<Rightarrow> dropJob job
           | Some u \<Rightarrow>
               io_bind (reconcileGroups u a (jb_application_id job)) (\<lambda>live.
               io_bind io_now (\<lambda>now.
               io_bind (io_tx (settle_tx job req (settlement_for req live) now)) (\<lambda>settled.
               io_return (if settled = None then Out_Superseded else Out_Completed))))))))" for request
    unfolding keeps_def by (rule hoare_bind [OF user], rule hoare_pure, rule keepsD, rule rest)
  show ?thesis unfolding settleApproval_def stillOwned_def
    by (intro keeps_bind keeps_if keeps_return keeps_read [OF st] requested)
qed

lemma harmless_recover_attempts:
  assumes env: "grants_at_rest env"
  shows "keeps env (harmless grants job p0) (recover_attempts n job)"
proof (induction n)
  case (Suc n)
  let ?H = "harmless grants job p0"
  note st = stable_harmless [OF env, of grants job p0]
  have api: "hoare env ?H (io_read (\<lambda>db. apis_findById db (jb_api_id job)))
      (\<lambda>a w. ?H w \<and> (\<forall>x. a = Some x \<longrightarrow> a_id x = jb_api_id job)) (\<lambda>_. ?H)"
    by (rule hoare_read [OF st]) (auto simp: apis_findById_def find_by_def find_Some_iff)
  note settle = harmless_settleApproval [OF env, of _ job grants p0]
  have under: "keeps env ?H (settle_under_proxy job proxyId)" for proxyId
    unfolding settle_under_proxy_def
    by (rule keeps_lock [OF st])
       (auto simp: keeps_def intro!: hoare_bind [OF api] hoare_pure hoare_return hoare_bind [OF keepsD [OF settle]])
  show ?case unfolding recover_attempts.simps Let_def keeps_def
    by (rule hoare_bind [OF api], rule hoare_pure)
       (auto intro!: keepsD keeping under Suc settle)
qed (auto intro: keeping)

text \<open>
  C11. Recovery never adds access. Whatever the worker finds and however its steps go, recovering a job
  leaves the grants as they are, and every group of the job's API that it writes to the gateway is
  covered by an active grant of the identity; groups of other APIs are only carried over. (The others
  change no grant while it runs.)
\<close>

theorem recovery_never_adds_access:
  assumes "grants_at_rest env" "recoverGatewayJob job env w = (r, w')"
  shows "db_grants (w_db w') = db_grants (w_db w) \<and>
    (\<exists>ps. w_puts w' = w_puts w @ ps \<and> (\<forall>p\<in>set ps. adds_nothing (db_grants (w_db w)) job (pt_groups p)))"
proof -
  have "keeps env (harmless (db_grants (w_db w)) job (w_puts w)) (recoverGatewayJob job)"
    using assms(1) unfolding recoverGatewayJob_def recoverApproval_def
    by (intro keeping harmless_recoverRevocation harmless_recover_attempts)
  moreover have "harmless (db_grants (w_db w)) job (w_puts w) w" by (simp add: harmless_def)
  ultimately have "harmless (db_grants (w_db w)) job (w_puts w) w'"
    using assms(2) unfolding keeps_def hoare_def by (cases r) force+
  then show ?thesis by (simp add: harmless_def)
qed

subsection \<open>A claim that was taken over\<close>

definition disowned :: "job \<Rightarrow> portal_db \<Rightarrow> bool" where
  "disowned job db \<longleftrightarrow> (\<forall>row\<in>set (db_jobs db). \<not> owns_row job row)"

definition never_given_back :: "job \<Rightarrow> env \<Rightarrow> bool" where
  "never_given_back job env \<longleftrightarrow> (\<forall>n db. disowned job db \<longrightarrow> disowned job (e_other env n db))"

lemma disowned_delete:
  "disowned job db \<Longrightarrow> accessGatewayJobs_deleteClaimed job db = (False, db)"
  by (auto simp: disowned_def accessGatewayJobs_deleteClaimed_def list_ex_iff)

lemma disowned_dropJob:
  assumes "stable env P" "\<And>w. P w \<Longrightarrow> disowned job (w_db w)"
  shows "hoare env P (dropJob job) (\<lambda>o1 w. P w \<and> o1 = Out_Superseded) (\<lambda>_. P)"
  unfolding dropJob_def
proof (rule hoare_bind [where R = "\<lambda>dropped w. P w \<and> \<not> dropped"])
  show "hoare env P (io_tx (tx_of (accessGatewayJobs_deleteClaimed job))) (\<lambda>dropped w. P w \<and> \<not> dropped) (\<lambda>_. P)"
    by (rule hoare_tx [OF assms(1)]) (use assms(2) in \<open>auto simp: tx_of_def disowned_delete\<close>)
qed (auto intro!: hoare_return)

lemma disowned_obsolete:
  assumes "stable env P" "\<And>w. P w \<Longrightarrow> disowned job (w_db w)"
  shows "hoare env P (revocationObsolete job) (\<lambda>lost w. P w \<and> lost = Some Superseded) (\<lambda>_. P)"
proof -
  have "hoare env P (stillOwned job) (\<lambda>owned w. P w \<and> \<not> owned) (\<lambda>_. P)"
    unfolding stillOwned_def
    by (rule hoare_read [OF assms(1)])
       (auto simp: disowned_def accessGatewayJobs_findBySubject_def find_by_def find_Some_iff split: option.splits dest!: assms(2))
  then show ?thesis unfolding revocationObsolete_def
    by (rule hoare_bind) (rule hoare_pure, simp add: hoare_return)
qed

lemma disowned_removal:
  assumes st: "stable env P" and P: "\<And>w. P w \<Longrightarrow> disowned job (w_db w)"
  shows "hoare env P (recover_removal job consumer) (\<lambda>lost w. P w \<and> lost = Some Superseded) (\<lambda>_. P)"
proof -
  note obs = disowned_obsolete [OF st P]
  have guard: "hoare env P (obsolete_guard job) (\<lambda>(lost, ok) w. P w \<and> lost = Some Superseded \<and> \<not> ok) (\<lambda>_. P)"
    unfolding obsolete_guard_def by (rule hoare_bind [OF obs]) (auto intro!: hoare_return)
  let ?Q = "\<lambda>(seen, r) w. P w \<and> (case r of Inl (f :: failure) \<Rightarrow> True | Inr (m :: unit mutation) \<Rightarrow> seen = Some (Some Superseded))"
  have "hoare env P (mutateAclGroups c (\<lambda>_. filter (not_of_api (jb_api_id job)))
      (no_options\<lparr>mo_absentIsDone := True\<rparr>) (obsolete_guard job) (None :: unit io option)) ?Q (\<lambda>_. P)" for c
    by (rule hoare_mutateAclGroups [where G = "\<lambda>lost ok w. P w \<and> lost = Some Superseded \<and> \<not> ok" and A = "\<lambda>_ _. False"])
       (use st guard in \<open>auto simp: no_options_def stable_def\<close>)
  note mut = hoare_bind [OF this]
  show ?thesis unfolding recover_removal_def
    by (cases consumer) (simp add: obs, auto intro!: mut hoare_throw hoare_return split: sum.splits)
qed

lemma disowned_recover_attempts:
  assumes st: "stable env P" and P: "\<And>w. P w \<Longrightarrow> disowned job (w_db w)"
  shows "hoare env P (recover_attempts n job) (\<lambda>o1 w. P w \<and> o1 = Out_Superseded) (\<lambda>_. P)"
proof (induction n)
  case (Suc n)
  let ?Q = "\<lambda>o1 w. P w \<and> o1 = Out_Superseded"
  have "hoare env P (stillOwned job) (\<lambda>owned w. P w \<and> \<not> owned) (\<lambda>_. P)"
    unfolding stillOwned_def
    by (rule hoare_read [OF st])
       (auto simp: disowned_def accessGatewayJobs_findBySubject_def find_by_def find_Some_iff split: option.splits dest!: P)
  then have settle: "hoare env P (settleApproval job api) ?Q (\<lambda>_. P)" for api
    unfolding settleApproval_def by (rule hoare_bind) (rule hoare_pure, simp add: hoare_return)
  have some: "hoare env P (io_bind (settleApproval job api) (\<lambda>outcome. io_return (Some outcome)))
      (\<lambda>o1 w. P w \<and> (o1 = None \<or> o1 = Some Out_Superseded)) (\<lambda>_. P)" for api
    by (rule hoare_bind [OF settle]) (auto intro!: hoare_return)
  have "hoare env P (settle_under_proxy job proxyId) (\<lambda>o1 w. P w \<and> (o1 = None \<or> o1 = Some Out_Superseded)) (\<lambda>_. P)" for proxyId
    unfolding settle_under_proxy_def
    by (rule hoare_lock [OF st], assumption, rule hoare_quiet [OF quiet_read st], rule hoare_if)
       (auto intro!: hoare_return some)
  note under = hoare_bind [OF this]
  show ?case unfolding recover_attempts.simps Let_def
    by (rule hoare_quiet [OF quiet_read st], rule hoare_if, rule settle, rule under)
       (auto intro!: hoare_pure hoare_return Suc split: option.splits)
qed (simp add: hoare_throw)

lemma disowned_recoverRevocation:
  assumes st: "stable env P" and P: "\<And>w. P w \<Longrightarrow> disowned job (w_db w)"
  shows "hoare env P (recoverRevocation job) (\<lambda>o1 w. P w \<and> o1 = Out_Superseded) (\<lambda>_. P)"
  unfolding recoverRevocation_def
  by (rule hoare_quiet [OF quiet_read st], rule hoare_if, rule disowned_dropJob [OF st P], assumption,
      rule hoare_quiet [OF quiet_read st], rule hoare_bind [OF disowned_removal [OF st P]], assumption,
      rule hoare_pure, simp add: hoare_return)
    auto

text \<open>
  C12. A worker whose claim was taken over changes nothing. If no row is owned by the claim any more, and
  nobody gives it back, then recovering it ends with \<open>superseded\<close> or with a failure, and every assertion
  the others respect (about the store or about what was sent to the gateway) still holds afterwards: it
  has written neither the store nor the gateway.
\<close>

theorem superseded_recovery_writes_nothing:
  assumes "never_given_back job env" "disowned job (w_db w)" "recoverGatewayJob job env w = (r, w')"
    and "stable env A" "A w"
  shows "(case r of Inr outcome \<Rightarrow> outcome = Out_Superseded | Inl f \<Rightarrow> True) \<and> A w' \<and> w_puts w' = w_puts w"
proof -
  let ?P = "\<lambda>v. disowned job (w_db v) \<and> A v \<and> w_puts v = w_puts w"
  have st: "stable env ?P"
    using assms(1) by (intro stable_conj assms(4) stable_puts [of env "\<lambda>p. p = w_puts w"] stableI)
      (auto simp: never_given_back_def)
  have "hoare env ?P (recoverGatewayJob job) (\<lambda>o1 w. ?P w \<and> o1 = Out_Superseded) (\<lambda>_. ?P)"
    unfolding recoverGatewayJob_def recoverApproval_def
    by (rule hoare_if; rule disowned_recoverRevocation [OF st] disowned_recover_attempts [OF st]; simp)
  then show ?thesis using assms(2,3,5) unfolding hoare_def by (cases r) force+
qed

subsection \<open>A recovered revocation\<close>

text \<open>What the removal depends on: the grant, the identity's active grant, the account. The others leave
  these and the job alone while the worker runs.\<close>

definition bearings :: "ident \<Rightarrow> portal_db \<Rightarrow> grant option \<times> grant option \<times> user option" where
  "bearings i db = (grant_of i db, active_of i db, users_findById db (i_user i))"

fun verdict :: "grant option \<times> grant option \<times> user option \<Rightarrow> obsolete option" where
  "verdict (g, live, u) = (if (case g of None \<Rightarrow> False | Some x \<Rightarrow> gr_status x = Gr_Active) then Some Grant_Active
     else if live = None then None else Some Regranted)"

definition pending_removal where
  "pending_removal i job x db \<longleftrightarrow> well_keyed db \<and> job_of i db = Some job \<and> owns_row job job \<and> bearings i db = x"

definition no_longer_owed where
  "no_longer_owed i x db \<longleftrightarrow> job_of i db = None \<and> bearings i db = x"

text \<open>The identity has a consumer, and the gateway never answers that it does not exist.\<close>

definition consumer_answers :: "env \<Rightarrow> ident \<Rightarrow> portal_db \<Rightarrow> bool" where
  "consumer_answers env i db \<longleftrightarrow>
     (\<exists>c. consumer_of i db = Some c \<and> (\<forall>n. e_get env n (co_ferrum_consumer_id c) \<noteq> Inr None))"

text \<open>Finished: nothing but the job was in the way, and the removal is acknowledged; only where \<open>must\<close> does
  not hold may nothing have been sent.\<close>

definition finished where
  "finished i must x p0 w \<longleftrightarrow> no_longer_owed i x (w_db w) \<and> snd (snd x) \<noteq> None \<and> verdict x = None \<and>
     (taken_off i p0 w \<or> \<not> must \<and> w_puts w = p0)"

definition dropped where
  "dropped i x p0 w \<longleftrightarrow> no_longer_owed i x (w_db w) \<and> (snd (snd x) = None \<or> verdict x \<noteq> None) \<and> w_puts w = p0"

definition still_env :: "ident \<Rightarrow> env \<Rightarrow> bool" where
  "still_env i env \<longleftrightarrow> patient_env i env \<and>
     (\<forall>n db. users_findById (e_other env n db) (i_user i) = users_findById db (i_user i))"

lemma still_bearings: "still_env i env \<Longrightarrow> bearings i (e_other env n db) = bearings i db"
  by (simp add: still_env_def bearings_def patient_env_def spares_def)

lemma stable_removal:
  assumes "still_env i env"
  shows "stable env (\<lambda>w. pending_removal i job x (w_db w))" "stable env (\<lambda>w. no_longer_owed i x (w_db w))"
    "stable env (taken_off i p0)" "stable env (\<lambda>w. must \<longrightarrow> consumer_answers env i (w_db w))" "stable env (\<lambda>w. consumer_of i (w_db w) = Some cn)"
proof -
  have pe: "patient_env i env" using assms by (simp add: still_env_def)
  note l = patient_spares [OF pe] and b = still_bearings [OF assms]
  show "stable env (\<lambda>w. pending_removal i job x (w_db w))" "stable env (\<lambda>w. no_longer_owed i x (w_db w))"
    by (rule stableI; use l b in \<open>auto simp: pending_removal_def no_longer_owed_def spares_def\<close>)+
  show "stable env (taken_off i p0)" by (rule stable_patient(8) [OF pe])
  show "stable env (\<lambda>w. must \<longrightarrow> consumer_answers env i (w_db w))"
    by (rule stableI) (use l in \<open>auto simp: consumer_answers_def spares_def\<close>, metis option.distinct(1) option.inject)
  show "stable env (\<lambda>w. consumer_of i (w_db w) = Some cn)" by (rule stable_patient(5) [OF pe])
qed

lemma bearings_cong:
  "db_grants db' = db_grants db \<Longrightarrow> db_users db' = db_users db \<Longrightarrow> bearings i db' = bearings i db"
  using grant_of_cong [of db' db i] active_of_cong [of db' db i] by (simp add: bearings_def users_findById_def)

lemma pending_delete:
  assumes "pending_removal i job x db"
  shows "\<exists>db'. accessGatewayJobs_deleteClaimed job db = (True, db') \<and> no_longer_owed i x db' \<and>
    db_consumers db' = db_consumers db"
proof -
  have k: "keyed db" "accessGatewayJobs_findBySubject db (i_request i) = Some job" "owns_row job job" "bearings i db = x"
    using assms by (auto simp: pending_removal_def well_keyed_def job_of_def)
  let ?db' = "snd (accessGatewayJobs_deleteClaimed job db)"
  have "job \<in> set (db_jobs db)"
    using k(2) by (auto simp: accessGatewayJobs_findBySubject_def find_by_def find_Some_iff)
  then have "list_ex (owns_row job) (db_jobs db)" using k(3) by (auto simp: list_ex_iff)
  moreover have "job_of i ?db' = None" using deleteClaimed_own [OF k(1,2,3)] by (simp add: job_of_def)
  moreover have "bearings i ?db' = x"
    using k(4) bearings_cong [of ?db' db i] by (simp add: accessGatewayJobs_deleteClaimed_def)
  ultimately show ?thesis by (auto simp: accessGatewayJobs_deleteClaimed_def no_longer_owed_def)
qed

lemma owed_dropJob:
  assumes env: "still_env i env" and x: "snd (snd x) = None \<or> verdict x \<noteq> None"
  shows "hoare env (\<lambda>w. pending_removal i job x (w_db w) \<and> w_puts w = p0) (dropJob job)
    (\<lambda>o1 w. o1 = Out_Obsolete \<and> dropped i x p0 w)
    (\<lambda>_ w. pending_removal i job x (w_db w) \<or> dropped i x p0 w)"
proof -
  let ?P = "\<lambda>w. pending_removal i job x (w_db w) \<and> w_puts w = p0"
  have st: "stable env ?P" by (intro stable_conj stable_removal [OF env] stable_puts [of env "\<lambda>p. p = p0"])
  have "hoare env ?P (io_tx (tx_of (accessGatewayJobs_deleteClaimed job))) (\<lambda>d w. d \<and> dropped i x p0 w)
      (\<lambda>_ w. pending_removal i job x (w_db w) \<or> dropped i x p0 w)"
    by (rule hoare_tx [OF st]) (use x in \<open>auto simp: tx_of_def dropped_def dest!: pending_delete\<close>)
  then show ?thesis unfolding dropJob_def by (rule hoare_bind) (auto intro!: hoare_return)
qed

lemma owed_complete:
  assumes env: "still_env i env" and x: "snd (snd x) \<noteq> None" "verdict x = None"
  shows "hoare env (\<lambda>w. pending_removal i job x (w_db w) \<and> (taken_off i p0 w \<or> \<not> must \<and> w_puts w = p0))
    (io_tx (complete_tx job now)) (\<lambda>done1 w. done1 \<and> finished i must x p0 w)
    (\<lambda>_ w. pending_removal i job x (w_db w) \<or> finished i must x p0 w)"
proof (rule hoare_tx)
  show "stable env (\<lambda>w. pending_removal i job x (w_db w) \<and> (taken_off i p0 w \<or> \<not> must \<and> w_puts w = p0))"
    by (intro stable_conj stable_disj stable_const stable_removal [OF env] stable_puts [of env "\<lambda>p. p = p0"])
  fix w a db'
  assume P: "pending_removal i job x (w_db w) \<and> (taken_off i p0 w \<or> \<not> must \<and> w_puts w = p0)"
    and t: "complete_tx job now (w_db w) = Inr (a, db')"
  obtain db1 where d: "accessGatewayJobs_deleteClaimed job (w_db w) = (True, db1)" "no_longer_owed i x db1"
      "db_consumers db1 = db_consumers (w_db w)"
    using pending_delete P by blast
  then have a: "a" and db': "db' = auditLogs_create None None ACCESS_REVOKE_COMPLETE (jb_subject_id job) now db1"
    using t by (auto simp: complete_tx_def tx_simps tx_of_def)
  have "no_longer_owed i x db'" using d(2) bearings_cong [of db' db1 i] job_of_cong [of db' db1 i]
    by (simp add: no_longer_owed_def db' auditLogs_create_def)
  moreover have "consumer_of i db' = consumer_of i (w_db w)"
    using d(3) by (intro consumer_of_cong) (simp add: db' auditLogs_create_def)
  ultimately show "(a \<and> finished i must x p0 (w\<lparr>w_db := db'\<rparr>)) \<and>
      (\<forall>f :: failure. pending_removal i job x (w_db (w\<lparr>w_db := db'\<rparr>)) \<or> finished i must x p0 (w\<lparr>w_db := db'\<rparr>))"
    using a P x by (auto simp: finished_def taken_off_def last_write_def)
qed auto

definition job_for :: "ident \<Rightarrow> job \<Rightarrow> bool" where
  "job_for i job \<longleftrightarrow> jb_subject_id job = i_request i \<and> jb_api_id job = i_api i \<and> jb_user_id job = i_user i \<and>
     jb_application_id job = i_app i"

lemma owed_obsolete:
  assumes st: "stable env P" and P: "\<And>w. P w \<Longrightarrow> pending_removal i job x (w_db w)" and job: "job_for i job"
  shows "hoare env P (revocationObsolete job) (\<lambda>lost w. P w \<and> lost = verdict x) (\<lambda>_. P)"
proof -
  obtain g l u where x: "x = (g, l, u)" by (cases x) auto
  have owned: "hoare env P (stillOwned job) (\<lambda>owned w. P w \<and> owned) (\<lambda>_. P)"
    unfolding stillOwned_def
    by (rule hoare_read [OF st]) (use job in \<open>auto simp: pending_removal_def job_of_def job_for_def dest!: P\<close>)
  have row: "hoare env P (io_read (\<lambda>db. grants_findById db (jb_subject_id job))) (\<lambda>r w. P w \<and> r = g) (\<lambda>_. P)"
    by (rule hoare_read [OF st])
       (use job in \<open>auto simp: pending_removal_def bearings_def grant_of_def job_for_def x dest!: P\<close>)
  have live: "hoare env P (io_read (\<lambda>db. grants_findActiveByApiAndUser db (jb_api_id job) (jb_user_id job)
      (jb_application_id job))) (\<lambda>r w. P w \<and> r = l) (\<lambda>_. P)"
    by (rule hoare_read [OF st])
       (use job in \<open>auto simp: pending_removal_def bearings_def active_of_def job_for_def x dest!: P\<close>)
  show ?thesis unfolding revocationObsolete_def
    by (rule hoare_bind [OF owned], rule hoare_pure, simp only: not_True_eq_False if_False simp_thms,
        rule hoare_bind [OF row], rule hoare_pure)
       (auto simp: x split: option.splits intro!: hoare_return hoare_bind [OF live] hoare_pure)
qed

lemma owed_removal:
  assumes env: "still_env i env" and job: "job_for i job"
  shows "hoare env (\<lambda>w. pending_removal i job x (w_db w) \<and> w_puts w = p0 \<and> (case consumer of None \<Rightarrow> \<not> must
       | Some c \<Rightarrow> consumer_of i (w_db w) = Some c \<and> (must \<longrightarrow> consumer_answers env i (w_db w)))) (recover_removal job consumer)
    (\<lambda>lost w. (pending_removal i job x (w_db w) \<and> (verdict x = None \<and> taken_off i p0 w \<or> w_puts w = p0 \<and> (verdict x = None \<longrightarrow> \<not> must))) \<and> lost = verdict x)
    (\<lambda>_ w. pending_removal i job x (w_db w))"
proof -
  let ?P = "\<lambda>w. pending_removal i job x (w_db w) \<and> w_puts w = p0"
  have sP: "stable env ?P" by (intro stable_conj stable_removal [OF env] stable_puts [of env "\<lambda>p. p = p0"])
  have none: "hoare env (\<lambda>w. ?P w \<and> \<not> must) (revocationObsolete job) (\<lambda>lost w. (?P w \<and> \<not> must) \<and> lost = verdict x) (\<lambda>_ w. ?P w \<and> \<not> must)"
    by (rule owed_obsolete [OF stable_conj [OF sP stable_const] _ job]) simp
  have mut: "hoare env (\<lambda>w. ?P w \<and> consumer_of i (w_db w) = Some c \<and> (must \<longrightarrow> consumer_answers env i (w_db w)))
      (mutateAclGroups (co_ferrum_consumer_id c) (\<lambda>_. filter (not_of_api (jb_api_id job)))
        (no_options\<lparr>mo_absentIsDone := True\<rparr>) (obsolete_guard job) (None :: unit io option))
      (\<lambda>(seen, r) w. pending_removal i job x (w_db w) \<and> (case r of Inl f \<Rightarrow> True | Inr m \<Rightarrow> seen = Some (verdict x) \<and>
         (verdict x = None \<and> taken_off i p0 w \<or> w_puts w = p0 \<and> (verdict x = None \<longrightarrow> \<not> must)))) (\<lambda>_ w. pending_removal i job x (w_db w))" for c
  proof (rule hoare_mutateAclGroups [where
        G = "\<lambda>lost ok w. (?P w \<and> consumer_of i (w_db w) = Some c \<and> (must \<longrightarrow> consumer_answers env i (w_db w))) \<and> lost = verdict x \<and> (ok \<longleftrightarrow> lost = None)"
        and A = "\<lambda>lost w. pending_removal i job x (w_db w) \<and> lost = verdict x \<and> verdict x = None \<and> taken_off i p0 w"])
    let ?R = "\<lambda>w. ?P w \<and> consumer_of i (w_db w) = Some c \<and> (must \<longrightarrow> consumer_answers env i (w_db w))"
    show sR: "stable env ?R" by (intro stable_conj sP stable_removal [OF env])
    show "stable env (\<lambda>w. ?R w \<and> lost = verdict x \<and> (True \<longleftrightarrow> lost = None))" for lost
      by (intro stable_conj stable_const sR)
    have "hoare env ?R (revocationObsolete job) (\<lambda>lost w. ?R w \<and> lost = verdict x) (\<lambda>_. ?R)"
      by (rule owed_obsolete [OF sR _ job]) simp
    then show "hoare env ?R (obsolete_guard job) (\<lambda>(lost, ok) w. ?R w \<and> lost = verdict x \<and> (ok \<longleftrightarrow> lost = None)) (\<lambda>f. ?R)"
      unfolding obsolete_guard_def by (rule hoare_bind) (auto intro!: hoare_return)
    have cl: "clean i (filter (not_of_api (jb_api_id job)) cur)" for cur
      using job by (auto simp: clean_def not_of_api_iff job_for_def)
    show "pending_removal i job x (w_db (w\<lparr>w_puts := w_puts w @ [\<lparr>pt_consumer = co_ferrum_consumer_id c,
          pt_groups = filter (not_of_api (jb_api_id job)) cur, pt_acked = True\<rparr>]\<rparr>)) \<and> lost = verdict x \<and> verdict x = None \<and>
        taken_off i p0 (w\<lparr>w_puts := w_puts w @ [\<lparr>pt_consumer = co_ferrum_consumer_id c,
          pt_groups = filter (not_of_api (jb_api_id job)) cur, pt_acked = True\<rparr>]\<rparr>)"
      if "?R w \<and> lost = verdict x \<and> (True \<longleftrightarrow> lost = None)" for lost w cur
      using that cl by (auto simp: taken_off_def intro!: last_write_put)
  qed (auto simp: no_options_def consumer_answers_def)
  show ?thesis
  proof (cases consumer)
    case None
    show ?thesis unfolding recover_removal_def None option.case by (rule hoare_weaken [OF none]) auto
  next
    case (Some c)
    show ?thesis unfolding recover_removal_def
      by (simp only: Some option.case conj_assoc, rule hoare_bind [OF mut [unfolded conj_assoc]])
         (auto intro!: hoare_throw hoare_return split: sum.splits)
  qed
qed

definition recovery_ended :: "env \<Rightarrow> ident \<Rightarrow> job \<Rightarrow> world \<Rightarrow> failure + job_outcome \<Rightarrow> world \<Rightarrow> bool" where
  "recovery_ended env i job w0 r w \<longleftrightarrow> (let x = bearings i (w_db w0) in case r of
      Inr Out_Completed \<Rightarrow> finished i (consumer_answers env i (w_db w0)) x (w_puts w0) w
    | Inr Out_Obsolete \<Rightarrow> dropped i x (w_puts w0) w
    | Inr Out_Superseded \<Rightarrow> False
    | Inl f \<Rightarrow> pending_removal i job x (w_db w) \<or> finished i (consumer_answers env i (w_db w0)) x (w_puts w0) w \<or> dropped i x (w_puts w0) w)"

lemma owed_recoverRevocation:
  assumes env: "still_env i env" and job: "job_for i job" and x: "x = bearings i (w_db w0)" and p0: "p0 = w_puts w0"
    and must: "must = consumer_answers env i (w_db w0)"
  shows "hoare env (\<lambda>w. pending_removal i job x (w_db w) \<and> w_puts w = p0 \<and> (must \<longrightarrow> consumer_answers env i (w_db w))) (recoverRevocation job)
    (\<lambda>o1. recovery_ended env i job w0 (Inr o1)) (\<lambda>f. recovery_ended env i job w0 (Inl f))"
proof -
  let ?P = "\<lambda>w. pending_removal i job x (w_db w) \<and> w_puts w = p0 \<and> (must \<longrightarrow> consumer_answers env i (w_db w))"
  let ?E = "\<lambda>f. recovery_ended env i job w0 (Inl f)" and ?Q = "\<lambda>o1. recovery_ended env i job w0 (Inr o1)"
  have sP: "stable env ?P" by (intro stable_conj stable_removal [OF env] stable_puts [of env "\<lambda>p. p = p0"])
  have eE: "pending_removal i job x (w_db w) \<Longrightarrow> ?E f w" for f w by (simp add: recovery_ended_def x)
  have drop: "hoare env (\<lambda>w. pending_removal i job x (w_db w) \<and> w_puts w = p0) (dropJob job) ?Q ?E" if "snd (snd x) = None \<or> verdict x \<noteq> None"
    by (rule hoare_weaken [OF owed_dropJob [OF env that, of job p0]]) (auto simp: recovery_ended_def x p0)
  let ?D = "\<lambda>w. pending_removal i job x (w_db w) \<and> (verdict x = None \<and> taken_off i p0 w \<or> w_puts w = p0 \<and> (verdict x = None \<longrightarrow> \<not> must))"
  have finish: "hoare env ?D (io_bind io_now (\<lambda>now. io_bind (io_tx (complete_tx job now)) (\<lambda>completed.
           io_return (if completed then Out_Completed else Out_Superseded)))) ?Q ?E"
    if "verdict x = None" "snd (snd x) \<noteq> None"
  proof (rule hoare_quiet [OF quiet_now])
    show "stable env ?D"
      by (intro stable_conj stable_disj stable_const stable_removal [OF env] stable_puts [of env "\<lambda>p. p = p0"])
    have tx: "hoare env ?D (io_tx (complete_tx job now)) (\<lambda>d w. d \<and> finished i must x p0 w) ?E" for now
      by (rule hoare_weaken [OF owed_complete [OF env that(2,1), where must = must]])
         (use that in \<open>auto simp: recovery_ended_def x p0 must\<close>)
    show "hoare env ?D (io_bind (io_tx (complete_tx job now)) (\<lambda>completed.
           io_return (if completed then Out_Completed else Out_Superseded))) ?Q ?E" for now
      by (rule hoare_bind [OF tx]) (auto intro!: hoare_return simp: recovery_ended_def x p0 must)
  qed (use eE in auto)
  have after: "hoare env (\<lambda>w. ?D w \<and> lost = verdict x) (case lost of
         Some Superseded \<Rightarrow> io_return Out_Superseded
       | Some _ \<Rightarrow> dropJob job
       | None \<Rightarrow> io_bind io_now (\<lambda>now. io_bind (io_tx (complete_tx job now)) (\<lambda>completed.
           io_return (if completed then Out_Completed else Out_Superseded)))) ?Q ?E" if "snd (snd x) \<noteq> None" for lost
  proof (rule hoare_pure)
    assume l: "lost = verdict x"
    have ns: "verdict x \<noteq> Some Superseded" by (cases x) (auto split: option.splits)
    show "hoare env ?D (case lost of
         Some Superseded \<Rightarrow> io_return Out_Superseded
       | Some _ \<Rightarrow> dropJob job
       | None \<Rightarrow> io_bind io_now (\<lambda>now. io_bind (io_tx (complete_tx job now)) (\<lambda>completed.
           io_return (if completed then Out_Completed else Out_Superseded)))) ?Q ?E"
    proof (cases lost)
      case None
      then show ?thesis using finish l that by simp
    next
      case (Some o1)
      have "hoare env ?D (dropJob job) ?Q ?E"
        by (rule hoare_weaken [OF drop]) (use l Some in auto)
      then show ?thesis using Some l ns by (auto split: obsolete.splits)
    qed
  qed
  let ?C = "\<lambda>consumer w. pending_removal i job x (w_db w) \<and> w_puts w = p0 \<and> (case consumer of None \<Rightarrow> \<not> must
       | Some c \<Rightarrow> consumer_of i (w_db w) = Some c \<and> (must \<longrightarrow> consumer_answers env i (w_db w)))"
  have consumer: "hoare env ?P (io_read (\<lambda>db. consumers_findByUser db (jb_user_id job) (jb_application_id job))) ?C ?E"
    by (rule hoare_read [OF sP]) (use job eE in \<open>auto simp: job_for_def consumer_of_def consumer_answers_def split: option.splits\<close>)
  have removal: "hoare env (?C c) (recover_removal job c) (\<lambda>lost w. ?D w \<and> lost = verdict x) ?E" for c
    by (rule hoare_weaken [OF owed_removal [OF env job]]) (use eE in auto)
  have user: "hoare env ?P (io_read (\<lambda>db. users_findById db (jb_user_id job))) (\<lambda>u w. ?P w \<and> u = snd (snd x)) ?E"
    by (rule hoare_read [OF sP]) (use job eE in \<open>auto simp: job_for_def pending_removal_def bearings_def\<close>)
  show ?thesis unfolding recoverRevocation_def
    by (rule hoare_bind [OF user], rule hoare_pure, rule hoare_if, rule hoare_weaken [OF drop], simp, simp, simp, simp,
        rule hoare_bind [OF consumer], rule hoare_bind [OF removal], rule after) simp
qed

text \<open>
  C3. What recovering an interrupted revocation ends in, while the others leave the grant, its job, the
  identity's active grant, its consumer and its account alone. If it reports completion, the job is gone,
  no active grant is behind the group, and the gateway acknowledged the one write it was sent, of the
  identity's consumer without any of the API's groups; nothing may have been sent only if there was no such
  consumer, or the gateway answered that it does not exist. If it reports the job obsolete, the job is gone,
  nothing was written, and there was a reason: the account is gone, the grant is active again, or a newer grant holds
  the group. If it fails, the job is still there for the next attempt, or one of these two states was
  reached and only its acknowledgement was lost.
\<close>

theorem recovered_revocation_settles:
  assumes "still_env i env" "job_for i job" "well_keyed (w_db w)" "job_of i (w_db w) = Some job" "owns_row job job"
  shows "case recoverRevocation job env w of (r, w') \<Rightarrow> recovery_ended env i job w r w'"
proof -
  have "pending_removal i job (bearings i (w_db w)) (w_db w)" using assms(3-5) by (simp add: pending_removal_def)
  then have "case recoverRevocation job env w of (Inr o1, w') \<Rightarrow> recovery_ended env i job w (Inr o1) w'
      | (Inl f, w') \<Rightarrow> recovery_ended env i job w (Inl f) w'"
    using owed_recoverRevocation [OF assms(1,2) refl refl refl, of w] unfolding hoare_def by simp
  then show ?thesis by (auto split: prod.splits sum.split_asm)
qed

subsection \<open>An example\<close>

definition ex_job :: job where
  "ex_job = job_row ''j1'' ''n1'' \<lparr>ji_kind = Job_Revoke, ji_subject_id = ''g1'', ji_api_id = ''a1'', ji_user_id = ''u1'',
     ji_application_id = None, ji_requested_by = Some ''o1''\<rparr> Job_Sending 0"

definition ex_owed :: world where
  "ex_owed = ex_granted\<lparr>w_db := (w_db ex_granted)\<lparr>db_grants := [ex_grant\<lparr>gr_status := Gr_Revoked\<rparr>], db_jobs := [ex_job]\<rparr>\<rparr>"

theorem recovered_revocation_settles_witness:
  "fst (recoverRevocation ex_job quiet_env ex_owed) = Inr Out_Completed \<and>
   taken_off ex_grant_ident (w_puts ex_owed) (snd (recoverRevocation ex_job quiet_env ex_owed))"
proof -
  let ?run = "recoverRevocation ex_job quiet_env ex_owed"
  have "case ?run of (r, w') \<Rightarrow> recovery_ended quiet_env ex_grant_ident ex_job ex_owed r w'"
  proof (rule recovered_revocation_settles)
    show "still_env ex_grant_ident quiet_env" by (simp add: still_env_def patient_env_def quiet_env_def spares_def)
    show "job_for ex_grant_ident ex_job" by (simp add: job_for_def ex_job_def job_row_def ex_grant_ident_def)
    show "well_keyed (w_db ex_owed)"
      by (simp add: well_keyed_def keyed_def ex_owed_def ex_granted_def ex_world_def requests_unique_def grants_unique_def)
    show "job_of ex_grant_ident (w_db ex_owed) = Some ex_job"
      by (simp add: job_of_def ex_grant_ident_def accessGatewayJobs_findBySubject_def find_by_def ex_owed_def ex_job_def job_row_def)
    show "owns_row ex_job ex_job" by (simp add: owns_row_def ex_job_def job_row_def)
  qed
  moreover have ended: "fst ?run = Inr Out_Completed" by code_simp
  moreover have "consumer_answers quiet_env ex_grant_ident (w_db ex_owed)"
  proof -
    have "map_option co_ferrum_consumer_id (consumer_of ex_grant_ident (w_db ex_owed)) \<noteq> None" by code_simp
    then show ?thesis by (auto simp: consumer_answers_def quiet_env_def)
  qed
  ultimately show ?thesis by (auto simp: recovery_ended_def finished_def Let_def split: prod.splits)
qed

theorem recovery_never_adds_access_witness:
  "db_grants (w_db (snd (recoverGatewayJob ex_job quiet_env ex_owed))) = db_grants (w_db ex_owed)"
proof -
  have "grants_at_rest quiet_env" by (simp add: grants_at_rest_def quiet_env_def)
  from recovery_never_adds_access [OF this surjective_pairing, of ex_job ex_owed] show ?thesis by simp
qed

theorem superseded_recovery_writes_nothing_witness:
  "w_puts (snd (recoverGatewayJob ex_job quiet_env ex_granted)) = w_puts ex_granted"
proof -
  have "never_given_back ex_job quiet_env" by (simp add: never_given_back_def quiet_env_def)
  moreover have "disowned ex_job (w_db ex_granted)" by (simp add: disowned_def ex_granted_def ex_world_def)
  ultimately show ?thesis
    using superseded_recovery_writes_nothing [OF _ _ surjective_pairing stable_const, of ex_job quiet_env ex_granted True] by simp
qed

end
