(* ===== verification/Worker.thy ===== *)
theory Worker
  imports Recovery Transaction_Retry Keeping
begin

section \<open>The access gateway worker\<close>

text \<open>
  Models \<open>server/src/access/gateway-job-worker.ts\<close>: one tick with its stale sweep, its claims one at a
  time and its rescheduling, and the delays. The timer that calls the tick is not modelled. A delay is
  computed on rational numbers; the source's doubles are exact on the whole milliseconds it starts from.
\<close>

definition ACCESS_GATEWAY_BATCH_SIZE :: nat where "ACCESS_GATEWAY_BATCH_SIZE = 10"
definition ACCESS_GATEWAY_BASE_BACKOFF_MS :: rat where "ACCESS_GATEWAY_BASE_BACKOFF_MS = 10000"
definition ACCESS_GATEWAY_MAX_BACKOFF_MS :: rat where "ACCESS_GATEWAY_MAX_BACKOFF_MS = 5 * 60000"
definition ACCESS_GATEWAY_STALE_AFTER_MS :: int where "ACCESS_GATEWAY_STALE_AFTER_MS = 5 * 60000"
definition ACCESS_GATEWAY_EDGE_CALLS :: int where "ACCESS_GATEWAY_EDGE_CALLS = 6"

definition accessGatewayJobBudgetMs :: "int \<Rightarrow> int" where
  "accessGatewayJobBudgetMs adminTimeoutMs = ACCESS_GATEWAY_EDGE_CALLS * adminTimeoutMs + 2 * LEASE_WAIT_MS + LEASE_TTL_MS"

definition backoff_base :: "int \<Rightarrow> rat" where
  "backoff_base attempts =
     (let exponent = max 0 (min attempts 16)
      in min (ACCESS_GATEWAY_BASE_BACKOFF_MS * 2 ^ nat exponent) ACCESS_GATEWAY_MAX_BACKOFF_MS)"

definition accessGatewayBackoffMs :: "int \<Rightarrow> rat \<Rightarrow> int" where
  "accessGatewayBackoffMs attempts random =
     js_round (backoff_base attempts + backoff_base attempts * (1 / 10) * random)"

text \<open>Whether \<open>start()\<close> warns that a request may hold a job past the stale threshold.\<close>

definition start_warns :: "int \<Rightarrow> bool" where
  "start_warns adminTimeoutMs \<longleftrightarrow> ACCESS_GATEWAY_STALE_AFTER_MS \<le> accessGatewayJobBudgetMs adminTimeoutMs"

record tick_result =
  tk_released :: nat
  tk_claimed :: nat
  tk_completed :: nat
  tk_obsolete :: nat
  tk_superseded :: nat
  tk_rescheduled :: nat
  tk_abandoned :: nat

definition no_ticks :: tick_result where
  "no_ticks = \<lparr>tk_released = 0, tk_claimed = 0, tk_completed = 0, tk_obsolete = 0, tk_superseded = 0,
     tk_rescheduled = 0, tk_abandoned = 0\<rparr>"

text \<open>\<^verbatim>\<open>result[outcome] += 1\<close>.\<close>

fun count_outcome :: "job_outcome \<Rightarrow> tick_result \<Rightarrow> tick_result" where
  "count_outcome Out_Completed t = t\<lparr>tk_completed := Suc (tk_completed t)\<rparr>"
| "count_outcome Out_Obsolete t = t\<lparr>tk_obsolete := Suc (tk_obsolete t)\<rparr>"
| "count_outcome Out_Superseded t = t\<lparr>tk_superseded := Suc (tk_superseded t)\<rparr>"

text \<open>\<open>random\<close> is the jitter drawn if the attempt fails. The repositories stamp the rows they change with
  a clock of their own, which is the second instant.\<close>

definition runJob :: "rat \<Rightarrow> tick_result \<Rightarrow> job \<Rightarrow> tick_result io" where
  "runJob random result job =
     io_bind (io_try (recoverGatewayJob job)) (\<lambda>r. case r of
       Inr outcome \<Rightarrow> io_return (count_outcome outcome result)
     | Inl f \<Rightarrow>
         io_bind io_now (\<lambda>now. io_bind io_now (\<lambda>stamp.
         io_bind (io_tx (tx_of (accessGatewayJobs_reschedule job (now + accessGatewayBackoffMs (int (jb_attempts job)) random)
             (err_message (f_error f)) stamp))) (\<lambda>ours.
         io_return (if ours then result\<lparr>tk_rescheduled := Suc (tk_rescheduled result)\<rparr>
                    else result\<lparr>tk_superseded := Suc (tk_superseded result)\<rparr>)))))"

definition releaseStale :: "tick_result \<Rightarrow> tick_result io" where
  "releaseStale result =
     io_bind io_now (\<lambda>now. io_bind io_now (\<lambda>stamp.
     io_bind (io_tx (tx_of (accessGatewayJobs_releaseStale (now - ACCESS_GATEWAY_STALE_AFTER_MS) stamp))) (\<lambda>n.
     io_return (result\<lparr>tk_released := n\<rparr>))))"

definition claim_one :: "job option io" where
  "claim_one = io_bind io_now (\<lambda>now. io_bind io_newId (\<lambda>generation. io_bind io_now (\<lambda>stamp.
     io_bind (io_tx (tx_of (accessGatewayJobs_claimDue generation stamp now 1))) (\<lambda>jobs.
     io_return (case jobs of [] \<Rightarrow> None | j # _ \<Rightarrow> Some j)))))"

text \<open>A job whose processing threw past its reschedule is abandoned: the stale sweep brings it back.\<close>

fun tick_loop :: "nat \<Rightarrow> (nat \<Rightarrow> rat) \<Rightarrow> tick_result \<Rightarrow> tick_result io" where
  "tick_loop 0 random result = io_return result"
| "tick_loop (Suc n) random result =
     io_bind (io_try claim_one) (\<lambda>r. case r of
       Inl f \<Rightarrow> io_return result
     | Inr None \<Rightarrow> io_return result
     | Inr (Some job) \<Rightarrow>
         (let taken = result\<lparr>tk_claimed := Suc (tk_claimed result)\<rparr>
          in io_bind (io_try (runJob (random n) taken job)) (\<lambda>ran.
             tick_loop n random (case ran of
                 Inr t \<Rightarrow> t | Inl f \<Rightarrow> taken\<lparr>tk_abandoned := Suc (tk_abandoned taken)\<rparr>))))"

definition runTick :: "nat \<Rightarrow> (nat \<Rightarrow> rat) \<Rightarrow> tick_result io" where
  "runTick batchSize random =
     io_bind (io_try (releaseStale no_ticks)) (\<lambda>r.
     tick_loop batchSize random (case r of Inl f \<Rightarrow> no_ticks | Inr t \<Rightarrow> t))"

subsection \<open>What a tick did\<close>

definition handled :: "tick_result \<Rightarrow> nat" where
  "handled t = tk_completed t + tk_obsolete t + tk_superseded t + tk_rescheduled t + tk_abandoned t"

lemma count_outcome_handled:
  "handled (count_outcome o1 t) = Suc (handled t)" "tk_claimed (count_outcome o1 t) = tk_claimed t"
  by (cases o1; simp add: handled_def)+

lemma hoare_runJob:
  "hoare env (\<lambda>_. True) (runJob random t job)
     (\<lambda>t' _. handled t' = Suc (handled t) \<and> tk_claimed t' = tk_claimed t) (\<lambda>_ _. True)"
proof -
  let ?Q = "\<lambda>t' _. handled t' = Suc (handled t) \<and> tk_claimed t' = tk_claimed t"
  have resched: "hoare env (\<lambda>_. True) (io_bind io_now (\<lambda>now. io_bind io_now (\<lambda>stamp.
         io_bind (io_tx (tx_of (accessGatewayJobs_reschedule job (now + accessGatewayBackoffMs (int (jb_attempts job)) random)
             (err_message (f_error f)) stamp))) (\<lambda>ours.
         io_return (if ours then t\<lparr>tk_rescheduled := Suc (tk_rescheduled t)\<rparr>
                    else t\<lparr>tk_superseded := Suc (tk_superseded t)\<rparr>))))) ?Q (\<lambda>_ _. True)" for f
    by (intro hoare_bind [OF any_step] hoare_return) (simp add: handled_def)
  show ?thesis unfolding runJob_def
    by (rule hoare_bind [OF any_step], rule hoare_sum)
       (auto intro!: resched hoare_return simp: count_outcome_handled)
qed

lemma hoare_tick_loop:
  "hoare env (\<lambda>_. True) (tick_loop n random t)
     (\<lambda>t' _. tk_claimed t' + handled t = tk_claimed t + handled t' \<and> tk_claimed t' \<le> tk_claimed t + n) (\<lambda>_ _. False)"
proof (induction n arbitrary: t)
  case 0
  show ?case by (simp add: hoare_return)
next
  case (Suc n)
  let ?Q = "\<lambda>t' (_ :: world). tk_claimed t' + handled t = tk_claimed t + handled t' \<and> tk_claimed t' \<le> tk_claimed t + Suc n"
  let ?taken = "t\<lparr>tk_claimed := Suc (tk_claimed t)\<rparr>"
  let ?next = "\<lambda>ran. case ran of Inr t \<Rightarrow> t | Inl (f :: failure) \<Rightarrow> ?taken\<lparr>tk_abandoned := Suc (tk_abandoned ?taken)\<rparr>"
  have ran: "hoare env (\<lambda>_. True) (io_try (runJob r ?taken job))
      (\<lambda>x _. handled (?next x) = Suc (handled t) \<and> tk_claimed (?next x) = Suc (tk_claimed t)) (\<lambda>_ _. False)" for r job
    by (rule hoare_try, rule hoare_weaken [OF hoare_runJob]) (auto simp: handled_def)
  have go: "hoare env (\<lambda>_. handled t1 = Suc (handled t) \<and> tk_claimed t1 = Suc (tk_claimed t)) (tick_loop n random t1) ?Q
      (\<lambda>_ _. False)" for t1
  proof (cases "handled t1 = Suc (handled t) \<and> tk_claimed t1 = Suc (tk_claimed t)")
    case True
    then show ?thesis by (intro hoare_weaken [OF Suc.IH [of t1]]) auto
  next
    case False
    then show ?thesis unfolding hoare_def by blast
  qed
  have step: "hoare env (\<lambda>_. True) (io_bind (io_try (runJob (random n) ?taken job)) (\<lambda>ran. tick_loop n random (?next ran))) ?Q (\<lambda>_ _. False)" for job
    by (rule hoare_bind [OF ran]) (rule go)
  have claim: "hoare env (\<lambda>_. True) (io_try claim_one) (\<lambda>_ _. True) (\<lambda>_ _. False)"
    by (rule hoare_try [OF any_step])
  show ?case unfolding tick_loop.simps Let_def
    by (rule hoare_bind [OF claim], rule hoare_sum, simp add: hoare_return, rule hoare_option, simp add: hoare_return)
       (rule step)
qed

text \<open>
  A tick of the worker always returns, whatever the store and the gateway did: it claims at most a
  batch of jobs, and every job it claimed is counted exactly once, as completed, obsolete, superseded,
  rescheduled or abandoned to the stale sweep.
\<close>

theorem tick_accounts_for_every_claim:
  "\<exists>t w'. runTick batchSize random env w = (Inr t, w') \<and> tk_claimed t \<le> batchSize \<and>
     tk_claimed t = tk_completed t + tk_obsolete t + tk_superseded t + tk_rescheduled t + tk_abandoned t"
proof -
  let ?t = "\<lambda>r. case r of Inl (f :: failure) \<Rightarrow> no_ticks | Inr t \<Rightarrow> t"
  have "hoare env (\<lambda>_. True) (releaseStale no_ticks) (\<lambda>t _. handled t = 0 \<and> tk_claimed t = 0) (\<lambda>_ _. True)"
    unfolding releaseStale_def by (intro hoare_bind [OF any_step] hoare_return) (simp add: no_ticks_def handled_def)
  then have stale: "hoare env (\<lambda>_. True) (io_try (releaseStale no_ticks))
      (\<lambda>r _. handled (?t r) = 0 \<and> tk_claimed (?t r) = 0) (\<lambda>_ _. False)"
    by (intro hoare_try, elim hoare_weaken) (auto simp: no_ticks_def handled_def)
  have "hoare env (\<lambda>_. True) (runTick batchSize random)
      (\<lambda>t' _. tk_claimed t' = handled t' \<and> tk_claimed t' \<le> batchSize) (\<lambda>_ _. False)"
    unfolding runTick_def
  proof (rule hoare_bind [OF stale])
    show "hoare env (\<lambda>_. handled (?t r) = 0 \<and> tk_claimed (?t r) = 0) (tick_loop batchSize random (?t r))
       (\<lambda>t' _. tk_claimed t' = handled t' \<and> tk_claimed t' \<le> batchSize) (\<lambda>_ _. False)" for r
    proof (cases "handled (?t r) = 0 \<and> tk_claimed (?t r) = 0")
      case True
      then show ?thesis by (intro hoare_weaken [OF hoare_tick_loop [of env batchSize random "?t r"]]) auto
    next
      case False
      then show ?thesis unfolding hoare_def by blast
    qed
  qed
  then have run: "case runTick batchSize random env w of (Inr t', w') \<Rightarrow> tk_claimed t' = handled t' \<and> tk_claimed t' \<le> batchSize
      | (Inl f, w') \<Rightarrow> False" unfolding hoare_def by simp
  obtain r w' where "runTick batchSize random env w = (r, w')" by (rule prod.exhaust)
  with run show ?thesis by (cases r) (auto simp: handled_def)
qed

subsection \<open>Delays\<close>

lemma backoff_base_bounds: "10000 \<le> backoff_base a" "backoff_base a \<le> 300000"
proof -
  have "(1 :: rat) \<le> 2 ^ nat (max 0 (min a 16))" by simp
  then show "10000 \<le> backoff_base a" "backoff_base a \<le> 300000"
    by (simp_all add: backoff_base_def Let_def ACCESS_GATEWAY_BASE_BACKOFF_MS_def ACCESS_GATEWAY_MAX_BACKOFF_MS_def)
qed

lemma js_round_between: "of_int a \<le> x \<Longrightarrow> x \<le> of_int b \<Longrightarrow> a \<le> js_round x \<and> js_round x \<le> b"
  unfolding js_round_def by linarith

text \<open>
  C38. The retry delays of the worker. Whatever the jitter, a failed job is retried between 10 and 330
  seconds later; the delay is the capped power of two and at most a tenth (rounded) more, and from the fifth
  attempt on it is at least five minutes. A request may hold a fresh job past the stale threshold exactly
  when the admin deadline is 30 seconds or more, which is when the worker warns at start.
\<close>

theorem worker_delays:
  assumes "0 \<le> random" "random < 1"
  shows "10000 \<le> accessGatewayBackoffMs attempts random \<and> accessGatewayBackoffMs attempts random \<le> 330000 \<and>
    backoff_base attempts \<le> of_int (accessGatewayBackoffMs attempts random) + 1 / 2 \<and>
    of_int (accessGatewayBackoffMs attempts random) \<le> backoff_base attempts * (11 / 10) + 1 / 2 \<and>
    (if 5 \<le> attempts then 300000 \<le> accessGatewayBackoffMs attempts random else True) \<and>
    (start_warns adminTimeoutMs \<longleftrightarrow> 30000 \<le> adminTimeoutMs)"
proof -
  let ?b = "backoff_base attempts"
  have b: "10000 \<le> ?b" "?b \<le> 300000" by (rule backoff_base_bounds)+
  let ?x = "?b + ?b * (1 / 10) * random"
  have "0 \<le> ?b * (1 / 10) * random" using b assms by simp
  moreover have "?b * (1 / 10) * random \<le> ?b * (1 / 10) * 1" using b assms by (intro mult_left_mono) auto
  ultimately have x: "?b \<le> ?x" "?x \<le> ?b * (11 / 10)" by simp_all
  have "300000 \<le> ?b" if "5 \<le> attempts"
  proof -
    have "5 \<le> nat (max 0 (min attempts 16))" using that by simp
    then have "(2 :: rat) ^ 5 \<le> 2 ^ nat (max 0 (min attempts 16))" by (intro power_increasing) simp_all
    then show ?thesis
      by (simp add: backoff_base_def Let_def ACCESS_GATEWAY_BASE_BACKOFF_MS_def ACCESS_GATEWAY_MAX_BACKOFF_MS_def)
  qed
  moreover have "of_int (js_round ?x) \<le> ?x + 1 / 2" "?x < of_int (js_round ?x) + 1 / 2"
    unfolding js_round_def by linarith+
  moreover have "10000 \<le> js_round ?x" "js_round ?x \<le> 330000" "300000 \<le> ?b \<Longrightarrow> 300000 \<le> js_round ?x"
    using js_round_between [of 10000 ?x 330000] js_round_between [of 300000 ?x 330000] b x by linarith+
  ultimately show ?thesis
    using x by (auto simp: accessGatewayBackoffMs_def start_warns_def accessGatewayJobBudgetMs_def
        ACCESS_GATEWAY_STALE_AFTER_MS_def ACCESS_GATEWAY_EDGE_CALLS_def LEASE_WAIT_MS_def LEASE_TTL_MS_def)
qed

theorem worker_delays_witness:
  "10000 \<le> accessGatewayBackoffMs 3 (1 / 2) \<and> accessGatewayBackoffMs 3 (1 / 2) \<le> 330000 \<and> start_warns 60000"
  using worker_delays [of "1 / 2" 3 60000] by simp

end
