(* ===== verification/Paging.thy ===== *)
theory Paging
  imports Keeping Revocation
begin

section \<open>Loops over rows and pages\<close>

text \<open>
  The loops of \<open>server/src/access/stranded-repair.ts\<close> and \<open>server/src/credentials\<close> over the rows of a list
  and the pages of a query: over a list, over pages that continue after the last id, and over pages by
  offset. A loop over pages runs for as long as there are pages, so it takes fuel and ends as \<open>out_of_fuel\<close>
  when that is used up.
\<close>

subsection \<open>Scans\<close>

text \<open>\<^verbatim>\<open>for await (const item of \<dots>) body(item)\<close> over the items of one page.\<close>

fun each :: "('r \<Rightarrow> 's \<Rightarrow> 's io) \<Rightarrow> 'r list \<Rightarrow> 's \<Rightarrow> 's io" where
  "each body [] s = io_return s"
| "each body (r # rs) s = io_bind (body r s) (each body rs)"

fun keyset :: "nat \<Rightarrow> (string option \<Rightarrow> 'r list io) \<Rightarrow> ('r \<Rightarrow> string) \<Rightarrow> ('r \<Rightarrow> 's \<Rightarrow> 's io) \<Rightarrow> string option \<Rightarrow> 's \<Rightarrow> 's io" where
  "keyset 0 read idf body afterId s = io_throw out_of_fuel"
| "keyset (Suc n) read idf body afterId s =
     io_bind (read afterId) (\<lambda>page.
     io_bind (each body page s) (\<lambda>s'.
     if page = [] then io_return s' else keyset n read idf body (Some (idf (last page))) s'))"

text \<open>Whether a row of an offset-paged list satisfies \<open>P\<close>: the scan stops at the first that does.\<close>

fun pages_some :: "nat \<Rightarrow> (nat \<Rightarrow> ('r list \<times> nat) io) \<Rightarrow> ('r \<Rightarrow> bool) \<Rightarrow> nat \<Rightarrow> bool io" where
  "pages_some 0 read P offset = io_throw out_of_fuel"
| "pages_some (Suc n) read P offset =
     io_bind (read offset) (\<lambda>(items, count).
     if list_ex P items then io_return True
     else (let next1 = offset + length items
           in if items = [] \<or> count \<le> next1 then io_return False else pages_some n read P next1))"

text \<open>All rows of an offset-paged list.\<close>

fun pages_all :: "nat \<Rightarrow> (nat \<Rightarrow> ('r list \<times> nat) io) \<Rightarrow> nat \<Rightarrow> 'r list \<Rightarrow> 'r list io" where
  "pages_all 0 read offset rows = io_throw out_of_fuel"
| "pages_all (Suc n) read offset rows =
     io_bind (read offset) (\<lambda>(items, count).
     let next1 = offset + length items
     in if items = [] \<or> count \<le> next1 then io_return (rows @ items) else pages_all n read next1 (rows @ items))"

subsection \<open>Rules for the scans\<close>

lemma hoare_each:
  assumes "\<And>past r s. r \<in> set rs \<Longrightarrow> hoare env (J past s) (body r s) (J (past @ [r])) E"
  shows "hoare env (J past s) (each body rs s) (J (past @ rs)) E"
  using assms
proof (induction rs arbitrary: past s)
  case (Cons r rs)
  have "hoare env (J past s) (body r s) (J (past @ [r])) E" using Cons.prems by simp
  moreover have "hoare env (J (past @ [r]) s') (each body rs s') (J (past @ r # rs)) E" for s'
    using Cons.IH [of "past @ [r]" s'] Cons.prems by simp
  ultimately show ?case by (auto intro: hoare_bind)
qed (simp add: hoare_return)

text \<open>\<open>K\<close> is the invariant at the head of the loop, with the rounds left; \<open>R\<close> holds once a page was read.\<close>

lemma hoare_keyset:
  assumes "\<And>n a s. hoare env (K (Suc n) a s) (read a) (\<lambda>page. R n page a s) E"
    and "\<And>n a s w. R n [] a s w \<Longrightarrow> Q s w"
    and "\<And>n page a s. page \<noteq> [] \<Longrightarrow> hoare env (R n page a s) (each body page s) (\<lambda>s'. K n (Some (idf (last page))) s') E"
    and "\<And>a s w. K 0 a s w \<Longrightarrow> E out_of_fuel w"
  shows "hoare env (K n a s) (keyset n read idf body a s) Q E"
proof (induction n arbitrary: a s)
  case 0
  show ?case by (simp add: hoare_throw assms(4))
next
  case (Suc n)
  have "hoare env (R n page a s) (io_bind (each body page s) (\<lambda>s'.
      if page = [] then io_return s' else keyset n read idf body (Some (idf (last page))) s')) Q E" for page
  proof (cases "page = []")
    case True
    then show ?thesis using assms(2) [of n a s]
      by (auto simp: hoare_def io_bind_def io_return_def)
  next
    case False
    then show ?thesis using Suc.IH by (auto intro!: hoare_bind [OF assms(3) [OF False]])
  qed
  then show ?case unfolding keyset.simps by (rule hoare_bind [OF assms(1)])
qed

lemma each_keeps: "(\<And>r s. keeps env P (body r s)) \<Longrightarrow> keeps env P (each body rs s)"
  by (induction rs arbitrary: s) (auto intro!: keeping)

lemma keyset_keeps:
  "(\<And>a. keeps env P (read a)) \<Longrightarrow> (\<And>r s. keeps env P (body r s)) \<Longrightarrow> keeps env P (keyset n read idf body a s)"
  by (induction n arbitrary: a s) (auto intro!: keeping each_keeps)

lemma pages_some_keeps: "(\<And>o1. keeps env P (read o1)) \<Longrightarrow> keeps env P (pages_some n read Q offset)"
proof (induction n arbitrary: offset)
  case (Suc n)
  then show ?case unfolding pages_some.simps Let_def by (intro keeping) auto
qed (simp add: keeps_throw)

lemma quiet_pages_all: "(\<And>o1. quiet env (read o1)) \<Longrightarrow> quiet env (pages_all n read offset rows)"
proof (induction n arbitrary: offset rows)
  case (Suc n)
  then show ?case unfolding pages_all.simps Let_def by (intro quiets) auto
qed (simp add: quiet_throw)

text \<open>Read undisturbed, the pages are the whole list.\<close>

lemma hoare_pages_all:
  assumes env: "alone env" and read: "\<And>db o1. D db \<Longrightarrow> f o1 db = (take l (drop o1 rows), length rows)" "0 < l"
    and "length rows < n + offset" "0 < n" "got = take offset rows"
  shows "hoare env (\<lambda>w. D (w_db w)) (pages_all n (\<lambda>o1. io_read (f o1)) offset got) (\<lambda>r w. D (w_db w) \<and> r = rows) E"
  using assms(4-)
proof (induction n arbitrary: offset got)
  case (Suc n)
  let ?items = "take l (drop offset rows)"
  have next1: "take offset rows @ ?items = take (offset + length ?items) rows"
    by (cases "offset \<le> length rows") (auto simp: take_add min_def)
  show ?case unfolding pages_all.simps
  proof (rule hoare_read_alone [OF env], rule read(1), assumption, simp only: prod.case Let_def, intro hoare_if)
    assume "?items = [] \<or> length rows \<le> offset + length ?items"
    then have "got @ ?items = rows" using Suc.prems(3) read(2) next1 by (auto simp del: length_take length_drop)
    then show "hoare env (\<lambda>w. D (w_db w)) (io_return (got @ ?items)) (\<lambda>r w. D (w_db w) \<and> r = rows) E"
      by (intro hoare_return) simp
  next
    assume more1: "\<not> (?items = [] \<or> length rows \<le> offset + length ?items)"
    then have "0 < length ?items" by blast
    then show "hoare env (\<lambda>w. D (w_db w)) (pages_all n (\<lambda>o1. io_read (f o1)) (offset + length ?items) (got @ ?items))
        (\<lambda>r w. D (w_db w) \<and> r = rows) E"
      using Suc.prems more1 next1 by (intro Suc.IH) auto
  qed
qed simp

end
