(* ===== verification/Stranded_Repair.thy ===== *)
theory Stranded_Repair
  imports Revocation_Safety Paging
begin

section \<open>The repair of stranded gateway work\<close>

text \<open>
  Models \<open>server/src/access/stranded-repair.ts\<close>: the one-time scan that queues a job for every revoked
  grant and every approved request whose gateway half an earlier release may have left undone, with the
  pages it reads. A paged scan runs for as long as there are pages, so it takes fuel; a scan that has
  not ended ends as \<open>out_of_fuel\<close>, and \<open>repair_completes\<close> says how much is enough.
\<close>

definition STRANDED_REPAIR_LOCK_KEY :: string where
  "STRANDED_REPAIR_LOCK_KEY = ''access:stranded-repair:v1''"

subsection \<open>Pages\<close>

text \<open>\<open>WHERE status = ? AND id > ? ORDER BY id ASC LIMIT ?\<close>.\<close>

definition keyset_page :: "('r \<Rightarrow> string) \<Rightarrow> ('r \<Rightarrow> bool) \<Rightarrow> 'r list \<Rightarrow> string option \<Rightarrow> nat \<Rightarrow> 'r list" where
  "keyset_page idf inStatus rows afterId limit =
     take (max 1 limit) (sort_key idf (filter (\<lambda>r. inStatus r \<and> coalesce afterId < idf r) rows))"

definition grants_pageByStatus :: "portal_db \<Rightarrow> grant_status \<Rightarrow> string option \<Rightarrow> nat \<Rightarrow> grant list" where
  "grants_pageByStatus db status afterId limit =
     keyset_page gr_id (\<lambda>g. gr_status g = status) (db_grants db) afterId limit"

definition accessRequests_pageByStatus :: "portal_db \<Rightarrow> request_status \<Rightarrow> string option \<Rightarrow> nat \<Rightarrow> access_request list" where
  "accessRequests_pageByStatus db status afterId limit =
     keyset_page rq_id (\<lambda>r. rq_status r = status) (db_requests db) afterId limit"

text \<open>\<open>grants.list\<close> of one identity and API, in every status: newest first, with the total.\<close>

definition grants_list_identity ::
  "portal_db \<Rightarrow> string \<Rightarrow> string \<Rightarrow> string option \<Rightarrow> nat \<Rightarrow> nat \<Rightarrow> grant list \<times> nat" where
  "grants_list_identity db apiId userId applicationId limit offset =
     (let rows = filter (\<lambda>g. gr_user_id g = userId \<and> gr_api_id g = apiId \<and> gr_application_id g = applicationId) (db_grants db)
      in (take limit (drop offset (rev (sort_key gr_created_at (sort_key gr_id rows)))), length rows))"

definition repairRecorded :: "portal_db \<Rightarrow> bool" where
  "repairRecorded db \<longleftrightarrow> list_ex (\<lambda>a. au_action a = ACCESS_STRANDED_REPAIR_QUEUED) (db_audit db)"

subsection \<open>The repair\<close>

record repair_result =
  rr_alreadyRecorded :: bool
  rr_revocations :: nat
  rr_approvals :: nat

text \<open>\<open>identityKey\<close>: the JSON text of the three, which determines them.\<close>

definition identityKey :: "grant \<Rightarrow> string \<times> string \<times> string option" where
  "identityKey g = (gr_api_id g, gr_user_id g, gr_application_id g)"

definition enqueue :: "job_input \<Rightarrow> bool io" where
  "enqueue ji = io_bind io_now (\<lambda>now. io_bind io_newId (\<lambda>newId. io_bind io_newId (\<lambda>generation.
     io_tx (accessGatewayJobs_enqueueIfAbsent newId generation ji now))))"

definition revoke_input :: "grant \<Rightarrow> job_input" where
  "revoke_input g = \<lparr>ji_kind = Job_Revoke, ji_subject_id = gr_id g, ji_api_id = gr_api_id g, ji_user_id = gr_user_id g,
     ji_application_id = gr_application_id g, ji_requested_by = None\<rparr>"

definition approve_input :: "access_request \<Rightarrow> job_input" where
  "approve_input r = \<lparr>ji_kind = Job_Approve, ji_subject_id = rq_id r, ji_api_id = rq_api_id r, ji_user_id = rq_user_id r,
     ji_application_id = rq_application_id r, ji_requested_by = rq_decided_by r\<rparr>"

type_synonym grant_scan = "(string \<times> string \<times> string option) list \<times> repair_result"

definition repair_grant :: "grant \<Rightarrow> grant_scan \<Rightarrow> grant_scan io" where
  "repair_grant g = (\<lambda>(seen, result).
     let key = identityKey g; seen' = seen @ [key] in
     if key \<in> set seen then io_return (seen, result)
     else
       io_bind (io_read (\<lambda>db. grants_findActiveByApiAndUser db (gr_api_id g) (gr_user_id g) (gr_application_id g))) (\<lambda>active.
       if active \<noteq> None then io_return (seen', result)
       else
         io_bind (io_read (\<lambda>db. consumers_findByUser db (gr_user_id g) (gr_application_id g))) (\<lambda>consumer.
         if consumer = None then io_return (seen', result)
         else
           io_bind (io_read (\<lambda>db. users_findById db (gr_user_id g))) (\<lambda>user.
           if user = None then io_return (seen', result)
           else
             io_bind (enqueue (revoke_input g)) (\<lambda>queued.
             io_return (seen', if queued then result\<lparr>rr_revocations := Suc (rr_revocations result)\<rparr> else result))))))"

definition grantMadeFrom :: "nat \<Rightarrow> access_request \<Rightarrow> bool io" where
  "grantMadeFrom fuel request =
     pages_some fuel
       (\<lambda>offset. io_read (\<lambda>db. grants_list_identity db (rq_api_id request) (rq_user_id request)
          (rq_application_id request) MAX_PAGE_SIZE offset))
       (\<lambda>g. gr_access_request_id g = Some (rq_id request)) 0"

definition repair_request :: "nat \<Rightarrow> access_request \<Rightarrow> repair_result \<Rightarrow> repair_result io" where
  "repair_request fuel request result =
     (if rq_grant_id request \<noteq> None then io_return result
      else
        io_bind (grantMadeFrom fuel request) (\<lambda>made.
        if made then io_return result
        else
          io_bind (io_read (\<lambda>db. users_findById db (rq_user_id request))) (\<lambda>user.
          if user = None then io_return result
          else
            io_bind (enqueue (approve_input request)) (\<lambda>queued.
            io_return (if queued then result\<lparr>rr_approvals := Suc (rr_approvals result)\<rparr> else result)))))"

definition record_repair :: "repair_result \<Rightarrow> int \<Rightarrow> repair_result tx" where
  "record_repair result now =
     tx_bind (tx_read repairRecorded) (\<lambda>recorded.
     if recorded then tx_return (result\<lparr>rr_alreadyRecorded := True\<rparr>)
     else tx_bind (tx_audit None ACCESS_STRANDED_REPAIR_QUEUED [] now) (\<lambda>_. tx_return result))"

definition scan_grants :: "nat \<Rightarrow> nat \<Rightarrow> grant_scan \<Rightarrow> grant_scan io" where
  "scan_grants fuel pageSize =
     keyset fuel (\<lambda>afterId. io_read (\<lambda>db. grants_pageByStatus db Gr_Revoked afterId pageSize)) gr_id repair_grant None"

definition scan_requests :: "nat \<Rightarrow> nat \<Rightarrow> repair_result \<Rightarrow> repair_result io" where
  "scan_requests fuel pageSize =
     keyset fuel (\<lambda>afterId. io_read (\<lambda>db. accessRequests_pageByStatus db Rq_Approved afterId pageSize)) rq_id
       (repair_request fuel) None"

definition queueStrandedAccessRepairs :: "nat \<Rightarrow> nat \<Rightarrow> repair_result io" where
  "queueStrandedAccessRepairs fuel pageSize =
     io_lock STRANDED_REPAIR_LOCK_KEY (io_bind (io_read repairRecorded) (\<lambda>recorded.
       if recorded then io_return \<lparr>rr_alreadyRecorded = True, rr_revocations = 0, rr_approvals = 0\<rparr>
       else
         io_bind (scan_grants fuel pageSize ([], \<lparr>rr_alreadyRecorded = False, rr_revocations = 0, rr_approvals = 0\<rparr>)) (\<lambda>(seen, r1).
         io_bind (scan_requests fuel pageSize r1) (\<lambda>r2.
         io_bind io_now (\<lambda>now. io_tx (record_repair r2 now))))))"

subsection \<open>Pages advance past what they hold\<close>

lemma nonempty_positive: "s \<noteq> [] \<Longrightarrow> [] < (s :: string)"
  by (cases s) simp_all

lemma keyset_page_mem:
  "r \<in> set (keyset_page idf inStatus rows a limit) \<Longrightarrow> r \<in> set rows \<and> inStatus r \<and> coalesce a < idf r"
  unfolding keyset_page_def by (drule in_set_takeD) simp

lemma keyset_page_empty:
  assumes "keyset_page idf inStatus rows a limit = []" "r \<in> set rows" "inStatus r"
  shows "\<not> coalesce a < idf r"
proof
  assume "coalesce a < idf r"
  then have "r \<in> set (sort_key idf (filter (\<lambda>r. inStatus r \<and> coalesce a < idf r) rows))" using assms(2,3) by simp
  moreover have "max 1 limit \<noteq> 0" by simp
  ultimately show False using assms(1) unfolding keyset_page_def take_eq_Nil by (metis empty_iff empty_set)
qed

lemma keyset_page_beyond:
  assumes "distinct (map idf rows)" "r \<in> set rows" "inStatus r" "coalesce a < idf r"
    and "keyset_page idf inStatus rows a limit \<noteq> []" "r \<notin> set (keyset_page idf inStatus rows a limit)"
  shows "idf (last (keyset_page idf inStatus rows a limit)) < idf r"
proof -
  let ?S = "sort_key idf (filter (\<lambda>r. inStatus r \<and> coalesce a < idf r) rows)"
  let ?page = "take (max 1 limit) ?S" and ?rest = "drop (max 1 limit) ?S"
  have p: "keyset_page idf inStatus rows a limit = ?page" by (simp add: keyset_page_def)
  have "r \<in> set (?page @ ?rest)" using assms(2-4) by (simp only: append_take_drop_id) simp
  then have rest: "r \<in> set ?rest" using assms(6) unfolding p set_append by blast
  have "sorted (map idf (?page @ ?rest))" by (simp only: append_take_drop_id) simp
  then have "idf (last ?page) \<le> idf r" using rest assms(5) unfolding p map_append sorted_append by simp
  moreover have "idf (last ?page) \<noteq> idf r"
  proof
    assume e: "idf (last ?page) = idf r"
    have l: "last ?page \<in> set ?page" using assms(5) unfolding p by (rule last_in_set)
    then have "last ?page \<in> set rows" using keyset_page_mem [of _ idf inStatus rows a limit] unfolding p by blast
    then have "last ?page = r" using e assms(1,2) by (metis distinct_map inj_onD)
    then show False using l assms(6) unfolding p by simp
  qed
  ultimately show ?thesis unfolding p by simp
qed

lemma keyset_page_fewer:
  assumes "keyset_page idf inStatus rows a limit \<noteq> []"
  shows "length (filter (\<lambda>r. inStatus r \<and> coalesce (Some (idf (last (keyset_page idf inStatus rows a limit)))) < idf r) rows) <
    length (filter (\<lambda>r. inStatus r \<and> coalesce a < idf r) rows)"
proof -
  let ?l = "last (keyset_page idf inStatus rows a limit)"
  have l: "?l \<in> set rows" "inStatus ?l" "coalesce a < idf ?l" using keyset_page_mem [OF last_in_set [OF assms]] by auto
  let ?P = "\<lambda>r. inStatus r \<and> coalesce (Some (idf ?l)) < idf r" and ?Q = "\<lambda>r. inStatus r \<and> coalesce a < idf r"
  have f: "filter ?P rows = filter ?P (filter ?Q rows)" using l(3) by (auto simp: coalesce_def intro!: filter_cong split: option.splits)
  have "?l \<in> set (filter ?Q rows)" "\<not> ?P ?l" using l by (auto simp: coalesce_def)
  then have "length (filter ?P (filter ?Q rows)) < length (filter ?Q rows)" by (rule length_filter_less)
  then show ?thesis unfolding f .
qed

subsection \<open>What the scans leave alone\<close>

definition has_job :: "portal_db \<Rightarrow> string \<Rightarrow> bool" where
  "has_job db subjectId \<longleftrightarrow> list_ex (\<lambda>j. jb_subject_id j = subjectId) (db_jobs db)"

text \<open>An assertion that further jobs do not disturb.\<close>

definition grows :: "(portal_db \<Rightarrow> bool) \<Rightarrow> bool" where
  "grows D \<longleftrightarrow> (\<forall>db j. D db \<longrightarrow> D (db\<lparr>db_jobs := db_jobs db @ [j]\<rparr>))"

lemma enqueueIfAbsent_result:
  assumes "accessGatewayJobs_enqueueIfAbsent newId generation ji now db = Inr (queued, db')"
  shows "db' = (if queued then db\<lparr>db_jobs := db_jobs db @ [job_row newId generation ji Job_Pending now]\<rparr> else db) \<and>
    queued = (\<not> has_job db (ji_subject_id ji)) \<and> has_job db' (ji_subject_id ji)"
  using assms by (auto simp: accessGatewayJobs_enqueueIfAbsent_def has_job_def job_row_def split: if_splits)

lemma enqueue_tx_keeps: "grows D \<Longrightarrow> tx_keeps D (accessGatewayJobs_enqueueIfAbsent newId generation ji now)"
  by (rule tx_keepsI) (metis enqueueIfAbsent_result grows_def)

lemma hoare_enqueue:
  assumes "stable env (\<lambda>w. D (w_db w))" "grows D"
  shows "hoare env (\<lambda>w. D (w_db w)) (enqueue ji) (\<lambda>_ w. D (w_db w) \<and> has_job (w_db w) (ji_subject_id ji)) (\<lambda>_ w. D (w_db w))"
proof -
  have "hoare env (\<lambda>w. D (w_db w)) (io_tx (accessGatewayJobs_enqueueIfAbsent newId generation ji now))
      (\<lambda>_ w. D (w_db w) \<and> has_job (w_db w) (ji_subject_id ji)) (\<lambda>_ w. D (w_db w))" for newId generation now
    by (rule hoare_tx [OF assms(1)])
       (use enqueueIfAbsent_result tx_keepsD [OF enqueue_tx_keeps [OF assms(2)]] in \<open>auto simp: Let_def\<close>)
  then show ?thesis unfolding enqueue_def
    by (intro hoare_keeps [OF keeps_now [OF assms(1)]] hoare_keeps [OF keeps_newId [OF assms(1)]]) auto
qed

lemma enqueue_keeps:
  assumes "stable env (\<lambda>w. D (w_db w))" "grows D"
  shows "keeps env (\<lambda>w. D (w_db w)) (enqueue ji)"
  unfolding keeps_def by (rule hoare_weaken [OF hoare_enqueue [OF assms]]) auto

lemma repair_grant_keeps:
  assumes "stable env (\<lambda>w. D (w_db w))" "grows D"
  shows "keeps env (\<lambda>w. D (w_db w)) (repair_grant g s)"
  unfolding repair_grant_def Let_def by (intro keeping keeps_read enqueue_keeps assms)

lemma repair_request_keeps:
  assumes "stable env (\<lambda>w. D (w_db w))" "grows D"
  shows "keeps env (\<lambda>w. D (w_db w)) (repair_request fuel r s)"
  unfolding repair_request_def grantMadeFrom_def by (intro keeping keeps_read pages_some_keeps enqueue_keeps assms)

lemma scan_grants_keeps:
  assumes "stable env (\<lambda>w. D (w_db w))" "grows D"
  shows "keeps env (\<lambda>w. D (w_db w)) (scan_grants fuel pageSize s)"
  unfolding scan_grants_def by (intro keyset_keeps keeps_read repair_grant_keeps assms)

lemma scan_requests_keeps:
  assumes "stable env (\<lambda>w. D (w_db w))" "grows D"
  shows "keeps env (\<lambda>w. D (w_db w)) (scan_requests fuel pageSize s)"
  unfolding scan_requests_def by (intro keyset_keeps keeps_read repair_request_keeps assms)

subsection \<open>Stranded grants\<close>

type_synonym identity_key = "string \<times> string \<times> string option"

definition of_key :: "identity_key \<Rightarrow> portal_db \<Rightarrow> grant list" where
  "of_key k db = filter (\<lambda>g. identityKey g = k) (db_grants db)"

definition owner_known :: "identity_key \<Rightarrow> portal_db \<Rightarrow> bool" where
  "owner_known k db = (case k of (apiId, userId, app) \<Rightarrow>
     consumers_findByUser db userId app \<noteq> None \<and> users_findById db userId \<noteq> None)"

definition grants_queued :: "identity_key \<Rightarrow> portal_db \<Rightarrow> bool" where
  "grants_queued k db \<longleftrightarrow> (\<exists>g\<in>set (of_key k db). has_job db (gr_id g))"

text \<open>The identity has had the API and has it no longer.\<close>

definition stranded :: "identity_key \<Rightarrow> portal_db \<Rightarrow> bool" where
  "stranded k db \<longleftrightarrow> of_key k db \<noteq> [] \<and> (\<forall>g\<in>set (of_key k db). gr_status g = Gr_Revoked \<and> gr_id g \<noteq> []) \<and>
     owner_known k db \<and> distinct (map gr_id (db_grants db))"

text \<open>The others leave the identity alone, and the worker has not finished its job yet.\<close>

definition minds_grants :: "identity_key \<Rightarrow> env \<Rightarrow> bool" where
  "minds_grants k env \<longleftrightarrow> (\<forall>n db. of_key k (e_other env n db) = of_key k db \<and>
     (owner_known k db \<longrightarrow> owner_known k (e_other env n db)) \<and>
     (grants_queued k db \<longrightarrow> grants_queued k (e_other env n db)) \<and>
     (distinct (map gr_id (db_grants db)) \<longrightarrow> distinct (map gr_id (db_grants (e_other env n db)))))"

definition waits :: "identity_key \<Rightarrow> grant list \<Rightarrow> portal_db \<Rightarrow> bool" where
  "waits k G db \<longleftrightarrow> of_key k db = G \<and> owner_known k db \<and> distinct (map gr_id (db_grants db))"

lemma stable_waits:
  assumes "minds_grants k env"
  shows "stable env (\<lambda>w. waits k G (w_db w))" "stable env (\<lambda>w. waits k G (w_db w) \<and> grants_queued k (w_db w))"
  using assms by (auto intro!: stableI simp: waits_def minds_grants_def)

lemma grows_waits: "grows (waits k G)" "grows (\<lambda>db. waits k G db \<and> grants_queued k db)"
  by (auto simp: grows_def waits_def of_key_def owner_known_def grants_queued_def has_job_def consumers_findByUser_def
      users_findById_def split: prod.splits)

lemma no_active:
  assumes "waits k G db" "\<forall>g\<in>set G. gr_status g = Gr_Revoked" "k = (a, u, p)"
  shows "grants_findActiveByApiAndUser db a u p = None"
  using assms by (auto simp: grants_findActiveByApiAndUser_def find_None_iff waits_def of_key_def identityKey_def)

text \<open>One grant of the scan: if the identity was seen, it is queued by now; if not, none of its grants
  was met yet.\<close>

definition met :: "identity_key \<Rightarrow> grant list \<Rightarrow> grant list \<Rightarrow> grant_scan \<Rightarrow> world \<Rightarrow> bool" where
  "met k G past s w \<longleftrightarrow> waits k G (w_db w) \<and>
     (if k \<in> set (fst s) then grants_queued k (w_db w) else \<forall>x\<in>set past. identityKey x \<noteq> k)"

lemma hoare_first_grant:
  assumes env: "minds_grants k env" and G: "\<forall>g\<in>set G. gr_status g = Gr_Revoked" "r \<in> set G" "identityKey r = k"
    and "k \<notin> set seen"
  shows "hoare env (\<lambda>w. waits k G (w_db w)) (repair_grant r (seen, result))
    (\<lambda>s w. k \<in> set (fst s) \<and> waits k G (w_db w) \<and> grants_queued k (w_db w)) (\<lambda>_ _. True)"
proof -
  let ?W = "\<lambda>w. waits k G (w_db w)" and ?Q = "\<lambda>s w. k \<in> set (fst s) \<and> waits k G (w_db w) \<and> grants_queued k (w_db w)"
  note st = stable_waits(1) [OF env, of G]
  have k: "k = (gr_api_id r, gr_user_id r, gr_application_id r)" using G(3) by (simp add: identityKey_def)
  have q: "hoare env ?W (enqueue (revoke_input r)) (\<lambda>_ w. ?W w \<and> grants_queued k (w_db w)) (\<lambda>_ _. True)"
    by (rule hoare_weaken [OF hoare_enqueue [OF st grows_waits(1)]])
       (use G(2) in \<open>auto simp: revoke_input_def grants_queued_def waits_def\<close>)
  have active: "hoare env ?W (io_read (\<lambda>db. grants_findActiveByApiAndUser db (gr_api_id r) (gr_user_id r) (gr_application_id r)))
      (\<lambda>x w. ?W w \<and> x = None) (\<lambda>_ _. True)"
    by (rule hoare_read [OF st]) (use no_active [OF _ G(1) k] in auto)
  have consumer: "hoare env ?W (io_read (\<lambda>db. consumers_findByUser db (gr_user_id r) (gr_application_id r)))
      (\<lambda>x w. ?W w \<and> x \<noteq> None) (\<lambda>_ _. True)"
    and user: "hoare env ?W (io_read (\<lambda>db. users_findById db (gr_user_id r))) (\<lambda>x w. ?W w \<and> x \<noteq> None) (\<lambda>_ _. True)"
    by (rule hoare_read [OF st]; simp add: waits_def owner_known_def k)+
  have notin: "identityKey r \<notin> set seen" using assms(5) G(3) by simp
  have step4: "hoare env (\<lambda>w. ?W w \<and> x \<noteq> None) (if x = None then io_return (seen @ [identityKey r], result)
      else io_bind (enqueue (revoke_input r)) (\<lambda>queued. io_return (seen @ [identityKey r],
        if queued then result\<lparr>rr_revocations := Suc (rr_revocations result)\<rparr> else result))) ?Q (\<lambda>_ _. True)" for x :: "user option"
    by (cases x, simp add: hoare_def, simp only: simp_thms option.simps if_False, rule hoare_bind [OF q], rule hoare_return) (simp add: G(3))
  have step3: "hoare env (\<lambda>w. ?W w \<and> x \<noteq> None) (if x = None then m else io_bind (io_read (\<lambda>db. users_findById db (gr_user_id r))) k1) ?Q
      (\<lambda>_ _. True)" if "\<And>y. hoare env (\<lambda>w. ?W w \<and> y \<noteq> None) (k1 y) ?Q (\<lambda>_ _. True)" for x :: "consumer option" and m k1
    by (cases x, simp add: hoare_def, simp only: simp_thms option.simps if_False, rule hoare_bind [OF user that])
  have step2: "hoare env (\<lambda>w. ?W w \<and> x = None) (if x \<noteq> None then m
      else io_bind (io_read (\<lambda>db. consumers_findByUser db (gr_user_id r) (gr_application_id r))) k1) ?Q
      (\<lambda>_ _. True)" if "\<And>y. hoare env (\<lambda>w. ?W w \<and> y \<noteq> None) (k1 y) ?Q (\<lambda>_ _. True)" for x :: "grant option" and m k1
    by (cases x, simp only: simp_thms option.simps if_False, rule hoare_bind [OF consumer that], simp add: hoare_def)
  show ?thesis unfolding repair_grant_def Let_def prod.case if_not_P [OF notin]
    by (rule hoare_bind [OF active], intro step2 step3 step4)
qed

lemma hoare_seen:
  "hoare env (\<lambda>_. True) (repair_grant r (seen, result))
     (\<lambda>s _. set (fst s) = insert (identityKey r) (set seen)) (\<lambda>_ _. True)"
  unfolding repair_grant_def Let_def prod.case
  by (intro hoare_if hoare_bind [OF any_step] hoare_return) auto

lemma hoare_repair_grant:
  assumes env: "minds_grants k env" and G: "\<forall>g\<in>set G. gr_status g = Gr_Revoked" "identityKey r = k \<Longrightarrow> r \<in> set G"
  shows "hoare env (met k G past s) (repair_grant r s) (met k G (past @ [r])) (\<lambda>_ _. True)"
proof -
  obtain seen result where s: "s = (seen, result)" by (cases s)
  note kept = hoare_conj [OF hoare_seen keepsD [OF repair_grant_keeps]]
  consider "k \<in> set seen" | "k \<notin> set seen" "identityKey r = k" | "k \<notin> set seen" "identityKey r \<noteq> k" by blast
  then show ?thesis unfolding s
  proof cases
    case 1
    then show "hoare env (met k G past (seen, result)) (repair_grant r (seen, result)) (met k G (past @ [r])) (\<lambda>_ _. True)"
      by (intro hoare_weaken [OF kept [OF stable_waits(2) [OF env] grows_waits(2)]]) (auto simp: met_def)
  next
    case 2
    then show "hoare env (met k G past (seen, result)) (repair_grant r (seen, result)) (met k G (past @ [r])) (\<lambda>_ _. True)"
      by (intro hoare_weaken [OF hoare_first_grant [OF env G(1) G(2) [OF 2(2)] 2(2,1)]]) (auto simp: met_def)
  next
    case 3
    show "hoare env (met k G past (seen, result)) (repair_grant r (seen, result)) (met k G (past @ [r])) (\<lambda>_ _. True)"
      by (rule hoare_pre, rule hoare_weaken [OF kept [OF stable_waits(1) [OF env] grows_waits(1)]])
         (use 3 in \<open>auto simp: met_def\<close>)
  qed
qed

lemma hoare_scanned:
  assumes env: "minds_grants k env" and G: "\<forall>g\<in>set G. gr_status g = Gr_Revoked" "\<And>r. r \<in> set page \<Longrightarrow> identityKey r = k \<Longrightarrow> r \<in> set G"
  shows "hoare env (met k G [] s) (each repair_grant page s) (\<lambda>s' w. met k G page s' w \<and> set (fst s) \<subseteq> set (fst s')) (\<lambda>_ _. True)"
proof -
  let ?J = "\<lambda>past s' w. met k G past s' w \<and> set (fst s) \<subseteq> set (fst s')"
  have "hoare env (?J past s') (repair_grant r s') (?J (past @ [r])) (\<lambda>_ _. True)" if "r \<in> set page" for past r s'
  proof -
    have seen: "hoare env (\<lambda>_. set (fst s) \<subseteq> set (fst s')) (repair_grant r s') (\<lambda>s1 _. set (fst s) \<subseteq> set (fst s1)) (\<lambda>_ _. True)"
      by (cases s', rule hoare_pre, simp, rule hoare_weaken [OF hoare_seen]) auto
    show ?thesis
      by (rule hoare_weaken [OF hoare_conj [OF hoare_repair_grant [OF env G(1) G(2) [OF that]] seen]]) auto
  qed
  then have "hoare env (?J [] s) (each repair_grant page s) (?J ([] @ page)) (\<lambda>_ _. True)" by (rule hoare_each)
  then show ?thesis by (rule hoare_weaken) auto
qed

lemma hoare_scan_grants:
  assumes env: "minds_grants k env" and G: "G \<noteq> []" "\<forall>g\<in>set G. gr_status g = Gr_Revoked \<and> gr_id g \<noteq> []"
  shows "hoare env (\<lambda>w. waits k G (w_db w)) (scan_grants fuel pageSize ([], result))
    (\<lambda>_ w. waits k G (w_db w) \<and> grants_queued k (w_db w)) (\<lambda>_ _. True)"
proof -
  let ?page = "\<lambda>rows a. keyset_page gr_id (\<lambda>g. gr_status g = Gr_Revoked) rows a pageSize"
  let ?K = "\<lambda>n a s w. waits k G (w_db w) \<and>
      (if k \<in> set (fst s) then grants_queued k (w_db w) else \<forall>g\<in>set G. coalesce a < gr_id g)"
  let ?fits = "\<lambda>page a. \<exists>rows. page = ?page rows a \<and> distinct (map gr_id rows) \<and> filter (\<lambda>g. identityKey g = k) rows = G"
  let ?R = "\<lambda>n page a s w. ?K n a s w \<and> ?fits page a"
  have K: "stable env (?K n a s)" for n a s
    using stable_waits [OF env, of G] by (cases "k \<in> set (fst s)") (auto simp: stable_def)
  have "hoare env (?K 0 None ([], result)) (scan_grants fuel pageSize ([], result))
      (\<lambda>_ w. waits k G (w_db w) \<and> grants_queued k (w_db w)) (\<lambda>_ _. True)"
    unfolding scan_grants_def
  proof (rule hoare_keyset [where K = ?K and R = ?R])
    show "hoare env (?K (Suc n) a s) (io_read (\<lambda>db. grants_pageByStatus db Gr_Revoked a pageSize)) (\<lambda>page. ?R n page a s) (\<lambda>_ _. True)" for n a s
      by (rule hoare_read [OF K]) (auto simp: grants_pageByStatus_def waits_def of_key_def)
    show "waits k G (w_db w) \<and> grants_queued k (w_db w)" if R: "?R n [] a s w" for n a s w
    proof -
      obtain rows where rows: "?page rows a = []" "filter (\<lambda>g. identityKey g = k) rows = G" using R by metis
      obtain g where g: "g \<in> set G" using G(1) by (cases G) auto
      then have "g \<in> set rows" using rows(2) by auto
      then have "\<not> coalesce a < gr_id g" using keyset_page_empty [OF rows(1)] G(2) g by blast
      then show ?thesis using R g by (auto split: if_splits)
    qed
    show "hoare env (?R n page a s) (each repair_grant page s) (\<lambda>s'. ?K n (Some (gr_id (last page))) s') (\<lambda>_ _. True)"
      if ne: "page \<noteq> []" for n page a s
    proof (rule hoare_pre)
      fix w
      assume R: "?R n page a s w"
      then obtain rows where rows: "page = ?page rows a" "distinct (map gr_id rows)" "filter (\<lambda>g. identityKey g = k) rows = G" by auto
      have inG: "r \<in> set G" if "r \<in> set page" "identityKey r = k" for r
        using keyset_page_mem [of r gr_id "\<lambda>g. gr_status g = Gr_Revoked" rows a pageSize] that rows by auto
      have beyond: "gr_id (last page) < gr_id g" if "\<forall>x\<in>set page. identityKey x \<noteq> k" "g \<in> set G" "coalesce a < gr_id g" for g
      proof -
        have g: "g \<in> set rows" "gr_status g = Gr_Revoked" "identityKey g = k" using that(2) rows(3) G(2) by auto
        have "g \<notin> set page" using that(1) g(3) by blast
        then show ?thesis using keyset_page_beyond [OF rows(2) g(1), of "\<lambda>g. gr_status g = Gr_Revoked" a pageSize] g(2) that(3) ne
          by (simp add: rows(1))
      qed
      have "hoare env (met k G [] s) (each repair_grant page s) (\<lambda>s' w. met k G page s' w \<and> set (fst s) \<subseteq> set (fst s')) (\<lambda>_ _. True)"
        by (rule hoare_scanned [OF env]) (use G(2) inG in auto)
      then show "hoare env (?R n page a s) (each repair_grant page s) (\<lambda>s'. ?K n (Some (gr_id (last page))) s') (\<lambda>_ _. True)"
      proof (rule hoare_weaken)
        show "met k G [] s v" if "?R n page a s v" for v using that by (simp add: met_def)
        have ahead: "\<forall>g\<in>set G. coalesce a < gr_id g" if "k \<notin> set (fst s)" using R that by simp
        show "?K n (Some (gr_id (last page))) s' v" if m: "met k G page s' v \<and> set (fst s) \<subseteq> set (fst s')" for s' v
        proof (cases "k \<in> set (fst s')")
          case False
          then have "\<forall>x\<in>set page. identityKey x \<noteq> k" using m by (simp add: met_def)
          then have "\<forall>g\<in>set G. gr_id (last page) < gr_id g" using beyond ahead m False by blast
          then show ?thesis using m False by (simp add: met_def coalesce_def)
        qed (use m in \<open>simp add: met_def\<close>)
      qed
    qed
  qed simp
  then show ?thesis using G(2) by (elim hoare_weaken) (auto simp: coalesce_def nonempty_positive)
qed

subsection \<open>Approved requests without a grant\<close>

definition unmade :: "access_request \<Rightarrow> portal_db \<Rightarrow> bool" where
  "unmade q db \<longleftrightarrow> q \<in> set (db_requests db) \<and> rq_status q = Rq_Approved \<and> rq_grant_id q = None \<and> rq_id q \<noteq> [] \<and>
     distinct (map rq_id (db_requests db)) \<and> users_findById db (rq_user_id q) \<noteq> None \<and>
     (\<forall>g\<in>set (of_key (rq_api_id q, rq_user_id q, rq_application_id q) db). gr_access_request_id g \<noteq> Some (rq_id q))"

text \<open>The others leave the request and its identity alone, and the worker has not finished its job yet.\<close>

definition minds_request :: "access_request \<Rightarrow> env \<Rightarrow> bool" where
  "minds_request q env \<longleftrightarrow> (\<forall>n db. (unmade q db \<longrightarrow> unmade q (e_other env n db)) \<and>
     (has_job db (rq_id q) \<longrightarrow> has_job (e_other env n db) (rq_id q)))"

lemma stable_unmade:
  assumes "minds_request q env"
  shows "stable env (\<lambda>w. unmade q (w_db w))" "stable env (\<lambda>w. unmade q (w_db w) \<and> has_job (w_db w) (rq_id q))"
  using assms by (auto intro!: stableI simp: minds_request_def)

lemma grows_unmade: "grows (unmade q)" "grows (\<lambda>db. unmade q db \<and> has_job db k)"
  by (auto simp: grows_def unmade_def of_key_def has_job_def users_findById_def)

lemma hoare_pages_none:
  assumes "\<And>o1. hoare env I (read o1) (\<lambda>x w. I w \<and> \<not> list_ex P (fst x)) (\<lambda>_ _. True)"
  shows "hoare env I (pages_some n read P offset) (\<lambda>b w. I w \<and> \<not> b) (\<lambda>_ _. True)"
proof (induction n arbitrary: offset)
  case (Suc n)
  have go: "hoare env (\<lambda>w. I w \<and> \<not> list_ex P (fst x)) (case x of (items, count) \<Rightarrow>
      if list_ex P items then io_return True
      else (let next1 = offset + length items
            in if items = [] \<or> count \<le> next1 then io_return False else pages_some n read P next1))
      (\<lambda>b w. I w \<and> \<not> b) (\<lambda>_ _. True)" for x
  proof (cases x)
    case (Pair items count)
    show ?thesis unfolding Pair prod.case fst_conv Let_def
      by (rule hoare_pure) (auto intro: hoare_return Suc.IH)
  qed
  show ?case unfolding pages_some.simps by (rule hoare_bind [OF assms go])
qed (simp add: hoare_throw)

lemma grants_list_identity_mem:
  "g \<in> set (fst (grants_list_identity db a u p l o1)) \<Longrightarrow> g \<in> set (of_key (a, u, p) db)"
  by (auto simp: grants_list_identity_def Let_def of_key_def identityKey_def dest!: in_set_takeD in_set_dropD)

lemma hoare_repair_unmade:
  assumes env: "minds_request q env"
  shows "hoare env (\<lambda>w. unmade q (w_db w)) (repair_request fuel q result)
    (\<lambda>_ w. unmade q (w_db w) \<and> has_job (w_db w) (rq_id q)) (\<lambda>_ _. True)"
proof -
  let ?U = "\<lambda>w. unmade q (w_db w)" and ?Q = "\<lambda>_ w. unmade q (w_db w) \<and> has_job (w_db w) (rq_id q)"
  note st = stable_unmade(1) [OF env]
  have made: "hoare env ?U (grantMadeFrom fuel q) (\<lambda>b w. ?U w \<and> \<not> b) (\<lambda>_ _. True)"
    unfolding grantMadeFrom_def
    by (rule hoare_pages_none, rule hoare_read [OF st])
       (auto simp: list_ex_iff unmade_def dest!: grants_list_identity_mem)
  have user: "hoare env ?U (io_read (\<lambda>db. users_findById db (rq_user_id q))) (\<lambda>x w. ?U w \<and> x \<noteq> None) (\<lambda>_ _. True)"
    by (rule hoare_read [OF st]) (auto simp: unmade_def)
  have q: "hoare env ?U (enqueue (approve_input q)) ?Q (\<lambda>_ _. True)"
    by (rule hoare_weaken [OF hoare_enqueue [OF st grows_unmade(1)]]) (auto simp: approve_input_def)
  have last: "hoare env (\<lambda>w. ?U w \<and> x \<noteq> None) (if x = None then io_return result
      else io_bind (enqueue (approve_input q)) (\<lambda>queued.
        io_return (if queued then result\<lparr>rr_approvals := Suc (rr_approvals result)\<rparr> else result))) ?Q (\<lambda>_ _. True)" for x :: "user option"
    by (cases x, simp add: hoare_def, simp only: simp_thms option.simps if_False, rule hoare_bind [OF q], rule hoare_return) simp
  have mid: "hoare env (\<lambda>w. ?U w \<and> \<not> b) (if b then m else io_bind (io_read (\<lambda>db. users_findById db (rq_user_id q))) k1) ?Q (\<lambda>_ _. True)"
    if "\<And>y. hoare env (\<lambda>w. ?U w \<and> y \<noteq> None) (k1 y) ?Q (\<lambda>_ _. True)" for b m k1
    by (cases b, simp add: hoare_def, simp only: simp_thms if_False, rule hoare_bind [OF user that])
  show ?thesis
  proof (rule hoare_pre)
    fix w
    assume "?U w"
    then have "rq_grant_id q = None" by (simp add: unmade_def)
    then show "hoare env ?U (repair_request fuel q result) ?Q (\<lambda>_ _. True)"
      unfolding repair_request_def by (simp only: simp_thms if_False) (intro hoare_bind [OF made] mid last)
  qed
qed

definition noted :: "access_request \<Rightarrow> access_request list \<Rightarrow> world \<Rightarrow> bool" where
  "noted q past w \<longleftrightarrow> unmade q (w_db w) \<and> (q \<in> set past \<longrightarrow> has_job (w_db w) (rq_id q))"

lemma hoare_repair_request:
  assumes env: "minds_request q env"
  shows "hoare env (noted q past) (repair_request fuel r s) (\<lambda>_. noted q (past @ [r])) (\<lambda>_ _. True)"
proof (cases "q \<in> set past")
  case True
  then show ?thesis
    by (intro hoare_weaken [OF keepsD [OF repair_request_keeps [OF stable_unmade(2) [OF env] grows_unmade(2)]]])
       (auto simp: noted_def)
next
  case False
  show ?thesis
  proof (cases "r = q")
    case True
    then show ?thesis by (auto simp: noted_def intro!: hoare_weaken [OF hoare_repair_unmade [OF env]])
  next
    case False
    then show ?thesis using \<open>q \<notin> set past\<close>
      by (intro hoare_weaken [OF keepsD [OF repair_request_keeps [OF stable_unmade(1) [OF env] grows_unmade(1)]]])
         (auto simp: noted_def)
  qed
qed

lemma hoare_scan_requests:
  assumes env: "minds_request q env"
  shows "hoare env (\<lambda>w. unmade q (w_db w)) (scan_requests fuel pageSize s)
    (\<lambda>_ w. has_job (w_db w) (rq_id q)) (\<lambda>_ _. True)"
proof -
  let ?page = "\<lambda>rows a. keyset_page rq_id (\<lambda>r. rq_status r = Rq_Approved) rows a pageSize"
  let ?K = "\<lambda>n a s w. unmade q (w_db w) \<and> (has_job (w_db w) (rq_id q) \<or> coalesce a < rq_id q)"
  let ?fits = "\<lambda>page a. \<exists>rows. page = ?page rows a \<and> distinct (map rq_id rows) \<and> q \<in> set rows \<and> rq_status q = Rq_Approved"
  let ?R = "\<lambda>n page a s w. ?K n a s w \<and> ?fits page a"
  have K: "stable env (?K n a s)" for n a and s :: repair_result
    using stable_unmade [OF env] unfolding stable_def by blast
  have "hoare env (?K 0 None s) (scan_requests fuel pageSize s) (\<lambda>_ w. has_job (w_db w) (rq_id q)) (\<lambda>_ _. True)"
    unfolding scan_requests_def
  proof (rule hoare_keyset [where K = ?K and R = ?R])
    show "hoare env (?K (Suc n) a s) (io_read (\<lambda>db. accessRequests_pageByStatus db Rq_Approved a pageSize)) (\<lambda>page. ?R n page a s) (\<lambda>_ _. True)" for n a s
      by (rule hoare_read [OF K]) (auto simp: accessRequests_pageByStatus_def unmade_def)
    show "has_job (w_db w) (rq_id q)" if R: "?R n [] a s w" for n a s w
    proof -
      obtain rows where "?page rows a = []" "q \<in> set rows" "rq_status q = Rq_Approved" using R by metis
      then have "\<not> coalesce a < rq_id q" by (rule keyset_page_empty)
      then show ?thesis using R by blast
    qed
    show "hoare env (?R n page a s) (each (repair_request fuel) page s) (\<lambda>s'. ?K n (Some (rq_id (last page))) s') (\<lambda>_ _. True)"
      if ne: "page \<noteq> []" for n page a s
    proof (rule hoare_pre)
      fix w
      assume R: "?R n page a s w"
      then obtain rows where rows: "page = ?page rows a" "distinct (map rq_id rows)" "q \<in> set rows" "rq_status q = Rq_Approved" by auto
      have beyond: "q \<in> set page \<or> rq_id (last page) < rq_id q" if "coalesce a < rq_id q"
        using keyset_page_beyond [OF rows(2,3), of "\<lambda>r. rq_status r = Rq_Approved" a pageSize] rows(1,4) that ne by blast
      show "hoare env (?R n page a s) (each (repair_request fuel) page s) (\<lambda>s'. ?K n (Some (rq_id (last page))) s') (\<lambda>_ _. True)"
      proof (cases "coalesce a < rq_id q")
        case True
        have "hoare env (noted q []) (each (repair_request fuel) page s) (\<lambda>_. noted q ([] @ page)) (\<lambda>_ _. True)"
          by (rule hoare_each [where J = "\<lambda>past _. noted q past"]) (rule hoare_repair_request [OF env])
        then show ?thesis by (rule hoare_weaken) (use beyond [OF True] in \<open>auto simp: noted_def coalesce_def\<close>)
      next
        case False
        have "keeps env (\<lambda>w. unmade q (w_db w) \<and> has_job (w_db w) (rq_id q)) (each (repair_request fuel) page s)"
          by (rule each_keeps, rule repair_request_keeps [OF stable_unmade(2) [OF env] grows_unmade(2)])
        then show ?thesis unfolding keeps_def by (rule hoare_weaken) (use False in auto)
      qed
    qed
  qed simp
  then show ?thesis by (elim hoare_weaken) (auto simp: coalesce_def unmade_def nonempty_positive)
qed

subsection \<open>Nothing is missed\<close>

lemma audited:
  "waits k G (db\<lparr>db_audit := rows\<rparr>) = waits k G db" "grants_queued k (db\<lparr>db_audit := rows\<rparr>) = grants_queued k db"
  by (simp_all add: waits_def grants_queued_def of_key_def owner_known_def has_job_def consumers_findByUser_def
      users_findById_def split: prod.splits)

lemma record_keeps:
  assumes "stable env (\<lambda>w. D (w_db w))" "\<And>db rows. D db \<Longrightarrow> D (db\<lparr>db_audit := rows\<rparr>)"
  shows "keeps env (\<lambda>w. D (w_db w)) (io_bind io_now (\<lambda>now. io_tx (record_repair r now)))"
proof -
  have "tx_keeps D (record_repair r now)" for now
    unfolding record_repair_def by (intro keeping, rule tx_keepsI) (auto simp: tx_simps auditLogs_create_def assms(2))
  then show ?thesis by (intro keeping keeps_now keeps_tx assms(1))
qed

lemma hoare_queue:
  assumes st: "stable env P" and "\<And>w. P w \<Longrightarrow> A w"
    and grants: "hoare env A (scan_grants fuel pageSize ([], \<lparr>rr_alreadyRecorded = False, rr_revocations = 0, rr_approvals = 0\<rparr>))
      (\<lambda>_. B) (\<lambda>_ _. True)"
    and requests: "\<And>r. hoare env B (scan_requests fuel pageSize r) (\<lambda>_ w. D (w_db w)) (\<lambda>_ _. True)"
    and rest: "stable env (\<lambda>w. D (w_db w))" "\<And>db rows. D db \<Longrightarrow> D (db\<lparr>db_audit := rows\<rparr>)"
  shows "hoare env P (queueStrandedAccessRepairs fuel pageSize) (\<lambda>r w. rr_alreadyRecorded r \<or> D (w_db w)) (\<lambda>_ _. True)"
proof -
  let ?Q = "\<lambda>r w. rr_alreadyRecorded r \<or> D (w_db w)"
  have last: "hoare env (\<lambda>w. D (w_db w)) (io_bind io_now (\<lambda>now. io_tx (record_repair r now))) ?Q (\<lambda>_ _. True)" for r
    by (rule hoare_weaken [OF keepsD [OF record_keeps [OF rest]]]) auto
  have tail: "hoare env B (case x of (seen, r1) \<Rightarrow> io_bind (scan_requests fuel pageSize r1) (\<lambda>r2.
      io_bind io_now (\<lambda>now. io_tx (record_repair r2 now)))) ?Q (\<lambda>_ _. True)" for x :: grant_scan
    by (cases x, simp only: prod.case, rule hoare_bind [OF requests last])
  have read: "hoare env P (io_read repairRecorded) (\<lambda>_. P) (\<lambda>_ _. True)" by (rule hoare_read [OF st]) auto
  have go: "hoare env A (io_bind (scan_grants fuel pageSize ([], \<lparr>rr_alreadyRecorded = False, rr_revocations = 0, rr_approvals = 0\<rparr>))
      (\<lambda>(seen, r1). io_bind (scan_requests fuel pageSize r1) (\<lambda>r2. io_bind io_now (\<lambda>now. io_tx (record_repair r2 now))))) ?Q (\<lambda>_ _. True)"
    by (rule hoare_bind [OF grants tail])
  show ?thesis unfolding queueStrandedAccessRepairs_def
    by (rule hoare_lock [OF st], simp, rule hoare_bind [OF read], rule hoare_if, rule hoare_return, simp, rule hoare_weaken [OF go])
       (auto simp: assms(2))
qed

text \<open>
  C25. The repair misses nothing. When a run returns as the one that did the work, every identity whose
  grants for an API are all revoked, and every approved request no grant was made from, has a job by
  then, in however many pages they were found and whatever happened to the other rows in between: the
  others may grant, revoke, create and delete around the scan. (They leave the identity or the request in
  question alone, and its job is not finished yet.)
\<close>

theorem repair_misses_nothing:
  assumes "queueStrandedAccessRepairs fuel pageSize env w = (Inr r, w')" "\<not> rr_alreadyRecorded r"
  shows "(stranded k (w_db w) \<and> minds_grants k env \<longrightarrow> grants_queued k (w_db w')) \<and>
    (unmade q (w_db w) \<and> minds_request q env \<longrightarrow> has_job (w_db w') (rq_id q))"
proof (intro conjI impI)
  assume k: "stranded k (w_db w) \<and> minds_grants k env"
  let ?G = "of_key k (w_db w)" and ?D = "\<lambda>G db. waits k G db \<and> grants_queued k db"
  have env: "minds_grants k env" and G: "?G \<noteq> []" "\<forall>g\<in>set ?G. gr_status g = Gr_Revoked \<and> gr_id g \<noteq> []"
    and w: "waits k ?G (w_db w)" using k by (auto simp: stranded_def waits_def)
  have "hoare env (\<lambda>w. waits k ?G (w_db w)) (queueStrandedAccessRepairs fuel pageSize)
      (\<lambda>r w1. rr_alreadyRecorded r \<or> ?D ?G (w_db w1)) (\<lambda>_ _. True)"
  proof (rule hoare_queue [OF stable_waits(1) [OF env] _ hoare_scan_grants [OF env G]])
    show "hoare env (\<lambda>w1. ?D ?G (w_db w1)) (scan_requests fuel pageSize r) (\<lambda>_ w1. ?D ?G (w_db w1)) (\<lambda>_ _. True)" for r
      by (rule hoare_weaken [OF keepsD [OF scan_requests_keeps [OF stable_waits(2) [OF env] grows_waits(2)]]]) auto
    show "stable env (\<lambda>w1. ?D ?G (w_db w1))" by (rule stable_waits(2) [OF env])
  qed (simp_all add: audited)
  from hoare_Inr [OF this w assms(1)] show "grants_queued k (w_db w')" using assms(2) by simp
next
  assume q: "unmade q (w_db w) \<and> minds_request q env"
  have env: "minds_request q env" using q ..
  have "hoare env (\<lambda>w. unmade q (w_db w)) (queueStrandedAccessRepairs fuel pageSize)
      (\<lambda>r w1. rr_alreadyRecorded r \<or> has_job (w_db w1) (rq_id q)) (\<lambda>_ _. True)"
  proof (rule hoare_queue [where A = "\<lambda>w. unmade q (w_db w)", OF stable_unmade(1) [OF env] _ _ hoare_scan_requests [OF env]])
    show "hoare env (\<lambda>w. unmade q (w_db w)) (scan_grants fuel pageSize s) (\<lambda>_ w. unmade q (w_db w)) (\<lambda>_ _. True)" for s
      by (rule hoare_weaken [OF keepsD [OF scan_grants_keeps [OF stable_unmade(1) [OF env] grows_unmade(1)]]]) auto
    show "stable env (\<lambda>w1. has_job (w_db w1) (rq_id q))" using env by (auto intro!: stableI simp: minds_request_def)
  qed (auto simp: has_job_def)
  from hoare_Inr [OF this conjunct1 [OF q] assms(1)] show "has_job (w_db w') (rq_id q)" using assms(2) by simp
qed

subsection \<open>An undisturbed run\<close>

definition justified :: "portal_db \<Rightarrow> job \<Rightarrow> bool" where
  "justified db j \<longleftrightarrow> jb_status j = Job_Pending \<and> (case jb_kind j of
      Job_Revoke \<Rightarrow> (\<exists>g\<in>set (db_grants db). jb_subject_id j = gr_id g \<and> gr_status g = Gr_Revoked \<and>
        owner_known (identityKey g) db \<and> grants_findActiveByApiAndUser db (gr_api_id g) (gr_user_id g) (gr_application_id g) = None)
    | Job_Approve \<Rightarrow> (\<exists>r\<in>set (db_requests db). jb_subject_id j = rq_id r \<and> rq_status r = Rq_Approved \<and> rq_grant_id r = None \<and>
        users_findById db (rq_user_id r) \<noteq> None \<and>
        (\<forall>g\<in>set (of_key (rq_api_id r, rq_user_id r, rq_application_id r) db). gr_access_request_id g \<noteq> Some (rq_id r))))"

text \<open>The store as the run found it, but for the jobs it queued.\<close>

definition repaired :: "portal_db \<Rightarrow> repair_result \<Rightarrow> portal_db \<Rightarrow> bool" where
  "repaired db0 r db \<longleftrightarrow> \<not> rr_alreadyRecorded r \<and> (\<exists>new. db = db0\<lparr>db_jobs := db_jobs db0 @ new\<rparr> \<and>
     length new = rr_revocations r + rr_approvals r \<and> (\<forall>j\<in>set new. justified db0 j))"

lemma repaired_lookups:
  assumes "repaired db0 r db"
  shows "db_grants db = db_grants db0" "db_requests db = db_requests db0" "db_audit db = db_audit db0"
    "grants_findActiveByApiAndUser db a u p = grants_findActiveByApiAndUser db0 a u p"
    "consumers_findByUser db u p = consumers_findByUser db0 u p" "users_findById db u = users_findById db0 u"
    "grants_list_identity db a u p l o1 = grants_list_identity db0 a u p l o1" "job_refs db ji = job_refs db0 ji"
  using assms by (auto simp: repaired_def grants_findActiveByApiAndUser_def consumers_findByUser_def users_findById_def
      grants_list_identity_def job_refs_def)

lemma enqueue_alone:
  assumes env: "alone env" and ji: "job_refs db0 ji" "\<And>i g now. justified db0 (job_row i g ji Job_Pending now)"
    and bump: "rr_revocations r' + rr_approvals r' = Suc (rr_revocations r + rr_approvals r)"
      "rr_alreadyRecorded r' = rr_alreadyRecorded r"
  shows "hoare env (\<lambda>w. repaired db0 r (w_db w)) (enqueue ji) (\<lambda>q w. repaired db0 (if q then r' else r) (w_db w)) (\<lambda>_ _. False)"
proof -
  have "hoare env (\<lambda>w. repaired db0 r (w_db w)) (io_tx (accessGatewayJobs_enqueueIfAbsent i g ji now))
      (\<lambda>q w. repaired db0 (if q then r' else r) (w_db w)) (\<lambda>_ _. False)" for i g now
  proof (rule hoare_tx_alone [OF env])
    fix db
    assume r: "repaired db0 r db"
    then obtain new where new: "db = db0\<lparr>db_jobs := db_jobs db0 @ new\<rparr>" "length new = rr_revocations r + rr_approvals r"
      "\<forall>j\<in>set new. justified db0 j" by (auto simp: repaired_def)
    have "\<not> rr_alreadyRecorded r'" using r bump(2) by (simp add: repaired_def)
    moreover have "\<exists>new'. db\<lparr>db_jobs := db_jobs db @ [job_row i g ji Job_Pending now]\<rparr> = db0\<lparr>db_jobs := db_jobs db0 @ new'\<rparr> \<and>
        length new' = rr_revocations r' + rr_approvals r' \<and> (\<forall>j\<in>set new'. justified db0 j)"
      by (rule exI [of _ "new @ [job_row i g ji Job_Pending now]"]) (use new ji(2) bump(1) in auto)
    ultimately have "repaired db0 r' (db\<lparr>db_jobs := db_jobs db @ [job_row i g ji Job_Pending now]\<rparr>)"
      unfolding repaired_def ..
    then show "\<exists>q db'. accessGatewayJobs_enqueueIfAbsent i g ji now db = Inr (q, db') \<and> repaired db0 (if q then r' else r) db'"
      using r ji(1) by (simp add: accessGatewayJobs_enqueueIfAbsent_def repaired_lookups(8) [OF r] ex_bool_eq)
  qed
  then show ?thesis unfolding enqueue_def using stable_alone [OF env, of "repaired db0 r"]
    by (auto intro!: hoare_bind [where R = "\<lambda>_ w. repaired db0 r (w_db w)"] hoare_now hoare_newId)
qed

lemma repair_grant_alone:
  assumes env: "alone env" and g: "g \<in> set (db_grants db0)" "gr_status g = Gr_Revoked"
  shows "hoare env (\<lambda>w. repaired db0 (snd s) (w_db w)) (repair_grant g s) (\<lambda>s' w. repaired db0 (snd s') (w_db w)) (\<lambda>_ _. False)"
proof -
  obtain seen r where s: "s = (seen, r)" by (cases s)
  let ?D = "\<lambda>w. repaired db0 r (w_db w)" and ?Q = "\<lambda>s' w. repaired db0 (snd s') (w_db w)"
  let ?r = "r\<lparr>rr_revocations := Suc (rr_revocations r)\<rparr>"
  have queue: "hoare env ?D (io_bind (enqueue (revoke_input g)) (\<lambda>q. io_return (seen', if q then ?r else r))) ?Q (\<lambda>_ _. False)"
    if "grants_findActiveByApiAndUser db0 (gr_api_id g) (gr_user_id g) (gr_application_id g) = None"
      "consumers_findByUser db0 (gr_user_id g) (gr_application_id g) \<noteq> None" "users_findById db0 (gr_user_id g) \<noteq> None" for seen'
  proof (rule hoare_bind [OF enqueue_alone [OF env, where r' = ?r]])
    show "job_refs db0 (revoke_input g)" using that(3)
      by (auto simp: job_refs_def revoke_input_def ref_ok_def users_findById_def find_by_None_iff list_ex_iff)
    show "justified db0 (job_row i gen (revoke_input g) Job_Pending now)" for i gen now
      using g that by (auto simp: justified_def job_row_def revoke_input_def owner_known_def identityKey_def)
  qed (auto intro: hoare_return)
  note known = hoare_read_alone [OF env, where D = "repaired db0 r"]
  show ?thesis unfolding s repair_grant_def Let_def prod.case snd_conv
    by (rule hoare_if, rule hoare_return, simp, rule known, erule repaired_lookups(4), rule hoare_if, rule hoare_return, simp,
        rule known, erule repaired_lookups(5), rule hoare_if, rule hoare_return, simp,
        rule known, erule repaired_lookups(6), rule hoare_if, rule hoare_return, simp, rule queue) simp_all
qed

lemma hoare_pages_alone:
  assumes env: "alone env" and read: "\<And>db o1. D db \<Longrightarrow> f o1 db = (take l (drop o1 rows), length rows)" "0 < l"
    and "\<forall>x\<in>set (take offset rows). \<not> P x" "length rows < n + offset" "0 < n"
  shows "hoare env (\<lambda>w. D (w_db w)) (pages_some n (\<lambda>o1. io_read (f o1)) P offset)
    (\<lambda>b w. D (w_db w) \<and> b = list_ex P rows) E"
  using assms(4-)
proof (induction n arbitrary: offset)
  case (Suc n)
  let ?items = "take l (drop offset rows)"
  show ?case unfolding pages_some.simps
  proof (rule hoare_read_alone [OF env], rule read(1), assumption, simp only: prod.case Let_def, intro hoare_if)
    assume "list_ex P ?items"
    then have "list_ex P rows" unfolding list_ex_iff by (blast dest: in_set_takeD in_set_dropD)
    then show "hoare env (\<lambda>w. D (w_db w)) (io_return True) (\<lambda>b w. D (w_db w) \<and> b = list_ex P rows) E" by (simp add: hoare_return)
  next
    assume no: "\<not> list_ex P ?items"
    have past: "\<forall>x\<in>set (take (offset + length ?items) rows). \<not> P x"
      using no Suc.prems(1) by (auto simp: list_ex_iff take_add min_def split: if_splits)
    {
      assume "?items = [] \<or> length rows \<le> offset + length ?items"
      then have "length rows \<le> offset + length ?items" using read(2) by auto
      then have "\<not> list_ex P rows" using past by (simp add: list_ex_iff)
      then show "hoare env (\<lambda>w. D (w_db w)) (io_return False) (\<lambda>b w. D (w_db w) \<and> b = list_ex P rows) E" by (simp add: hoare_return)
    next
      assume more: "\<not> (?items = [] \<or> length rows \<le> offset + length ?items)"
      then have "0 < length ?items" by blast
      then show "hoare env (\<lambda>w. D (w_db w)) (pages_some n (\<lambda>o1. io_read (f o1)) P (offset + length ?items))
          (\<lambda>b w. D (w_db w) \<and> b = list_ex P rows) E"
        using Suc.prems(2) more by (intro Suc.IH [OF past]) auto
    }
  qed
qed simp

lemma repair_request_alone:
  assumes env: "alone env" and r: "r \<in> set (db_requests db0)" "rq_status r = Rq_Approved" "request_refs db0 r"
    and fuel: "length (db_grants db0) < fuel"
  shows "hoare env (\<lambda>w. repaired db0 res (w_db w)) (repair_request fuel r res) (\<lambda>s' w. repaired db0 s' (w_db w)) (\<lambda>_ _. False)"
proof -
  let ?D = "\<lambda>w. repaired db0 res (w_db w)" and ?Q = "\<lambda>s' w. repaired db0 s' (w_db w)"
  let ?key = "(rq_api_id r, rq_user_id r, rq_application_id r)"
  let ?rows = "rev (sort_key gr_created_at (sort_key gr_id (of_key ?key db0)))"
  let ?P = "\<lambda>g. gr_access_request_id g = Some (rq_id r)"
  have key: "filter (\<lambda>g. gr_user_id g = rq_user_id r \<and> gr_api_id g = rq_api_id r \<and> gr_application_id g = rq_application_id r)
      (db_grants db0) = of_key ?key db0"
    unfolding of_key_def identityKey_def by (rule filter_cong) auto
  have "length (of_key ?key db0) \<le> length (db_grants db0)" by (simp add: of_key_def)
  moreover have "grants_list_identity db (rq_api_id r) (rq_user_id r) (rq_application_id r) MAX_PAGE_SIZE o1 =
      (take MAX_PAGE_SIZE (drop o1 ?rows), length ?rows)" if "repaired db0 res db" for db o1
    unfolding repaired_lookups(7) [OF that] by (simp add: grants_list_identity_def Let_def key)
  ultimately have made: "hoare env ?D (grantMadeFrom fuel r) (\<lambda>b w. ?D w \<and> b = list_ex ?P ?rows) (\<lambda>_ _. False)"
    unfolding grantMadeFrom_def using fuel
    by (intro hoare_pages_alone [OF env, where D = "repaired db0 res" and l = MAX_PAGE_SIZE])
       (auto simp: MAX_PAGE_SIZE_def)
  have queue: "hoare env ?D (io_bind (enqueue (approve_input r)) (\<lambda>q.
      io_return (if q then res\<lparr>rr_approvals := Suc (rr_approvals res)\<rparr> else res))) ?Q (\<lambda>_ _. False)"
    if "rq_grant_id r = None" "\<not> list_ex ?P ?rows" "users_findById db0 (rq_user_id r) \<noteq> None"
  proof (rule hoare_bind [OF enqueue_alone [OF env, where r' = "res\<lparr>rr_approvals := Suc (rr_approvals res)\<rparr>"]])
    show "job_refs db0 (approve_input r)" using r(3)
      by (auto simp: job_refs_def approve_input_def request_refs_def)
    show "justified db0 (job_row i gen (approve_input r) Job_Pending now)" for i gen now
      using r(1,2) that by (auto simp: justified_def job_row_def approve_input_def list_ex_iff)
  qed (auto intro: hoare_return)
  note known = hoare_read_alone [OF env, where D = "repaired db0 res"]
  have rest: "hoare env (\<lambda>w. ?D w \<and> made = list_ex ?P ?rows) (if made then io_return res
        else
          io_bind (io_read (\<lambda>db. users_findById db (rq_user_id r))) (\<lambda>user.
          if user = None then io_return res
          else io_bind (enqueue (approve_input r)) (\<lambda>q.
            io_return (if q then res\<lparr>rr_approvals := Suc (rr_approvals res)\<rparr> else res)))) ?Q (\<lambda>_ _. False)"
    if "rq_grant_id r = None" for made
    by (rule hoare_pure, rule hoare_if, rule hoare_return, simp, rule known, erule repaired_lookups(6),
        rule hoare_if, rule hoare_return, simp, rule queue [OF that]) simp_all
  show ?thesis unfolding repair_request_def
    by (rule hoare_if, rule hoare_return, simp, rule hoare_bind [OF made], rule rest) simp
qed

lemma keyset_alone:
  assumes env: "alone env" and read: "\<And>s db a. I s db \<Longrightarrow> f a db = keyset_page idf inStatus rows a l"
    and body: "\<And>r s. r \<in> set rows \<Longrightarrow> inStatus r \<Longrightarrow>
      hoare env (\<lambda>w. I s (w_db w)) (body r s) (\<lambda>s' w. I s' (w_db w)) (\<lambda>_ _. False)"
    and n: "length rows < n"
  shows "hoare env (\<lambda>w. I s (w_db w)) (keyset n (\<lambda>a. io_read (f a)) idf body a s) (\<lambda>s' w. I s' (w_db w)) (\<lambda>_ _. False)"
proof -
  let ?left = "\<lambda>a. length (filter (\<lambda>r. inStatus r \<and> coalesce a < idf r) rows)"
  let ?K = "\<lambda>n a s w. I s (w_db w) \<and> ?left a < n"
  let ?R = "\<lambda>n page a s w. (I s (w_db w) \<and> ?left a < Suc n) \<and> page = keyset_page idf inStatus rows a l"
  have "hoare env (?K n a s) (keyset n (\<lambda>a. io_read (f a)) idf body a s) (\<lambda>s' w. I s' (w_db w)) (\<lambda>_ _. False)"
  proof (rule hoare_keyset [where K = ?K and R = ?R])
    show "hoare env (?K (Suc n) a s) (io_read (f a)) (\<lambda>page. ?R n page a s) (\<lambda>_ _. False)" for n a s
      by (rule hoare_read_known [OF env, where D = "\<lambda>db. I s db \<and> ?left a < Suc n"]) (simp add: read [of s])
    show "hoare env (?R n page a s) (each body page s) (\<lambda>s'. ?K n (Some (idf (last page))) s') (\<lambda>_ _. False)"
      if ne: "page \<noteq> []" for n page a s
    proof (rule hoare_pure)
      assume page: "page = keyset_page idf inStatus rows a l"
      have run: "hoare env (\<lambda>w. I s (w_db w)) (each body page s) (\<lambda>s' w. I s' (w_db w)) (\<lambda>_ _. False)"
        by (rule hoare_each [where J = "\<lambda>_ s w. I s (w_db w)"], rule body)
           (use keyset_page_mem [of _ idf inStatus rows a l] page in simp_all)
      have fewer: "?left (Some (idf (last page))) < ?left a" using keyset_page_fewer ne unfolding page by blast
      show "hoare env (\<lambda>w. I s (w_db w) \<and> ?left a < Suc n) (each body page s) (\<lambda>s'. ?K n (Some (idf (last page))) s') (\<lambda>_ _. False)"
        by (rule hoare_pure, rule hoare_weaken [OF run]) (use fewer in simp_all)
    qed
  qed simp_all
  moreover have "?left a < n" using n le_less_trans [OF length_filter_le] by blast
  ultimately show ?thesis by (elim hoare_weaken) simp_all
qed

lemma scan_grants_alone:
  assumes env: "alone env" and fuel: "length (db_grants db0) < fuel"
  shows "hoare env (\<lambda>w. repaired db0 (snd s) (w_db w)) (scan_grants fuel pageSize s) (\<lambda>s' w. repaired db0 (snd s') (w_db w)) (\<lambda>_ _. False)"
  unfolding scan_grants_def
proof (rule keyset_alone [OF env, where I = "\<lambda>s. repaired db0 (snd s)", OF _ repair_grant_alone [OF env] fuel])
  show "grants_pageByStatus db Gr_Revoked a pageSize = keyset_page gr_id (\<lambda>g. gr_status g = Gr_Revoked) (db_grants db0) a pageSize"
    if "repaired db0 (snd s') db" for s' db a
    by (simp only: grants_pageByStatus_def repaired_lookups(1) [OF that])
qed

lemma scan_requests_alone:
  assumes env: "alone env" and refs: "\<forall>r\<in>set (db_requests db0). request_refs db0 r"
    and fuel: "length (db_grants db0) < fuel" "length (db_requests db0) < fuel"
  shows "hoare env (\<lambda>w. repaired db0 s (w_db w)) (scan_requests fuel pageSize s) (\<lambda>s' w. repaired db0 s' (w_db w)) (\<lambda>_ _. False)"
  unfolding scan_requests_def
proof (rule keyset_alone [OF env, where I = "repaired db0", OF _ repair_request_alone [OF env _ _ _ fuel(1)] fuel(2)])
  show "accessRequests_pageByStatus db Rq_Approved a pageSize =
      keyset_page rq_id (\<lambda>r. rq_status r = Rq_Approved) (db_requests db0) a pageSize" if "repaired db0 s' db" for s' db a
    by (simp only: accessRequests_pageByStatus_def repaired_lookups(2) [OF that])
  show "request_refs db0 r" if "r \<in> set (db_requests db0)" for r using that refs by blast
qed

text \<open>What a run that returned leaves.\<close>

definition repair_done :: "portal_db \<Rightarrow> repair_result \<Rightarrow> portal_db \<Rightarrow> bool" where
  "repair_done db0 r db \<longleftrightarrow> repairRecorded db \<and> rr_alreadyRecorded r = repairRecorded db0 \<and>
     (\<exists>new audit. db = db0\<lparr>db_jobs := db_jobs db0 @ new, db_audit := db_audit db0 @ audit\<rparr> \<and>
       (\<forall>j\<in>set new. justified db0 j) \<and> length new = rr_revocations r + rr_approvals r \<and> (repairRecorded db0 \<longrightarrow> new = []))"

lemma record_alone:
  assumes env: "alone env" and no: "\<not> repairRecorded db0"
  shows "hoare env (\<lambda>w. repaired db0 r (w_db w)) (io_bind io_now (\<lambda>now. io_tx (record_repair r now)))
    (\<lambda>r w. repair_done db0 r (w_db w)) (\<lambda>_ _. False)"
proof (rule hoare_bind [where R = "\<lambda>_ w. repaired db0 r (w_db w)"], rule hoare_now [OF stable_alone [OF env]], assumption,
    rule hoare_tx_alone [OF env])
  fix now db
  assume "repaired db0 r db"
  then obtain new where r: "\<not> rr_alreadyRecorded r" "db = db0\<lparr>db_jobs := db_jobs db0 @ new\<rparr>"
    "length new = rr_revocations r + rr_approvals r" "\<forall>j\<in>set new. justified db0 j" by (auto simp: repaired_def)
  let ?db' = "auditLogs_create None None ACCESS_STRANDED_REPAIR_QUEUED [] now db"
  have "record_repair r now db = Inr (r, ?db')" using no r(2)
    by (simp add: record_repair_def tx_bind_def tx_read_def tx_audit_def tx_return_def repairRecorded_def)
  moreover have "repairRecorded ?db'" by (simp add: repairRecorded_def auditLogs_create_def)
  moreover have "\<exists>new audit. ?db' = db0\<lparr>db_jobs := db_jobs db0 @ new, db_audit := db_audit db0 @ audit\<rparr> \<and>
      (\<forall>j\<in>set new. justified db0 j) \<and> length new = rr_revocations r + rr_approvals r \<and> (repairRecorded db0 \<longrightarrow> new = [])"
    using r no by (intro exI [of _ new] exI) (simp add: auditLogs_create_def)
  ultimately show "\<exists>a db'. record_repair r now db = Inr (a, db') \<and> repair_done db0 a db'"
    using r(1) no by (simp add: repair_done_def)
qed

lemma queue_alone:
  assumes env: "alone env" and refs: "\<forall>r\<in>set (db_requests db0). request_refs db0 r"
    and fuel: "length (db_grants db0) < fuel" "length (db_requests db0) < fuel"
  shows "hoare env (\<lambda>w. w_db w = db0) (queueStrandedAccessRepairs fuel pageSize) (\<lambda>r w. repair_done db0 r (w_db w)) (\<lambda>_ _. False)"
proof -
  let ?zero = "\<lparr>rr_alreadyRecorded = False, rr_revocations = 0, rr_approvals = 0\<rparr>"
  note grants = scan_grants_alone [OF env fuel(1), of "([], ?zero)" pageSize, unfolded snd_conv]
  note requests = scan_requests_alone [OF env refs fuel]
  have tail: "hoare env (\<lambda>w1. repaired db0 (snd x) (w_db w1)) (case x of (seen, r1) \<Rightarrow> io_bind (scan_requests fuel pageSize r1) (\<lambda>r2.
      io_bind io_now (\<lambda>now. io_tx (record_repair r2 now)))) (\<lambda>r w1. repair_done db0 r (w_db w1)) (\<lambda>_ _. False)"
    if "\<not> repairRecorded db0" for x :: grant_scan
    by (cases x, simp only: prod.case snd_conv, rule hoare_bind [OF requests record_alone [OF env that]])
  have "hoare env (\<lambda>w. w_db w = db0) (io_bind (io_read repairRecorded) (\<lambda>recorded.
       if recorded then io_return \<lparr>rr_alreadyRecorded = True, rr_revocations = 0, rr_approvals = 0\<rparr>
       else
         io_bind (scan_grants fuel pageSize ([], ?zero)) (\<lambda>(seen, r1).
         io_bind (scan_requests fuel pageSize r1) (\<lambda>r2.
         io_bind io_now (\<lambda>now. io_tx (record_repair r2 now)))))) (\<lambda>r w. repair_done db0 r (w_db w)) (\<lambda>_ _. False)"
  proof (rule hoare_read_alone [OF env, where D = "\<lambda>db. db = db0" and v = "repairRecorded db0"], simp, rule hoare_if)
    assume "repairRecorded db0"
    then show "hoare env (\<lambda>w. w_db w = db0) (io_return \<lparr>rr_alreadyRecorded = True, rr_revocations = 0, rr_approvals = 0\<rparr>)
        (\<lambda>r w. repair_done db0 r (w_db w)) (\<lambda>_ _. False)"
      by (intro hoare_return) (auto simp: repair_done_def intro: exI [of _ "[]"])
  next
    assume n: "\<not> repairRecorded db0"
    show "hoare env (\<lambda>w. w_db w = db0) (io_bind (scan_grants fuel pageSize ([], ?zero)) (\<lambda>(seen, r1).
       io_bind (scan_requests fuel pageSize r1) (\<lambda>r2.
       io_bind io_now (\<lambda>now. io_tx (record_repair r2 now))))) (\<lambda>r w. repair_done db0 r (w_db w)) (\<lambda>_ _. False)"
      by (rule hoare_weaken [OF hoare_bind [OF grants tail [OF n]]]) (simp_all add: repaired_def)
  qed
  then show ?thesis unfolding queueStrandedAccessRepairs_def using env by (auto simp: hoare_def io_lock_def alone_def)
qed

text \<open>
  C39. Undisturbed, the repair completes. With more rounds than the store has grants and requests it
  returns, whatever the size of its pages; from then on the run is recorded, and a recorded run queues
  nothing more. What it queued is counted in its result, every job of it is pending and justified by
  what the store held, and nothing else of the store was changed.
\<close>

theorem repair_completes:
  assumes "alone env" "\<forall>r\<in>set (db_requests (w_db w)). request_refs (w_db w) r"
    and "length (db_grants (w_db w)) < fuel" "length (db_requests (w_db w)) < fuel"
  shows "\<exists>r w' new audit. queueStrandedAccessRepairs fuel pageSize env w = (Inr r, w') \<and> repairRecorded (w_db w') \<and>
    w_db w' = (w_db w)\<lparr>db_jobs := db_jobs (w_db w) @ new, db_audit := db_audit (w_db w) @ audit\<rparr> \<and>
    (\<forall>j\<in>set new. justified (w_db w) j) \<and> length new = rr_revocations r + rr_approvals r \<and>
    rr_alreadyRecorded r = repairRecorded (w_db w) \<and> (repairRecorded (w_db w) \<longrightarrow> new = [])"
proof -
  obtain x w' where run: "queueStrandedAccessRepairs fuel pageSize env w = (x, w')" by (rule prod.exhaust)
  note h = queue_alone [OF assms, of pageSize]
  obtain r where "x = Inr r" using hoare_Inl [OF h refl] run by (cases x) auto
  then have "queueStrandedAccessRepairs fuel pageSize env w = (Inr r, w')" "repair_done (w_db w) r (w_db w')"
    using hoare_Inr [OF h refl] run by auto
  then show ?thesis unfolding repair_done_def by blast
qed

definition ex_unmade :: access_request where
  "ex_unmade = ex_request\<lparr>rq_id := ''r2'', rq_status := Rq_Approved\<rparr>"

definition ex_stranded :: world where
  "ex_stranded = ex_granted\<lparr>w_db := ex_revoked_db\<lparr>db_requests := [ex_unmade]\<rparr>\<rparr>"

lemma quiet_alone: "alone quiet_env"
  by (simp add: alone_def quiet_env_def)

lemmas ex_stranded_defs = ex_stranded_def ex_unmade_def ex_granted_def ex_revoked_db_def ex_claim_def ex_grant_def
  ex_world_def ex_request_def ex_owner_def

theorem repair_misses_nothing_witness:
  "\<exists>r w'. queueStrandedAccessRepairs 5 1 quiet_env ex_stranded = (Inr r, w') \<and>
     grants_queued (''a1'', ''u1'', None) (w_db w') \<and> has_job (w_db w') ''r2''"
proof -
  have "case queueStrandedAccessRepairs 5 1 quiet_env ex_stranded of (Inr r, w') \<Rightarrow> \<not> rr_alreadyRecorded r | (Inl f, w') \<Rightarrow> False"
    by code_simp
  then obtain r w' where run: "queueStrandedAccessRepairs 5 1 quiet_env ex_stranded = (Inr r, w')" "\<not> rr_alreadyRecorded r"
    by (auto split: sum.splits prod.splits)
  have k: "stranded (''a1'', ''u1'', None) (w_db ex_stranded)" "minds_grants (''a1'', ''u1'', None) quiet_env"
    by (simp_all add: stranded_def of_key_def identityKey_def owner_known_def consumers_findByUser_def users_findById_def find_by_def
        ex_stranded_defs minds_grants_def quiet_env_def)
  have q: "unmade ex_unmade (w_db ex_stranded)" "minds_request ex_unmade quiet_env"
    by (simp_all add: unmade_def of_key_def identityKey_def users_findById_def find_by_def ex_stranded_defs minds_request_def quiet_env_def)
  show ?thesis using repair_misses_nothing [OF run, of "(''a1'', ''u1'', None)" ex_unmade] k q run(1)
    by (auto simp: ex_unmade_def)
qed

theorem repair_completes_witness:
  "\<exists>r w'. queueStrandedAccessRepairs 2 200 quiet_env ex_stranded = (Inr r, w') \<and> repairRecorded (w_db w')"
proof -
  have "\<forall>r\<in>set (db_requests (w_db ex_stranded)). request_refs (w_db ex_stranded) r"
    by (simp add: request_refs_def ref_ok_def ex_stranded_defs)
  then show ?thesis using repair_completes [OF quiet_alone, of ex_stranded 2 200] by (auto simp: ex_stranded_defs)
qed

end
