(* ===== verification/Outbox.thy ===== *)
theory Outbox
  imports Transaction_Retry Keeping Json
begin

section \<open>The mail outbox\<close>

text \<open>
  Models the outbox worker (\<open>server/src/email/outbox-worker.ts\<close>), the sealing of messages that carry a
  single-use link (\<open>server/src/email/sealed-outbox.ts\<close>) and the SQLite repository both use. The
  cipher is a pair of arguments, \<open>sealer\<close> and \<open>opener\<close>; the data an envelope is bound to
  (\<open>boundTo\<close>, the JSON text of the row's id and its address, which determines them) is that pair. The
  relay's answer to a message is the environment's. The column \<open>email_lifecycle_fence\<close>, which
  \<open>lockEmailRecipient\<close> writes only to make transactions conflict, is not modelled, nor are the timers.
\<close>

subsection \<open>Addresses\<close>

definition RELEASED_EMAIL_DOMAIN :: string where "RELEASED_EMAIL_DOMAIN = ''released.nexus.invalid''"

definition ends_with :: "string \<Rightarrow> string \<Rightarrow> bool" where
  "ends_with suffix s \<longleftrightarrow> length suffix \<le> length s \<and> drop (length s - length suffix) s = suffix"

definition isReleasedEmail :: "string \<Rightarrow> bool" where
  "isReleasedEmail email = ends_with (CHR ''@'' # RELEASED_EMAIL_DOMAIN) (js_lower (js_trim email))"

text \<open>SQL's \<open>lower\<close> folds the ASCII letters.\<close>

definition sql_lower :: "string \<Rightarrow> string" where
  "sql_lower s = map (\<lambda>c. let n = of_char c :: nat in if 65 \<le> n \<and> n \<le> 90 then char_of (n + 32) else c) s"

definition users_findByEmail :: "portal_db \<Rightarrow> string \<Rightarrow> user option" where
  "users_findByEmail db email = List.find (\<lambda>u. sql_lower (u_email u) = js_lower (js_trim email)) (db_users db)"

definition users_lockEmailRecipient :: "portal_db \<Rightarrow> string \<Rightarrow> string \<Rightarrow> bool" where
  "users_lockEmailRecipient db i email \<longleftrightarrow> \<not> isReleasedEmail email \<and>
     list_ex (\<lambda>u. u_id u = i \<and> u_email u = js_lower (js_trim email)) (db_users db)"

subsection \<open>The repository\<close>

definition OUTBOX_SEALED_SUBJECT :: string where "OUTBOX_SEALED_SUBJECT = ''nexus:sealed:v1''"

definition RECIPIENT_CHANGED :: string where "RECIPIENT_CHANGED = ''recipient-address-changed''"

definition emailOutbox_findById :: "portal_db \<Rightarrow> string \<Rightarrow> mail option" where
  "emailOutbox_findById db i = find_by ml_id i (db_outbox db)"

definition emailOutbox_findByIdempotencyKey :: "portal_db \<Rightarrow> string \<Rightarrow> mail option" where
  "emailOutbox_findByIdempotencyKey db key = List.find (\<lambda>m. ml_idempotency_key m = Some key) (db_outbox db)"

text \<open>\<open>ORDER BY priority DESC, next_attempt_at ASC, created_at ASC, id ASC\<close>, nulls first.\<close>

definition mail_due :: "int \<Rightarrow> mail \<Rightarrow> bool" where
  "mail_due now m \<longleftrightarrow> ml_status m = Mail_Pending \<and> (case ml_next_attempt_at m of None \<Rightarrow> True | Some t \<Rightarrow> t \<le> now)"

definition mail_due_order :: "int \<Rightarrow> mail list \<Rightarrow> mail list" where
  "mail_due_order now rows =
     sort_key (\<lambda>m. - int (ml_priority m))
       (sort_key (\<lambda>m. case ml_next_attempt_at m of None \<Rightarrow> [] | Some t \<Rightarrow> [t])
         (sort_key ml_created_at (sort_key ml_id (filter (mail_due now) rows))))"

definition eligible :: "portal_db \<Rightarrow> mail \<Rightarrow> bool" where
  "eligible db m = (case ml_recipient_user_id m of
      None \<Rightarrow> True
    | Some u \<Rightarrow> u = [] \<or> users_lockEmailRecipient db u (ml_to_email m))"

definition claim_row :: "string \<Rightarrow> int \<Rightarrow> bool \<Rightarrow> mail \<Rightarrow> mail \<Rightarrow> mail" where
  "claim_row generation stamp ok entry m = m\<lparr>
     ml_status := (if ok then Mail_Sending else Mail_Failed),
     ml_next_attempt_at := (if ok then ml_next_attempt_at entry else None),
     ml_attempts := Suc (ml_attempts m), ml_updated_at := stamp, ml_generation := generation,
     ml_last_error := (if ok then ml_last_error entry else Some RECIPIENT_CHANGED)\<rparr>"

text \<open>\<open>minted k\<close> is the generation and the instant the \<open>k\<close>-th candidate is stamped with.\<close>

fun claim_candidates :: "(nat \<Rightarrow> string \<times> int) \<Rightarrow> nat \<Rightarrow> mail list \<Rightarrow> portal_db \<Rightarrow> mail list \<times> portal_db" where
  "claim_candidates minted k [] db = ([], db)"
| "claim_candidates minted k (entry # rest) db =
     (let ok = eligible db entry;
          db1 = db\<lparr>db_outbox := update_where (\<lambda>m. ml_id m = ml_id entry \<and> ml_status m = Mail_Pending)
            (claim_row (fst (minted k)) (snd (minted k)) ok entry) (db_outbox db)\<rparr>;
          (claimed, db2) = claim_candidates minted (Suc k) rest db1
      in (if ok then (case emailOutbox_findById db1 (ml_id entry) of None \<Rightarrow> claimed | Some c \<Rightarrow> c # claimed)
          else claimed, db2))"

definition emailOutbox_claimDue :: "(nat \<Rightarrow> string \<times> int) \<Rightarrow> int \<Rightarrow> nat \<Rightarrow> portal_db \<Rightarrow> mail list \<times> portal_db" where
  "emailOutbox_claimDue minted now limit db =
     claim_candidates minted 0 (take (max 1 limit) (mail_due_order now (db_outbox db))) db"

text \<open>\<open>WHERE id = ? AND generation = ? AND status = 'sending'\<close>.\<close>

definition owns_mail :: "mail \<Rightarrow> mail \<Rightarrow> bool" where
  "owns_mail entry m \<longleftrightarrow> ml_id m = ml_id entry \<and> ml_generation m = ml_generation entry \<and> ml_status m = Mail_Sending"

definition settle_mail :: "mail \<Rightarrow> (mail \<Rightarrow> mail) \<Rightarrow> portal_db \<Rightarrow> bool \<times> portal_db" where
  "settle_mail entry f db = (list_ex (owns_mail entry) (db_outbox db),
     db\<lparr>db_outbox := update_where (owns_mail entry) f (db_outbox db)\<rparr>)"

definition emailOutbox_beginDelivery :: "mail \<Rightarrow> int \<Rightarrow> portal_db \<Rightarrow> bool \<times> portal_db" where
  "emailOutbox_beginDelivery entry instant = settle_mail entry (\<lambda>m. m\<lparr>ml_updated_at := instant\<rparr>)"

definition emailOutbox_markSent :: "mail \<Rightarrow> int \<Rightarrow> portal_db \<Rightarrow> bool \<times> portal_db" where
  "emailOutbox_markSent entry instant = settle_mail entry
     (\<lambda>m. m\<lparr>ml_status := Mail_Sent, ml_next_attempt_at := None, ml_last_error := None, ml_updated_at := instant\<rparr>)"

definition emailOutbox_reschedule :: "mail \<Rightarrow> int \<Rightarrow> string \<Rightarrow> int \<Rightarrow> portal_db \<Rightarrow> bool \<times> portal_db" where
  "emailOutbox_reschedule entry nextAttemptAt lastError stamp = settle_mail entry
     (\<lambda>m. m\<lparr>ml_status := Mail_Pending, ml_next_attempt_at := Some nextAttemptAt, ml_last_error := Some lastError,
            ml_updated_at := stamp\<rparr>)"

definition emailOutbox_markFailed :: "mail \<Rightarrow> string \<Rightarrow> int \<Rightarrow> portal_db \<Rightarrow> bool \<times> portal_db" where
  "emailOutbox_markFailed entry lastError stamp = settle_mail entry
     (\<lambda>m. m\<lparr>ml_status := Mail_Failed, ml_next_attempt_at := None, ml_last_error := Some lastError, ml_updated_at := stamp\<rparr>)"

definition emailOutbox_releaseStale :: "int \<Rightarrow> int \<Rightarrow> int \<Rightarrow> portal_db \<Rightarrow> nat \<times> portal_db" where
  "emailOutbox_releaseStale olderThan due stamp db =
     (let stale = (\<lambda>m. ml_status m = Mail_Sending \<and> ml_updated_at m \<le> olderThan)
      in (length (filter stale (db_outbox db)),
          db\<lparr>db_outbox := update_where stale
               (\<lambda>m. m\<lparr>ml_status := Mail_Pending, ml_next_attempt_at := Some due, ml_updated_at := stamp\<rparr>) (db_outbox db)\<rparr>))"

text \<open>\<open>list\<close> for the unsealed rows whose key starts with \<open>prefix\<close>: newest first, with the total.\<close>

definition unsealed_with :: "string \<Rightarrow> mail \<Rightarrow> bool" where
  "unsealed_with prefix m \<longleftrightarrow> (case ml_idempotency_key m of None \<Rightarrow> False | Some k \<Rightarrow> take (length prefix) k = prefix) \<and>
     ml_subject m \<noteq> OUTBOX_SEALED_SUBJECT"

definition emailOutbox_list_unsealed :: "portal_db \<Rightarrow> string \<Rightarrow> nat \<Rightarrow> mail list \<times> nat" where
  "emailOutbox_list_unsealed db prefix limit =
     (let rows = filter (unsealed_with prefix) (db_outbox db)
      in (take limit (rev (sort_key ml_created_at (sort_key ml_id rows))), length rows))"

definition emailOutbox_sealContent :: "string \<Rightarrow> string \<Rightarrow> string \<Rightarrow> portal_db \<Rightarrow> bool \<times> portal_db" where
  "emailOutbox_sealContent i html text db =
     (let hit = (\<lambda>m. ml_id m = i \<and> ml_subject m \<noteq> OUTBOX_SEALED_SUBJECT)
      in (list_ex hit (db_outbox db),
          db\<lparr>db_outbox := update_where hit
               (\<lambda>m. m\<lparr>ml_subject := OUTBOX_SEALED_SUBJECT, ml_body_html := html, ml_body_text := text\<rparr>) (db_outbox db)\<rparr>))"

definition cancel_mail :: "string \<Rightarrow> int \<Rightarrow> mail \<Rightarrow> mail" where
  "cancel_mail generation stamp m = m\<lparr>ml_status := Mail_Failed, ml_next_attempt_at := None,
     ml_last_error := Some ''address-released'', ml_updated_at := stamp, ml_generation := generation\<rparr>"

definition emailOutbox_cancelForReleasedAddress :: "string \<Rightarrow> string \<Rightarrow> int \<Rightarrow> nat tx" where
  "emailOutbox_cancelForReleasedAddress email generation stamp db =
     (let address = js_lower (js_trim email);
          to_it = (\<lambda>m. sql_lower (ml_to_email m) = address)
      in if list_ex (\<lambda>m. to_it m \<and> ml_status m = Mail_Sending) (db_outbox db)
         then Inl (conflict ''Email delivery is in progress; retry after it settles'' None)
         else Inr (length (filter (\<lambda>m. to_it m \<and> ml_status m = Mail_Pending) (db_outbox db)),
           db\<lparr>db_outbox := update_where (\<lambda>m. to_it m \<and> ml_status m = Mail_Pending)
               (cancel_mail generation stamp) (db_outbox db)\<rparr>))"

record enqueue_input =
  ei_id :: "string option"
  ei_to_email :: string
  ei_priority :: "nat option"
  ei_recipient_user_id :: "string option"
  ei_subject :: string
  ei_body_html :: string
  ei_body_text :: string
  ei_next_attempt_at :: "int option"
  ei_idempotency_key :: "string option"

definition mail_row :: "string \<Rightarrow> int \<Rightarrow> bool \<Rightarrow> enqueue_input \<Rightarrow> mail" where
  "mail_row i now ok input = \<lparr>ml_id = i, ml_generation = [], ml_to_email = ei_to_email input,
     ml_priority = (case ei_priority input of None \<Rightarrow> 1 | Some p \<Rightarrow> p), ml_recipient_user_id = ei_recipient_user_id input,
     ml_subject = ei_subject input, ml_body_html = ei_body_html input, ml_body_text = ei_body_text input,
     ml_status = (if ok then Mail_Pending else Mail_Failed), ml_attempts = 0,
     ml_next_attempt_at = (if ok then Some (case ei_next_attempt_at input of None \<Rightarrow> now | Some t \<Rightarrow> t) else None),
     ml_last_error = (if ok then None else Some RECIPIENT_CHANGED),
     ml_idempotency_key = ei_idempotency_key input, ml_created_at = now, ml_updated_at = now\<rparr>"

text \<open>The insert races nobody: the transaction is alone on the connection. A taken id is a driver error.\<close>

definition emailOutbox_enqueue :: "string \<Rightarrow> int \<Rightarrow> enqueue_input \<Rightarrow> (mail \<times> bool) tx" where
  "emailOutbox_enqueue newId now input db =
     (case (case ei_idempotency_key input of None \<Rightarrow> None | Some key \<Rightarrow> emailOutbox_findByIdempotencyKey db key) of
        Some existing \<Rightarrow> Inr ((existing, False), db)
      | None \<Rightarrow>
          (let i = (case ei_id input of None \<Rightarrow> newId | Some i \<Rightarrow> i);
               ok = (case ei_recipient_user_id input of None \<Rightarrow> True
                     | Some u \<Rightarrow> u = [] \<or> users_lockEmailRecipient db u (ei_to_email input));
               row = mail_row i now ok input
           in if emailOutbox_findById db i \<noteq> None then Inl (internal_error ''Internal server error'')
              else Inr ((row, True), db\<lparr>db_outbox := db_outbox db @ [row]\<rparr>)))"

subsection \<open>Sealed content\<close>

definition SEALED_BODY_PREFIX :: string where "SEALED_BODY_PREFIX = ''nexus-sealed-v1:''"
definition BEARER_IDEMPOTENCY_PREFIXES :: "string list" where "BEARER_IDEMPOTENCY_PREFIXES = [''reset:'', ''verify:'']"
definition LEGACY_SEAL_BATCH :: nat where "LEGACY_SEAL_BATCH = 200"

record mail_content =
  mc_subject :: string
  mc_html :: string
  mc_text :: string

definition boundTo :: "string \<Rightarrow> string \<Rightarrow> string \<times> string" where
  "boundTo i toEmail = (i, toEmail)"

definition content_json :: "mail_content \<Rightarrow> json" where
  "content_json c = JObj [(''subject'', JStr (mc_subject c)), (''html'', JStr (mc_html c)), (''text'', JStr (mc_text c))]"

text \<open>The nonce of an envelope is drawn with it.\<close>

type_synonym sealer = "string \<Rightarrow> json \<Rightarrow> string \<times> string \<Rightarrow> string"
type_synonym opener = "string \<Rightarrow> string \<times> string \<Rightarrow> json option"

definition sealMailContent :: "sealer \<Rightarrow> string \<Rightarrow> string \<Rightarrow> string \<Rightarrow> mail_content \<Rightarrow> string \<times> string \<times> string" where
  "sealMailContent sealer nonce i toEmail content =
     (OUTBOX_SEALED_SUBJECT, [], SEALED_BODY_PREFIX @ sealer nonce (content_json content) (boundTo i toEmail))"

definition sealedEnqueueInput ::
  "sealer \<Rightarrow> string \<Rightarrow> string \<Rightarrow> string \<Rightarrow> mail_content \<Rightarrow> string option \<Rightarrow> string option \<Rightarrow> enqueue_input" where
  "sealedEnqueueInput sealer nonce newId to content idempotencyKey recipientUserId =
     (case sealMailContent sealer nonce newId to content of (subject, html, text) \<Rightarrow>
       \<lparr>ei_id = Some newId, ei_to_email = to, ei_priority = Some 2, ei_recipient_user_id = recipientUserId,
        ei_subject = subject, ei_body_html = html, ei_body_text = text, ei_next_attempt_at = None,
        ei_idempotency_key = idempotencyKey\<rparr>)"

definition json_text :: "json option \<Rightarrow> string option" where
  "json_text v = (case v of Some (JStr s) \<Rightarrow> Some s | _ \<Rightarrow> None)"

definition UNOPENED :: string where
  "UNOPENED = ''sealed message could not be opened: it was altered, copied from another row, or sealed under a previous NEXUS_SECRET_KEY''"

definition openOutboxRecord :: "opener \<Rightarrow> mail \<Rightarrow> string + mail_content" where
  "openOutboxRecord opener entry =
     (let hasSealedSubject = (ml_subject entry = OUTBOX_SEALED_SUBJECT);
          hasSealedBody = starts_with SEALED_BODY_PREFIX (ml_body_text entry)
      in if hasSealedSubject \<noteq> hasSealedBody then Inl ''sealed message has only one of its required markers''
         else if \<not> hasSealedSubject
         then Inr \<lparr>mc_subject = ml_subject entry, mc_html = ml_body_html entry, mc_text = ml_body_text entry\<rparr>
         else (case opener (drop (length SEALED_BODY_PREFIX) (ml_body_text entry)) (boundTo (ml_id entry) (ml_to_email entry)) of
             None \<Rightarrow> Inl UNOPENED
           | Some (JObj m) \<Rightarrow>
               (case (json_text (map_of m ''subject''), json_text (map_of m ''html''), json_text (map_of m ''text'')) of
                  (Some s, Some h, Some t) \<Rightarrow> Inr \<lparr>mc_subject = s, mc_html = h, mc_text = t\<rparr>
                | _ \<Rightarrow> Inl ''sealed message opened to something that is not mail content'')
           | Some _ \<Rightarrow> Inl ''sealed message opened to something that is not mail content''))"

fun seal_rows :: "sealer \<Rightarrow> mail list \<Rightarrow> nat \<Rightarrow> nat io" where
  "seal_rows sealer [] sealed = io_return sealed"
| "seal_rows sealer (entry # rest) sealed =
     io_bind io_newId (\<lambda>nonce.
     case sealMailContent sealer nonce (ml_id entry) (ml_to_email entry)
         \<lparr>mc_subject = ml_subject entry, mc_html = ml_body_html entry, mc_text = ml_body_text entry\<rparr> of (_, html, text) \<Rightarrow>
     io_bind (io_tx (tx_of (emailOutbox_sealContent (ml_id entry) html text))) (\<lambda>ok.
     seal_rows sealer rest (if ok then Suc sealed else sealed)))"

fun seal_prefixes :: "sealer \<Rightarrow> string list \<Rightarrow> nat \<Rightarrow> nat \<Rightarrow> (nat \<times> bool) io" where
  "seal_prefixes sealer [] budget sealed = io_return (sealed, False)"
| "seal_prefixes sealer (prefix # rest) budget sealed =
     (if budget = 0 then io_return (sealed, True)
      else
        io_bind (io_read (\<lambda>db. emailOutbox_list_unsealed db prefix budget)) (\<lambda>(items, count).
        io_bind (seal_rows sealer items sealed) (\<lambda>sealed'.
        if length items < count then io_return (sealed', True)
        else seal_prefixes sealer rest (budget - length items) sealed')))"

definition sealLegacyBearerRows :: "sealer \<Rightarrow> nat \<Rightarrow> (nat \<times> bool) io" where
  "sealLegacyBearerRows sealer limit = seal_prefixes sealer BEARER_IDEMPOTENCY_PREFIXES limit 0"

end
