(* ===== verification/Accounts.thy ===== *)
theory Accounts
  imports Outbox
begin

section \<open>Accounts and gateway identities in the store\<close>

text \<open>
  The repositories of the SQLite adapter (\<open>server/src/db/adapters/sqlite/index.ts\<close>) that the account
  services use: users, sessions, single-use links, linked identities, organizations, the durable
  revocations (\<open>gateway_teardown_jobs\<close>), credential rows and registered gateway identities. Columns that
  no modelled operation reads are left out, and with them the time a row was last updated.
\<close>

subsection \<open>Users\<close>

text \<open>A patch names the columns it writes.\<close>

record user_patch =
  up_role :: "role option"
  up_status :: "user_status option"
  up_email :: "string option"
  up_email_verified :: "bool option"
  up_display_name :: "string option"
  up_company :: "string option option"
  up_phone :: "string option option"
  up_org_id :: "string option option"
  up_password_hash :: "string option"
  up_last_login_at :: "int option"

definition no_user_patch :: user_patch where
  "no_user_patch = \<lparr>up_role = None, up_status = None, up_email = None, up_email_verified = None, up_display_name = None,
     up_company = None, up_phone = None, up_org_id = None, up_password_hash = None, up_last_login_at = None\<rparr>"

text \<open>Addresses are stored trimmed and in lower case.\<close>

definition userUpdateColumns :: "user_patch \<Rightarrow> user \<Rightarrow> user" where
  "userUpdateColumns p u = u\<lparr>u_role := patched (up_role p) (u_role u), u_status := patched (up_status p) (u_status u),
     u_email := (case up_email p of None \<Rightarrow> u_email u | Some e \<Rightarrow> js_lower (js_trim e)),
     u_email_verified := patched (up_email_verified p) (u_email_verified u),
     u_display_name := patched (up_display_name p) (u_display_name u), u_company := patched (up_company p) (u_company u),
     u_phone := patched (up_phone p) (u_phone u), u_org_id := patched (up_org_id p) (u_org_id u),
     u_password_hash := patched (up_password_hash p) (u_password_hash u),
     u_last_login_at := (case up_last_login_at p of None \<Rightarrow> u_last_login_at u | Some t \<Rightarrow> Some t)\<rparr>"

definition EMAIL_CONFLICT :: string where
  "EMAIL_CONFLICT = ''An account with that email address already exists''"

text \<open>The unique index on \<open>lower(email)\<close>, and the reference to an organization.\<close>

definition users_unique :: "user list \<Rightarrow> bool" where
  "users_unique rows \<longleftrightarrow> distinct (map u_id rows) \<and> distinct (map (\<lambda>u. sql_lower (u_email u)) rows)"

definition write_users :: "(user \<Rightarrow> bool) \<Rightarrow> user_patch \<Rightarrow> portal_db \<Rightarrow> nexus_error + portal_db" where
  "write_users hit p db =
     (let rows = update_where hit (userUpdateColumns p) (db_users db)
      in mapConflict EMAIL_CONFLICT (users_unique rows)
           (case up_org_id p of None \<Rightarrow> True | Some org \<Rightarrow> \<not> list_ex hit (db_users db) \<or> ref_ok og_id (db_orgs db) org)
           (db\<lparr>db_users := rows\<rparr>))"

definition users_update :: "string \<Rightarrow> user_patch \<Rightarrow> user option tx" where
  "users_update i p db = rbind (write_users (\<lambda>u. u_id u = i) p db) (\<lambda>db'. Inr (users_findById db' i, db'))"

record user_expected =
  ue_role :: "role option"
  ue_status :: "user_status option"
  ue_email :: "string option"
  ue_password_hash :: "string option"

definition expect_user :: user_expected where
  "expect_user = \<lparr>ue_role = None, ue_status = None, ue_email = None, ue_password_hash = None\<rparr>"

definition user_matches :: "user_expected \<Rightarrow> user \<Rightarrow> bool" where
  "user_matches e u \<longleftrightarrow> (case ue_role e of None \<Rightarrow> True | Some r \<Rightarrow> u_role u = r) \<and>
     (case ue_status e of None \<Rightarrow> True | Some s \<Rightarrow> u_status u = s) \<and>
     (case ue_email e of None \<Rightarrow> True | Some x \<Rightarrow> u_email u = js_lower (js_trim x)) \<and>
     (case ue_password_hash e of None \<Rightarrow> True | Some h \<Rightarrow> u_password_hash u = h)"

definition users_updateIfMatches :: "string \<Rightarrow> user_expected \<Rightarrow> user_patch \<Rightarrow> user option tx" where
  "users_updateIfMatches i e p db =
     (let hit = (\<lambda>u. u_id u = i \<and> user_matches e u)
      in rbind (write_users hit p db) (\<lambda>db'.
           Inr (if list_ex hit (db_users db) then users_findById db' i else None, db')))"

definition users_countActiveSuperAdmins :: "portal_db \<Rightarrow> string \<Rightarrow> nat" where
  "users_countActiveSuperAdmins db exclude =
     length (filter (\<lambda>u. u_role u = Super_Admin \<and> u_status u = User_Active \<and> u_id u \<noteq> exclude) (db_users db))"

subsection \<open>Sessions, links, linked identities and organizations\<close>

text \<open>An inserted row must have a value of its own in a unique column.\<close>

definition fresh_in :: "('r \<Rightarrow> string) \<Rightarrow> 'r \<Rightarrow> 'r list \<Rightarrow> bool" where
  "fresh_in column row rows \<longleftrightarrow> \<not> list_ex (\<lambda>r. column r = column row) rows"

definition sessions_deleteForUser :: "string \<Rightarrow> portal_db \<Rightarrow> nat \<times> portal_db" where
  "sessions_deleteForUser userId db =
     (length (filter (\<lambda>s. se_user_id s = userId) (db_sessions db)),
      db\<lparr>db_sessions := filter (\<lambda>s. se_user_id s \<noteq> userId) (db_sessions db)\<rparr>)"

definition sessions_create :: "session \<Rightarrow> session tx" where
  "sessions_create s db =
     rbind (mapConflict ''Session token collision''
         (fresh_in se_id s (db_sessions db) \<and> fresh_in se_token_hash s (db_sessions db))
         (ref_ok u_id (db_users db) (Some (se_user_id s))) (db\<lparr>db_sessions := db_sessions db @ [s]\<rparr>))
       (\<lambda>db'. Inr (s, db'))"

definition verificationTokens_deleteForUser :: "string \<Rightarrow> token_purpose \<Rightarrow> portal_db \<Rightarrow> nat \<times> portal_db" where
  "verificationTokens_deleteForUser userId purpose db =
     (let hit = (\<lambda>t. vt_user_id t = userId \<and> vt_purpose t = purpose)
      in (length (filter hit (db_tokens db)), db\<lparr>db_tokens := filter (\<lambda>t. \<not> hit t) (db_tokens db)\<rparr>))"

definition userIdentities_listByUser :: "portal_db \<Rightarrow> string \<Rightarrow> user_identity list" where
  "userIdentities_listByUser db userId = filter (\<lambda>i. ui_user_id i = userId) (db_identities db)"

definition organizations_findById :: "portal_db \<Rightarrow> string \<Rightarrow> organization option" where
  "organizations_findById db i = find_by og_id i (db_orgs db)"

definition ORG_CONFLICT :: string where "ORG_CONFLICT = ''An organization with that name already exists''"

definition organizations_unique :: "organization list \<Rightarrow> bool" where
  "organizations_unique rows \<longleftrightarrow> distinct (map og_id rows) \<and> distinct (map (\<lambda>o1. sql_lower (og_name o1)) rows)"

definition organizations_create :: "organization \<Rightarrow> organization tx" where
  "organizations_create row db =
     rbind (mapConflict ORG_CONFLICT (organizations_unique (db_orgs db @ [row])) True (db\<lparr>db_orgs := db_orgs db @ [row]\<rparr>))
       (\<lambda>db'. Inr (row, db'))"

definition organizations_update :: "string \<Rightarrow> string option \<Rightarrow> string option option \<Rightarrow> organization option tx" where
  "organizations_update i name description db =
     (let rows = update_where (\<lambda>o1. og_id o1 = i)
            (\<lambda>o1. o1\<lparr>og_name := patched name (og_name o1), og_description := patched description (og_description o1)\<rparr>) (db_orgs db)
      in rbind (mapConflict ORG_CONFLICT (organizations_unique rows) True (db\<lparr>db_orgs := rows\<rparr>))
           (\<lambda>db'. Inr (organizations_findById db' i, db')))"

subsection \<open>Credential rows\<close>

definition LIVE_CREDENTIAL_STATUSES :: "credential_status list" where
  "LIVE_CREDENTIAL_STATUSES = [Cr_Active, Cr_Retiring]"

definition CREDENTIAL_TYPES :: "credential_type list" where
  "CREDENTIAL_TYPES = [Keyauth, Basicauth, Jwt]"

definition credentials_count :: "portal_db \<Rightarrow> string \<Rightarrow> credential_status \<Rightarrow> nat" where
  "credentials_count db userId status =
     length (filter (\<lambda>c. cm_user_id c = userId \<and> cm_status c = status) (db_credentials db))"

text \<open>\<open>list\<close> of an account's rows in one status: newest first, with the total.\<close>

definition credentials_list :: "portal_db \<Rightarrow> string \<Rightarrow> credential_status \<Rightarrow> nat \<Rightarrow> nat \<Rightarrow> credential list \<times> nat" where
  "credentials_list db userId status limit offset =
     (let rows = filter (\<lambda>c. cm_user_id c = userId \<and> cm_status c = status) (db_credentials db)
      in (take limit (drop offset (rev (sort_key cm_created_at (sort_key cm_id rows)))), length rows))"

text \<open>\<open>listByConsumer\<close> for some statuses; the order of the rows is not observed here.\<close>

definition credentials_listByConsumer :: "portal_db \<Rightarrow> string \<Rightarrow> credential_status list \<Rightarrow> credential list" where
  "credentials_listByConsumer db consumerId statuses =
     filter (\<lambda>c. cm_consumer_id c = consumerId \<and> cm_status c \<in> set statuses) (db_credentials db)"

definition credentials_setStatus :: "string \<Rightarrow> credential_status \<Rightarrow> portal_db \<Rightarrow> portal_db" where
  "credentials_setStatus i status db =
     db\<lparr>db_credentials := update_where (\<lambda>c. cm_id c = i) (\<lambda>c. c\<lparr>cm_status := status\<rparr>) (db_credentials db)\<rparr>"

subsection \<open>Registered gateway identities\<close>

definition gatewayIdentities_findByUsername :: "portal_db \<Rightarrow> string \<Rightarrow> string \<Rightarrow> gateway_identity option" where
  "gatewayIdentities_findByUsername db namespace username =
     List.find (\<lambda>g. gi_namespace g = namespace \<and> gi_username g = username) (db_registry db)"

definition gatewayIdentities_listByUser :: "portal_db \<Rightarrow> string \<Rightarrow> string \<Rightarrow> gateway_identity list" where
  "gatewayIdentities_listByUser db userId namespace =
     sort_key gi_created_at (sort_key gi_id (filter (\<lambda>g. gi_user_id g = userId \<and> gi_namespace g = namespace) (db_registry db)))"

definition gatewayIdentities_delete :: "string \<Rightarrow> portal_db \<Rightarrow> bool \<times> portal_db" where
  "gatewayIdentities_delete i db = (list_ex (\<lambda>g. gi_id g = i) (db_registry db),
     db\<lparr>db_registry := filter (\<lambda>g. gi_id g \<noteq> i) (db_registry db)\<rparr>)"

subsection \<open>Consumers of an account\<close>

text \<open>\<open>consumers.list\<close> of one account in the portal's namespace, a page at a time, with the total. The rows
  carry no time of creation here: the order of the table stands for the order of the query.\<close>

definition consumers_list :: "portal_db \<Rightarrow> string \<Rightarrow> nat \<Rightarrow> nat \<Rightarrow> consumer list \<times> nat" where
  "consumers_list db userId limit offset =
     (let rows = filter (\<lambda>c. co_user_id c = userId) (db_consumers db) in (take limit (drop offset rows), length rows))"

definition consumers_dropFerrumId :: "string \<Rightarrow> string \<Rightarrow> portal_db \<Rightarrow> portal_db" where
  "consumers_dropFerrumId consumerId userId db =
     (case List.find (\<lambda>c. co_ferrum_consumer_id c = consumerId) (db_consumers db) of
        Some c \<Rightarrow> if co_user_id c = userId
          then db\<lparr>db_consumers := filter (\<lambda>d. d \<noteq> c) (db_consumers db)\<rparr> else db
      | None \<Rightarrow> db)"

subsection \<open>Durable revocations\<close>

definition gatewayTeardownJobs_findByUser :: "portal_db \<Rightarrow> string \<Rightarrow> teardown_job option" where
  "gatewayTeardownJobs_findByUser db userId = List.find (\<lambda>j. tj_user_id j = userId) (db_teardown db)"

text \<open>The unique column is the account: a second disable resets the outstanding job. A new row whose id is
  taken is refused by the primary key.\<close>

definition gatewayTeardownJobs_upsertPending ::
  "string \<Rightarrow> string \<Rightarrow> string \<Rightarrow> string option \<Rightarrow> int \<Rightarrow> teardown_job tx" where
  "gatewayTeardownJobs_upsertPending newId generation userId requestedBy now db =
     (let fresh = \<lparr>tj_id = newId, tj_generation = generation, tj_user_id = userId, tj_status = Td_Pending, tj_attempts = 0,
            tj_next_attempt_at = Some now, tj_last_error = None, tj_requested_by = requestedBy, tj_created_at = now,
            tj_updated_at = now, tj_completed_at = None\<rparr>;
          reset = (\<lambda>j. fresh\<lparr>tj_id := tj_id j, tj_created_at := tj_created_at j\<rparr>)
      in case gatewayTeardownJobs_findByUser db userId of
           None \<Rightarrow> if list_ex (\<lambda>j. tj_id j = newId) (db_teardown db) then Inl (internal_error ''Internal server error'')
                   else Inr (fresh, db\<lparr>db_teardown := db_teardown db @ [fresh]\<rparr>)
         | Some old \<Rightarrow> Inr (reset old, db\<lparr>db_teardown := update_where (\<lambda>j. tj_user_id j = userId) reset (db_teardown db)\<rparr>))"

definition teardown_due :: "int \<Rightarrow> teardown_job \<Rightarrow> bool" where
  "teardown_due now j \<longleftrightarrow> tj_status j = Td_Pending \<and> (case tj_next_attempt_at j of None \<Rightarrow> True | Some t \<Rightarrow> t \<le> now)"

definition claim_teardown :: "string \<Rightarrow> int \<Rightarrow> teardown_job \<Rightarrow> teardown_job" where
  "claim_teardown generation stamp j = j\<lparr>tj_status := Td_Sending, tj_attempts := Suc (tj_attempts j),
     tj_updated_at := stamp, tj_generation := generation, tj_completed_at := None\<rparr>"

text \<open>The update and the read name the rows by id; the first is due and pending.\<close>

definition gatewayTeardownJobs_claimDue :: "string \<Rightarrow> int \<Rightarrow> int \<Rightarrow> nat \<Rightarrow> portal_db \<Rightarrow> teardown_job list \<times> portal_db" where
  "gatewayTeardownJobs_claimDue generation stamp now limit db =
     (let ordered = sort_key (\<lambda>j. case tj_next_attempt_at j of None \<Rightarrow> [] | Some t \<Rightarrow> [t])
            (sort_key tj_created_at (filter (teardown_due now) (db_teardown db)));
          ids = map tj_id (take (max 1 limit) ordered);
          db1 = db\<lparr>db_teardown := update_where (\<lambda>j. tj_id j \<in> set ids \<and> tj_status j = Td_Pending)
                    (claim_teardown generation stamp) (db_teardown db)\<rparr>
      in (filter (\<lambda>j. tj_id j \<in> set ids) (db_teardown db1), db1))"

text \<open>\<open>WHERE id = ? AND generation = ? AND status = ?\<close>.\<close>

definition teardown_is :: "teardown_status \<Rightarrow> teardown_job \<Rightarrow> teardown_job \<Rightarrow> bool" where
  "teardown_is status job j \<longleftrightarrow> tj_id j = tj_id job \<and> tj_generation j = tj_generation job \<and> tj_status j = status"

definition settle_teardown ::
  "teardown_status \<Rightarrow> teardown_job \<Rightarrow> (teardown_job \<Rightarrow> teardown_job) \<Rightarrow> portal_db \<Rightarrow> bool \<times> portal_db" where
  "settle_teardown status job f db = (list_ex (teardown_is status job) (db_teardown db),
     db\<lparr>db_teardown := update_where (teardown_is status job) f (db_teardown db)\<rparr>)"

definition gatewayTeardownJobs_claimPending ::
  "string \<Rightarrow> int \<Rightarrow> teardown_job \<Rightarrow> portal_db \<Rightarrow> teardown_job option \<times> portal_db" where
  "gatewayTeardownJobs_claimPending generation stamp job db =
     (case settle_teardown Td_Pending job (claim_teardown generation stamp) db of
        (changed, db') \<Rightarrow> (if changed then Some (claim_teardown generation stamp job) else None, db'))"

definition gatewayTeardownJobs_markDone :: "teardown_job \<Rightarrow> int \<Rightarrow> portal_db \<Rightarrow> bool \<times> portal_db" where
  "gatewayTeardownJobs_markDone job instant = settle_teardown Td_Sending job
     (\<lambda>j. j\<lparr>tj_status := Td_Done, tj_next_attempt_at := None, tj_last_error := None, tj_completed_at := Some instant,
            tj_updated_at := instant\<rparr>)"

definition gatewayTeardownJobs_reschedule :: "teardown_job \<Rightarrow> int \<Rightarrow> string \<Rightarrow> int \<Rightarrow> portal_db \<Rightarrow> bool \<times> portal_db" where
  "gatewayTeardownJobs_reschedule job nextAttemptAt lastError stamp = settle_teardown Td_Sending job
     (\<lambda>j. j\<lparr>tj_status := Td_Pending, tj_next_attempt_at := Some nextAttemptAt, tj_last_error := Some lastError,
            tj_updated_at := stamp, tj_completed_at := None\<rparr>)"

definition gatewayTeardownJobs_releaseStale :: "int \<Rightarrow> int \<Rightarrow> int \<Rightarrow> portal_db \<Rightarrow> nat \<times> portal_db" where
  "gatewayTeardownJobs_releaseStale olderThan due stamp db =
     (let stale = (\<lambda>j. tj_status j = Td_Sending \<and> tj_updated_at j \<le> olderThan)
      in (length (filter stale (db_teardown db)),
          db\<lparr>db_teardown := update_where stale
               (\<lambda>j. j\<lparr>tj_status := Td_Pending, tj_next_attempt_at := Some due, tj_updated_at := stamp\<rparr>) (db_teardown db)\<rparr>))"

definition gatewayTeardownJobs_deleteByUser :: "string \<Rightarrow> portal_db \<Rightarrow> bool \<times> portal_db" where
  "gatewayTeardownJobs_deleteByUser userId db = (list_ex (\<lambda>j. tj_user_id j = userId) (db_teardown db),
     db\<lparr>db_teardown := filter (\<lambda>j. tj_user_id j \<noteq> userId) (db_teardown db)\<rparr>)"

definition gatewayTeardownJobs_deleteClaimed :: "teardown_job \<Rightarrow> portal_db \<Rightarrow> bool \<times> portal_db" where
  "gatewayTeardownJobs_deleteClaimed job db = (list_ex (teardown_is Td_Sending job) (db_teardown db),
     db\<lparr>db_teardown := filter (\<lambda>j. \<not> teardown_is Td_Sending job j) (db_teardown db)\<rparr>)"

end
