(* ===== verification/Teardown.thy ===== *)
theory Teardown
  imports Accounts Paging
begin

section \<open>Taking an account's gateway access down\<close>

text \<open>
  Models the part of the credentials service (\<open>server/src/credentials/service.ts\<close>) that strips a disabled
  account at the gateway (\<open>disableGatewayAccess\<close>, \<open>teardownIdentity\<close>), gives an enabled one its groups back
  (\<open>restoreGatewayAccess\<close>), and runs one attempt of the durable revocation (\<open>runGatewayTeardown\<close>). The id the
  gateway derives from a name (\<open>derivedId\<close>) is an argument. Paged reads take fuel. Log lines are left out.
\<close>

definition gatewayIdentityLockKey :: "string \<Rightarrow> string" where
  "gatewayIdentityLockKey username = ''test-consumer:'' @ username"

definition listConsumers :: "nat \<Rightarrow> string \<Rightarrow> consumer list io" where
  "listConsumers fuel userId = pages_all fuel (\<lambda>offset. io_read (\<lambda>db. consumers_list db userId MAX_PAGE_SIZE offset)) 0 []"

definition user_status_name :: "user_status \<Rightarrow> string" where
  "user_status_name s = (case s of User_Active \<Rightarrow> ''active'' | User_Disabled \<Rightarrow> ''disabled'')"

definition assertStillDisabled :: "string \<Rightarrow> unit io" where
  "assertStillDisabled userId =
     io_bind (io_read (\<lambda>db. users_findById db userId)) (\<lambda>owner. case owner of
       None \<Rightarrow> io_return ()
     | Some u \<Rightarrow> if u_status u \<noteq> User_Disabled
         then io_throw (plain (conflict ''That account is no longer disabled; its gateway access was left alone''
                (Some (JObj [(''user_id'', JStr userId), (''status'', JStr (user_status_name (u_status u)))]))))
         else io_return ())"

definition revoke_rows :: "string \<Rightarrow> portal_db \<Rightarrow> nat \<times> portal_db" where
  "revoke_rows consumerId db =
     (let rows = credentials_listByConsumer db consumerId LIVE_CREDENTIAL_STATUSES
      in (length rows, fold (\<lambda>c. credentials_setStatus (cm_id c) Cr_Revoked) rows db))"

definition revokeRowsFor :: "string \<Rightarrow> nat io" where
  "revokeRowsFor consumerId = io_tx (tx_of (revoke_rows consumerId))"

subsection \<open>One registered identity\<close>

record identity_teardown =
  it_consumer_id :: "string option"
  it_revoked :: nat
  it_registration_removed :: bool
  it_consumer_deleted :: bool

definition no_identity :: identity_teardown where
  "no_identity = \<lparr>it_consumer_id = None, it_revoked = 0, it_registration_removed = False, it_consumer_deleted = False\<rparr>"

text \<open>\<open>owner\<close> is \<open>requireDisabledOwner\<close>; \<open>whileHeld\<close> is the caller's work under the key.\<close>

definition find_live :: "(string \<Rightarrow> string) \<Rightarrow> string \<Rightarrow> gateway_identity option \<Rightarrow> string option io" where
  "find_live derivedId username current =
     (let named = (\<lambda>i. io_bind (edge_get i) (\<lambda>there. io_return (if there then Some i else None)))
      in case current of
           None \<Rightarrow> named (derivedId username)
         | Some g \<Rightarrow> (case gi_consumer_id g of
               Some c \<Rightarrow> named c
             | None \<Rightarrow> io_bind (named (derivedId username)) (\<lambda>found. case found of
                 Some i \<Rightarrow> io_return (Some i)
               | None \<Rightarrow> edge_getByUsername username)))"

definition drop_registration ::
  "bool \<Rightarrow> identity_teardown \<Rightarrow> gateway_identity option \<Rightarrow> identity_teardown io" where
  "drop_registration followed result current = (case current of
      None \<Rightarrow> io_return result
    | Some g \<Rightarrow> io_bind (io_try (io_tx (tx_of (gatewayIdentities_delete (gi_id g))))) (\<lambda>r. case r of
          Inr _ \<Rightarrow> io_return result
        | Inl f \<Rightarrow> if \<not> followed \<or> (it_consumer_id result = None \<and> \<not> it_registration_removed result) then io_throw f
                   else io_return (result\<lparr>it_registration_removed := False\<rparr>)))"

definition collect_identity ::
  "(string \<Rightarrow> string) \<Rightarrow> string \<Rightarrow> (identity_teardown \<Rightarrow> unit io) option \<Rightarrow> gateway_identity option \<Rightarrow> identity_teardown io" where
  "collect_identity derivedId username whileHeld current =
     io_bind (find_live derivedId username current) (\<lambda>live.
     io_bind (case live of None \<Rightarrow> io_return 0
         | Some c \<Rightarrow> io_lock c (io_bind (edge_act (Delete_Consumer c)) (\<lambda>_. revokeRowsFor c))) (\<lambda>deleted.
     let bound = (case current of None \<Rightarrow> None | Some g \<Rightarrow> gi_consumer_id g) in
     io_bind (case bound of None \<Rightarrow> io_return 0
         | Some c \<Rightarrow> if live = Some c then io_return 0 else revokeRowsFor c) (\<lambda>gone.
     let result = \<lparr>it_consumer_id = (case live of Some c \<Rightarrow> Some c | None \<Rightarrow> bound), it_revoked = deleted + gone,
           it_registration_removed = (current \<noteq> None), it_consumer_deleted = (live \<noteq> None)\<rparr> in
     io_bind (case whileHeld of None \<Rightarrow> io_return () | Some after \<Rightarrow> after result) (\<lambda>_.
     drop_registration (whileHeld \<noteq> None) result current))))"

definition teardownIdentity ::
  "(string \<Rightarrow> string) \<Rightarrow> string \<Rightarrow> string \<Rightarrow> string option \<Rightarrow> (identity_teardown \<Rightarrow> unit io) option \<Rightarrow> identity_teardown io" where
  "teardownIdentity derivedId namespace username owner whileHeld =
     io_lock (gatewayIdentityLockKey username)
       (io_bind (case owner of None \<Rightarrow> io_return () | Some u \<Rightarrow> assertStillDisabled u) (\<lambda>_.
        io_bind (io_read (\<lambda>db. gatewayIdentities_findByUsername db namespace username)) (\<lambda>current.
        if owner \<noteq> None \<and> (case current of None \<Rightarrow> True | Some g \<Rightarrow> Some (gi_user_id g) \<noteq> owner)
        then io_return no_identity
        else collect_identity derivedId username whileHeld current)))"

subsection \<open>The whole account\<close>

record gateway_teardown =
  gt_consumer_id :: "string option"
  gt_revoked :: nat
  gt_removed_groups :: "string list"
  gt_deleted :: "string list"

text \<open>The other consumers on which the account has live rows, each once, in the order of their ids.\<close>

definition foreign_of :: "string list \<Rightarrow> credential list \<Rightarrow> string list" where
  "foreign_of durable rows = sort (remdups (filter (\<lambda>c. c \<notin> set durable) (map cm_consumer_id rows)))"

definition foreignConsumerIds :: "nat \<Rightarrow> string \<Rightarrow> string list \<Rightarrow> string list io" where
  "foreignConsumerIds fuel userId durable =
     io_bind (each (\<lambda>status rows.
         io_bind (pages_all fuel (\<lambda>offset. io_read (\<lambda>db. credentials_list db userId status MAX_PAGE_SIZE offset)) 0 []) (\<lambda>found.
         io_return (rows @ found))) LIVE_CREDENTIAL_STATUSES []) (\<lambda>rows.
     io_return (foreign_of durable rows))"

definition disable_registered ::
  "(string \<Rightarrow> string) \<Rightarrow> string \<Rightarrow> string \<Rightarrow> gateway_identity \<Rightarrow> gateway_teardown \<Rightarrow> gateway_teardown io" where
  "disable_registered derivedId namespace userId identity acc =
     io_bind (teardownIdentity derivedId namespace (gi_username identity) (Some userId) None) (\<lambda>outcome.
     io_return (acc\<lparr>gt_revoked := gt_revoked acc + it_revoked outcome,
       gt_deleted := gt_deleted acc @ (case it_consumer_id outcome of None \<Rightarrow> [] | Some c \<Rightarrow> [c])\<rparr>))"

definition disable_foreign :: "string \<Rightarrow> string \<Rightarrow> gateway_teardown \<Rightarrow> gateway_teardown io" where
  "disable_foreign userId foreignId acc =
     io_bind (io_lock foreignId
       (io_bind (assertStillDisabled userId) (\<lambda>_.
        io_bind (edge_get foreignId) (\<lambda>live.
        io_bind (if live then edge_act (Delete_Consumer foreignId) else io_return ()) (\<lambda>_.
        io_bind (revokeRowsFor foreignId) (\<lambda>count.
        io_bind (io_tx (tx_of (\<lambda>db. ((), consumers_dropFerrumId foreignId userId db)))) (\<lambda>_.
        io_return count))))))) (\<lambda>count.
     io_return (acc\<lparr>gt_revoked := gt_revoked acc + count, gt_deleted := gt_deleted acc @ [foreignId]\<rparr>))"

definition strip_consumer :: "string \<Rightarrow> unit io" where
  "strip_consumer consumerId =
     io_bind (edge_replace consumerId []) (\<lambda>_.
     each (\<lambda>type _. edge_act (Delete_Credentials consumerId type)) CREDENTIAL_TYPES ())"

definition disable_durable :: "string \<Rightarrow> string \<Rightarrow> gateway_teardown \<Rightarrow> gateway_teardown io" where
  "disable_durable userId consumerId acc =
     io_lock consumerId
       (io_bind (assertStillDisabled userId) (\<lambda>_.
        io_bind (edge_verification consumerId) (\<lambda>snapshot.
        io_bind (case snapshot of None \<Rightarrow> io_return () | Some _ \<Rightarrow> strip_consumer consumerId) (\<lambda>_.
        io_bind (revokeRowsFor consumerId) (\<lambda>count.
        io_return (acc\<lparr>gt_revoked := gt_revoked acc + count,
          gt_removed_groups := gt_removed_groups acc @ (case snapshot of None \<Rightarrow> [] | Some groups \<Rightarrow> groups)\<rparr>))))))"

definition disableGatewayAccess :: "nat \<Rightarrow> (string \<Rightarrow> string) \<Rightarrow> string \<Rightarrow> string \<Rightarrow> gateway_teardown io" where
  "disableGatewayAccess fuel derivedId namespace userId =
     io_bind (listConsumers fuel userId) (\<lambda>durable.
     let ids = map co_ferrum_consumer_id durable;
         canonical = map_option co_ferrum_consumer_id (List.find (\<lambda>c. co_application_id c = None) durable) in
     io_bind (io_read (\<lambda>db. gatewayIdentities_listByUser db userId namespace)) (\<lambda>identities.
     io_bind (each (disable_registered derivedId namespace userId) identities
         \<lparr>gt_consumer_id = None, gt_revoked = 0, gt_removed_groups = [], gt_deleted = []\<rparr>) (\<lambda>acc.
     io_bind (foreignConsumerIds fuel userId ids) (\<lambda>foreign.
     if durable = [] \<and> foreign = [] then io_return acc
     else
       io_bind (each (disable_foreign userId) foreign acc) (\<lambda>acc1.
       io_bind (each (disable_durable userId) ids acc1) (\<lambda>acc2.
       io_return (acc2\<lparr>gt_consumer_id := canonical, gt_removed_groups := js_set (gt_removed_groups acc2)\<rparr>)))))))"

subsection \<open>Giving the groups back\<close>

text \<open>\<open>/^nexus:api:([^:]+):mcp:(?:all|tool:[^:]+)$/\<close>, read as the parts between the colons.\<close>

definition mcp_acl_group :: "string \<Rightarrow> string option" where
  "mcp_acl_group grp = (case split_on (CHR '':'') grp of
      [a, b, i, m, k] \<Rightarrow> if a = ''nexus'' \<and> b = ''api'' \<and> i \<noteq> [] \<and> m = ''mcp'' \<and> k = ''all'' then Some i else None
    | [a, b, i, m, k, t] \<Rightarrow>
        if a = ''nexus'' \<and> b = ''api'' \<and> i \<noteq> [] \<and> m = ''mcp'' \<and> k = ''tool'' \<and> t \<noteq> [] then Some i else None
    | _ \<Rightarrow> None)"

definition apiIdFromAclGroup :: "string \<Rightarrow> string option" where
  "apiIdFromAclGroup grp = (case mcp_acl_group grp of
      Some i \<Rightarrow> Some i
    | None \<Rightarrow>
        if \<not> starts_with ACL_GROUP_PREFIX grp \<or> \<not> ends_with ACL_GROUP_APPROVED_SUFFIX grp then None
        else (let i = take (length grp - length ACL_GROUP_APPROVED_SUFFIX - length ACL_GROUP_PREFIX)
                    (drop (length ACL_GROUP_PREFIX) grp)
              in if i = [] then None else Some i))"

text \<open>The groups a grant stands for: the API's group, and its MCP groups while the API has agents.\<close>

definition groups_of_grant :: "portal_db \<Rightarrow> grant \<Rightarrow> string list" where
  "groups_of_grant db g = gr_acl_group g #
     (case apis_findById db (gr_api_id g) of
        Some api \<Rightarrow> if a_agents api \<noteq> None then mcpGroupsForGrant (gr_api_id g) (gr_approved_tools g) else []
      | None \<Rightarrow> [])"

definition restored_groups :: "string list \<Rightarrow> string list \<Rightarrow> string list" where
  "restored_groups current granted = js_set (filter (\<lambda>g. apiIdFromAclGroup g = None) current @ granted)"

definition restore_consumer :: "string \<Rightarrow> consumer \<Rightarrow> unit io" where
  "restore_consumer userId consumer =
     io_lock (co_ferrum_consumer_id consumer)
       (io_bind (io_read (\<lambda>db. users_findById db userId)) (\<lambda>owner.
        io_bind (io_guard (case owner of None \<Rightarrow> False | Some u \<Rightarrow> u_status u = User_Active)
            (userDisabled ''This account is no longer active; gateway access was not restored'')) (\<lambda>_.
        io_bind (io_read (\<lambda>db. grants_listActiveByUser db userId (Some (co_application_id consumer)))) (\<lambda>grants.
        io_bind (edge_verification (co_ferrum_consumer_id consumer)) (\<lambda>snapshot. case snapshot of
          None \<Rightarrow> if grants = [] then io_return ()
                  else io_throw (plain (edgeError ''The gateway consumer for this identity no longer exists'' None))
        | Some current \<Rightarrow>
            io_bind (each (\<lambda>g acc. io_bind (io_read (\<lambda>db. groups_of_grant db g)) (\<lambda>gs. io_return (acc @ gs))) grants []) (\<lambda>granted.
            let groups = restored_groups current granted;
                stray = list_ex (\<lambda>g. apiIdFromAclGroup g \<noteq> None \<and> g \<notin> set groups) current
            in if grants = [] \<and> \<not> stray then io_return ()
               else edge_replace (co_ferrum_consumer_id consumer) groups))))))"

text \<open>The identities of active grants without a mapping; the account itself is \<open>ACCOUNT_IDENTITY\<close>.\<close>

definition ACCOUNT_IDENTITY :: string where "ACCOUNT_IDENTITY = ''account''"

definition identity_name :: "string option \<Rightarrow> string" where
  "identity_name applicationId = (case applicationId of None \<Rightarrow> ACCOUNT_IDENTITY | Some i \<Rightarrow> i)"

definition unmapped_identities :: "consumer list \<Rightarrow> grant list \<Rightarrow> string list" where
  "unmapped_identities consumers grants =
     filter (\<lambda>i. i \<notin> set (map (\<lambda>c. identity_name (co_application_id c)) consumers))
       (js_set (map (\<lambda>g. identity_name (gr_application_id g)) grants))"

definition restoreGatewayAccess :: "nat \<Rightarrow> string \<Rightarrow> unit io" where
  "restoreGatewayAccess fuel userId =
     io_bind (listConsumers fuel userId) (\<lambda>consumers.
     io_bind (io_read (\<lambda>db. unmapped_identities consumers (grants_listActiveByUser db userId None))) (\<lambda>unmapped.
     io_bind (io_guard (unmapped = []) (edgeError ''Active grants have no gateway consumer mapping''
         (Some (JObj [(''identities'', JArr (map JStr unmapped))])))) (\<lambda>_.
     each (\<lambda>c _. restore_consumer userId c) consumers ())))"

subsection \<open>One attempt of a durable revocation\<close>

datatype teardown_outcome = Teardown_Ok | Teardown_No_Consumer | Teardown_Pending

record teardown_attempt =
  ta_outcome :: teardown_outcome
  ta_result :: "gateway_teardown option"
  ta_error :: "string option"

definition thrown_error :: "string \<Rightarrow> failure" where
  "thrown_error message = plain (internal_error message)"

definition SUPERSEDED :: string where "SUPERSEDED = ''Gateway teardown attempt was superseded''"

definition claim_attempt :: "string \<Rightarrow> teardown_job option \<Rightarrow> teardown_job io" where
  "claim_attempt userId job = (case job of
      None \<Rightarrow> io_throw (thrown_error ''Gateway teardown has no matching queued generation'')
    | Some j \<Rightarrow>
        if tj_user_id j \<noteq> userId then io_throw (thrown_error ''Gateway teardown has no matching queued generation'')
        else (case tj_status j of
            Td_Pending \<Rightarrow> io_bind io_newId (\<lambda>generation. io_bind io_now (\<lambda>stamp.
              io_bind (io_tx (tx_of (gatewayTeardownJobs_claimPending generation stamp j))) (\<lambda>claimed. case claimed of
                Some c \<Rightarrow> io_return c | None \<Rightarrow> io_throw (thrown_error SUPERSEDED))))
          | Td_Sending \<Rightarrow> io_return j
          | Td_Done \<Rightarrow> io_throw (thrown_error SUPERSEDED)))"

definition attempt_claimed :: "gateway_teardown io \<Rightarrow> string \<Rightarrow> teardown_job \<Rightarrow> gateway_teardown io" where
  "attempt_claimed disable userId claimed =
     io_bind (io_read (\<lambda>db. gatewayTeardownJobs_findByUser db userId)) (\<lambda>current.
     if (case current of None \<Rightarrow> True | Some j \<Rightarrow> \<not> teardown_is Td_Sending claimed j)
     then io_throw (thrown_error SUPERSEDED)
     else
       io_bind disable (\<lambda>result.
       io_bind io_now (\<lambda>instant.
       io_bind (io_tx (tx_of (gatewayTeardownJobs_markDone claimed instant))) (\<lambda>ok.
       if ok then io_return result else io_throw (thrown_error SUPERSEDED)))))"

definition teardown_failed :: "failure \<Rightarrow> teardown_attempt" where
  "teardown_failed f = \<lparr>ta_outcome = Teardown_Pending, ta_result = None, ta_error = Some (err_message (f_error f))\<rparr>"

definition teardown_done :: "gateway_teardown \<Rightarrow> teardown_attempt" where
  "teardown_done result = \<lparr>ta_outcome = (if gt_consumer_id result = None \<and> gt_deleted result = [] then Teardown_No_Consumer else Teardown_Ok),
     ta_result = Some result, ta_error = None\<rparr>"

definition runGatewayTeardown :: "gateway_teardown io \<Rightarrow> string \<Rightarrow> teardown_job option \<Rightarrow> teardown_attempt io" where
  "runGatewayTeardown disable userId job =
     io_bind (io_try (claim_attempt userId job)) (\<lambda>r. case r of
       Inl f \<Rightarrow> io_return (teardown_failed f)
     | Inr claimed \<Rightarrow>
         io_bind (io_try (attempt_claimed disable userId claimed)) (\<lambda>r2. case r2 of
           Inr result \<Rightarrow> io_return (teardown_done result)
         | Inl f \<Rightarrow>
             io_bind (if (case job of None \<Rightarrow> False | Some j \<Rightarrow> tj_status j = Td_Pending)
               then io_bind io_now (\<lambda>due. io_bind io_now (\<lambda>stamp.
                    io_bind (io_try (io_tx (tx_of (gatewayTeardownJobs_reschedule claimed due (err_message (f_error f)) stamp)))) (\<lambda>_.
                    io_return ())))
               else io_return ()) (\<lambda>_.
             io_return (teardown_failed f))))"

text \<open>A disabled owner whose abandoned identity is still up owes a revocation again.\<close>

definition ensure_owed_tx :: "string \<Rightarrow> string \<Rightarrow> string \<Rightarrow> int \<Rightarrow> unit tx" where
  "ensure_owed_tx newId generation userId now =
     tx_bind (tx_read (\<lambda>db. users_findById db userId)) (\<lambda>owner. case owner of
       None \<Rightarrow> tx_return ()
     | Some u \<Rightarrow>
         if u_status u \<noteq> User_Disabled then tx_return ()
         else
           tx_bind (users_updateIfMatches userId (expect_user\<lparr>ue_role := Some (u_role u), ue_status := Some User_Disabled\<rparr>)
               (no_user_patch\<lparr>up_status := Some User_Disabled\<rparr>)) (\<lambda>matched.
           if matched = None then tx_throw (conflict ''That account changed while queuing gateway recovery'' None)
           else tx_bind (gatewayTeardownJobs_upsertPending newId generation userId None now) (\<lambda>_. tx_return ())))"

definition ensureTeardownOwed :: "string \<Rightarrow> unit io" where
  "ensureTeardownOwed userId =
     io_lock (userLifecycleLockKey userId)
       (io_bind io_newId (\<lambda>i. io_bind io_newId (\<lambda>generation. io_bind io_now (\<lambda>now.
        io_tx (ensure_owed_tx i generation userId now)))))"

end
