(* ===== verification/Auth_Store.thy ===== *)
theory Auth_Store
  imports Accounts
begin

section \<open>Sign-in in the store\<close>

text \<open>
  The rest of the SQLite repositories (\<open>server/src/db/adapters/sqlite/index.ts\<close>) that sign-in uses: the
  creation and lookup of accounts, sessions by the hash of their token, single-use links and the claims
  that limit how often one is issued, proofs of an address, password locks, the recovery a password reset
  owes, and settings. The ids and instants a call takes from \<open>newId()\<close> and \<open>nowIso()\<close> are its arguments.
\<close>

subsection \<open>Accounts\<close>

definition users_create :: "user \<Rightarrow> user tx" where
  "users_create input db =
     (let row = input\<lparr>u_email := js_lower (js_trim (u_email input))\<rparr>
      in rbind (mapConflict EMAIL_CONFLICT (users_unique (db_users db @ [row])) (ref_ok og_id (db_orgs db) (u_org_id row))
             (db\<lparr>db_users := db_users db @ [row]\<rparr>)) (\<lambda>db'. Inr (row, db')))"

text \<open>\<open>countActiveSuperAdmins()\<close>, with nobody left out.\<close>

definition users_countAllActiveSuperAdmins :: "portal_db \<Rightarrow> nat" where
  "users_countAllActiveSuperAdmins db =
     length (filter (\<lambda>u. u_role u = Super_Admin \<and> u_status u = User_Active) (db_users db))"

definition passwordLocks_findByUser :: "portal_db \<Rightarrow> string \<Rightarrow> bool" where
  "passwordLocks_findByUser db userId \<longleftrightarrow> userId \<in> set (db_password_locks db)"

subsection \<open>Sessions\<close>

definition sessions_findByTokenHash :: "portal_db \<Rightarrow> string \<Rightarrow> session option" where
  "sessions_findByTokenHash db tokenHash = find_by se_token_hash tokenHash (db_sessions db)"

definition sessions_touch :: "string \<Rightarrow> int \<Rightarrow> portal_db \<Rightarrow> unit \<times> portal_db" where
  "sessions_touch i expiresAt db = ((), db\<lparr>db_sessions :=
     update_where (\<lambda>s. se_id s = i) (\<lambda>s. s\<lparr>se_expires_at := expiresAt\<rparr>) (db_sessions db)\<rparr>)"

definition sessions_delete :: "string \<Rightarrow> portal_db \<Rightarrow> bool \<times> portal_db" where
  "sessions_delete i db = (list_ex (\<lambda>s. se_id s = i) (db_sessions db),
     db\<lparr>db_sessions := filter (\<lambda>s. se_id s \<noteq> i) (db_sessions db)\<rparr>)"

definition sessions_deleteExpired :: "int \<Rightarrow> portal_db \<Rightarrow> nat \<times> portal_db" where
  "sessions_deleteExpired now db = (length (filter (\<lambda>s. se_expires_at s \<le> now) (db_sessions db)),
     db\<lparr>db_sessions := filter (\<lambda>s. \<not> se_expires_at s \<le> now) (db_sessions db)\<rparr>)"

subsection \<open>Single-use links\<close>

text \<open>The first link of a purpose inserts the claim; a later one moves it, unless it is too recent.\<close>

definition verificationTokens_claimIssue :: "string \<Rightarrow> token_purpose \<Rightarrow> int \<Rightarrow> int \<Rightarrow> portal_db \<Rightarrow> bool \<times> portal_db" where
  "verificationTokens_claimIssue userId purpose issuedAt notBefore db =
     (let same = (\<lambda>c. ic_user_id c = userId \<and> ic_purpose c = purpose);
          due = (\<lambda>c. same c \<and> ic_issued_at c \<le> notBefore)
      in if \<not> list_ex same (db_claims db)
         then (True, db\<lparr>db_claims := db_claims db @ [\<lparr>ic_user_id = userId, ic_purpose = purpose, ic_issued_at = issuedAt\<rparr>]\<rparr>)
         else (list_ex due (db_claims db),
               db\<lparr>db_claims := update_where due (\<lambda>c. c\<lparr>ic_issued_at := issuedAt\<rparr>) (db_claims db)\<rparr>))"

definition verificationTokens_create :: "token \<Rightarrow> token tx" where
  "verificationTokens_create row db =
     rbind (mapConflict ''Verification token collision''
         (fresh_in vt_id row (db_tokens db) \<and> fresh_in vt_token_hash row (db_tokens db))
         (ref_ok u_id (db_users db) (Some (vt_user_id row))) (db\<lparr>db_tokens := db_tokens db @ [row]\<rparr>))
       (\<lambda>db'. Inr (row, db'))"

definition verificationTokens_findByTokenHash :: "portal_db \<Rightarrow> string \<Rightarrow> token_purpose \<Rightarrow> token option" where
  "verificationTokens_findByTokenHash db tokenHash purpose =
     List.find (\<lambda>t. vt_token_hash t = tokenHash \<and> vt_purpose t = purpose) (db_tokens db)"

text \<open>\<open>ORDER BY created_at DESC, id DESC LIMIT 1\<close>.\<close>

definition verificationTokens_findLatestLiveForUser :: "portal_db \<Rightarrow> string \<Rightarrow> token_purpose \<Rightarrow> int \<Rightarrow> token option" where
  "verificationTokens_findLatestLiveForUser db userId purpose now =
     (let live = filter (\<lambda>t. vt_user_id t = userId \<and> vt_purpose t = purpose \<and> vt_used_at t = None \<and> now < vt_expires_at t)
            (db_tokens db)
      in case rev (sort_key vt_created_at (sort_key vt_id live)) of [] \<Rightarrow> None | t # _ \<Rightarrow> Some t)"

definition verificationTokens_markUsed :: "string \<Rightarrow> int \<Rightarrow> portal_db \<Rightarrow> bool \<times> portal_db" where
  "verificationTokens_markUsed i instant db =
     (let hit = (\<lambda>t. vt_id t = i \<and> vt_used_at t = None)
      in (list_ex hit (db_tokens db), db\<lparr>db_tokens := update_where hit (\<lambda>t. t\<lparr>vt_used_at := Some instant\<rparr>) (db_tokens db)\<rparr>))"

definition verificationTokens_deleteExpired :: "int \<Rightarrow> portal_db \<Rightarrow> nat \<times> portal_db" where
  "verificationTokens_deleteExpired now db = (length (filter (\<lambda>t. vt_expires_at t \<le> now) (db_tokens db)),
     db\<lparr>db_tokens := filter (\<lambda>t. \<not> vt_expires_at t \<le> now) (db_tokens db)\<rparr>)"

subsection \<open>Proofs of an address, and the recovery they owe\<close>

definition emailProofs_findByUser :: "portal_db \<Rightarrow> string \<Rightarrow> email_proof option" where
  "emailProofs_findByUser db userId = find_by ep_user_id userId (db_proofs db)"

definition emailProofs_upsert :: "string \<Rightarrow> string \<Rightarrow> proof_method \<Rightarrow> int \<Rightarrow> portal_db \<Rightarrow> unit \<times> portal_db" where
  "emailProofs_upsert userId email method instant db =
     (let row = \<lparr>ep_user_id = userId, ep_email = js_lower (js_trim email), ep_method = method, ep_proven_at = instant\<rparr>
      in ((), db\<lparr>db_proofs := (if emailProofs_findByUser db userId = None then db_proofs db @ [row]
                 else update_where (\<lambda>p. ep_user_id p = userId) (\<lambda>p. row) (db_proofs db))\<rparr>))"

text \<open>The unique column is the account: a later reset resets the outstanding job.\<close>

definition accountRecoveryJobs_upsertPending :: "string \<Rightarrow> string \<Rightarrow> string \<Rightarrow> int \<Rightarrow> recovery_job tx" where
  "accountRecoveryJobs_upsertPending newId generation userId now db =
     (let fresh = \<lparr>rj_id = newId, rj_generation = generation, rj_user_id = userId, rj_status = Rec_Pending, rj_attempts = 0,
            rj_next_attempt_at = Some now, rj_last_error = None, rj_unblocked_at = None, rj_created_at = now, rj_updated_at = now\<rparr>;
          reset = (\<lambda>j. fresh\<lparr>rj_id := rj_id j, rj_created_at := rj_created_at j\<rparr>)
      in case accountRecoveryJobs_findByUser db userId of
           None \<Rightarrow> if list_ex (\<lambda>j. rj_id j = newId) (db_recovery db) then Inl (internal_error ''Internal server error'')
                   else Inr (fresh, db\<lparr>db_recovery := db_recovery db @ [fresh]\<rparr>)
         | Some old \<Rightarrow> Inr (reset old, db\<lparr>db_recovery := update_where (\<lambda>j. rj_user_id j = userId) reset (db_recovery db)\<rparr>))"

subsection \<open>Settings\<close>

definition settings_get :: "portal_db \<Rightarrow> string \<Rightarrow> setting option" where
  "settings_get db key = find_by st_key key (db_settings db)"

definition settings_set :: "string \<Rightarrow> json \<Rightarrow> bool \<Rightarrow> int \<Rightarrow> portal_db \<Rightarrow> setting \<times> portal_db" where
  "settings_set key v encrypted instant db =
     (let row = \<lparr>st_key = key, st_value = v, st_encrypted = encrypted, st_updated_at = instant\<rparr>
      in (row, db\<lparr>db_settings := (if settings_get db key = None then db_settings db @ [row]
                 else update_where (\<lambda>s. st_key s = key) (\<lambda>s. row) (db_settings db))\<rparr>))"

end
