(* ===== verification/Sessions.thy ===== *)
theory Sessions
  imports Auth_Store
begin

section \<open>Sessions\<close>

text \<open>
  Models \<open>server/src/auth/session-lifetime.ts\<close>, the hooks and guards of
  \<open>server/src/middleware/auth-plugin.ts\<close>, the issue of a session (\<open>issueSession\<close> of
  \<open>server/src/auth/service.ts\<close>) and the worker of \<open>server/src/auth/expiry-sweep.ts\<close>. The keyed hash of a
  token is the argument \<open>hashToken\<close>; a random token is drawn like an id. The address and the browser of
  the client, which a session row also records, are left out.
\<close>

subsection \<open>Lifetime\<close>

text \<open>A timestamp that does not parse is \<open>None\<close>; so is a deadline of minus infinity.\<close>

definition sessionAbsoluteDeadlineMs :: "int option \<Rightarrow> int \<Rightarrow> int option" where
  "sessionAbsoluteDeadlineMs created_at maxAgeSeconds =
     (case created_at of None \<Rightarrow> None | Some createdAt \<Rightarrow> Some (createdAt + maxAgeSeconds * 1000))"

definition sessionIsLive :: "int option \<Rightarrow> int option \<Rightarrow> int \<Rightarrow> int \<Rightarrow> bool" where
  "sessionIsLive created_at expires_at maxAgeSeconds now = (case expires_at of
      None \<Rightarrow> False
    | Some expiresAt \<Rightarrow>
        if expiresAt \<le> now then False
        else (case sessionAbsoluteDeadlineMs created_at maxAgeSeconds of None \<Rightarrow> False | Some d \<Rightarrow> d > now))"

abbreviation session_live :: "int \<Rightarrow> int \<Rightarrow> session \<Rightarrow> bool" where
  "session_live maxAgeSeconds now s \<equiv> sessionIsLive (Some (se_created_at s)) (Some (se_expires_at s)) maxAgeSeconds now"

lemma session_live_iff:
  "session_live maxAge now s \<longleftrightarrow> now < se_expires_at s \<and> now < se_created_at s + maxAge * 1000"
  by (auto simp: sessionIsLive_def sessionAbsoluteDeadlineMs_def)

subsection \<open>Issuing a session\<close>

text \<open>What a new session draws: its token, its CSRF token, the instant its expiry counts from, and the id
  and the instant its row gets.\<close>

record mint =
  mt_token :: string
  mt_csrf :: string
  mt_now :: int
  mt_id :: string
  mt_stamp :: int

definition io_mint :: "mint io" where
  "io_mint =
     io_bind io_newId (\<lambda>token. io_bind io_newId (\<lambda>csrf. io_bind io_now (\<lambda>now.
     io_bind io_newId (\<lambda>i. io_bind io_now (\<lambda>stamp.
     io_return \<lparr>mt_token = token, mt_csrf = csrf, mt_now = now, mt_id = i, mt_stamp = stamp\<rparr>)))))"

record issued_session =
  is_session :: session
  is_token :: string
  is_csrf_token :: string

definition session_row :: "(string \<Rightarrow> string) \<Rightarrow> int \<Rightarrow> string \<Rightarrow> mint \<Rightarrow> session" where
  "session_row hashToken ttlSeconds userId m =
     \<lparr>se_id = mt_id m, se_token_hash = hashToken (mt_token m), se_user_id = userId, se_csrf_token = mt_csrf m,
      se_created_at = mt_stamp m, se_expires_at = mt_now m + ttlSeconds * 1000\<rparr>"

definition issueSession_tx :: "(string \<Rightarrow> string) \<Rightarrow> int \<Rightarrow> user \<Rightarrow> mint \<Rightarrow> issued_session tx" where
  "issueSession_tx hashToken ttlSeconds user m =
     tx_bind (sessions_create (session_row hashToken ttlSeconds (u_id user) m)) (\<lambda>row.
     tx_return \<lparr>is_session = row, is_token = mt_token m, is_csrf_token = mt_csrf m\<rparr>)"

definition issueSession :: "(string \<Rightarrow> string) \<Rightarrow> int \<Rightarrow> user \<Rightarrow> issued_session io" where
  "issueSession hashToken ttlSeconds user =
     io_bind io_mint (\<lambda>m. io_tx (issueSession_tx hashToken ttlSeconds user m))"

subsection \<open>The request hooks\<close>

text \<open>What the hooks look at: the route the router selected, the method, both cookies, the CSRF header and
  whether the route's answer may be kept by a shared cache.\<close>

record request =
  rt_url :: "string option"
  rt_method :: string
  rt_session_cookie :: "string option"
  rt_csrf_cookie :: "string option"
  rt_csrf_header :: "string option"
  rt_shared_cacheable :: bool

definition isApiRequest :: "request \<Rightarrow> bool" where
  "isApiRequest request = (case rt_url request of None \<Rightarrow> False | Some route \<Rightarrow> route = ''/api'' \<or> starts_with ''/api/'' route)"

text \<open>The principal of a request, and the cookie pair that is set again with its age in seconds.\<close>

record auth_state =
  as_session :: "session option"
  as_user :: "user option"
  as_cookies :: "(string \<times> string \<times> int) option"

definition anonymous :: auth_state where
  "anonymous = \<lparr>as_session = None, as_user = None, as_cookies = None\<rparr>"

definition slidTo :: "int \<Rightarrow> int \<Rightarrow> int \<Rightarrow> session \<Rightarrow> int" where
  "slidTo ttlSeconds maxAgeSeconds now s =
     (case sessionAbsoluteDeadlineMs (Some (se_created_at s)) maxAgeSeconds of
        None \<Rightarrow> now + ttlSeconds * 1000 | Some d \<Rightarrow> min (now + ttlSeconds * 1000) d)"

definition slide_session :: "int \<Rightarrow> int \<Rightarrow> string \<Rightarrow> int \<Rightarrow> session \<Rightarrow> user \<Rightarrow> auth_state io" where
  "slide_session ttlSeconds maxAgeSeconds token now s user =
     (let found = \<lparr>as_session = Some s, as_user = Some user, as_cookies = None\<rparr>;
          later = slidTo ttlSeconds maxAgeSeconds now s
      in if se_expires_at s - now < ttlSeconds * 1000 div 2 \<and> later > se_expires_at s
         then io_bind (io_tx (tx_of (sessions_touch (se_id s) later))) (\<lambda>_.
              io_return (found\<lparr>as_session := Some (s\<lparr>se_expires_at := later\<rparr>),
                as_cookies := Some (token, se_csrf_token s, (later - now) div 1000)\<rparr>))
         else io_return found)"

definition resolveSession :: "(string \<Rightarrow> string) \<Rightarrow> int \<Rightarrow> int \<Rightarrow> request \<Rightarrow> auth_state io" where
  "resolveSession hashToken ttlSeconds maxAgeSeconds request =
     (if \<not> isApiRequest request \<or> \<not> truthy (rt_session_cookie request) then io_return anonymous
      else
        let token = the (rt_session_cookie request) in
        io_bind (io_read (\<lambda>db. sessions_findByTokenHash db (hashToken token))) (\<lambda>found. case found of
          None \<Rightarrow> io_return anonymous
        | Some s \<Rightarrow>
            io_bind io_now (\<lambda>now.
            if \<not> session_live maxAgeSeconds now s
            then io_bind (io_tx (tx_of (sessions_delete (se_id s)))) (\<lambda>_. io_return anonymous)
            else
              io_bind (io_read (\<lambda>db. users_findById db (se_user_id s))) (\<lambda>account. case account of
                None \<Rightarrow> io_bind (io_tx (tx_of (sessions_deleteForUser (se_user_id s)))) (\<lambda>_. io_return anonymous)
              | Some user \<Rightarrow>
                  if u_status user \<noteq> User_Active
                  then io_bind (io_tx (tx_of (sessions_deleteForUser (se_user_id s)))) (\<lambda>_. io_return anonymous)
                  else if rt_shared_cacheable request
                  then io_return \<lparr>as_session = Some s, as_user = Some user, as_cookies = None\<rparr>
                  else slide_session ttlSeconds maxAgeSeconds token now s user))))"

definition CSRF_EXEMPT_PATHS :: "string list" where
  "CSRF_EXEMPT_PATHS = [''/api/auth/login'', ''/api/auth/register'', ''/api/auth/verify-email'', ''/api/auth/resend-verification'',
     ''/api/auth/forgot-password'', ''/api/auth/reset-password'', ''/api/auth/captcha'']"

definition SAFE_METHODS :: "string list" where
  "SAFE_METHODS = [''GET'', ''HEAD'', ''OPTIONS'']"

definition safeEqual :: "string option \<Rightarrow> string option \<Rightarrow> bool" where
  "safeEqual a b = (case (a, b) of (Some x, Some y) \<Rightarrow> length x = length y \<and> x = y | _ \<Rightarrow> False)"

definition csrf_hook :: "request \<Rightarrow> session option \<Rightarrow> nexus_error + unit" where
  "csrf_hook request session1 =
     (if rt_method request \<in> set SAFE_METHODS then Inr ()
      else if \<not> isApiRequest request then Inr ()
      else if (case rt_url request of None \<Rightarrow> [] | Some route \<Rightarrow> route) \<in> set CSRF_EXEMPT_PATHS then Inr ()
      else (case session1 of
              None \<Rightarrow> Inr ()
            | Some s \<Rightarrow>
                if \<not> safeEqual (rt_csrf_header request) (rt_csrf_cookie request) \<or>
                   \<not> safeEqual (rt_csrf_header request) (Some (se_csrf_token s))
                then Inl (csrfMismatch ''CSRF token missing or invalid'') else Inr ()))"

subsection \<open>Guards\<close>

definition requireAuth :: "auth_state \<Rightarrow> nexus_error + user \<times> session" where
  "requireAuth st = (case (as_user st, as_session st) of
      (Some user, Some s) \<Rightarrow>
        if u_status user \<noteq> User_Active then Inl (userDisabled ''This account has been disabled'') else Inr (user, s)
    | _ \<Rightarrow> Inl (unauthorized ''Authentication required''))"

definition assertRole :: "auth_state \<Rightarrow> role \<Rightarrow> nexus_error + user \<times> session" where
  "assertRole st role = rbind (requireAuth st) (\<lambda>(user, s).
     if \<not> roleAtLeast (u_role user) role
     then Inl (forbidden (''This action requires the '' @ role_name role @ '' role'')) else Inr (user, s))"

definition requireRole :: "auth_state \<Rightarrow> role \<Rightarrow> nexus_error + unit" where
  "requireRole st role = rbind (requireAuth st) (\<lambda>(user, s).
     if \<not> roleAtLeast (u_role user) role
     then Inl (forbidden (''This action requires the '' @ role_name role @ '' role'')) else Inr ())"

text \<open>A request up to its handler: the session is resolved, the CSRF token compared, the role demanded.\<close>

definition admit :: "(string \<Rightarrow> string) \<Rightarrow> int \<Rightarrow> int \<Rightarrow> role \<Rightarrow> request \<Rightarrow> (user \<times> session) io" where
  "admit hashToken ttlSeconds maxAgeSeconds role request =
     io_bind (resolveSession hashToken ttlSeconds maxAgeSeconds request) (\<lambda>st.
     io_bind (io_result (csrf_hook request (as_session st))) (\<lambda>_.
     io_result (assertRole st role)))"

subsection \<open>The expiry sweep\<close>

text \<open>One table that fails counts as nothing deleted, and the other is swept all the same.\<close>

definition sweep_table :: "nat tx \<Rightarrow> nat io" where
  "sweep_table run = io_catch (io_tx run) (\<lambda>_. io_return 0)"

definition sweep_runTick :: "(nat \<times> nat) io" where
  "sweep_runTick =
     io_bind io_now (\<lambda>cutoff.
     io_bind (sweep_table (tx_of (sessions_deleteExpired cutoff))) (\<lambda>sessions.
     io_bind (sweep_table (tx_of (verificationTokens_deleteExpired cutoff))) (\<lambda>tokens.
     io_return (sessions, tokens))))"

end
