(* ===== verification/Users.thy ===== *)
theory Users
  imports Teardown Sessions
begin

section \<open>Account administration\<close>

text \<open>
  Models \<open>server/src/users/service.ts\<close>: the profile of the caller, the administration of other accounts,
  the release of an address, the operator's retry of a revocation, and organizations. The SSO rule for
  manual promotions is an argument (the service takes it as a dependency); so are the password functions.
  The notice of a role change, the listings and the details of audit rows are not modelled. A typographic
  apostrophe or dash of a message is written as its ASCII counterpart.
\<close>

definition isElevated :: "role \<Rightarrow> bool" where "isElevated role = roleAtLeast role Admin"

definition LAST_ACTIVE_SUPER_ADMIN :: nexus_error where
  "LAST_ACTIVE_SUPER_ADMIN = lastSuperAdmin ''The last active super admin cannot be removed, demoted or disabled''"

record update_user_input =
  ux_role :: "role option"
  ux_status :: "user_status option"
  ux_org_id :: "string option option"
  ux_display_name :: "string option"

subsection \<open>The checks before an update\<close>

definition check_name :: "string option \<Rightarrow> unit io" where
  "check_name name = (case name of None \<Rightarrow> io_return ()
     | Some n \<Rightarrow> io_guard (js_trim n \<noteq> []) (validationFailed ''Display name cannot be empty'' None))"

definition check_org :: "string option option \<Rightarrow> unit io" where
  "check_org org = (case org of
      Some (Some i) \<Rightarrow> io_bind (io_read (\<lambda>db. organizations_findById db i)) (\<lambda>found.
        io_guard (found \<noteq> None) (notFound ''Organization'' (Some i)))
    | _ \<Rightarrow> io_return ())"

definition check_other_super_admin :: "string \<Rightarrow> unit io" where
  "check_other_super_admin targetId = io_bind (io_read (\<lambda>db. users_countActiveSuperAdmins db targetId)) (\<lambda>n.
     io_guard (n \<noteq> 0) LAST_ACTIVE_SUPER_ADMIN)"

definition role_changed :: "user \<Rightarrow> update_user_input \<Rightarrow> bool" where
  "role_changed target patch \<longleftrightarrow> (case ux_role patch of None \<Rightarrow> False | Some r \<Rightarrow> r \<noteq> u_role target)"

definition status_changed :: "user \<Rightarrow> update_user_input \<Rightarrow> bool" where
  "status_changed target patch \<longleftrightarrow> (case ux_status patch of None \<Rightarrow> False | Some s \<Rightarrow> s \<noteq> u_status target)"

definition check_role :: "user \<Rightarrow> user \<Rightarrow> update_user_input \<Rightarrow> unit io" where
  "check_role actor target patch =
     (if \<not> role_changed target patch then io_return ()
      else
        io_bind (io_guard (\<not> ((isElevated (the (ux_role patch)) \<or> isElevated (u_role target)) \<and>
              \<not> roleAtLeast (u_role actor) Super_Admin))
            (forbidden ''Only a super admin can grant or revoke administrator roles'')) (\<lambda>_.
        if u_role target = Super_Admin \<and> u_status target = User_Active then check_other_super_admin (u_id target)
        else io_return ()))"

definition ADMIN_STATUS :: nexus_error where
  "ADMIN_STATUS = forbidden ''Only a super admin can disable or re-enable an administrator''"

definition check_status :: "user \<Rightarrow> user \<Rightarrow> update_user_input \<Rightarrow> unit io" where
  "check_status actor target patch =
     (if \<not> status_changed target patch then io_return ()
      else
        io_bind (io_guard (\<not> (isElevated (u_role target) \<and> \<not> roleAtLeast (u_role actor) Super_Admin)) ADMIN_STATUS) (\<lambda>_.
        if ux_status patch \<noteq> Some User_Disabled then io_return ()
        else
          io_bind (if u_role target = Super_Admin then check_other_super_admin (u_id target) else io_return ()) (\<lambda>_.
          io_guard (u_id target \<noteq> u_id actor) (conflict ''You cannot disable your own account'' None))))"

text \<open>What the update writes: a role or status only when it changes.\<close>

definition update_of :: "user \<Rightarrow> update_user_input \<Rightarrow> user_patch" where
  "update_of target patch = no_user_patch\<lparr>
     up_display_name := map_option js_trim (ux_display_name patch), up_org_id := ux_org_id patch,
     up_role := (if role_changed target patch then ux_role patch else None),
     up_status := (if status_changed target patch then ux_status patch else None)\<rparr>"

definition nothing_changed :: "user \<Rightarrow> update_user_input \<Rightarrow> bool" where
  "nothing_changed target patch \<longleftrightarrow> ux_display_name patch = None \<and> ux_org_id patch = None \<and>
     \<not> role_changed target patch \<and> \<not> status_changed target patch"

definition guardsLastSuperAdmin :: "user \<Rightarrow> update_user_input \<Rightarrow> bool" where
  "guardsLastSuperAdmin target patch \<longleftrightarrow> u_role target = Super_Admin \<and>
     ((role_changed target patch \<and> u_status target = User_Active) \<or> up_status (update_of target patch) = Some User_Disabled)"

definition privilegeIncreased :: "user \<Rightarrow> update_user_input \<Rightarrow> bool" where
  "privilegeIncreased target patch \<longleftrightarrow> (case up_role (update_of target patch) of
      None \<Rightarrow> False | Some r \<Rightarrow> roleAtLeast r (u_role target) \<and> role_changed target patch)"

subsection \<open>The transition\<close>

text \<open>What a disable and a re-enable write beside the account, in the same transaction.\<close>

definition disable_effects :: "string \<Rightarrow> string \<Rightarrow> string \<Rightarrow> string \<Rightarrow> int \<Rightarrow> teardown_job tx" where
  "disable_effects newId generation targetId actorId now =
     tx_bind (gatewayTeardownJobs_upsertPending newId generation targetId (Some actorId) now) (\<lambda>job.
     tx_bind (tx_of (sessions_deleteForUser targetId)) (\<lambda>_.
     tx_bind (tx_of (verificationTokens_deleteForUser targetId Password_Reset)) (\<lambda>_.
     tx_return job)))"

definition enable_effects :: "string \<Rightarrow> unit tx" where
  "enable_effects targetId =
     tx_bind (tx_of (gatewayTeardownJobs_deleteByUser targetId)) (\<lambda>_.
     tx_bind (tx_of (verificationTokens_deleteForUser targetId Password_Reset)) (\<lambda>_.
     tx_return ()))"

definition transition_audit :: "user \<Rightarrow> user \<Rightarrow> update_user_input \<Rightarrow> int \<Rightarrow> unit tx" where
  "transition_audit actor target patch now =
     (let note1 = (\<lambda>action. tx_audit (Some (u_id actor)) action (u_id target) now)
      in tx_bind (if role_changed target patch then note1 USER_ROLE_CHANGE else tx_return ()) (\<lambda>_.
         tx_bind (case up_status (update_of target patch) of
             Some User_Disabled \<Rightarrow> note1 USER_DISABLE
           | Some User_Active \<Rightarrow> note1 USER_ENABLE
           | None \<Rightarrow> tx_return ()) (\<lambda>_.
         if \<not> role_changed target patch \<and> \<not> status_changed target patch then note1 USER_UPDATE else tx_return ())))"

definition transition_rest :: "user \<Rightarrow> user \<Rightarrow> update_user_input \<Rightarrow> string \<Rightarrow> string \<Rightarrow> int \<Rightarrow> teardown_job option tx" where
  "transition_rest actor target patch newId generation now =
     (let status = up_status (update_of target patch) in
      tx_bind (if status = Some User_Disabled
          then tx_bind (disable_effects newId generation (u_id target) (u_id actor) now) (\<lambda>job. tx_return (Some job))
          else tx_return None) (\<lambda>job.
      tx_bind (if privilegeIncreased target patch \<and> status \<noteq> Some User_Disabled
          then tx_bind (tx_of (sessions_deleteForUser (u_id target))) (\<lambda>_. tx_return ()) else tx_return ()) (\<lambda>_.
      tx_bind (if status = Some User_Active then enable_effects (u_id target) else tx_return ()) (\<lambda>_.
      tx_bind (transition_audit actor target patch now) (\<lambda>_.
      tx_return job)))))"

definition check_promotion ::
  "(portal_db \<Rightarrow> string \<Rightarrow> role \<Rightarrow> nexus_error + unit) \<Rightarrow> user \<Rightarrow> update_user_input \<Rightarrow> portal_db \<Rightarrow> nexus_error + unit" where
  "check_promotion promotion target patch db = (case up_role (update_of target patch) of
      Some r \<Rightarrow> if roleAtLeast r Admin \<and> \<not> roleAtLeast (u_role target) r then promotion db (u_id target) r else Inr ()
    | None \<Rightarrow> Inr ())"

definition transition_tx ::
  "(portal_db \<Rightarrow> string \<Rightarrow> role \<Rightarrow> nexus_error + unit) \<Rightarrow> user \<Rightarrow> user \<Rightarrow> update_user_input \<Rightarrow> string \<Rightarrow> string \<Rightarrow> int \<Rightarrow>
     (user \<times> teardown_job option) option tx" where
  "transition_tx promotion actor target patch newId generation now =
     tx_bind (tx_read (\<lambda>db. users_findById db (u_id target))) (\<lambda>current.
     if up_status (update_of target patch) = Some User_Active \<and> (case current of None \<Rightarrow> False | Some u \<Rightarrow> isReleasedEmail (u_email u))
     then tx_throw (conflict ''An account whose address was released must remain disabled'' None)
     else
       tx_bind (tx_read (\<lambda>db. users_countActiveSuperAdmins db (u_id target))) (\<lambda>others.
       if guardsLastSuperAdmin target patch \<and> others = 0 then tx_throw LAST_ACTIVE_SUPER_ADMIN
       else
         tx_bind (tx_check (check_promotion promotion target patch)) (\<lambda>_.
         tx_bind (users_updateIfMatches (u_id target)
             (expect_user\<lparr>ue_role := Some (u_role target), ue_status := Some (u_status target)\<rparr>) (update_of target patch)) (\<lambda>row. case row of
           None \<Rightarrow> tx_return None
         | Some u \<Rightarrow> tx_bind (transition_rest actor target patch newId generation now) (\<lambda>job. tx_return (Some (u, job)))))))"

definition under_account_keys :: "user \<Rightarrow> update_user_input \<Rightarrow> 'a io \<Rightarrow> 'a io" where
  "under_account_keys target patch run =
     (let lifecycle = (if role_changed target patch \<or> status_changed target patch
            then io_lock (userLifecycleLockKey (u_id target)) run else run)
      in if guardsLastSuperAdmin target patch then io_lock SUPER_ADMIN_LOCK_KEY lifecycle else lifecycle)"

subsection \<open>updateUser\<close>

text \<open>The immediate attempt after a disable, with the row that records a finished one.\<close>

definition inline_teardown :: "gateway_teardown io \<Rightarrow> string \<Rightarrow> string \<Rightarrow> teardown_job option \<Rightarrow> teardown_attempt io" where
  "inline_teardown disable actorId targetId job =
     io_bind (runGatewayTeardown disable targetId job) (\<lambda>attempt.
     io_bind (if ta_outcome attempt = Teardown_Pending then io_return ()
       else io_bind io_now (\<lambda>now. io_tx (tx_audit (Some actorId) USER_GATEWAY_TEARDOWN_COMPLETE targetId now))) (\<lambda>_.
     io_return attempt))"

definition repeat_enable :: "unit io \<Rightarrow> user \<Rightarrow> user \<Rightarrow> update_user_input \<Rightarrow> unit io" where
  "repeat_enable restore actor target patch =
     (if ux_status patch = Some User_Active
      then io_bind io_now (\<lambda>now. io_bind (io_tx (tx_audit (Some (u_id actor)) USER_ENABLE (u_id target) now)) (\<lambda>_. restore))
      else io_return ())"

definition apply_update ::
  "(portal_db \<Rightarrow> string \<Rightarrow> role \<Rightarrow> nexus_error + unit) \<Rightarrow> gateway_teardown io \<Rightarrow> unit io \<Rightarrow> user \<Rightarrow> user \<Rightarrow>
     update_user_input \<Rightarrow> (user \<times> teardown_outcome option) io" where
  "apply_update promotion disable restore actor target patch =
     io_bind (under_account_keys target patch
       (io_bind io_newId (\<lambda>i. io_bind io_newId (\<lambda>generation. io_bind io_now (\<lambda>now.
        io_tx (transition_tx promotion actor target patch i generation now)))))) (\<lambda>moved. case moved of
       None \<Rightarrow> io_bind (io_read (\<lambda>db. users_findById db (u_id target))) (\<lambda>there.
         io_throw (plain (if there = None then notFound ''User'' (Some (u_id target))
           else conflict ''That account changed while you were editing it - reload and try again'' None)))
     | Some (updated, job) \<Rightarrow>
         io_bind (if up_status (update_of target patch) = Some User_Disabled
           then io_bind (inline_teardown disable (u_id actor) (u_id target) job) (\<lambda>a. io_return (Some (ta_outcome a)))
           else io_return None) (\<lambda>teardown.
         io_bind (if ux_status patch = Some User_Active then restore else io_return ()) (\<lambda>_.
         io_return (updated, teardown))))"

definition updateUser ::
  "(portal_db \<Rightarrow> string \<Rightarrow> role \<Rightarrow> nexus_error + unit) \<Rightarrow> (string \<Rightarrow> gateway_teardown io) \<Rightarrow> (string \<Rightarrow> unit io) \<Rightarrow> user \<Rightarrow>
     string \<Rightarrow> update_user_input \<Rightarrow> (user \<times> teardown_outcome option) io" where
  "updateUser promotion disable restore actor targetId patch =
     io_bind (io_read (\<lambda>db. users_findById db targetId)) (\<lambda>found. case found of
       None \<Rightarrow> io_throw (plain (notFound ''User'' (Some targetId)))
     | Some target \<Rightarrow>
         io_bind (check_name (ux_display_name patch)) (\<lambda>_.
         io_bind (check_org (ux_org_id patch)) (\<lambda>_.
         io_bind (check_role actor target patch) (\<lambda>_.
         io_bind (check_status actor target patch) (\<lambda>_.
         io_bind (io_guard (\<not> (ux_status patch = Some User_Active \<and> isElevated (u_role target) \<and>
             \<not> roleAtLeast (u_role actor) Super_Admin)) ADMIN_STATUS) (\<lambda>_.
         if nothing_changed target patch
         then io_bind (repeat_enable (restore (u_id target)) actor target patch) (\<lambda>_. io_return (target, None))
         else apply_update promotion (disable (u_id target)) (restore (u_id target)) actor target patch))))))"

subsection \<open>The operator's retry\<close>

definition NOT_DISABLED :: nexus_error where
  "NOT_DISABLED = conflict ''Only a disabled account has a gateway revocation to retry'' None"

definition retry_tx :: "user \<Rightarrow> string \<Rightarrow> string \<Rightarrow> string \<Rightarrow> int \<Rightarrow> teardown_job tx" where
  "retry_tx actor targetId newId generation now =
     tx_bind (tx_read (\<lambda>db. users_findById db targetId)) (\<lambda>current. case current of
       None \<Rightarrow> tx_throw (notFound ''User'' (Some targetId))
     | Some u \<Rightarrow>
         if u_status u \<noteq> User_Disabled then tx_throw NOT_DISABLED
         else
           tx_bind (users_updateIfMatches (u_id u) (expect_user\<lparr>ue_role := Some (u_role u), ue_status := Some User_Disabled\<rparr>)
               (no_user_patch\<lparr>up_status := Some User_Disabled\<rparr>)) (\<lambda>matched.
           if matched = None then tx_throw (conflict ''That account changed while retrying its revocation'' None)
           else
             tx_bind (gatewayTeardownJobs_upsertPending newId generation targetId (Some (u_id actor)) now) (\<lambda>queued.
             tx_bind (tx_audit (Some (u_id actor)) USER_GATEWAY_TEARDOWN_RETRY targetId now) (\<lambda>_.
             tx_return queued))))"

definition retryGatewayTeardown ::
  "(string \<Rightarrow> gateway_teardown io) \<Rightarrow> user \<Rightarrow> string \<Rightarrow> (teardown_outcome \<times> teardown_job option) io" where
  "retryGatewayTeardown disable actor targetId =
     io_bind (io_read (\<lambda>db. users_findById db targetId)) (\<lambda>found. case found of
       None \<Rightarrow> io_throw (plain (notFound ''User'' (Some targetId)))
     | Some target \<Rightarrow>
         io_bind (io_guard (u_status target = User_Disabled) NOT_DISABLED) (\<lambda>_.
         io_bind (io_lock (userLifecycleLockKey (u_id target))
           (io_bind io_newId (\<lambda>i. io_bind io_newId (\<lambda>generation. io_bind io_now (\<lambda>now.
            io_tx (retry_tx actor (u_id target) i generation now)))))) (\<lambda>job.
         io_bind (inline_teardown (disable (u_id target)) (u_id actor) (u_id target) (Some job)) (\<lambda>attempt.
         io_bind (io_read (\<lambda>db. gatewayTeardownJobs_findByUser db (u_id target))) (\<lambda>left.
         io_return (ta_outcome attempt, left))))))"

subsection \<open>The release of an address\<close>

definition release_checks :: "user \<Rightarrow> string \<Rightarrow> portal_db \<Rightarrow> user \<Rightarrow> nexus_error + unit" where
  "release_checks actor email db target =
     (if u_id target = u_id actor \<or> u_role target = Super_Admin
      then Inl (forbidden ''A super admin account cannot have its address released'')
      else if u_status target \<noteq> User_Disabled \<or> u_email target \<noteq> email
      then Inl (conflict ''Disable the account and confirm its current address before release'' None)
      else if userIdentities_listByUser db (u_id target) \<noteq> []
      then Inl (conflict ''Remove every linked sign-in identity before releasing the address'' None)
      else if map_option tj_status (gatewayTeardownJobs_findByUser db (u_id target)) \<noteq> Some Td_Done
      then Inl (conflict (''Complete the account'' @ [CHR 0x27] @ ''s gateway revocation before releasing its address'') None)
      else if credentials_count db (u_id target) Cr_Active > 0 \<or> credentials_count db (u_id target) Cr_Retiring > 0
      then Inl (conflict ''The account still has live credential metadata; retry revocation'' None)
      else Inr ())"

definition release_effects :: "user \<Rightarrow> string \<Rightarrow> string \<Rightarrow> string \<Rightarrow> int \<Rightarrow> unit tx" where
  "release_effects actor targetId email generation now =
     tx_bind (tx_of (sessions_deleteForUser targetId)) (\<lambda>_.
     tx_bind (tx_of (verificationTokens_deleteForUser targetId Password_Reset)) (\<lambda>_.
     tx_bind (tx_of (verificationTokens_deleteForUser targetId Email_Verification)) (\<lambda>_.
     tx_bind (emailOutbox_cancelForReleasedAddress email generation now) (\<lambda>_.
     tx_audit (Some (u_id actor)) USER_ADDRESS_RELEASE targetId now))))"

definition release_tx :: "user \<Rightarrow> string \<Rightarrow> string \<Rightarrow> string \<Rightarrow> string \<Rightarrow> int \<Rightarrow> user tx" where
  "release_tx actor targetId email tombstone generation now =
     tx_bind (tx_read (\<lambda>db. users_findById db targetId)) (\<lambda>found. case found of
       None \<Rightarrow> tx_throw (notFound ''User'' (Some targetId))
     | Some target \<Rightarrow>
         tx_bind (tx_check (\<lambda>db. release_checks actor email db target)) (\<lambda>_.
         tx_bind (users_updateIfMatches (u_id target)
             (expect_user\<lparr>ue_role := Some (u_role target), ue_status := Some User_Disabled, ue_email := Some email\<rparr>)
             (no_user_patch\<lparr>up_email := Some tombstone, up_email_verified := Some False\<rparr>)) (\<lambda>row. case row of
           None \<Rightarrow> tx_throw (conflict ''That account changed while releasing its address'' None)
         | Some u \<Rightarrow> tx_bind (release_effects actor (u_id target) email generation now) (\<lambda>_. tx_return u))))"

definition tombstone_for :: "string \<Rightarrow> string" where
  "tombstone_for minted = ''released-'' @ minted @ CHR ''@'' # RELEASED_EMAIL_DOMAIN"

definition releaseAddress :: "user \<Rightarrow> string \<Rightarrow> string \<Rightarrow> user io" where
  "releaseAddress actor targetId expectedEmail =
     io_bind (io_guard (u_role actor = Super_Admin) (forbidden ''Only a super admin can release an address'')) (\<lambda>_.
     let email = js_lower (js_trim expectedEmail) in
     io_bind (io_guard (email \<noteq> [] \<and> length email \<le> 320 \<and> \<not> isReleasedEmail email)
         (validationFailed (''Supply the account'' @ [CHR 0x27] @ ''s current email address'') None)) (\<lambda>_.
     io_bind io_newId (\<lambda>minted.
     io_lock (userMailHandoffLockKey targetId) (io_lock (userLifecycleLockKey targetId)
       (io_bind io_now (\<lambda>now. io_bind io_newId (\<lambda>generation.
        io_tx (release_tx actor targetId email (tombstone_for minted) generation now))))))))"

subsection \<open>The caller's own profile\<close>

record update_me_input =
  um_display_name :: "string option"
  um_company :: "string option option"
  um_phone :: "string option option"
  um_current_password :: "string option"
  um_new_password :: "string option"

definition MIN_PASSWORD_LENGTH :: nat where "MIN_PASSWORD_LENGTH = 12"

definition passwordLockKey :: "string \<Rightarrow> string" where "passwordLockKey userId = ''users:password:'' @ userId"

definition WRONG_PASSWORD :: nexus_error where "WRONG_PASSWORD = forbidden ''Your current password is incorrect''"

definition PASSWORD_CHANGED_SESSION_LOST_MESSAGE :: string where
  "PASSWORD_CHANGED_SESSION_LOST_MESSAGE =
     ''Your password was changed, but this session could not be renewed - sign in again with your new password''"

text \<open>\<open>verify\<close> and \<open>hash\<close> are the password functions, \<open>hashToken\<close> the hash of a session's token.\<close>

definition check_password :: "(string \<Rightarrow> string \<Rightarrow> bool) \<Rightarrow> user \<Rightarrow> update_me_input \<Rightarrow> nexus_error + unit" where
  "check_password verify user patch = (case um_new_password patch of
      None \<Rightarrow> Inr ()
    | Some new1 \<Rightarrow>
        if length new1 < MIN_PASSWORD_LENGTH then Inl (validationFailed ''Password must be at least 12 characters'' None)
        else if \<not> truthy (um_current_password patch)
        then Inl (validationFailed ''Your current password is required to set a new one'' None)
        else if \<not> verify (the (um_current_password patch)) (u_password_hash user) then Inl WRONG_PASSWORD
        else Inr ())"

definition update_me_patch :: "(string \<Rightarrow> string) \<Rightarrow> user \<Rightarrow> update_me_input \<Rightarrow> user_patch" where
  "update_me_patch hash user patch = no_user_patch\<lparr>
     up_display_name := (case um_display_name patch of None \<Rightarrow> None
        | Some n \<Rightarrow> if js_trim n = u_display_name user then None else Some (js_trim n)),
     up_company := (case um_company patch of None \<Rightarrow> None | Some c \<Rightarrow> if c = u_company user then None else Some c),
     up_phone := (case um_phone patch of None \<Rightarrow> None | Some c \<Rightarrow> if c = u_phone user then None else Some c),
     up_password_hash := map_option hash (um_new_password patch)\<rparr>"

definition update_me_tx :: "user \<Rightarrow> user_patch \<Rightarrow> int \<Rightarrow> user tx" where
  "update_me_tx user update now =
     tx_bind (if up_password_hash update = None then tx_return () else
         tx_bind (tx_read (\<lambda>db. users_findById db (u_id user))) (\<lambda>current. case current of
           None \<Rightarrow> tx_throw (notFound ''User'' (Some (u_id user)))
         | Some u \<Rightarrow> if u_password_hash u \<noteq> u_password_hash user then tx_throw WRONG_PASSWORD else tx_return ())) (\<lambda>_.
     tx_bind (users_update (u_id user) update) (\<lambda>row. case row of
       None \<Rightarrow> tx_throw (notFound ''User'' (Some (u_id user)))
     | Some u \<Rightarrow>
         tx_bind (if up_password_hash update = None then tx_return () else
             tx_bind (tx_of (verificationTokens_deleteForUser (u_id user) Password_Reset)) (\<lambda>_.
             tx_bind (tx_of (sessions_deleteForUser (u_id user))) (\<lambda>_. tx_return ()))) (\<lambda>_.
         tx_bind (tx_audit (Some (u_id user)) USER_UPDATE (u_id user) now) (\<lambda>_.
         tx_return u))))"

definition change_me :: "(string \<Rightarrow> string) \<Rightarrow> int \<Rightarrow> user \<Rightarrow> user_patch \<Rightarrow> (user \<times> issued_session option) io" where
  "change_me hashToken ttlSeconds user update =
     io_bind io_now (\<lambda>now.
     io_bind (io_tx (update_me_tx user update now)) (\<lambda>updated.
     if up_password_hash update = None then io_return (updated, None)
     else io_bind (io_catch (issueSession hashToken ttlSeconds updated) (\<lambda>f.
            io_throw (if isLeaseLost f then leaseLost PASSWORD_CHANGED_SESSION_LOST_MESSAGE else f))) (\<lambda>s.
          io_return (updated, Some s))))"

definition updateMe ::
  "(string \<Rightarrow> string \<Rightarrow> bool) \<Rightarrow> (string \<Rightarrow> string) \<Rightarrow> (string \<Rightarrow> string) \<Rightarrow> int \<Rightarrow> user \<Rightarrow> update_me_input \<Rightarrow>
     (user \<times> issued_session option) io" where
  "updateMe verify hash hashToken ttlSeconds user patch =
     io_bind (check_name (um_display_name patch)) (\<lambda>_.
     io_bind (io_result (check_password verify user patch)) (\<lambda>_.
     let update = update_me_patch hash user patch in
     if update = no_user_patch then io_return (user, None)
     else if up_password_hash update = None then change_me hashToken ttlSeconds user update
     else io_lock (passwordLockKey (u_id user)) (change_me hashToken ttlSeconds user update)))"

subsection \<open>Organizations\<close>

definition ORG_NAME :: nexus_error where "ORG_NAME = validationFailed ''An organization name is required'' None"

definition createOrganization :: "user \<Rightarrow> string \<Rightarrow> string option \<Rightarrow> organization io" where
  "createOrganization actor name description =
     io_bind (io_guard (js_trim name \<noteq> []) ORG_NAME) (\<lambda>_.
     io_bind io_newId (\<lambda>i. io_bind io_now (\<lambda>now.
     io_tx (tx_bind (organizations_create \<lparr>og_id = i, og_name = js_trim name, og_description = description\<rparr>) (\<lambda>row.
            tx_bind (tx_audit (Some (u_id actor)) ORG_CREATE (og_id row) now) (\<lambda>_. tx_return row))))))"

definition updateOrganization :: "user \<Rightarrow> string \<Rightarrow> string option \<Rightarrow> string option option \<Rightarrow> organization io" where
  "updateOrganization actor i name description =
     io_bind (io_read (\<lambda>db. organizations_findById db i)) (\<lambda>found. case found of
       None \<Rightarrow> io_throw (plain (notFound ''Organization'' (Some i)))
     | Some existing \<Rightarrow>
         io_bind (case name of None \<Rightarrow> io_return () | Some n \<Rightarrow> io_guard (js_trim n \<noteq> []) ORG_NAME) (\<lambda>_.
         let name1 = (case name of None \<Rightarrow> None | Some n \<Rightarrow> if js_trim n = og_name existing then None else Some (js_trim n));
             description1 = (case description of None \<Rightarrow> None | Some d \<Rightarrow> if d = og_description existing then None else Some d)
         in if name1 = None \<and> description1 = None then io_return existing
            else io_bind io_now (\<lambda>now.
              io_tx (tx_bind (organizations_update i name1 description1) (\<lambda>updated. case updated of
                  None \<Rightarrow> tx_throw (notFound ''Organization'' (Some i))
                | Some row \<Rightarrow> tx_bind (tx_audit (Some (u_id actor)) ORG_UPDATE i now) (\<lambda>_. tx_return row))))))"

end
