(* ===== verification/Teardown_Worker.thy ===== *)
theory Teardown_Worker
  imports Teardown
begin

section \<open>The worker for durable revocations\<close>

text \<open>
  Models \<open>server/src/credentials/teardown-worker.ts\<close>: a tick with its stale sweep and its claims, and one
  job: cancelled if the account is no longer disabled, attempted, and put back with a delay if the attempt
  failed. The timers and log lines are left out.
\<close>

definition TEARDOWN_BATCH_SIZE :: nat where "TEARDOWN_BATCH_SIZE = 10"
definition TEARDOWN_BASE_BACKOFF_MS :: rat where "TEARDOWN_BASE_BACKOFF_MS = 10000"
definition TEARDOWN_MAX_BACKOFF_MS :: rat where "TEARDOWN_MAX_BACKOFF_MS = 5 * 60000"
definition TEARDOWN_STALE_AFTER_MS :: int where "TEARDOWN_STALE_AFTER_MS = 5 * 60000"

definition teardownBackoffMs :: "int \<Rightarrow> rat \<Rightarrow> int" where
  "teardownBackoffMs attempts random =
     (let exponent = max 0 (min attempts 16);
          base = min (TEARDOWN_BASE_BACKOFF_MS * 2 ^ nat exponent) TEARDOWN_MAX_BACKOFF_MS
      in js_round (base + base * (1 / 10) * random))"

record teardown_tick =
  tt_released :: nat
  tt_claimed :: nat
  tt_completed :: nat
  tt_rescheduled :: nat
  tt_cancelled :: nat
  tt_abandoned :: nat

definition no_teardowns :: teardown_tick where
  "no_teardowns = \<lparr>tt_released = 0, tt_claimed = 0, tt_completed = 0, tt_rescheduled = 0, tt_cancelled = 0, tt_abandoned = 0\<rparr>"

definition cancel_tx :: "teardown_job \<Rightarrow> bool tx" where
  "cancel_tx job =
     tx_bind (tx_read (\<lambda>db. users_findById db (tj_user_id job))) (\<lambda>current.
     if map_option u_status current = Some User_Disabled then tx_return False
     else tx_bind (tx_of (gatewayTeardownJobs_deleteClaimed job)) (\<lambda>_. tx_return True))"

definition cancelJob :: "teardown_job \<Rightarrow> bool io" where
  "cancelJob job = io_lock (userLifecycleLockKey (tj_user_id job)) (io_tx (cancel_tx job))"

definition cancel_counted :: "teardown_tick \<Rightarrow> teardown_job \<Rightarrow> (teardown_tick \<times> bool) io" where
  "cancel_counted result job = io_bind (cancelJob job) (\<lambda>cancelled.
     io_return (if cancelled then result\<lparr>tt_cancelled := Suc (tt_cancelled result)\<rparr> else result, False))"

definition still_disabled :: "user option \<Rightarrow> bool" where
  "still_disabled user = (case user of None \<Rightarrow> False | Some u \<Rightarrow> u_status u = User_Disabled)"

text \<open>The counts are kept when the last audit row cannot be written; the flag says that it threw.\<close>

definition run_teardown_job ::
  "(string \<Rightarrow> gateway_teardown io) \<Rightarrow> rat \<Rightarrow> teardown_tick \<Rightarrow> teardown_job \<Rightarrow> (teardown_tick \<times> bool) io" where
  "run_teardown_job disable random result job =
     io_bind (io_read (\<lambda>db. users_findById db (tj_user_id job))) (\<lambda>user.
     if \<not> still_disabled user then cancel_counted result job
     else
       io_bind (runGatewayTeardown (disable (tj_user_id job)) (tj_user_id job) (Some job)) (\<lambda>attempt.
       if ta_outcome attempt = Teardown_Pending
       then
         io_bind (io_read (\<lambda>db. users_findById db (tj_user_id job))) (\<lambda>settled.
         if \<not> still_disabled settled then cancel_counted result job
         else
           io_bind io_now (\<lambda>now. io_bind io_now (\<lambda>stamp.
           io_bind (io_tx (tx_of (gatewayTeardownJobs_reschedule job (now + teardownBackoffMs (int (tj_attempts job)) random)
               (case ta_error attempt of None \<Rightarrow> ''unknown error'' | Some e \<Rightarrow> e) stamp))) (\<lambda>rescheduled.
           io_return (if rescheduled then result\<lparr>tt_rescheduled := Suc (tt_rescheduled result)\<rparr> else result, False)))))
       else
         io_bind io_now (\<lambda>now.
         io_bind (io_try (io_tx (tx_audit None USER_GATEWAY_TEARDOWN_COMPLETE (tj_user_id job) now))) (\<lambda>r.
         io_return (result\<lparr>tt_completed := Suc (tt_completed result)\<rparr>, case r of Inl f \<Rightarrow> True | Inr _ \<Rightarrow> False)))))"

definition teardown_releaseStale :: "teardown_tick \<Rightarrow> teardown_tick io" where
  "teardown_releaseStale result =
     io_bind io_now (\<lambda>now. io_bind io_now (\<lambda>due. io_bind io_now (\<lambda>stamp.
     io_bind (io_tx (tx_of (gatewayTeardownJobs_releaseStale (now - TEARDOWN_STALE_AFTER_MS) due stamp))) (\<lambda>n.
     io_return (result\<lparr>tt_released := n\<rparr>)))))"

definition teardown_claim_one :: "teardown_job option io" where
  "teardown_claim_one = io_bind io_now (\<lambda>now. io_bind io_now (\<lambda>stamp. io_bind io_newId (\<lambda>generation.
     io_bind (io_tx (tx_of (gatewayTeardownJobs_claimDue generation stamp now 1))) (\<lambda>jobs.
     io_return (case jobs of [] \<Rightarrow> None | j # _ \<Rightarrow> Some j)))))"

definition abandoned :: "teardown_tick \<Rightarrow> teardown_tick" where
  "abandoned t = t\<lparr>tt_abandoned := Suc (tt_abandoned t)\<rparr>"

fun teardown_loop :: "(string \<Rightarrow> gateway_teardown io) \<Rightarrow> nat \<Rightarrow> (nat \<Rightarrow> rat) \<Rightarrow> teardown_tick \<Rightarrow> teardown_tick io" where
  "teardown_loop disable 0 random result = io_return result"
| "teardown_loop disable (Suc n) random result =
     io_bind (io_try teardown_claim_one) (\<lambda>r. case r of
       Inl f \<Rightarrow> io_return result
     | Inr None \<Rightarrow> io_return result
     | Inr (Some job) \<Rightarrow>
         (let taken = result\<lparr>tt_claimed := Suc (tt_claimed result)\<rparr>
          in io_bind (io_try (run_teardown_job disable (random n) taken job)) (\<lambda>ran.
             teardown_loop disable n random (case ran of
                 Inr (t, threw) \<Rightarrow> if threw then abandoned t else t
               | Inl f \<Rightarrow> abandoned taken))))"

definition teardown_runTick :: "(string \<Rightarrow> gateway_teardown io) \<Rightarrow> nat \<Rightarrow> (nat \<Rightarrow> rat) \<Rightarrow> teardown_tick io" where
  "teardown_runTick disable batchSize random =
     io_bind (io_try (teardown_releaseStale no_teardowns)) (\<lambda>r.
     teardown_loop disable batchSize random (case r of Inl f \<Rightarrow> no_teardowns | Inr t \<Rightarrow> t))"

end
