(* ===== verification/Outbox_Worker.thy ===== *)
theory Outbox_Worker
  imports Outbox
begin

section \<open>The outbox worker\<close>

text \<open>
  Models \<open>server/src/email/outbox-worker.ts\<close>: one tick, with the stale sweep, the sealing of old rows,
  the claims one at a time, and the delivery of a claimed row: its authorization in one transaction, the
  handoff to the relay, and what is written about the outcome. A delivery that throws has not counted
  anything yet, so it is modelled as returning its counts.
\<close>

definition OUTBOX_MAX_ATTEMPTS :: nat where "OUTBOX_MAX_ATTEMPTS = 5"
definition OUTBOX_BATCH_SIZE :: nat where "OUTBOX_BATCH_SIZE = 20"
definition OUTBOX_BASE_BACKOFF_MS :: rat where "OUTBOX_BASE_BACKOFF_MS = 30000"
definition OUTBOX_MAX_BACKOFF_MS :: rat where "OUTBOX_MAX_BACKOFF_MS = 60 * 60000"
definition OUTBOX_STALE_AFTER_MS :: int where "OUTBOX_STALE_AFTER_MS = 5 * 60000"
definition SMTP_SEND_BUDGET_MS :: int where "SMTP_SEND_BUDGET_MS = 60000"
definition OUTBOX_SEND_BUDGET_MS :: int where "OUTBOX_SEND_BUDGET_MS = SMTP_SEND_BUDGET_MS"

definition OUTBOX_DELIVERED_UNACKNOWLEDGED :: string where
  "OUTBOX_DELIVERED_UNACKNOWLEDGED = ''delivered-unacknowledged''"

definition OUTBOX_SEALED_UNREADABLE :: string where "OUTBOX_SEALED_UNREADABLE = ''sealed-unreadable''"

definition backoffDelayMs :: "int \<Rightarrow> rat \<Rightarrow> int" where
  "backoffDelayMs attempts random =
     (let exponent = max 0 (min attempts 16);
          base = min (OUTBOX_BASE_BACKOFF_MS * 2 ^ nat exponent) OUTBOX_MAX_BACKOFF_MS
      in js_round (base + base * (1 / 10) * random))"

record outbox_tick =
  ot_released :: nat
  ot_claimed :: nat
  ot_sent :: nat
  ot_rescheduled :: nat
  ot_failed :: nat
  ot_unacknowledged :: nat
  ot_lost :: nat
  ot_abandoned :: nat
  ot_sealedLegacy :: nat
  ot_skipped :: bool

definition zero_tick :: outbox_tick where
  "zero_tick = \<lparr>ot_released = 0, ot_claimed = 0, ot_sent = 0, ot_rescheduled = 0, ot_failed = 0, ot_unacknowledged = 0,
     ot_lost = 0, ot_abandoned = 0, ot_sealedLegacy = 0, ot_skipped = False\<rparr>"

definition lostClaim :: "outbox_tick \<Rightarrow> outbox_tick" where
  "lostClaim t = t\<lparr>ot_lost := Suc (ot_lost t)\<rparr>"

definition count_sent :: "outbox_tick \<Rightarrow> outbox_tick" where "count_sent t = t\<lparr>ot_sent := Suc (ot_sent t)\<rparr>"
definition count_failed :: "outbox_tick \<Rightarrow> outbox_tick" where "count_failed t = t\<lparr>ot_failed := Suc (ot_failed t)\<rparr>"
definition count_rescheduled :: "outbox_tick \<Rightarrow> outbox_tick" where
  "count_rescheduled t = t\<lparr>ot_rescheduled := Suc (ot_rescheduled t)\<rparr>"

subsection \<open>Authorization\<close>

datatype authorization = Auth_Allowed | Auth_Ineligible | Auth_Lost

text \<open>The account a row is for, and whether the row may no longer go to its address.\<close>

definition recipient_of :: "portal_db \<Rightarrow> mail \<Rightarrow> string option" where
  "recipient_of db entry = (case ml_recipient_user_id entry of
      Some u \<Rightarrow> Some u
    | None \<Rightarrow> map_option u_id (users_findByEmail db (ml_to_email entry)))"

definition unlawful :: "portal_db \<Rightarrow> mail \<Rightarrow> bool" where
  "unlawful db entry \<longleftrightarrow> isReleasedEmail (ml_to_email entry) \<or>
     (truthy (recipient_of db entry) \<and> \<not> users_lockEmailRecipient db (the (recipient_of db entry)) (ml_to_email entry))"

definition authorize :: "mail \<Rightarrow> int \<Rightarrow> int \<Rightarrow> authorization tx" where
  "authorize entry instant stamp =
     tx_bind (tx_read (\<lambda>db. emailOutbox_findById db (ml_id entry))) (\<lambda>current.
     if (case current of None \<Rightarrow> True | Some m \<Rightarrow> ml_status m \<noteq> Mail_Sending \<or> ml_generation m \<noteq> ml_generation entry)
     then tx_return Auth_Lost
     else
       tx_bind (tx_read (\<lambda>db. unlawful db entry)) (\<lambda>refused.
       if refused
       then tx_bind (tx_of (emailOutbox_markFailed entry RECIPIENT_CHANGED stamp)) (\<lambda>ok.
            tx_return (if ok then Auth_Ineligible else Auth_Lost))
       else tx_bind (tx_of (emailOutbox_beginDelivery entry instant)) (\<lambda>ok.
            tx_return (if ok then Auth_Allowed else Auth_Lost))))"

subsection \<open>Delivery\<close>

definition parkUnacknowledged :: "outbox_tick \<Rightarrow> mail \<Rightarrow> string \<Rightarrow> outbox_tick io" where
  "parkUnacknowledged result entry message =
     (let counted = result\<lparr>ot_unacknowledged := Suc (ot_unacknowledged result)\<rparr> in
      io_bind io_now (\<lambda>stamp.
      io_bind (io_try (io_tx (tx_of (emailOutbox_markFailed entry
          (OUTBOX_DELIVERED_UNACKNOWLEDGED @ '': '' @ message) stamp)))) (\<lambda>r.
      io_return (case r of Inr parked \<Rightarrow> if parked then counted else lostClaim counted | Inl f \<Rightarrow> counted))))"

definition failUnreadable :: "outbox_tick \<Rightarrow> mail \<Rightarrow> string \<Rightarrow> outbox_tick io" where
  "failUnreadable result entry reason =
     io_bind io_now (\<lambda>stamp.
     io_bind (io_tx (tx_of (emailOutbox_markFailed entry (OUTBOX_SEALED_UNREADABLE @ '': '' @ reason) stamp))) (\<lambda>ok.
     io_return (if ok then count_failed result else lostClaim result)))"

text \<open>What follows a message the relay refused: nothing of it was delivered.\<close>

definition retry_later :: "rat \<Rightarrow> outbox_tick \<Rightarrow> mail \<Rightarrow> string \<Rightarrow> outbox_tick io" where
  "retry_later random result entry message =
     (if OUTBOX_MAX_ATTEMPTS \<le> ml_attempts entry
      then io_bind io_now (\<lambda>stamp.
           io_bind (io_tx (tx_of (emailOutbox_markFailed entry message stamp))) (\<lambda>ok.
           io_return (if ok then count_failed result else lostClaim result)))
      else io_bind io_now (\<lambda>now. io_bind io_now (\<lambda>stamp.
           io_bind (io_tx (tx_of (emailOutbox_reschedule entry (now + backoffDelayMs (int (ml_attempts entry)) random) message stamp))) (\<lambda>ok.
           io_return (if ok then count_rescheduled result else lostClaim result)))))"

text \<open>What follows a message the relay accepted.\<close>

definition acknowledge :: "outbox_tick \<Rightarrow> mail \<Rightarrow> outbox_tick io" where
  "acknowledge result entry =
     io_bind io_now (\<lambda>now.
     io_bind (io_try (io_tx (tx_of (emailOutbox_markSent entry now)))) (\<lambda>r. case r of
         Inr ok \<Rightarrow> io_return (if ok then count_sent result else lostClaim result)
       | Inl f \<Rightarrow> parkUnacknowledged result entry (err_message (f_error f))))"

definition hand_off :: "rat \<Rightarrow> outbox_tick \<Rightarrow> mail \<Rightarrow> mail_content \<Rightarrow> outbox_tick io" where
  "hand_off random result entry content =
     io_bind (smtp_send (ml_id entry) (ml_to_email entry) (mc_subject content) (mc_html content) (mc_text content)) (\<lambda>answer.
     case answer of
       Accepted \<Rightarrow> acknowledge result entry
     | Unacknowledged message \<Rightarrow> parkUnacknowledged result entry message
     | Rejected message \<Rightarrow> retry_later random result entry message)"

text \<open>\<open>account\<close> is the account whose lifecycle key the authorization is made under, when there is one.\<close>

definition authorized :: "string option \<Rightarrow> mail \<Rightarrow> (int \<times> authorization) io" where
  "authorized account entry =
     (let run = io_bind io_now (\<lambda>started. io_bind io_now (\<lambda>stamp.
          io_bind (io_tx (authorize entry started stamp)) (\<lambda>a. io_return (started, a))))
      in case account of None \<Rightarrow> run | Some u \<Rightarrow> io_lock (userLifecycleLockKey u) run)"

definition deliverClaimed :: "opener \<Rightarrow> rat \<Rightarrow> outbox_tick \<Rightarrow> mail \<Rightarrow> string option \<Rightarrow> outbox_tick io" where
  "deliverClaimed opener random result entry account =
     io_bind (authorized account entry) (\<lambda>(started, auth).
     case auth of
       Auth_Lost \<Rightarrow> io_return (lostClaim result)
     | Auth_Ineligible \<Rightarrow> io_return (count_failed result)
     | Auth_Allowed \<Rightarrow>
         io_bind io_now (\<lambda>clock.
         if started + OUTBOX_SEND_BUDGET_MS \<le> clock
         then io_bind io_now (\<lambda>now. io_bind io_now (\<lambda>stamp.
              io_bind (io_tx (tx_of (emailOutbox_reschedule entry now ''handoff-expired'' stamp))) (\<lambda>ok.
              io_return (if ok then count_rescheduled result else lostClaim result))))
         else (case openOutboxRecord opener entry of
             Inl reason \<Rightarrow> failUnreadable result entry reason
           | Inr content \<Rightarrow> hand_off random result entry content)))"

definition deliver :: "opener \<Rightarrow> rat \<Rightarrow> outbox_tick \<Rightarrow> mail \<Rightarrow> outbox_tick io" where
  "deliver opener random result entry =
     io_bind (io_read (\<lambda>db. if truthy (ml_recipient_user_id entry)
         then users_findById db (the (ml_recipient_user_id entry)) else users_findByEmail db (ml_to_email entry))) (\<lambda>recipient.
     let userId = (case ml_recipient_user_id entry of Some u \<Rightarrow> Some u | None \<Rightarrow> map_option u_id recipient)
     in if \<not> truthy userId then deliverClaimed opener random result entry None
        else io_lock (userMailHandoffLockKey (the userId)) (deliverClaimed opener random result entry userId))"

subsection \<open>A tick\<close>

definition outbox_claim_one :: "mail option io" where
  "outbox_claim_one = io_bind io_now (\<lambda>now. io_bind io_newId (\<lambda>generation. io_bind io_now (\<lambda>stamp.
     io_bind (io_tx (tx_of (emailOutbox_claimDue (\<lambda>_. (generation, stamp)) now 1))) (\<lambda>rows.
     io_return (case rows of [] \<Rightarrow> None | m # _ \<Rightarrow> Some m)))))"

text \<open>\<open>stopping n\<close>: whether \<open>stop()\<close> was called by the time the loop has \<open>n\<close> rounds left.\<close>

fun outbox_loop :: "opener \<Rightarrow> (nat \<Rightarrow> bool) \<Rightarrow> nat \<Rightarrow> (nat \<Rightarrow> rat) \<Rightarrow> outbox_tick \<Rightarrow> outbox_tick io" where
  "outbox_loop opener stopping 0 random result = io_return result"
| "outbox_loop opener stopping (Suc n) random result =
     (if stopping n then io_return result
      else
        io_bind (io_try outbox_claim_one) (\<lambda>r. case r of
          Inl f \<Rightarrow> io_return result
        | Inr None \<Rightarrow> io_return result
        | Inr (Some entry) \<Rightarrow>
            (let taken = result\<lparr>ot_claimed := Suc (ot_claimed result)\<rparr>
             in io_bind (io_try (deliver opener (random n) taken entry)) (\<lambda>done1.
                outbox_loop opener stopping n random (case done1 of
                    Inr t \<Rightarrow> t | Inl f \<Rightarrow> taken\<lparr>ot_abandoned := Suc (ot_abandoned taken)\<rparr>)))))"

definition outbox_releaseStale :: "outbox_tick \<Rightarrow> outbox_tick io" where
  "outbox_releaseStale result =
     io_bind io_now (\<lambda>now. io_bind io_now (\<lambda>due. io_bind io_now (\<lambda>stamp.
     io_bind (io_tx (tx_of (emailOutbox_releaseStale (now - OUTBOX_STALE_AFTER_MS) due stamp))) (\<lambda>n.
     io_return (result\<lparr>ot_released := n\<rparr>)))))"

text \<open>\<open>more1\<close> is the worker's \<open>legacyRowsMayRemain\<close>.\<close>

definition sealLegacy :: "sealer \<Rightarrow> bool \<Rightarrow> outbox_tick \<Rightarrow> (outbox_tick \<times> bool) io" where
  "sealLegacy sealer more1 result =
     (if \<not> more1 then io_return (result, more1)
      else io_bind (io_try (sealLegacyBearerRows sealer LEGACY_SEAL_BATCH)) (\<lambda>r.
        io_return (case r of Inr (sealed, remain) \<Rightarrow> (result\<lparr>ot_sealedLegacy := sealed\<rparr>, remain) | Inl f \<Rightarrow> (result, more1))))"

text \<open>\<open>transport\<close> is what the transport factory answered: an error, no transport, or one.\<close>

definition outbox_runTick ::
  "sealer \<Rightarrow> opener \<Rightarrow> failure + bool \<Rightarrow> (nat \<Rightarrow> bool) \<Rightarrow> nat \<Rightarrow> (nat \<Rightarrow> rat) \<Rightarrow> bool \<Rightarrow> (outbox_tick \<times> bool) io" where
  "outbox_runTick sealer opener transport stopping batchSize random more1 =
     io_bind (io_try (outbox_releaseStale zero_tick)) (\<lambda>r.
     io_bind (sealLegacy sealer more1 (case r of Inr t \<Rightarrow> t | Inl f \<Rightarrow> zero_tick)) (\<lambda>(result, more2).
     case transport of
       Inl f \<Rightarrow> io_return (result, more2)
     | Inr False \<Rightarrow> io_return (zero_tick\<lparr>ot_released := ot_released result, ot_sealedLegacy := ot_sealedLegacy result,
           ot_skipped := True\<rparr>, more2)
     | Inr True \<Rightarrow> io_bind (outbox_loop opener stopping batchSize random result) (\<lambda>t. io_return (t, more2))))"

end
