(* ===== verification/Outbox_Safety.thy ===== *)
theory Outbox_Safety
  imports Outbox_Worker
begin

section \<open>What is written about a message\<close>

text \<open>
  A message is given to the relay and its row is written, in two systems without a transaction between
  them. What the row may say afterwards, whatever the relay answered and whichever write failed; that a
  worker whose claim was taken over writes nothing; that a message goes out only to an address its
  account still has; and that a sealed message opens where it was sealed and nowhere else.
\<close>

subsection \<open>A row under a claim\<close>

definition row_with :: "mail \<Rightarrow> (mail \<Rightarrow> bool) \<Rightarrow> portal_db \<Rightarrow> bool" where
  "row_with entry P db \<longleftrightarrow> distinct (map ml_id (db_outbox db)) \<and>
     (\<exists>m. emailOutbox_findById db (ml_id entry) = Some m \<and> P m)"

text \<open>The others leave the row alone: no worker takes a claimed row before it is stale.\<close>

definition minds_mail :: "mail \<Rightarrow> env \<Rightarrow> bool" where
  "minds_mail entry env \<longleftrightarrow> (\<forall>n db. (distinct (map ml_id (db_outbox db)) \<longrightarrow> distinct (map ml_id (db_outbox (e_other env n db)))) \<and>
     emailOutbox_findById (e_other env n db) (ml_id entry) = emailOutbox_findById db (ml_id entry))"

lemma stable_row: "minds_mail entry env \<Longrightarrow> stable env (\<lambda>w. row_with entry P (w_db w) \<and> S (w_sent w))"
  by (rule stableI) (auto simp: row_with_def minds_mail_def)

lemma row_with_mono: "row_with entry P db \<Longrightarrow> (\<And>m. P m \<Longrightarrow> Q m) \<Longrightarrow> row_with entry Q db"
  by (auto simp: row_with_def)

lemma settle_mail_row:
  assumes "row_with entry P db" "\<And>m. ml_id (f m) = ml_id m"
  shows "row_with entry (\<lambda>m'. \<exists>m. P m \<and> m' = (if owns_mail entry m then f m else m)) (snd (settle_mail entry f db))"
proof -
  obtain m where "distinct (map ml_id (db_outbox db))" "find_by ml_id (ml_id entry) (db_outbox db) = Some m" "P m"
    using assms(1) by (auto simp: row_with_def emailOutbox_findById_def)
  then show ?thesis using assms(2)
    by (auto simp: row_with_def settle_mail_def emailOutbox_findById_def find_by_update_where map_update_where)
qed

lemma settle_mail_hit:
  assumes "row_with entry (owns_mail entry) db"
  shows "fst (settle_mail entry f db)"
proof -
  obtain m where "find_by ml_id (ml_id entry) (db_outbox db) = Some m" "owns_mail entry m"
    using assms by (auto simp: row_with_def emailOutbox_findById_def)
  then show ?thesis by (auto simp: settle_mail_def list_ex_iff find_by_def find_Some_iff)
qed

lemma hoare_settle_mail:
  assumes env: "minds_mail entry env" and f: "\<And>m. ml_id (f m) = ml_id m"
  shows "hoare env (\<lambda>w. row_with entry P (w_db w) \<and> S (w_sent w)) (io_tx (tx_of (settle_mail entry f)))
    (\<lambda>_ w. row_with entry (\<lambda>m'. \<exists>m. P m \<and> m' = (if owns_mail entry m then f m else m)) (w_db w) \<and> S (w_sent w))
    (\<lambda>e w. store_failure env e \<and> row_with entry (\<lambda>m'. \<exists>m. P m \<and> (m' = m \<or> owns_mail entry m \<and> m' = f m)) (w_db w) \<and> S (w_sent w))"
proof (rule hoare_tx_cases [OF stable_row [OF env]])
  fix w :: world and a db' e
  assume P: "row_with entry P (w_db w) \<and> S (w_sent w)"
  note row = settle_mail_row [OF conjunct1 [OF P], of f, OF f]
  { assume "tx_of (settle_mail entry f) (w_db w) = Inr (a, db')"
    then have db': "db' = snd (settle_mail entry f (w_db w))" by (simp add: tx_of_def prod_eq_iff)
    show done1: "row_with entry (\<lambda>m'. \<exists>m. P m \<and> m' = (if owns_mail entry m then f m else m)) (w_db (w\<lparr>w_db := db'\<rparr>)) \<and>
        S (w_sent (w\<lparr>w_db := db'\<rparr>))" using row P db' by simp
    show "store_failure env e \<and> row_with entry (\<lambda>m'. \<exists>m. P m \<and> (m' = m \<or> owns_mail entry m \<and> m' = f m)) (w_db (w\<lparr>w_db := db'\<rparr>)) \<and>
        S (w_sent (w\<lparr>w_db := db'\<rparr>))" if "store_failure env e"
      using done1 that by (auto elim!: row_with_mono split: if_splits) }
  show "store_failure env e \<and> row_with entry (\<lambda>m'. \<exists>m. P m \<and> (m' = m \<or> owns_mail entry m \<and> m' = f m)) (w_db w) \<and> S (w_sent w)"
    if "store_failure env e"
    using P that by (auto elim!: row_with_mono)
  show "store_failure env (plain e') \<and> row_with entry (\<lambda>m'. \<exists>m. P m \<and> (m' = m \<or> owns_mail entry m \<and> m' = f m)) (w_db w) \<and> S (w_sent w)"
    if "tx_of (settle_mail entry f) (w_db w) = Inl e'" for e'
    using that by (simp add: tx_of_def)
qed

subsection \<open>What may be written\<close>

definition parked :: "mail \<Rightarrow> bool" where
  "parked m \<longleftrightarrow> ml_status m = Mail_Failed \<and> (\<exists>r. ml_last_error m = Some (OUTBOX_DELIVERED_UNACKNOWLEDGED @ '': '' @ r))"

definition faulty :: "env \<Rightarrow> bool" where
  "faulty env \<longleftrightarrow> (\<exists>n f. e_fault env n = Some f)"

lemma store_failure_faulty: "store_failure env f \<Longrightarrow> faulty env"
  by (auto simp: store_failure_def faulty_def)

text \<open>A message the relay may have: its row says so, or it is still under the claim, after the store failed.\<close>

definition handed :: "env \<Rightarrow> mail \<Rightarrow> mail \<Rightarrow> bool" where
  "handed env entry m \<longleftrightarrow> ml_status m = Mail_Sent \<or> parked m \<or> (owns_mail entry m \<and> faulty env)"

definition unsent :: "mail \<Rightarrow> bool" where
  "unsent m \<longleftrightarrow> ml_status m \<noteq> Mail_Sent"

lemma owns_unsent: "owns_mail entry m \<Longrightarrow> unsent m"
  by (simp add: owns_mail_def unsent_def)

text \<open>A settling write that leaves the message unsent.\<close>

lemma hoare_unsent:
  assumes env: "minds_mail entry env" and f: "\<And>m. ml_id (f m) = ml_id m" "\<And>m. ml_status (f m) \<noteq> Mail_Sent"
  shows "hoare env (\<lambda>w. row_with entry (owns_mail entry) (w_db w) \<and> S (w_sent w))
    (io_bind (io_tx (tx_of (settle_mail entry f))) (\<lambda>ok. io_return (k ok)))
    (\<lambda>_ w. row_with entry unsent (w_db w) \<and> S (w_sent w)) (\<lambda>_ w. row_with entry unsent (w_db w) \<and> S (w_sent w))"
proof (rule hoare_bind [where R = "\<lambda>_ w. row_with entry unsent (w_db w) \<and> S (w_sent w)"])
  show "hoare env (\<lambda>w. row_with entry (owns_mail entry) (w_db w) \<and> S (w_sent w)) (io_tx (tx_of (settle_mail entry f)))
      (\<lambda>_ w. row_with entry unsent (w_db w) \<and> S (w_sent w)) (\<lambda>_ w. row_with entry unsent (w_db w) \<and> S (w_sent w))"
    by (rule hoare_weaken [OF hoare_settle_mail [OF env f(1)]])
       (auto elim!: row_with_mono dest: owns_unsent simp: unsent_def f(2))
qed (rule hoare_return)

lemma hoare_clock_row: "minds_mail entry env \<Longrightarrow> (\<And>x. hoare env (\<lambda>w. row_with entry P (w_db w) \<and> S (w_sent w)) (k x) Q E) \<Longrightarrow>
    hoare env (\<lambda>w. row_with entry P (w_db w) \<and> S (w_sent w)) (io_bind io_now k) Q E"
  by (rule hoare_bind [where R = "\<lambda>_ w. row_with entry P (w_db w) \<and> S (w_sent w)"]) (auto intro!: hoare_now stable_row)

lemma hoare_park:
  assumes env: "minds_mail entry env"
  shows "hoare env (\<lambda>w. row_with entry (\<lambda>m. ml_status m = Mail_Sent \<or> owns_mail entry m) (w_db w) \<and> S (w_sent w))
    (parkUnacknowledged t entry message) (\<lambda>_ w. row_with entry (handed env entry) (w_db w) \<and> S (w_sent w)) E"
proof -
  let ?P = "\<lambda>m. ml_status m = Mail_Sent \<or> owns_mail entry m"
  have "hoare env (\<lambda>w. row_with entry ?P (w_db w) \<and> S (w_sent w))
      (io_try (io_tx (tx_of (emailOutbox_markFailed entry (OUTBOX_DELIVERED_UNACKNOWLEDGED @ '': '' @ message) stamp))))
      (\<lambda>_ w. row_with entry (handed env entry) (w_db w) \<and> S (w_sent w)) E" for stamp
    unfolding emailOutbox_markFailed_def
    by (rule hoare_try, rule hoare_weaken [OF hoare_settle_mail [OF env]])
       (auto elim!: row_with_mono dest!: store_failure_faulty simp: handed_def parked_def)
  then show ?thesis unfolding parkUnacknowledged_def Let_def
    by (intro hoare_clock_row [OF env]) (rule hoare_bind, assumption, rule hoare_return)
qed

lemma hoare_acknowledge:
  assumes env: "minds_mail entry env"
  shows "hoare env (\<lambda>w. row_with entry (owns_mail entry) (w_db w) \<and> S (w_sent w)) (acknowledge t entry)
    (\<lambda>_ w. row_with entry (handed env entry) (w_db w) \<and> S (w_sent w)) E"
proof -
  let ?after = "\<lambda>r w. (case r of Inr _ \<Rightarrow> row_with entry (handed env entry) (w_db w)
      | Inl _ \<Rightarrow> row_with entry (\<lambda>m. ml_status m = Mail_Sent \<or> owns_mail entry m) (w_db w)) \<and> S (w_sent w)"
  have tried: "hoare env (\<lambda>w. row_with entry (owns_mail entry) (w_db w) \<and> S (w_sent w))
      (io_try (io_tx (tx_of (emailOutbox_markSent entry now)))) ?after E" for now
    unfolding emailOutbox_markSent_def
    by (rule hoare_try, rule hoare_weaken [OF hoare_settle_mail [OF env]]) (auto elim!: row_with_mono simp: handed_def)
  have rest: "hoare env (?after r) (case r of
         Inr ok \<Rightarrow> io_return (if ok then count_sent t else lostClaim t)
       | Inl f \<Rightarrow> parkUnacknowledged t entry (err_message (f_error f)))
      (\<lambda>_ w. row_with entry (handed env entry) (w_db w) \<and> S (w_sent w)) E" for r :: "failure + bool"
    by (cases r) (auto intro!: hoare_return hoare_park [OF env])
  show ?thesis unfolding acknowledge_def by (rule hoare_clock_row [OF env], rule hoare_bind [OF tried rest])
qed

lemma hoare_retry_later:
  assumes env: "minds_mail entry env"
  shows "hoare env (\<lambda>w. row_with entry (owns_mail entry) (w_db w) \<and> S (w_sent w)) (retry_later random t entry message)
    (\<lambda>_ w. row_with entry unsent (w_db w) \<and> S (w_sent w)) (\<lambda>_ w. row_with entry unsent (w_db w) \<and> S (w_sent w))"
  unfolding retry_later_def emailOutbox_markFailed_def emailOutbox_reschedule_def
  by (intro hoare_if hoare_clock_row [OF env] hoare_unsent [OF env]) auto

lemma authorize_runs:
  "authorize entry instant stamp db = Inr (a, db') \<longleftrightarrow>
     (if (case emailOutbox_findById db (ml_id entry) of None \<Rightarrow> True
          | Some m \<Rightarrow> ml_status m \<noteq> Mail_Sending \<or> ml_generation m \<noteq> ml_generation entry) then a = Auth_Lost \<and> db' = db
      else if unlawful db entry then
        db' = snd (emailOutbox_markFailed entry RECIPIENT_CHANGED stamp db) \<and>
        a = (if fst (emailOutbox_markFailed entry RECIPIENT_CHANGED stamp db) then Auth_Ineligible else Auth_Lost)
      else
        db' = snd (emailOutbox_beginDelivery entry instant db) \<and>
        a = (if fst (emailOutbox_beginDelivery entry instant db) then Auth_Allowed else Auth_Lost))"
  unfolding authorize_def tx_bind_def tx_read_def tx_return_def tx_of_def
  by (auto simp: rbind_eq_Inr split: option.splits prod.splits)

lemma authorize_row:
  assumes "row_with entry (owns_mail entry) db" "authorize entry instant stamp db = Inr (a, db')"
  shows "case a of Auth_Allowed \<Rightarrow> row_with entry (owns_mail entry) db' \<and> \<not> unlawful db entry | _ \<Rightarrow> row_with entry unsent db'"
proof -
  have begun: "row_with entry (owns_mail entry) (snd (emailOutbox_beginDelivery entry instant db))"
    unfolding emailOutbox_beginDelivery_def
    by (rule row_with_mono [OF settle_mail_row [OF assms(1)]]) (auto simp: owns_mail_def)
  have failed: "row_with entry unsent (snd (emailOutbox_markFailed entry RECIPIENT_CHANGED stamp db))"
    unfolding emailOutbox_markFailed_def
    by (rule row_with_mono [OF settle_mail_row [OF assms(1)]]) (auto simp: owns_mail_def unsent_def)
  have "row_with entry unsent db" "row_with entry unsent (snd (emailOutbox_beginDelivery entry instant db))"
    using assms(1) begun by (auto elim!: row_with_mono dest: owns_unsent)
  then show ?thesis using assms(2) begun failed unfolding authorize_runs
    by (auto split: if_splits authorization.splits)
qed

lemma hoare_authorized:
  assumes env: "minds_mail entry env"
  shows "hoare env (\<lambda>w. row_with entry (owns_mail entry) (w_db w) \<and> S (w_sent w)) (authorized account entry)
    (\<lambda>(_, a) w. (case a of Auth_Allowed \<Rightarrow> row_with entry (owns_mail entry) (w_db w) | _ \<Rightarrow> row_with entry unsent (w_db w)) \<and> S (w_sent w))
    (\<lambda>_ w. row_with entry unsent (w_db w) \<and> S (w_sent w))"
proof -
  let ?P = "\<lambda>w. row_with entry (owns_mail entry) (w_db w) \<and> S (w_sent w)"
  let ?E = "\<lambda>_ w. row_with entry unsent (w_db w) \<and> S (w_sent w)"
  let ?A = "\<lambda>a w. (case a of Auth_Allowed \<Rightarrow> row_with entry (owns_mail entry) (w_db w) | _ \<Rightarrow> row_with entry unsent (w_db w)) \<and> S (w_sent w)"
  have weak: "?E f w" if "?P w" for f w using that by (auto elim!: row_with_mono dest: owns_unsent)
  have tx: "hoare env ?P (io_tx (authorize entry started stamp)) ?A ?E" for started stamp
  proof (rule hoare_tx [OF stable_row [OF env]])
    show "?A a (w\<lparr>w_db := db'\<rparr>) \<and> (\<forall>f. ?E f (w\<lparr>w_db := db'\<rparr>))"
      if "?P w" "authorize entry started stamp (w_db w) = Inr (a, db')" for w a db'
      using authorize_row [OF conjunct1 [OF that(1)] that(2)] that(1)
      by (auto split: authorization.splits elim!: row_with_mono dest: owns_unsent)
  qed (rule weak)
  have run: "hoare env ?P (io_bind io_now (\<lambda>started. io_bind io_now (\<lambda>stamp.
      io_bind (io_tx (authorize entry started stamp)) (\<lambda>a. io_return (started, a))))) (\<lambda>(_, a). ?A a) ?E"
    by (intro hoare_clock_row [OF env]) (rule hoare_bind [OF tx], rule hoare_return, simp)
  show ?thesis unfolding authorized_def Let_def
    by (cases account) (auto intro!: run hoare_lock [OF stable_row [OF env]] weak)
qed

subsection \<open>Deliveries\<close>

text \<open>What a delivery may leave: nothing went out and the row does not say so; or one message did, and the
  row agrees with the relay's answer.\<close>

definition mail_left :: "env \<Rightarrow> opener \<Rightarrow> mail \<Rightarrow> sent list \<Rightarrow> world \<Rightarrow> bool" where
  "mail_left env opener entry p0 w \<longleftrightarrow> (w_sent w = p0 \<and> row_with entry unsent (w_db w)) \<or>
     (\<exists>s. w_sent w = p0 @ [s] \<and> sn_id s = ml_id entry \<and> sn_to s = ml_to_email entry \<and>
        openOutboxRecord opener entry = Inr \<lparr>mc_subject = sn_subject s, mc_html = sn_html s, mc_text = sn_text s\<rparr> \<and>
        (case sn_answer s of Rejected _ \<Rightarrow> row_with entry unsent (w_db w) | _ \<Rightarrow> row_with entry (handed env entry) (w_db w)))"

lemma hoare_final:
  assumes "hoare env P m (\<lambda>_. Q) (\<lambda>_. Q)" "P w"
  shows "Q (snd (m env w))"
  using assms by (cases "m env w"; cases "fst (m env w)") (auto simp: hoare_def)

lemma hoare_hand_off:
  assumes env: "minds_mail entry env" and open1: "openOutboxRecord opener entry = Inr content"
  shows "hoare env (\<lambda>w. row_with entry (owns_mail entry) (w_db w) \<and> w_sent w = p0) (hand_off random t entry content)
    (\<lambda>_. mail_left env opener entry p0) (\<lambda>_. mail_left env opener entry p0)"
proof -
  let ?s = "\<lambda>a. \<lparr>sn_id = ml_id entry, sn_to = ml_to_email entry, sn_subject = mc_subject content, sn_html = mc_html content,
    sn_text = mc_text content, sn_answer = a\<rparr>"
  have send: "hoare env (\<lambda>w. row_with entry (owns_mail entry) (w_db w) \<and> w_sent w = p0)
      (smtp_send (ml_id entry) (ml_to_email entry) (mc_subject content) (mc_html content) (mc_text content))
      (\<lambda>a w. row_with entry (owns_mail entry) (w_db w) \<and> w_sent w = p0 @ [?s a]) E" for E
    using env by (auto simp: hoare_def smtp_send_def Let_def row_with_def minds_mail_def)
  have ok: "mail_left env opener entry p0 w" if "w_sent w = p0 @ [?s a]"
    "case a of Rejected _ \<Rightarrow> row_with entry unsent (w_db w) | _ \<Rightarrow> row_with entry (handed env entry) (w_db w)" for a w
    unfolding mail_left_def using that open1 by (intro disjI2 exI [of _ "?s a"]) (auto split: send_answer.splits)
  have answer: "hoare env (\<lambda>w. row_with entry (owns_mail entry) (w_db w) \<and> w_sent w = p0 @ [?s a]) (case a of
       Accepted \<Rightarrow> acknowledge t entry
     | Unacknowledged message \<Rightarrow> parkUnacknowledged t entry message
     | Rejected message \<Rightarrow> retry_later random t entry message)
    (\<lambda>_. mail_left env opener entry p0) (\<lambda>_. mail_left env opener entry p0)" for a
  proof (cases a)
    case Accepted
    then show ?thesis
      using hoare_weaken [OF hoare_acknowledge [OF env, of "\<lambda>x. x = p0 @ [?s a]"]] ok [of _ a] by auto
  next
    case (Rejected message)
    then show ?thesis
      by (auto intro!: hoare_weaken [OF hoare_retry_later [OF env, of "\<lambda>x. x = p0 @ [?s a]"]] ok [of _ a])
  next
    case (Unacknowledged message)
    have "hoare env (\<lambda>w. row_with entry (owns_mail entry) (w_db w) \<and> w_sent w = p0 @ [?s a]) (parkUnacknowledged t entry message)
        (\<lambda>_ w. row_with entry (handed env entry) (w_db w) \<and> w_sent w = p0 @ [?s a]) (\<lambda>_. mail_left env opener entry p0)"
      by (rule hoare_weaken [OF hoare_park [OF env, of "\<lambda>x. x = p0 @ [?s a]"]]) (auto elim!: row_with_mono)
    then show ?thesis using Unacknowledged by (auto elim!: hoare_weaken intro!: ok [of _ a])
  qed
  show ?thesis unfolding hand_off_def by (rule hoare_bind [OF send answer])
qed

lemma hoare_deliverClaimed:
  assumes env: "minds_mail entry env"
  shows "hoare env (\<lambda>w. row_with entry (owns_mail entry) (w_db w) \<and> w_sent w = p0) (deliverClaimed opener random t entry account)
    (\<lambda>_. mail_left env opener entry p0) (\<lambda>_. mail_left env opener entry p0)"
proof -
  let ?L = "mail_left env opener entry p0" and ?own = "\<lambda>w. row_with entry (owns_mail entry) (w_db w) \<and> w_sent w = p0"
  have quiet: "?L w" if "row_with entry unsent (w_db w) \<and> w_sent w = p0" for w using that by (simp add: mail_left_def)
  have unsent: "hoare env ?own m (\<lambda>_. ?L) (\<lambda>_. ?L)"
    if "hoare env ?own m (\<lambda>_ w. row_with entry unsent (w_db w) \<and> w_sent w = p0) (\<lambda>_ w. row_with entry unsent (w_db w) \<and> w_sent w = p0)"
    for m :: "outbox_tick io"
    using that by (rule hoare_weaken) (simp_all add: quiet)
  have expired: "hoare env ?own (io_bind io_now (\<lambda>now. io_bind io_now (\<lambda>stamp.
              io_bind (io_tx (tx_of (emailOutbox_reschedule entry now ''handoff-expired'' stamp))) (\<lambda>ok.
              io_return (if ok then count_rescheduled t else lostClaim t))))) (\<lambda>_. ?L) (\<lambda>_. ?L)"
    unfolding emailOutbox_reschedule_def
    by (rule unsent, intro hoare_clock_row [OF env, where S = "\<lambda>x. x = p0"] hoare_unsent [OF env, where S = "\<lambda>x. x = p0"]) auto
  have unreadable: "hoare env ?own (failUnreadable t entry reason) (\<lambda>_. ?L) (\<lambda>_. ?L)" for reason
    unfolding failUnreadable_def emailOutbox_markFailed_def
    by (rule unsent, intro hoare_clock_row [OF env, where S = "\<lambda>x. x = p0"] hoare_unsent [OF env, where S = "\<lambda>x. x = p0"]) auto
  have allowed: "hoare env ?own (io_bind io_now (\<lambda>clock.
         if started + OUTBOX_SEND_BUDGET_MS \<le> clock
         then io_bind io_now (\<lambda>now. io_bind io_now (\<lambda>stamp.
              io_bind (io_tx (tx_of (emailOutbox_reschedule entry now ''handoff-expired'' stamp))) (\<lambda>ok.
              io_return (if ok then count_rescheduled t else lostClaim t))))
         else (case openOutboxRecord opener entry of
             Inl reason \<Rightarrow> failUnreadable t entry reason
           | Inr content \<Rightarrow> hand_off random t entry content))) (\<lambda>_. ?L) (\<lambda>_. ?L)" for started
    by (intro hoare_clock_row [OF env, where S = "\<lambda>x. x = p0"] hoare_if expired)
       (auto intro!: unreadable hoare_hand_off [OF env] split: sum.splits)
  show ?thesis unfolding deliverClaimed_def
  proof (rule hoare_bind [OF hoare_weaken [OF hoare_authorized [OF env, where S = "\<lambda>x. x = p0"]]], assumption, assumption)
    show "hoare env ((\<lambda>(_, a) w. (case a of Auth_Allowed \<Rightarrow> row_with entry (owns_mail entry) (w_db w)
          | _ \<Rightarrow> row_with entry unsent (w_db w)) \<and> w_sent w = p0) x)
        (case x of (started, auth) \<Rightarrow> case auth of
           Auth_Lost \<Rightarrow> io_return (lostClaim t)
         | Auth_Ineligible \<Rightarrow> io_return (count_failed t)
         | Auth_Allowed \<Rightarrow>
             io_bind io_now (\<lambda>clock.
             if started + OUTBOX_SEND_BUDGET_MS \<le> clock
             then io_bind io_now (\<lambda>now. io_bind io_now (\<lambda>stamp.
                  io_bind (io_tx (tx_of (emailOutbox_reschedule entry now ''handoff-expired'' stamp))) (\<lambda>ok.
                  io_return (if ok then count_rescheduled t else lostClaim t))))
             else (case openOutboxRecord opener entry of
                 Inl reason \<Rightarrow> failUnreadable t entry reason
               | Inr content \<Rightarrow> hand_off random t entry content))) (\<lambda>_. ?L) (\<lambda>_. ?L)" for x
      by (cases x; cases "snd x") (auto intro!: allowed hoare_return quiet)
  qed (simp add: quiet)
qed

text \<open>
  C24. What a delivery leaves behind. A claimed row is given to the relay at most once, with the row's
  address and the content that was sealed for it. If the relay refused it, or nothing went out, the row
  is not marked sent. If the relay may have the message, the row is never put back into the queue: it is
  marked sent, or parked as delivered without acknowledgement, or, if the store failed, it stays under the
  claim, where only the stale sweep can bring it back. This holds whether the delivery returned or threw,
  whatever the relay, the keys and the store did.
\<close>

theorem mail_never_requeued_after_handoff:
  assumes "minds_mail entry env" "row_with entry (owns_mail entry) (w_db w)"
  shows "mail_left env opener entry (w_sent w) (snd (deliver opener random t entry env w))"
proof -
  let ?own = "\<lambda>v. row_with entry (owns_mail entry) (w_db v) \<and> w_sent v = w_sent w"
  let ?L = "mail_left env opener entry (w_sent w)"
  note st = stable_row [OF assms(1), of "owns_mail entry" "\<lambda>x. x = w_sent w"]
  note go = hoare_deliverClaimed [OF assms(1), of "w_sent w" opener random t]
  have weak: "?L v" if "?own v" for v using that by (auto simp: mail_left_def elim!: row_with_mono dest: owns_unsent)
  have "hoare env ?own (deliver opener random t entry) (\<lambda>_. ?L) (\<lambda>_. ?L)"
    unfolding deliver_def Let_def
    by (rule hoare_bind [where R = "\<lambda>_. ?own"], rule hoare_read [OF st])
       (auto intro!: weak go hoare_if hoare_lock [OF st])
  then show ?thesis using assms(2) by (auto dest: hoare_final)
qed

definition ex_mail :: mail where
  "ex_mail = \<lparr>ml_id = ''m1'', ml_generation = ''g1'', ml_to_email = ''x@y.z'', ml_priority = 1, ml_recipient_user_id = Some ''u1'',
     ml_subject = ''hello'', ml_body_html = [], ml_body_text = ''text'', ml_status = Mail_Sending, ml_attempts = 1,
     ml_next_attempt_at = None, ml_last_error = None, ml_idempotency_key = None, ml_created_at = 0, ml_updated_at = 0\<rparr>"

definition ex_post :: world where
  "ex_post = \<lparr>w_db = \<lparr>db_users = [example_user ''u1'' Client], db_apis = [],
       db_applications = [], db_viewers = [], db_consumers = [], db_requests = [], db_grants = [],
       db_jobs = [], db_audit = [], db_recovery = [], db_outbox = [ex_mail], db_sessions = [], db_tokens = [], db_identities = [],
       db_orgs = [], db_teardown = [], db_credentials = [], db_registry = [], db_settings = [], db_proofs = [], db_password_locks = [], db_claims = []\<rparr>, w_tick = 0, w_puts = [], w_sent = [], w_acts = []\<rparr>"

text \<open>The relay accepts, and the store refuses the write that should say so.\<close>

definition ex_post_env :: env where
  "ex_post_env = \<lparr>e_other = (\<lambda>n db. db),
     e_fault = (\<lambda>n. if n \<in> {9, 10} then Some (Refused (plain (internal_error ''disk''))) else None),
     e_lock = (\<lambda>n k. None), e_get = (\<lambda>n c. Inr None), e_put = (\<lambda>n. None), e_ensure = (\<lambda>n. Inr ''c1''),
     e_now = int, e_id = (\<lambda>n. ''id''), e_send = (\<lambda>n. Accepted),
     e_find = (\<lambda>n c. Inr True), e_named = (\<lambda>n u. Inr None), e_act = (\<lambda>n. None)\<rparr>"

lemmas ex_post_defs = ex_post_def ex_post_env_def ex_mail_def

theorem mail_never_requeued_after_handoff_witness:
  "mail_left ex_post_env (\<lambda>_ _. None) ex_mail (w_sent ex_post)
     (snd (deliver (\<lambda>_ _. None) 0 zero_tick ex_mail ex_post_env ex_post))"
  by (rule mail_never_requeued_after_handoff)
     (simp_all add: minds_mail_def row_with_def emailOutbox_findById_def find_by_def owns_mail_def ex_post_defs)

subsection \<open>Addresses an account gave up\<close>

definition minds_users :: "env \<Rightarrow> bool" where
  "minds_users env \<longleftrightarrow> (\<forall>n db. db_users (e_other env n db) = db_users db)"

lemma unlawful_users: "db_users db = db_users db' \<Longrightarrow> unlawful db entry = unlawful db' entry"
  unfolding unlawful_def recipient_of_def users_findByEmail_def users_lockEmailRecipient_def
  by (cases "ml_recipient_user_id entry") simp_all

definition unposted :: "mail \<Rightarrow> sent list \<Rightarrow> world \<Rightarrow> bool" where
  "unposted entry p0 w \<longleftrightarrow> unlawful (w_db w) entry \<and> w_sent w = p0"

lemma stable_unposted: "minds_users env \<Longrightarrow> stable env (unposted entry p0)"
  using unlawful_users [of "e_other env _ _"] by (intro stableI) (simp_all add: unposted_def minds_users_def)

lemma settle_mail_users [simp]: "db_users (snd (settle_mail entry f db)) = db_users db"
  by (simp add: settle_mail_def)

text \<open>An authorization that is not given is followed by no message.\<close>

lemma hoare_authorized_unlawful:
  assumes env: "minds_users env"
  shows "hoare env (unposted entry p0) (authorized account entry)
    (\<lambda>(_, a) w. unposted entry p0 w \<and> a \<noteq> Auth_Allowed) (\<lambda>_. unposted entry p0)"
proof -
  let ?P = "unposted entry p0"
  have kept: "?P (w\<lparr>w_db := db'\<rparr>) \<and> a \<noteq> Auth_Allowed"
    if "?P w" "authorize entry started stamp (w_db w) = Inr (a, db')" for w a db' started stamp
  proof -
    have "db_users db' = db_users (w_db w)" "a \<noteq> Auth_Allowed"
      using that unfolding authorize_runs by (auto simp: unposted_def emailOutbox_markFailed_def split: if_splits)
    then show ?thesis using that(1) unlawful_users [of db' "w_db w"] by (simp add: unposted_def)
  qed
  have tx: "hoare env ?P (io_tx (authorize entry started stamp)) (\<lambda>a w. ?P w \<and> a \<noteq> Auth_Allowed) (\<lambda>_. ?P)" for started stamp
    by (rule hoare_tx [OF stable_unposted [OF env]]) (use kept in blast)+
  have run: "hoare env ?P (io_bind io_now (\<lambda>started. io_bind io_now (\<lambda>stamp.
      io_bind (io_tx (authorize entry started stamp)) (\<lambda>a. io_return (started, a))))) (\<lambda>(_, a) w. ?P w \<and> a \<noteq> Auth_Allowed) (\<lambda>_. ?P)"
    by (intro hoare_quiet [OF quiet_now stable_unposted [OF env]]) (rule hoare_bind [OF tx], rule hoare_return, simp)+
  show ?thesis unfolding authorized_def Let_def
    by (cases account) (auto intro!: run hoare_lock [OF stable_unposted [OF env]])
qed

lemma unlawful_unsent:
  assumes "minds_users env" "unlawful (w_db w) entry"
  shows "w_sent (snd (deliver opener random t entry env w)) = w_sent w"
proof -
  let ?P = "unposted entry (w_sent w)"
  note st = stable_unposted [OF assms(1), of entry "w_sent w"]
  have claimed: "hoare env ?P (deliverClaimed opener random t entry account) (\<lambda>_. ?P) (\<lambda>_. ?P)" for account
    unfolding deliverClaimed_def
  proof (rule hoare_bind [OF hoare_authorized_unlawful [OF assms(1)]], rule hoare_prodI)
    show "hoare env ((\<lambda>(_, a) w'. ?P w' \<and> a \<noteq> Auth_Allowed) (started, auth)) (case (started, auth) of (started, auth) \<Rightarrow> case auth of
           Auth_Lost \<Rightarrow> io_return (lostClaim t) | Auth_Ineligible \<Rightarrow> io_return (count_failed t) | Auth_Allowed \<Rightarrow> k started)
         (\<lambda>_. ?P) (\<lambda>_. ?P)" for started auth k
      by (cases auth) (auto simp: hoare_def io_return_def)
  qed
  have "hoare env ?P (deliver opener random t entry) (\<lambda>_. ?P) (\<lambda>_. ?P)"
    unfolding deliver_def Let_def
    by (rule hoare_quiet [OF quiet_read st]) (auto intro!: claimed hoare_if hoare_lock [OF st])
  then have "?P (snd (deliver opener random t entry env w))" by (rule hoare_final) (simp add: unposted_def assms(2))
  then show ?thesis by (simp add: unposted_def)
qed

text \<open>
  A message goes out only to an address its account has. While the accounts stay as they are, a row
  whose address was released, or is no longer the address of the account it was written for (or of the
  account found by it), is never given to the relay, whatever else happens during the delivery.
\<close>

theorem mail_only_to_current_address:
  assumes "minds_users env" "unlawful (w_db w) entry"
  shows "w_sent (snd (deliver opener random t entry env w)) = w_sent w"
  by (rule unlawful_unsent [OF assms])

theorem mail_only_to_current_address_witness:
  "w_sent (snd (deliver (\<lambda>_ _. None) 0 zero_tick (ex_mail\<lparr>ml_to_email := ''old@y.z''\<rparr>) ex_post_env ex_post)) = []"
proof -
  have "minds_users ex_post_env" by (simp add: minds_users_def ex_post_env_def)
  moreover have "unlawful (w_db ex_post) (ex_mail\<lparr>ml_to_email := ''old@y.z''\<rparr>)" by code_simp
  ultimately show ?thesis using mail_only_to_current_address [of ex_post_env ex_post] by (simp add: ex_post_def)
qed

subsection \<open>Sealed messages\<close>

text \<open>What the cipher promises of content sealed under its key: it opens with the data it was bound to, to
  what was sealed, and with no other.\<close>

definition authenticated :: "sealer \<Rightarrow> opener \<Rightarrow> bool" where
  "authenticated sealer opener \<longleftrightarrow>
     (\<forall>nonce c b b'. opener (sealer nonce (content_json c) b) b' = (if b' = b then Some (content_json c) else None))"

lemma sealed_body:
  "starts_with SEALED_BODY_PREFIX (SEALED_BODY_PREFIX @ x)" "drop (length SEALED_BODY_PREFIX) (SEALED_BODY_PREFIX @ x) = x"
  by (simp_all add: starts_with_def)

text \<open>
  C28. A sealed message opens where it was queued, and nowhere else. Queueing a sealed message under a
  fresh id stores a row that shows neither its subject nor its body; opening that row gives back the
  content; and the same stored text in a row with another id, or redirected to another address, is
  refused as unopenable.
\<close>

theorem sealed_mail_roundtrip:
  assumes "authenticated sealer opener"
    and "emailOutbox_enqueue newId now (sealedEnqueueInput sealer nonce i to content key recipient) db = Inr ((row, True), db')"
  shows "openOutboxRecord opener row = Inr content \<and> ml_subject row = OUTBOX_SEALED_SUBJECT \<and> ml_body_html row = [] \<and>
    emailOutbox_findById db' i = Some row \<and>
    openOutboxRecord opener (row\<lparr>ml_id := i', ml_to_email := to'\<rparr>) = (if (i', to') = (i, to) then Inr content else Inl UNOPENED)"
proof -
  let ?input = "sealedEnqueueInput sealer nonce i to content key recipient"
  obtain ok where row: "row = mail_row i now ok ?input" and db': "db' = db\<lparr>db_outbox := db_outbox db @ [row]\<rparr>"
    and fresh: "emailOutbox_findById db i = None"
    using assms(2) by (auto simp: emailOutbox_enqueue_def Let_def sealedEnqueueInput_def sealMailContent_def split: option.splits if_splits)
  have "openOutboxRecord opener (row\<lparr>ml_id := j, ml_to_email := a\<rparr>) = (if (j, a) = (i, to) then Inr content else Inl UNOPENED)" for j a
    using assms(1) by (simp add: row mail_row_def sealedEnqueueInput_def sealMailContent_def openOutboxRecord_def sealed_body
        authenticated_def boundTo_def) (simp add: content_json_def json_text_def)
  moreover have "row\<lparr>ml_id := i, ml_to_email := to\<rparr> = row"
    by (simp add: row mail_row_def sealedEnqueueInput_def sealMailContent_def)
  moreover have "emailOutbox_findById db' i = Some row"
    using fresh by (simp add: db' emailOutbox_findById_def find_by_append) (simp add: row mail_row_def find_by_def)
  moreover have "ml_subject row = OUTBOX_SEALED_SUBJECT \<and> ml_body_html row = []"
    by (simp add: row mail_row_def sealedEnqueueInput_def sealMailContent_def)
  ultimately show ?thesis by (metis (no_types, lifting))
qed

text \<open>A cipher with these laws: the content and what it is bound to, written out.\<close>

fun ex_text :: "string \<Rightarrow> string" where
  "ex_text [] = ''e''"
| "ex_text (c # s) = CHR ''s'' # c # ex_text s"

fun ex_read :: "string \<Rightarrow> string \<Rightarrow> string list" where
  "ex_read acc (k # c # s) = (if k = CHR ''s'' then ex_read (acc @ [c]) s else acc # ex_read [] (c # s))"
| "ex_read acc [k] = [acc]"
| "ex_read acc [] = []"

definition ex_sealer :: sealer where
  "ex_sealer nonce v b = (case v of
      JObj [(_, JStr s), (_, JStr h), (_, JStr t)] \<Rightarrow> concat (map ex_text [s, h, t, fst b, snd b])
    | _ \<Rightarrow> [])"

definition ex_opener :: opener where
  "ex_opener e b = (case ex_read [] e of
      [s, h, t, i, a] \<Rightarrow> if b = (i, a) then Some (content_json \<lparr>mc_subject = s, mc_html = h, mc_text = t\<rparr>) else None
    | _ \<Rightarrow> None)"

lemma ex_read_text: "ex_read acc (ex_text s @ r) = (acc @ s) # ex_read [] r"
  by (induction s arbitrary: acc) (cases r, simp_all)

lemma ex_cipher: "authenticated ex_sealer ex_opener"
  unfolding authenticated_def
proof (intro allI)
  show "ex_opener (ex_sealer nonce (content_json c) b) b' = (if b' = b then Some (content_json c) else None)" for nonce c b b'
    using ex_read_text [of "[]" "snd b" "[]"]
    by (simp add: ex_opener_def ex_sealer_def content_json_def ex_read_text prod_eq_iff)
qed

theorem sealed_mail_roundtrip_witness:
  "\<exists>row db'. emailOutbox_enqueue ''n'' 5 (sealedEnqueueInput ex_sealer ''k'' ''m2'' ''x@y.z''
       \<lparr>mc_subject = ''Reset'', mc_html = ''h'', mc_text = ''t''\<rparr> (Some ''reset:1'') (Some ''u1'')) (w_db ex_post) = Inr ((row, True), db') \<and>
     openOutboxRecord ex_opener row = Inr \<lparr>mc_subject = ''Reset'', mc_html = ''h'', mc_text = ''t''\<rparr> \<and>
     openOutboxRecord ex_opener (row\<lparr>ml_id := ''m2'', ml_to_email := ''thief@y.z''\<rparr>) = Inl UNOPENED"
proof -
  let ?c = "\<lparr>mc_subject = ''Reset'', mc_html = ''h'', mc_text = ''t''\<rparr>"
  let ?run = "emailOutbox_enqueue ''n'' 5 (sealedEnqueueInput ex_sealer ''k'' ''m2'' ''x@y.z'' ?c (Some ''reset:1'') (Some ''u1'')) (w_db ex_post)"
  have "case ?run of Inr ((_, new), _) \<Rightarrow> new | Inl _ \<Rightarrow> False" by code_simp
  then obtain row db' where run: "?run = Inr ((row, True), db')" by (auto split: sum.splits prod.splits)
  show ?thesis using sealed_mail_roundtrip [OF ex_cipher run, where i' = "''m2''" and to' = "''thief@y.z''"] run by auto
qed

subsection \<open>A tick\<close>

definition outcomes :: "outbox_tick \<Rightarrow> nat" where
  "outcomes t = ot_sent t + ot_rescheduled t + ot_failed t + ot_unacknowledged t + ot_lost t + ot_abandoned t"

text \<open>One delivery is counted once, except that a message parked without acknowledgement by a worker that
  had lost its claim is also counted as lost.\<close>

definition counts_one :: "outbox_tick \<Rightarrow> outbox_tick \<Rightarrow> bool" where
  "counts_one t t' \<longleftrightarrow> ot_claimed t' = ot_claimed t \<and> ot_released t' = ot_released t \<and> ot_abandoned t' = ot_abandoned t \<and>
     outcomes t < outcomes t' \<and> outcomes t' + ot_unacknowledged t \<le> Suc (outcomes t) + ot_unacknowledged t'"

lemma counts_one_simps [simp]:
  "counts_one t (lostClaim t)" "counts_one t (count_sent t)" "counts_one t (count_failed t)" "counts_one t (count_rescheduled t)"
  "counts_one t (t\<lparr>ot_unacknowledged := Suc (ot_unacknowledged t)\<rparr>)"
  "counts_one t (lostClaim (t\<lparr>ot_unacknowledged := Suc (ot_unacknowledged t)\<rparr>))"
  by (simp_all add: counts_one_def outcomes_def lostClaim_def count_sent_def count_failed_def count_rescheduled_def)

text \<open>Only the relay's call adds a message.\<close>

lemma hoare_tx_posts: "hoare env (\<lambda>w. S (w_sent w)) (io_tx m) (\<lambda>_ w. S (w_sent w)) (\<lambda>_ w. S (w_sent w))"
  by (rule hoare_tx) (auto intro!: stableI)

lemma hoare_clock_posts:
  "(\<And>x. hoare env (\<lambda>w. S (w_sent w)) (k x) Q E) \<Longrightarrow> hoare env (\<lambda>w. S (w_sent w)) (io_bind io_now k) Q E"
  by (rule hoare_bind [where R = "\<lambda>_ w. S (w_sent w)"], rule hoare_now) (auto intro!: stableI)

text \<open>A write whose answer decides what is counted.\<close>

lemma hoare_counted:
  assumes "\<And>x. counts_one t (c x)"
  shows "hoare env (\<lambda>w. S (w_sent w)) (io_bind (io_tx m) (\<lambda>x. io_return (c x)))
    (\<lambda>t' w. counts_one t t' \<and> S (w_sent w)) (\<lambda>_ w. S (w_sent w))"
  by (rule hoare_bind [OF hoare_tx_posts]) (rule hoare_return, simp add: assms)

lemma hoare_park_counts:
  "hoare env (\<lambda>w. S (w_sent w)) (parkUnacknowledged t entry message) (\<lambda>t' w. counts_one t t' \<and> S (w_sent w)) (\<lambda>_ w. S (w_sent w))"
  unfolding parkUnacknowledged_def Let_def
  by (rule hoare_clock_posts, rule hoare_bind [where R = "\<lambda>_ w. S (w_sent w)"], rule hoare_try, rule hoare_tx_posts)
     (rule hoare_return, auto split: sum.splits)

lemma hoare_deliver_counts:
  "hoare env (\<lambda>w. length (w_sent w) \<le> n) (deliver opener random t entry)
     (\<lambda>t' w. counts_one t t' \<and> length (w_sent w) \<le> Suc n) (\<lambda>_ w. length (w_sent w) \<le> Suc n)"
proof -
  let ?P = "\<lambda>n w. length (w_sent w) \<le> n" and ?Q = "\<lambda>n t' w. counts_one t t' \<and> length (w_sent w) \<le> n"
  note tx = hoare_tx_posts [where S = "\<lambda>s. length s \<le> k" for k]
  note one = hoare_counted [where S = "\<lambda>s. length s \<le> k" for k]
  note clock = hoare_clock_posts [where S = "\<lambda>s. length s \<le> k" for k]
  note park = hoare_park_counts [where S = "\<lambda>s. length s \<le> k" for k]
  have st: "stable env (?P k)" for k by (rule stableI) simp_all
  have more: "hoare env (?P n) m (?Q (Suc n)) (\<lambda>_. ?P (Suc n))" if "hoare env (?P n) m (?Q n) (\<lambda>_. ?P n)" for m
    by (rule hoare_weaken [OF that]) auto
  have ack: "hoare env (?P k) (acknowledge t entry) (?Q k) (\<lambda>_. ?P k)" for k
    unfolding acknowledge_def
  proof (rule clock, rule hoare_bind [where R = "\<lambda>_. ?P k"], rule hoare_try, rule tx)
    show "hoare env (?P k) (case r of Inr ok \<Rightarrow> io_return (if ok then count_sent t else lostClaim t)
        | Inl f \<Rightarrow> parkUnacknowledged t entry (err_message (f_error f))) (?Q k) (\<lambda>_. ?P k)" for r :: "failure + bool"
      by (cases r) (auto intro!: park hoare_return)
  qed
  have retry: "hoare env (?P k) (retry_later random t entry message) (?Q k) (\<lambda>_. ?P k)" for k message
    unfolding retry_later_def by (intro hoare_if clock one) auto
  have send: "hoare env (?P n) (smtp_send a b c d e) (\<lambda>_. ?P (Suc n)) (\<lambda>_. ?P (Suc n))" for a b c d e
    by (auto simp: hoare_def smtp_send_def Let_def)
  have off: "hoare env (?P n) (hand_off random t entry content) (?Q (Suc n)) (\<lambda>_. ?P (Suc n))" for content
    unfolding hand_off_def by (rule hoare_bind [OF send]) (auto intro!: ack retry park split: send_answer.splits)
  have allowed: "hoare env (?P n) (case openOutboxRecord opener entry of
             Inl reason \<Rightarrow> failUnreadable t entry reason
           | Inr content \<Rightarrow> hand_off random t entry content) (?Q (Suc n)) (\<lambda>_. ?P (Suc n))"
    unfolding failUnreadable_def by (auto intro!: off more clock one split: sum.splits)
  have expired: "hoare env (?P n) (io_bind io_now (\<lambda>now. io_bind io_now (\<lambda>stamp.
              io_bind (io_tx (tx_of (emailOutbox_reschedule entry now ''handoff-expired'' stamp))) (\<lambda>ok.
              io_return (if ok then count_rescheduled t else lostClaim t))))) (?Q (Suc n)) (\<lambda>_. ?P (Suc n))"
    by (intro more clock one) auto
  have auth: "hoare env (?P n) (authorized account entry) (\<lambda>_. ?P n) (\<lambda>_. ?P n)" for account
    unfolding authorized_def Let_def
    by (cases account) (auto intro!: clock hoare_lock [OF st] hoare_bind [OF tx] hoare_return)
  have claimed: "hoare env (?P n) (deliverClaimed opener random t entry account) (?Q (Suc n)) (\<lambda>_. ?P (Suc n))" for account
    unfolding deliverClaimed_def
    by (rule hoare_bind [where R = "\<lambda>_. ?P n"], rule hoare_weaken [OF auth])
       (auto intro!: clock hoare_if allowed expired more [OF hoare_return] split: authorization.splits)
  show ?thesis unfolding deliver_def Let_def
    by (rule hoare_quiet [OF quiet_read st]) (auto intro!: claimed hoare_if hoare_lock [OF st])
qed

text \<open>Programs that send no mail.\<close>

definition mute :: "env \<Rightarrow> 'a io \<Rightarrow> bool" where
  "mute env m \<longleftrightarrow> (\<forall>S. hoare env (\<lambda>w. S (w_sent w)) m (\<lambda>_ w. S (w_sent w)) (\<lambda>_ w. S (w_sent w)))"

named_theorems mutes \<open>programs that send no mail\<close>

lemma hoare_mute: "mute env m \<Longrightarrow> hoare env (\<lambda>w. S (w_sent w)) m (\<lambda>_ w. S (w_sent w)) (\<lambda>_ w. S (w_sent w))"
  by (simp add: mute_def)

lemma hoare_mute_try: "mute env m \<Longrightarrow> hoare env (\<lambda>w. S (w_sent w)) (io_try m) (\<lambda>_ w. S (w_sent w)) E"
  by (rule hoare_try) (simp add: mute_def)

lemma mute_bind [mutes]: "mute env m \<Longrightarrow> (\<And>a. mute env (k a)) \<Longrightarrow> mute env (io_bind m k)"
  by (auto simp: mute_def intro!: hoare_bind)

lemma mute_steps [mutes]:
  "mute env (io_return a)" "mute env (io_tx m)" "mute env (io_read f)" "mute env io_now" "mute env io_newId"
  by (auto simp: mute_def intro!: hoare_return hoare_tx_posts hoare_read hoare_now hoare_newId stableI)

lemma mute_branches [mutes]:
  "mute env m \<Longrightarrow> mute env m' \<Longrightarrow> mute env (if b then m else m')" "(\<And>a b. mute env (h a b)) \<Longrightarrow> mute env (case x of (a, b) \<Rightarrow> h a b)"
  by (auto split: prod.splits)

lemma mute_seal_rows [mutes]: "mute env (seal_rows sealer rows n)"
  by (induction rows arbitrary: n) (auto simp: Let_def intro!: mutes)

lemma mute_seal_prefixes [mutes]: "mute env (seal_prefixes sealer prefixes budget n)"
  by (induction prefixes arbitrary: budget n) (auto intro!: mutes)

text \<open>What a round of the loop keeps: the counts add up, and no more messages went out than rows were claimed.\<close>

definition tallied :: "nat \<Rightarrow> outbox_tick \<Rightarrow> world \<Rightarrow> bool" where
  "tallied p0 t w \<longleftrightarrow> ot_claimed t \<le> outcomes t \<and> outcomes t \<le> ot_claimed t + ot_unacknowledged t \<and>
     length (w_sent w) \<le> p0 + ot_claimed t"

lemma hoare_outbox_loop:
  "hoare env (tallied p0 t) (outbox_loop opener stopping n random t)
     (\<lambda>t' w. tallied p0 t' w \<and> ot_claimed t' \<le> ot_claimed t + n \<and> ot_released t' = ot_released t) (\<lambda>_ _. False)"
proof (induction n arbitrary: t)
  case 0
  show ?case by (simp add: hoare_return)
next
  case (Suc n)
  let ?Q = "\<lambda>t' w. tallied p0 t' w \<and> ot_claimed t' \<le> ot_claimed t + Suc n \<and> ot_released t' = ot_released t"
  let ?taken = "t\<lparr>ot_claimed := Suc (ot_claimed t)\<rparr>"
  let ?next = "\<lambda>r. case r of Inr t \<Rightarrow> t | Inl (f :: failure) \<Rightarrow> ?taken\<lparr>ot_abandoned := Suc (ot_abandoned ?taken)\<rparr>"
  have delivered: "hoare env (tallied p0 t) (io_try (deliver opener r ?taken entry))
      (\<lambda>x w. tallied p0 (?next x) w \<and> ot_claimed (?next x) = Suc (ot_claimed t) \<and> ot_released (?next x) = ot_released t)
      (\<lambda>_ _. False)" for r entry
    by (cases "ot_claimed t \<le> outcomes t \<and> outcomes t \<le> ot_claimed t + ot_unacknowledged t")
       (rule hoare_try, rule hoare_weaken [OF hoare_deliver_counts [where n = "p0 + ot_claimed t"]],
        auto simp: tallied_def counts_one_def outcomes_def hoare_def)
  have go: "hoare env (\<lambda>w. tallied p0 t1 w \<and> ot_claimed t1 = Suc (ot_claimed t) \<and> ot_released t1 = ot_released t)
      (outbox_loop opener stopping n random t1) ?Q (\<lambda>_ _. False)" for t1
    by (rule hoare_pure, rule hoare_weaken [OF Suc.IH [of t1]]) auto
  have step: "hoare env (tallied p0 t) (io_bind (io_try (deliver opener (random n) ?taken entry))
      (\<lambda>r. outbox_loop opener stopping n random (?next r))) ?Q (\<lambda>_ _. False)" for entry
    by (rule hoare_bind [OF delivered]) (rule go)
  have claim: "hoare env (tallied p0 t) (io_try outbox_claim_one) (\<lambda>_. tallied p0 t) (\<lambda>_ _. False)"
    unfolding tallied_def outbox_claim_one_def by (rule hoare_mute_try, intro mutes)
  show ?case unfolding outbox_loop.simps Let_def
    by (rule hoare_if, simp add: hoare_return, rule hoare_bind [OF claim], rule hoare_sum, simp add: hoare_return,
        rule hoare_option, simp add: hoare_return) (rule step)
qed

definition uncounted :: "nat \<Rightarrow> outbox_tick \<Rightarrow> world \<Rightarrow> bool" where
  "uncounted p0 t w \<longleftrightarrow> outcomes t = 0 \<and> ot_claimed t = 0 \<and> length (w_sent w) \<le> p0"

lemma hoare_stale:
  "hoare env (\<lambda>w. length (w_sent w) \<le> p0) (io_try (outbox_releaseStale zero_tick))
     (\<lambda>r. uncounted p0 (case r of Inr t \<Rightarrow> t | Inl f \<Rightarrow> zero_tick)) E"
proof -
  let ?S = "\<lambda>s. length s \<le> p0"
  have "hoare env (\<lambda>w. ?S (w_sent w)) (outbox_releaseStale zero_tick) (uncounted p0) (\<lambda>_ w. ?S (w_sent w))"
    unfolding outbox_releaseStale_def
    by (intro hoare_clock_posts [where S = ?S]) (rule hoare_bind [OF hoare_tx_posts [where S = ?S]],
        auto intro!: hoare_return simp: outcomes_def zero_tick_def uncounted_def)
  then show ?thesis
    by (intro hoare_try) (elim hoare_weaken, auto simp: uncounted_def outcomes_def zero_tick_def)
qed

lemma hoare_sealLegacy:
  "hoare env (uncounted p0 t) (sealLegacy sealer more1 t) (\<lambda>(t, _). uncounted p0 t) (\<lambda>_ _. False)"
proof -
  have tried: "hoare env (uncounted p0 t) (io_try (sealLegacyBearerRows sealer LEGACY_SEAL_BATCH)) (\<lambda>_. uncounted p0 t) (\<lambda>_ _. False)"
    unfolding uncounted_def sealLegacyBearerRows_def by (rule hoare_mute_try) (rule mutes)
  show ?thesis unfolding sealLegacy_def
    by (rule hoare_if) (auto intro!: hoare_return hoare_bind [OF tried] simp: uncounted_def outcomes_def split: sum.splits)
qed

lemma hoare_tick_rest:
  "hoare env (uncounted p0 t) (case transport of
       Inl (f :: failure) \<Rightarrow> io_return (t, more2)
     | Inr False \<Rightarrow> io_return (zero_tick\<lparr>ot_released := ot_released t, ot_sealedLegacy := ot_sealedLegacy t, ot_skipped := True\<rparr>, more2)
     | Inr True \<Rightarrow> io_bind (outbox_loop opener stopping n random t) (\<lambda>t. io_return (t, more2)))
   (\<lambda>(t, _) w. tallied p0 t w \<and> ot_claimed t \<le> n) (\<lambda>_ _. False)"
proof -
  have idle: "tallied p0 t w \<and> ot_claimed t = 0" if "uncounted p0 t w" for w using that by (simp add: uncounted_def tallied_def)
  have idle0: "tallied p0 (zero_tick\<lparr>ot_released := a, ot_sealedLegacy := b, ot_skipped := True\<rparr>) w \<and>
      ot_claimed (zero_tick\<lparr>ot_released := a, ot_sealedLegacy := b, ot_skipped := True\<rparr>) = 0" if "uncounted p0 t w" for w a b
    using that by (simp add: uncounted_def tallied_def zero_tick_def outcomes_def)
  have "hoare env (uncounted p0 t) (outbox_loop opener stopping n random t) (\<lambda>t' w. tallied p0 t' w \<and> ot_claimed t' \<le> n) (\<lambda>_ _. False)"
  proof (cases "ot_claimed t = 0")
    case True
    then show ?thesis by (intro hoare_weaken [OF hoare_outbox_loop [of env p0 t]]) (auto dest: idle)
  qed (simp add: hoare_def uncounted_def)
  then show ?thesis
    by (auto intro!: hoare_return hoare_bind simp: idle idle0 split: sum.splits bool.splits)
qed

text \<open>
  A tick of the outbox worker always returns, whatever the store, the keys and the relay did. It
  claims at most a batch of rows; every claimed row is accounted for, as sent, rescheduled, failed,
  unacknowledged, lost or abandoned, and only an unacknowledged one may be counted twice; and no more
  messages went to the relay than rows were claimed.
\<close>

theorem outbox_tick_accounts:
  "\<exists>t more1 w'. outbox_runTick sealer opener transport stopping batchSize random more0 env w = (Inr (t, more1), w') \<and>
     ot_claimed t \<le> batchSize \<and> ot_claimed t \<le> outcomes t \<and> outcomes t \<le> ot_claimed t + ot_unacknowledged t \<and>
     length (w_sent w') \<le> length (w_sent w) + ot_claimed t"
proof -
  let ?Q = "\<lambda>(t, _) v. tallied (length (w_sent w)) t v \<and> ot_claimed t \<le> batchSize"
  obtain x w' where run: "outbox_runTick sealer opener transport stopping batchSize random more0 env w = (x, w')" by (rule prod.exhaust)
  have h: "hoare env (\<lambda>v. length (w_sent v) \<le> length (w_sent w))
      (outbox_runTick sealer opener transport stopping batchSize random more0) ?Q (\<lambda>_ _. False)"
    unfolding outbox_runTick_def
    by (rule hoare_bind [OF hoare_stale], rule hoare_bind [OF hoare_sealLegacy], rule hoare_prodI) (simp add: hoare_tick_rest)
  obtain t more1 where "x = Inr (t, more1)" using hoare_Inl [OF h order_refl] run by (cases x) auto
  then show ?thesis using hoare_Inr [OF h order_refl, of "(t, more1)" w'] run by (auto simp: tallied_def)
qed

end
