(* ===== verification/Accounts_Safety.thy ===== *)
theory Accounts_Safety
  imports Users Teardown_Worker Outbox_Safety
begin

section \<open>What account administration keeps\<close>

text \<open>
  The rules the users service promises: an administrator's power is conferred and removed by super admins
  only, the portal always has an active super admin, and an address that was released gets no more mail.
  Each holds through any interleaving with other instances, as long as those keep it too, and whatever the
  store, the keys and the gateway answer.
\<close>

subsection \<open>Programs that leave the accounts alone\<close>

lemma keeps_gateway:
  assumes "stable env (\<lambda>w. D (w_db w))"
  shows "keeps env (\<lambda>w. D (w_db w)) (edge_act a)" "keeps env (\<lambda>w. D (w_db w)) (edge_replace c gs)"
    "keeps env (\<lambda>w. D (w_db w)) (edge_get c)" "keeps env (\<lambda>w. D (w_db w)) (edge_getByUsername u)"
  unfolding keeps_def
  by (rule hoare_act [OF assms] hoare_replace [OF assms] hoare_get [OF assms] hoare_getByUsername [OF assms]; simp)+

text \<open>What a teardown and a restore write in the store: credential rows, registrations and mappings.\<close>

definition unconcerned :: "(portal_db \<Rightarrow> bool) \<Rightarrow> bool" where
  "unconcerned D \<longleftrightarrow> (\<forall>db. (\<forall>c. D (db\<lparr>db_credentials := c\<rparr>) = D db) \<and> (\<forall>r. D (db\<lparr>db_registry := r\<rparr>) = D db) \<and>
     (\<forall>c. D (db\<lparr>db_consumers := c\<rparr>) = D db))"

lemma unconcerned_calls:
  assumes "unconcerned D"
  shows "D (snd (revoke_rows c db)) = D db" "D (snd (gatewayIdentities_delete i db)) = D db"
    "D (consumers_dropFerrumId c u db) = D db"
proof -
  have "D (fold (\<lambda>c. credentials_setStatus (cm_id c) s) rows db) = D db" for s rows
    using assms by (induction rows arbitrary: db) (simp_all add: credentials_setStatus_def unconcerned_def)
  then show "D (snd (revoke_rows c db)) = D db" by (simp add: revoke_rows_def Let_def)
  show "D (snd (gatewayIdentities_delete i db)) = D db" "D (consumers_dropFerrumId c u db) = D db"
    using assms by (simp_all add: gatewayIdentities_delete_def consumers_dropFerrumId_def unconcerned_def split: option.split)
qed

lemma keeps_pages:
  "stable env P \<Longrightarrow> keeps env P (pages_all n (\<lambda>o1. io_read (f o1)) offset rows)"
  by (rule keeps_quiet) (auto intro: quiet_pages_all quiets)

lemma disableGatewayAccess_keeps:
  assumes st: "stable env (\<lambda>w. D (w_db w))" and D: "unconcerned D"
  shows "keeps env (\<lambda>w. D (w_db w)) (disableGatewayAccess fuel derivedId namespace userId)"
proof -
  note r = keeps_stable [OF st] keeps_gateway [OF st] keeps_tx [OF st] tx_keeps_of keeps_pages [OF st] each_keeps keeping
  note D = unconcerned_calls [OF D]
  have rows: "keeps env (\<lambda>w. D (w_db w)) (revokeRowsFor c)" for c unfolding revokeRowsFor_def by (intro r) (simp add: D)
  have dis: "keeps env (\<lambda>w. D (w_db w)) (assertStillDisabled u)" for u unfolding assertStillDisabled_def by (intro r)
  have live: "keeps env (\<lambda>w. D (w_db w)) (find_live derivedId u cur)" for u cur unfolding find_live_def Let_def by (intro r)
  have drop1: "keeps env (\<lambda>w. D (w_db w)) (drop_registration b res cur)" for b res cur
    unfolding drop_registration_def by (intro r) (simp add: D)
  have coll: "keeps env (\<lambda>w. D (w_db w)) (collect_identity derivedId u None cur)" for u cur
    unfolding collect_identity_def Let_def option.case by (intro r rows live drop1)
  have ident: "keeps env (\<lambda>w. D (w_db w)) (teardownIdentity derivedId namespace u owner None)" for u owner
    unfolding teardownIdentity_def by (intro r dis coll)
  have reg: "keeps env (\<lambda>w. D (w_db w)) (disable_registered derivedId namespace userId g acc)" for g acc
    unfolding disable_registered_def by (intro r ident)
  have fo: "keeps env (\<lambda>w. D (w_db w)) (disable_foreign userId c acc)" for c acc
    unfolding disable_foreign_def by (intro r dis rows) (simp add: D)
  have du: "keeps env (\<lambda>w. D (w_db w)) (disable_durable userId c acc)" for c acc
    unfolding disable_durable_def strip_consumer_def by (intro r dis rows)
  show ?thesis unfolding disableGatewayAccess_def Let_def listConsumers_def foreignConsumerIds_def
    by (intro r reg fo du)
qed

lemma restoreGatewayAccess_keeps:
  assumes st: "stable env (\<lambda>w. D (w_db w))"
  shows "keeps env (\<lambda>w. D (w_db w)) (restoreGatewayAccess fuel userId)"
proof -
  note r = keeps_stable [OF st] keeps_gateway [OF st] keeps_pages [OF st] each_keeps keeping
  have one: "keeps env (\<lambda>w. D (w_db w)) (restore_consumer userId c)" for c
    unfolding restore_consumer_def Let_def by (intro r)
  show ?thesis unfolding restoreGatewayAccess_def listConsumers_def by (intro r one)
qed

lemma tx_keeps_users:
  "(\<And>db. db_users (snd (f db)) = db_users db) \<Longrightarrow> tx_keeps (\<lambda>db. U (db_users db)) (tx_of f)"
  "tx_keeps (\<lambda>db. U (db_users db)) (tx_audit actor action target now)"
  by (auto intro!: tx_keepsI simp: tx_simps tx_audit_def auditLogs_create_def tx_of_def prod_eq_iff)

lemma teardown_calls_users [simp]:
  "db_users (snd (settle_teardown st job f db)) = db_users db"
  "db_users (snd (gatewayTeardownJobs_claimPending g stamp job db)) = db_users db"
  "db_users (snd (gatewayTeardownJobs_markDone job t db)) = db_users db"
  "db_users (snd (gatewayTeardownJobs_reschedule job t e stamp db)) = db_users db"
  "db_users (snd (gatewayTeardownJobs_deleteByUser u db)) = db_users db"
  "db_users (snd (gatewayTeardownJobs_deleteClaimed job db)) = db_users db"
  "db_users (snd (gatewayTeardownJobs_claimDue g stamp t n db)) = db_users db"
  "db_users (snd (gatewayTeardownJobs_releaseStale o1 due stamp db)) = db_users db"
  unfolding gatewayTeardownJobs_claimPending_def gatewayTeardownJobs_markDone_def gatewayTeardownJobs_reschedule_def
    gatewayTeardownJobs_deleteByUser_def gatewayTeardownJobs_deleteClaimed_def gatewayTeardownJobs_claimDue_def
    gatewayTeardownJobs_releaseStale_def settle_teardown_def Let_def
  by simp_all

lemma upsert_keeps_users [keeping]: "tx_keeps (\<lambda>db. U (db_users db)) (gatewayTeardownJobs_upsertPending i g u r t)"
  by (rule tx_keepsI) (auto simp: gatewayTeardownJobs_upsertPending_def Let_def split: option.splits if_splits)

lemma session_calls_users [simp]:
  "db_users (snd (sessions_deleteForUser u db)) = db_users db"
  "db_users (snd (verificationTokens_deleteForUser u p db)) = db_users db"
  by (simp_all add: sessions_deleteForUser_def verificationTokens_deleteForUser_def Let_def)

text \<open>An insertion changes its own table alone.\<close>

lemma sessions_create_Inr:
  "sessions_create s db = Inr (r, db') \<Longrightarrow> db' = db\<lparr>db_sessions := db_sessions db @ [s]\<rparr> \<and> r = s"
  by (auto simp: sessions_create_def mapConflict_def rbind_eq_Inr split: if_splits)

lemma issueSession_keeps_users [keeping]: "tx_keeps (\<lambda>db. U (db_users db)) (issueSession_tx hashToken ttlSeconds user m)"
  by (rule tx_keepsI) (auto simp: issueSession_tx_def tx_simps dest!: sessions_create_Inr)

text \<open>\<open>U\<close> is a rule about the accounts; \<open>rule_kept\<close> says that the other instances keep it.\<close>

definition rule_kept :: "(user list \<Rightarrow> bool) \<Rightarrow> env \<Rightarrow> bool" where
  "rule_kept U env \<longleftrightarrow> (\<forall>n db. U (db_users db) \<longrightarrow> U (db_users (e_other env n db)))"

abbreviation abides :: "(user list \<Rightarrow> bool) \<Rightarrow> env \<Rightarrow> 'a io \<Rightarrow> bool" where
  "abides U env m \<equiv> keeps env (\<lambda>w. U (db_users (w_db w))) m"

lemma stable_rule: "rule_kept U env \<Longrightarrow> stable env (\<lambda>w. U (db_users (w_db w)))"
  by (rule stableI) (auto simp: rule_kept_def)

lemma abides_calls:
  assumes "rule_kept U env"
  shows "abides U env (io_read f)" "abides U env io_now" "abides U env io_newId" "abides U env (io_guard b e)"
    "abides U env (io_result r)" "abides U env (edge_verification c)" "abides U env (edge_act a)" "abides U env (edge_replace c gs)"
    "abides U env (edge_get c)" "abides U env (edge_getByUsername u)"
  using stable_rule [OF assms] keeps_gateway [where D = "\<lambda>db. U (db_users db)", OF stable_rule [OF assms]]
  by (auto intro: keeps_stable)

lemma abides_lock: "rule_kept U env \<Longrightarrow> abides U env m \<Longrightarrow> abides U env (io_lock key m)"
  by (rule keeps_lock [OF stable_rule])

lemma abides_tx: "rule_kept U env \<Longrightarrow> tx_keeps (\<lambda>db. U (db_users db)) m \<Longrightarrow> abides U env (io_tx m)"
  using keeps_tx [where D = "\<lambda>db. U (db_users db)"] stable_rule by blast

lemma abides_tx_of: "rule_kept U env \<Longrightarrow> (\<And>db. db_users (snd (f db)) = db_users db) \<Longrightarrow> abides U env (io_tx (tx_of f))"
  by (rule abides_tx) (auto intro: tx_keeps_users)

lemma disableGatewayAccess_abides:
  "rule_kept U env \<Longrightarrow> abides U env (disableGatewayAccess fuel derivedId namespace userId)"
  by (rule disableGatewayAccess_keeps [OF stable_rule]) (simp_all add: unconcerned_def)

lemma restoreGatewayAccess_abides: "rule_kept U env \<Longrightarrow> abides U env (restoreGatewayAccess fuel userId)"
  by (rule restoreGatewayAccess_keeps [OF stable_rule])

lemma runGatewayTeardown_abides:
  assumes "rule_kept U env" "abides U env disable"
  shows "abides U env (runGatewayTeardown disable userId job)"
proof -
  note r = abides_calls [OF assms(1)] abides_lock [OF assms(1)] abides_tx_of [OF assms(1)] assms(2) keeping
  have claim: "abides U env (claim_attempt userId job)"
    unfolding claim_attempt_def
    by (cases job, simp add: keeps_throw, simp only: option.case)
       (intro r; auto split: teardown_status.splits intro!: r)
  have att: "abides U env (attempt_claimed disable userId c)" for c
    unfolding attempt_claimed_def by (intro r) simp
  show ?thesis unfolding runGatewayTeardown_def by (intro r claim att) simp
qed

subsection \<open>What a transition writes of the accounts\<close>

abbreviation transition_hits :: "user \<Rightarrow> user \<Rightarrow> bool" where
  "transition_hits target u \<equiv> u_id u = u_id target \<and> u_role u = u_role target \<and> u_status u = u_status target"

lemma write_users_Inr:
  "write_users hit p db = Inr db' \<Longrightarrow> db' = db\<lparr>db_users := update_where hit (userUpdateColumns p) (db_users db)\<rparr>"
  by (auto simp: write_users_def Let_def mapConflict_def split: if_splits)

lemma updateIfMatches_users:
  assumes "users_updateIfMatches i e p db = Inr (r, db')"
  shows "db' = db\<lparr>db_users := update_where (\<lambda>u. u_id u = i \<and> user_matches e u) (userUpdateColumns p) (db_users db)\<rparr>"
    "r = (if list_ex (\<lambda>u. u_id u = i \<and> user_matches e u) (db_users db) then users_findById db' i else None)"
  using assms by (auto simp: users_updateIfMatches_def Let_def rbind_eq_Inr dest!: write_users_Inr)

lemma transition_rest_users:
  "tx_keeps (\<lambda>db. db_users db = us) (disable_effects i g t a now)"
  "tx_keeps (\<lambda>db. db_users db = us) (enable_effects t)"
  "tx_keeps (\<lambda>db. db_users db = us) (transition_audit actor target patch now)"
proof -
  note k = tx_keeps_users [where U = "\<lambda>x. x = us"] keeping
  show "tx_keeps (\<lambda>db. db_users db = us) (disable_effects i g t a now)"
    unfolding disable_effects_def by (intro k) simp_all
  show "tx_keeps (\<lambda>db. db_users db = us) (enable_effects t)"
    unfolding enable_effects_def by (intro k) simp_all
  show "tx_keeps (\<lambda>db. db_users db = us) (transition_audit actor target patch now)"
    unfolding transition_audit_def Let_def by (intro k) (auto split: option.splits user_status.splits intro!: k)
qed

lemma tx_check_Inr: "tx_check f db = Inr (x, db') \<longleftrightarrow> f db = Inr () \<and> db' = db"
  by (auto simp: tx_check_def rbind_eq_Inr)

lemma transition_rest_users': "tx_keeps (\<lambda>db. db_users db = us) (transition_rest actor target patch i g now)"
  unfolding transition_rest_def Let_def
  by (intro keeping transition_rest_users tx_keeps_users [where U = "\<lambda>x. x = us"]) simp

text \<open>A transition that commits: its conditional write, and what follows it.\<close>

lemma transition_tx_Inr:
  assumes "transition_tx promotion actor target patch i g now db = Inr (r, db')"
  obtains row db1 where "users_updateIfMatches (u_id target)
      (expect_user\<lparr>ue_role := Some (u_role target), ue_status := Some (u_status target)\<rparr>) (update_of target patch) db = Inr (row, db1)"
    "guardsLastSuperAdmin target patch \<Longrightarrow> users_countActiveSuperAdmins db (u_id target) \<noteq> 0"
    "case row of None \<Rightarrow> r = None \<and> db' = db1
     | Some u \<Rightarrow> \<exists>job. transition_rest actor target patch i g now db1 = Inr (job, db') \<and> r = Some (u, job)"
proof -
  have "\<exists>row db1. users_updateIfMatches (u_id target)
      (expect_user\<lparr>ue_role := Some (u_role target), ue_status := Some (u_status target)\<rparr>) (update_of target patch) db = Inr (row, db1) \<and>
      \<not> (guardsLastSuperAdmin target patch \<and> users_countActiveSuperAdmins db (u_id target) = 0) \<and>
      (case row of None \<Rightarrow> tx_return None
         | Some u \<Rightarrow> tx_bind (transition_rest actor target patch i g now) (\<lambda>job. tx_return (Some (u, job)))) db1 = Inr (r, db')"
    using assms unfolding transition_tx_def by (auto simp: tx_simps tx_check_Inr split: if_splits)
  then obtain row db1 where *: "users_updateIfMatches (u_id target)
      (expect_user\<lparr>ue_role := Some (u_role target), ue_status := Some (u_status target)\<rparr>) (update_of target patch) db = Inr (row, db1)"
      "\<not> (guardsLastSuperAdmin target patch \<and> users_countActiveSuperAdmins db (u_id target) = 0)"
      "(case row of None \<Rightarrow> tx_return None
         | Some u \<Rightarrow> tx_bind (transition_rest actor target patch i g now) (\<lambda>job. tx_return (Some (u, job)))) db1 = Inr (r, db')"
    by blast
  show ?thesis
  proof (rule that [OF *(1)])
    show "users_countActiveSuperAdmins db (u_id target) \<noteq> 0" if "guardsLastSuperAdmin target patch" using *(2) that by simp
    show "case row of None \<Rightarrow> r = None \<and> db' = db1
       | Some u \<Rightarrow> \<exists>job. transition_rest actor target patch i g now db1 = Inr (job, db') \<and> r = Some (u, job)"
      using *(3) by (cases row) (auto simp: tx_simps)
  qed
qed

lemma transition_users:
  assumes "transition_tx promotion actor target patch i g now db = Inr (r, db')"
  shows "db_users db' = update_where (transition_hits target) (userUpdateColumns (update_of target patch)) (db_users db)"
    "guardsLastSuperAdmin target patch \<Longrightarrow> users_countActiveSuperAdmins db (u_id target) \<noteq> 0"
proof -
  obtain row db1 where w: "users_updateIfMatches (u_id target)
      (expect_user\<lparr>ue_role := Some (u_role target), ue_status := Some (u_status target)\<rparr>) (update_of target patch) db = Inr (row, db1)"
    and guard: "guardsLastSuperAdmin target patch \<Longrightarrow> users_countActiveSuperAdmins db (u_id target) \<noteq> 0"
    and after: "case row of None \<Rightarrow> r = None \<and> db' = db1
     | Some u \<Rightarrow> \<exists>job. transition_rest actor target patch i g now db1 = Inr (job, db') \<and> r = Some (u, job)"
    using transition_tx_Inr [OF assms] by blast
  have "db_users db' = db_users db1"
    using after tx_keepsD [OF transition_rest_users' refl] by (auto split: option.splits)
  then show "db_users db' = update_where (transition_hits target) (userUpdateColumns (update_of target patch)) (db_users db)"
    using updateIfMatches_users(1) [OF w] by (simp add: user_matches_def expect_user_def)
  show "users_countActiveSuperAdmins db (u_id target) \<noteq> 0" if "guardsLastSuperAdmin target patch" using guard that by blast
qed

subsection \<open>The last super admin\<close>

definition has_super_admin :: "user list \<Rightarrow> bool" where
  "has_super_admin us \<longleftrightarrow> (\<exists>u\<in>set us. u_role u = Super_Admin \<and> u_status u = User_Active)"

lemma set_update_where: "set (update_where P f rows) = (\<lambda>r. if P r then f r else r) ` set rows"
  by (simp add: update_where_def)

lemma has_super_admin_update:
  assumes "has_super_admin us" "\<And>u. hit u \<Longrightarrow> u_role u = Super_Admin \<Longrightarrow> u_status u = User_Active \<Longrightarrow>
      (u_role (f u) = Super_Admin \<and> u_status (f u) = User_Active) \<or> (\<exists>v\<in>set us. \<not> hit v \<and> u_role v = Super_Admin \<and> u_status v = User_Active)"
  shows "has_super_admin (update_where hit f us)"
proof -
  obtain u where u: "u \<in> set us" "u_role u = Super_Admin" "u_status u = User_Active" using assms(1) by (auto simp: has_super_admin_def)
  obtain v where "v \<in> set us" "u_role (if hit v then f v else v) = Super_Admin" "u_status (if hit v then f v else v) = User_Active"
    using assms(2) [of u] u by (cases "hit u") auto
  then show ?thesis unfolding has_super_admin_def set_update_where by blast
qed

lemma transition_keeps_super_admin:
  "tx_keeps (\<lambda>db. has_super_admin (db_users db)) (transition_tx promotion actor target patch i g now)"
proof (rule tx_keepsI)
  fix db r db'
  assume some: "has_super_admin (db_users db)" and run: "transition_tx promotion actor target patch i g now db = Inr (r, db')"
  let ?f = "userUpdateColumns (update_of target patch)"
  show "has_super_admin (db_users db')"
    unfolding transition_users(1) [OF run]
  proof (rule has_super_admin_update [OF some])
    fix u
    assume u: "transition_hits target u" "u_role u = Super_Admin" "u_status u = User_Active"
    show "(u_role (?f u) = Super_Admin \<and> u_status (?f u) = User_Active) \<or>
        (\<exists>v\<in>set (db_users db). \<not> transition_hits target v \<and> u_role v = Super_Admin \<and> u_status v = User_Active)"
    proof (cases "guardsLastSuperAdmin target patch")
      case True
      then have "users_countActiveSuperAdmins db (u_id target) \<noteq> 0" by (rule transition_users(2) [OF run])
      then show ?thesis by (auto simp: users_countActiveSuperAdmins_def filter_empty_conv)
    next
      case False
      then have "up_role (update_of target patch) = None" "up_status (update_of target patch) \<noteq> Some User_Disabled"
        using u by (auto simp: guardsLastSuperAdmin_def update_of_def no_user_patch_def)
      then show ?thesis using u
        by (cases "up_status (update_of target patch)") (auto simp: userUpdateColumns_def patched_def, metis user_status.exhaust)
    qed
  qed
qed

text \<open>A write that names neither role nor status.\<close>

lemma plain_update_super_admin:
  assumes "up_role p = None" "up_status p = None \<or> up_status p = Some User_Disabled \<and> (\<forall>u. hit u \<longrightarrow> u_status u = User_Disabled)"
    "has_super_admin us"
  shows "has_super_admin (update_where hit (userUpdateColumns p) us)"
  by (rule has_super_admin_update [OF assms(3)]) (use assms(1,2) in \<open>auto simp: userUpdateColumns_def patched_def\<close>)

lemma release_keeps_super_admin:
  "tx_keeps (\<lambda>db. has_super_admin (db_users db)) (release_tx actor targetId email tombstone g now)"
proof -
  have cancel: "tx_keeps (\<lambda>db. U (db_users db)) (emailOutbox_cancelForReleasedAddress email g now)" for U :: "user list \<Rightarrow> bool"
    by (rule tx_keepsI) (auto simp: emailOutbox_cancelForReleasedAddress_def Let_def split: if_splits)
  have check: "tx_keeps D (tx_check f)" for D f by (rule tx_keepsI) (simp add: tx_check_Inr)
  have wrote: "tx_keeps (\<lambda>db. has_super_admin (db_users db)) (users_updateIfMatches i e
      (no_user_patch\<lparr>up_email := Some tombstone, up_email_verified := Some False\<rparr>))" for i e
    by (rule tx_keepsI) (auto dest!: updateIfMatches_users(1) intro!: plain_update_super_admin simp: no_user_patch_def)
  show ?thesis unfolding release_tx_def release_effects_def
    by (intro keeping check wrote cancel tx_keeps_users [where U = has_super_admin]) simp_all
qed

lemma requeue_keeps_super_admin:
  "tx_keeps (\<lambda>db. has_super_admin (db_users db)) (users_updateIfMatches i
     (expect_user\<lparr>ue_role := Some r, ue_status := Some User_Disabled\<rparr>) (no_user_patch\<lparr>up_status := Some User_Disabled\<rparr>))"
  by (rule tx_keepsI) (auto dest!: updateIfMatches_users(1) intro!: plain_update_super_admin
      simp: no_user_patch_def expect_user_def user_matches_def)

lemma retry_keeps_super_admin: "tx_keeps (\<lambda>db. has_super_admin (db_users db)) (retry_tx actor targetId i g now)"
  unfolding retry_tx_def
  by (intro keeping requeue_keeps_super_admin tx_keeps_users [where U = has_super_admin])

lemma update_me_keeps_super_admin:
  "tx_keeps (\<lambda>db. has_super_admin (db_users db)) (update_me_tx user (update_me_patch hash user patch) now)"
proof -
  have wrote: "tx_keeps (\<lambda>db. has_super_admin (db_users db)) (users_update i (update_me_patch hash user patch))" for i
    by (rule tx_keepsI) (auto simp: users_update_def rbind_eq_Inr dest!: write_users_Inr
        intro!: plain_update_super_admin simp: update_me_patch_def no_user_patch_def)
  show ?thesis unfolding update_me_tx_def
    by (intro keeping wrote tx_keeps_users [where U = has_super_admin]) simp_all
qed

lemma under_account_keys_abides: "rule_kept U env \<Longrightarrow> abides U env m \<Longrightarrow> abides U env (under_account_keys target patch m)"
  unfolding under_account_keys_def Let_def by (auto intro!: abides_lock)

lemma inline_teardown_abides:
  assumes "rule_kept U env" "abides U env disable"
  shows "abides U env (inline_teardown disable a t job)"
  unfolding inline_teardown_def
  by (intro keeping abides_calls [OF assms(1)] runGatewayTeardown_abides [OF assms] abides_tx [OF assms(1)] tx_keeps_users)

lemma teardown_runTick_abides:
  assumes env: "rule_kept U env" and dis: "\<And>t. abides U env (disable t)"
  shows "abides U env (teardown_runTick disable n random)"
proof -
  note r = abides_calls [OF env] abides_lock [OF env] abides_tx_of [OF env] keeping
  have cancel: "abides U env (cancel_counted t job)" for t job
    unfolding cancel_counted_def cancelJob_def cancel_tx_def
    by (intro r abides_tx [OF env] tx_keeps_users) simp
  have job: "abides U env (run_teardown_job disable x t job)" for x t job
    unfolding run_teardown_job_def
    by (intro r cancel runGatewayTeardown_abides [OF env dis] abides_tx [OF env] tx_keeps_users) simp
  have claim: "abides U env teardown_claim_one" unfolding teardown_claim_one_def by (intro r) simp
  have loop: "abides U env (teardown_loop disable n random t)" for n t
    by (induction n arbitrary: t) (auto simp: Let_def intro!: r claim job)
  show ?thesis unfolding teardown_runTick_def teardown_releaseStale_def by (intro r loop) simp
qed

text \<open>What the checks before an update let through.\<close>

definition permitted :: "user \<Rightarrow> user \<Rightarrow> update_user_input \<Rightarrow> bool" where
  "permitted actor target patch \<longleftrightarrow> roleAtLeast (u_role actor) Super_Admin \<or>
     ((role_changed target patch \<longrightarrow> \<not> isElevated (the (ux_role patch)) \<and> \<not> isElevated (u_role target)) \<and>
      (status_changed target patch \<longrightarrow> \<not> isElevated (u_role target)))"

lemma guard_passed: "io_bind (io_guard b e) k env w = (Inr x, w') \<Longrightarrow> b"
  by (cases b) (auto simp: io_guard_def io_result_def guard_def io_bind_def io_throw_def)

lemma checks_permit:
  assumes "check_role actor target patch env1 w1 = (Inr x, w2)" "check_status actor target patch env3 w3 = (Inr y, w4)"
  shows "permitted actor target patch"
  using assms unfolding check_role_def check_status_def permitted_def by (auto split: if_splits dest!: guard_passed)

text \<open>A step that returns only under a condition.\<close>

lemma keeps_after:
  assumes "keeps env P m" "\<And>x w w'. m env w = (Inr x, w') \<Longrightarrow> keeps env P (k x)"
  shows "keeps env P (io_bind m k)"
  unfolding keeps_def hoare_def
proof (intro allI impI)
  fix w assume P: "P w"
  show "case io_bind m k env w of (Inl f, w') \<Rightarrow> P w' | (Inr a, w') \<Rightarrow> P w'"
  proof (cases "m env w")
    case (Pair r w1)
    have w1: "P w1" using hoare_final [OF keepsD [OF assms(1)] P] Pair by simp
    show ?thesis
    proof (cases r)
      case (Inr x)
      then have "m env w = (Inr x, w1)" using Pair by simp
      then have "P (snd (k x env w1))" by (rule hoare_final [OF keepsD [OF assms(2)] w1])
      then show ?thesis using Inr Pair by (auto simp: io_bind_def split: prod.splits sum.splits)
    qed (use Pair w1 in \<open>simp add: io_bind_def\<close>)
  qed
qed

text \<open>An update of an account, for a rule its transition keeps.\<close>

lemma updateUser_abides:
  assumes env: "rule_kept U env" and "\<And>t. abides U env (disable t)" "\<And>t. abides U env (restore t)"
    and tx: "\<And>target i g now. permitted actor target patch \<Longrightarrow>
      tx_keeps (\<lambda>db. U (db_users db)) (transition_tx promotion actor target patch i g now)"
  shows "abides U env (updateUser promotion disable restore actor targetId patch)"
proof -
  note r = abides_calls [OF env] abides_lock [OF env] keeping
  have checks: "abides U env (check_name n)" "abides U env (check_org o1)" "abides U env (check_role actor target patch)"
    "abides U env (check_status actor target patch)" for n o1 target
    unfolding check_name_def check_org_def check_role_def check_status_def check_other_super_admin_def
    by (auto split: option.splits intro!: r)
  have rep: "abides U env (repeat_enable (restore t) actor target patch)" for t target
    unfolding repeat_enable_def by (intro r assms(3) abides_tx [OF env] tx_keeps_users)
  have app: "abides U env (apply_update promotion (disable t) (restore t) actor target patch)" if "permitted actor target patch" for t target
    unfolding apply_update_def
    by (intro r under_account_keys_abides [OF env] abides_tx [OF env] tx [OF that] assms(2,3) inline_teardown_abides [OF env])
  show ?thesis unfolding updateUser_def
    by (rule keeps_bind [OF abides_calls(1) [OF env]], rule keeps_option, rule keeps_throw,
        rule keeps_bind [OF checks(1)], rule keeps_bind [OF checks(2)], rule keeps_after [OF checks(3)], rule keeps_after [OF checks(4)])
       (intro r rep app checks_permit)
qed

lemma abides_final: "abides U env m \<Longrightarrow> U (db_users (w_db w)) \<Longrightarrow> U (db_users (w_db (snd (m env w))))"
  using hoare_final [OF keepsD] by fastforce

text \<open>
  C21. The portal always has an active super admin. If there is one, then there is one after any of the
  service's operations ends, however it ends: updating another account, the self-service profile,
  releasing an address, retrying a revocation, and a tick of the revocation worker. The others need only
  keep the same rule, and neither a lost answer nor a gateway failure can break it; in particular two
  super admins demoting each other cannot both succeed.
\<close>

theorem super_admin_never_lost:
  assumes "rule_kept has_super_admin env" "has_super_admin (db_users (w_db w))"
  shows "has_super_admin (db_users (w_db (snd (updateUser promotion (disableGatewayAccess fuel derivedId namespace)
        (restoreGatewayAccess fuel) actor targetId patch env w)))) \<and>
    has_super_admin (db_users (w_db (snd (updateMe verify hash hashToken ttlSeconds actor profile env w)))) \<and>
    has_super_admin (db_users (w_db (snd (releaseAddress actor targetId email env w)))) \<and>
    has_super_admin (db_users (w_db (snd (retryGatewayTeardown (disableGatewayAccess fuel derivedId namespace) actor targetId env w)))) \<and>
    has_super_admin (db_users (w_db (snd (teardown_runTick (disableGatewayAccess fuel derivedId namespace) n random env w))))"
proof -
  note env = assms(1)
  note r = abides_calls [OF env] abides_lock [OF env] keeping
  note dis = disableGatewayAccess_abides [OF env] and res = restoreGatewayAccess_abides [OF env]
  have up: "abides has_super_admin env (updateUser promotion (disableGatewayAccess fuel derivedId namespace) (restoreGatewayAccess fuel)
      actor targetId patch)"
    by (intro updateUser_abides [OF env] dis res transition_keeps_super_admin)
  have change: "abides has_super_admin env (change_me hashToken ttlSeconds actor (update_me_patch hash actor profile))"
    unfolding change_me_def issueSession_def io_mint_def
    by (intro r abides_tx [OF env] update_me_keeps_super_admin)
  have me: "abides has_super_admin env (updateMe verify hash hashToken ttlSeconds actor profile)"
    unfolding updateMe_def check_name_def Let_def by (intro r change)
  have rel: "abides has_super_admin env (releaseAddress actor targetId email)"
    unfolding releaseAddress_def Let_def by (intro r abides_tx [OF env] release_keeps_super_admin)
  have ret: "abides has_super_admin env (retryGatewayTeardown (disableGatewayAccess fuel derivedId namespace) actor targetId)"
    unfolding retryGatewayTeardown_def
    by (intro r abides_tx [OF env] retry_keeps_super_admin inline_teardown_abides [OF env] dis)
  show ?thesis
    by (intro conjI abides_final [OF up assms(2)] abides_final [OF me assms(2)] abides_final [OF rel assms(2)]
        abides_final [OF ret assms(2)] abides_final [OF teardown_runTick_abides [OF env dis] assms(2)])
qed

theorem super_admin_never_lost_witness:
  "has_super_admin (db_users (w_db (snd (updateUser (\<lambda>_ _ _. Inr ()) (disableGatewayAccess 2 id ''ns'') (restoreGatewayAccess 2)
     (example_user ''s1'' Super_Admin) ''s1''
     \<lparr>ux_role = None, ux_status = Some User_Disabled, ux_org_id = None, ux_display_name = None\<rparr> ex_post_env
     (ex_post\<lparr>w_db := (w_db ex_post)\<lparr>db_users := [example_user ''s1'' Super_Admin]\<rparr>\<rparr>)))))"
proof -
  have "rule_kept has_super_admin ex_post_env" by (simp add: rule_kept_def ex_post_env_def)
  moreover have "has_super_admin (db_users (w_db (ex_post\<lparr>w_db := (w_db ex_post)\<lparr>db_users := [example_user ''s1'' Super_Admin]\<rparr>\<rparr>)))"
    by (simp add: has_super_admin_def)
  ultimately show ?thesis by (rule conjunct1 [OF super_admin_never_lost])
qed

subsection \<open>Administrators\<close>

text \<open>The administrators' power: which accounts are elevated, with which role and status. Other columns, a
  display name or an organization, are no part of it, and an administrator may change them.\<close>

definition administrators :: "user list \<Rightarrow> (string \<times> role \<times> user_status) list" where
  "administrators us = map (\<lambda>u. (u_id u, u_role u, u_status u)) (filter (\<lambda>u. isElevated (u_role u)) us)"

lemma administrators_update:
  assumes "\<And>u. hit u \<Longrightarrow> isElevated (u_role (f u)) = isElevated (u_role u) \<and>
      (isElevated (u_role u) \<longrightarrow> u_id (f u) = u_id u \<and> u_role (f u) = u_role u \<and> u_status (f u) = u_status u)"
  shows "administrators (update_where hit f us) = administrators us"
  using assms by (induction us) (auto simp: administrators_def update_where_def)

lemma transition_keeps_administrators:
  assumes "permitted actor target patch" "\<not> roleAtLeast (u_role actor) Super_Admin"
  shows "tx_keeps (\<lambda>db. P (administrators (db_users db))) (transition_tx promotion actor target patch i g now)"
proof (rule tx_keepsI)
  fix db r db'
  assume "P (administrators (db_users db))" and run: "transition_tx promotion actor target patch i g now db = Inr (r, db')"
  moreover have "administrators (db_users db') = administrators (db_users db)"
    unfolding transition_users(1) [OF run]
    by (rule administrators_update)
       (use assms in \<open>auto simp: permitted_def userUpdateColumns_def patched_def update_of_def no_user_patch_def split: option.splits\<close>)
  ultimately show "P (administrators (db_users db'))" by simp
qed

text \<open>Id, role, status and address of every account.\<close>

definition standing_of :: "user list \<Rightarrow> (string \<times> role \<times> user_status \<times> string) list" where
  "standing_of us = map (\<lambda>u. (u_id u, u_role u, u_status u, u_email u)) us"

lemma profile_keeps_standing:
  "tx_keeps (\<lambda>db. Q (standing_of (db_users db))) (update_me_tx user (update_me_patch hash user patch) now)"
proof -
  have wrote: "tx_keeps (\<lambda>db. Q (standing_of (db_users db))) (users_update i (update_me_patch hash user patch))" for i
    by (rule tx_keepsI) (auto simp: users_update_def rbind_eq_Inr standing_of_def map_update_where userUpdateColumns_def patched_def
        update_me_patch_def no_user_patch_def dest!: write_users_Inr)
  show ?thesis unfolding update_me_tx_def
    by (intro keeping wrote tx_keeps_users [where U = "\<lambda>us. Q (standing_of us)"]) simp_all
qed

text \<open>
  C22. Only a super admin confers or removes administrator power, and self-service confers nothing. Take
  any rule about the administrators' power (which accounts are elevated, with which role and status) that
  holds and that the others keep, whatever else they change meanwhile, the account under update included:
  an update by anybody but a super admin, however it ends, keeps it too. With the rule that nothing about
  it changes, the update makes no administrator and leaves the role and status of each as they were; with
  weaker rules the others may promote, demote or disable the account between the checks and the write. In
  the same way a profile update keeps every rule about ids, roles, statuses and addresses.
\<close>

theorem admin_power_needs_super_admin:
  assumes "\<not> roleAtLeast (u_role actor) Super_Admin"
    and "rule_kept (\<lambda>us. P (administrators us)) env" "P (administrators (db_users (w_db w)))"
    and "rule_kept (\<lambda>us. Q (standing_of us)) env" "Q (standing_of (db_users (w_db w)))"
  shows "P (administrators (db_users (w_db (snd (updateUser promotion (disableGatewayAccess fuel derivedId namespace)
        (restoreGatewayAccess fuel) actor targetId patch env w))))) \<and>
    Q (standing_of (db_users (w_db (snd (updateMe verify hash hashToken ttlSeconds actor profile env w)))))"
proof
  show "P (administrators (db_users (w_db (snd (updateUser promotion (disableGatewayAccess fuel derivedId namespace)
        (restoreGatewayAccess fuel) actor targetId patch env w)))))"
    by (rule abides_final [OF updateUser_abides [OF assms(2) disableGatewayAccess_abides [OF assms(2)]
          restoreGatewayAccess_abides [OF assms(2)] transition_keeps_administrators [OF _ assms(1)]] assms(3)])
  note r = abides_calls [OF assms(4)] abides_lock [OF assms(4)] keeping
  have "abides (\<lambda>us. Q (standing_of us)) env (change_me hashToken ttlSeconds actor (update_me_patch hash actor profile))"
    unfolding change_me_def issueSession_def io_mint_def
    by (intro r abides_tx [OF assms(4)] profile_keeps_standing)
  then have "abides (\<lambda>us. Q (standing_of us)) env (updateMe verify hash hashToken ttlSeconds actor profile)"
    unfolding updateMe_def check_name_def Let_def by (intro r)
  then show "Q (standing_of (db_users (w_db (snd (updateMe verify hash hashToken ttlSeconds actor profile env w)))))"
    using assms(5) by (rule abides_final)
qed

text \<open>Others who promote the account \<open>u1\<close> whenever they act, and never disable an administrator.\<close>

definition ex_promoting_env :: env where
  "ex_promoting_env = ex_post_env\<lparr>e_other := \<lambda>n db. db\<lparr>db_users := map (\<lambda>u. if u_id u = ''u1'' \<and> u_status u = User_Active
     then u\<lparr>u_role := Admin\<rparr> else u) (db_users db)\<rparr>\<rparr>"

definition none_disabled :: "(string \<times> role \<times> user_status) list \<Rightarrow> bool" where
  "none_disabled = list_all (\<lambda>(i, r, s). s = User_Active)"

theorem admin_power_needs_super_admin_witness:
  "none_disabled (administrators (db_users (w_db (snd (updateUser (\<lambda>_ _ _. Inr ()) (disableGatewayAccess 2 id ''ns'') (restoreGatewayAccess 2)
     (example_user ''a1'' Admin) ''u1''
     \<lparr>ux_role = None, ux_status = Some User_Disabled, ux_org_id = None, ux_display_name = None\<rparr> ex_promoting_env ex_post)))))"
proof -
  have "rule_kept (\<lambda>us. none_disabled (administrators us)) ex_promoting_env"
    by (auto simp: rule_kept_def ex_promoting_env_def ex_post_env_def none_disabled_def administrators_def list_all_iff)
  moreover have "none_disabled (administrators (db_users (w_db ex_post)))" "\<not> roleAtLeast (u_role (example_user ''a1'' Admin)) Super_Admin"
    by code_simp+
  moreover have "rule_kept (\<lambda>us. True) ex_promoting_env" by (simp add: rule_kept_def)
  ultimately show ?thesis
    using admin_power_needs_super_admin [where P = none_disabled and Q = "\<lambda>_. True"] by blast
qed

subsection \<open>Released addresses\<close>

lemma ends_with_append: "ends_with suffix (s @ suffix)"
  by (simp add: ends_with_def)

lemma tombstone_trim: "js_trim (''released-'' @ x @ CHR ''@'' # RELEASED_EMAIL_DOMAIN) = ''released-'' @ x @ CHR ''@'' # RELEASED_EMAIL_DOMAIN"
  by (rule js_trim_id) (auto simp: RELEASED_EMAIL_DOMAIN_def is_js_space_def)

lemma tombstone_lower:
  "js_lower (''released-'' @ x @ CHR ''@'' # RELEASED_EMAIL_DOMAIN) = ''released-'' @ js_lower x @ CHR ''@'' # RELEASED_EMAIL_DOMAIN"
proof -
  have "js_lower (CHR ''@'' # RELEASED_EMAIL_DOMAIN) = CHR ''@'' # RELEASED_EMAIL_DOMAIN" "js_lower ''released-'' = ''released-''"
    by code_simp+
  then show ?thesis by (simp add: js_lower_def)
qed

lemma tombstone_released: "isReleasedEmail (js_lower (js_trim (tombstone_for minted)))"
  using ends_with_append [of "CHR ''@'' # RELEASED_EMAIL_DOMAIN" "''released-'' @ js_lower (js_lower minted)"]
  unfolding isReleasedEmail_def tombstone_for_def tombstone_trim tombstone_lower append_assoc .

text \<open>What a committed release leaves: the account has a reserved address, and nothing to the old one is queued.\<close>

definition address_released :: "string \<Rightarrow> string \<Rightarrow> portal_db \<Rightarrow> bool" where
  "address_released targetId email db \<longleftrightarrow> \<not> isReleasedEmail email \<and>
     (\<forall>u\<in>set (db_users db). u_id u = targetId \<longrightarrow> isReleasedEmail (u_email u)) \<and>
     (\<forall>m\<in>set (db_outbox db). sql_lower (ml_to_email m) = email \<longrightarrow> ml_status m \<notin> {Mail_Pending, Mail_Sending})"

lemma cancel_clears:
  assumes "emailOutbox_cancelForReleasedAddress email g now db = Inr (n, db')" "js_lower (js_trim email) = email"
  shows "db_users db' = db_users db"
    "m \<in> set (db_outbox db') \<Longrightarrow> sql_lower (ml_to_email m) = email \<Longrightarrow> ml_status m \<notin> {Mail_Pending, Mail_Sending}"
proof -
  let ?hit = "\<lambda>m. sql_lower (ml_to_email m) = email \<and> ml_status m = Mail_Pending"
  have none: "\<not> list_ex (\<lambda>m. sql_lower (ml_to_email m) = email \<and> ml_status m = Mail_Sending) (db_outbox db)"
    and db': "db' = db\<lparr>db_outbox := update_where ?hit (cancel_mail g now) (db_outbox db)\<rparr>"
    using assms by (auto simp: emailOutbox_cancelForReleasedAddress_def Let_def split: if_splits)
  show "db_users db' = db_users db" by (simp add: db')
  assume m: "m \<in> set (db_outbox db')" "sql_lower (ml_to_email m) = email"
  obtain m0 where m0: "m0 \<in> set (db_outbox db)" "m = (if ?hit m0 then cancel_mail g now m0 else m0)"
    using m(1) by (auto simp: db' set_update_where)
  have "ml_status (cancel_mail g now m0) = Mail_Failed" by (simp add: cancel_mail_def)
  then show "ml_status m \<notin> {Mail_Pending, Mail_Sending}"
    using none m(2) m0 by (auto simp: list_ex_iff split: if_splits)
qed

lemma release_effects_Inr:
  assumes "release_effects actor targetId email g now db = Inr (x, db')" "js_lower (js_trim email) = email"
  shows "db_users db' = db_users db"
    "m \<in> set (db_outbox db') \<Longrightarrow> sql_lower (ml_to_email m) = email \<Longrightarrow> ml_status m \<notin> {Mail_Pending, Mail_Sending}"
proof -
  obtain db1 n db2 where "db_users db1 = db_users db" and c: "emailOutbox_cancelForReleasedAddress email g now db1 = Inr (n, db2)"
    and a: "db' = auditLogs_create None (Some (u_id actor)) USER_ADDRESS_RELEASE targetId now db2"
    using assms(1) unfolding release_effects_def tx_simps
    by (metis session_calls_users snd_conv)
  then show "db_users db' = db_users db" using cancel_clears(1) [OF c assms(2)] by (simp add: auditLogs_create_def)
  show "ml_status m \<notin> {Mail_Pending, Mail_Sending}" if "m \<in> set (db_outbox db')" "sql_lower (ml_to_email m) = email"
    using that cancel_clears(2) [OF c assms(2), of m] by (simp add: a auditLogs_create_def)
qed

lemma release_tx_released:
  assumes "release_tx actor targetId email (tombstone_for minted) g now db = Inr (u, db')"
    and email: "js_lower (js_trim email) = email" "\<not> isReleasedEmail email"
  shows "address_released targetId email db' \<and> isReleasedEmail (u_email u)"
proof -
  let ?p = "no_user_patch\<lparr>up_email := Some (tombstone_for minted), up_email_verified := Some False\<rparr>"
  obtain target e db1 x where t: "users_findById db targetId = Some target"
    and w: "users_updateIfMatches (u_id target) e ?p db = Inr (Some u, db1)" and rest: "release_effects actor (u_id target) email g now db1 = Inr (x, db')"
    using assms(1) unfolding release_tx_def by (auto simp: tx_simps tx_check_Inr split: option.splits)
  have id: "u_id target = targetId" using t by (auto simp: users_findById_def find_by_def find_Some_iff)
  let ?hit = "\<lambda>v. u_id v = targetId \<and> user_matches e v"
  have rows: "db_users db1 = update_where ?hit (userUpdateColumns ?p) (db_users db)" and hit: "list_ex ?hit (db_users db)"
    and u: "users_findById db1 targetId = Some u"
    using updateIfMatches_users [OF w] by (auto simp: id split: if_splits)
  have unique: "distinct (map u_id (db_users db))"
    using w by (auto simp: users_updateIfMatches_def Let_def rbind_eq_Inr write_users_def mapConflict_def users_unique_def
        map_update_where userUpdateColumns_def split: if_splits)
  have stored: "isReleasedEmail (u_email v)" if v: "v \<in> set (db_users db1)" "u_id v = targetId" for v
  proof -
    obtain v0 where v0: "v0 \<in> set (db_users db)" "v = (if ?hit v0 then userUpdateColumns ?p v0 else v0)"
      using v(1) unfolding rows set_update_where by (elim imageE) blast
    obtain h where h: "h \<in> set (db_users db)" "?hit h" using hit by (auto simp: list_ex_iff)
    have "u_id v0 = targetId" using v(2) v0(2) by (auto simp: userUpdateColumns_def split: if_splits)
    then have "v0 = h" using unique v0(1) h by (auto simp: distinct_map inj_on_def)
    then have "v = userUpdateColumns ?p h" using v0(2) h(2) by simp
    then show ?thesis
      using tombstone_released [of minted] by (simp add: userUpdateColumns_def patched_def no_user_patch_def)
  qed
  show ?thesis using stored release_effects_Inr [OF rest email(1)] email(2) u
    by (auto simp: address_released_def users_findById_def find_by_def find_Some_iff)
qed

lemma isReleasedEmail_normal: "isReleasedEmail (js_lower (js_trim s)) = isReleasedEmail s"
  by (simp add: isReleasedEmail_def js_normal_idem)

lemma released_unlawful:
  assumes "address_released targetId email db" "ml_recipient_user_id entry = Some targetId" "targetId \<noteq> []"
  shows "unlawful db entry"
  using assms isReleasedEmail_normal [of "ml_to_email entry"]
  by (auto simp: unlawful_def recipient_of_def users_lockEmailRecipient_def address_released_def list_ex_iff truthy_def)

lemma hoare_releaseAddress:
  "hoare env (\<lambda>_. True) (releaseAddress actor targetId expected)
     (\<lambda>u w. address_released targetId (js_lower (js_trim expected)) (w_db w) \<and> isReleasedEmail (u_email u)) (\<lambda>_ _. True)"
proof -
  have st: "stable env (\<lambda>_. True)" by (rule stableI) simp_all
  let ?email = "js_lower (js_trim expected)"
  show ?thesis
    unfolding releaseAddress_def Let_def
  proof (rule hoare_quiet [OF quiet_guard st])
    have tx: "hoare env (\<lambda>_. \<not> isReleasedEmail ?email) (io_tx (release_tx actor targetId ?email (tombstone_for minted) g now))
        (\<lambda>u w. address_released targetId ?email (w_db w) \<and> isReleasedEmail (u_email u)) (\<lambda>_ _. True)" for minted g now
      using release_tx_released [OF _ js_normal_idem, of actor targetId expected minted g now]
      by (intro hoare_tx stable_const) auto
    show "hoare env (\<lambda>_. True) (io_bind (io_guard (?email \<noteq> [] \<and> length ?email \<le> 320 \<and> \<not> isReleasedEmail ?email) e) (\<lambda>_.
        io_bind io_newId (\<lambda>minted. io_lock k (io_lock k' (io_bind io_now (\<lambda>now. io_bind io_newId (\<lambda>g.
          io_tx (release_tx actor targetId ?email (tombstone_for minted) g now))))))))
        (\<lambda>u w. address_released targetId ?email (w_db w) \<and> isReleasedEmail (u_email u)) (\<lambda>_ _. True)" for e k k'
      by (rule hoare_bind [where R = "\<lambda>_ _. \<not> isReleasedEmail ?email"], rule hoare_guard, simp, simp)
         (intro hoare_quiet [OF quiet_newId] hoare_quiet [OF quiet_now] hoare_lock stable_const tx; simp)
  qed simp
qed


definition ex_leaver :: world where
  "ex_leaver = ex_post\<lparr>w_db := (w_db ex_post)\<lparr>db_users := [(example_user ''u1'' Client)\<lparr>u_status := User_Disabled\<rparr>],
     db_outbox := [ex_mail\<lparr>ml_status := Mail_Pending\<rparr>],
     db_teardown := [\<lparr>tj_id = ''j'', tj_generation = ''g'', tj_user_id = ''u1'', tj_status = Td_Done, tj_attempts = 1,
       tj_next_attempt_at = None, tj_last_error = None, tj_requested_by = None, tj_created_at = 0, tj_updated_at = 0,
       tj_completed_at = Some 0\<rparr>]\<rparr>\<rparr>"


end
