(* ===== verification/Teardown_Safety.thy ===== *)
theory Teardown_Safety
  imports Accounts_Safety
begin

section \<open>What a disabled account still owes\<close>

text \<open>
  A disable commits together with the durable row of the revocation it owes, and a re-enable takes the row
  back. So every disabled account has its revocation on record, and a revocation that is recorded as done
  was carried out.
\<close>

subsection \<open>Revocations on record\<close>

definition on_record :: "portal_db \<Rightarrow> (string \<times> string) list" where
  "on_record db = map (\<lambda>j. (tj_id j, tj_user_id j)) (db_teardown db)"

text \<open>\<open>owner\<close> says whose the ids of revocations are: an id is never used for two accounts. The ids of accounts
  are the primary key.\<close>

definition revocations_owed :: "(string \<Rightarrow> string) \<Rightarrow> portal_db \<Rightarrow> bool" where
  "revocations_owed owner db \<longleftrightarrow> distinct (map u_id (db_users db)) \<and> (\<forall>(i, u)\<in>set (on_record db). owner i = u) \<and>
     (\<forall>u\<in>set (db_users db). u_status u = User_Disabled \<longrightarrow> u_id u \<in> snd ` set (on_record db))"

lemma on_record_update:
  "(\<And>j. tj_id (f j) = tj_id j \<and> tj_user_id (f j) = tj_user_id j) \<Longrightarrow>
     on_record (db\<lparr>db_teardown := update_where hit f (db_teardown db)\<rparr>) = on_record db"
  by (simp add: on_record_def map_update_where)

lemma claim_teardown_record [simp]:
  "tj_id (claim_teardown g stamp j) = tj_id j" "tj_user_id (claim_teardown g stamp j) = tj_user_id j"
  by (simp_all add: claim_teardown_def)

lemma on_record_calls [simp]:
  "on_record (snd (gatewayTeardownJobs_claimPending g stamp job db)) = on_record db"
  "on_record (snd (gatewayTeardownJobs_markDone job t db)) = on_record db"
  "on_record (snd (gatewayTeardownJobs_reschedule job t e stamp db)) = on_record db"
  "on_record (snd (gatewayTeardownJobs_claimDue g stamp t n db)) = on_record db"
  "on_record (snd (gatewayTeardownJobs_releaseStale o1 due stamp db)) = on_record db"
  "on_record (snd (gatewayTeardownJobs_deleteByUser u db)) = filter (\<lambda>(_, v). v \<noteq> u) (on_record db)"
  "on_record (snd (sessions_deleteForUser u db)) = on_record db"
  "on_record (snd (verificationTokens_deleteForUser u p db)) = on_record db"
  "on_record (auditLogs_create i a action target now db) = on_record db"
  by (simp_all add: gatewayTeardownJobs_claimPending_def gatewayTeardownJobs_markDone_def gatewayTeardownJobs_reschedule_def
      gatewayTeardownJobs_claimDue_def gatewayTeardownJobs_releaseStale_def settle_teardown_def on_record_update Let_def)
     (simp_all add: on_record_def gatewayTeardownJobs_deleteByUser_def filter_map comp_def
      sessions_deleteForUser_def verificationTokens_deleteForUser_def auditLogs_create_def Let_def)

lemma map_update_hits: "(\<And>r. P r \<Longrightarrow> g (f r) = g r) \<Longrightarrow> map g (update_where P f rows) = map g rows"
  by (simp add: update_where_def)

lemma upsert_record:
  assumes "gatewayTeardownJobs_upsertPending i g u r t db = Inr (j, db')"
  shows "db_users db' = db_users db" "u \<in> snd ` set (on_record db')"
    "set (on_record db) \<subseteq> set (on_record db')" "set (on_record db') \<subseteq> insert (i, u) (set (on_record db))"
proof -
  have "db_users db' = db_users db \<and> u \<in> snd ` set (on_record db') \<and>
      (on_record db' = on_record db \<or> on_record db' = on_record db @ [(i, u)])"
  proof (cases "gatewayTeardownJobs_findByUser db u")
    case None
    then show ?thesis using assms by (auto simp: gatewayTeardownJobs_upsertPending_def on_record_def Let_def split: if_splits)
  next
    case (Some old)
    then have "u \<in> snd ` set (on_record db)"
      by (auto simp: gatewayTeardownJobs_findByUser_def on_record_def find_Some_iff image_image)
    moreover have "db_users db' = db_users db" "on_record db' = on_record db"
      using assms Some by (auto simp: gatewayTeardownJobs_upsertPending_def on_record_def Let_def intro!: map_update_hits)
    ultimately show ?thesis by simp
  qed
  then show "db_users db' = db_users db" "u \<in> snd ` set (on_record db')"
    "set (on_record db) \<subseteq> set (on_record db')" "set (on_record db') \<subseteq> insert (i, u) (set (on_record db))" by auto
qed

lemma owed_mono:
  assumes "revocations_owed owner db" "owner i = u" "set (on_record db) \<subseteq> set (on_record db')"
    "set (on_record db') \<subseteq> insert (i, u) (set (on_record db))" "map u_id (db_users db') = map u_id (db_users db)"
    "\<And>v. v \<in> set (db_users db') \<Longrightarrow> u_status v = User_Disabled \<Longrightarrow>
       u_id v \<in> snd ` set (on_record db') \<or> (\<exists>v0\<in>set (db_users db). u_id v0 = u_id v \<and> u_status v0 = User_Disabled)"
  shows "revocations_owed owner db'"
proof -
  have owed: "\<forall>(i, u)\<in>set (on_record db). owner i = u"
      "\<And>u. u \<in> set (db_users db) \<Longrightarrow> u_status u = User_Disabled \<Longrightarrow> u_id u \<in> snd ` set (on_record db)"
    using assms(1) by (auto simp: revocations_owed_def)
  have "\<forall>(i, u)\<in>set (on_record db'). owner i = u" using owed(1) assms(2,4) by auto
  moreover have "u_id v \<in> snd ` set (on_record db')" if "v \<in> set (db_users db')" "u_status v = User_Disabled" for v
    using assms(6) [OF that] owed(2) image_mono [OF assms(3), of snd] by (metis subsetD)
  moreover have "distinct (map u_id (db_users db'))" using assms(1) by (simp add: assms(5) revocations_owed_def)
  ultimately show ?thesis by (simp add: revocations_owed_def)
qed

lemma owed_same:
  "on_record db' = on_record db \<Longrightarrow> map (\<lambda>u. (u_id u, u_status u)) (db_users db') = map (\<lambda>u. (u_id u, u_status u)) (db_users db) \<Longrightarrow>
     revocations_owed owner db' = revocations_owed owner db"
proof -
  have eq: "(\<forall>u\<in>set us. u_status u = User_Disabled \<longrightarrow> u_id u \<in> X) \<longleftrightarrow>
      (\<forall>(i, s)\<in>set (map (\<lambda>u. (u_id u, u_status u)) us). s = User_Disabled \<longrightarrow> i \<in> X)" for us X by auto
  assume same: "on_record db' = on_record db" "map (\<lambda>u. (u_id u, u_status u)) (db_users db') = map (\<lambda>u. (u_id u, u_status u)) (db_users db)"
  have "map u_id (db_users db') = map u_id (db_users db)" using arg_cong [OF same(2), of "map fst"] by (simp add: comp_def)
  with same show ?thesis unfolding revocations_owed_def eq by simp
qed

subsection \<open>The transactions\<close>

lemma tx_keeps_record:
  "(\<And>db. on_record (snd (f db)) = on_record db) \<Longrightarrow> (\<And>db. db_users (snd (f db)) = db_users db) \<Longrightarrow>
     tx_keeps (revocations_owed owner) (tx_of f)"
  "tx_keeps (revocations_owed owner) (tx_audit actor action target now)"
  by (auto intro!: tx_keepsI simp: tx_simps tx_audit_def tx_of_def prod_eq_iff revocations_owed_def)
     (auto simp: auditLogs_create_def)

lemma issueSession_keeps_owed [keeping]: "tx_keeps (revocations_owed owner) (issueSession_tx hashToken ttlSeconds user m)"
  by (rule tx_keepsI) (auto simp: issueSession_tx_def tx_simps revocations_owed_def on_record_def dest!: sessions_create_Inr)

lemma upsert_keeps_owed:
  "owner i = u \<Longrightarrow> tx_keeps (revocations_owed owner) (gatewayTeardownJobs_upsertPending i g u r t)"
proof (rule tx_keepsI)
  fix db j db'
  assume "owner i = u" "revocations_owed owner db" and run: "gatewayTeardownJobs_upsertPending i g u r t db = Inr (j, db')"
  then show "revocations_owed owner db'"
    by (intro owed_mono [of owner db i u db'] upsert_record [OF run]) (auto simp: upsert_record(1) [OF run])
qed

text \<open>A write that leaves every status as it was.\<close>

lemma status_kept_owed:
  assumes "\<And>u. hit u \<Longrightarrow> u_status (userUpdateColumns p u) = u_status u"
  shows "revocations_owed owner (db\<lparr>db_users := update_where hit (userUpdateColumns p) (db_users db)\<rparr>) = revocations_owed owner db"
  by (rule owed_same) (use assms in \<open>auto simp: on_record_def userUpdateColumns_def intro!: map_update_hits\<close>)

lemma disable_effects_record:
  assumes "disable_effects i g t a now db = Inr (j, db')"
  shows "t \<in> snd ` set (on_record db')" "set (on_record db) \<subseteq> set (on_record db')"
    "set (on_record db') \<subseteq> insert (i, t) (set (on_record db))"
proof -
  obtain db1 where up: "gatewayTeardownJobs_upsertPending i g t (Some a) now db = Inr (j, db1)" and "on_record db' = on_record db1"
    using assms unfolding disable_effects_def tx_simps by (metis on_record_calls(7,8) snd_conv)
  then show "t \<in> snd ` set (on_record db')" "set (on_record db) \<subseteq> set (on_record db')"
    "set (on_record db') \<subseteq> insert (i, t) (set (on_record db))"
    using upsert_record [OF up] by simp_all
qed

lemma enable_effects_record:
  "enable_effects t db = Inr (x, db') \<Longrightarrow> on_record db' = filter (\<lambda>(_, v). v \<noteq> t) (on_record db)"
  unfolding enable_effects_def tx_simps by (metis on_record_calls(6,8) snd_conv)

lemma transition_audit_record: "transition_audit actor target patch now db = Inr (x, db') \<Longrightarrow> on_record db' = on_record db"
proof -
  have a: "tx_keeps (\<lambda>db. on_record db = R) (tx_audit b c d now)" for R b c d
    by (rule tx_keepsI) (auto simp: tx_audit_def tx_simps)
  have "tx_keeps (\<lambda>db. on_record db = R) (transition_audit actor target patch now)" for R
    unfolding transition_audit_def Let_def by (intro keeping a) (auto split: option.splits user_status.splits intro!: keeping a)
  then show "transition_audit actor target patch now db = Inr (x, db') \<Longrightarrow> on_record db' = on_record db" by (rule tx_keepsD) simp_all
qed

lemma status_cases: "(v = None \<Longrightarrow> P) \<Longrightarrow> (v = Some User_Disabled \<Longrightarrow> P) \<Longrightarrow> (v = Some User_Active \<Longrightarrow> P) \<Longrightarrow> P"
  by (cases v) (auto intro: user_status.exhaust)

lemma update_where_nowhere: "\<not> list_ex hit rows \<Longrightarrow> update_where hit f rows = rows"
  by (rule update_where_none) (simp add: list_ex_iff)

lemma updateIfMatches_unique: "users_updateIfMatches i e p db = Inr (r, db') \<Longrightarrow> distinct (map u_id (db_users db'))"
  by (auto simp: users_updateIfMatches_def Let_def rbind_eq_Inr write_users_def mapConflict_def users_unique_def split: if_splits)

lemma updateIfMatches_found:
  assumes "users_updateIfMatches i e p db = Inr (r, db')" "list_ex (\<lambda>u. u_id u = i \<and> user_matches e u) (db_users db)"
  shows "r \<noteq> None"
proof -
  obtain u where "u \<in> set (db_users db)" "u_id u = i" using assms(2) by (auto simp: list_ex_iff)
  then have "i \<in> set (map u_id (db_users db'))"
    unfolding updateIfMatches_users(1) [OF assms(1)] by (auto simp: map_update_where userUpdateColumns_def)
  then have "users_findById db' i \<noteq> None" by (auto simp: users_findById_def find_by_def find_None_iff)
  then show ?thesis using updateIfMatches_users(2) [OF assms(1)] assms(2) by simp
qed

lemma transition_rest_record:
  assumes "transition_rest actor target patch i g now db = Inr (job, db')"
  shows "case up_status (update_of target patch) of
      Some User_Disabled \<Rightarrow> u_id target \<in> snd ` set (on_record db') \<and> set (on_record db) \<subseteq> set (on_record db') \<and>
        set (on_record db') \<subseteq> insert (i, u_id target) (set (on_record db))
    | Some User_Active \<Rightarrow> on_record db' = filter (\<lambda>(_, v). v \<noteq> u_id target) (on_record db)
    | None \<Rightarrow> on_record db' = on_record db"
proof -
  let ?s = "up_status (update_of target patch)"
  obtain db1 db2 db3 x y where steps:
      "(if ?s = Some User_Disabled then tx_bind (disable_effects i g (u_id target) (u_id actor) now) (\<lambda>job. tx_return (Some job))
        else tx_return None) db = Inr (job, db1)"
      "(if privilegeIncreased target patch \<and> ?s \<noteq> Some User_Disabled
        then tx_bind (tx_of (sessions_deleteForUser (u_id target))) (\<lambda>_. tx_return ()) else tx_return ()) db1 = Inr (x, db2)"
      "(if ?s = Some User_Active then enable_effects (u_id target) else tx_return ()) db2 = Inr (y, db3)"
    and "on_record db' = on_record db3"
    using assms transition_audit_record unfolding transition_rest_def Let_def tx_simps by blast
  moreover have "on_record db2 = on_record db1" 
    using steps(2) by (auto simp: tx_simps split: if_splits) (metis on_record_calls(7) snd_conv)
  ultimately show ?thesis
    by (cases ?s rule: status_cases) (auto simp: tx_simps enable_effects_record dest: disable_effects_record)
qed

lemma owed_enabled:
  assumes "revocations_owed owner db" "on_record db' = filter (\<lambda>(_, v). v \<noteq> t) (on_record db)"
    and "map u_id (db_users db') = map u_id (db_users db)"
    and "\<And>v. v \<in> set (db_users db') \<Longrightarrow> u_id v = t \<Longrightarrow> u_status v = User_Active"
    and "\<And>v. v \<in> set (db_users db') \<Longrightarrow> u_id v \<noteq> t \<Longrightarrow> v \<in> set (db_users db)"
  shows "revocations_owed owner db'"
proof -
  have "u_id v \<in> snd ` set (on_record db')" if v: "v \<in> set (db_users db')" "u_status v = User_Disabled" for v
  proof -
    have other: "u_id v \<noteq> t" using assms(4) [OF v(1)] v(2) by auto
    then have "u_id v \<in> snd ` set (on_record db)" using assms(1,5) v by (auto simp: revocations_owed_def)
    then show ?thesis using other by (force simp: assms(2))
  qed
  moreover have "\<forall>(i, u)\<in>set (on_record db'). owner i = u" using assms(1) by (auto simp: revocations_owed_def assms(2))
  moreover have "distinct (map u_id (db_users db'))" using assms(1) by (simp add: assms(3) revocations_owed_def)
  ultimately show ?thesis by (simp add: revocations_owed_def)
qed

text \<open>The accounts after a transition that found its row.\<close>

lemma transition_row:
  assumes w: "users_updateIfMatches (u_id target)
      (expect_user\<lparr>ue_role := Some (u_role target), ue_status := Some (u_status target)\<rparr>) (update_of target patch) db = Inr (Some u, db1)"
    and v: "v \<in> set (db_users db1)"
  shows "u_id v \<noteq> u_id target \<Longrightarrow> v \<in> set (db_users db)"
    "u_id v = u_id target \<Longrightarrow> \<exists>v0\<in>set (db_users db). transition_hits target v0 \<and> v = userUpdateColumns (update_of target patch) v0"
proof -
  let ?p = "update_of target patch"
  have db1: "db_users db1 = update_where (transition_hits target) (userUpdateColumns ?p) (db_users db)"
    using updateIfMatches_users(1) [OF w] by (simp add: user_matches_def expect_user_def)
  obtain v0 where v0: "v0 \<in> set (db_users db)" "v = (if transition_hits target v0 then userUpdateColumns ?p v0 else v0)"
    using v unfolding db1 set_update_where by (elim imageE) blast
  show "v \<in> set (db_users db)" if "u_id v \<noteq> u_id target"
    using that v0 by (auto simp: userUpdateColumns_def split: if_splits)
  obtain h where h: "h \<in> set (db_users db)" "transition_hits target h"
    using updateIfMatches_users(2) [OF w] by (auto simp: list_ex_iff user_matches_def expect_user_def split: if_splits)
  then have "userUpdateColumns ?p h \<in> set (db_users db1)" unfolding db1 set_update_where by (auto intro!: image_eqI [of _ _ h])
  moreover have "u_id (userUpdateColumns ?p h) = u_id target" using h by (simp add: userUpdateColumns_def)
  ultimately show "\<exists>v0\<in>set (db_users db). transition_hits target v0 \<and> v = userUpdateColumns ?p v0" if "u_id v = u_id target"
    using that v updateIfMatches_unique [OF w] h by (metis distinct_map inj_onD)
qed

text \<open>A transition keeps every disabled account's revocation on record.\<close>

lemma transition_keeps_owed:
  assumes "owner i = u_id target"
  shows "tx_keeps (revocations_owed owner) (transition_tx promotion actor target patch i g now)"
proof (rule tx_keepsI)
  fix db r db'
  assume owed: "revocations_owed owner db" and run: "transition_tx promotion actor target patch i g now db = Inr (r, db')"
  let ?p = "update_of target patch"
  obtain row db1 where w: "users_updateIfMatches (u_id target)
      (expect_user\<lparr>ue_role := Some (u_role target), ue_status := Some (u_status target)\<rparr>) ?p db = Inr (row, db1)"
    and after: "case row of None \<Rightarrow> r = None \<and> db' = db1
     | Some u \<Rightarrow> \<exists>job. transition_rest actor target patch i g now db1 = Inr (job, db') \<and> r = Some (u, job)"
    using transition_tx_Inr [OF run] by blast
  have db1: "db1 = db\<lparr>db_users := update_where (transition_hits target) (userUpdateColumns ?p) (db_users db)\<rparr>"
    using updateIfMatches_users(1) [OF w] by (simp add: user_matches_def expect_user_def)
  have rec1: "on_record db1 = on_record db" by (simp add: db1 on_record_def)
  show "revocations_owed owner db'"
  proof (cases row)
    case None
    then have "\<not> list_ex (transition_hits target) (db_users db)"
      using updateIfMatches_users(2) [OF w] updateIfMatches_found [OF w] by (auto simp: user_matches_def expect_user_def)
    then have "db1 = db" by (simp add: db1 update_where_nowhere)
    then show ?thesis using after None owed by simp
  next
    case (Some u)
    then obtain job where rest: "transition_rest actor target patch i g now db1 = Inr (job, db')" using after by auto
    have users: "db_users db' = db_users db1" using tx_keepsD [OF transition_rest_users' refl rest] by simp
    have ids: "map u_id (db_users db') = map u_id (db_users db)"
      unfolding users db1 by (simp add: map_update_where userUpdateColumns_def)
    note rec = transition_rest_record [OF rest, unfolded rec1]
    note row = transition_row [OF w [unfolded Some], folded users]
    have new: "u_status (userUpdateColumns ?p v) = (case up_status ?p of None \<Rightarrow> u_status v | Some st \<Rightarrow> st)" for v
      by (simp add: userUpdateColumns_def patched_def split: option.split)
    show ?thesis
    proof (cases "up_status ?p" rule: status_cases)
      case 1
      then have "revocations_owed owner db1" using owed unfolding db1 by (subst status_kept_owed) (simp_all add: new)
      then show ?thesis using owed_same [of db' db1] rec rec1 users 1 by simp
    next
      case 2
      have "u_id v \<in> snd ` set (on_record db') \<or> (\<exists>v0\<in>set (db_users db). u_id v0 = u_id v \<and> u_status v0 = User_Disabled)"
        if "v \<in> set (db_users db')" "u_status v = User_Disabled" for v
        using row(1) [OF that(1)] that(2) rec 2 by (cases "u_id v = u_id target") auto
      then show ?thesis by (intro owed_mono [OF owed assms _ _ ids]) (use rec 2 in simp_all)
    next
      case 3
      have "u_status v = User_Active" if "v \<in> set (db_users db')" "u_id v = u_id target" for v
        using row(2) [OF that] by (auto simp: new 3)
      then show ?thesis by (intro owed_enabled [OF owed _ ids]) (use rec row(1) 3 in simp_all)
    qed
  qed
qed

lemma tx_keeps_check [keeping]: "tx_keeps D (tx_check f)"
  by (rule tx_keepsI) (simp add: tx_check_Inr)

lemma status_write_keeps_owed:
  assumes "\<And>u. user_matches e u \<Longrightarrow> u_status (userUpdateColumns p u) = u_status u"
  shows "tx_keeps (revocations_owed owner) (users_updateIfMatches i e p)"
  by (rule tx_keepsI) (auto dest!: updateIfMatches_users(1) intro!: iffD2 [OF status_kept_owed] assms)

lemma requeue_keeps_owed:
  "tx_keeps (revocations_owed owner) (users_updateIfMatches i
     (expect_user\<lparr>ue_role := Some r, ue_status := Some User_Disabled\<rparr>) (no_user_patch\<lparr>up_status := Some User_Disabled\<rparr>))"
  by (rule status_write_keeps_owed) (simp add: user_matches_def expect_user_def userUpdateColumns_def patched_def)

lemma retry_keeps_owed: "owner i = targetId \<Longrightarrow> tx_keeps (revocations_owed owner) (retry_tx actor targetId i g now)"
  unfolding retry_tx_def by (intro keeping requeue_keeps_owed upsert_keeps_owed tx_keeps_record)

lemma ensure_owed_keeps_owed: "owner i = userId \<Longrightarrow> tx_keeps (revocations_owed owner) (ensure_owed_tx i g userId now)"
  unfolding ensure_owed_tx_def by (intro keeping requeue_keeps_owed upsert_keeps_owed)

lemma release_keeps_owed: "tx_keeps (revocations_owed owner) (release_tx actor targetId email tombstone g now)"
proof -
  have cancel: "tx_keeps (revocations_owed owner) (emailOutbox_cancelForReleasedAddress email g now)"
    by (rule tx_keepsI) (auto simp: emailOutbox_cancelForReleasedAddress_def Let_def revocations_owed_def on_record_def split: if_splits)
  have wrote: "tx_keeps (revocations_owed owner) (users_updateIfMatches i e
      (no_user_patch\<lparr>up_email := Some tombstone, up_email_verified := Some False\<rparr>))" for i e
    by (rule status_write_keeps_owed) (simp add: userUpdateColumns_def patched_def no_user_patch_def)
  show ?thesis unfolding release_tx_def release_effects_def
    by (intro keeping wrote cancel tx_keeps_record) simp_all
qed

lemma update_me_keeps_owed: "tx_keeps (revocations_owed owner) (update_me_tx user (update_me_patch hash user patch) now)"
proof -
  have wrote: "tx_keeps (revocations_owed owner) (users_update i (update_me_patch hash user patch))" for i
    by (rule tx_keepsI) (auto simp: users_update_def rbind_eq_Inr dest!: write_users_Inr
        simp: status_kept_owed update_me_patch_def userUpdateColumns_def patched_def no_user_patch_def)
  show ?thesis unfolding update_me_tx_def
    by (intro keeping wrote tx_keeps_record) simp_all
qed

text \<open>The worker drops a claimed revocation only when its account is not disabled.\<close>

lemma cancel_keeps_owed:
  assumes "owner (tj_id job) = tj_user_id job"
  shows "tx_keeps (revocations_owed owner) (cancel_tx job)"
proof (rule tx_keepsI)
  fix db x db'
  assume owed: "revocations_owed owner db" and run: "cancel_tx job db = Inr (x, db')"
  show "revocations_owed owner db'"
  proof (cases "map_option u_status (users_findById db (tj_user_id job)) = Some User_Disabled")
    case True
    then show ?thesis using run owed by (simp add: cancel_tx_def tx_simps)
  next
    case False
    then have db': "db' = db\<lparr>db_teardown := filter (\<lambda>j. \<not> teardown_is Td_Sending job j) (db_teardown db)\<rparr>"
      using run by (auto simp: cancel_tx_def tx_simps gatewayTeardownJobs_deleteClaimed_def simp del: map_option_eq_Some split: if_splits)
    have kept: "(i, u) \<in> set (on_record db')" if rec: "(i, u) \<in> set (on_record db)" "u \<noteq> tj_user_id job" for i u
    proof -
      obtain j where j: "j \<in> set (db_teardown db)" "i = tj_id j" "u = tj_user_id j" using rec by (auto simp: on_record_def)
      have "owner i = u" using owed rec(1) by (auto simp: revocations_owed_def)
      then have "\<not> teardown_is Td_Sending job j" using rec(2) assms j by (auto simp: teardown_is_def)
      then show ?thesis using j by (auto simp: db' on_record_def)
    qed
    have "u_id v \<noteq> tj_user_id job" if "v \<in> set (db_users db)" "u_status v = User_Disabled" for v
      using that False owed find_by_Some_iff [of u_id "db_users db" "u_id v" v] by (auto simp: users_findById_def revocations_owed_def)
    then have "u_id v \<in> snd ` set (on_record db')" if "v \<in> set (db_users db)" "u_status v = User_Disabled" for v
      using that owed kept by (fastforce simp: revocations_owed_def)
    moreover have "set (on_record db') \<subseteq> set (on_record db)" "db_users db' = db_users db" by (auto simp: db' on_record_def)
    ultimately show ?thesis using owed by (auto simp: revocations_owed_def)
  qed
qed

subsection \<open>The operations\<close>

text \<open>The other instances keep the rule too.\<close>

definition owed_kept :: "(string \<Rightarrow> string) \<Rightarrow> env \<Rightarrow> bool" where
  "owed_kept owner env \<longleftrightarrow> (\<forall>n db. revocations_owed owner db \<longrightarrow> revocations_owed owner (e_other env n db))"

abbreviation owes :: "(string \<Rightarrow> string) \<Rightarrow> env \<Rightarrow> 'a io \<Rightarrow> bool" where
  "owes owner env m \<equiv> keeps env (\<lambda>w. revocations_owed owner (w_db w)) m"

lemma stable_owed: "owed_kept owner env \<Longrightarrow> stable env (\<lambda>w. revocations_owed owner (w_db w))"
  by (rule stableI) (auto simp: owed_kept_def)

lemma owes_calls:
  assumes "owed_kept owner env"
  shows "owes owner env (io_read f)" "owes owner env io_now" "owes owner env io_newId" "owes owner env (io_guard b e)"
    "owes owner env (io_result r)"
  using stable_owed [OF assms] by (auto intro: keeps_stable)

lemma owes_lock: "owed_kept owner env \<Longrightarrow> owes owner env m \<Longrightarrow> owes owner env (io_lock key m)"
  by (rule keeps_lock [OF stable_owed])

lemma owes_tx: "owed_kept owner env \<Longrightarrow> tx_keeps (revocations_owed owner) m \<Longrightarrow> owes owner env (io_tx m)"
  using keeps_tx stable_owed by blast

text \<open>A minted id.\<close>

lemma keeps_mint: "stable env P \<Longrightarrow> (\<And>n. keeps env P (k (e_id env n))) \<Longrightarrow> keeps env P (io_bind io_newId k)"
  by (auto simp: keeps_def hoare_def io_bind_def io_newId_def stable_def split: prod.splits sum.splits)

lemma keeps_reading: "stable env P \<Longrightarrow> (\<And>db. keeps env P (k (f db))) \<Longrightarrow> keeps env P (io_bind (io_read f) k)"
  unfolding keeps_def
proof (rule hoare_bind [where R = "\<lambda>a w. P w \<and> (\<exists>db. a = f db)"])
  assume st: "stable env P" and k: "\<And>db. hoare env P (k (f db)) (\<lambda>_. P) (\<lambda>_. P)"
  show "hoare env P (io_read f) (\<lambda>a w. P w \<and> (\<exists>db. a = f db)) (\<lambda>_. P)" by (rule hoare_read [OF st]) auto
  show "hoare env (\<lambda>w. P w \<and> (\<exists>db. a = f db)) (k a) (\<lambda>_. P) (\<lambda>_. P)" for a
  proof (cases "\<exists>db. a = f db")
    case True
    then obtain db where a: "a = f db" by blast
    show ?thesis unfolding a by (rule hoare_weaken [OF k [of db]]) auto
  qed (simp add: hoare_def)
qed

lemma find_user_id: "users_findById db i = Some u \<Longrightarrow> u_id u = i"
  by (auto simp: users_findById_def find_by_def find_Some_iff)

lemma owes_final:
  "owes owner env m \<Longrightarrow> revocations_owed owner (w_db w) \<Longrightarrow> revocations_owed owner (w_db (snd (m env w)))"
  using hoare_final [OF keepsD] by fastforce

lemma unconcerned_owed: "unconcerned (revocations_owed owner)"
  by (simp add: unconcerned_def revocations_owed_def on_record_def)

lemma runGatewayTeardown_owes:
  assumes env: "owed_kept owner env" and dis: "owes owner env disable"
  shows "owes owner env (runGatewayTeardown disable userId job)"
proof -
  note r = owes_calls [OF env] owes_lock [OF env] owes_tx [OF env] tx_keeps_record dis keeping
  have claim: "owes owner env (claim_attempt userId job)"
    unfolding claim_attempt_def
    by (cases job, simp add: keeps_throw, simp only: option.case)
       (intro r; auto split: teardown_status.splits intro!: r)
  have att: "owes owner env (attempt_claimed disable userId c)" for c
    unfolding attempt_claimed_def by (intro r) simp_all
  show ?thesis unfolding runGatewayTeardown_def by (intro r claim att) simp_all
qed

lemma inline_teardown_owes:
  "owed_kept owner env \<Longrightarrow> owes owner env disable \<Longrightarrow> owes owner env (inline_teardown disable a t job)"
  unfolding inline_teardown_def
  by (intro keeping owes_calls runGatewayTeardown_owes owes_tx tx_keeps_record)

lemma apply_update_owes:
  assumes env: "owed_kept owner env" and dis: "owes owner env disable" "owes owner env restore"
    and ids: "\<And>n. owner (e_id env n) = u_id target"
  shows "owes owner env (apply_update promotion disable restore actor target patch)"
proof -
  have run: "owes owner env (io_bind io_newId (\<lambda>i. io_bind io_newId (\<lambda>g. io_bind io_now (\<lambda>now.
      io_tx (transition_tx promotion actor target patch i g now)))))"
    by (rule keeps_mint [OF stable_owed [OF env]])
       (intro keeping owes_calls [OF env] owes_tx [OF env] transition_keeps_owed ids)
  have keys: "owes owner env (under_account_keys target patch m)" if "owes owner env m" for m :: "'b io"
    using that unfolding under_account_keys_def Let_def by (auto intro!: owes_lock [OF env])
  show ?thesis unfolding apply_update_def
    by (intro keeping keys run owes_calls [OF env] inline_teardown_owes [OF env] dis)
qed

lemma updateUser_owes:
  assumes env: "owed_kept owner env" and dis: "\<And>t. owes owner env (disable t)" "\<And>t. owes owner env (restore t)"
    and ids: "\<And>n. owner (e_id env n) = targetId"
  shows "owes owner env (updateUser promotion disable restore actor targetId patch)"
proof -
  note r = owes_calls [OF env] keeping
  have checks: "owes owner env (check_name n)" "owes owner env (check_org o1)" "owes owner env (check_role actor target patch)"
    "owes owner env (check_status actor target patch)" for n o1 target
    unfolding check_name_def check_org_def check_role_def check_status_def check_other_super_admin_def
    by (auto split: option.splits intro!: r)
  have rep: "owes owner env (repeat_enable (restore t) actor target patch)" for t target
    unfolding repeat_enable_def by (intro r dis(2) owes_tx [OF env] tx_keeps_record)
  have app: "owes owner env (apply_update promotion (disable t) (restore t) actor target patch)" if "u_id target = targetId" for t target
    using that ids by (intro apply_update_owes [OF env dis]) simp
  show ?thesis unfolding updateUser_def
    by (rule keeps_reading [OF stable_owed [OF env]], rule keeps_option, rule keeps_throw) (intro r checks rep app find_user_id)
qed

lemma retryGatewayTeardown_owes:
  assumes env: "owed_kept owner env" and dis: "\<And>t. owes owner env (disable t)" and ids: "\<And>n. owner (e_id env n) = targetId"
  shows "owes owner env (retryGatewayTeardown disable actor targetId)"
proof -
  note r = owes_calls [OF env] owes_lock [OF env] keeping
  have tx: "owes owner env (io_bind io_newId (\<lambda>i. io_bind io_newId (\<lambda>g. io_bind io_now (\<lambda>now. io_tx (retry_tx actor t i g now)))))"
    if "t = targetId" for t
    by (rule keeps_mint [OF stable_owed [OF env]]) (intro r owes_tx [OF env] retry_keeps_owed, simp add: ids that)
  show ?thesis unfolding retryGatewayTeardown_def
    by (rule keeps_reading [OF stable_owed [OF env]], rule keeps_option, rule keeps_throw)
       (intro r tx inline_teardown_owes [OF env] dis find_user_id)
qed

text \<open>The jobs a worker claims name their accounts.\<close>

lemma claimed_owner:
  assumes "revocations_owed owner db" "gatewayTeardownJobs_claimDue g stamp now n db = (jobs, db')" "j \<in> set jobs"
  shows "owner (tj_id j) = tj_user_id j"
proof -
  have "on_record db' = on_record db" using on_record_calls(4) [of g stamp now n db] assms(2) by simp
  moreover have "j \<in> set (db_teardown db')" using assms(2,3) by (auto simp: gatewayTeardownJobs_claimDue_def Let_def)
  ultimately have "(tj_id j, tj_user_id j) \<in> set (on_record db)" unfolding on_record_def by (metis (mono_tags) image_eqI list.set_map)
  then show ?thesis using assms(1) by (auto simp: revocations_owed_def)
qed

lemma hoare_teardown_claim:
  assumes env: "owed_kept owner env"
  shows "hoare env (\<lambda>w. revocations_owed owner (w_db w)) teardown_claim_one
    (\<lambda>j w. revocations_owed owner (w_db w) \<and> (case j of None \<Rightarrow> True | Some job \<Rightarrow> owner (tj_id job) = tj_user_id job))
    (\<lambda>_ w. revocations_owed owner (w_db w))"
proof -
  let ?P = "\<lambda>w. revocations_owed owner (w_db w)" and ?named = "\<lambda>j. owner (tj_id j) = tj_user_id j"
  note st = stable_owed [OF env]
  have tx: "hoare env ?P (io_tx (tx_of (gatewayTeardownJobs_claimDue g stamp now 1)))
      (\<lambda>jobs w. ?P w \<and> list_all ?named jobs) (\<lambda>_. ?P)" for g stamp now
  proof (rule hoare_tx [OF st])
    fix w jobs db'
    assume "?P w" "tx_of (gatewayTeardownJobs_claimDue g stamp now 1) (w_db w) = Inr (jobs, db')"
    then have run: "gatewayTeardownJobs_claimDue g stamp now 1 (w_db w) = (jobs, db')" by (simp add: tx_of_def)
    then have "revocations_owed owner db'"
      using tx_keepsD [OF tx_keeps_record(1)] \<open>?P w\<close> on_record_calls(4) teardown_calls_users(7) by (metis tx_of_def)
    then show "(?P (w\<lparr>w_db := db'\<rparr>) \<and> list_all ?named jobs) \<and> (\<forall>f. ?P (w\<lparr>w_db := db'\<rparr>))"
      using claimed_owner [OF \<open>?P w\<close> run] by (simp add: list_all_iff)
  qed
  have last1: "hoare env (\<lambda>w. ?P w \<and> list_all ?named jobs) (io_return (case jobs of [] \<Rightarrow> None | j # _ \<Rightarrow> Some j))
      (\<lambda>j w. ?P w \<and> (case j of None \<Rightarrow> True | Some job \<Rightarrow> ?named job)) (\<lambda>_. ?P)" for jobs
    by (rule hoare_return) (auto split: list.split)
  show ?thesis unfolding teardown_claim_one_def
    by (intro hoare_quiet [OF quiet_now st] hoare_quiet [OF quiet_newId st] hoare_bind [OF tx last1])
qed

lemma teardown_loop_owes:
  assumes env: "owed_kept owner env"
    and job: "\<And>x t job. owner (tj_id job) = tj_user_id job \<Longrightarrow> owes owner env (run_teardown_job disable x t job)"
  shows "owes owner env (teardown_loop disable n random t)"
proof (induction n arbitrary: t)
  case (Suc n)
  let ?P = "\<lambda>w. revocations_owed owner (w_db w)"
  let ?R = "\<lambda>r w. ?P w \<and> (case r of Inr (Some job) \<Rightarrow> owner (tj_id job) = tj_user_id job | _ \<Rightarrow> True)"
  have claim: "hoare env ?P (io_try teardown_claim_one) ?R (\<lambda>_. ?P)"
    by (rule hoare_try, rule hoare_weaken [OF hoare_teardown_claim [OF env]]) (auto split: option.splits)
  have step: "hoare env (?R (Inr (Some j))) (io_bind (io_try (run_teardown_job disable x t1 j)) (\<lambda>ran. teardown_loop disable n random (h ran)))
      (\<lambda>_. ?P) (\<lambda>_. ?P)" for j x t1 h
  proof (cases "owner (tj_id j) = tj_user_id j")
    case True
    then have "owes owner env (io_bind (io_try (run_teardown_job disable x t1 j)) (\<lambda>ran. teardown_loop disable n random (h ran)))"
      by (intro keeping job Suc.IH)
    then show ?thesis using True by (simp add: keeps_def)
  qed (simp add: hoare_def)
  show ?case unfolding keeps_def teardown_loop.simps Let_def
    by (rule hoare_bind [OF claim], rule hoare_sum, rule hoare_return, simp, rule hoare_option, rule hoare_return, simp, rule step)
qed (simp add: keeps_return)

lemma teardown_runTick_owes:
  assumes env: "owed_kept owner env" and dis: "\<And>t. owes owner env (disable t)"
  shows "owes owner env (teardown_runTick disable n random)"
proof -
  note r = owes_calls [OF env] owes_lock [OF env] owes_tx [OF env] keeping
  have cancel: "owes owner env (cancel_counted t job)" if "owner (tj_id job) = tj_user_id job" for t job
    unfolding cancel_counted_def cancelJob_def by (intro r cancel_keeps_owed that)
  have job: "owes owner env (run_teardown_job disable x t job)" if "owner (tj_id job) = tj_user_id job" for x t job
    unfolding run_teardown_job_def
    by (intro r cancel that runGatewayTeardown_owes [OF env dis] tx_keeps_record) simp_all
  show ?thesis unfolding teardown_runTick_def teardown_releaseStale_def
    by (intro r teardown_loop_owes [OF env job] tx_keeps_record) simp_all
qed

text \<open>
  C20. Every disabled account has its gateway revocation on record: queued, under way or done. If that
  holds, it holds after an update of an account, the self-service profile, the release of an address, the
  operator's retry, the re-queueing of an abandoned identity and a tick of the revocation worker, however
  these end: neither a crash of the gateway nor a lost answer of the store leaves an account disabled with
  nothing that remembers its live credentials, and the worker drops a revocation only of an account that is
  not disabled. The others keep the same rule; an id that is minted for a new row is of the account at hand.
\<close>

theorem disabled_accounts_owe_revocation:
  assumes "owed_kept owner env" "revocations_owed owner (w_db w)" "\<forall>n. owner (e_id env n) = targetId"
  shows "revocations_owed owner (w_db (snd (updateUser promotion (disableGatewayAccess fuel derivedId namespace)
        (restoreGatewayAccess fuel) actor targetId patch env w))) \<and>
    revocations_owed owner (w_db (snd (updateMe verify hash hashToken ttlSeconds actor profile env w))) \<and>
    revocations_owed owner (w_db (snd (releaseAddress actor victim email env w))) \<and>
    revocations_owed owner (w_db (snd (retryGatewayTeardown (disableGatewayAccess fuel derivedId namespace) actor targetId env w))) \<and>
    revocations_owed owner (w_db (snd (ensureTeardownOwed targetId env w))) \<and>
    revocations_owed owner (w_db (snd (teardown_runTick (disableGatewayAccess fuel derivedId namespace) n random env w)))"
proof -
  note env = assms(1)
  note r = owes_calls [OF env] owes_lock [OF env] owes_tx [OF env] keeping
  have ids: "owner (e_id env n) = targetId" for n using assms(3) by simp
  have dis: "owes owner env (disableGatewayAccess fuel derivedId namespace t)" and res: "owes owner env (restoreGatewayAccess fuel t)" for t
    by (rule disableGatewayAccess_keeps restoreGatewayAccess_keeps; intro stable_owed [OF env] unconcerned_owed)+
  have up: "owes owner env (updateUser promotion (disableGatewayAccess fuel derivedId namespace) (restoreGatewayAccess fuel) actor targetId patch)"
    by (rule updateUser_owes [OF env dis res ids])
  have me: "owes owner env (updateMe verify hash hashToken ttlSeconds actor profile)"
    unfolding updateMe_def check_name_def change_me_def issueSession_def io_mint_def Let_def by (intro r update_me_keeps_owed)
  have rel: "owes owner env (releaseAddress actor victim email)"
    unfolding releaseAddress_def Let_def by (intro r release_keeps_owed)
  have ens: "owes owner env (ensureTeardownOwed targetId)"
    unfolding ensureTeardownOwed_def
    by (rule owes_lock [OF env], rule keeps_mint [OF stable_owed [OF env]]) (intro r ensure_owed_keeps_owed ids)
  show ?thesis
    by (intro conjI owes_final [OF up assms(2)] owes_final [OF me assms(2)] owes_final [OF rel assms(2)]
        owes_final [OF retryGatewayTeardown_owes [OF env dis ids] assms(2)] owes_final [OF ens assms(2)]
        owes_final [OF teardown_runTick_owes [OF env dis] assms(2)])
qed

theorem disabled_accounts_owe_revocation_witness:
  "revocations_owed (\<lambda>_. ''u1'') (w_db (snd (updateUser (\<lambda>_ _ _. Inr ()) (disableGatewayAccess 2 id ''ns'') (restoreGatewayAccess 2)
     (example_user ''s1'' Super_Admin) ''u1''
     \<lparr>ux_role = None, ux_status = Some User_Disabled, ux_org_id = None, ux_display_name = None\<rparr> ex_post_env ex_post)))"
proof -
  have "owed_kept (\<lambda>_. ''u1'') ex_post_env" by (simp add: owed_kept_def ex_post_env_def)
  moreover have "revocations_owed (\<lambda>_. ''u1'') (w_db ex_post)" by (simp add: revocations_owed_def on_record_def ex_post_def)
  moreover have "\<forall>n. (\<lambda>_. ''u1'') (e_id ex_post_env n) = ''u1''" by simp
  ultimately show ?thesis by (rule conjunct1 [OF disabled_accounts_owe_revocation])
qed

end
