(* ===== verification/Teardown_Done.thy ===== *)
theory Teardown_Done
  imports Teardown_Safety
begin

section \<open>What a finished revocation took down\<close>

text \<open>
  An attempt at a revocation, from the claim of its row to the mark that it is done, against a gateway and a
  store that answer anything: what may stand between the world it started in and the world it left
  (\<open>tearing\<close>, \<open>intact\<close>), what each of the nested loops of the teardown adds to that, and the theorem that a row
  says done only after everything the account had at the gateway was taken down.
\<close>

text \<open>The consumers on which an account has live credential rows.\<close>

definition live_consumers :: "string \<Rightarrow> portal_db \<Rightarrow> string set" where
  "live_consumers userId db =
     cm_consumer_id ` {r \<in> set (db_credentials db). cm_user_id r = userId \<and> cm_status r \<in> set LIVE_CREDENTIAL_STATUSES}"

text \<open>A consumer is down once, since world \<open>w0\<close>, the gateway said that it does not exist, or acknowledged its
  deletion, or acknowledged the removal of all its groups, with no later write of groups, and of all its
  credentials.\<close>

definition said_absent :: "env \<Rightarrow> nat \<Rightarrow> nat \<Rightarrow> string \<Rightarrow> bool" where
  "said_absent env from1 until1 c \<longleftrightarrow> (\<exists>n. from1 \<le> n \<and> n < until1 \<and> (e_find env n c = Inr False \<or> e_get env n c = Inr None))"

definition acts_since :: "world \<Rightarrow> world \<Rightarrow> act list" where
  "acts_since w0 w = drop (length (w_acts w0)) (w_acts w)"

definition puts_since :: "world \<Rightarrow> world \<Rightarrow> string \<Rightarrow> put list" where
  "puts_since w0 w c = filter (\<lambda>p. pt_consumer p = c) (drop (length (w_puts w0)) (w_puts w))"

abbreviation acked :: "gateway_act \<Rightarrow> act" where
  "acked a \<equiv> \<lparr>ac_act = a, ac_acked = True\<rparr>"

definition ungrouped :: "world \<Rightarrow> world \<Rightarrow> string \<Rightarrow> bool" where
  "ungrouped w0 w c \<longleftrightarrow> puts_since w0 w c \<noteq> [] \<and> last (puts_since w0 w c) = \<lparr>pt_consumer = c, pt_groups = [], pt_acked = True\<rparr>"

definition down :: "env \<Rightarrow> world \<Rightarrow> string \<Rightarrow> world \<Rightarrow> bool" where
  "down env w0 c w \<longleftrightarrow> said_absent env (w_tick w0) (w_tick w) c \<or> acked (Delete_Consumer c) \<in> set (acts_since w0 w) \<or>
     (ungrouped w0 w c \<and> (\<forall>type\<in>set CREDENTIAL_TYPES. acked (Delete_Credentials c type) \<in> set (acts_since w0 w)))"

text \<open>While an account is torn down: \<open>S\<close> bounds where it still has live rows, \<open>D\<close> is down, and no live row was
  revoked but on a consumer that is down.\<close>

definition tearing :: "env \<Rightarrow> string \<Rightarrow> world \<Rightarrow> string set \<Rightarrow> string set \<Rightarrow> world \<Rightarrow> bool" where
  "tearing env u w0 S D w \<longleftrightarrow> w_tick w0 \<le> w_tick w \<and> length (w_acts w0) \<le> length (w_acts w) \<and> length (w_puts w0) \<le> length (w_puts w) \<and>
     live_consumers u (w_db w0) \<subseteq> live_consumers u (w_db w) \<union> {c. down env w0 c w} \<and>
     live_consumers u (w_db w) \<subseteq> S \<and> (\<forall>c\<in>D. down env w0 c w) \<and> distinct (map cm_id (db_credentials (w_db w)))"

text \<open>The others leave the account's own rows alone; the ids of credential rows are the primary key.\<close>

definition minds_account :: "string \<Rightarrow> env \<Rightarrow> bool" where
  "minds_account u env \<longleftrightarrow> (\<forall>n db.
     (distinct (map cm_id (db_credentials db)) \<longrightarrow> distinct (map cm_id (db_credentials (e_other env n db)))) \<and>
     filter (\<lambda>r. cm_user_id r = u) (db_credentials (e_other env n db)) = filter (\<lambda>r. cm_user_id r = u) (db_credentials db) \<and>
     filter (\<lambda>c. co_user_id c = u) (db_consumers (e_other env n db)) = filter (\<lambda>c. co_user_id c = u) (db_consumers db))"

lemma live_consumers_own:
  "filter (\<lambda>r. cm_user_id r = u) (db_credentials db) = filter (\<lambda>r. cm_user_id r = u) (db_credentials db') \<Longrightarrow>
     live_consumers u db = live_consumers u db'"
  (is "?own db = ?own db' \<Longrightarrow> _")
proof -
  have eq: "live_consumers u db = cm_consumer_id ` {r \<in> set (?own db). cm_status r \<in> set LIVE_CREDENTIAL_STATUSES}" for db
    by (auto simp: live_consumers_def)
  show "?own db = ?own db' \<Longrightarrow> live_consumers u db = live_consumers u db'" unfolding eq by simp
qed

lemma down_tick: "down env w0 c w \<Longrightarrow> w_tick w \<le> w_tick w' \<Longrightarrow> w_acts w' = w_acts w \<Longrightarrow> w_puts w' = w_puts w \<Longrightarrow> down env w0 c w'"
  by (auto simp: down_def said_absent_def acts_since_def ungrouped_def puts_since_def)

lemma tearing_later:
  assumes "tearing env u w0 S D w" "w_tick w \<le> w_tick w'" "w_acts w' = w_acts w" "w_puts w' = w_puts w"
    "live_consumers u (w_db w') = live_consumers u (w_db w)"
    "distinct (map cm_id (db_credentials (w_db w))) \<Longrightarrow> distinct (map cm_id (db_credentials (w_db w')))"
  shows "tearing env u w0 S D w'"
  using assms(1) down_tick [OF _ assms(2-4), of env w0] assms(2-) unfolding tearing_def by (auto 4 4)

lemma stable_tearing:
  assumes "minds_account u env"
  shows "stable env (tearing env u w0 S D)"
proof -
  have live: "live_consumers u (e_other env n db) = live_consumers u db" for n db
    by (rule live_consumers_own) (use assms in \<open>simp add: minds_account_def\<close>)
  show ?thesis unfolding stable_def
    by (intro allI impI conjI; erule tearing_later) (use assms in \<open>simp_all add: advance_def minds_account_def live\<close>)
qed

subsection \<open>The steps of a teardown\<close>

lemma down_act:
  assumes "length (w_acts w0) \<le> length (w_acts w)" "length (w_puts w0) \<le> length (w_puts w)"
  shows "down env w0 c w \<Longrightarrow> down env w0 c (w\<lparr>w_acts := w_acts w @ [a]\<rparr>)"
    "down env w0 c w \<Longrightarrow> down env w0 c (w\<lparr>w_puts := w_puts w @ [\<lparr>pt_consumer = c', pt_groups = [], pt_acked = True\<rparr>]\<rparr>)"
  using assms by (auto simp: down_def acts_since_def ungrouped_def puts_since_def)

lemma tearing_act:
  "tearing env u w0 S D w \<Longrightarrow> tearing env u w0 S D (w\<lparr>w_acts := w_acts w @ [a]\<rparr>)"
  "tearing env u w0 S D w \<Longrightarrow> tearing env u w0 S D (w\<lparr>w_puts := w_puts w @ [\<lparr>pt_consumer = c', pt_groups = [], pt_acked = True\<rparr>]\<rparr>)"
  using down_act [of w0 w env] unfolding tearing_def by (auto 4 4)

lemma hoare_delete_consumer:
  assumes "minds_account u env"
  shows "hoare env (tearing env u w0 S D) (edge_act (Delete_Consumer c)) (\<lambda>_. tearing env u w0 S (insert c D)) (\<lambda>_ _. True)"
proof (rule hoare_act [OF stable_tearing [OF assms]])
  fix w
  assume "tearing env u w0 S D w"
  then show "tearing env u w0 S (insert c D) (w\<lparr>w_acts := w_acts w @ [acked (Delete_Consumer c)]\<rparr>)"
    using tearing_act(1) [of env u w0 S D w "acked (Delete_Consumer c)"]
    by (auto simp: tearing_def down_def [of _ _ c] acts_since_def)
qed simp

text \<open>An answer of the gateway, with the number of the call.\<close>

lemma hoare_asked:
  assumes "minds_account u env"
  shows "hoare env (tearing env u w0 S D) (edge_get c)
      (\<lambda>there. tearing env u w0 S (if there then D else insert c D)) (\<lambda>_ _. True)"
    "hoare env (tearing env u w0 S D) (edge_verification c)
      (\<lambda>snapshot. tearing env u w0 S (if snapshot = None then insert c D else D)) (\<lambda>_ _. True)"
proof -
  have absent: "tearing env u w0 S (insert c D) (advance env w)"
    if "tearing env u w0 S D w" "e_find env (w_tick w) c = Inr False \<or> e_get env (w_tick w) c = Inr None" for w
  proof -
    have "w_tick w0 \<le> w_tick w" using that(1) by (simp add: tearing_def)
    then have "down env w0 c (advance env w)" using that(2) by (auto simp: down_def said_absent_def advance_def)
    moreover have "tearing env u w0 S D (advance env w)" using stable_tearing [OF assms] that(1) by (auto simp: stable_def)
    ultimately show ?thesis by (simp add: tearing_def)
  qed
  have later: "tearing env u w0 S D (advance env w)" if "tearing env u w0 S D w" for w
    using stable_tearing [OF assms] that by (auto simp: stable_def)
  show "hoare env (tearing env u w0 S D) (edge_get c)
      (\<lambda>there. tearing env u w0 S (if there then D else insert c D)) (\<lambda>_ _. True)"
    using absent later by (auto simp: hoare_def edge_get_def split: sum.splits)
  show "hoare env (tearing env u w0 S D) (edge_verification c)
      (\<lambda>snapshot. tearing env u w0 S (if snapshot = None then insert c D else D)) (\<lambda>_ _. True)"
    using absent later by (auto simp: hoare_def edge_verification_def split: sum.splits)
qed

lemma revoke_rows_credentials:
  "db_credentials (snd (revoke_rows c db)) = map (\<lambda>r. if cm_id r \<in> cm_id ` set (credentials_listByConsumer db c LIVE_CREDENTIAL_STATUSES)
     then r\<lparr>cm_status := Cr_Revoked\<rparr> else r) (db_credentials db)"
proof -
  have "db_credentials (fold (\<lambda>c. credentials_setStatus (cm_id c) Cr_Revoked) rows db) =
      map (\<lambda>r. if cm_id r \<in> cm_id ` set rows then r\<lparr>cm_status := Cr_Revoked\<rparr> else r) (db_credentials db)" for rows
    by (induction rows arbitrary: db) (auto simp: credentials_setStatus_def update_where_def)
  then show ?thesis by (simp add: revoke_rows_def Let_def)
qed

lemma live_after_revoke:
  assumes "distinct (map cm_id (db_credentials db))"
  shows "live_consumers u (snd (revoke_rows c db)) = live_consumers u db - {c}"
    "distinct (map cm_id (db_credentials (snd (revoke_rows c db))))"
proof -
  let ?live = "\<lambda>r. cm_consumer_id r = c \<and> cm_status r \<in> set LIVE_CREDENTIAL_STATUSES"
  have hit: "cm_id r \<in> cm_id ` set (credentials_listByConsumer db c LIVE_CREDENTIAL_STATUSES) \<longleftrightarrow> ?live r"
    if "r \<in> set (db_credentials db)" for r
    using that assms by (auto simp: credentials_listByConsumer_def distinct_map inj_on_def)
  then have rows: "db_credentials (snd (revoke_rows c db)) =
      map (\<lambda>r. if ?live r then r\<lparr>cm_status := Cr_Revoked\<rparr> else r) (db_credentials db)"
    unfolding revoke_rows_credentials by (intro map_cong) auto
  show "distinct (map cm_id (db_credentials (snd (revoke_rows c db))))"
    using assms by (simp add: rows comp_def if_distrib [of cm_id] cong: if_cong)
  show "live_consumers u (snd (revoke_rows c db)) = live_consumers u db - {c}"
  proof -
    let ?own = "\<lambda>r. cm_user_id r = u \<and> cm_status r \<in> set LIVE_CREDENTIAL_STATUSES"
    have "filter ?own (map (\<lambda>r. if ?live r then r\<lparr>cm_status := Cr_Revoked\<rparr> else r) rs) =
        filter (\<lambda>r. cm_consumer_id r \<noteq> c) (filter ?own rs)" for rs
      by (induction rs) (auto simp: LIVE_CREDENTIAL_STATUSES_def)
    then have "filter ?own (db_credentials (snd (revoke_rows c db))) = filter (\<lambda>r. cm_consumer_id r \<noteq> c) (filter ?own (db_credentials db))"
      unfolding rows .
    note revoked = this
    have eq: "live_consumers u db = cm_consumer_id ` set (filter ?own (db_credentials db))" for db
      by (simp add: live_consumers_def)
    show ?thesis unfolding eq revoked by auto
  qed
qed

lemma hoare_revokeRowsFor:
  assumes "minds_account u env" "c \<in> D"
  shows "hoare env (tearing env u w0 S D) (revokeRowsFor c) (\<lambda>_. tearing env u w0 (S - {c}) D) (\<lambda>_ _. True)"
  unfolding revokeRowsFor_def
proof (rule hoare_tx [OF stable_tearing [OF assms(1)]])
  fix w n db'
  assume t: "tearing env u w0 S D w" and "tx_of (revoke_rows c) (w_db w) = Inr (n, db')"
  then have db': "db' = snd (revoke_rows c (w_db w))" by (simp add: tx_of_def prod_eq_iff)
  have "distinct (map cm_id (db_credentials (w_db w)))" using t by (simp add: tearing_def)
  then have "live_consumers u db' = live_consumers u (w_db w) - {c}" "distinct (map cm_id (db_credentials db'))"
    unfolding db' by (rule live_after_revoke)+
  moreover have "down env w0 x (w\<lparr>w_db := db'\<rparr>) = down env w0 x w" for x
    by (simp add: down_def acts_since_def ungrouped_def puts_since_def)
  ultimately show "tearing env u w0 (S - {c}) D (w\<lparr>w_db := db'\<rparr>) \<and> (\<forall>f. True)"
    using t assms(2) by (auto simp: tearing_def)
qed simp

subsection \<open>The identities of an account\<close>

lemma tearing_mono: "tearing env u w0 S D w \<Longrightarrow> S \<subseteq> S' \<Longrightarrow> D' \<subseteq> D \<Longrightarrow> tearing env u w0 S' D' w"
  by (auto simp: tearing_def)

lemma tearing_db:
  "live_consumers u db' = live_consumers u (w_db w) \<Longrightarrow> map cm_id (db_credentials db') = map cm_id (db_credentials (w_db w)) \<Longrightarrow>
     tearing env u w0 S D (w\<lparr>w_db := db'\<rparr>) = tearing env u w0 S D w"
  by (simp add: tearing_def down_def acts_since_def ungrouped_def puts_since_def)

text \<open>A transaction that leaves the credential rows alone.\<close>

lemma hoare_tx_aside:
  assumes "minds_account u env" "\<And>db a db'. m db = Inr (a, db') \<Longrightarrow> db_credentials db' = db_credentials db"
  shows "hoare env (tearing env u w0 S D) (io_tx m) (\<lambda>_. tearing env u w0 S D) (\<lambda>_ _. True)"
  by (rule hoare_tx [OF stable_tearing [OF assms(1)]]) (use assms(2) in \<open>auto simp: tearing_db live_consumers_def\<close>)

lemma hoare_aside:
  "quiet env m \<Longrightarrow> minds_account u env \<Longrightarrow> (\<And>a. hoare env (tearing env u w0 S D) (k a) Q (\<lambda>_ _. True)) \<Longrightarrow>
     hoare env (tearing env u w0 S D) (io_bind m k) Q (\<lambda>_ _. True)"
  by (rule hoare_quiet [OF _ stable_tearing]) auto

lemma hoare_locked:
  "minds_account u env \<Longrightarrow> hoare env (tearing env u w0 S D) m Q (\<lambda>_ _. True) \<Longrightarrow>
     hoare env (tearing env u w0 S D) (io_lock key m) Q (\<lambda>_ _. True)"
  by (rule hoare_lock [OF stable_tearing]) auto

lemma quiet_assertStillDisabled: "quiet env (assertStillDisabled u)"
  unfolding assertStillDisabled_def by (intro quiets quiet_throw)

lemma hoare_disable_foreign:
  assumes env: "minds_account u env"
  shows "hoare env (tearing env u w0 S D) (disable_foreign u c acc) (\<lambda>_. tearing env u w0 (S - {c}) D) (\<lambda>_ _. True)"
proof -
  let ?T = "tearing env u w0" and ?E = "\<lambda>_ _. True"
  have gone: "hoare env (?T S (if live then D else insert c D)) (if live then edge_act (Delete_Consumer c) else io_return ())
      (\<lambda>_. ?T S (insert c D)) ?E" for live
    using hoare_delete_consumer [OF env] by (auto intro: hoare_return)
  have drop1: "hoare env (?T (S - {c}) (insert c D)) (io_tx (tx_of (\<lambda>db. ((), consumers_dropFerrumId c u db))))
      (\<lambda>_. ?T (S - {c}) (insert c D)) ?E"
    by (rule hoare_tx_aside [OF env]) (auto simp: tx_of_def consumers_dropFerrumId_def split: option.splits if_splits)
  have body: "hoare env (?T S D) (io_bind (assertStillDisabled u) (\<lambda>_. io_bind (edge_get c) (\<lambda>live.
      io_bind (if live then edge_act (Delete_Consumer c) else io_return ()) (\<lambda>_. io_bind (revokeRowsFor c) (\<lambda>count.
      io_bind (io_tx (tx_of (\<lambda>db. ((), consumers_dropFerrumId c u db)))) (\<lambda>_. io_return count))))))
      (\<lambda>_. ?T (S - {c}) D) ?E"
    by (intro hoare_aside [OF quiet_assertStillDisabled env] hoare_bind [OF hoare_asked(1) [OF env]] hoare_bind [OF gone]
        hoare_bind [OF hoare_revokeRowsFor [OF env]] hoare_bind [OF drop1] hoare_return) (auto intro: tearing_mono)
  show ?thesis unfolding disable_foreign_def
    by (rule hoare_bind [OF hoare_locked [OF env body]], rule hoare_return)
qed

lemma tearing_lens:
  "tearing env u w0 S D w \<Longrightarrow> length (w_acts w0) \<le> length (w_acts w) \<and> length (w_puts w0) \<le> length (w_puts w)"
  by (simp add: tearing_def)

lemma hoare_strip_consumer:
  assumes env: "minds_account u env"
  shows "hoare env (tearing env u w0 S D) (strip_consumer c) (\<lambda>_. tearing env u w0 S (insert c D)) (\<lambda>_ _. True)"
proof -
  let ?T = "tearing env u w0 S D" and ?E = "\<lambda>_ _. True"
  let ?J = "\<lambda>past (_ :: unit) w. ?T w \<and> ungrouped w0 w c \<and> (\<forall>type\<in>set past. acked (Delete_Credentials c type) \<in> set (acts_since w0 w))"
  have st: "stable env (?J past x)" for past x
    using stable_tearing [OF env, of w0 S D]
    by (auto simp: stable_def advance_def ungrouped_def puts_since_def acts_since_def)
  have put: "hoare env ?T (edge_replace c []) (?J []) ?E"
    by (rule hoare_replace [OF stable_tearing [OF env]])
       (auto simp: tearing_act ungrouped_def puts_since_def dest: tearing_lens)
  have del: "hoare env (?J past x) (edge_act (Delete_Credentials c type)) (?J (past @ [type])) ?E" for past x type
    by (rule hoare_act [OF st])
       (auto simp: tearing_act ungrouped_def puts_since_def acts_since_def dest: tearing_lens)
  have "hoare env (?J [] x) (each (\<lambda>type _. edge_act (Delete_Credentials c type)) CREDENTIAL_TYPES x) (?J ([] @ CREDENTIAL_TYPES)) ?E" for x
    by (rule hoare_each) (rule del)
  then have "hoare env (?J [] x) (each (\<lambda>type _. edge_act (Delete_Credentials c type)) CREDENTIAL_TYPES y) (\<lambda>_. tearing env u w0 S (insert c D)) ?E" for x y
    by (rule hoare_weaken) (auto simp: tearing_def down_def [of _ _ c])
  then show ?thesis unfolding strip_consumer_def by (intro hoare_bind [OF put])
qed

lemma hoare_disable_durable:
  assumes env: "minds_account u env"
  shows "hoare env (tearing env u w0 S D) (disable_durable u c acc) (\<lambda>_. tearing env u w0 (S - {c}) (insert c D)) (\<lambda>_ _. True)"
proof -
  let ?T = "tearing env u w0" and ?E = "\<lambda>_ _. True"
  have strip: "hoare env (?T S (if snapshot = None then insert c D else D)) (case snapshot of None \<Rightarrow> io_return () | Some _ \<Rightarrow> strip_consumer c)
      (\<lambda>_. ?T S (insert c D)) ?E" for snapshot :: "string list option"
    using hoare_strip_consumer [OF env] by (cases snapshot) (auto intro: hoare_return)
  show ?thesis unfolding disable_durable_def
    by (rule hoare_locked [OF env])
       (intro hoare_aside [OF quiet_assertStillDisabled env] hoare_bind [OF hoare_asked(2) [OF env]] hoare_bind [OF strip]
        hoare_bind [OF hoare_revokeRowsFor [OF env]] hoare_return; simp)
qed

subsection \<open>A registered identity\<close>

lemma hoare_find_live:
  assumes env: "minds_account u env"
  shows "hoare env (tearing env u w0 S D) (find_live derivedId username (Some g))
    (\<lambda>live. tearing env u w0 S (case gi_consumer_id g of None \<Rightarrow> D | Some c \<Rightarrow> if live = Some c then D else insert c D)) (\<lambda>_ _. True)"
proof (cases "gi_consumer_id g")
  case None
  have "quiet env (find_live derivedId username (Some g))"
    unfolding find_live_def Let_def option.case None by (intro quiets quiet_get quiet_getByUsername)
  then have "hoare env (tearing env u w0 S D) (find_live derivedId username (Some g)) (\<lambda>_. tearing env u w0 S D) (\<lambda>_. tearing env u w0 S D)"
    using stable_tearing [OF env] by (simp add: quiet_def)
  then show ?thesis unfolding None option.case by (rule hoare_weaken) auto
next
  case (Some c)
  have ret: "hoare env (tearing env u w0 S (if there then D else insert c D)) (io_return (if there then Some c else None))
      (\<lambda>live. tearing env u w0 S (if live = Some c then D else insert c D)) (\<lambda>_ _. True)" for there
    by (cases there) (simp_all add: hoare_return)
  show ?thesis unfolding find_live_def Let_def option.case Some by (rule hoare_bind [OF hoare_asked(1) [OF env] ret])
qed

lemma hoare_collect_identity:
  assumes env: "minds_account u env"
  shows "hoare env (tearing env u w0 S D) (collect_identity derivedId username None (Some g)) (\<lambda>_. tearing env u w0 S D) (\<lambda>_ _. True)"
proof -
  let ?T = "tearing env u w0" and ?E = "\<lambda>_ _. True"
  let ?D = "\<lambda>live. case gi_consumer_id g of None \<Rightarrow> D | Some c \<Rightarrow> if live = Some c then D else insert c D"
  have del: "hoare env (?T S D') (case live of None \<Rightarrow> io_return 0 | Some c \<Rightarrow> io_lock c (io_bind (edge_act (Delete_Consumer c)) (\<lambda>_. revokeRowsFor c)))
      (\<lambda>_. ?T S D') ?E" for live D'
  proof (cases live)
    case (Some c)
    have "hoare env (?T S D') (io_bind (edge_act (Delete_Consumer c)) (\<lambda>_. revokeRowsFor c)) (\<lambda>_. ?T (S - {c}) (insert c D')) ?E"
      by (rule hoare_bind [OF hoare_delete_consumer [OF env] hoare_revokeRowsFor [OF env]]) simp
    then show ?thesis unfolding Some option.case
      by (intro hoare_locked [OF env], rule hoare_weaken) (auto intro: tearing_mono)
  qed (simp add: hoare_return)
  have gone: "hoare env (?T S (?D live)) (case gi_consumer_id g of None \<Rightarrow> io_return 0
      | Some c \<Rightarrow> if live = Some c then io_return 0 else revokeRowsFor c) (\<lambda>_. ?T S D) ?E" for live
  proof (cases "gi_consumer_id g")
    case (Some c)
    have "hoare env (?T S (insert c D)) (revokeRowsFor c) (\<lambda>_. ?T S D) ?E"
      by (rule hoare_weaken [OF hoare_revokeRowsFor [OF env, of c "insert c D"]]) (auto intro: tearing_mono)
    then show ?thesis using Some by (auto intro!: hoare_return)
  qed (simp add: hoare_return)
  have drop1: "hoare env (?T S D) (drop_registration False result (Some g)) (\<lambda>_. ?T S D) ?E" for result
    unfolding drop_registration_def option.case
    by (rule hoare_bind [where R = "\<lambda>r w. case r of Inr _ \<Rightarrow> ?T S D w | Inl _ \<Rightarrow> True"], rule hoare_try,
        rule hoare_weaken [OF hoare_tx_aside [OF env]])
       (auto simp: tx_of_def gatewayIdentities_delete_def intro: hoare_return hoare_throw split: sum.split)
  show ?thesis unfolding collect_identity_def Let_def option.case
    by (rule hoare_bind [OF hoare_find_live [OF env]], rule hoare_bind [OF del], rule hoare_bind [OF gone], rule hoare_bind [where R = "\<lambda>_. ?T S D"])
       (auto intro: hoare_return drop1)
qed

lemma hoare_disable_registered:
  assumes env: "minds_account u env"
  shows "hoare env (tearing env u w0 S D) (disable_registered derivedId namespace u g acc) (\<lambda>_. tearing env u w0 S D) (\<lambda>_ _. True)"
proof -
  let ?T = "tearing env u w0 S D" and ?E = "\<lambda>_ _. True"
  have one: "hoare env ?T (if Some u \<noteq> None \<and> (case current of None \<Rightarrow> True | Some g \<Rightarrow> Some (gi_user_id g) \<noteq> Some u)
      then io_return no_identity else collect_identity derivedId username None current) (\<lambda>_. ?T) ?E" for current username
    using hoare_collect_identity [OF env] by (cases current) (auto intro: hoare_return)
  have "hoare env ?T (teardownIdentity derivedId namespace (gi_username g) (Some u) None) (\<lambda>_. ?T) ?E"
    unfolding teardownIdentity_def option.case
    by (intro hoare_locked [OF env] hoare_aside [OF quiet_assertStillDisabled env] hoare_aside [OF quiet_read env] one)
  then show ?thesis unfolding disable_registered_def by (rule hoare_bind) (rule hoare_return)
qed

subsection \<open>The pages of a list that nobody changes\<close>

lemma hoare_fixed: "(\<And>m. hoare env (\<lambda>w. P w \<and> g w = m) prog Q E) \<Longrightarrow> hoare env P prog Q E"
  by (auto simp: hoare_def)

lemma hoare_pages_read:
  assumes st: "stable env P" and read: "\<And>w o1. P w \<Longrightarrow> f o1 (w_db w) = (take l (drop o1 rows), length rows)" "0 < l"
    and "got = take offset rows"
  shows "hoare env P (pages_all n (\<lambda>o1. io_read (f o1)) offset got) (\<lambda>r w. P w \<and> r = rows) (\<lambda>_ _. True)"
  using assms(4)
proof (induction n arbitrary: offset got)
  case (Suc n)
  let ?items = "take l (drop offset rows)"
  have next1: "take offset rows @ ?items = take (offset + length ?items) rows"
    by (cases "offset \<le> length rows") (auto simp: take_add min_def)
  have "hoare env (\<lambda>w. P w \<and> page = (?items, length rows)) (case page of (items, count) \<Rightarrow> let next1 = offset + length items
      in if items = [] \<or> count \<le> next1 then io_return (got @ items) else pages_all n (\<lambda>o1. io_read (f o1)) next1 (got @ items))
      (\<lambda>r w. P w \<and> r = rows) (\<lambda>_ _. True)" for page
  proof (rule hoare_pure, simp only: prod.case Let_def, intro hoare_if)
    assume "?items = [] \<or> length rows \<le> offset + length ?items"
    then have "got @ ?items = rows" using Suc.prems read(2) next1 by (auto simp del: length_take length_drop)
    then show "hoare env P (io_return (got @ ?items)) (\<lambda>r w. P w \<and> r = rows) (\<lambda>_ _. True)" by (intro hoare_return) simp
  next
    show "hoare env P (pages_all n (\<lambda>o1. io_read (f o1)) (offset + length ?items) (got @ ?items)) (\<lambda>r w. P w \<and> r = rows) (\<lambda>_ _. True)"
      using Suc.prems next1 by (intro Suc.IH) simp
  qed
  then show ?case unfolding pages_all.simps
    by (intro hoare_bind [where R = "\<lambda>page w. P w \<and> page = (?items, length rows)"] hoare_read [OF st]) (simp_all add: read(1))
qed (simp add: hoare_throw)

definition own_credentials :: "string \<Rightarrow> portal_db \<Rightarrow> credential list" where
  "own_credentials u db = filter (\<lambda>r. cm_user_id r = u) (db_credentials db)"

lemma own_credentials_others: "minds_account u env \<Longrightarrow> own_credentials u (e_other env n db) = own_credentials u db"
  by (simp add: minds_account_def own_credentials_def)

lemma stable_tearing_own:
  "minds_account u env \<Longrightarrow> stable env (\<lambda>w. tearing env u w0 S D w \<and> own_credentials u (w_db w) = m)"
  using stable_tearing [of u env w0 S D] own_credentials_others [of u env] by (auto simp: stable_def advance_def)

lemma hoare_foreignConsumerIds:
  assumes env: "minds_account u env"
  shows "hoare env (tearing env u w0 S D) (foreignConsumerIds fuel u ids)
    (\<lambda>foreign. tearing env u w0 (set foreign \<union> set ids) D) (\<lambda>_ _. True)"
proof (rule hoare_fixed [where g = "\<lambda>w. own_credentials u (w_db w)"])
  fix m
  let ?P = "\<lambda>w. tearing env u w0 S D w \<and> own_credentials u (w_db w) = m"
  note st = stable_tearing_own [OF env, of w0 S D m]
  let ?J = "\<lambda>past rows w. ?P w \<and> (\<forall>r\<in>set m. cm_status r \<in> set past \<longrightarrow> r \<in> set rows)"
  let ?rows = "\<lambda>status. rev (sort_key cm_created_at (sort_key cm_id (filter (\<lambda>c. cm_status c = status) m)))"
  have pages: "hoare env ?P (pages_all fuel (\<lambda>offset. io_read (\<lambda>db. credentials_list db u status MAX_PAGE_SIZE offset)) 0 [])
      (\<lambda>r w. ?P w \<and> r = ?rows status) (\<lambda>_ _. True)" for status
  proof (rule hoare_pages_read [OF st])
    fix w o1
    assume "?P w"
    then have "filter (\<lambda>c. cm_user_id c = u \<and> cm_status c = status) (db_credentials (w_db w)) = filter (\<lambda>c. cm_status c = status) m"
      by (auto simp: own_credentials_def filter_filter conj_commute)
    then show "credentials_list (w_db w) u status MAX_PAGE_SIZE o1 = (take MAX_PAGE_SIZE (drop o1 (?rows status)), length (?rows status))"
      by (simp add: credentials_list_def Let_def)
  qed (simp_all add: MAX_PAGE_SIZE_def)
  have body: "hoare env (?J past rows) (io_bind (pages_all fuel (\<lambda>offset. io_read (\<lambda>db. credentials_list db u status MAX_PAGE_SIZE offset)) 0 [])
      (\<lambda>found. io_return (rows @ found))) (?J (past @ [status])) (\<lambda>_ _. True)" for past status rows
  proof (rule hoare_bind [where R = "\<lambda>r w. ?J past rows w \<and> r = ?rows status"])
    show "hoare env (?J past rows) (pages_all fuel (\<lambda>offset. io_read (\<lambda>db. credentials_list db u status MAX_PAGE_SIZE offset)) 0 [])
        (\<lambda>r w. ?J past rows w \<and> r = ?rows status) (\<lambda>_ _. True)"
      using pages [of status] by (auto simp: hoare_def split: prod.splits sum.splits)
  qed (rule hoare_return, auto)
  have loop: "hoare env (?J [] []) (each (\<lambda>status rows. io_bind (pages_all fuel (\<lambda>offset. io_read (\<lambda>db. credentials_list db u status MAX_PAGE_SIZE offset)) 0 [])
      (\<lambda>found. io_return (rows @ found))) LIVE_CREDENTIAL_STATUSES []) (?J ([] @ LIVE_CREDENTIAL_STATUSES)) (\<lambda>_ _. True)"
    by (rule hoare_each) (rule body)
  have loop': "hoare env ?P (each (\<lambda>status rows. io_bind (pages_all fuel (\<lambda>offset. io_read (\<lambda>db. credentials_list db u status MAX_PAGE_SIZE offset)) 0 [])
      (\<lambda>found. io_return (rows @ found))) LIVE_CREDENTIAL_STATUSES []) (?J LIVE_CREDENTIAL_STATUSES) (\<lambda>_ _. True)"
    by (rule hoare_weaken [OF loop]) auto
  have found: "tearing env u w0 (set (foreign_of ids rows) \<union> set ids) D w" if "?J LIVE_CREDENTIAL_STATUSES rows w" for rows w
  proof -
    have "live_consumers u (w_db w) \<subseteq> set (foreign_of ids rows) \<union> set ids"
      using that by (auto simp: live_consumers_def own_credentials_def foreign_of_def)
    then show ?thesis using that by (simp add: tearing_def)
  qed
  show "hoare env ?P (foreignConsumerIds fuel u ids) (\<lambda>foreign. tearing env u w0 (set foreign \<union> set ids) D) (\<lambda>_ _. True)"
    unfolding foreignConsumerIds_def
    by (rule hoare_bind [OF loop'], rule hoare_return, rule found)
qed

subsection \<open>The whole account\<close>

lemma tearing_start: "distinct (map cm_id (db_credentials (w_db w))) \<Longrightarrow> tearing env u w UNIV {} w"
  by (simp add: tearing_def)

text \<open>Nothing was taken down yet.\<close>

definition intact :: "env \<Rightarrow> string \<Rightarrow> world \<Rightarrow> world \<Rightarrow> bool" where
  "intact env u w0 w \<longleftrightarrow> tearing env u w0 UNIV {} w \<and>
     filter (\<lambda>c. co_user_id c = u) (db_consumers (w_db w)) = filter (\<lambda>c. co_user_id c = u) (db_consumers (w_db w0))"

lemma stable_intact: "minds_account u env \<Longrightarrow> stable env (intact env u w0)"
  using stable_tearing [of u env w0 UNIV "{}"] by (auto simp: intact_def stable_def advance_def minds_account_def)

lemma keeps_tx_aside:
  assumes "minds_account u env" "\<And>db a db'. m db = Inr (a, db') \<Longrightarrow> db_credentials db' = db_credentials db \<and> db_consumers db' = db_consumers db"
  shows "keeps env (intact env u w0) (io_tx m)"
  unfolding keeps_def
  by (rule hoare_tx [OF stable_intact [OF assms(1)]]) (use assms(2) in \<open>auto simp: intact_def tearing_db live_consumers_def\<close>)

lemma hoare_listConsumers:
  assumes env: "minds_account u env"
  shows "hoare env (intact env u w0) (listConsumers fuel u)
    (\<lambda>r w. tearing env u w0 UNIV {} w \<and> r = filter (\<lambda>c. co_user_id c = u) (db_consumers (w_db w0))) (\<lambda>_ _. True)"
proof -
  have "hoare env (intact env u w0) (listConsumers fuel u)
      (\<lambda>r w. intact env u w0 w \<and> r = filter (\<lambda>c. co_user_id c = u) (db_consumers (w_db w0))) (\<lambda>_ _. True)"
    unfolding listConsumers_def
    by (rule hoare_pages_read [OF stable_intact [OF env]]) (auto simp: consumers_list_def Let_def MAX_PAGE_SIZE_def intact_def)
  then show ?thesis by (rule hoare_weaken) (auto simp: intact_def)
qed

text \<open>Everything an account can authenticate with is down.\<close>

definition all_down :: "env \<Rightarrow> string \<Rightarrow> world \<Rightarrow> world \<Rightarrow> bool" where
  "all_down env u w0 w \<longleftrightarrow> credentials_count (w_db w) u Cr_Active = 0 \<and> credentials_count (w_db w) u Cr_Retiring = 0 \<and>
     (\<forall>r\<in>set (db_credentials (w_db w0)). cm_user_id r = u \<and> cm_status r \<noteq> Cr_Revoked \<longrightarrow> down env w0 (cm_consumer_id r) w) \<and>
     (\<forall>c\<in>set (db_consumers (w_db w0)). co_user_id c = u \<longrightarrow> down env w0 (co_ferrum_consumer_id c) w)"

lemma tearing_end:
  assumes "tearing env u w0 {} (co_ferrum_consumer_id ` {c \<in> set (db_consumers (w_db w0)). co_user_id c = u}) w"
  shows "all_down env u w0 w"
proof -
  have none: "live_consumers u (w_db w) = {}" and was: "live_consumers u (w_db w0) \<subseteq> {c. down env w0 c w}"
    using assms by (auto simp: tearing_def)
  have live: "cm_status r \<noteq> Cr_Revoked \<longleftrightarrow> cm_status r \<in> set LIVE_CREDENTIAL_STATUSES" for r
    by (cases "cm_status r") (auto simp: LIVE_CREDENTIAL_STATUSES_def)
  have "credentials_count (w_db w) u s = 0" if "s \<in> set LIVE_CREDENTIAL_STATUSES" for s
    using none that by (auto simp: live_consumers_def credentials_count_def filter_empty_conv)
  then show ?thesis using was assms
    by (auto simp: all_down_def live live_consumers_def tearing_def LIVE_CREDENTIAL_STATUSES_def)
qed

lemma hoare_disableGatewayAccess:
  assumes env: "minds_account u env"
  shows "hoare env (intact env u w0) (disableGatewayAccess fuel derivedId namespace u)
    (\<lambda>_. tearing env u w0 {} (co_ferrum_consumer_id ` {c \<in> set (db_consumers (w_db w0)). co_user_id c = u})) (\<lambda>_ _. True)"
proof -
  let ?T = "tearing env u w0" and ?E = "\<lambda>_ _. True"
  define own where "own = filter (\<lambda>c. co_user_id c = u) (db_consumers (w_db w0))"
  let ?ids = "map co_ferrum_consumer_id own"
  note start = hoare_listConsumers [OF env, of w0 fuel, folded own_def]
  have reg: "hoare env (?T S D) (each (disable_registered derivedId namespace u) gs acc) (\<lambda>_. ?T S D) ?E" for S D gs acc
    by (rule hoare_each [where J = "\<lambda>_ _. ?T S D"]) (rule hoare_disable_registered [OF env])
  have fo: "hoare env (?T (set F \<union> set ?ids) {}) (each (disable_foreign u) F acc) (\<lambda>_. ?T (set ?ids) {}) ?E" for F acc
  proof -
    have "hoare env (?T (set F - set [] \<union> set ?ids) {}) (each (disable_foreign u) F acc) (\<lambda>_. ?T (set F - set ([] @ F) \<union> set ?ids) {}) ?E"
      by (rule hoare_each [where J = "\<lambda>past _. ?T (set F - set past \<union> set ?ids) {}"],
          rule hoare_weaken [OF hoare_disable_foreign [OF env]]) (auto intro: tearing_mono)
    then show ?thesis by simp
  qed
  have du: "hoare env (?T (set ?ids) {}) (each (disable_durable u) ?ids acc) (\<lambda>_. ?T {} (set ?ids)) ?E" for acc
  proof -
    have "hoare env (?T (set ?ids - set []) (set [])) (each (disable_durable u) ?ids acc)
        (\<lambda>_. ?T (set ?ids - set ([] @ ?ids)) (set ([] @ ?ids))) ?E"
      by (rule hoare_each [where J = "\<lambda>past _. ?T (set ?ids - set past) (set past)"],
          rule hoare_weaken [OF hoare_disable_durable [OF env]]) (auto intro: tearing_mono)
    then show ?thesis by simp
  qed
  have rest: "hoare env (?T (set F \<union> set ?ids) {}) (if own = [] \<and> F = [] then io_return acc
      else io_bind (each (disable_foreign u) F acc) (\<lambda>a. io_bind (each (disable_durable u) ?ids a) (\<lambda>b. io_return (fin b))))
      (\<lambda>_. ?T {} (set ?ids)) ?E" for F acc fin
    by (intro hoare_if hoare_bind [OF fo] hoare_bind [OF du] hoare_return) simp_all
  have done1: "co_ferrum_consumer_id ` {c \<in> set (db_consumers (w_db w0)). co_user_id c = u} = set ?ids" by (simp add: own_def)
  show ?thesis unfolding disableGatewayAccess_def Let_def done1
    by (rule hoare_bind [OF start], rule hoare_pure, simp only:,
        intro hoare_aside [OF quiet_read env] hoare_bind [OF reg] hoare_bind [OF hoare_foreignConsumerIds [OF env]] rest)
qed

text \<open>An attempt that reports anything but \<open>pending\<close>.\<close>

lemma hoare_claim_attempt:
  assumes env: "minds_account u env"
  shows "hoare env (intact env u w0) (claim_attempt u (Some job)) (\<lambda>c w. intact env u w0 w \<and> tj_id c = tj_id job) (\<lambda>_ _. True)"
proof -
  let ?P = "intact env u w0" and ?Q = "\<lambda>c w. intact env u w0 w \<and> tj_id c = tj_id job" and ?E = "\<lambda>_ _. True"
  have tx: "hoare env ?P (io_tx (tx_of (gatewayTeardownJobs_claimPending g stamp job)))
      (\<lambda>r w. ?P w \<and> (case r of None \<Rightarrow> True | Some c \<Rightarrow> tj_id c = tj_id job)) ?E" for g stamp
    by (rule hoare_tx [OF stable_intact [OF env]])
       (auto simp: tx_of_def gatewayTeardownJobs_claimPending_def settle_teardown_def intact_def tearing_db live_consumers_def
          split: if_splits)
  have claim: "hoare env ?P (io_bind io_newId (\<lambda>g. io_bind io_now (\<lambda>stamp. io_bind (io_tx (tx_of (gatewayTeardownJobs_claimPending g stamp job)))
      (\<lambda>claimed. case claimed of Some c \<Rightarrow> io_return c | None \<Rightarrow> io_throw (thrown_error SUPERSEDED))))) ?Q ?E"
    by (intro hoare_quiet [OF quiet_newId stable_intact [OF env]] hoare_quiet [OF quiet_now stable_intact [OF env]] hoare_bind [OF tx])
       (auto split: option.split intro!: hoare_return hoare_throw)
  have "hoare env ?P (case tj_status job of
        Td_Pending \<Rightarrow> io_bind io_newId (\<lambda>g. io_bind io_now (\<lambda>stamp. io_bind (io_tx (tx_of (gatewayTeardownJobs_claimPending g stamp job)))
          (\<lambda>claimed. case claimed of Some c \<Rightarrow> io_return c | None \<Rightarrow> io_throw (thrown_error SUPERSEDED))))
      | Td_Sending \<Rightarrow> io_return job | Td_Done \<Rightarrow> io_throw (thrown_error SUPERSEDED)) ?Q ?E"
    by (cases "tj_status job") (simp_all only: teardown_status.case claim, auto intro: hoare_return hoare_throw)
  then show ?thesis unfolding claim_attempt_def option.case by (intro hoare_if hoare_throw) simp_all
qed

definition recorded_done :: "teardown_job \<Rightarrow> world \<Rightarrow> bool" where
  "recorded_done job w \<longleftrightarrow> (\<exists>j\<in>set (db_teardown (w_db w)). tj_id j = tj_id job \<and> tj_status j = Td_Done)"

lemma markDone_row:
  assumes "gatewayTeardownJobs_markDone job t db = (True, db')"
  shows "\<exists>j\<in>set (db_teardown db'). tj_id j = tj_id job \<and> tj_status j = Td_Done"
    "db_credentials db' = db_credentials db"
proof -
  obtain j where j: "j \<in> set (db_teardown db)" "teardown_is Td_Sending job j"
    using assms by (auto simp: gatewayTeardownJobs_markDone_def settle_teardown_def list_ex_iff)
  let ?j = "j\<lparr>tj_status := Td_Done, tj_next_attempt_at := None, tj_last_error := None, tj_completed_at := Some t, tj_updated_at := t\<rparr>"
  have "?j \<in> set (db_teardown db')"
    using assms j by (auto simp: gatewayTeardownJobs_markDone_def settle_teardown_def set_update_where intro!: image_eqI [of _ _ j])
  then show "\<exists>j\<in>set (db_teardown db'). tj_id j = tj_id job \<and> tj_status j = Td_Done"
    by (rule bexI [rotated]) (use j(2) in \<open>simp add: teardown_is_def\<close>)
  show "db_credentials db' = db_credentials db" using assms by (auto simp: gatewayTeardownJobs_markDone_def settle_teardown_def)
qed

lemma hoare_attempt_claimed:
  assumes env: "minds_account u env"
  shows "hoare env (intact env u w0) (attempt_claimed (disableGatewayAccess fuel derivedId namespace u) u job)
    (\<lambda>_ w. all_down env u w0 w \<and> recorded_done job w) (\<lambda>_ _. True)"
proof -
  let ?D = "co_ferrum_consumer_id ` {c \<in> set (db_consumers (w_db w0)). co_user_id c = u}"
  have mark: "hoare env (tearing env u w0 {} ?D) (io_tx (tx_of (gatewayTeardownJobs_markDone job t)))
      (\<lambda>ok w. ok \<longrightarrow> all_down env u w0 w \<and> recorded_done job w) (\<lambda>_ _. True)" for t
  proof (rule hoare_tx [OF stable_tearing [OF env]])
    fix w ok db'
    assume T: "tearing env u w0 {} ?D w" and run: "tx_of (gatewayTeardownJobs_markDone job t) (w_db w) = Inr (ok, db')"
    then have "tearing env u w0 {} ?D (w\<lparr>w_db := db'\<rparr>) \<and> recorded_done job (w\<lparr>w_db := db'\<rparr>)" if ok
      using that markDone_row [of job t "w_db w" db'] by (auto simp: tx_of_def recorded_done_def tearing_db live_consumers_def)
    then show "(ok \<longrightarrow> all_down env u w0 (w\<lparr>w_db := db'\<rparr>) \<and> recorded_done job (w\<lparr>w_db := db'\<rparr>)) \<and> (\<forall>f. True)"
      using tearing_end by blast
  qed simp
  have last1: "hoare env (\<lambda>w. ok \<longrightarrow> all_down env u w0 w \<and> recorded_done job w) (if ok then io_return r else io_throw f)
      (\<lambda>_ w. all_down env u w0 w \<and> recorded_done job w) (\<lambda>_ _. True)" for ok f and r :: gateway_teardown
    by (cases ok) (auto intro: hoare_return hoare_throw)
  show ?thesis unfolding attempt_claimed_def
    by (intro hoare_quiet [OF quiet_read stable_intact [OF env]] hoare_if hoare_throw hoare_bind [OF hoare_disableGatewayAccess [OF env]]
        hoare_aside [OF quiet_now env] hoare_bind [OF mark] last1) simp_all
qed

text \<open>
  C13. A revocation that is recorded as done was carried out. When an attempt reports anything but
  \<open>pending\<close>, its row says done, the account has no live credential row left, and every consumer it owned,
  and every other consumer on which it had a live credential when the attempt began, is down: the gateway
  said since then that it does not exist, or acknowledged its deletion, or acknowledged the removal of all
  its groups, with no group written later, and of all its credentials. The others leave the account's own
  rows alone; whatever the gateway and the store answer, and however many pages the listings have.
\<close>

theorem finished_revocation_took_everything_down:
  assumes "minds_account userId env" "distinct (map cm_id (db_credentials (w_db w)))"
    and "runGatewayTeardown (disableGatewayAccess fuel derivedId namespace userId) userId (Some job) env w = (Inr attempt, w')"
    and "ta_outcome attempt \<noteq> Teardown_Pending"
  shows "all_down env userId w w' \<and> recorded_done job w'"
proof -
  note env = assms(1)
  let ?Q = "\<lambda>a w'. ta_outcome a \<noteq> Teardown_Pending \<longrightarrow> all_down env userId w w' \<and> recorded_done job w'"
  let ?go = "attempt_claimed (disableGatewayAccess fuel derivedId namespace userId) userId"
  have failed: "hoare env P (io_return (teardown_failed f)) ?Q (\<lambda>_ _. True)" for P f
    by (rule hoare_return) (simp add: teardown_failed_def)
  have again: "hoare env P (io_bind m (\<lambda>_. io_return (teardown_failed f))) ?Q (\<lambda>_ _. True)" for P f and m :: "unit io"
    by (rule hoare_bind [where R = "\<lambda>_ _. True"], simp add: hoare_def split: prod.splits sum.splits) (rule failed)
  let ?R = "\<lambda>r2 w'. case r2 of Inr (_ :: gateway_teardown) \<Rightarrow> all_down env userId w w' \<and> recorded_done job w' | Inl _ \<Rightarrow> True"
  let ?S = "\<lambda>r w'. case r of Inr c \<Rightarrow> intact env userId w w' \<and> tj_id c = tj_id job | Inl _ \<Rightarrow> True"
  have claim: "hoare env (intact env userId w) (io_try (claim_attempt userId (Some job))) ?S (\<lambda>_ _. True)"
    using hoare_try [where Q = ?S, OF hoare_weaken [OF hoare_claim_attempt [OF env]]] by simp
  have go: "hoare env (\<lambda>w'. intact env userId w w' \<and> tj_id c = tj_id job) (io_try (?go c)) ?R (\<lambda>_ _. True)" for c
    by (rule hoare_pure, rule hoare_try, rule hoare_weaken [OF hoare_attempt_claimed [OF env]]) (auto simp: recorded_done_def)
  have "hoare env (intact env userId w) (runGatewayTeardown (disableGatewayAccess fuel derivedId namespace userId) userId (Some job)) ?Q (\<lambda>_ _. True)"
    unfolding runGatewayTeardown_def
    by (rule hoare_bind [OF claim], rule hoare_sum, rule failed, simp only: sum.case, rule hoare_bind [OF go], rule hoare_sum, rule again)
       (auto intro: hoare_return)
  moreover have "intact env userId w w" using tearing_start [OF assms(2)] by (simp add: intact_def)
  ultimately show ?thesis using assms(3,4) by (auto dest: hoare_Inr)
qed

definition ex_revoke_job :: teardown_job where
  "ex_revoke_job = \<lparr>tj_id = ''j'', tj_generation = ''g'', tj_user_id = ''u1'', tj_status = Td_Sending, tj_attempts = 1,
     tj_next_attempt_at = None, tj_last_error = None, tj_requested_by = None, tj_created_at = 0, tj_updated_at = 0, tj_completed_at = None\<rparr>"

definition ex_off :: world where
  "ex_off = ex_post\<lparr>w_db := (w_db ex_post)\<lparr>db_users := [(example_user ''u1'' Client)\<lparr>u_status := User_Disabled\<rparr>],
     db_consumers := [],
     db_credentials := [\<lparr>cm_id = ''k1'', cm_user_id = ''u1'', cm_consumer_id = ''t1'', cm_type = Keyauth, cm_status = Cr_Active, cm_created_at = 0\<rparr>],
     db_teardown := [ex_revoke_job]\<rparr>\<rparr>"

definition ex_off_env :: env where
  "ex_off_env = ex_post_env\<lparr>e_fault := (\<lambda>n. None), e_get := (\<lambda>n c. Inr (Some [''nexus:api:a1:approved'']))\<rparr>"

theorem finished_revocation_took_everything_down_witness:
  "\<exists>w'. all_down ex_off_env ''u1'' ex_off w' \<and> recorded_done ex_revoke_job w' \<and>
     w_acts w' = [acked (Delete_Consumer ''t1'')]"
proof -
  let ?run = "runGatewayTeardown (disableGatewayAccess 3 id ''ns'' ''u1'') ''u1'' (Some ex_revoke_job) ex_off_env ex_off"
  have ran: "case ?run of (r, w') \<Rightarrow> map_sum (\<lambda>_. ()) ta_outcome r = Inr Teardown_Ok \<and> w_acts w' = [acked (Delete_Consumer ''t1'')]"
    by code_simp
  then obtain a where a: "?run = (Inr a, snd ?run)" "ta_outcome a = Teardown_Ok" by (cases ?run; cases "fst ?run") auto
  note acts = ran [unfolded case_prod_beta, THEN conjunct2]
  have "minds_account ''u1'' ex_off_env" by (simp add: minds_account_def ex_off_env_def ex_post_env_def)
  moreover have "distinct (map cm_id (db_credentials (w_db ex_off)))" by code_simp
  ultimately have d: "all_down ex_off_env ''u1'' ex_off (snd ?run) \<and> recorded_done ex_revoke_job (snd ?run)"
    using finished_revocation_took_everything_down [OF _ _ a(1)] a(2) by simp
  show ?thesis
    by (rule exI [of _ "snd ?run"], intro conjI, rule conjunct1 [OF d], rule conjunct2 [OF d], rule acts)
qed

end
