(* ===== verification/Sso_Config.thy ===== *)
theory Sso_Config
  imports Sso_Mapping
begin

section \<open>Single sign-on: the configuration of a provider\<close>

text \<open>
  Models the schemas of \<open>server/src/sso/config.ts\<close> that a stored or saved provider is held to. A schema
  is a function from JSON to the value it yields, \<open>None\<close> where it reports an issue: a strict object with
  every field required, strings that are trimmed and bounded, lists with a largest length, the patterns of
  ids, scopes and domains. Issuers are only bounded here, as in the schema; whether one is an acceptable
  URL is decided elsewhere.
\<close>

definition MAX_SSO_MAPPINGS :: nat where "MAX_SSO_MAPPINGS = 100"
definition MAX_ALLOWED_EMAIL_DOMAINS :: nat where "MAX_ALLOWED_EMAIL_DOMAINS = 100"
definition MAX_ISSUER_LENGTH :: nat where "MAX_ISSUER_LENGTH = 255"

text \<open>The fields of \<open>SsoProviderSettings\<close>; \<open>ss_rules\<close> are those that \<open>mapClaims\<close> reads.\<close>

record sso_settings =
  ss_id :: string
  ss_display_name :: string
  ss_issuer :: string
  ss_client_id :: string
  ss_scopes :: "string list"
  ss_enabled :: bool
  ss_jit_provisioning :: bool
  ss_link_existing_accounts :: bool
  ss_require_verified_email :: bool
  ss_allowed_email_domains :: "string list"
  ss_disable_local_password_for_linked :: bool
  ss_rules :: sso_provider

subsection \<open>Patterns\<close>

definition is_lower_alnum :: "char \<Rightarrow> bool" where
  "is_lower_alnum c \<longleftrightarrow> (let n = of_char c :: nat in 97 \<le> n \<and> n \<le> 122 \<or> 48 \<le> n \<and> n \<le> 57)"

definition PROVIDER_ID :: "string \<Rightarrow> bool" where
  "PROVIDER_ID s \<longleftrightarrow> s \<noteq> [] \<and> length s \<le> 32 \<and> is_lower_alnum (hd s) \<and> list_all (\<lambda>c. is_lower_alnum c \<or> c = CHR ''-'') s"

definition SCOPE_TOKEN :: "string \<Rightarrow> bool" where
  "SCOPE_TOKEN s \<longleftrightarrow> s \<noteq> [] \<and> list_all (\<lambda>c. let n = of_char c :: nat in n = 33 \<or> 35 \<le> n \<and> n \<le> 91 \<or> 93 \<le> n \<and> n \<le> 126) s"

text \<open>A label: at most 63 letters, digits and hyphens, with no hyphen at either end.\<close>

definition domain_label :: "string \<Rightarrow> bool" where
  "domain_label l \<longleftrightarrow> l \<noteq> [] \<and> length l \<le> 63 \<and> is_lower_alnum (hd l) \<and> is_lower_alnum (last l) \<and>
     list_all (\<lambda>c. is_lower_alnum c \<or> c = CHR ''-'') l"

definition EMAIL_DOMAIN :: "string \<Rightarrow> bool" where
  "EMAIL_DOMAIN s \<longleftrightarrow> length s \<le> 253 \<and> 2 \<le> length (split_on CHR ''.'' s) \<and> list_all domain_label (split_on CHR ''.'' s)"

definition normalizeEmailDomain :: "string \<Rightarrow> string option" where
  "normalizeEmailDomain v =
     (let lowered = js_lower (js_trim v);
          domain = (if lowered \<noteq> [] \<and> hd lowered = CHR ''@'' then tl lowered else lowered)
      in if EMAIL_DOMAIN domain then Some domain else None)"

subsection \<open>Schemas\<close>

definition z_string :: "bool \<Rightarrow> nat \<Rightarrow> nat \<Rightarrow> json \<Rightarrow> string option" where
  "z_string trimmed lo hi v = (case v of
      JStr s \<Rightarrow> let t = (if trimmed then js_trim s else s) in if lo \<le> length t \<and> length t \<le> hi then Some t else None
    | _ \<Rightarrow> None)"

definition z_pattern :: "(string \<Rightarrow> bool) \<Rightarrow> json \<Rightarrow> string option" where
  "z_pattern p v = (case v of JStr s \<Rightarrow> if p s then Some s else None | _ \<Rightarrow> None)"

definition z_boolean :: "json \<Rightarrow> bool option" where
  "z_boolean v = (case v of JBool b \<Rightarrow> Some b | _ \<Rightarrow> None)"

fun z_all :: "(json \<Rightarrow> 'a option) \<Rightarrow> json list \<Rightarrow> 'a list option" where
  "z_all item [] = Some []"
| "z_all item (v # vs) = (case item v of None \<Rightarrow> None | Some a \<Rightarrow> map_option ((#) a) (z_all item vs))"

definition z_array :: "(json \<Rightarrow> 'a option) \<Rightarrow> nat \<Rightarrow> nat \<Rightarrow> json \<Rightarrow> 'a list option" where
  "z_array item lo hi v = (case v of
      JArr vs \<Rightarrow> if lo \<le> length vs \<and> length vs \<le> hi then z_all item vs else None
    | _ \<Rightarrow> None)"

text \<open>\<open>z.object(shape).strict()\<close>: the properties, when they are exactly those of the shape.\<close>

definition z_strict :: "string list \<Rightarrow> json \<Rightarrow> (string \<Rightarrow> json) option" where
  "z_strict keys v = (case v of
      JObj m \<Rightarrow> if set (map fst m) = set keys then Some (\<lambda>k. the (map_of m k)) else None
    | _ \<Rightarrow> None)"

fun sso_role_name :: "sso_role \<Rightarrow> string" where
  "sso_role_name Sso_Client = ''client''"
| "sso_role_name Sso_Provider = ''provider''"
| "sso_role_name Sso_Admin = ''admin''"

definition z_role :: "json \<Rightarrow> sso_role option" where
  "z_role v = (case v of
      JStr s \<Rightarrow> if s = ''client'' then Some Sso_Client else if s = ''provider'' then Some Sso_Provider
                else if s = ''admin'' then Some Sso_Admin else None
    | _ \<Rightarrow> None)"

definition z_nullable :: "(json \<Rightarrow> 'a option) \<Rightarrow> json \<Rightarrow> 'a option option" where
  "z_nullable item v = (if v = JNull then Some None else map_option Some (item v))"

definition ssoRoleMappingSchema :: "json \<Rightarrow> sso_role_mapping option" where
  "ssoRoleMappingSchema v =
     Option.bind (z_strict [''claim'', ''value'', ''role''] v) (\<lambda>f.
     Option.bind (z_string True 1 256 (f ''claim'')) (\<lambda>claim.
     Option.bind (z_string False 1 512 (f ''value'')) (\<lambda>expected.
     Option.bind (z_role (f ''role'')) (\<lambda>role.
     Some \<lparr>rm_claim = claim, rm_value = expected, rm_role = role\<rparr>))))"

definition ssoOrgMappingSchema :: "json \<Rightarrow> sso_org_mapping option" where
  "ssoOrgMappingSchema v =
     Option.bind (z_strict [''claim'', ''value'', ''org_id''] v) (\<lambda>f.
     Option.bind (z_string True 1 256 (f ''claim'')) (\<lambda>claim.
     Option.bind (z_string False 1 512 (f ''value'')) (\<lambda>expected.
     Option.bind (z_string True 1 64 (f ''org_id'')) (\<lambda>org.
     Some \<lparr>om_claim = claim, om_value = expected, om_org_id = org\<rparr>))))"

definition scopesSchema :: "json \<Rightarrow> string list option" where
  "scopesSchema v = Option.bind (z_array (z_pattern SCOPE_TOKEN) 1 20 v) (\<lambda>scopes.
     if ''openid'' \<in> set scopes then Some scopes else None)"

definition ssoProviderSettingsShape :: "string list" where
  "ssoProviderSettingsShape = [''id'', ''display_name'', ''issuer'', ''client_id'', ''scopes'', ''enabled'', ''jit_provisioning'',
     ''link_existing_accounts'', ''require_verified_email'', ''allowed_email_domains'', ''disable_local_password_for_linked'',
     ''sync_roles'', ''default_role'', ''role_mappings'', ''org_mappings'']"

definition rulesSchema :: "(string \<Rightarrow> json) \<Rightarrow> sso_provider option" where
  "rulesSchema f =
     Option.bind (z_boolean (f ''sync_roles'')) (\<lambda>sync.
     Option.bind (z_nullable z_role (f ''default_role'')) (\<lambda>default1.
     Option.bind (z_array ssoRoleMappingSchema 0 MAX_SSO_MAPPINGS (f ''role_mappings'')) (\<lambda>roles.
     Option.bind (z_array ssoOrgMappingSchema 0 MAX_SSO_MAPPINGS (f ''org_mappings'')) (\<lambda>orgs.
     Some \<lparr>sp_sync_roles = sync, sp_default_role = default1, sp_role_mappings = roles, sp_org_mappings = orgs\<rparr>))))"

definition ssoProviderSettingsSchema :: "json \<Rightarrow> sso_settings option" where
  "ssoProviderSettingsSchema v =
     Option.bind (z_strict ssoProviderSettingsShape v) (\<lambda>f.
     Option.bind (z_pattern PROVIDER_ID (f ''id'')) (\<lambda>i.
     Option.bind (z_string True 1 100 (f ''display_name'')) (\<lambda>name.
     Option.bind (z_string True 1 MAX_ISSUER_LENGTH (f ''issuer'')) (\<lambda>issuer.
     Option.bind (z_string True 1 512 (f ''client_id'')) (\<lambda>client.
     Option.bind (scopesSchema (f ''scopes'')) (\<lambda>scopes.
     Option.bind (z_boolean (f ''enabled'')) (\<lambda>enabled.
     Option.bind (z_boolean (f ''jit_provisioning'')) (\<lambda>jit.
     Option.bind (z_boolean (f ''link_existing_accounts'')) (\<lambda>link.
     Option.bind (z_boolean (f ''require_verified_email'')) (\<lambda>verified.
     Option.bind (z_array (z_string True 1 253) 0 MAX_ALLOWED_EMAIL_DOMAINS (f ''allowed_email_domains'')) (\<lambda>domains.
     Option.bind (z_boolean (f ''disable_local_password_for_linked'')) (\<lambda>strict.
     Option.bind (rulesSchema f) (\<lambda>rules.
     Some \<lparr>ss_id = i, ss_display_name = name, ss_issuer = issuer, ss_client_id = client, ss_scopes = scopes, ss_enabled = enabled,
       ss_jit_provisioning = jit, ss_link_existing_accounts = link, ss_require_verified_email = verified,
       ss_allowed_email_domains = domains, ss_disable_local_password_for_linked = strict, ss_rules = rules\<rparr>)))))))))))))"

subsection \<open>What a save writes, a read gets back\<close>

definition role_mapping_json :: "sso_role_mapping \<Rightarrow> json" where
  "role_mapping_json m = JObj [(''claim'', JStr (rm_claim m)), (''value'', JStr (rm_value m)), (''role'', JStr (sso_role_name (rm_role m)))]"

definition org_mapping_json :: "sso_org_mapping \<Rightarrow> json" where
  "org_mapping_json m = JObj [(''claim'', JStr (om_claim m)), (''value'', JStr (om_value m)), (''org_id'', JStr (om_org_id m))]"

definition provider_json :: "sso_settings \<Rightarrow> json" where
  "provider_json p = JObj [(''id'', JStr (ss_id p)), (''display_name'', JStr (ss_display_name p)), (''issuer'', JStr (ss_issuer p)),
     (''client_id'', JStr (ss_client_id p)), (''scopes'', JArr (map JStr (ss_scopes p))), (''enabled'', JBool (ss_enabled p)),
     (''jit_provisioning'', JBool (ss_jit_provisioning p)), (''link_existing_accounts'', JBool (ss_link_existing_accounts p)),
     (''require_verified_email'', JBool (ss_require_verified_email p)),
     (''allowed_email_domains'', JArr (map JStr (ss_allowed_email_domains p))),
     (''disable_local_password_for_linked'', JBool (ss_disable_local_password_for_linked p)),
     (''sync_roles'', JBool (sp_sync_roles (ss_rules p))),
     (''default_role'', case sp_default_role (ss_rules p) of None \<Rightarrow> JNull | Some r \<Rightarrow> JStr (sso_role_name r)),
     (''role_mappings'', JArr (map role_mapping_json (sp_role_mappings (ss_rules p)))),
     (''org_mappings'', JArr (map org_mapping_json (sp_org_mappings (ss_rules p))))]"

text \<open>A schema is settled when what it yields, written again, yields the same.\<close>

lemma z_string_settled: "z_string b lo hi v = Some s \<Longrightarrow> z_string b lo hi (JStr s) = Some s"
  by (auto simp: z_string_def Let_def js_trim_idem split: json.splits if_splits)

lemma z_pattern_settled: "z_pattern p v = Some s \<Longrightarrow> z_pattern p (JStr s) = Some s"
  by (auto simp: z_pattern_def split: json.splits if_splits)

lemma z_role_settled: "z_role (JStr (sso_role_name r)) = Some r"
  by (cases r) (simp_all add: z_role_def)

lemma z_boolean_settled: "z_boolean (JBool b) = Some b"
  by (simp add: z_boolean_def)

lemma z_all_settled:
  "z_all item vs = Some xs \<Longrightarrow> (\<And>v x. item v = Some x \<Longrightarrow> item (enc x) = Some x) \<Longrightarrow>
     z_all item (map enc xs) = Some xs \<and> length xs = length vs"
  by (induction vs arbitrary: xs) (auto split: option.splits)

lemma z_array_settled:
  assumes "z_array item lo hi v = Some xs" "\<And>v x. item v = Some x \<Longrightarrow> item (enc x) = Some x"
  shows "z_array item lo hi (JArr (map enc xs)) = Some xs"
proof -
  obtain vs where "v = JArr vs" "lo \<le> length vs" "length vs \<le> hi" "z_all item vs = Some xs"
    using assms(1) by (auto simp: z_array_def split: json.splits if_splits)
  then show ?thesis using z_all_settled [of item vs xs enc] assms(2) by (simp add: z_array_def)
qed

lemma scopes_settled: "scopesSchema v = Some xs \<Longrightarrow> scopesSchema (JArr (map JStr xs)) = Some xs"
  using z_array_settled [OF _ z_pattern_settled] by (auto simp: scopesSchema_def bind_eq_Some_conv split: if_splits)

lemma role_mapping_settled: "ssoRoleMappingSchema v = Some m \<Longrightarrow> ssoRoleMappingSchema (role_mapping_json m) = Some m"
proof -
  assume "ssoRoleMappingSchema v = Some m"
  then obtain a b where "z_string True 1 256 a = Some (rm_claim m)" "z_string False 1 512 b = Some (rm_value m)"
    by (auto simp: ssoRoleMappingSchema_def bind_eq_Some_conv)
  from z_string_settled [OF this(1)] z_string_settled [OF this(2)] show ?thesis
    by (simp add: ssoRoleMappingSchema_def role_mapping_json_def z_strict_def z_role_settled)
qed

lemma org_mapping_settled: "ssoOrgMappingSchema v = Some m \<Longrightarrow> ssoOrgMappingSchema (org_mapping_json m) = Some m"
proof -
  assume "ssoOrgMappingSchema v = Some m"
  then obtain a b c where "z_string True 1 256 a = Some (om_claim m)" "z_string False 1 512 b = Some (om_value m)"
      "z_string True 1 64 c = Some (om_org_id m)"
    by (auto simp: ssoOrgMappingSchema_def bind_eq_Some_conv)
  from z_string_settled [OF this(1)] z_string_settled [OF this(2)] z_string_settled [OF this(3)] show ?thesis
    by (simp add: ssoOrgMappingSchema_def org_mapping_json_def z_strict_def)
qed

lemma rules_settled:
  assumes "rulesSchema f = Some r"
    and "f' ''sync_roles'' = JBool (sp_sync_roles r)"
    and "f' ''default_role'' = (case sp_default_role r of None \<Rightarrow> JNull | Some x \<Rightarrow> JStr (sso_role_name x))"
    and "f' ''role_mappings'' = JArr (map role_mapping_json (sp_role_mappings r))"
    and "f' ''org_mappings'' = JArr (map org_mapping_json (sp_org_mappings r))"
  shows "rulesSchema f' = Some r"
proof -
  obtain a b c d where p: "z_array ssoRoleMappingSchema 0 MAX_SSO_MAPPINGS (f ''role_mappings'') = Some c"
    "z_array ssoOrgMappingSchema 0 MAX_SSO_MAPPINGS (f ''org_mappings'') = Some d"
    "r = \<lparr>sp_sync_roles = a, sp_default_role = b, sp_role_mappings = c, sp_org_mappings = d\<rparr>"
    using assms(1) by (auto simp: rulesSchema_def bind_eq_Some_conv)
  show ?thesis using z_array_settled [OF p(1) role_mapping_settled] z_array_settled [OF p(2) org_mapping_settled] assms(2-5) p(3)
    by (auto simp: rulesSchema_def z_boolean_settled z_nullable_def z_role_settled split: option.splits)
qed

text \<open>
  A provider survives storage. Whatever JSON a provider was accepted from, trimmed or not and in
  whatever order its properties came, the settings it yielded, written as the store writes them and read
  again by the lenient reader, yield exactly the same settings; so a save never makes a provider vanish.
\<close>

theorem provider_settings_roundtrip:
  assumes "ssoProviderSettingsSchema v = Some p"
  shows "ssoProviderSettingsSchema (provider_json p) = Some p"
proof -
  obtain f where f: "z_pattern PROVIDER_ID (f ''id'') = Some (ss_id p)" "z_string True 1 100 (f ''display_name'') = Some (ss_display_name p)"
    "z_string True 1 MAX_ISSUER_LENGTH (f ''issuer'') = Some (ss_issuer p)" "z_string True 1 512 (f ''client_id'') = Some (ss_client_id p)"
    "scopesSchema (f ''scopes'') = Some (ss_scopes p)"
    "z_array (z_string True 1 253) 0 MAX_ALLOWED_EMAIL_DOMAINS (f ''allowed_email_domains'') = Some (ss_allowed_email_domains p)"
    "rulesSchema f = Some (ss_rules p)"
    using assms by (auto simp: ssoProviderSettingsSchema_def bind_eq_Some_conv)
  obtain m where m: "provider_json p = JObj m" by (simp add: provider_json_def)
  then have strict: "z_strict ssoProviderSettingsShape (provider_json p) = Some (\<lambda>k. the (map_of m k))"
    by (auto simp: z_strict_def provider_json_def ssoProviderSettingsShape_def)
  note settled = z_string_settled [OF f(2)] z_string_settled [OF f(3)] z_string_settled [OF f(4)] z_pattern_settled [OF f(1)]
    scopes_settled [OF f(5)] z_array_settled [OF f(6) z_string_settled]
  have rules: "rulesSchema (\<lambda>k. the (map_of m k)) = Some (ss_rules p)"
    by (rule rules_settled [OF f(7)]) (use m in \<open>auto simp: provider_json_def\<close>)
  show ?thesis unfolding ssoProviderSettingsSchema_def strict
    using m settled rules by (auto simp: provider_json_def z_boolean_settled)
qed

definition ex_stored_provider :: json where
  "ex_stored_provider = JObj [(''display_name'', JStr '' Corp ''), (''id'', JStr ''corp''), (''issuer'', JStr ''https://idp.x''),
     (''client_id'', JStr ''nexus''), (''scopes'', JArr [JStr ''openid'']), (''enabled'', JBool True),
     (''jit_provisioning'', JBool True), (''link_existing_accounts'', JBool False), (''require_verified_email'', JBool True),
     (''allowed_email_domains'', JArr []), (''disable_local_password_for_linked'', JBool True), (''sync_roles'', JBool True),
     (''default_role'', JNull), (''role_mappings'', JArr [JObj [(''value'', JStr ''ops''), (''claim'', JStr '' groups''), (''role'', JStr ''admin'')]]),
     (''org_mappings'', JArr [])]"

theorem provider_settings_roundtrip_witness:
  "\<exists>p. ssoProviderSettingsSchema ex_stored_provider = Some p \<and> ssoProviderSettingsSchema (provider_json p) = Some p \<and>
     ss_display_name p = ''Corp'' \<and> map rm_claim (sp_role_mappings (ss_rules p)) = [''groups'']"
proof -
  have "case ssoProviderSettingsSchema ex_stored_provider of None \<Rightarrow> False
      | Some p \<Rightarrow> ss_display_name p = ''Corp'' \<and> map rm_claim (sp_role_mappings (ss_rules p)) = [''groups'']"
    by code_simp
  then obtain p where "ssoProviderSettingsSchema ex_stored_provider = Some p" "ss_display_name p = ''Corp''"
    "map rm_claim (sp_role_mappings (ss_rules p)) = [''groups'']"
    by (auto split: option.splits)
  then show ?thesis using provider_settings_roundtrip by auto
qed

end
