(* ===== verification/Settings.thy ===== *)
theory Settings
  imports Auth_Store Sso_Config
begin

section \<open>Settings that belong together\<close>

text \<open>
  Models \<open>server/src/lib/setting-generation.ts\<close>, the registration policy (\<open>readRegistrationPolicy\<close> of
  \<open>server/src/auth/service.ts\<close>) and \<open>server/src/sso/settings.ts\<close>. The reads that a caller runs through
  \<open>readBoundToSetting\<close> are a \<open>reader\<close>: a tree of lookups, each chosen by the rows found so far, that ends with a value or a refusal. What
  decrypts a stored secret is an argument.
\<close>

subsection \<open>Reading one generation\<close>

datatype 'a reader = Answer 'a | Fail nexus_error | Get string "setting option \<Rightarrow> 'a reader"

primrec reader_bind :: "'a reader \<Rightarrow> ('a \<Rightarrow> 'b reader) \<Rightarrow> 'b reader" where
  "reader_bind (Answer a) k = k a"
| "reader_bind (Fail e) k = Fail e"
| "reader_bind (Get key f) k = Get key (\<lambda>row. reader_bind (f row) k)"

definition SETTING_GENERATION_ATTEMPTS :: nat where "SETTING_GENERATION_ATTEMPTS = 5"

definition sameRow :: "setting option \<Rightarrow> setting option \<Rightarrow> bool" where
  "sameRow a b = (case (a, b) of
      (Some x, Some y) \<Rightarrow> st_updated_at x = st_updated_at y \<and> st_encrypted x = st_encrypted y \<and> deep_eq (st_value x) (st_value y)
    | _ \<Rightarrow> a = None \<and> b = None)"

text \<open>\<open>seen\<close>: every row found under a key, keys in the order of their first lookup.\<close>

type_synonym seen = "(string \<times> setting option list) list"

fun record_row :: "string \<Rightarrow> setting option \<Rightarrow> seen \<Rightarrow> seen" where
  "record_row key row [] = [(key, [row])]"
| "record_row key row ((k, rows) # rest) = (if k = key then (k, rows @ [row]) # rest else (k, rows) # record_row key row rest)"

primrec recording :: "'a reader \<Rightarrow> seen \<Rightarrow> ('a \<times> seen) io" where
  "recording (Answer a) seen = io_return (a, seen)"
| "recording (Fail e) seen = io_throw (plain e)"
| "recording (Get key f) seen =
     io_bind (io_read (\<lambda>db. settings_get db key)) (\<lambda>row. recording (f row) (record_row key row seen))"

fun unchanged :: "seen \<Rightarrow> bool io" where
  "unchanged [] = io_return True"
| "unchanged ((key, rows) # rest) =
     io_bind (io_read (\<lambda>db. settings_get db key)) (\<lambda>current.
     if \<not> list_all (\<lambda>row. sameRow row current) rows then io_return False else unchanged rest)"

primrec bound_attempts :: "nat \<Rightarrow> string \<Rightarrow> (setting option \<Rightarrow> 'a reader) \<Rightarrow> 'a io" where
  "bound_attempts 0 key read = io_throw (plain (conflict
     (''The '' @ key @ '' setting kept changing while it was being read; retry'') (Some (JObj [(''setting'', JStr key)]))))"
| "bound_attempts (Suc n) key read =
     io_bind (io_read (\<lambda>db. settings_get db key)) (\<lambda>anchor.
     io_bind (recording (read anchor) [(key, [anchor])]) (\<lambda>(result, seen).
     io_bind (unchanged seen) (\<lambda>same.
     if same then io_return result else bound_attempts n key read)))"

definition readBoundToSetting :: "string \<Rightarrow> (setting option \<Rightarrow> 'a reader) \<Rightarrow> 'a io" where
  "readBoundToSetting key read = bound_attempts SETTING_GENERATION_ATTEMPTS key read"

subsection \<open>The registration policy\<close>

record registration_policy =
  rp_open_registration :: bool
  rp_require_email_verification :: bool
  rp_allowed_roles :: "string list"

definition DEFAULT_REGISTRATION_POLICY :: registration_policy where
  "DEFAULT_REGISTRATION_POLICY =
     \<lparr>rp_open_registration = True, rp_require_email_verification = False, rp_allowed_roles = [''client'', ''provider'']\<rparr>"

definition REGISTRATION_SETTINGS_KEY :: string where "REGISTRATION_SETTINGS_KEY = ''registration''"

text \<open>The properties of a value; an array has none of those that are looked up, and nothing else has any.\<close>

definition props :: "json \<Rightarrow> string \<Rightarrow> json option" where
  "props v = (case v of JObj m \<Rightarrow> map_of m | _ \<Rightarrow> (\<lambda>_. None))"

fun text_items :: "json list \<Rightarrow> string list" where
  "text_items [] = []"
| "text_items (JStr s # vs) = s # text_items vs"
| "text_items (v # vs) = text_items vs"

definition readRegistrationPolicy :: "portal_db \<Rightarrow> registration_policy" where
  "readRegistrationPolicy db = (case settings_get db REGISTRATION_SETTINGS_KEY of
      None \<Rightarrow> DEFAULT_REGISTRATION_POLICY
    | Some row \<Rightarrow>
        let p = props (st_value row)
        in \<lparr>rp_open_registration = (p ''open_registration'' \<noteq> Some (JBool False)),
            rp_require_email_verification = (p ''require_email_verification'' = Some (JBool True)),
            rp_allowed_roles = (case p ''allowed_roles'' of Some (JArr vs) \<Rightarrow> text_items vs
               | _ \<Rightarrow> rp_allowed_roles DEFAULT_REGISTRATION_POLICY)\<rparr>)"

subsection \<open>Single sign-on settings\<close>

definition SSO_SETTINGS_KEY :: string where "SSO_SETTINGS_KEY = ''sso''"

definition ssoClientSecretKey :: "string \<Rightarrow> string" where
  "ssoClientSecretKey providerId = ''sso.client_secret.'' @ providerId"

datatype login_policy = Local_Only | Sso_Only | Local_And_Sso

definition asLoginPolicy :: "json option \<Rightarrow> login_policy" where
  "asLoginPolicy v = (case v of
      Some (JStr s) \<Rightarrow> if s = ''local_only'' then Local_Only else if s = ''sso_only'' then Sso_Only else Local_And_Sso
    | _ \<Rightarrow> Local_And_Sso)"

record stored_sso_settings =
  sx_policy :: login_policy
  sx_allowed_email_domains :: "string list"
  sx_deprovision_on_access_loss :: bool
  sx_providers :: "sso_settings list"

text \<open>\<open>[...new Set(xs)]\<close>: each value where it first occurs.\<close>

definition first_occurrences :: "string list \<Rightarrow> string list" where
  "first_occurrences xs = rev (remdups (rev xs))"

definition parseStoredSsoSettings :: "setting option \<Rightarrow> stored_sso_settings" where
  "parseStoredSsoSettings row =
     (let p = (case row of None \<Rightarrow> (\<lambda>_. None) | Some r \<Rightarrow> props (st_value r));
          items = (\<lambda>v. case v of Some (JArr vs) \<Rightarrow> vs | _ \<Rightarrow> [])
      in \<lparr>sx_policy = asLoginPolicy (p ''policy''),
          sx_allowed_email_domains = first_occurrences (List.map_filter
            (\<lambda>v. case v of JStr s \<Rightarrow> normalizeEmailDomain s | _ \<Rightarrow> None) (items (p ''allowed_email_domains''))),
          sx_deprovision_on_access_loss = (p ''deprovision_on_access_loss'' = Some (JBool True)),
          sx_providers = List.map_filter ssoProviderSettingsSchema (items (p ''providers''))\<rparr>)"

definition readStoredSsoSettings :: "portal_db \<Rightarrow> stored_sso_settings" where
  "readStoredSsoSettings db = parseStoredSsoSettings (settings_get db SSO_SETTINGS_KEY)"

definition readLoginPolicy :: "portal_db \<Rightarrow> login_policy" where
  "readLoginPolicy db = sx_policy (readStoredSsoSettings db)"

text \<open>The environment's providers, each with its client secret.\<close>

datatype provider_source = From_Environment | From_Settings

type_synonym env_providers = "(sso_settings \<times> string option) list"

definition providersInForce :: "env_providers \<Rightarrow> stored_sso_settings \<Rightarrow> (sso_settings \<times> provider_source) list" where
  "providersInForce declared stored =
     map (\<lambda>(p, _). (p, From_Environment)) declared @
     map (\<lambda>p. (p, From_Settings)) (filter (\<lambda>p. ss_id p \<notin> set (map (\<lambda>(e, _). ss_id e) declared)) (sx_providers stored))"

definition shadowedProviderIds :: "env_providers \<Rightarrow> stored_sso_settings \<Rightarrow> string list" where
  "shadowedProviderIds declared stored =
     map ss_id (filter (\<lambda>p. ss_id p \<in> set (map (\<lambda>(e, _). ss_id e) declared)) (sx_providers stored))"

text \<open>A link to a provider in force that forbids the local password of a linked account.\<close>

definition strictly_linked :: "env_providers \<Rightarrow> stored_sso_settings \<Rightarrow> user_identity list \<Rightarrow> bool" where
  "strictly_linked declared stored identities =
     (let strict = map (ss_id \<circ> fst) (filter (ss_disable_local_password_for_linked \<circ> fst) (providersInForce declared stored))
      in list_ex (\<lambda>i. ui_provider_id i \<in> set strict) identities)"

text \<open>The rule in a transaction, and as separate reads outside of one.\<close>

definition localPasswordBlocked :: "env_providers \<Rightarrow> portal_db \<Rightarrow> string \<Rightarrow> role \<Rightarrow> bool" where
  "localPasswordBlocked declared db userId role =
     (if role = Super_Admin then False
      else if passwordLocks_findByUser db userId then True
      else strictly_linked declared (readStoredSsoSettings db) (userIdentities_listByUser db userId))"

definition io_localPasswordBlocked :: "env_providers \<Rightarrow> string \<Rightarrow> role \<Rightarrow> bool io" where
  "io_localPasswordBlocked declared userId role =
     (if role = Super_Admin then io_return False
      else
        io_bind (io_read (\<lambda>db. passwordLocks_findByUser db userId)) (\<lambda>locked.
        if locked then io_return True
        else
          io_bind (io_read (\<lambda>db. userIdentities_listByUser db userId)) (\<lambda>identities.
          if identities = [] then io_return False
          else
            io_bind (io_read readStoredSsoSettings) (\<lambda>stored.
            io_return (strictly_linked declared stored identities)))))"

subsection \<open>The providers with their secrets\<close>

datatype client_secret_read = Secret_Absent | Secret_Value string | Secret_Unreadable

text \<open>\<open>decrypt\<close> opens what was encrypted for a key, or throws.\<close>

definition readClientSecret :: "(string \<Rightarrow> string \<Rightarrow> json option) \<Rightarrow> string \<Rightarrow> client_secret_read reader" where
  "readClientSecret decrypt providerId = Get (ssoClientSecretKey providerId) (\<lambda>row. Answer (case row of
      None \<Rightarrow> Secret_Absent
    | Some r \<Rightarrow> (case st_value r of
          JStr sealed \<Rightarrow>
            if \<not> st_encrypted r then Secret_Unreadable
            else (case decrypt (ssoClientSecretKey providerId) sealed of
                Some (JStr v) \<Rightarrow> if v \<noteq> [] then Secret_Value v else Secret_Unreadable
              | _ \<Rightarrow> Secret_Unreadable)
        | _ \<Rightarrow> Secret_Unreadable)))"

record resolved_provider =
  rv_settings :: sso_settings
  rv_source :: provider_source
  rv_client_secret :: "string option"
  rv_secret_unreadable :: bool

definition declared_secret :: "env_providers \<Rightarrow> string \<Rightarrow> string option" where
  "declared_secret declared i = (case List.find (\<lambda>(p, _). ss_id p = i) declared of None \<Rightarrow> None | Some (_, s) \<Rightarrow> s)"

fun resolveWithSecrets ::
  "(string \<Rightarrow> string \<Rightarrow> json option) \<Rightarrow> env_providers \<Rightarrow> (sso_settings \<times> provider_source) list \<Rightarrow> resolved_provider list reader" where
  "resolveWithSecrets decrypt declared [] = Answer []"
| "resolveWithSecrets decrypt declared ((p, From_Environment) # rest) =
     reader_bind (resolveWithSecrets decrypt declared rest) (\<lambda>more. Answer
       (\<lparr>rv_settings = p, rv_source = From_Environment, rv_client_secret = declared_secret declared (ss_id p),
         rv_secret_unreadable = False\<rparr> # more))"
| "resolveWithSecrets decrypt declared ((p, From_Settings) # rest) =
     reader_bind (readClientSecret decrypt (ss_id p)) (\<lambda>secret.
     reader_bind (resolveWithSecrets decrypt declared rest) (\<lambda>more. Answer
       (\<lparr>rv_settings = p, rv_source = From_Settings,
         rv_client_secret = (case secret of Secret_Value v \<Rightarrow> Some v | _ \<Rightarrow> None),
         rv_secret_unreadable = (secret = Secret_Unreadable)\<rparr> # more)))"

definition SSO_CHANGED :: nexus_error where
  "SSO_CHANGED = conflict ''The single sign-on settings changed during this request; retry'' (Some (JObj [(''setting'', JStr SSO_SETTINGS_KEY)]))"

definition resolveSsoProviders ::
  "(string \<Rightarrow> string \<Rightarrow> json option) \<Rightarrow> env_providers \<Rightarrow> stored_sso_settings \<Rightarrow> resolved_provider list io" where
  "resolveSsoProviders decrypt declared stored = readBoundToSetting SSO_SETTINGS_KEY (\<lambda>row.
     if parseStoredSsoSettings row \<noteq> stored then Fail SSO_CHANGED
     else resolveWithSecrets decrypt declared (providersInForce declared stored))"

end
