(* ===== verification/Captcha.thy ===== *)
theory Captcha
  imports Settings
begin

section \<open>The challenge before sign-in\<close>

text \<open>
  Models \<open>server/src/auth/captcha.ts\<close>. The HTTP call to the vendor is the argument \<open>transport\<close>, which is
  given the address and the form and answers whether the vendor accepted, or throws; opening the encrypted
  secret is \<open>decrypt\<close>. Logging is left out.
\<close>

datatype enforcement = Enforced | Enforcement_Disabled

datatype captcha_outcome = Not_Required | Verified | Bypassed

definition CAPTCHA_SETTINGS_KEY :: string where "CAPTCHA_SETTINGS_KEY = ''captcha''"
definition CAPTCHA_SECRET_SETTINGS_KEY :: string where "CAPTCHA_SECRET_SETTINGS_KEY = ''captcha.secret_key''"

definition CAPTCHA_VERIFY_URLS :: "(string \<times> string) list" where
  "CAPTCHA_VERIFY_URLS =
     [(''turnstile'', ''https://challenges.cloudflare.com/turnstile/v0/siteverify''),
      (''hcaptcha'', ''https://api.hcaptcha.com/siteverify''),
      (''recaptcha'', ''https://www.google.com/recaptcha/api/siteverify'')]"

text \<open>The provider is whatever the stored value holds.\<close>

record captcha_settings =
  ct_enabled :: bool
  ct_provider :: json
  ct_site_key :: "string option"

type_synonym transport = "string option \<Rightarrow> (string \<times> string) list \<Rightarrow> bool io"

definition parseSettings :: "setting option \<Rightarrow> captcha_settings" where
  "parseSettings row =
     (let p = (case row of None \<Rightarrow> (\<lambda>_. None) | Some r \<Rightarrow> props (st_value r))
      in \<lparr>ct_enabled = (p ''enabled'' = Some (JBool True)),
          ct_provider = (case p ''provider'' of None \<Rightarrow> JStr ''none'' | Some JNull \<Rightarrow> JStr ''none'' | Some v \<Rightarrow> v),
          ct_site_key = (case p ''site_key'' of Some (JStr s) \<Rightarrow> if js_trim s \<noteq> [] then Some (js_trim s) else None | _ \<Rightarrow> None)\<rparr>)"

definition isConfigured :: "captcha_settings \<Rightarrow> bool" where
  "isConfigured settings \<longleftrightarrow> ct_enabled settings \<and> ct_provider settings \<noteq> JStr ''none''"

text \<open>What the secret's row holds; an encrypted value that is not text is opened as its text, which fails.\<close>

definition secret_of :: "(string \<Rightarrow> string \<Rightarrow> json option) \<Rightarrow> setting option \<Rightarrow> string option" where
  "secret_of decrypt row = (case row of
      None \<Rightarrow> None
    | Some r \<Rightarrow> (case st_value r of
          JStr v \<Rightarrow> if \<not> st_encrypted r then Some v
                    else (case decrypt CAPTCHA_SECRET_SETTINGS_KEY v of Some (JStr s) \<Rightarrow> Some s | _ \<Rightarrow> None)
        | _ \<Rightarrow> None))"

definition isActive :: "enforcement \<Rightarrow> captcha_settings \<Rightarrow> portal_db \<Rightarrow> bool" where
  "isActive enforcement settings db \<longleftrightarrow> enforcement = Enforced \<and> isConfigured settings \<and> ct_site_key settings \<noteq> None \<and>
     settings_get db CAPTCHA_SECRET_SETTINGS_KEY \<noteq> None"

text \<open>\<open>getPublicConfig\<close>: whether it is active, the provider, and the site key when it is.\<close>

definition getPublicConfig :: "enforcement \<Rightarrow> (bool \<times> json \<times> string option) io" where
  "getPublicConfig enforcement =
     io_bind (io_read (\<lambda>db. parseSettings (settings_get db CAPTCHA_SETTINGS_KEY))) (\<lambda>settings.
     if enforcement = Enforced \<and> isConfigured settings \<and> ct_site_key settings \<noteq> None
     then io_bind (io_read (isActive enforcement settings)) (\<lambda>active.
          io_return (active, ct_provider settings, if active then ct_site_key settings else None))
     else io_return (False, ct_provider settings, None))"

definition askVendor :: "transport \<Rightarrow> json \<Rightarrow> string \<Rightarrow> string \<Rightarrow> string option \<Rightarrow> string \<Rightarrow> bool io" where
  "askVendor transport provider secret token remoteIp siteKey =
     transport (case provider of JStr p \<Rightarrow> map_of CAPTCHA_VERIFY_URLS p | _ \<Rightarrow> None)
       ([(''secret'', secret), (''response'', token)] @
        (if truthy remoteIp then [(''remoteip'', the remoteIp)] else []) @
        (if provider = JStr ''hcaptcha'' then [(''sitekey'', siteKey)] else []))"

definition captcha_reader :: "(string \<Rightarrow> string \<Rightarrow> json option) \<Rightarrow> setting option \<Rightarrow> (captcha_settings \<times> string option) reader" where
  "captcha_reader decrypt row =
     Get CAPTCHA_SECRET_SETTINGS_KEY (\<lambda>secret. Answer (parseSettings row, secret_of decrypt secret))"

definition blank :: "string option \<Rightarrow> bool" where
  "blank v \<longleftrightarrow> (case v of None \<Rightarrow> True | Some s \<Rightarrow> js_trim s = [])"

definition ask_and_judge :: "transport \<Rightarrow> captcha_settings \<Rightarrow> string \<Rightarrow> string \<Rightarrow> string option \<Rightarrow> captcha_outcome io" where
  "ask_and_judge transport settings secret token remoteIp =
     io_bind (io_catch (askVendor transport (ct_provider settings) secret token remoteIp (the (ct_site_key settings)))
         (\<lambda>_. io_throw (plain (captchaFailed ''CAPTCHA could not be verified, please try again'')))) (\<lambda>success.
     if \<not> success then io_throw (plain (captchaFailed ''CAPTCHA verification failed'')) else io_return Verified)"

definition captcha_verify ::
  "(string \<Rightarrow> string \<Rightarrow> json option) \<Rightarrow> transport \<Rightarrow> enforcement \<Rightarrow> string option \<Rightarrow> string option \<Rightarrow> captcha_outcome io" where
  "captcha_verify decrypt transport enforcement token remoteIp =
     io_bind (io_read (\<lambda>db. parseSettings (settings_get db CAPTCHA_SETTINGS_KEY))) (\<lambda>first.
     if \<not> isConfigured first then io_return Not_Required
     else if enforcement = Enforcement_Disabled then io_return Bypassed
     else
       io_bind (readBoundToSetting CAPTCHA_SETTINGS_KEY (captcha_reader decrypt)) (\<lambda>(settings, secret).
       if \<not> isConfigured settings then io_return Not_Required
       else if ct_site_key settings = None \<or> blank secret
       then io_throw (plain (captchaFailed ''CAPTCHA is enabled but not fully configured''))
       else if blank token then io_throw (plain (captchaFailed ''CAPTCHA response is required''))
       else ask_and_judge transport settings (the secret) (the token) remoteIp))"

text \<open>The proof a settings write asks for, of the configuration it is about to store.\<close>

definition captcha_selfTest :: "transport \<Rightarrow> string \<Rightarrow> string \<Rightarrow> string \<Rightarrow> string option \<Rightarrow> string option \<Rightarrow> unit io" where
  "captcha_selfTest transport provider siteKey secret token remoteIp =
     (if blank token then io_throw (plain (captchaSelfTestFailed ''token_required''
          (''Turning CAPTCHA on, or changing its provider, site key or secret key, requires a '' @
           ''captcha_token minted by the configuration being saved, so the portal cannot start '' @
           ''demanding a challenge it is unable to verify'')))
      else io_bind (io_catch (askVendor transport (JStr provider) secret (the token) remoteIp siteKey)
             (\<lambda>_. io_throw (plain (captchaSelfTestFailed ''provider_unreachable''
               (''The CAPTCHA provider could not be reached to verify the configuration, so it was '' @
                ''not saved. Check outbound network access from the portal and try again''))))) (\<lambda>success.
           if \<not> success then io_throw (plain (captchaSelfTestFailed ''rejected''
               (''The CAPTCHA provider rejected the challenge solved for this configuration, so it '' @
                ''was not saved. Check the site key and secret key belong to the same site'')))
           else io_return ()))"

end
