(* ===== verification/Auth.thy ===== *)
theory Auth
  imports Captcha Users
begin

section \<open>Registration, sign-in and account recovery\<close>

text \<open>
  Models \<open>server/src/auth/service.ts\<close>. The cryptographic functions, the challenge (\<open>captcha_verify\<close> of
  \<open>Captcha\<close> with its own arguments) and the hooks of the composition root (the mail of a verification or a
  reset, what a first proof of an address triggers) are arguments. The time floor that hides how long an
  answer took, the client's address and the details of audit rows are left out. One instant stands for the
  clock readings inside a transaction.
\<close>

subsection \<open>Configuration and cryptography\<close>

record auth_config =
  ag_bootstrap_token :: "string option"
  ag_break_glass :: bool
  ag_providers :: env_providers
  ag_session_ttl :: int

record auth_crypto =
  ay_hashToken :: "string \<Rightarrow> string"
  ay_hashPassword :: "string \<Rightarrow> string"
  ay_verifyPassword :: "string \<Rightarrow> string \<Rightarrow> bool"
  ay_iso :: "int \<Rightarrow> string"

definition EMAIL_VERIFICATION_TTL_SECONDS :: int where "EMAIL_VERIFICATION_TTL_SECONDS = 86400"
definition PASSWORD_RESET_TTL_SECONDS :: int where "PASSWORD_RESET_TTL_SECONDS = 3600"
definition PASSWORD_RESET_THROTTLE_SECONDS :: int where "PASSWORD_RESET_THROTTLE_SECONDS = 600"
definition VERIFICATION_RESEND_THROTTLE_SECONDS :: int where "VERIFICATION_RESEND_THROTTLE_SECONDS = 600"
definition DEFAULT_PAGE_SIZE :: nat where "DEFAULT_PAGE_SIZE = 25"

definition SUPER_ADMIN_CLAIM_KEY :: string where "SUPER_ADMIN_CLAIM_KEY = ''bootstrap.super_admin_claimed''"

definition SIGN_IN_LEASE_LOST_MESSAGE :: string where
  "SIGN_IN_LEASE_LOST_MESSAGE = ''Signing in took too long and no session was created - please sign in again''"
definition SIGN_IN_BUSY_MESSAGE :: string where
  "SIGN_IN_BUSY_MESSAGE = ''Signing in is taking longer than usual and no session was created - please try again''"
definition RESET_BUSY_MESSAGE :: string where
  "RESET_BUSY_MESSAGE = ''Your password could not be reset right now and nothing was changed - please try the link again''"

definition PASSWORD_LOGIN_DISABLED :: nexus_error where
  "PASSWORD_LOGIN_DISABLED = forbidden ''Password sign-in is disabled on this portal - sign in with single sign-on''"
definition REGISTRATION_SSO_ONLY :: nexus_error where
  "REGISTRATION_SSO_ONLY = forbidden ''Self-service registration is disabled on this portal - sign in with single sign-on''"
definition BAD_CREDENTIALS :: nexus_error where
  "BAD_CREDENTIALS = unauthorized ''Email address or password is incorrect''"
definition UNVERIFIED :: nexus_error where
  "UNVERIFIED = emailNotVerified ''Please verify your email address before signing in''"
definition USER_IS_DISABLED :: nexus_error where
  "USER_IS_DISABLED = userDisabled ''This account has been disabled''"
definition PASSWORD_TOO_SHORT :: nexus_error where
  "PASSWORD_TOO_SHORT = validationFailed ''Password must be at least 12 characters'' None"

definition invalidResetLink :: nexus_error where
  "invalidResetLink = validationFailed ''That password reset link is not valid or has expired'' None"

definition io_rewordLeaseLost :: "string \<Rightarrow> 'a io \<Rightarrow> 'a io" where
  "io_rewordLeaseLost message m = io_catch m (\<lambda>f. io_throw (if isLeaseLost f then leaseLost message else f))"

definition rewordLockTimeout :: "string \<Rightarrow> 'a io \<Rightarrow> 'a io" where
  "rewordLockTimeout message m = io_catch m (\<lambda>f. io_throw (if isLockTimeout f then plain (conflict message None) else f))"

text \<open>A transaction of a check that reads the store.\<close>

definition tx_require :: "(portal_db \<Rightarrow> bool) \<Rightarrow> nexus_error \<Rightarrow> unit tx" where
  "tx_require p e = tx_check (\<lambda>db. if p db then Inr () else Inl e)"

subsection \<open>Registration\<close>

record register_input =
  ri_email :: string
  ri_password :: string
  ri_display_name :: string
  ri_role :: role
  ri_company :: "string option"
  ri_phone :: "string option"
  ri_captcha_token :: "string option"
  ri_bootstrap_token :: "string option"

record registration_draft =
  dr_email :: string
  dr_passwordHash :: string
  dr_displayName :: string
  dr_role :: role
  dr_company :: "string option"
  dr_phone :: "string option"
  dr_requireEmailVerification :: bool

record registration_outcome =
  ro_record :: user
  ro_promoted :: bool
  ro_verificationToken :: "string option"

text \<open>What the transaction of a registration draws.\<close>

record registration_mint =
  gm_user_id :: string
  gm_token :: string
  gm_token_id :: string
  gm_now :: int

definition requireBootstrapToken :: "auth_config \<Rightarrow> string option \<Rightarrow> nexus_error + unit" where
  "requireBootstrapToken config presented =
     guard (case (ag_bootstrap_token config, presented) of (Some expected, Some p) \<Rightarrow> p = expected | _ \<Rightarrow> False)
       (forbidden (''This portal has no super_admin yet, so the next registration becomes its super_admin '' @
          ''and must include the bootstrap token printed in the server log at startup '' @
          ''(or the configured NEXUS_BOOTSTRAP_TOKEN)''))"

definition draft_user :: "string \<Rightarrow> registration_draft \<Rightarrow> bool \<Rightarrow> user" where
  "draft_user i draft founder =
     \<lparr>u_id = i, u_role = (if founder then Super_Admin else dr_role draft), u_status = User_Active, u_email = dr_email draft,
      u_email_verified = (founder \<or> \<not> dr_requireEmailVerification draft), u_display_name = dr_displayName draft,
      u_company = dr_company draft, u_phone = dr_phone draft, u_org_id = None, u_password_hash = dr_passwordHash draft,
      u_last_login_at = None\<rparr>"

definition token_row :: "auth_crypto \<Rightarrow> string \<Rightarrow> string \<Rightarrow> string \<Rightarrow> token_purpose \<Rightarrow> int \<Rightarrow> int \<Rightarrow> token" where
  "token_row crypto i userId token purpose ttlSeconds now =
     \<lparr>vt_id = i, vt_user_id = userId, vt_token_hash = ay_hashToken crypto token, vt_purpose = purpose,
      vt_expires_at = now + ttlSeconds * 1000, vt_used_at = None, vt_created_at = now\<rparr>"

definition persistRegistration :: "auth_crypto \<Rightarrow> registration_mint \<Rightarrow> registration_draft \<Rightarrow> bool \<Rightarrow> registration_outcome tx" where
  "persistRegistration crypto m draft founder =
     tx_bind (users_create (draft_user (gm_user_id m) draft founder)) (\<lambda>row.
     tx_bind (if founder
         then tx_bind (tx_of (settings_set SUPER_ADMIN_CLAIM_KEY
                (JObj [(''user_id'', JStr (u_id row)), (''claimed_at'', JStr (ay_iso crypto (gm_now m)))]) False (gm_now m)))
              (\<lambda>_. tx_return ())
         else tx_return ()) (\<lambda>_.
     let requiresVerification = (\<not> founder \<and> dr_requireEmailVerification draft) in
     tx_bind (if requiresVerification
         then tx_bind (verificationTokens_create
                (token_row crypto (gm_token_id m) (u_id row) (gm_token m) Email_Verification EMAIL_VERIFICATION_TTL_SECONDS (gm_now m)))
              (\<lambda>_. tx_return (Some (gm_token m)))
         else tx_return None) (\<lambda>token.
     tx_bind (tx_audit (Some (u_id row)) AUTH_REGISTER (u_id row) (gm_now m)) (\<lambda>_.
     tx_return \<lparr>ro_record = row, ro_promoted = founder, ro_verificationToken = token\<rparr>))))"

text \<open>The policies in force, applied to an ordinary registration; the verification rule is the current one.\<close>

definition registration_refusal :: "login_policy \<Rightarrow> registration_policy \<Rightarrow> role \<Rightarrow> nexus_error option" where
  "registration_refusal login policy role =
     (if login = Sso_Only then Some REGISTRATION_SSO_ONLY
      else if \<not> rp_open_registration policy then Some (forbidden ''Self-service registration is currently closed'')
      else if role_name role \<notin> set (rp_allowed_roles policy)
      then Some (forbidden (''Registration with the '' @ role_name role @ '' role is not permitted''))
      else None)"

definition applyRegistrationPolicy :: "registration_draft \<Rightarrow> registration_draft tx" where
  "applyRegistrationPolicy draft =
     tx_bind (tx_read (\<lambda>db. (readLoginPolicy db, readRegistrationPolicy db))) (\<lambda>(login, current).
     case registration_refusal login current (dr_role draft) of
       Some e \<Rightarrow> tx_throw e
     | None \<Rightarrow> tx_return (draft\<lparr>dr_requireEmailVerification := rp_require_email_verification current\<rparr>))"

definition seatFounder :: "auth_crypto \<Rightarrow> registration_mint \<Rightarrow> registration_draft \<Rightarrow> registration_outcome tx" where
  "seatFounder crypto m draft =
     tx_bind (tx_read (\<lambda>db. users_countAllActiveSuperAdmins db > 0)) (\<lambda>seatTaken.
     tx_bind (if seatTaken then applyRegistrationPolicy draft else tx_return draft) (\<lambda>draft1.
     persistRegistration crypto m draft1 (\<not> seatTaken)))"

definition ordinary_registration :: "auth_crypto \<Rightarrow> registration_mint \<Rightarrow> registration_draft \<Rightarrow> registration_outcome tx" where
  "ordinary_registration crypto m draft =
     tx_bind (applyRegistrationPolicy draft) (\<lambda>draft1. persistRegistration crypto m draft1 False)"

definition io_registration_mint :: "registration_mint io" where
  "io_registration_mint =
     io_bind io_newId (\<lambda>u. io_bind io_newId (\<lambda>token. io_bind io_newId (\<lambda>i. io_bind io_now (\<lambda>now.
     io_return \<lparr>gm_user_id = u, gm_token = token, gm_token_id = i, gm_now = now\<rparr>))))"

definition commit_registration :: "auth_crypto \<Rightarrow> bool \<Rightarrow> registration_draft \<Rightarrow> registration_outcome io" where
  "commit_registration crypto seatOpen draft =
     (if seatOpen
      then io_lock SUPER_ADMIN_LOCK_KEY (io_lock REGISTRATION_POLICY_LOCK_KEY
             (io_bind io_registration_mint (\<lambda>m. io_tx (seatFounder crypto m draft))))
      else io_lock REGISTRATION_POLICY_LOCK_KEY
             (io_bind io_registration_mint (\<lambda>m. io_tx (ordinary_registration crypto m draft))))"

text \<open>The checks with no lock held; they decide whether the registration stands for the founder's seat.\<close>

definition registration_gate :: "auth_config \<Rightarrow> registration_policy \<Rightarrow> register_input \<Rightarrow> bool \<Rightarrow> unit io" where
  "registration_gate config policy input seatOpen =
     (if seatOpen then io_result (requireBootstrapToken config (ri_bootstrap_token input))
      else io_bind (io_read readLoginPolicy) (\<lambda>login. case registration_refusal login policy (ri_role input) of
             Some e \<Rightarrow> io_throw (plain e) | None \<Rightarrow> io_return ()))"

record register_result =
  rr_user :: user
  rr_emailVerificationRequired :: bool
  rr_issued :: "issued_session option"

definition register_checks :: "register_input \<Rightarrow> nexus_error + unit" where
  "register_checks input =
     (if isReleasedEmail (js_lower (js_trim (ri_email input))) then Inl (validationFailed ''That email domain is reserved'' None)
      else if length (ri_password input) < MIN_PASSWORD_LENGTH then Inl PASSWORD_TOO_SHORT
      else if ri_role input \<notin> set REGISTRABLE_ROLES then Inl (validationFailed ''Role must be client or provider'' None)
      else Inr ())"

definition make_draft :: "auth_crypto \<Rightarrow> register_input \<Rightarrow> bool \<Rightarrow> registration_draft" where
  "make_draft crypto input verify =
     \<lparr>dr_email = js_lower (js_trim (ri_email input)), dr_passwordHash = ay_hashPassword crypto (ri_password input),
      dr_displayName = js_trim (ri_display_name input), dr_role = ri_role input, dr_company = ri_company input,
      dr_phone = ri_phone input, dr_requireEmailVerification = verify\<rparr>"

definition register ::
  "auth_config \<Rightarrow> auth_crypto \<Rightarrow> (string option \<Rightarrow> captcha_outcome io) \<Rightarrow> (user \<Rightarrow> string option \<Rightarrow> unit io) \<Rightarrow>
     register_input \<Rightarrow> register_result io" where
  "register config crypto captcha onRegistered input =
     io_bind (io_read readRegistrationPolicy) (\<lambda>policy.
     io_bind (io_result (register_checks input)) (\<lambda>_.
     io_bind (captcha (ri_captcha_token input)) (\<lambda>_.
     io_bind (io_read (\<lambda>db. users_countAllActiveSuperAdmins db = 0)) (\<lambda>seatOpen.
     io_bind (registration_gate config policy input seatOpen) (\<lambda>_.
     let draft = make_draft crypto input (rp_require_email_verification policy) in
     io_bind (io_read (\<lambda>db. users_findByEmail db (dr_email draft))) (\<lambda>taken.
     io_bind (io_guard (taken = None) (conflict EMAIL_CONFLICT None)) (\<lambda>_.
     io_bind (commit_registration crypto seatOpen draft) (\<lambda>outcome.
     let requiresVerification = (\<not> ro_promoted outcome \<and> ro_verificationToken outcome \<noteq> None) in
     io_bind (onRegistered (ro_record outcome) (ro_verificationToken outcome)) (\<lambda>_.
     io_bind (if requiresVerification then io_return None
         else io_bind (issueSession (ay_hashToken crypto) (ag_session_ttl config) (ro_record outcome)) (\<lambda>s. io_return (Some s)))
       (\<lambda>issued.
     io_return \<lparr>rr_user = ro_record outcome, rr_emailVerificationRequired = requiresVerification, rr_issued = issued\<rparr>))))))))))"

subsection \<open>Sign-in\<close>

record login_input =
  li_email :: string
  li_password :: string
  li_captcha_token :: "string option"

text \<open>\<open>DECOY_PASSWORD_HASH\<close> is the hash that a missing account is compared with.\<close>

definition DECOY_PASSWORD_HASH :: string where
  "DECOY_PASSWORD_HASH = ''scrypt:16384:8:1:AAAAAAAAAAAAAAAAAAAAAA==:'' @ replicate 43 (CHR ''A'') @ ''=''"

text \<open>The account and the policies as they are when the session commits.\<close>

definition login_refusal :: "auth_config \<Rightarrow> portal_db \<Rightarrow> user \<Rightarrow> user \<Rightarrow> nexus_error option" where
  "login_refusal config db verified current =
     (let ssoOnlyNow = (readLoginPolicy db = Sso_Only)
      in if u_password_hash current \<noteq> u_password_hash verified then Some BAD_CREDENTIALS
         else if ssoOnlyNow \<and> \<not> ag_break_glass config then Some PASSWORD_LOGIN_DISABLED
         else if ssoOnlyNow \<and> u_role current \<noteq> Super_Admin then Some BAD_CREDENTIALS
         else if localPasswordBlocked (ag_providers config) db (u_id current) (u_role current) then Some BAD_CREDENTIALS
         else if u_status current \<noteq> User_Active then Some USER_IS_DISABLED
         else if rp_require_email_verification (readRegistrationPolicy db) \<and> \<not> u_email_verified current then Some UNVERIFIED
         else None)"

definition login_tx :: "auth_config \<Rightarrow> auth_crypto \<Rightarrow> user \<Rightarrow> int \<Rightarrow> mint \<Rightarrow> issued_session tx" where
  "login_tx config crypto verified instant m =
     tx_bind (tx_read (\<lambda>db. users_findById db (u_id verified))) (\<lambda>found. case found of
       None \<Rightarrow> tx_throw BAD_CREDENTIALS
     | Some current \<Rightarrow>
         tx_bind (tx_check (\<lambda>db. case login_refusal config db verified current of Some e \<Rightarrow> Inl e | None \<Rightarrow> Inr ())) (\<lambda>_.
         tx_bind (users_updateIfMatches (u_id verified)
             (expect_user\<lparr>ue_status := Some User_Active, ue_password_hash := Some (u_password_hash verified)\<rparr>)
             (no_user_patch\<lparr>up_last_login_at := Some instant\<rparr>)) (\<lambda>touched. case touched of
           None \<Rightarrow> tx_throw BAD_CREDENTIALS
         | Some u \<Rightarrow> issueSession_tx (ay_hashToken crypto) (ag_session_ttl config) u m)))"

definition commit_login :: "auth_config \<Rightarrow> auth_crypto \<Rightarrow> user \<Rightarrow> int \<Rightarrow> issued_session io" where
  "commit_login config crypto verified instant =
     io_rewordLeaseLost SIGN_IN_LEASE_LOST_MESSAGE (io_lock (passwordLockKey (u_id verified))
       (rewordLockTimeout SIGN_IN_BUSY_MESSAGE (io_lock (userLifecycleLockKey (u_id verified))
         (io_lock REGISTRATION_POLICY_LOCK_KEY
           (io_bind io_mint (\<lambda>m. io_tx (login_tx config crypto verified instant m)))))))"

text \<open>The checks against the account as it was found, before any lock.\<close>

definition login_checks :: "auth_config \<Rightarrow> bool \<Rightarrow> user \<Rightarrow> unit io" where
  "login_checks config ssoOnly found =
     io_bind (io_guard (\<not> (ssoOnly \<and> u_role found \<noteq> Super_Admin)) BAD_CREDENTIALS) (\<lambda>_.
     io_bind (io_localPasswordBlocked (ag_providers config) (u_id found) (u_role found)) (\<lambda>blocked.
     io_bind (io_guard (\<not> blocked) BAD_CREDENTIALS) (\<lambda>_.
     io_bind (io_guard (u_status found = User_Active) USER_IS_DISABLED) (\<lambda>_.
     io_bind (io_read readRegistrationPolicy) (\<lambda>policy.
     io_guard (\<not> (rp_require_email_verification policy \<and> \<not> u_email_verified found)) UNVERIFIED)))))"

definition login ::
  "auth_config \<Rightarrow> auth_crypto \<Rightarrow> (string option \<Rightarrow> captcha_outcome io) \<Rightarrow> login_input \<Rightarrow> (user \<times> issued_session) io" where
  "login config crypto captcha input =
     io_bind (io_read (\<lambda>db. readLoginPolicy db = Sso_Only)) (\<lambda>ssoOnly.
     io_bind (io_guard (\<not> (ssoOnly \<and> \<not> ag_break_glass config)) PASSWORD_LOGIN_DISABLED) (\<lambda>_.
     io_bind (captcha (li_captcha_token input)) (\<lambda>_.
     io_bind (io_read (\<lambda>db. users_findByEmail db (js_lower (js_trim (li_email input))))) (\<lambda>found.
     let passwordOk = ay_verifyPassword crypto (li_password input)
           (case found of None \<Rightarrow> DECOY_PASSWORD_HASH | Some u \<Rightarrow> u_password_hash u) in
     case found of
       None \<Rightarrow> io_throw (plain BAD_CREDENTIALS)
     | Some u \<Rightarrow>
         if \<not> passwordOk then io_throw (plain BAD_CREDENTIALS)
         else
           io_bind (login_checks config ssoOnly u) (\<lambda>_.
           io_bind io_now (\<lambda>instant.
           io_bind (commit_login config crypto u instant) (\<lambda>issued.
           io_bind io_now (\<lambda>now.
           io_bind (io_tx (tx_audit (Some (u_id u)) AUTH_LOGIN (u_id u) now)) (\<lambda>_.
           io_return (u\<lparr>u_last_login_at := Some instant\<rparr>, issued))))))))))"

definition logout :: "session option \<Rightarrow> user option \<Rightarrow> unit io" where
  "logout session1 user = (case session1 of
      None \<Rightarrow> io_return ()
    | Some s \<Rightarrow>
        io_bind (io_tx (tx_of (sessions_delete (se_id s)))) (\<lambda>_.
        io_bind io_now (\<lambda>now.
        io_tx (tx_audit (map_option u_id user) AUTH_LOGOUT (se_id s) now))))"

subsection \<open>Single-use links\<close>

definition verify_tx :: "token \<Rightarrow> int \<Rightarrow> user tx" where
  "verify_tx row now =
     tx_bind (tx_of (verificationTokens_markUsed (vt_id row) now)) (\<lambda>burned.
     if \<not> burned then tx_throw (conflict ''That verification link has already been used'' None)
     else
       tx_bind (users_update (vt_user_id row) (no_user_patch\<lparr>up_email_verified := Some True\<rparr>)) (\<lambda>updated. case updated of
         None \<Rightarrow> tx_throw (validationFailed ''That verification link is not valid'' None)
       | Some user \<Rightarrow>
           tx_bind (tx_read (\<lambda>db. emailProofs_findByUser db (u_id user))) (\<lambda>priorProof.
           tx_bind (if (case priorProof of None \<Rightarrow> True | Some p \<Rightarrow> ep_email p \<noteq> js_lower (js_trim (u_email user)))
               then tx_of (emailProofs_upsert (u_id user) (u_email user) By_Verification_Link now) else tx_return ()) (\<lambda>_.
           tx_bind (tx_audit (Some (u_id user)) AUTH_VERIFY_EMAIL (u_id user) now) (\<lambda>_.
           tx_return user)))))"

definition verifyEmail :: "auth_crypto \<Rightarrow> string \<Rightarrow> user io" where
  "verifyEmail crypto token =
     io_bind (io_read (\<lambda>db. verificationTokens_findByTokenHash db (ay_hashToken crypto token) Email_Verification)) (\<lambda>found. case found of
       None \<Rightarrow> io_throw (plain (validationFailed ''That verification link is not valid'' None))
     | Some row \<Rightarrow>
         io_bind (io_guard (vt_used_at row = None) (conflict ''That verification link has already been used'' None)) (\<lambda>_.
         io_bind io_now (\<lambda>now.
         io_bind (io_guard (\<not> vt_expires_at row \<le> now) (validationFailed ''That verification link has expired'' None)) (\<lambda>_.
         io_bind io_now (\<lambda>at1. io_tx (verify_tx row at1))))))"

text \<open>Whatever the body did, the caller gets one answer.\<close>

definition withUniformAnswer :: "unit io \<Rightarrow> unit io" where
  "withUniformAnswer body = io_catch body (\<lambda>_. io_return ())"

text \<open>\<open>prepare\<close> renders the message of a link and answers with what queues it in the transaction.\<close>

type_synonym prepare = "user \<Rightarrow> string \<Rightarrow> (string \<Rightarrow> unit tx) io"

record link_kind =
  lk_purpose :: token_purpose
  lk_ttl :: int
  lk_throttle :: int
  lk_action :: audit_action

definition verification_link :: link_kind where
  "verification_link = \<lparr>lk_purpose = Email_Verification, lk_ttl = EMAIL_VERIFICATION_TTL_SECONDS,
     lk_throttle = VERIFICATION_RESEND_THROTTLE_SECONDS, lk_action = AUTH_VERIFICATION_RESEND\<rparr>"

definition reset_link :: link_kind where
  "reset_link = \<lparr>lk_purpose = Password_Reset, lk_ttl = PASSWORD_RESET_TTL_SECONDS,
     lk_throttle = PASSWORD_RESET_THROTTLE_SECONDS, lk_action = AUTH_PASSWORD_RESET_REQUEST\<rparr>"

text \<open>The writes of a mint: the claim of the window first, then the link in place of any earlier one. The
  answer says whether the window was free.\<close>

definition mint_link :: "auth_crypto \<Rightarrow> link_kind \<Rightarrow> string \<Rightarrow> string \<Rightarrow> string \<Rightarrow> int \<Rightarrow> int \<Rightarrow> (string \<Rightarrow> unit tx) \<Rightarrow> bool tx" where
  "mint_link crypto kind userId token tokenId issuedAt now queueEmail =
     tx_bind (tx_of (verificationTokens_claimIssue userId (lk_purpose kind) issuedAt (issuedAt - lk_throttle kind * 1000))) (\<lambda>claimed.
     if \<not> claimed then tx_return False
     else
       tx_bind (tx_of (verificationTokens_deleteForUser userId (lk_purpose kind))) (\<lambda>_.
       tx_bind (verificationTokens_create (token_row crypto tokenId userId token (lk_purpose kind) (lk_ttl kind) now)) (\<lambda>created.
       tx_bind (tx_audit (Some userId) (lk_action kind) userId now) (\<lambda>_.
       tx_bind (queueEmail (vt_id created)) (\<lambda>_.
       tx_return True)))))"

definition recently_issued :: "link_kind \<Rightarrow> int \<Rightarrow> token option \<Rightarrow> bool" where
  "recently_issued kind now existing =
     (case existing of None \<Rightarrow> False | Some t \<Rightarrow> vt_created_at t > now - lk_throttle kind * 1000)"

definition resend_tx :: "auth_crypto \<Rightarrow> string \<Rightarrow> string \<Rightarrow> string \<Rightarrow> string \<Rightarrow> int \<Rightarrow> int \<Rightarrow> (string \<Rightarrow> unit tx) \<Rightarrow> bool tx" where
  "resend_tx crypto userId email token tokenId issuedAt now queueEmail =
     tx_bind (tx_read (\<lambda>db. users_findById db userId)) (\<lambda>current.
     if (case current of None \<Rightarrow> True | Some u \<Rightarrow> u_status u \<noteq> User_Active \<or> u_email u \<noteq> email \<or> u_email_verified u)
     then tx_return False
     else mint_link crypto verification_link userId token tokenId issuedAt now queueEmail)"

definition resendVerification :: "auth_crypto \<Rightarrow> prepare \<Rightarrow> string \<Rightarrow> unit io" where
  "resendVerification crypto prepare rawEmail = withUniformAnswer
     (let email = js_lower (js_trim rawEmail) in
      io_bind (io_read (\<lambda>db. users_findByEmail db email)) (\<lambda>found. case found of
        None \<Rightarrow> io_return ()
      | Some user \<Rightarrow>
          if u_status user \<noteq> User_Active \<or> u_email_verified user then io_return ()
          else
            io_bind io_now (\<lambda>now1.
            io_bind (io_read (\<lambda>db. verificationTokens_findLatestLiveForUser db (u_id user) Email_Verification now1)) (\<lambda>existing.
            io_bind io_now (\<lambda>now2.
            if recently_issued verification_link now2 existing then io_return ()
            else
              io_bind io_newId (\<lambda>token.
              io_bind (prepare user token) (\<lambda>queueEmail.
              io_bind io_now (\<lambda>issuedAt.
              io_lock (userLifecycleLockKey (u_id user))
                (io_bind io_newId (\<lambda>tokenId. io_bind io_now (\<lambda>now.
                 io_bind (io_tx (resend_tx crypto (u_id user) email token tokenId issuedAt now queueEmail)) (\<lambda>_.
                 io_return ()))))))))))))"

definition reset_link_tx ::
  "auth_config \<Rightarrow> auth_crypto \<Rightarrow> string \<Rightarrow> string \<Rightarrow> string \<Rightarrow> int \<Rightarrow> int \<Rightarrow> (string \<Rightarrow> unit tx) \<Rightarrow> bool tx" where
  "reset_link_tx config crypto userId token tokenId issuedAt now queueEmail =
     tx_bind (tx_read (\<lambda>db. case users_findById db userId of None \<Rightarrow> False
         | Some u \<Rightarrow> u_status u = User_Active \<and> \<not> localPasswordBlocked (ag_providers config) db (u_id u) (u_role u))) (\<lambda>eligible.
     if \<not> eligible then tx_return False
     else mint_link crypto reset_link userId token tokenId issuedAt now queueEmail)"

definition issue_reset :: "auth_config \<Rightarrow> auth_crypto \<Rightarrow> prepare \<Rightarrow> string \<Rightarrow> unit io" where
  "issue_reset config crypto prepare userId =
     io_bind (io_read (\<lambda>db. users_findById db userId)) (\<lambda>found. case found of
       None \<Rightarrow> io_return ()
     | Some current \<Rightarrow>
         if u_status current \<noteq> User_Active then io_return ()
         else
           io_bind (io_localPasswordBlocked (ag_providers config) (u_id current) (u_role current)) (\<lambda>blocked.
           if blocked then io_return ()
           else
             io_bind io_now (\<lambda>now1.
             io_bind (io_read (\<lambda>db. verificationTokens_findLatestLiveForUser db userId Password_Reset now1)) (\<lambda>existing.
             io_bind io_now (\<lambda>now2.
             if recently_issued reset_link now2 existing then io_return ()
             else
               io_bind io_newId (\<lambda>token.
               io_bind (prepare current token) (\<lambda>queueEmail.
               io_bind io_now (\<lambda>issuedAt.
               io_bind io_newId (\<lambda>tokenId. io_bind io_now (\<lambda>now.
               io_bind (io_tx (reset_link_tx config crypto userId token tokenId issuedAt now queueEmail)) (\<lambda>_.
               io_return ())))))))))))"

definition requestPasswordReset :: "auth_config \<Rightarrow> auth_crypto \<Rightarrow> prepare \<Rightarrow> string \<Rightarrow> unit io" where
  "requestPasswordReset config crypto prepare rawEmail = withUniformAnswer
     (io_bind (io_read (\<lambda>db. users_findByEmail db (js_lower (js_trim rawEmail)))) (\<lambda>found. case found of
        None \<Rightarrow> io_return ()
      | Some user \<Rightarrow> io_lock (userLifecycleLockKey (u_id user)) (issue_reset config crypto prepare (u_id user))))"

subsection \<open>The redemption of a reset\<close>

text \<open>One page of the account's pending requests, newest first.\<close>

definition pending_page :: "string \<Rightarrow> portal_db \<Rightarrow> access_request list" where
  "pending_page userId db = take DEFAULT_PAGE_SIZE (rev (sort_key rq_created_at (sort_key rq_id
     (filter (\<lambda>r. rq_user_id r = userId \<and> rq_status r = Rq_Pending) (db_requests db)))))"

fun cancel_page :: "int \<Rightarrow> access_request list \<Rightarrow> nat \<Rightarrow> nat tx" where
  "cancel_page now [] n = tx_return n"
| "cancel_page now (r # rs) n =
     tx_bind (accessRequests_updateIfStatus now (rq_id r) Rq_Pending (no_request_patch\<lparr>pq_status := Some Rq_Cancelled\<rparr>)) (\<lambda>cancelled.
     cancel_page now rs (if cancelled = None then n else Suc n))"

text \<open>The loop ends with an empty page, or with one of which nothing could be cancelled. Every other round
  cancels a request, so as many rounds as there are pending requests, and one, are enough.\<close>

primrec cancel_rounds :: "nat \<Rightarrow> string \<Rightarrow> int \<Rightarrow> nat \<Rightarrow> nat tx" where
  "cancel_rounds 0 userId now n = tx_return n"
| "cancel_rounds (Suc fuel) userId now n =
     tx_bind (tx_read (pending_page userId)) (\<lambda>page.
     if page = [] then tx_return n
     else tx_bind (cancel_page now page n) (\<lambda>n'.
          if n' = n then tx_return n else cancel_rounds fuel userId now n'))"

definition cancel_pending :: "string \<Rightarrow> int \<Rightarrow> nat tx" where
  "cancel_pending userId now =
     tx_bind (tx_read (\<lambda>db. length (filter (\<lambda>r. rq_user_id r = userId \<and> rq_status r = Rq_Pending) (db_requests db)))) (\<lambda>k.
     cancel_rounds (Suc k) userId now 0)"

record reset_mint =
  rs_now :: int
  rs_job_id :: string
  rs_generation :: string

definition first_trusted :: "user \<Rightarrow> email_proof option \<Rightarrow> bool" where
  "first_trusted user priorProof = (case priorProof of
      None \<Rightarrow> True
    | Some p \<Rightarrow> ep_method p = By_Verification_Link \<or> ep_email p \<noteq> js_lower (js_trim (u_email user)))"

definition live_reset :: "int \<Rightarrow> token option \<Rightarrow> bool" where
  "live_reset now t = (case t of None \<Rightarrow> False | Some row \<Rightarrow> vt_used_at row = None \<and> \<not> vt_expires_at row \<le> now)"

definition reset_effects :: "reset_mint \<Rightarrow> user \<Rightarrow> bool tx" where
  "reset_effects m updated =
     tx_bind (tx_read (\<lambda>db. first_trusted updated (emailProofs_findByUser db (u_id updated)))) (\<lambda>firstTrustedProof.
     tx_bind (tx_of (emailProofs_upsert (u_id updated) (u_email updated) By_Password_Reset (rs_now m))) (\<lambda>_.
     tx_bind (if firstTrustedProof
         then tx_bind (accountRecoveryJobs_upsertPending (rs_job_id m) (rs_generation m) (u_id updated) (rs_now m)) (\<lambda>_.
              tx_bind (cancel_pending (u_id updated) (rs_now m)) (\<lambda>_. tx_return ()))
         else tx_return ()) (\<lambda>_.
     tx_bind (tx_of (verificationTokens_deleteForUser (u_id updated) Password_Reset)) (\<lambda>_.
     tx_bind (tx_of (sessions_deleteForUser (u_id updated))) (\<lambda>_.
     tx_bind (tx_audit (Some (u_id updated)) AUTH_PASSWORD_RESET (u_id updated) (rs_now m)) (\<lambda>_.
     tx_return firstTrustedProof))))))"

definition reset_refusal :: "auth_config \<Rightarrow> portal_db \<Rightarrow> string \<Rightarrow> nexus_error option" where
  "reset_refusal config db userId = (case users_findById db userId of
      None \<Rightarrow> Some invalidResetLink
    | Some current \<Rightarrow>
        if u_status current \<noteq> User_Active then Some USER_IS_DISABLED
        else if localPasswordBlocked (ag_providers config) db (u_id current) (u_role current) then Some invalidResetLink
        else None)"

definition reset_tx :: "auth_config \<Rightarrow> auth_crypto \<Rightarrow> string \<Rightarrow> string \<Rightarrow> string \<Rightarrow> reset_mint \<Rightarrow> (user \<times> bool) tx" where
  "reset_tx config crypto userId token passwordHash m =
     tx_bind (tx_read (\<lambda>db. verificationTokens_findByTokenHash db (ay_hashToken crypto token) Password_Reset)) (\<lambda>live.
     if \<not> live_reset (rs_now m) live then tx_throw invalidResetLink
     else
       tx_bind (tx_check (\<lambda>db. case reset_refusal config db userId of Some e \<Rightarrow> Inl e | None \<Rightarrow> Inr ())) (\<lambda>_.
       tx_bind (tx_of (verificationTokens_markUsed (vt_id (the live)) (rs_now m))) (\<lambda>burned.
       if \<not> burned then tx_throw invalidResetLink
       else
         tx_bind (users_updateIfMatches userId (expect_user\<lparr>ue_status := Some User_Active\<rparr>)
             (no_user_patch\<lparr>up_password_hash := Some passwordHash, up_email_verified := Some True\<rparr>)) (\<lambda>row. case row of
           None \<Rightarrow> tx_throw invalidResetLink
         | Some updated \<Rightarrow>
             tx_bind (reset_effects m updated) (\<lambda>firstTrustedProof.
             tx_return (updated, firstTrustedProof))))))"

definition commit_reset :: "auth_config \<Rightarrow> auth_crypto \<Rightarrow> string \<Rightarrow> string \<Rightarrow> string \<Rightarrow> (user \<times> bool) io" where
  "commit_reset config crypto userId token passwordHash =
     rewordLockTimeout RESET_BUSY_MESSAGE (io_lock (accountRecoveryLockKey userId) (io_lock REGISTRATION_POLICY_LOCK_KEY
       (io_bind io_now (\<lambda>now. io_bind io_newId (\<lambda>i. io_bind io_newId (\<lambda>generation.
        io_tx (reset_tx config crypto userId token passwordHash \<lparr>rs_now = now, rs_job_id = i, rs_generation = generation\<rparr>)))))))"

definition resetPassword ::
  "auth_config \<Rightarrow> auth_crypto \<Rightarrow> (user \<Rightarrow> unit io) \<Rightarrow> string \<Rightarrow> string \<Rightarrow> unit io" where
  "resetPassword config crypto onFirstEmailProof token newPassword =
     io_bind (io_guard (\<not> length newPassword < MIN_PASSWORD_LENGTH) PASSWORD_TOO_SHORT) (\<lambda>_.
     io_bind (io_read (\<lambda>db. verificationTokens_findByTokenHash db (ay_hashToken crypto token) Password_Reset)) (\<lambda>found.
     io_bind io_now (\<lambda>now.
     io_bind (io_guard (live_reset now found) invalidResetLink) (\<lambda>_.
     io_bind (io_read (\<lambda>db. users_findById db (vt_user_id (the found)))) (\<lambda>account. case account of
       None \<Rightarrow> io_throw (plain invalidResetLink)
     | Some user \<Rightarrow>
         io_bind (io_guard (u_status user = User_Active) USER_IS_DISABLED) (\<lambda>_.
         io_bind (io_localPasswordBlocked (ag_providers config) (u_id user) (u_role user)) (\<lambda>blocked.
         io_bind (io_guard (\<not> blocked) invalidResetLink) (\<lambda>_.
         io_lock (passwordLockKey (u_id user))
           (io_bind (commit_reset config crypto (u_id user) token (ay_hashPassword crypto newPassword)) (\<lambda>(updated, firstTrustedProof).
            if firstTrustedProof then onFirstEmailProof updated else io_return ()))))))))))"

end
