(* ===== verification/Sessions_Safety.thy ===== *)
theory Sessions_Safety
  imports Sessions Outbox_Safety
begin

section \<open>What a session admits\<close>

text \<open>
  The principal of a request rests on a row that is alive under both of its limits and on an account that
  is active, read when the request came in; a request that changes anything also carries the token of its
  session. The housekeeping of expired rows changes no such decision.
\<close>

subsection \<open>Resolution, step by step\<close>

text \<open>What a program that returned did, from its first step on.\<close>

lemma io_bind_returned: "io_bind m k env w = (Inr b, w') \<longleftrightarrow> (\<exists>a w1. m env w = (Inr a, w1) \<and> k a env w1 = (Inr b, w'))"
  by (auto simp: io_bind_def split: prod.splits sum.splits)

lemma io_read_returned:
  "io_read f env w = (Inr a, w') \<longleftrightarrow> e_fault env (w_tick w) = None \<and> a = f (w_db (advance env w)) \<and> w' = advance env w"
  by (auto simp: io_read_def io_tx_def Let_def split: option.splits fault.splits)

lemma io_now_returned: "io_now env w = (Inr t, w') \<longleftrightarrow> t = e_now env (w_tick w) \<and> w' = w\<lparr>w_tick := Suc (w_tick w)\<rparr>"
  by (auto simp: io_now_def)

lemma io_return_returned: "io_return a env w = (Inr b, w') \<longleftrightarrow> b = a \<and> w' = w"
  by (auto simp: io_return_def)

lemma io_result_returned: "io_result r env w = (Inr a, w') \<longleftrightarrow> r = Inr a \<and> w' = w"
  by (auto simp: io_result_def io_throw_def io_return_def split: sum.splits)

lemmas returned = io_bind_returned io_read_returned io_now_returned io_return_returned io_result_returned

text \<open>A session as it was found, or with a later expiry inside its absolute lifetime.\<close>

definition extends :: "int \<Rightarrow> session \<Rightarrow> session \<Rightarrow> bool" where
  "extends maxAge s s' \<longleftrightarrow> s' = s\<lparr>se_expires_at := se_expires_at s'\<rparr> \<and>
     (se_expires_at s' = se_expires_at s \<or>
      se_expires_at s < se_expires_at s' \<and> se_expires_at s' \<le> se_created_at s + maxAge * 1000)"

lemma slide_session_returned:
  assumes "slide_session ttl maxAge token now s user env w = (Inr st, w')"
  shows "as_user st = Some user" "\<exists>s'. as_session st = Some s' \<and> extends maxAge s s'"
proof -
  have "slidTo ttl maxAge now s \<le> se_created_at s + maxAge * 1000"
    by (simp add: slidTo_def sessionAbsoluteDeadlineMs_def)
  then show "as_user st = Some user" "\<exists>s'. as_session st = Some s' \<and> extends maxAge s s'"
    using assms by (auto simp: slide_session_def extends_def Let_def returned split: if_splits)
qed

lemma resolveSession_returned:
  assumes "resolveSession hashToken ttl maxAge request env w = (Inr st, w')" "as_user st = Some u"
  shows "\<exists>token s s'. isApiRequest request \<and> rt_session_cookie request = Some token \<and>
    sessions_findByTokenHash (e_other env (w_tick w) (w_db w)) (hashToken token) = Some s \<and>
    session_live maxAge (e_now env (w_tick w + 1)) s \<and>
    users_findById (e_other env (w_tick w + 2) (e_other env (w_tick w) (w_db w))) (se_user_id s) = Some u \<and>
    u_status u = User_Active \<and> as_session st = Some s' \<and> extends maxAge s s'"
proof -
  have anon: "as_user anonymous = None" by (simp add: anonymous_def)
  have api: "isApiRequest request" and cookie: "truthy (rt_session_cookie request)"
    using assms anon by (auto simp: resolveSession_def returned split: if_splits)
  then obtain token where token: "rt_session_cookie request = Some token" by (auto simp: truthy_def split: option.splits)
  let ?db = "e_other env (w_tick w) (w_db w)" and ?now = "e_now env (w_tick w + 1)"
  let ?db2 = "e_other env (w_tick w + 2) ?db"
  obtain s where s: "sessions_findByTokenHash ?db (hashToken token) = Some s"
    using assms anon api cookie token by (auto simp: resolveSession_def returned advance_def split: option.splits)
  have live: "session_live maxAge ?now s"
    using assms anon api cookie token s
    by (auto simp: resolveSession_def returned advance_def split: if_splits)
  obtain u' where u': "users_findById ?db2 (se_user_id s) = Some u'" "u_status u' = User_Active"
    using assms anon api cookie token s live
    by (auto simp: resolveSession_def returned advance_def split: if_splits option.splits)
  have "as_user st = Some u'" "\<exists>s'. as_session st = Some s' \<and> extends maxAge s s'"
    using assms(1) api cookie token s live u'
    by (auto simp: resolveSession_def returned advance_def extends_def split: if_splits dest: slide_session_returned)
  then show ?thesis using api token s live u' assms(2) by auto
qed

lemma csrf_hook_passed:
  assumes "csrf_hook request (Some s) = Inr ()" "isApiRequest request" "rt_method request \<notin> set SAFE_METHODS"
    and "\<forall>path\<in>set CSRF_EXEMPT_PATHS. rt_url request \<noteq> Some path"
  shows "rt_csrf_header request = Some (se_csrf_token s) \<and> rt_csrf_cookie request = Some (se_csrf_token s)"
proof -
  have "(case rt_url request of None \<Rightarrow> [] | Some route \<Rightarrow> route) \<notin> set CSRF_EXEMPT_PATHS"
    using assms(2,4) by (auto simp: isApiRequest_def split: option.splits)
  then show ?thesis using assms(1-3) by (auto simp: csrf_hook_def safeEqual_def split: if_splits option.splits)
qed


definition ex_browsing :: world where
  "ex_browsing = ex_post\<lparr>w_db := (w_db ex_post)\<lparr>db_sessions :=
     [\<lparr>se_id = ''s1'', se_token_hash = ''#t'', se_user_id = ''u1'', se_csrf_token = ''c'', se_created_at = 0, se_expires_at = 1000\<rparr>]\<rparr>\<rparr>"

definition ex_idle_env :: env where
  "ex_idle_env = ex_post_env\<lparr>e_fault := (\<lambda>n. None)\<rparr>"

definition ex_post_request :: request where
  "ex_post_request = \<lparr>rt_url = Some ''/api/apps'', rt_method = ''POST'', rt_session_cookie = Some ''t'', rt_csrf_cookie = Some ''c'',
     rt_csrf_header = Some ''c'', rt_shared_cacheable = False\<rparr>"

lemmas ex_browsing_defs = ex_browsing_def ex_idle_env_def ex_post_request_def ex_post_defs


subsection \<open>The sweep\<close>

text \<open>With the others idle, the outcome of a step depends on the number of the call and on what was read.\<close>

definition answer :: "env \<Rightarrow> nat \<Rightarrow> 'a \<Rightarrow> failure + 'a" where
  "answer env n a = (case e_fault env n of None \<Rightarrow> Inr a | Some (Refused f) \<Rightarrow> Inl f | Some (Lost_Ack f) \<Rightarrow> Inl f)"

lemma idle_steps:
  assumes "\<And>n db. e_other env n db = db"
  shows "fst (io_bind (io_read f) k env w) =
      (case answer env (w_tick w) (f (w_db w)) of Inl e \<Rightarrow> Inl e | Inr a \<Rightarrow> fst (k a env (w\<lparr>w_tick := Suc (w_tick w)\<rparr>)))"
    "fst (io_bind io_now k' env w) = fst (k' (e_now env (w_tick w)) env (w\<lparr>w_tick := Suc (w_tick w)\<rparr>))"
    "fst (io_bind (io_tx (tx_of g)) (\<lambda>_. io_return x) env w) = answer env (w_tick w) x"
    "fst (io_return x env w) = Inr x"
  by (auto simp: answer_def io_bind_def io_read_def io_tx_def io_now_def io_return_def advance_def Let_def assms tx_of_def
      split: option.splits fault.splits prod.splits)

text \<open>A decision depends on the account table and on the row the cookie names.\<close>

definition decision :: "int \<Rightarrow> int \<Rightarrow> request \<Rightarrow> string \<Rightarrow> env \<Rightarrow> nat \<Rightarrow> (string \<Rightarrow> user option) \<Rightarrow> session option \<Rightarrow> failure + auth_state" where
  "decision ttl maxAge request token env n account found = (case answer env n found of
      Inl e \<Rightarrow> Inl e
    | Inr None \<Rightarrow> Inr anonymous
    | Inr (Some s) \<Rightarrow>
        if \<not> session_live maxAge (e_now env (Suc n)) s then answer env (Suc (Suc n)) anonymous
        else (case answer env (Suc (Suc n)) (account (se_user_id s)) of
            Inl e \<Rightarrow> Inl e
          | Inr None \<Rightarrow> answer env (Suc (Suc (Suc n))) anonymous
          | Inr (Some user) \<Rightarrow>
              if u_status user \<noteq> User_Active then answer env (Suc (Suc (Suc n))) anonymous
              else let st = \<lparr>as_session = Some s, as_user = Some user, as_cookies = None\<rparr>; later = slidTo ttl maxAge (e_now env (Suc n)) s in
                if rt_shared_cacheable request \<or>
                   \<not> (se_expires_at s - e_now env (Suc n) < ttl * 1000 div 2 \<and> later > se_expires_at s) then Inr st
                else answer env (Suc (Suc (Suc n))) (st\<lparr>as_session := Some (s\<lparr>se_expires_at := later\<rparr>),
                  as_cookies := Some (token, se_csrf_token s, (later - e_now env (Suc n)) div 1000)\<rparr>)))"

lemma answer_cases: "answer env n a = Inr b \<Longrightarrow> b = a"
  by (auto simp: answer_def split: option.splits fault.splits)

lemma resolveSession_decides:
  assumes "\<And>n db. e_other env n db = db"
  shows "fst (resolveSession hashToken ttl maxAge request env w) =
    (if \<not> isApiRequest request \<or> \<not> truthy (rt_session_cookie request) then Inr anonymous
     else decision ttl maxAge request (the (rt_session_cookie request)) env (w_tick w) (users_findById (w_db w))
       (sessions_findByTokenHash (w_db w) (hashToken (the (rt_session_cookie request)))))"
proof (cases "\<not> isApiRequest request \<or> \<not> truthy (rt_session_cookie request)")
  case False
  note steps = idle_steps [OF assms]
  have slide: "fst (slide_session ttl maxAge token now s user env w1) =
      (let st = \<lparr>as_session = Some s, as_user = Some user, as_cookies = None\<rparr>; later = slidTo ttl maxAge now s in
       if \<not> (se_expires_at s - now < ttl * 1000 div 2 \<and> later > se_expires_at s) then Inr st
       else answer env (w_tick w1) (st\<lparr>as_session := Some (s\<lparr>se_expires_at := later\<rparr>),
         as_cookies := Some (token, se_csrf_token s, (later - now) div 1000)\<rparr>))" for token now s user w1
    by (simp add: slide_session_def Let_def steps)
  let ?found = "sessions_findByTokenHash (w_db w) (hashToken (the (rt_session_cookie request)))"
  show ?thesis
  proof (cases "answer env (w_tick w) ?found")
    case (Inr found)
    then have "found = ?found" by (rule answer_cases)
    with Inr False show ?thesis
      by (cases found; cases "answer env (Suc (Suc (w_tick w))) (users_findById (w_db w) (se_user_id (the found)))")
         (auto simp: resolveSession_def decision_def Let_def steps slide split: option.split dest: answer_cases)
  qed (use False in \<open>simp add: resolveSession_def decision_def Let_def steps\<close>)
qed (simp add: resolveSession_def idle_steps [OF assms])

lemma decision_of_dead:
  "se_expires_at s \<le> e_now env (Suc n) \<Longrightarrow>
     decision ttl maxAge request token env n account None = decision ttl maxAge request token env n account (Some s) \<or>
     decision ttl maxAge request token env n account None = Inr anonymous \<and> isl (decision ttl maxAge request token env n account (Some s))"
  by (auto simp: decision_def session_live_iff answer_def split: option.splits fault.splits)

lemma find_filtered:
  assumes "distinct (map key rows)"
  shows "List.find (\<lambda>r. key r = h) (filter keep rows) =
    (case List.find (\<lambda>r. key r = h) rows of None \<Rightarrow> None | Some r \<Rightarrow> if keep r then Some r else None)"
  using assms by (induction rows) (auto simp: find_None_iff find_Some_iff image_iff split: option.splits dest: nth_mem)

lemma findByTokenHash_swept:
  assumes "distinct (map se_token_hash (db_sessions db))"
  shows "sessions_findByTokenHash (snd (sessions_deleteExpired cutoff db)) h =
    (case sessions_findByTokenHash db h of None \<Rightarrow> None | Some s \<Rightarrow> if se_expires_at s \<le> cutoff then None else Some s)"
  using find_filtered [OF assms, of h "\<lambda>s. \<not> se_expires_at s \<le> cutoff"]
  by (simp add: sessions_findByTokenHash_def sessions_deleteExpired_def find_by_def split: option.splits)

text \<open>The sweep leaves the sessions as they were or without the expired ones, and the accounts alone.\<close>

lemma sweep_table_final:
  assumes "\<And>n db. e_other env n db = db"
  shows "w_db (snd (sweep_table (tx_of f) env w)) \<in> {w_db w, snd (f (w_db w))}" "\<not> isl (fst (sweep_table (tx_of f) env w))"
  by (auto simp: sweep_table_def io_catch_def io_tx_def io_return_def advance_def Let_def assms tx_of_def split: option.splits fault.splits prod.splits)

lemma sweep_final:
  assumes "\<And>n db. e_other env n db = db"
  shows "db_users (w_db (snd (sweep_runTick env w))) = db_users (w_db w) \<and>
    db_sessions (w_db (snd (sweep_runTick env w))) \<in>
      {db_sessions (w_db w), db_sessions (snd (sessions_deleteExpired (e_now env (w_tick w)) (w_db w)))}"
proof -
  let ?c = "e_now env (w_tick w)" and ?w1 = "w\<lparr>w_tick := Suc (w_tick w)\<rparr>"
  let ?m = "sweep_table (tx_of (sessions_deleteExpired ?c))" and ?k = "sweep_table (tx_of (verificationTokens_deleteExpired ?c))"
  note f = sweep_table_final [OF assms]
  obtain a w2 where a: "?m env ?w1 = (Inr a, w2)" using f(2) by (metis isl_def old.sum.exhaust prod.collapse)
  obtain b w3 where b: "?k env w2 = (Inr b, w3)" using f(2) by (metis isl_def old.sum.exhaust prod.collapse)
  have "snd (sweep_runTick env w) = w3" using a b by (simp add: sweep_runTick_def io_bind_def io_now_def io_return_def)
  moreover have "w_db w3 \<in> {w_db w2, snd (verificationTokens_deleteExpired ?c (w_db w2))}" using f(1) [of "verificationTokens_deleteExpired ?c" w2] b by simp
  moreover have "w_db w2 \<in> {w_db w, snd (sessions_deleteExpired ?c (w_db w))}" using f(1) [of "sessions_deleteExpired ?c" ?w1] a by simp
  ultimately show ?thesis by (auto simp: verificationTokens_deleteExpired_def sessions_deleteExpired_def)
qed

text \<open>
  C30. The housekeeping of expired rows is invisible to requests. From any state whose token hashes are
  unique, and whether or not one of its two deletions failed, a request that comes after the sweep's
  cut-off gets the principal it would have got without the sweep; the one difference is a request whose
  dead row could not be deleted, which failed and is now anonymous. Other instances are idle in this
  comparison.
\<close>

theorem sweep_changes_no_decision:
  assumes "\<And>n db. e_other env n db = db" "\<And>n db. e_other env' n db = db"
    and "distinct (map se_token_hash (db_sessions (w_db w)))" "\<And>n. e_now env (w_tick w) \<le> e_now env' n"
  shows "let before = fst (resolveSession hashToken ttl maxAge request env' w);
             after = fst (resolveSession hashToken ttl maxAge request env' (w\<lparr>w_db := w_db (snd (sweep_runTick env w))\<rparr>))
         in after = before \<or> after = Inr anonymous \<and> isl before"
proof -
  let ?c = "e_now env (w_tick w)" and ?db = "w_db (snd (sweep_runTick env w))"
  have users: "db_users ?db = db_users (w_db w)"
    and rows: "db_sessions ?db = db_sessions (w_db w) \<or> db_sessions ?db = db_sessions (snd (sessions_deleteExpired ?c (w_db w)))"
    using sweep_final [OF assms(1), of w] by auto
  let ?find = "\<lambda>db. sessions_findByTokenHash db (hashToken (the (rt_session_cookie request)))"
  let ?decide = "decision ttl maxAge request (the (rt_session_cookie request)) env' (w_tick w) (users_findById (w_db w))"
  have find: "?find ?db = ?find (w_db w) \<or> (\<exists>s. ?find (w_db w) = Some s \<and> se_expires_at s \<le> ?c \<and> ?find ?db = None)"
    using rows findByTokenHash_swept [OF assms(3), of ?c "hashToken (the (rt_session_cookie request))"]
    by (auto simp: sessions_findByTokenHash_def split: option.splits if_splits)
  have "users_findById ?db = users_findById (w_db w)" using users by (simp add: fun_eq_iff users_findById_def)
  moreover have "?decide (?find ?db) = ?decide (?find (w_db w)) \<or> ?decide (?find ?db) = Inr anonymous \<and> isl (?decide (?find (w_db w)))"
    using find
  proof
    assume "\<exists>s. ?find (w_db w) = Some s \<and> se_expires_at s \<le> ?c \<and> ?find ?db = None"
    then obtain s where s: "?find (w_db w) = Some s" "se_expires_at s \<le> e_now env' (Suc (w_tick w))" "?find ?db = None"
      using assms(4) [of "Suc (w_tick w)"] by force
    show ?thesis unfolding s(1,3) by (rule decision_of_dead [OF s(2)])
  qed simp
  ultimately show ?thesis by (simp add: Let_def resolveSession_decides [OF assms(2)])
qed

theorem sweep_changes_no_decision_witness:
  "let late = ex_idle_env\<lparr>e_now := (\<lambda>n. 5000)\<rparr>; swept = w_db (snd (sweep_runTick late ex_browsing))
   in db_sessions swept = [] \<and>
      fst (resolveSession ((#) CHR ''#'') 30 60 ex_post_request late (ex_browsing\<lparr>w_db := swept\<rparr>)) = Inr anonymous"
proof -
  let ?late = "ex_idle_env\<lparr>e_now := (\<lambda>n. 5000)\<rparr>"
  let ?db = "w_db (snd (sweep_runTick ?late ex_browsing))"
  have "db_sessions ?db = []" by code_simp
  moreover have "fst (resolveSession ((#) CHR ''#'') 30 60 ex_post_request ?late ex_browsing) = Inr anonymous" by code_simp
  moreover have "let before = fst (resolveSession ((#) CHR ''#'') 30 60 ex_post_request ?late ex_browsing);
       after = fst (resolveSession ((#) CHR ''#'') 30 60 ex_post_request ?late (ex_browsing\<lparr>w_db := ?db\<rparr>))
     in after = before \<or> after = Inr anonymous \<and> isl before"
    by (rule sweep_changes_no_decision) (simp_all add: ex_browsing_defs)
  ultimately show ?thesis by (auto simp: Let_def)
qed

end
