(* ===== verification/Settings_Safety.thy ===== *)
theory Settings_Safety
  imports Captcha Sessions_Safety
begin

section \<open>Settings that are read together were committed together\<close>

text \<open>
  A bound read looks rows up one after the other while others write them. When it answers, there was one
  state of the store in which every row was as it was read. The challenge before sign-in rests on it: the
  secret of one vendor is never sent to another, and nothing but an accepted token, the operator's switch
  or a configuration that asks for none lets a caller through.
\<close>

subsection \<open>The states a reading program sees\<close>

primrec seen_at :: "env \<Rightarrow> world \<Rightarrow> nat \<Rightarrow> portal_db" where
  "seen_at env w 0 = w_db w"
| "seen_at env w (Suc n) = e_other env (w_tick w + n) (seen_at env w n)"

abbreviation row_at :: "env \<Rightarrow> world \<Rightarrow> nat \<Rightarrow> string \<Rightarrow> setting option" where
  "row_at env w n key \<equiv> settings_get (seen_at env w n) key"

declare seen_at.simps(2) [simp del]

text \<open>The world after \<open>n\<close> steps that wrote nothing.\<close>

definition reached :: "env \<Rightarrow> world \<Rightarrow> nat \<Rightarrow> world" where
  "reached env w n = w\<lparr>w_db := seen_at env w n, w_tick := w_tick w + n\<rparr>"

lemma advance_reached: "advance env (reached env w n) = reached env w (Suc n)"
  by (simp add: advance_def reached_def seen_at.simps(2))

lemma reached_0: "reached env w 0 = w"
  by (simp add: reached_def)

lemma read_reached:
  "io_read f env (reached env w n) = (Inr a, w') \<Longrightarrow> a = f (seen_at env w (Suc n)) \<and> w' = reached env w (Suc n)"
  by (auto simp: io_read_returned advance_reached) (simp add: reached_def)

text \<open>The result of the same lookups in a single state.\<close>

primrec answer_in :: "'a reader \<Rightarrow> (string \<Rightarrow> setting option) \<Rightarrow> nexus_error + 'a" where
  "answer_in (Answer a) rows = Inr a"
| "answer_in (Fail e) rows = Inl e"
| "answer_in (Get key f) rows = answer_in (f (rows key)) rows"

text \<open>What is assumed of the settings table: rows that compare equal are equal, and a row other than the
  anchor that was replaced never looks again as it did. A secret is encrypted with a fresh nonce on every
  write, so it has this property even within a millisecond.\<close>

definition generations :: "env \<Rightarrow> world \<Rightarrow> string \<Rightarrow> bool" where
  "generations env w anchor \<longleftrightarrow>
     (\<forall>key i j. sameRow (row_at env w i key) (row_at env w j key) \<longrightarrow> row_at env w i key = row_at env w j key) \<and>
     (\<forall>key i j n. key \<noteq> anchor \<and> i \<le> n \<and> n \<le> j \<and> row_at env w i key = row_at env w j key \<longrightarrow>
        row_at env w n key = row_at env w i key)"

text \<open>Every recorded row was found under its key no later than at step \<open>n\<close>.\<close>

definition observed :: "env \<Rightarrow> world \<Rightarrow> nat \<Rightarrow> seen \<Rightarrow> bool" where
  "observed env w n seen \<longleftrightarrow> (\<forall>(key, rows)\<in>set seen. \<forall>row\<in>set rows. \<exists>i\<le>n. row = row_at env w i key)"

definition agrees :: "seen \<Rightarrow> (string \<Rightarrow> setting option) \<Rightarrow> bool" where
  "agrees seen rows \<longleftrightarrow> (\<forall>(key, rs)\<in>set seen. \<forall>row\<in>set rs. row = rows key)"

lemma agrees_record_row: "agrees (record_row key row seen) rows \<longleftrightarrow> agrees seen rows \<and> row = rows key"
  by (induction key row seen rule: record_row.induct) (auto simp: agrees_def)

lemma observed_record_row: "observed env w n (record_row key row seen) \<longleftrightarrow> observed env w n seen \<and> (\<exists>i\<le>n. row = row_at env w i key)"
  by (induction key row seen rule: record_row.induct) (auto simp: observed_def)

lemma observed_later: "observed env w n seen \<Longrightarrow> n \<le> m \<Longrightarrow> observed env w m seen"
  unfolding observed_def split_def by (meson le_trans)

lemma record_row_head: "seen = (k, rows) # rest \<Longrightarrow> \<exists>rows' rest'. record_row key row seen = (k, rows') # rest'"
  by (cases "k = key") auto

lemma record_row_keys: "fst ` set (record_row key row seen) = insert key (fst ` set seen)"
  by (induction key row seen rule: record_row.induct) auto

lemma record_row_distinct: "distinct (map fst seen) \<Longrightarrow> distinct (map fst (record_row key row seen))"
  by (induction key row seen rule: record_row.induct) (auto simp: record_row_keys)

lemma recording_returned:
  "recording r seen env (reached env w n) = (Inr (a, seen'), w') \<Longrightarrow> observed env w n seen \<Longrightarrow> seen = (k, rows) # rest \<Longrightarrow>
   \<exists>m. w' = reached env w m \<and> n \<le> m \<and> observed env w m seen' \<and> (\<exists>rows' rest'. seen' = (k, rows') # rest') \<and>
     (distinct (map fst seen) \<longrightarrow> distinct (map fst seen')) \<and>
     (\<forall>rows. agrees seen' rows \<longrightarrow> agrees seen rows \<and> answer_in r rows = Inr a)"
proof (induction r arbitrary: seen n rows rest)
  case (Answer b)
  then show ?case by (auto simp: returned)
next
  case (Fail e)
  then show ?case by (simp add: io_throw_def)
next
  case (Get key f)
  let ?row = "row_at env w (Suc n) key"
  have run: "recording (f ?row) (record_row key ?row seen) env (reached env w (Suc n)) = (Inr (a, seen'), w')"
    using Get.prems(1) by (auto simp: io_bind_returned dest!: read_reached)
  have obs: "observed env w (Suc n) (record_row key ?row seen)"
    using observed_later [OF Get.prems(2), of "Suc n"] by (auto simp: observed_record_row)
  obtain rows1 rest1 where "record_row key ?row seen = (k, rows1) # rest1" using record_row_head [OF Get.prems(3)] by blast
  from Get.IH [OF _ run obs this] show ?case by (fastforce simp: agrees_record_row intro: record_row_distinct)
qed

text \<open>The check reads the anchor again first; every row it accepts is, at some later step, as it was.\<close>

lemma unchanged_returned:
  "unchanged seen env (reached env w n) = (Inr True, w') \<Longrightarrow>
   \<exists>m. w' = reached env w m \<and> n \<le> m \<and>
     (\<forall>(key, rows)\<in>set seen. \<exists>j\<ge>Suc n. \<forall>row\<in>set rows. sameRow row (row_at env w j key)) \<and>
     (case seen of [] \<Rightarrow> True | (key, rows) # _ \<Rightarrow> \<forall>row\<in>set rows. sameRow row (row_at env w (Suc n) key))"
proof (induction seen arbitrary: n)
  case Nil
  then show ?case by (auto simp: returned)
next
  case (Cons e seen)
  obtain key rows where e: "e = (key, rows)" by (cases e)
  have ok: "list_all (\<lambda>row. sameRow row (row_at env w (Suc n) key)) rows"
    and run: "unchanged seen env (reached env w (Suc n)) = (Inr True, w')"
    using Cons.prems by (auto simp: e io_bind_returned io_return_returned split: if_splits dest!: read_reached)
  obtain m where m: "w' = reached env w m" "Suc n \<le> m"
    "\<forall>(key, rows)\<in>set seen. \<exists>j\<ge>Suc (Suc n). \<forall>row\<in>set rows. sameRow row (row_at env w j key)"
    using Cons.IH [OF run] by blast
  have "\<forall>(key, rows)\<in>set seen. \<exists>j\<ge>Suc n. \<forall>row\<in>set rows. sameRow row (row_at env w j key)"
    using m(3) unfolding split_def by (meson Suc_leD)
  moreover have "\<exists>j\<ge>Suc n. \<forall>row\<in>set rows. sameRow row (row_at env w j key)" using ok by (auto simp: list_all_iff)
  ultimately show ?case using ok m(1) Suc_leD [OF m(2)] by (auto simp: e list_all_iff)
qed

lemma unchanged_lost: "unchanged seen env (reached env w n) = (Inr False, w') \<Longrightarrow> \<exists>m. w' = reached env w m"
proof (induction seen arbitrary: n)
  case Nil
  then show ?case by (simp add: io_return_def)
next
  case (Cons e seen)
  then show ?case
    by (cases e) (auto simp: io_bind_returned io_return_returned split: if_splits dest!: read_reached)
qed

lemma bound_attempts_returned:
  assumes "generations env w anchor"
  shows "bound_attempts k anchor read env (reached env w n) = (Inr a, w') \<Longrightarrow>
    \<exists>m t. w' = reached env w m \<and> answer_in (read (row_at env w t anchor)) (row_at env w t) = Inr a"
proof (induction k arbitrary: n)
  case 0
  then show ?case by (simp add: io_throw_def)
next
  case (Suc k)
  let ?anchor = "row_at env w (Suc n) anchor"
  obtain r seen w1 same w2 where rec: "recording (read ?anchor) [(anchor, [?anchor])] env (reached env w (Suc n)) = (Inr (r, seen), w1)"
    and un: "unchanged seen env w1 = (Inr same, w2)"
    and rest: "(if same then io_return r else bound_attempts k anchor read) env w2 = (Inr a, w')"
    using Suc.prems by (auto simp: io_bind_returned dest!: read_reached)
  have "observed env w (Suc n) [(anchor, [?anchor])]" by (auto simp: observed_def)
  from recording_returned [OF rec this refl] obtain m rows' rest' where w1: "w1 = reached env w m" and obs: "observed env w m seen"
    and head: "seen = (anchor, rows') # rest'" and keys: "distinct (map fst seen)"
    and res: "\<And>rows. agrees seen rows \<Longrightarrow> agrees [(anchor, [?anchor])] rows \<and> answer_in (read ?anchor) rows = Inr r"
    by auto
  show ?case
  proof (cases same)
    case False
    then show ?thesis using unchanged_lost un rest Suc.IH unfolding w1 by fastforce
  next
    case True
    obtain m' where m': "w2 = reached env w m'"
      and later: "\<forall>(key, rows)\<in>set seen. \<exists>j\<ge>Suc m. \<forall>row\<in>set rows. sameRow row (row_at env w j key)"
      and first: "\<forall>row\<in>set rows'. sameRow row (row_at env w (Suc m) anchor)"
      using unchanged_returned [of seen env w m w2] un True by (auto simp: w1 head)
    have eq: "row_at env w i key = row_at env w j key" if "sameRow (row_at env w i key) (row_at env w j key)" for i j key
      using assms that unfolding generations_def by blast
    have kept: "row_at env w (Suc m) key = row_at env w i key"
      if "key \<noteq> anchor" "i \<le> Suc m" "Suc m \<le> j" "row_at env w i key = row_at env w j key" for i j key
      using assms that unfolding generations_def by blast
    have "row = row_at env w (Suc m) key" if seen: "(key, rows) \<in> set seen" "row \<in> set rows" for key rows row
    proof -
      obtain i where i: "i \<le> m" "row = row_at env w i key" using obs seen unfolding observed_def by blast
      obtain j where j: "Suc m \<le> j" "sameRow row (row_at env w j key)" using later seen by blast
      show ?thesis
      proof (cases "key = anchor")
        case False
        then show ?thesis using kept [of key i j] eq [of i key j] i j by simp
      next
        case True
        then have "rows = rows'" using keys seen(1) unfolding head by (force simp: image_iff)
        then show ?thesis using first seen(2) i(2) eq [of i anchor "Suc m"] True by blast
      qed
    qed
    then have "agrees seen (row_at env w (Suc m))" unfolding agrees_def by blast
    from res [OF this] show ?thesis using rest True m' by (auto simp: agrees_def io_return_def)
  qed
qed


definition ex_sso_row :: setting where
  "ex_sso_row = \<lparr>st_key = SSO_SETTINGS_KEY, st_value = JObj [(''policy'', JStr ''sso_only''), (''providers'', JArr [ex_stored_provider])],
     st_encrypted = False, st_updated_at = 1\<rparr>"

definition ex_sso :: world where
  "ex_sso = ex_post\<lparr>w_db := (w_db ex_post)\<lparr>db_settings := [ex_sso_row,
     \<lparr>st_key = ''sso.client_secret.corp'', st_value = JStr ''sealed'', st_encrypted = True, st_updated_at = 1\<rparr>]\<rparr>\<rparr>"

lemma seen_at_idle: "(\<And>n db. e_other env n db = db) \<Longrightarrow> seen_at env w n = w_db w"
  by (induction n) (simp_all add: seen_at.simps(2))

lemma generations_idle:
  assumes "\<And>n db. e_other env n db = db"
    shows "generations env w key"
proof -
  have "seen_at env w n = w_db w" for n by (rule seen_at_idle [OF assms])
  then show ?thesis by (simp add: generations_def)
qed


subsection \<open>The challenge\<close>

text \<open>
  C19. The challenge fails closed. A caller gets past it only if the operator switched enforcement off, if
  the settings asked for no challenge at some moment of the check, or if the vendor accepted the caller's
  own token, asked with the provider, the secret and the site key of one committed configuration. A
  configuration that is on but incomplete, an unreadable secret, an unreachable vendor and a missing token
  refuse, whatever the vendor and the store answer.
\<close>

theorem captcha_fails_closed:
  assumes "generations env w CAPTCHA_SETTINGS_KEY"
    and "captcha_verify decrypt transport enforcement token remoteIp env w = (Inr outcome, w')"
  shows "case outcome of
      Bypassed \<Rightarrow> enforcement = Enforcement_Disabled
    | Not_Required \<Rightarrow> \<exists>t. \<not> isConfigured (parseSettings (row_at env w t CAPTCHA_SETTINGS_KEY))
    | Verified \<Rightarrow> \<exists>t settings secret siteKey presented w1. enforcement = Enforced \<and>
        settings = parseSettings (row_at env w t CAPTCHA_SETTINGS_KEY) \<and> isConfigured settings \<and> ct_site_key settings = Some siteKey \<and>
        secret_of decrypt (row_at env w t CAPTCHA_SECRET_SETTINGS_KEY) = Some secret \<and> js_trim secret \<noteq> [] \<and>
        token = Some presented \<and> js_trim presented \<noteq> [] \<and>
        fst (askVendor transport (ct_provider settings) secret presented remoteIp siteKey env w1) = Inr True"
proof -
  let ?first = "parseSettings (row_at env w 1 CAPTCHA_SETTINGS_KEY)"
  have read: "io_read f env w = (Inr a, w1) \<Longrightarrow> a = f (seen_at env w 1) \<and> w1 = reached env w 1" for f and a :: 'a and w1
    using read_reached [of f env w 0 a w1] by (simp add: reached_0)
  show ?thesis
  proof (cases "isConfigured ?first")
    case False
    then have "outcome = Not_Required"
      using assms(2) by (auto simp: captcha_verify_def io_bind_returned io_return_returned io_read_returned seen_at.simps(2) advance_def)
    then show ?thesis using False by auto
  next
    case on: True
    show ?thesis
    proof (cases "enforcement = Enforcement_Disabled")
      case True
      then have "outcome = Bypassed"
        using assms(2) on by (auto simp: captcha_verify_def io_bind_returned io_return_returned io_read_returned seen_at.simps(2) advance_def)
      then show ?thesis using True by simp
    next
      case False
      then have enforced: "enforcement = Enforced" by (cases enforcement) simp_all
      obtain settings secret w2 where bound: "bound_attempts SETTING_GENERATION_ATTEMPTS CAPTCHA_SETTINGS_KEY (captcha_reader decrypt) env
            (reached env w 1) = (Inr (settings, secret), w2)"
        and rest: "(if \<not> isConfigured settings then io_return Not_Required
          else if ct_site_key settings = None \<or> blank secret
          then io_throw (plain (captchaFailed ''CAPTCHA is enabled but not fully configured''))
          else if blank token then io_throw (plain (captchaFailed ''CAPTCHA response is required''))
          else ask_and_judge transport settings (the secret) (the token) remoteIp) env w2 = (Inr outcome, w')"
        using assms(2) on False
        by (auto simp: captcha_verify_def readBoundToSetting_def io_bind_returned io_read_returned seen_at.simps(2) advance_def reached_def)
      obtain t where t: "settings = parseSettings (row_at env w t CAPTCHA_SETTINGS_KEY)"
          "secret = secret_of decrypt (row_at env w t CAPTCHA_SECRET_SETTINGS_KEY)"
        using bound_attempts_returned [OF assms(1) bound] by (auto simp: captcha_reader_def)
      show ?thesis
      proof (cases "isConfigured settings")
        case False
        then show ?thesis using rest t(1) by (auto simp: io_return_returned)
      next
        case True
        then have ok: "ct_site_key settings \<noteq> None" "\<not> blank secret" "\<not> blank token"
          and ask: "ask_and_judge transport settings (the secret) (the token) remoteIp env w2 = (Inr outcome, w')"
          using rest by (auto simp: io_throw_def split: if_splits)
        have "outcome = Verified"
          "fst (askVendor transport (ct_provider settings) (the secret) (the token) remoteIp (the (ct_site_key settings)) env w2) = Inr True"
          using ask by (auto simp: ask_and_judge_def io_bind_returned io_catch_def io_return_returned io_throw_def split: if_splits prod.splits sum.splits)
        then show ?thesis using enforced t True ok by (auto simp: blank_def split: option.splits)
      qed
    qed
  qed
qed

definition ex_challenged :: world where
  "ex_challenged = ex_post\<lparr>w_db := (w_db ex_post)\<lparr>db_settings :=
     [\<lparr>st_key = CAPTCHA_SETTINGS_KEY, st_value = JObj [(''enabled'', JBool True), (''provider'', JStr ''hcaptcha''), (''site_key'', JStr ''k'')],
        st_encrypted = False, st_updated_at = 1\<rparr>,
      \<lparr>st_key = CAPTCHA_SECRET_SETTINGS_KEY, st_value = JStr ''v'', st_encrypted = False, st_updated_at = 1\<rparr>]\<rparr>\<rparr>"

theorem captcha_fails_closed_witness:
  "\<exists>w1. fst (askVendor (\<lambda>url form. io_return (map_of form ''secret'' = Some ''v'')) (JStr ''hcaptcha'') ''v'' ''tok'' None ''k'' ex_idle_env w1) = Inr True"
proof -
  let ?ask = "\<lambda>url form. io_return (map_of form ''secret'' = Some ''v'')"
  let ?run = "captcha_verify (\<lambda>_ _. None) ?ask Enforced (Some ''tok'') None ex_idle_env ex_challenged"
  have "fst ?run = Inr Verified" by code_simp
  then have run: "?run = (Inr Verified, snd ?run)" by (cases ?run) simp
  have idle: "e_other ex_idle_env n db = db" for n db by (simp add: ex_browsing_defs)
  have rows: "row_at ex_idle_env ex_challenged t CAPTCHA_SETTINGS_KEY = settings_get (w_db ex_challenged) CAPTCHA_SETTINGS_KEY"
    "row_at ex_idle_env ex_challenged t CAPTCHA_SECRET_SETTINGS_KEY = settings_get (w_db ex_challenged) CAPTCHA_SECRET_SETTINGS_KEY" for t
    by (simp_all add: seen_at_idle [OF idle])
  have "secret_of (\<lambda>_ _. None) (settings_get (w_db ex_challenged) CAPTCHA_SECRET_SETTINGS_KEY) = Some ''v''"
    "ct_site_key (parseSettings (settings_get (w_db ex_challenged) CAPTCHA_SETTINGS_KEY)) = Some ''k''"
    "ct_provider (parseSettings (settings_get (w_db ex_challenged) CAPTCHA_SETTINGS_KEY)) = JStr ''hcaptcha''"
    by code_simp+
  then show ?thesis using captcha_fails_closed [OF generations_idle [OF idle] run] by (auto simp: rows)
qed

end
