(* ===== verification/Auth_Safety.thy ===== *)
theory Auth_Safety
  imports Auth Teardown_Safety Settings_Safety
begin

section \<open>What sign-in promises\<close>

text \<open>
  Registration seats a founder only for who holds the bootstrap token and only on an empty seat; a sign-in
  commits its session only for an account that is entitled to it at that moment; a redeemed reset ends
  every session and every other link; the answers about an address are all alike. The others act between
  any two steps. What a step read from the store before the first write of its program is a state that the
  others alone could bring about.
\<close>

inductive by_others :: "env \<Rightarrow> portal_db \<Rightarrow> portal_db \<Rightarrow> bool" for env db0 where
  start: "by_others env db0 db0"
| step: "by_others env db0 db \<Longrightarrow> by_others env db0 (e_other env n db)"

lemma stable_by_others: "stable env (\<lambda>w. by_others env db0 (w_db w))"
  by (rule stableI) (auto intro: by_others.intros)

lemma by_others_idle: "by_others env db0 db \<Longrightarrow> (\<And>n db. e_other env n db = db) \<Longrightarrow> db = db0"
  by (induction rule: by_others.induct) auto

subsection \<open>Registration\<close>

lemma users_create_Inr:
  "users_create u db = Inr (r, db') \<Longrightarrow> r = u\<lparr>u_email := js_lower (js_trim (u_email u))\<rparr> \<and> db' = db\<lparr>db_users := db_users db @ [r]\<rparr>"
  by (auto simp: users_create_def Let_def mapConflict_def rbind_eq_Inr split: if_splits)

lemma token_create_Inr: "verificationTokens_create t db = Inr (r, db') \<Longrightarrow> r = t \<and> db' = db\<lparr>db_tokens := db_tokens db @ [t]\<rparr>"
  by (auto simp: verificationTokens_create_def mapConflict_def rbind_eq_Inr split: if_splits)

lemma persistRegistration_users:
  assumes "persistRegistration crypto m draft founder db = Inr (x, db')"
  shows "ro_promoted x = founder" "ro_record x = (draft_user (gm_user_id m) draft founder)\<lparr>u_email := js_lower (js_trim (dr_email draft))\<rparr>"
    "db_users db' = db_users db @ [ro_record x]"
proof -
  have "ro_promoted x = founder \<and> ro_record x = (draft_user (gm_user_id m) draft founder)\<lparr>u_email := js_lower (js_trim (dr_email draft))\<rparr> \<and>
      db_users db' = db_users db @ [ro_record x]"
    using assms unfolding persistRegistration_def Let_def
    by (auto simp: tx_simps settings_set_def Let_def tx_audit_def auditLogs_create_def draft_user_def split: if_splits
        dest!: users_create_Inr token_create_Inr)
  then show "ro_promoted x = founder" "ro_record x = (draft_user (gm_user_id m) draft founder)\<lparr>u_email := js_lower (js_trim (dr_email draft))\<rparr>"
    "db_users db' = db_users db @ [ro_record x]" by auto
qed

lemma applyRegistrationPolicy_Inr:
  "applyRegistrationPolicy draft db = Inr (d, db') \<longleftrightarrow>
     db' = db \<and> d = draft\<lparr>dr_requireEmailVerification := rp_require_email_verification (readRegistrationPolicy db)\<rparr> \<and>
     registration_refusal (readLoginPolicy db) (readRegistrationPolicy db) (dr_role draft) = None"
  by (auto simp: applyRegistrationPolicy_def tx_simps split: option.splits)

text \<open>The administrator accounts, with every column: address, password hash, names and all.\<close>

definition elevated_rows :: "user list \<Rightarrow> user list" where
  "elevated_rows us = filter (\<lambda>u. isElevated (u_role u)) us"

lemma elevated_rows_snoc: "\<not> isElevated (u_role u) \<Longrightarrow> elevated_rows (us @ [u]) = elevated_rows us"
  by (simp add: elevated_rows_def)

lemma registrable_not_elevated: "r \<in> set REGISTRABLE_ROLES \<Longrightarrow> \<not> isElevated r"
  by (cases r) (auto simp: REGISTRABLE_ROLES_def isElevated_def roleAtLeast_def)

lemma seatFounder_seats:
  assumes "dr_role draft \<in> set REGISTRABLE_ROLES" "seatFounder crypto m draft db = Inr (x, db')"
  shows "db_users db' = db_users db @ [ro_record x] \<and> (if users_countAllActiveSuperAdmins db = 0
    then u_role (ro_record x) = Super_Admin \<and> users_countAllActiveSuperAdmins db' = 1
    else u_role (ro_record x) = dr_role draft \<and>
      registration_refusal (readLoginPolicy db) (readRegistrationPolicy db) (dr_role draft) = None)"
proof (cases "users_countAllActiveSuperAdmins db = 0")
  case True
  then have p: "persistRegistration crypto m draft True db = Inr (x, db')"
    using assms(2) by (auto simp: seatFounder_def tx_simps)
  from persistRegistration_users [OF this] True show ?thesis
    by (simp add: draft_user_def users_countAllActiveSuperAdmins_def)
next
  case False
  then obtain d where d: "applyRegistrationPolicy draft db = Inr (d, db)" "persistRegistration crypto m d False db = Inr (x, db')"
    using assms(2) by (auto simp: seatFounder_def tx_simps applyRegistrationPolicy_Inr)
  have "dr_role d = dr_role draft" using d(1) by (simp add: applyRegistrationPolicy_Inr)
  then show ?thesis using persistRegistration_users [OF d(2)] d(1) False
    by (simp add: applyRegistrationPolicy_Inr draft_user_def)
qed

lemma ordinary_keeps_elevated:
  "dr_role draft \<in> set REGISTRABLE_ROLES \<Longrightarrow>
     tx_keeps (\<lambda>db. P (elevated_rows (db_users db))) (ordinary_registration crypto m draft)"
proof (rule tx_keepsI)
  fix db x db'
  assume role: "dr_role draft \<in> set REGISTRABLE_ROLES" and A: "P (elevated_rows (db_users db))"
    and run: "ordinary_registration crypto m draft db = Inr (x, db')"
  obtain d where d: "applyRegistrationPolicy draft db = Inr (d, db)" "persistRegistration crypto m d False db = Inr (x, db')"
    using run by (auto simp: ordinary_registration_def tx_simps applyRegistrationPolicy_Inr)
  have "dr_role d = dr_role draft" using d(1) by (simp add: applyRegistrationPolicy_Inr)
  then show "P (elevated_rows (db_users db'))"
    using persistRegistration_users [OF d(2)] A registrable_not_elevated [OF role] by (simp add: draft_user_def elevated_rows_snoc)
qed

lemma keeps_checked: "(r = Inr () \<Longrightarrow> keeps env P m) \<Longrightarrow> keeps env P (io_bind (io_result r) (\<lambda>_. m))"
  by (cases r) (auto simp: keeps_def hoare_def io_bind_def io_result_def io_throw_def io_return_def)

lemma register_keeps_elevated:
  assumes env: "rule_kept (\<lambda>us. P (elevated_rows us)) env"
    and hooks: "\<And>t. abides (\<lambda>us. P (elevated_rows us)) env (captcha t)" "\<And>u t. abides (\<lambda>us. P (elevated_rows us)) env (onRegistered u t)"
    and token: "requireBootstrapToken config (ri_bootstrap_token input) \<noteq> Inr ()"
  shows "abides (\<lambda>us. P (elevated_rows us)) env (register config crypto captcha onRegistered input)"
proof -
  let ?U = "\<lambda>us. P (elevated_rows us)"
  note r = abides_calls [OF env] abides_lock [OF env] abides_tx [OF env] keeping
  have gate: "abides ?U env (io_bind (registration_gate config policy input seatOpen) (\<lambda>_. m))"
    if "\<not> seatOpen \<Longrightarrow> abides ?U env m" for seatOpen m policy
  proof (cases seatOpen)
    case True
    then show ?thesis using token by (auto simp: registration_gate_def intro: keeps_checked)
  next
    case False
    then show ?thesis unfolding registration_gate_def using that by (auto intro!: r split: option.splits)
  qed
  have commit: "abides ?U env (commit_registration crypto seatOpen (make_draft crypto input v))"
    if "\<not> seatOpen" "register_checks input = Inr ()" for seatOpen v
    unfolding commit_registration_def io_registration_mint_def using that
    by (auto simp: make_draft_def register_checks_def split: if_splits intro!: r ordinary_keeps_elevated)
  show ?thesis
    unfolding register_def Let_def issueSession_def io_mint_def
    by (intro r keeps_checked hooks gate commit issueSession_keeps_users)
qed

text \<open>
  C15. Nobody registers into power without the bootstrap token. Take any rule about the administrator
  accounts, all their columns included, that holds and that the others, the challenge and the mail hook
  keep: a registration that does not present the configured token keeps it too, whatever role it asks for
  and whatever happens between its checks and its commit. With the rule that these rows stay as they are, it
  makes no administrator and leaves every administrator account, password hash and address included, as it
  was. And the transaction that seats a founder decides on the accounts it commits with: on an empty seat it
  leaves exactly one active super admin, on a taken one it appends one ordinary account, if the policies in
  force admit the role, and changes no other row.
\<close>

theorem registration_confers_no_power:
  assumes "rule_kept (\<lambda>us. P (elevated_rows us)) env" "P (elevated_rows (db_users (w_db w)))"
    and "\<And>t. abides (\<lambda>us. P (elevated_rows us)) env (captcha t)"
    and "\<And>u t. abides (\<lambda>us. P (elevated_rows us)) env (onRegistered u t)"
    and "requireBootstrapToken config (ri_bootstrap_token input) \<noteq> Inr ()"
    and "dr_role draft \<in> set REGISTRABLE_ROLES" "seatFounder crypto m draft db = Inr (x, db')"
  shows "P (elevated_rows (db_users (w_db (snd (register config crypto captcha onRegistered input env w))))) \<and>
    db_users db' = db_users db @ [ro_record x] \<and>
    (if users_countAllActiveSuperAdmins db = 0
     then u_role (ro_record x) = Super_Admin \<and> users_countAllActiveSuperAdmins db' = 1
     else u_role (ro_record x) = dr_role draft \<and> \<not> isElevated (dr_role draft) \<and>
       registration_refusal (readLoginPolicy db) (readRegistrationPolicy db) (dr_role draft) = None)"
  using abides_final [OF register_keeps_elevated [OF assms(1,3-5)] assms(2)] seatFounder_seats [OF assms(6,7)]
    registrable_not_elevated [OF assms(6)] by auto

definition ex_config :: auth_config where
  "ex_config = \<lparr>ag_bootstrap_token = Some ''boot'', ag_break_glass = False, ag_providers = [], ag_session_ttl = 60\<rparr>"

definition ex_crypto :: auth_crypto where
  "ex_crypto = \<lparr>ay_hashToken = (#) CHR ''#'', ay_hashPassword = (#) CHR ''h'', ay_verifyPassword = (\<lambda>p h. h = CHR ''h'' # p),
     ay_iso = (\<lambda>t. ''now'')\<rparr>"

definition ex_register :: register_input where
  "ex_register = \<lparr>ri_email = ''A@b.c'', ri_password = ''correct horse'', ri_display_name = ''A'', ri_role = Provider, ri_company = None,
     ri_phone = None, ri_captcha_token = None, ri_bootstrap_token = None\<rparr>"

lemmas ex_auth_defs = ex_config_def ex_crypto_def ex_register_def

text \<open>A seated portal: \<open>s1\<close> is its super admin.\<close>

definition ex_seated :: world where
  "ex_seated = ex_post\<lparr>w_db := (w_db ex_post)\<lparr>db_users := [(example_user ''s1'' Super_Admin)\<lparr>u_password_hash := ''hroot''\<rparr>]\<rparr>\<rparr>"

theorem registration_confers_no_power_witness:
  "elevated_rows (db_users (w_db (snd (register ex_config ex_crypto (\<lambda>_. io_return Not_Required) (\<lambda>_ _. io_return ()) ex_register
     ex_idle_env ex_seated)))) = [(example_user ''s1'' Super_Admin)\<lparr>u_password_hash := ''hroot''\<rparr>] \<and>
   (case seatFounder ex_crypto \<lparr>gm_user_id = ''n'', gm_token = ''t'', gm_token_id = ''i'', gm_now = 0\<rparr>
      (make_draft ex_crypto ex_register True) (w_db ex_post) of Inl _ \<Rightarrow> False | Inr (x, db') \<Rightarrow> u_role (ro_record x) = Super_Admin)"
proof -
  let ?A = "[(example_user ''s1'' Super_Admin)\<lparr>u_password_hash := ''hroot''\<rparr>]"
  let ?seat = "seatFounder ex_crypto \<lparr>gm_user_id = ''n'', gm_token = ''t'', gm_token_id = ''i'', gm_now = 0\<rparr>
      (make_draft ex_crypto ex_register True) (w_db ex_post)"
  have seated: "\<not> isl ?seat" and none: "users_countAllActiveSuperAdmins (w_db ex_post) = 0" by code_simp+
  then obtain x db' where seat: "?seat = Inr (x, db')" by (cases ?seat) auto
  have idle: "e_other ex_idle_env n db = db" for n db by (simp add: ex_browsing_defs)
  have rule: "rule_kept U ex_idle_env" for U by (simp add: rule_kept_def idle)
  have "dr_role (make_draft ex_crypto ex_register True) \<in> set REGISTRABLE_ROLES" by (simp add: make_draft_def ex_register_def REGISTRABLE_ROLES_def)
  moreover have "requireBootstrapToken ex_config (ri_bootstrap_token ex_register) \<noteq> Inr ()"
    by (simp add: requireBootstrapToken_def guard_def ex_auth_defs)
  moreover have "elevated_rows (db_users (w_db ex_seated)) = ?A" by code_simp
  ultimately show ?thesis
    using registration_confers_no_power [where P = "\<lambda>us. us = ?A" and captcha = "\<lambda>_. io_return Not_Required" and onRegistered = "\<lambda>_ _. io_return ()",
        OF rule _ keeps_return keeps_return _ _ seat] none seat by simp
qed

subsection \<open>Sign-in\<close>

lemma hoare_checked:
  "(r = Inr () \<Longrightarrow> hoare env P m Q E) \<Longrightarrow> (\<And>e w. r = Inl e \<Longrightarrow> P w \<Longrightarrow> E (plain e) w) \<Longrightarrow>
     hoare env P (io_bind (io_result r) (\<lambda>_. m)) Q E"
  by (cases r) (auto simp: hoare_def io_bind_def io_result_def io_throw_def io_return_def)

text \<open>A session as a sign-in commits it: what held of the account and of the policies in the state that the
  transaction wrote to.\<close>

definition entitled :: "auth_config \<Rightarrow> auth_crypto \<Rightarrow> string \<Rightarrow> portal_db \<Rightarrow> user \<Rightarrow> bool" where
  "entitled config crypto password db u \<longleftrightarrow> users_findById db (u_id u) = Some u \<and> u_status u = User_Active \<and>
     ay_verifyPassword crypto password (u_password_hash u) \<and> \<not> localPasswordBlocked (ag_providers config) db (u_id u) (u_role u) \<and>
     (readLoginPolicy db = Sso_Only \<longrightarrow> ag_break_glass config \<and> u_role u = Super_Admin) \<and>
     (rp_require_email_verification (readRegistrationPolicy db) \<longrightarrow> u_email_verified u)"

lemma issueSession_tx_Inr:
  assumes "issueSession_tx hashToken ttl u m db = Inr (s, db')"
  shows "is_session s = session_row hashToken ttl (u_id u) m" "is_token s = mt_token m"
    "db' = db\<lparr>db_sessions := db_sessions db @ [is_session s]\<rparr>"
  using assms by (auto simp: issueSession_tx_def tx_simps dest!: sessions_create_Inr)

text \<open>A committed sign-in of the account \<open>userId\<close>: the account is entitled to it in the very store the
  transaction wrote to, and that store is left as it was but for the new session row and the account's
  last login.\<close>

definition signed_in ::
  "auth_config \<Rightarrow> auth_crypto \<Rightarrow> string \<Rightarrow> string \<Rightarrow> issued_session \<Rightarrow> portal_db \<Rightarrow> portal_db \<Rightarrow> bool" where
  "signed_in config crypto password userId s db db' \<longleftrightarrow> (\<exists>u m instant. u_id u = userId \<and> entitled config crypto password db u \<and>
     is_session s = session_row (ay_hashToken crypto) (ag_session_ttl config) userId m \<and> is_token s = mt_token m \<and>
     db' = db\<lparr>db_users := update_where (\<lambda>x. u_id x = userId \<and> u_status x = User_Active \<and> u_password_hash x = u_password_hash u)
               (\<lambda>x. x\<lparr>u_last_login_at := Some instant\<rparr>) (db_users db),
             db_sessions := db_sessions db @ [is_session s]\<rparr>)"

lemma login_tx_signed_in:
  assumes "login_tx config crypto verified instant m db = Inr (s, db')" "ay_verifyPassword crypto password (u_password_hash verified)"
  shows "signed_in config crypto password (u_id verified) s db db'"
proof -
  let ?hit = "expect_user\<lparr>ue_status := Some User_Active, ue_password_hash := Some (u_password_hash verified)\<rparr>"
  let ?patch = "no_user_patch\<lparr>up_last_login_at := Some instant\<rparr>"
  obtain current where c: "users_findById db (u_id verified) = Some current" "login_refusal config db verified current = None"
    and rest: "\<exists>t db1. users_updateIfMatches (u_id verified) ?hit ?patch db = Inr (Some t, db1) \<and>
      issueSession_tx (ay_hashToken crypto) (ag_session_ttl config) t m db1 = Inr (s, db')"
    using assms(1) unfolding login_tx_def by (auto simp: tx_simps tx_check_Inr split: option.splits)
  have id: "u_id current = u_id verified" using c(1) by (auto simp: users_findById_def find_by_def find_Some_iff)
  obtain t db1 where w: "users_updateIfMatches (u_id verified) ?hit ?patch db = Inr (Some t, db1)"
    and s: "issueSession_tx (ay_hashToken crypto) (ag_session_ttl config) t m db1 = Inr (s, db')" using rest by blast
  have found: "users_findById db1 (u_id verified) = Some t"
    and db1: "db1 = db\<lparr>db_users := update_where (\<lambda>x. u_id x = u_id verified \<and> user_matches ?hit x) (userUpdateColumns ?patch) (db_users db)\<rparr>"
    using updateIfMatches_users [OF w] by (simp_all split: if_splits)
  have t: "u_id t = u_id verified" using found by (auto simp: users_findById_def find_by_def find_Some_iff)
  have ok: "entitled config crypto password db current" and same: "u_password_hash current = u_password_hash verified"
    using c id assms(2) by (auto simp: entitled_def login_refusal_def Let_def split: if_splits)
  have cols: "userUpdateColumns ?patch = (\<lambda>x. x\<lparr>u_last_login_at := Some instant\<rparr>)"
    by (rule ext) (simp add: userUpdateColumns_def no_user_patch_def patched_def)
  have hit: "user_matches ?hit = (\<lambda>x. u_status x = User_Active \<and> u_password_hash x = u_password_hash current)"
    by (rule ext) (simp add: user_matches_def expect_user_def same)
  show ?thesis unfolding signed_in_def
    using issueSession_tx_Inr [OF s] t ok id
    by (intro exI [of _ current] exI [of _ m] exI [of _ instant]) (simp add: db1 cols hit)
qed

definition login_reached ::
  "env \<Rightarrow> auth_config \<Rightarrow> auth_crypto \<Rightarrow> string \<Rightarrow> portal_db \<Rightarrow> string \<Rightarrow> issued_session \<Rightarrow> world \<Rightarrow> bool" where
  "login_reached env config crypto password db0 userId s w \<longleftrightarrow> (\<exists>db db'. by_others env db0 db \<and>
     signed_in config crypto password userId s db db' \<and> by_others env db' (w_db w))"

lemma stable_login_reached: "stable env (login_reached env config crypto password db0 userId s)"
  by (rule stableI) (auto simp: login_reached_def intro: by_others.intros)

lemma hoare_commit_login:
  assumes "ay_verifyPassword crypto password (u_password_hash verified)"
  shows "hoare env (\<lambda>w. by_others env db0 (w_db w)) (commit_login config crypto verified instant)
    (login_reached env config crypto password db0 (u_id verified)) (\<lambda>_ _. True)"
proof -
  have tx: "hoare env (\<lambda>w. by_others env db0 (w_db w)) (io_tx (login_tx config crypto verified instant m))
      (login_reached env config crypto password db0 (u_id verified)) (\<lambda>_ _. True)" for m
    by (rule hoare_tx_cases [OF stable_by_others])
       (auto simp: login_reached_def dest!: login_tx_signed_in [OF _ assms] intro: by_others.start)
  show ?thesis unfolding commit_login_def io_rewordLeaseLost_def rewordLockTimeout_def
    by (intro hoare_catch [where R = "\<lambda>_ _. True"] hoare_throw hoare_lock [OF stable_by_others] hoare_quiet [OF _ stable_by_others] tx)
       (auto simp: io_mint_def intro!: quiets)
qed

lemma quiet_blocked [quiets]: "quiet env (io_localPasswordBlocked declared userId role)"
  unfolding io_localPasswordBlocked_def by (intro quiets)

lemma quiet_login_checks: "quiet env (login_checks config ssoOnly found)"
  unfolding login_checks_def by (intro quiets)

text \<open>
  C14. A sign-in opens a session only for an account that is entitled to it when the session commits. The
  password was checked before the locks were taken and the others may have changed anything since; but when
  \<open>login\<close> answers, one transaction did both: the store it found, brought about by the others alone, had the
  account active, with a password hash that accepts the presented password, not blocked by a provider,
  verified if the policy demanded it then, and under \<open>sso_only\<close> a super admin's with the break-glass switch
  on; and the store it left is that same store with one more session row, that account's, of the
  configured lifetime and the token answered, and the account's last login. After it only the others and
  the audit entry write.
\<close>

theorem sign_in_commits_entitled:
  assumes "\<And>t. quiet env (captcha t)" "login config crypto captcha input env w = (Inr (u, s), w')"
  shows "\<exists>db db' db2 now. by_others env (w_db w) db \<and> signed_in config crypto (li_password input) (u_id u) s db db' \<and>
    by_others env db' db2 \<and> w_db w' = auditLogs_create None (Some (u_id u)) AUTH_LOGIN (u_id u) now db2"
proof -
  let ?P = "\<lambda>w1. by_others env (w_db w) (w_db w1)" and ?L = "login_reached env config crypto (li_password input) (w_db w)"
  let ?R = "\<lambda>i s w'. \<exists>db db' db2 now. by_others env (w_db w) db \<and> signed_in config crypto (li_password input) i s db db' \<and>
    by_others env db' db2 \<and> w_db w' = auditLogs_create None (Some i) AUTH_LOGIN i now db2"
  note q = hoare_quiet [OF _ stable_by_others]
  have after: "hoare env (?L (u_id v) issued) (io_bind io_now (\<lambda>now. io_bind (io_tx (tx_audit (Some (u_id v)) AUTH_LOGIN (u_id v) now)) (\<lambda>_.
      io_return (v\<lparr>u_last_login_at := x\<rparr>, issued)))) (\<lambda>(u, s). ?R (u_id u) s) (\<lambda>_ _. True)" for v issued x
  proof (rule hoare_quiet [OF quiet_now stable_login_reached])
    have tx: "hoare env (?L (u_id v) issued) (io_tx (tx_audit (Some (u_id v)) AUTH_LOGIN (u_id v) now)) (\<lambda>_. ?R (u_id v) issued) (\<lambda>_ _. True)" for now
      by (rule hoare_tx [OF stable_login_reached]) (auto simp: login_reached_def tx_audit_def tx_simps)
    show "hoare env (?L (u_id v) issued) (io_bind (io_tx (tx_audit (Some (u_id v)) AUTH_LOGIN (u_id v) now)) (\<lambda>_.
      io_return (v\<lparr>u_last_login_at := x\<rparr>, issued))) (\<lambda>(u, s). ?R (u_id u) s) (\<lambda>_ _. True)" for now
      by (rule hoare_bind [OF tx], rule hoare_return) auto
  qed simp_all
  have found: "hoare env ?P (if \<not> ay_verifyPassword crypto (li_password input) (u_password_hash v) then io_throw (plain BAD_CREDENTIALS)
      else io_bind (login_checks config b v) (\<lambda>_. io_bind io_now (\<lambda>instant. io_bind (commit_login config crypto v instant) (\<lambda>issued.
        io_bind io_now (\<lambda>now. io_bind (io_tx (tx_audit (Some (u_id v)) AUTH_LOGIN (u_id v) now)) (\<lambda>_.
        io_return (v\<lparr>u_last_login_at := Some instant\<rparr>, issued)))))))
      (\<lambda>(u, s). ?R (u_id u) s) (\<lambda>_ _. True)" for v b
  proof (cases "ay_verifyPassword crypto (li_password input) (u_password_hash v)")
    case True
    have "hoare env ?P (io_bind (login_checks config b v) (\<lambda>_. io_bind io_now (\<lambda>instant. io_bind (commit_login config crypto v instant)
        (\<lambda>issued. io_bind io_now (\<lambda>now. io_bind (io_tx (tx_audit (Some (u_id v)) AUTH_LOGIN (u_id v) now)) (\<lambda>_.
        io_return (v\<lparr>u_last_login_at := Some instant\<rparr>, issued))))))) (\<lambda>(u, s). ?R (u_id u) s) (\<lambda>_ _. True)"
      by (intro q [OF quiet_login_checks] q [OF quiet_now] hoare_bind [OF hoare_commit_login [OF True] after]) auto
    then show ?thesis using True by simp
  qed (auto intro: hoare_throw)
  have "hoare env ?P (login config crypto captcha input) (\<lambda>(u, s). ?R (u_id u) s) (\<lambda>_ _. True)"
    unfolding login_def Let_def
    apply (intro q quiet_read quiet_guard assms(1))
    subgoal for ssoOnly _ _ f by (cases f) (simp_all only: option.case, rule hoare_throw, simp, rule found)
    by simp_all
  from hoare_Inr [OF this by_others.start assms(2)] show ?thesis by simp
qed

definition ex_member :: world where
  "ex_member = ex_post\<lparr>w_db := (w_db ex_post)\<lparr>db_users := [(example_user ''u1'' Client)\<lparr>u_email := ''a@b.c'', u_password_hash := ''hsecret''\<rparr>]\<rparr>\<rparr>"

theorem sign_in_commits_entitled_witness:
  "\<exists>s db' now. signed_in ex_config ex_crypto ''secret'' ''u1'' s (w_db ex_member) db' \<and>
     fst (login ex_config ex_crypto (\<lambda>_. io_return Not_Required) \<lparr>li_email = '' A@b.c'', li_password = ''secret'', li_captcha_token = None\<rparr>
       ex_idle_env ex_member) = Inr ((example_user ''u1'' Client)\<lparr>u_email := ''a@b.c'', u_password_hash := ''hsecret'', u_last_login_at := Some 5\<rparr>, s) \<and>
     w_db (snd (login ex_config ex_crypto (\<lambda>_. io_return Not_Required) \<lparr>li_email = '' A@b.c'', li_password = ''secret'', li_captcha_token = None\<rparr>
       ex_idle_env ex_member)) = auditLogs_create None (Some ''u1'') AUTH_LOGIN ''u1'' now db'"
proof -
  let ?run = "login ex_config ex_crypto (\<lambda>_. io_return Not_Required) \<lparr>li_email = '' A@b.c'', li_password = ''secret'', li_captcha_token = None\<rparr>
       ex_idle_env ex_member"
  let ?u = "(example_user ''u1'' Client)\<lparr>u_email := ''a@b.c'', u_password_hash := ''hsecret'', u_last_login_at := Some 5\<rparr>"
  have "case fst ?run of Inl _ \<Rightarrow> False | Inr (u, s) \<Rightarrow> u = ?u"
    by code_simp
  then obtain s where run: "?run = (Inr (?u, s), snd ?run)"
    by (cases ?run; cases "fst ?run") auto
  have q: "quiet ex_idle_env (io_return Not_Required)" by (rule quiet_return)
  have id: "u_id ?u = ''u1''" by simp
  obtain db db' db2 now where c: "by_others ex_idle_env (w_db ex_member) db" "signed_in ex_config ex_crypto ''secret'' (u_id ?u) s db db'"
      "by_others ex_idle_env db' db2" "w_db (snd ?run) = auditLogs_create None (Some (u_id ?u)) AUTH_LOGIN (u_id ?u) now db2"
    using sign_in_commits_entitled [where captcha = "\<lambda>_. io_return Not_Required", OF q run, unfolded login_input.simps] by blast
  have idle: "e_other ex_idle_env n db = db" for n db by (simp add: ex_browsing_defs)
  have same: "db = w_db ex_member" "db2 = db'" using c(1,3) by_others_idle [OF _ idle] by blast+
  have "fst ?run = Inr (?u, s)"
    by (rule arg_cong [OF run, of fst, unfolded fst_conv])
  then show ?thesis using c(2,4) unfolding same id by blast
qed

end
