(* ===== verification/Reset_Safety.thy ===== *)
theory Reset_Safety
  imports Auth_Safety
begin

section \<open>What a password reset and a mailed link promise\<close>

text \<open>
  A redeemed reset replaces the password and ends every session, every other reset link and, where it is
  the first proof of the address, every pending request of the account; and the answers to a request for a
  link are all alike.
\<close>

subsection \<open>The requests a reset cancels\<close>

definition pending_of :: "string \<Rightarrow> portal_db \<Rightarrow> access_request list" where
  "pending_of userId db = filter (\<lambda>r. rq_user_id r = userId \<and> rq_status r = Rq_Pending) (db_requests db)"

text \<open>The requests, proofs of address and recoveries of everybody else.\<close>

definition requests_of_others :: "string \<Rightarrow> portal_db \<Rightarrow> access_request list" where
  "requests_of_others userId db = filter (\<lambda>r. rq_user_id r \<noteq> userId) (db_requests db)"

definition proofs_of_others :: "string \<Rightarrow> portal_db \<Rightarrow> email_proof list" where
  "proofs_of_others userId db = filter (\<lambda>p. ep_user_id p \<noteq> userId) (db_proofs db)"

definition recoveries_of_others :: "string \<Rightarrow> portal_db \<Rightarrow> recovery_job list" where
  "recoveries_of_others userId db = filter (\<lambda>j. rj_user_id j \<noteq> userId) (db_recovery db)"

lemmas of_others_defs = requests_of_others_def proofs_of_others_def recoveries_of_others_def

abbreviation cancelled_patch :: request_patch where
  "cancelled_patch \<equiv> no_request_patch\<lparr>pq_status := Some Rq_Cancelled\<rparr>"

lemma cancelled_row: "rq_id (request_row_after now cancelled_patch r) = rq_id r" "rq_status (request_row_after now cancelled_patch r) = Rq_Cancelled"
  by (simp_all add: request_row_after_def no_request_patch_def accessRequestUpdateColumns_def patched_def)

lemma pending_rows_after:
  "filter (\<lambda>r. rq_user_id r = u \<and> rq_status r = Rq_Pending)
       (update_where (\<lambda>r. rq_id r = i \<and> rq_status r = Rq_Pending) (request_row_after now cancelled_patch) rows) =
     filter (\<lambda>r. rq_id r \<noteq> i) (filter (\<lambda>r. rq_user_id r = u \<and> rq_status r = Rq_Pending) rows)"
  by (induction rows) (auto simp: update_where_def cancelled_row)

lemma others_update:
  "(\<And>x. x \<in> set rows \<Longrightarrow> P x \<Longrightarrow> key x = u \<and> key (f x) = u) \<Longrightarrow>
     filter (\<lambda>x. key x \<noteq> u) (update_where P f rows) = filter (\<lambda>x. key x \<noteq> u) rows"
  by (induction rows) (auto simp: update_where_def)

lemma cancel_one_Inr:
  assumes "accessRequests_updateIfStatus now i Rq_Pending cancelled_patch db = Inr (res, db')"
  shows "distinct (map rq_id (db_requests db))" "pending_of u db' = filter (\<lambda>r. rq_id r \<noteq> i) (pending_of u db)"
    "db' = db\<lparr>db_requests := db_requests db'\<rparr>" "res = None \<Longrightarrow> \<not> list_ex (\<lambda>r. rq_id r = i \<and> rq_status r = Rq_Pending) (db_requests db)"
    "\<exists>r\<in>set (pending_of u db). rq_id r = i \<Longrightarrow> requests_of_others u db' = requests_of_others u db"
proof -
  let ?hit = "\<lambda>r. rq_id r = i \<and> rq_status r = Rq_Pending" and ?f = "request_row_after now cancelled_patch"
  have ne: "cancelled_patch \<noteq> no_request_patch" by (simp add: no_request_patch_def)
  have u: "requests_unique (update_where ?hit ?f (db_requests db))" and db': "db' = db\<lparr>db_requests := update_where ?hit ?f (db_requests db)\<rparr>"
    and res: "res = (if list_ex ?hit (db_requests db) then accessRequests_findById db' i else None)"
    using assms ne by (auto simp: accessRequests_updateIfStatus_def Let_def mapConflict_def rbind_eq_Inr split: if_splits)
  show "distinct (map rq_id (db_requests db))"
    using u by (simp add: requests_unique_def map_update_where cancelled_row)
  have d: "distinct (map rq_id (db_requests db))"
    using u by (simp add: requests_unique_def map_update_where cancelled_row)
  show "requests_of_others u db' = requests_of_others u db" if ex: "\<exists>r\<in>set (pending_of u db). rq_id r = i" for u
  proof -
    obtain r where r: "r \<in> set (db_requests db)" "rq_user_id r = u" "rq_id r = i"
      using ex by (auto simp: pending_of_def)
    have "rq_user_id x = u" if "x \<in> set (db_requests db)" "?hit x" for x
      using d that r by (auto simp: distinct_map dest: inj_onD)
    then show ?thesis unfolding requests_of_others_def db'
      by (simp, intro others_update) (simp add: request_row_after_def no_request_patch_def accessRequestUpdateColumns_def patched_def)
  qed
  show "pending_of u db' = filter (\<lambda>r. rq_id r \<noteq> i) (pending_of u db)" for u
    unfolding pending_of_def db' using pending_rows_after [of u i now "db_requests db"] by simp
  show "db' = db\<lparr>db_requests := db_requests db'\<rparr>" by (simp add: db')
  show "\<not> list_ex ?hit (db_requests db)" if "res = None"
  proof
    assume ex: "list_ex ?hit (db_requests db)"
    then obtain r where r: "r \<in> set (db_requests db)" "rq_id r = i" by (auto simp: list_ex_iff)
    then have "(if ?hit r then ?f r else r) \<in> set (db_requests db')" by (simp add: db' set_update_where)
    moreover have "rq_id (if ?hit r then ?f r else r) = i" using r by (simp add: cancelled_row)
    ultimately have "accessRequests_findById db' i \<noteq> None" by (auto simp: accessRequests_findById_def find_by_def find_None_iff)
    then show False using res ex that by simp
  qed
qed

lemma cancel_page_Inr:
  "cancel_page now page n db = Inr (n', db') \<Longrightarrow> set page \<subseteq> set (pending_of u db) \<Longrightarrow> distinct (map rq_id page) \<Longrightarrow>
     n' = n + length page \<and> pending_of u db' = filter (\<lambda>r. rq_id r \<notin> rq_id ` set page) (pending_of u db) \<and>
     requests_of_others u db' = requests_of_others u db \<and> db' = db\<lparr>db_requests := db_requests db'\<rparr>"
proof (induction page arbitrary: n db)
  case Nil
  then show ?case by (simp add: tx_simps)
next
  case (Cons r rs)
  obtain res db1 where one: "accessRequests_updateIfStatus now (rq_id r) Rq_Pending cancelled_patch db = Inr (res, db1)"
    and rest: "cancel_page now rs (if res = None then n else Suc n) db1 = Inr (n', db')"
    using Cons.prems(1) by (auto simp: tx_simps)
  note c = cancel_one_Inr [OF one]
  have "list_ex (\<lambda>x. rq_id x = rq_id r \<and> rq_status x = Rq_Pending) (db_requests db)"
    using Cons.prems(2) by (auto simp: pending_of_def list_ex_iff)
  then have some: "res \<noteq> None" using c(4) by blast
  have sub: "set rs \<subseteq> set (pending_of u db1)"
  proof
    fix x
    assume x: "x \<in> set rs"
    then have "rq_id x \<in> set (map rq_id rs)" by simp
    then have "rq_id x \<noteq> rq_id r" using Cons.prems(3) by auto
    then show "x \<in> set (pending_of u db1)" unfolding c(2) using Cons.prems(2) x by auto
  qed
  have "n' = Suc n + length rs \<and> pending_of u db' = filter (\<lambda>r. rq_id r \<notin> rq_id ` set rs) (pending_of u db1) \<and>
     requests_of_others u db' = requests_of_others u db1 \<and> db' = db1\<lparr>db_requests := db_requests db'\<rparr>"
    using Cons.IH [OF _ sub, of "Suc n"] rest some Cons.prems(3) by simp
  moreover have "requests_of_others u db1 = requests_of_others u db" using c(5) Cons.prems(2) by auto
  ultimately show ?case unfolding c(2) by (subst (asm) c(3)) (auto simp: filter_filter intro: filter_cong)
qed

lemma pending_page_set: "set (pending_page u db) \<subseteq> set (pending_of u db)"
  by (auto simp: pending_page_def pending_of_def dest: in_set_takeD)

lemma pending_page_empty: "pending_page u db = [] \<Longrightarrow> pending_of u db = []"
proof -
  assume "pending_page u db = []"
  then have "length (pending_page u db) = 0" by simp
  then have "min (length (pending_of u db)) DEFAULT_PAGE_SIZE = 0" by (simp add: pending_page_def pending_of_def min.commute)
  then show ?thesis by (simp add: DEFAULT_PAGE_SIZE_def min_def split: if_splits)
qed

lemma pending_page_distinct:
  assumes "distinct (map rq_id (db_requests db))"
  shows "distinct (map rq_id (pending_page u db))"
proof -
  let ?rows = "rev (sort_key rq_created_at (sort_key rq_id (pending_of u db)))"
  have "distinct (map rq_id (pending_of u db))" using assms by (simp add: pending_of_def distinct_map_filter)
  then have "distinct (map rq_id ?rows)" by (simp add: distinct_map)
  then show ?thesis using distinct_take [of "map rq_id ?rows" DEFAULT_PAGE_SIZE] by (simp add: pending_page_def pending_of_def take_map)
qed

lemma cancel_rounds_Inr:
  "cancel_rounds fuel u now n db = Inr (n', db') \<Longrightarrow> length (pending_of u db) < fuel \<Longrightarrow>
     pending_of u db' = [] \<and> requests_of_others u db' = requests_of_others u db \<and> db' = db\<lparr>db_requests := db_requests db'\<rparr>"
proof (induction fuel arbitrary: n db)
  case 0
  then show ?case by simp
next
  case (Suc fuel)
  show ?case
  proof (cases "pending_page u db")
    case Nil
    then show ?thesis using Suc.prems pending_page_empty [OF Nil] by (simp add: tx_simps)
  next
    case (Cons r rs)
    obtain k db1 where page: "cancel_page now (pending_page u db) n db = Inr (k, db1)"
      and rest: "(if k = n then tx_return n else cancel_rounds fuel u now k) db1 = Inr (n', db')"
      using Suc.prems(1) Cons by (auto simp: tx_simps)
    have "distinct (map rq_id (db_requests db))"
      using page unfolding Cons cancel_page.simps tx_simps by (auto dest: cancel_one_Inr(1))
    note p = cancel_page_Inr [OF page pending_page_set pending_page_distinct [OF this]]
    have "r \<in> set (pending_of u db)" using pending_page_set [of u db] Cons by auto
    then have "length (pending_of u db1) < length (pending_of u db)"
      using p Cons by (auto intro!: length_filter_less)
    then have "pending_of u db' = [] \<and> requests_of_others u db' = requests_of_others u db1 \<and> db' = db1\<lparr>db_requests := db_requests db'\<rparr>"
      using Suc.IH [of k db1] rest p Cons Suc.prems(2) by (auto split: if_splits)
    then show ?thesis using p by (metis (no_types, lifting) portal_db.update_convs(6) portal_db.surjective portal_db.select_convs(6))
  qed
qed

lemma cancel_pending_Inr:
  assumes "cancel_pending u now db = Inr (n, db')"
  shows "pending_of u db' = []" "db' = db\<lparr>db_requests := db_requests db'\<rparr>" "requests_of_others u db' = requests_of_others u db"
proof -
  have "cancel_rounds (Suc (length (pending_of u db))) u now 0 db = Inr (n, db')"
    using assms by (simp add: cancel_pending_def tx_simps pending_of_def del: cancel_rounds.simps)
  from cancel_rounds_Inr [OF this] show "pending_of u db' = []" "db' = db\<lparr>db_requests := db_requests db'\<rparr>"
    "requests_of_others u db' = requests_of_others u db" by simp_all
qed

subsection \<open>The redemption\<close>

text \<open>What a committed redemption leaves of the account \<open>u\<close>.\<close>

definition redeemed :: "string \<Rightarrow> user \<Rightarrow> bool \<Rightarrow> string \<Rightarrow> portal_db \<Rightarrow> bool" where
  "redeemed newHash u firstProof generation db \<longleftrightarrow> users_findById db (u_id u) = Some u \<and>
     u_password_hash u = newHash \<and> u_email_verified u \<and> u_status u = User_Active \<and>
     (\<forall>s\<in>set (db_sessions db). se_user_id s \<noteq> u_id u) \<and>
     (\<forall>t\<in>set (db_tokens db). vt_user_id t = u_id u \<longrightarrow> vt_purpose t \<noteq> Password_Reset) \<and>
     (firstProof \<longrightarrow> pending_of (u_id u) db = [] \<and>
        (\<exists>j. accountRecoveryJobs_findByUser db (u_id u) = Some j \<and> rj_status j = Rec_Pending \<and> rj_generation j = generation))"

text \<open>How the transaction turns the store it found into the one it left: the account has the new password
  and a verified address, its sessions and its reset links are gone, the link \<open>linkId\<close> is used, and nothing
  of any other account is touched.\<close>

definition reset_left :: "string \<Rightarrow> string \<Rightarrow> string \<Rightarrow> int \<Rightarrow> portal_db \<Rightarrow> portal_db \<Rightarrow> bool" where
  "reset_left newHash userId linkId now db db' \<longleftrightarrow>
     db_users db' = update_where (\<lambda>x. u_id x = userId \<and> u_status x = User_Active)
       (\<lambda>x. x\<lparr>u_password_hash := newHash, u_email_verified := True\<rparr>) (db_users db) \<and>
     db_sessions db' = filter (\<lambda>s. se_user_id s \<noteq> userId) (db_sessions db) \<and>
     db_tokens db' = filter (\<lambda>t. \<not> (vt_user_id t = userId \<and> vt_purpose t = Password_Reset))
       (update_where (\<lambda>t. vt_id t = linkId \<and> vt_used_at t = None) (\<lambda>t. t\<lparr>vt_used_at := Some now\<rparr>) (db_tokens db)) \<and>
     requests_of_others userId db' = requests_of_others userId db \<and> proofs_of_others userId db' = proofs_of_others userId db \<and>
     recoveries_of_others userId db' = recoveries_of_others userId db \<and>
     (\<exists>requests proofs recovery audit. db' = db\<lparr>db_users := db_users db', db_sessions := db_sessions db', db_tokens := db_tokens db',
        db_requests := requests, db_proofs := proofs, db_recovery := recovery, db_audit := audit\<rparr>)"

lemma recovery_upsert_Inr:
  assumes "accountRecoveryJobs_upsertPending i g u now db = Inr (j, db')"
  shows "db' = db\<lparr>db_recovery := db_recovery db'\<rparr>"
    "\<exists>j. accountRecoveryJobs_findByUser db' u = Some j \<and> rj_status j = Rec_Pending \<and> rj_generation j = g"
    "recoveries_of_others u db' = recoveries_of_others u db"
proof -
  let ?fresh = "\<lparr>rj_id = i, rj_generation = g, rj_user_id = u, rj_status = Rec_Pending, rj_attempts = 0,
            rj_next_attempt_at = Some now, rj_last_error = None, rj_unblocked_at = None, rj_created_at = now, rj_updated_at = now\<rparr>"
  let ?reset = "\<lambda>j. ?fresh\<lparr>rj_id := rj_id j, rj_created_at := rj_created_at j\<rparr>"
  have found: "find_by rj_user_id u (update_where (\<lambda>j. rj_user_id j = u) ?reset rows) = map_option ?reset (find_by rj_user_id u rows)" for rows
    by (induction rows) (auto simp: find_by_def update_where_def)
  have appended: "find_by rj_user_id u (rows @ [?fresh]) = Some ?fresh" if "find_by rj_user_id u rows = None" for rows
    using that by (induction rows) (auto simp: find_by_def split: if_splits)
  have kept: "filter (\<lambda>j. rj_user_id j \<noteq> u) (update_where (\<lambda>j. rj_user_id j = u) ?reset rows) = filter (\<lambda>j. rj_user_id j \<noteq> u) rows" for rows
    by (rule others_update) simp
  have "db' = db\<lparr>db_recovery := db_recovery db'\<rparr> \<and> recoveries_of_others u db' = recoveries_of_others u db \<and>
      (\<exists>j. accountRecoveryJobs_findByUser db' u = Some j \<and> rj_status j = Rec_Pending \<and> rj_generation j = g)"
  proof (cases "accountRecoveryJobs_findByUser db u")
    case None
    then have "db' = db\<lparr>db_recovery := db_recovery db @ [?fresh]\<rparr>"
      using assms by (auto simp: accountRecoveryJobs_upsertPending_def Let_def split: if_splits)
    then show ?thesis using None appended [of "db_recovery db"] by (simp add: accountRecoveryJobs_findByUser_def recoveries_of_others_def)
  next
    case (Some old)
    then have "db' = db\<lparr>db_recovery := update_where (\<lambda>j. rj_user_id j = u) ?reset (db_recovery db)\<rparr>"
      using assms by (auto simp: accountRecoveryJobs_upsertPending_def Let_def)
    then show ?thesis using Some found [of "db_recovery db"] kept [of "db_recovery db"]
      by (simp add: accountRecoveryJobs_findByUser_def recoveries_of_others_def)
  qed
  then show "db' = db\<lparr>db_recovery := db_recovery db'\<rparr>"
    "\<exists>j. accountRecoveryJobs_findByUser db' u = Some j \<and> rj_status j = Rec_Pending \<and> rj_generation j = g"
    "recoveries_of_others u db' = recoveries_of_others u db" by simp_all
qed

lemma reset_effects_Inr:
  assumes "reset_effects m u db = Inr (firstProof, db')"
  shows "firstProof = first_trusted u (emailProofs_findByUser db (u_id u))"
    "requests_of_others (u_id u) db' = requests_of_others (u_id u) db \<and> proofs_of_others (u_id u) db' = proofs_of_others (u_id u) db \<and>
       recoveries_of_others (u_id u) db' = recoveries_of_others (u_id u) db"
    "\<exists>requests proofs recovery audit. db' = db\<lparr>db_sessions := filter (\<lambda>s. se_user_id s \<noteq> u_id u) (db_sessions db),
       db_tokens := filter (\<lambda>t. \<not> (vt_user_id t = u_id u \<and> vt_purpose t = Password_Reset)) (db_tokens db),
       db_requests := requests, db_proofs := proofs, db_recovery := recovery, db_audit := audit\<rparr>"
    "firstProof \<Longrightarrow> pending_of (u_id u) db' = [] \<and>
       (\<exists>j. accountRecoveryJobs_findByUser db' (u_id u) = Some j \<and> rj_status j = Rec_Pending \<and> rj_generation j = rs_generation m)"
proof -
  let ?first = "first_trusted u (emailProofs_findByUser db (u_id u))"
  define db1 where "db1 = snd (emailProofs_upsert (u_id u) (u_email u) By_Password_Reset (rs_now m) db)"
  have up: "emailProofs_upsert (u_id u) (u_email u) By_Password_Reset (rs_now m) db = ((), db1)"
    by (simp add: db1_def prod_eq_iff)
  obtain proofs where db1: "db1 = db\<lparr>db_proofs := proofs\<rparr>" by (simp add: db1_def emailProofs_upsert_def Let_def)
  have proofs: "proofs_of_others (u_id u) db1 = proofs_of_others (u_id u) db"
    using others_update [of "db_proofs db" "\<lambda>p. ep_user_id p = u_id u" ep_user_id "u_id u"
        "\<lambda>_. \<lparr>ep_user_id = u_id u, ep_email = js_lower (js_trim (u_email u)), ep_method = By_Password_Reset, ep_proven_at = rs_now m\<rparr>"]
    by (simp add: proofs_of_others_def db1_def emailProofs_upsert_def Let_def)
  obtain db2 audit where two: "(if ?first then tx_bind (accountRecoveryJobs_upsertPending (rs_job_id m) (rs_generation m) (u_id u) (rs_now m))
      (\<lambda>_. tx_bind (cancel_pending (u_id u) (rs_now m)) (\<lambda>_. tx_return ())) else tx_return ()) db1 = Inr ((), db2)"
    and f: "firstProof = ?first"
    and db': "db' = db2\<lparr>db_tokens := filter (\<lambda>t. \<not> (vt_user_id t = u_id u \<and> vt_purpose t = Password_Reset)) (db_tokens db2),
      db_sessions := filter (\<lambda>s. se_user_id s \<noteq> u_id u) (db_sessions db2), db_audit := audit\<rparr>"
    using assms unfolding reset_effects_def tx_simps
    by (auto simp: up tx_of_def verificationTokens_deleteForUser_def sessions_deleteForUser_def tx_audit_def auditLogs_create_def
        tx_simps Let_def split del: if_split)
  have rest: "requests_of_others (u_id u) db2 = requests_of_others (u_id u) db1 \<and>
      recoveries_of_others (u_id u) db2 = recoveries_of_others (u_id u) db1 \<and>
      (\<exists>requests recovery. db2 = db1\<lparr>db_requests := requests, db_recovery := recovery\<rparr>) \<and> (?first \<longrightarrow> pending_of (u_id u) db2 = [] \<and>
       (\<exists>j. accountRecoveryJobs_findByUser db2 (u_id u) = Some j \<and> rj_status j = Rec_Pending \<and> rj_generation j = rs_generation m))"
  proof (cases ?first)
    case True
    then obtain j db3 n where up: "accountRecoveryJobs_upsertPending (rs_job_id m) (rs_generation m) (u_id u) (rs_now m) db1 = Inr (j, db3)"
      and can: "cancel_pending (u_id u) (rs_now m) db3 = Inr (n, db2)"
      using two by (auto simp: tx_simps)
    note r = recovery_upsert_Inr [OF up] and c = cancel_pending_Inr [OF can]
    obtain recovery requests where db3: "db3 = db1\<lparr>db_recovery := recovery\<rparr>" and db2: "db2 = db3\<lparr>db_requests := requests\<rparr>"
      using r(1) c(2) by blast
    have "db2 = db1\<lparr>db_requests := requests, db_recovery := recovery\<rparr>" by (simp add: db2 db3)
    moreover have "requests_of_others (u_id u) db3 = requests_of_others (u_id u) db1" by (simp add: requests_of_others_def db3)
    moreover have "db_recovery db2 = db_recovery db3" by (simp add: db2)
    moreover from this have "recoveries_of_others (u_id u) db2 = recoveries_of_others (u_id u) db3" by (simp add: recoveries_of_others_def)
    ultimately show ?thesis using r(2,3) c(1,3) by (auto simp: accountRecoveryJobs_findByUser_def)
  next
    case False
    have "\<exists>requests recovery. db1 = db1\<lparr>db_requests := requests, db_recovery := recovery\<rparr>"
      by (rule exI [of _ "db_requests db1"], rule exI [of _ "db_recovery db1"]) simp
    then show ?thesis using two False by (simp add: tx_simps)
  qed
  show "firstProof = ?first" by (rule f)
  obtain requests recovery where db2: "db2 = db1\<lparr>db_requests := requests, db_recovery := recovery\<rparr>" using rest by blast
  show "requests_of_others (u_id u) db' = requests_of_others (u_id u) db \<and> proofs_of_others (u_id u) db' = proofs_of_others (u_id u) db \<and>
      recoveries_of_others (u_id u) db' = recoveries_of_others (u_id u) db"
    using rest proofs by (simp add: of_others_defs db' db1 db2)
  have "db' = db\<lparr>db_sessions := filter (\<lambda>s. se_user_id s \<noteq> u_id u) (db_sessions db),
       db_tokens := filter (\<lambda>t. \<not> (vt_user_id t = u_id u \<and> vt_purpose t = Password_Reset)) (db_tokens db),
       db_requests := requests, db_proofs := proofs, db_recovery := recovery, db_audit := audit\<rparr>"
    by (simp add: db' db2 db1)
  then show "\<exists>requests proofs recovery audit. db' = db\<lparr>db_sessions := filter (\<lambda>s. se_user_id s \<noteq> u_id u) (db_sessions db),
       db_tokens := filter (\<lambda>t. \<not> (vt_user_id t = u_id u \<and> vt_purpose t = Password_Reset)) (db_tokens db),
       db_requests := requests, db_proofs := proofs, db_recovery := recovery, db_audit := audit\<rparr>" by blast
  show "firstProof \<Longrightarrow> pending_of (u_id u) db' = [] \<and>
       (\<exists>j. accountRecoveryJobs_findByUser db' (u_id u) = Some j \<and> rj_status j = Rec_Pending \<and> rj_generation j = rs_generation m)"
    using rest f by (simp add: pending_of_def accountRecoveryJobs_findByUser_def db')
qed

lemma reset_tx_redeems:
  assumes "reset_tx config crypto userId token newHash m db = Inr ((u, firstProof), db')"
  shows "\<exists>t. u_id u = userId \<and> verificationTokens_findByTokenHash db (ay_hashToken crypto token) Password_Reset = Some t \<and>
    live_reset (rs_now m) (Some t) \<and> reset_refusal config db userId = None \<and> firstProof = first_trusted u (emailProofs_findByUser db userId) \<and>
    reset_left newHash userId (vt_id t) (rs_now m) db db' \<and> redeemed newHash u firstProof (rs_generation m) db'"
proof -
  let ?hit = "expect_user\<lparr>ue_status := Some User_Active\<rparr>"
  let ?patch = "no_user_patch\<lparr>up_password_hash := Some newHash, up_email_verified := Some True\<rparr>"
  let ?users = "update_where (\<lambda>x. u_id x = userId \<and> u_status x = User_Active) (\<lambda>x. x\<lparr>u_password_hash := newHash, u_email_verified := True\<rparr>)"
  obtain t db2 where t: "verificationTokens_findByTokenHash db (ay_hashToken crypto token) Password_Reset = Some t"
    and live: "live_reset (rs_now m) (Some t)" and ok: "reset_refusal config db userId = None"
    and w: "users_updateIfMatches userId ?hit ?patch (snd (verificationTokens_markUsed (vt_id t) (rs_now m) db)) = Inr (Some u, db2)"
    and e: "reset_effects m u db2 = Inr (firstProof, db')"
    using assms unfolding reset_tx_def
    by (cases "verificationTokens_findByTokenHash db (ay_hashToken crypto token) Password_Reset")
       (auto simp: tx_simps tx_check_Inr tx_of_def live_reset_def split: option.splits if_splits)
  have cols: "userUpdateColumns ?patch = (\<lambda>x. x\<lparr>u_password_hash := newHash, u_email_verified := True\<rparr>)"
    by (rule ext) (simp add: userUpdateColumns_def no_user_patch_def patched_def)
  have hit: "user_matches ?hit = (\<lambda>x. u_status x = User_Active)" by (rule ext) (simp add: user_matches_def expect_user_def)
  have found: "users_findById db2 userId = Some u"
    and db2: "db2 = db\<lparr>db_users := ?users (db_users db), db_tokens := update_where (\<lambda>t'. vt_id t' = vt_id t \<and> vt_used_at t' = None)
      (\<lambda>t. t\<lparr>vt_used_at := Some (rs_now m)\<rparr>) (db_tokens db)\<rparr>"
    using updateIfMatches_users [OF w] by (simp_all add: cols hit verificationTokens_markUsed_def Let_def split: if_splits)
  then have id: "u_id u = userId" by (auto simp: users_findById_def find_by_def find_Some_iff)
  obtain c where c: "users_findById db userId = Some c" "u_status c = User_Active"
    using ok by (auto simp: reset_refusal_def split: option.splits if_splits)
  have cid: "u_id c = userId" using c(1) by (auto simp: users_findById_def find_by_def find_Some_iff)
  have "users_findById db2 userId = map_option (\<lambda>x. if u_id x = userId \<and> u_status x = User_Active
      then x\<lparr>u_password_hash := newHash, u_email_verified := True\<rparr> else x) (users_findById db userId)"
    by (simp add: db2 users_findById_def find_by_update_where)
  then have row: "u = c\<lparr>u_password_hash := newHash, u_email_verified := True\<rparr>" using found c cid by simp
  note r = reset_effects_Inr [OF e, unfolded id]
  obtain requests proofs recovery audit where db': "db' = db2\<lparr>db_sessions := filter (\<lambda>s. se_user_id s \<noteq> userId) (db_sessions db2),
       db_tokens := filter (\<lambda>t. \<not> (vt_user_id t = userId \<and> vt_purpose t = Password_Reset)) (db_tokens db2),
       db_requests := requests, db_proofs := proofs, db_recovery := recovery, db_audit := audit\<rparr>" using r(3) by blast
  have "firstProof = first_trusted u (emailProofs_findByUser db userId)"
    using r(1) by (simp add: emailProofs_findByUser_def db2)
  moreover have "reset_left newHash userId (vt_id t) (rs_now m) db db'"
    unfolding reset_left_def
    by (intro conjI exI [of _ requests] exI [of _ proofs] exI [of _ recovery] exI [of _ audit])
       (use r(2) in \<open>simp_all add: db' db2 of_others_defs\<close>)
  moreover have "redeemed newHash u firstProof (rs_generation m) db'"
  proof -
    have "users_findById db' userId = Some u" using found by (simp add: users_findById_def db')
    moreover have "\<forall>s\<in>set (db_sessions db'). se_user_id s \<noteq> userId"
      "\<forall>t\<in>set (db_tokens db'). vt_user_id t = userId \<longrightarrow> vt_purpose t \<noteq> Password_Reset" by (auto simp: db')
    ultimately show ?thesis using r(4) row c(2) id by (simp add: redeemed_def)
  qed
  ultimately show ?thesis using t live ok id by blast
qed

text \<open>A committed redemption: what its transaction found, and what it made of it.\<close>

definition reset_committed :: "auth_config \<Rightarrow> auth_crypto \<Rightarrow> string \<Rightarrow> string \<Rightarrow> user \<Rightarrow> bool \<Rightarrow> portal_db \<Rightarrow> portal_db \<Rightarrow> bool" where
  "reset_committed config crypto token newPassword u firstProof db db' \<longleftrightarrow> (\<exists>now t generation.
     verificationTokens_findByTokenHash db (ay_hashToken crypto token) Password_Reset = Some t \<and> live_reset now (Some t) \<and>
     reset_refusal config db (u_id u) = None \<and> firstProof = first_trusted u (emailProofs_findByUser db (u_id u)) \<and>
     reset_left (ay_hashPassword crypto newPassword) (u_id u) (vt_id t) now db db' \<and>
     redeemed (ay_hashPassword crypto newPassword) u firstProof generation db')"

lemma reset_tx_committed:
  assumes "reset_tx config crypto userId token (ay_hashPassword crypto newPassword) m db = Inr ((u, firstProof), db')"
  shows "u_id u = userId \<and> reset_committed config crypto token newPassword u firstProof db db'"
  using reset_tx_redeems [OF assms] unfolding reset_committed_def by blast

text \<open>The link as it was looked up first, before any lock.\<close>

definition link_seen :: "env \<Rightarrow> auth_crypto \<Rightarrow> string \<Rightarrow> portal_db \<Rightarrow> token option \<Rightarrow> portal_db \<Rightarrow> bool" where
  "link_seen env crypto token db0 found db \<longleftrightarrow> (\<exists>dbL. by_others env db0 dbL \<and>
     verificationTokens_findByTokenHash dbL (ay_hashToken crypto token) Password_Reset = found \<and> by_others env dbL db)"

lemma stable_link_seen: "stable env (\<lambda>w. link_seen env crypto token db0 found (w_db w))"
  by (rule stableI) (auto simp: link_seen_def intro: by_others.step)

definition reset_reached ::
  "env \<Rightarrow> auth_config \<Rightarrow> auth_crypto \<Rightarrow> string \<Rightarrow> string \<Rightarrow> portal_db \<Rightarrow> user \<Rightarrow> bool \<Rightarrow> world \<Rightarrow> bool" where
  "reset_reached env config crypto token newPassword db0 u firstProof w \<longleftrightarrow> (\<exists>t db db'.
     link_seen env crypto token db0 (Some t) db \<and> vt_user_id t = u_id u \<and>
     reset_committed config crypto token newPassword u firstProof db db' \<and> by_others env db' (w_db w))"

lemma hoare_commit_reset:
  "hoare env (\<lambda>w. link_seen env crypto token db0 (Some t) (w_db w))
     (commit_reset config crypto (vt_user_id t) token (ay_hashPassword crypto newPassword))
     (\<lambda>r w. reset_reached env config crypto token newPassword db0 (fst r) (snd r) w) (\<lambda>_ _. True)"
proof -
  note st = stable_link_seen [of env crypto token db0 "Some t"]
  have tx: "hoare env (\<lambda>w. link_seen env crypto token db0 (Some t) (w_db w))
     (io_tx (reset_tx config crypto (vt_user_id t) token (ay_hashPassword crypto newPassword) m))
     (\<lambda>r w. reset_reached env config crypto token newPassword db0 (fst r) (snd r) w) (\<lambda>_ _. True)" for m
  proof (rule hoare_tx_cases [OF st])
    fix w :: world and r db'
    assume "link_seen env crypto token db0 (Some t) (w_db w)"
      "reset_tx config crypto (vt_user_id t) token (ay_hashPassword crypto newPassword) m (w_db w) = Inr (r, db')"
    then show "reset_reached env config crypto token newPassword db0 (fst r) (snd r) (w\<lparr>w_db := db'\<rparr>)"
      using reset_tx_committed [of config crypto "vt_user_id t" token newPassword m "w_db w" "fst r" "snd r" db']
      unfolding reset_reached_def by (intro exI [of _ t] exI [of _ "w_db w"] exI [of _ db']) (auto intro: by_others.start)
  qed simp_all
  show ?thesis unfolding commit_reset_def rewordLockTimeout_def
    by (intro hoare_catch [where R = "\<lambda>_ _. True"] hoare_throw hoare_lock [OF st] hoare_quiet [OF _ st] tx)
       (auto intro!: quiets)
qed

lemma hoare_guarded:
  "(b \<Longrightarrow> hoare env P m Q (\<lambda>_ _. True)) \<Longrightarrow> hoare env P (io_bind (io_guard b e) (\<lambda>_. m)) Q (\<lambda>_ _. True)"
  unfolding io_guard_def by (rule hoare_checked) (auto simp: guard_def split: if_splits)

text \<open>
  C16. A redeemed reset leaves nothing behind that the old password could still use. When
  \<open>resetPassword\<close> answers, the presented link was on record when it was looked up, and it is its account,
  no other, that is reset: the transaction found the link live and unused and the account active and not
  blocked by a provider, in a state the others had brought about, and made of that very state one in which
  the account has the new password, no session and no reset link, the presented one included, while no row
  of any other account is touched; and if no trusted proof of this address had come before, every pending
  request of the account is cancelled and a recovery is on record. Only then, and only on such a first
  proof, the hook runs; nothing else writes.
\<close>

theorem reset_ends_what_came_before:
  assumes "resetPassword config crypto onFirstEmailProof token newPassword env w = (Inr (), w')"
  shows "MIN_PASSWORD_LENGTH \<le> length newPassword \<and>
    (\<exists>t db db' u firstProof w1. link_seen env crypto token (w_db w) (Some t) db \<and> vt_user_id t = u_id u \<and>
       reset_committed config crypto token newPassword u firstProof db db' \<and>
       by_others env db' (w_db w1) \<and> (if firstProof then onFirstEmailProof u env w1 = (Inr (), w') else w' = w1))"
proof -
  let ?P = "\<lambda>w1. by_others env (w_db w) (w_db w1)" and ?C = "reset_reached env config crypto token newPassword (w_db w)"
  let ?S = "\<lambda>found w1. link_seen env crypto token (w_db w) found (w_db w1)"
  let ?Q = "\<lambda>_ w'. MIN_PASSWORD_LENGTH \<le> length newPassword \<and>
    (\<exists>u firstProof w1. ?C u firstProof w1 \<and> (if firstProof then onFirstEmailProof u env w1 = (Inr (), w') else w' = w1))"
  note q = hoare_quiet [OF _ stable_link_seen]
  have hook: "hoare env (?C (fst r) (snd r)) (case r of (updated, first) \<Rightarrow> if first then onFirstEmailProof updated else io_return ()) ?Q (\<lambda>_ _. True)"
    if "MIN_PASSWORD_LENGTH \<le> length newPassword" for r
    using that by (cases r) (auto simp: hoare_def io_return_def split: prod.splits sum.splits)
  have look: "hoare env ?P (io_read (\<lambda>db. verificationTokens_findByTokenHash db (ay_hashToken crypto token) Password_Reset)) ?S (\<lambda>_ _. True)"
    by (rule hoare_read [OF stable_by_others]) (auto simp: link_seen_def intro: by_others.start)
  have owner: "hoare env (?S found) (io_read (\<lambda>db. users_findById db i)) (\<lambda>a w1. ?S found w1 \<and> (\<forall>u. a = Some u \<longrightarrow> u_id u = i)) (\<lambda>_ _. True)" for found i
    by (rule hoare_read [OF stable_link_seen]) (auto simp: users_findById_def find_by_def find_Some_iff)
  have "hoare env ?P (resetPassword config crypto onFirstEmailProof token newPassword) ?Q (\<lambda>_ _. True)"
    unfolding resetPassword_def
  proof (rule hoare_guarded, rule hoare_bind [OF look], rule q [OF quiet_now], rule hoare_guarded)
    fix found now
    assume len: "\<not> length newPassword < MIN_PASSWORD_LENGTH" and "live_reset now found"
    then obtain t where t: "found = Some t" by (auto simp: live_reset_def split: option.splits)
    have locked: "hoare env (?S found) (io_lock key (io_bind (commit_reset config crypto (vt_user_id t) token (ay_hashPassword crypto newPassword))
        (\<lambda>(updated, firstTrustedProof). if firstTrustedProof then onFirstEmailProof updated else io_return ()))) ?Q (\<lambda>_ _. True)" for key
      unfolding t using len by (intro hoare_lock [OF stable_link_seen] hoare_bind [OF hoare_commit_reset hook]) auto
    show "hoare env (?S found) (io_bind (io_read (\<lambda>db. users_findById db (vt_user_id (the found)))) (\<lambda>account. case account of
        None \<Rightarrow> io_throw (plain invalidResetLink)
      | Some user \<Rightarrow>
          io_bind (io_guard (u_status user = User_Active) USER_IS_DISABLED) (\<lambda>_.
          io_bind (io_localPasswordBlocked (ag_providers config) (u_id user) (u_role user)) (\<lambda>blocked.
          io_bind (io_guard (\<not> blocked) invalidResetLink) (\<lambda>_.
          io_lock (passwordLockKey (u_id user))
            (io_bind (commit_reset config crypto (u_id user) token (ay_hashPassword crypto newPassword)) (\<lambda>(updated, firstTrustedProof).
             if firstTrustedProof then onFirstEmailProof updated else io_return ()))))))) ?Q (\<lambda>_ _. True)"
    proof (rule hoare_bind [OF owner], rule hoare_pure)
      fix account
      assume a: "\<forall>u. account = Some u \<longrightarrow> u_id u = vt_user_id (the found)"
      show "hoare env (?S found) (case account of
        None \<Rightarrow> io_throw (plain invalidResetLink)
      | Some user \<Rightarrow>
          io_bind (io_guard (u_status user = User_Active) USER_IS_DISABLED) (\<lambda>_.
          io_bind (io_localPasswordBlocked (ag_providers config) (u_id user) (u_role user)) (\<lambda>blocked.
          io_bind (io_guard (\<not> blocked) invalidResetLink) (\<lambda>_.
          io_lock (passwordLockKey (u_id user))
            (io_bind (commit_reset config crypto (u_id user) token (ay_hashPassword crypto newPassword)) (\<lambda>(updated, firstTrustedProof).
             if firstTrustedProof then onFirstEmailProof updated else io_return ())))))) ?Q (\<lambda>_ _. True)"
      proof (cases account)
        case (Some user)
        then have "u_id user = vt_user_id t" using a t by simp
        then show ?thesis unfolding Some option.case
          by (simp only:) (intro hoare_guarded q [OF quiet_blocked] locked, simp)
      qed (auto intro: hoare_throw)
    qed
  qed simp_all
  from hoare_Inr [OF this by_others.start assms]
  show ?thesis unfolding reset_reached_def by blast
qed

definition ex_forgot :: world where
  "ex_forgot = ex_member\<lparr>w_db := (w_db ex_member)\<lparr>db_tokens :=
     [\<lparr>vt_id = ''t1'', vt_user_id = ''u1'', vt_token_hash = ''#tok'', vt_purpose = Password_Reset, vt_expires_at = 100,
       vt_used_at = None, vt_created_at = 0\<rparr>],
     db_sessions := [\<lparr>se_id = ''s1'', se_token_hash = ''#t'', se_user_id = ''u1'', se_csrf_token = ''c'', se_created_at = 0, se_expires_at = 1000\<rparr>]\<rparr>\<rparr>"

theorem reset_ends_what_came_before_witness:
  "\<exists>db' u. u_id u = ''u1'' \<and> reset_committed ex_config ex_crypto ''tok'' ''longer-secret'' u True (w_db ex_forgot) db' \<and>
     db' = w_db (snd (resetPassword ex_config ex_crypto (\<lambda>_. io_return ()) ''tok'' ''longer-secret'' ex_idle_env ex_forgot)) \<and> db_sessions db' = []"
proof -
  let ?run = "resetPassword ex_config ex_crypto (\<lambda>_. io_return ()) ''tok'' ''longer-secret'' ex_idle_env ex_forgot"
  have ok: "fst ?run = Inr ()" and gone: "db_sessions (w_db (snd ?run)) = []" by code_simp+
  have run: "?run = (Inr (), snd ?run)" using ok by (metis prod.collapse)
  have none: "db_proofs (w_db ex_forgot) = []"
    and link: "map_option vt_user_id (verificationTokens_findByTokenHash (w_db ex_forgot) (ay_hashToken ex_crypto ''tok'') Password_Reset) = Some ''u1''"
    by code_simp+
  obtain t db db' u firstProof w1 where db: "link_seen ex_idle_env ex_crypto ''tok'' (w_db ex_forgot) (Some t) db" "vt_user_id t = u_id u"
      "by_others ex_idle_env db' (w_db w1)"
      and c: "reset_committed ex_config ex_crypto ''tok'' ''longer-secret'' u firstProof db db'"
      and h: "if firstProof then io_return () ex_idle_env w1 = (Inr (), snd ?run) else snd ?run = w1"
    using reset_ends_what_came_before [OF run] by blast
  have idle: "e_other ex_idle_env n db = db" for n db by (simp add: ex_browsing_defs)
  note same = by_others_idle [of ex_idle_env, OF _ idle]
  have "db = w_db ex_forgot" "u_id u = ''u1''" using db(1,2) link by (auto simp: link_seen_def dest!: same)
  moreover have "w_db w1 = db'" using db(3) by (rule same)
  moreover have "w1 = snd ?run" using h by (simp add: io_return_def split: if_splits)
  moreover have "firstProof" using c none \<open>db = w_db ex_forgot\<close>
    by (auto simp: reset_committed_def first_trusted_def emailProofs_findByUser_def find_by_def)
  ultimately show ?thesis using c gone by auto
qed

subsection \<open>Mailed links\<close>

definition links_of :: "string \<Rightarrow> token_purpose \<Rightarrow> portal_db \<Rightarrow> token list" where
  "links_of userId purpose db = filter (\<lambda>t. vt_user_id t = userId \<and> vt_purpose t = purpose) (db_tokens db)"

text \<open>The primary key of the claims.\<close>

definition claims_keyed :: "portal_db \<Rightarrow> bool" where
  "claims_keyed db \<longleftrightarrow> distinct (map (\<lambda>c. (ic_user_id c, ic_purpose c)) (db_claims db))"

lemma in_update_where: "r \<in> set (update_where P f rows) \<Longrightarrow> \<exists>x\<in>set rows. r = (if P x then f x else x)"
  by (auto simp: update_where_def)

text \<open>After a window was claimed every claim of that account and purpose is the new one.\<close>

lemma claimIssue_True:
  assumes "claims_keyed db" "verificationTokens_claimIssue u p issuedAt notBefore db = (True, db')"
  shows "claims_keyed db'" "\<forall>c\<in>set (db_claims db'). ic_user_id c = u \<and> ic_purpose c = p \<longrightarrow> ic_issued_at c = issuedAt"
    "db_tokens db' = db_tokens db"
    "\<exists>c\<in>set (db_claims db'). ic_user_id c = u \<and> ic_purpose c = p"
proof -
  let ?key = "\<lambda>c. (ic_user_id c, ic_purpose c)" and ?same = "\<lambda>c. ic_user_id c = u \<and> ic_purpose c = p"
  let ?due = "\<lambda>c. ?same c \<and> ic_issued_at c \<le> notBefore" and ?move = "\<lambda>c. c\<lparr>ic_issued_at := issuedAt\<rparr>"
  have "claims_keyed db' \<and> (\<forall>c\<in>set (db_claims db'). ?same c \<longrightarrow> ic_issued_at c = issuedAt) \<and> db_tokens db' = db_tokens db \<and>
      (\<exists>c\<in>set (db_claims db'). ?same c)"
  proof (cases "list_ex ?same (db_claims db)")
    case False
    then have none: "\<forall>c\<in>set (db_claims db). \<not> ?same c" by (auto simp: list_ex_iff)
    have db': "db' = db\<lparr>db_claims := db_claims db @ [\<lparr>ic_user_id = u, ic_purpose = p, ic_issued_at = issuedAt\<rparr>]\<rparr>"
      using assms(2) False by (simp add: verificationTokens_claimIssue_def Let_def)
    have "claims_keyed db'" using assms(1) none by (fastforce simp: claims_keyed_def db')
    then show ?thesis using none by (auto simp: db')
  next
    case True
    then have db': "db' = db\<lparr>db_claims := update_where ?due ?move (db_claims db)\<rparr>" and due: "list_ex ?due (db_claims db)"
      using assms(2) by (auto simp: verificationTokens_claimIssue_def Let_def)
    then obtain d where d: "d \<in> set (db_claims db)" "?due d" by (auto simp: list_ex_iff)
    have only: "c = d" if "c \<in> set (db_claims db)" "?same c" for c
      using assms(1) d that by (auto simp: claims_keyed_def distinct_map dest: inj_onD)
    have "claims_keyed db'" using assms(1) by (simp add: claims_keyed_def db' map_update_where)
    moreover have "\<forall>c\<in>set (db_claims db'). ?same c \<longrightarrow> ic_issued_at c = issuedAt"
    proof (intro ballI impI)
      fix c
      assume c: "c \<in> set (db_claims db')" "?same c"
      then have "c \<in> set (update_where ?due ?move (db_claims db))" unfolding db' by simp
      from in_update_where [OF this] obtain r where r: "r \<in> set (db_claims db)" "c = (if ?due r then ?move r else r)" by blast
      have "?same r" using c(2) unfolding r(2) by (simp split: if_splits)
      then have "r = d" using only r(1) by blast
      then show "ic_issued_at c = issuedAt" using r(2) d(2) by simp
    qed
    moreover have "?move d \<in> set (db_claims db')" using d by (auto simp: db' set_update_where)
    ultimately show ?thesis using d(2) by (auto simp: db' intro!: bexI [of _ "?move d"])
  qed
  then show "claims_keyed db'" "\<forall>c\<in>set (db_claims db'). ic_user_id c = u \<and> ic_purpose c = p \<longrightarrow> ic_issued_at c = issuedAt"
    "db_tokens db' = db_tokens db" "\<exists>c\<in>set (db_claims db'). ic_user_id c = u \<and> ic_purpose c = p" by blast+
qed

lemma claimIssue_refused:
  assumes "\<forall>c\<in>set (db_claims db). ic_user_id c = u \<and> ic_purpose c = p \<longrightarrow> \<not> ic_issued_at c \<le> notBefore"
    "\<exists>c\<in>set (db_claims db). ic_user_id c = u \<and> ic_purpose c = p"
  shows "verificationTokens_claimIssue u p issuedAt notBefore db = (False, db)"
  using assms by (auto simp: verificationTokens_claimIssue_def Let_def list_ex_iff update_where_none)

lemma mint_link_minted:
  assumes "claims_keyed db" "mint_link crypto kind u token tokenId issuedAt now queueEmail db = Inr (True, db')"
    and queue: "\<And>i db1 r db2. queueEmail i db1 = Inr (r, db2) \<Longrightarrow> db_tokens db2 = db_tokens db1 \<and> db_claims db2 = db_claims db1"
  shows "claims_keyed db'" "links_of u (lk_purpose kind) db' = [token_row crypto tokenId u token (lk_purpose kind) (lk_ttl kind) now]"
    "\<forall>c\<in>set (db_claims db'). ic_user_id c = u \<and> ic_purpose c = lk_purpose kind \<longrightarrow> ic_issued_at c = issuedAt"
    "\<exists>c\<in>set (db_claims db'). ic_user_id c = u \<and> ic_purpose c = lk_purpose kind"
proof -
  let ?row = "token_row crypto tokenId u token (lk_purpose kind) (lk_ttl kind) now"
  obtain claimed db1 where run: "verificationTokens_claimIssue u (lk_purpose kind) issuedAt (issuedAt - lk_throttle kind * 1000) db = (claimed, db1)"
    by fastforce
  have claimed
    and db': "db_claims db' = db_claims db1"
      "db_tokens db' = filter (\<lambda>t. \<not> (vt_user_id t = u \<and> vt_purpose t = lk_purpose kind)) (db_tokens db1) @ [?row]"
    using assms(2) unfolding mint_link_def tx_simps
    by (auto simp: tx_simps run verificationTokens_deleteForUser_def tx_audit_def auditLogs_create_def Let_def
        dest!: token_create_Inr queue split: if_splits)
  then have "verificationTokens_claimIssue u (lk_purpose kind) issuedAt (issuedAt - lk_throttle kind * 1000) db = (True, db1)"
    using run by simp
  note c = claimIssue_True [OF assms(1) this]
  show "links_of u (lk_purpose kind) db' = [?row]" by (simp add: links_of_def db' token_row_def)
  show "claims_keyed db'" "\<forall>c\<in>set (db_claims db'). ic_user_id c = u \<and> ic_purpose c = lk_purpose kind \<longrightarrow> ic_issued_at c = issuedAt"
    "\<exists>c\<in>set (db_claims db'). ic_user_id c = u \<and> ic_purpose c = lk_purpose kind"
    using c by (simp_all add: claims_keyed_def db')
qed

lemma uniform_answer: "fst (withUniformAnswer m env w) = Inr ()"
  by (auto simp: withUniformAnswer_def io_catch_def io_return_def split: prod.splits sum.splits)

text \<open>
  C18. Mailed links are rationed, and asking for one tells nothing. Whatever the address, the store, the
  mailer and the others do, both requests answer alike. A link is minted in place of every earlier one of
  its purpose, so that exactly one is on record, and for the length of the window no other is minted for
  the account: the next attempt writes nothing at all. The queueing of the mail leaves links and claims.
\<close>

theorem mailed_links_are_rationed:
  assumes "claims_keyed db" "mint_link crypto kind u token tokenId issuedAt now queueEmail db = Inr (True, db')"
    and "\<And>i db1 r db2. queueEmail i db1 = Inr (r, db2) \<Longrightarrow> db_tokens db2 = db_tokens db1 \<and> db_claims db2 = db_claims db1"
    and "again < issuedAt + lk_throttle kind * 1000"
  shows "fst (resendVerification crypto prepare1 address env w) = Inr () \<and>
    fst (requestPasswordReset config crypto prepare2 address env w) = Inr () \<and>
    links_of u (lk_purpose kind) db' = [token_row crypto tokenId u token (lk_purpose kind) (lk_ttl kind) now] \<and> claims_keyed db' \<and>
    mint_link crypto kind u token2 tokenId2 again now2 queueEmail2 db' = Inr (False, db')"
proof -
  note minted = mint_link_minted [OF assms(1-3)]
  have "verificationTokens_claimIssue u (lk_purpose kind) again (again - lk_throttle kind * 1000) db' = (False, db')"
    by (rule claimIssue_refused [OF _ minted(4)]) (use minted(3) assms(4) in auto)
  then have "mint_link crypto kind u token2 tokenId2 again now2 queueEmail2 db' = Inr (False, db')"
    by (simp add: mint_link_def tx_bind_def tx_of_def tx_return_def)
  then show ?thesis using minted by (simp add: resendVerification_def requestPasswordReset_def uniform_answer)
qed

theorem mailed_links_are_rationed_witness:
  "\<exists>db'. mint_link ex_crypto reset_link ''u1'' ''new'' ''t2'' 200 200 (\<lambda>_. tx_return ()) (w_db ex_forgot) = Inr (True, db') \<and>
     map vt_id (links_of ''u1'' Password_Reset db') = [''t2''] \<and>
     mint_link ex_crypto reset_link ''u1'' ''newer'' ''t3'' 300 300 (\<lambda>_. tx_return ()) db' = Inr (False, db')"
proof -
  let ?mint = "mint_link ex_crypto reset_link ''u1'' ''new'' ''t2'' 200 200 (\<lambda>_. tx_return ()) (w_db ex_forgot)"
  have "case ?mint of Inl _ \<Rightarrow> False | Inr (b, _) \<Rightarrow> b" by code_simp
  then obtain db' where m: "?mint = Inr (True, db')" by (cases ?mint) auto
  have k: "claims_keyed (w_db ex_forgot)" by code_simp
  show ?thesis
    using mailed_links_are_rationed [OF k m, of 300] m
    by (simp add: tx_simps reset_link_def PASSWORD_RESET_THROTTLE_SECONDS_def token_row_def)
qed

end
