(* ===== verification/Openapi.thy ===== *)
theory Openapi
  imports Json Js_Time
begin

section \<open>References and parameters of OpenAPI documents\<close>

text \<open>
  Models \<open>shared/src/openapi.ts\<close>: local JSON pointers, the memoising resolver of Reference Objects, and
  the inheritance of path-item parameters. A character stands for a UTF-16 code unit below 256; a
  document has only such characters, so a pointer that decodes to any other names nothing in it. An
  object of the document is identified by where it is, the list of keys and indices from the root, which
  is what the source's object identity distinguishes.
\<close>

subsection \<open>Pointers\<close>

definition MAX_SPEC_DEPTH :: nat where "MAX_SPEC_DEPTH = 200"
definition MAX_OPENAPI_REF_HOPS :: nat where "MAX_OPENAPI_REF_HOPS = 32"
definition MAX_OPENAPI_POINTER_SEGMENTS :: nat where "MAX_OPENAPI_POINTER_SEGMENTS = MAX_SPEC_DEPTH"
definition MAX_OPENAPI_REF_LENGTH :: nat where "MAX_OPENAPI_REF_LENGTH = 2048"

definition hex_val :: "char \<Rightarrow> nat option" where
  "hex_val c = (let n = of_char c :: nat in
     if 48 \<le> n \<and> n \<le> 57 then Some (n - 48)
     else if 65 \<le> n \<and> n \<le> 70 then Some (n - 55)
     else if 97 \<le> n \<and> n \<le> 102 then Some (n - 87)
     else None)"

definition hex_byte :: "char \<Rightarrow> char \<Rightarrow> nat option" where
  "hex_byte a b = (case (hex_val a, hex_val b) of (Some x, Some y) \<Rightarrow> Some (16 * x + y) | _ \<Rightarrow> None)"

text \<open>\<open>decodeURIComponent\<close>: escapes are UTF-8; \<open>None\<close> for a malformed one and for a code unit above 255.\<close>

fun decodeURIComponent :: "string \<Rightarrow> string option" where
  "decodeURIComponent [] = Some []"
| "decodeURIComponent (c # s) =
     (if c \<noteq> CHR 0x25 then map_option ((#) c) (decodeURIComponent s)
      else (case s of
          a # b # rest \<Rightarrow> (case hex_byte a b of
              None \<Rightarrow> None
            | Some n \<Rightarrow>
                if n < 128 then map_option ((#) (char_of n)) (decodeURIComponent rest)
                else if n = 194 \<or> n = 195 then (case rest of
                    p # x # y # rest' \<Rightarrow> (case hex_byte x y of
                        None \<Rightarrow> None
                      | Some m \<Rightarrow>
                          if p = CHR 0x25 \<and> 128 \<le> m \<and> m < 192
                          then map_option ((#) (char_of (64 * (n - 192) + (m - 128)))) (decodeURIComponent rest')
                          else None)
                  | _ \<Rightarrow> None)
                else None)
        | _ \<Rightarrow> None))"

text \<open>A two-character escape \<open>~d\<close> replaced everywhere.\<close>

fun unescape :: "char \<Rightarrow> char \<Rightarrow> string \<Rightarrow> string" where
  "unescape d r (x # y # s) =
     (if x = CHR 0x7E \<and> y = d then r # unescape d r s else x # unescape d r (y # s))"
| "unescape d r s = s"

definition pointer_segment :: "string \<Rightarrow> string option" where
  "pointer_segment raw = map_option (\<lambda>s. unescape CHR 0x30 CHR 0x7E (unescape CHR 0x31 CHR 0x2F s)) (decodeURIComponent raw)"

text \<open>\<^verbatim>\<open>/^(0|[1-9][0-9]*)$/\<close> with its number.\<close>

definition array_index :: "string \<Rightarrow> nat option" where
  "array_index s = (if s \<noteq> [] \<and> list_all is_digit s \<and> (s = [CHR 0x30] \<or> hd s \<noteq> CHR 0x30)
     then Some (digits_val 0 s) else None)"

type_synonym fields = "(string \<times> json) list"
type_synonym node = "string list \<times> fields"

fun walk_segments :: "string list \<Rightarrow> json \<Rightarrow> string list \<Rightarrow> (string list \<times> json) option" where
  "walk_segments loc current [] = Some (loc, current)"
| "walk_segments loc current (raw # rest) = (case pointer_segment raw of
      None \<Rightarrow> None
    | Some segment \<Rightarrow> (case current of
        JArr xs \<Rightarrow> (case array_index segment of
            None \<Rightarrow> None
          | Some i \<Rightarrow> if i < length xs then walk_segments (loc @ [segment]) (xs ! i) rest else None)
      | JObj m \<Rightarrow> (case map_of m segment of
            None \<Rightarrow> None
          | Some v \<Rightarrow> walk_segments (loc @ [segment]) v rest)
      | _ \<Rightarrow> None))"

definition walkPointer :: "json \<Rightarrow> string \<Rightarrow> (string list \<times> json) option" where
  "walkPointer document ref =
     (if MAX_OPENAPI_REF_LENGTH < length ref then None
      else if ref = ''#'' then Some ([], document)
      else if take 2 ref \<noteq> ''#/'' then None
      else if MAX_OPENAPI_POINTER_SEGMENTS < 1 + count_list (drop 2 ref) CHR 0x2F then None
      else walk_segments [] document (split_on CHR 0x2F (drop 2 ref)))"

definition resolveOpenApiPointer :: "json \<Rightarrow> string \<Rightarrow> json option" where
  "resolveOpenApiPointer document ref = map_option snd (walkPointer document ref)"

fun openApiRefOf :: "json \<Rightarrow> string option" where
  "openApiRefOf (JObj m) = as_str (map_of m ''$ref'')"
| "openApiRefOf _ = None"

text \<open>Every \<open>$ref\<close> string of a document: what a chain can reach.\<close>

fun refs_of :: "json \<Rightarrow> string list" where
  "refs_of (JArr xs) = concat (map refs_of xs)"
| "refs_of (JObj m) = (case as_str (map_of m ''$ref'') of None \<Rightarrow> [] | Some s \<Rightarrow> [s]) @ concat (map (\<lambda>e. refs_of (snd e)) m)"
| "refs_of _ = []"

subsection \<open>Following chains\<close>

datatype ref_failure = Ref_External | Ref_Missing | Ref_Cycle | Ref_Depth

record overrides =
  ov_summary :: "string option"
  ov_description :: "string option"

definition NO_OVERRIDES :: overrides where
  "NO_OVERRIDES = \<lparr>ov_summary = None, ov_description = None\<rparr>"

datatype chain_outcome = Chain_Ok node overrides nat | Chain_Fail string ref_failure nat

fun chain_length :: "chain_outcome \<Rightarrow> nat" where
  "chain_length (Chain_Ok _ _ n) = n"
| "chain_length (Chain_Fail _ _ n) = n"

definition mergeOverrides :: "fields \<Rightarrow> overrides \<Rightarrow> overrides" where
  "mergeOverrides outer inner =
     \<lparr>ov_summary = (case as_str (map_of outer ''summary'') of None \<Rightarrow> ov_summary inner | Some s \<Rightarrow> Some s),
      ov_description = (case as_str (map_of outer ''description'') of None \<Rightarrow> ov_description inner | Some s \<Rightarrow> Some s)\<rparr>"

text \<open>What one reference string names.\<close>

datatype looked = Look_External | Look_Missing | Look_Object node | Look_Link node string

definition is_local :: "string \<Rightarrow> bool" where
  "is_local ref \<longleftrightarrow> take 1 ref = ''#''"

definition look :: "json \<Rightarrow> string \<Rightarrow> looked" where
  "look document ref =
     (if \<not> is_local ref then Look_External
      else (case walkPointer document ref of
          Some (loc, JObj m) \<Rightarrow> (case openApiRefOf (JObj m) of
              None \<Rightarrow> Look_Object (loc, m) | Some next1 \<Rightarrow> Look_Link (loc, m) next1)
        | _ \<Rightarrow> Look_Missing))"

record resolver =
  rv_outcomes :: "string \<rightharpoonup> chain_outcome"
  rv_lookups :: nat

definition new_resolver :: resolver where
  "new_resolver = \<lparr>rv_outcomes = Map.empty, rv_lookups = 0\<rparr>"

definition memoise :: "string \<Rightarrow> chain_outcome \<Rightarrow> resolver \<Rightarrow> resolver" where
  "memoise ref outcome rv = rv\<lparr>rv_outcomes := (rv_outcomes rv)(ref \<mapsto> outcome)\<rparr>"

lemma walk_refs:
  "walk_segments loc v segs = Some (loc', v') \<Longrightarrow> set (refs_of v') \<subseteq> set (refs_of v)"
proof (induction loc v segs rule: walk_segments.induct)
  case (2 loc v raw rest)
  obtain seg where s: "pointer_segment raw = Some seg" using 2(3) by (auto split: option.splits)
  show ?case
  proof (cases v)
    case (JArr xs)
    then obtain i where i: "array_index seg = Some i" "i < length xs"
        "walk_segments (loc @ [seg]) (xs ! i) rest = Some (loc', v')"
      using 2(3) s by (auto split: option.splits if_splits)
    have "set (refs_of (xs ! i)) \<subseteq> set (refs_of v)" using JArr i(2) by (auto intro!: nth_mem)
    then show ?thesis using 2(1) [OF s JArr i(1,2,3)] by blast
  next
    case (JObj m)
    then obtain w where w: "map_of m seg = Some w" "walk_segments (loc @ [seg]) w rest = Some (loc', v')"
      using 2(3) s by (auto split: option.splits)
    have "set (refs_of w) \<subseteq> set (refs_of v)" using JObj map_of_SomeD [OF w(1)] by force
    then show ?thesis using 2(2) [OF s JObj w] by blast
  qed (use 2(3) s in auto)
qed auto

lemma look_link_ref:
  assumes "look document ref = Look_Link n next1"
  shows "next1 \<in> set (refs_of document)" "is_local ref"
proof -
  show "is_local ref" using assms by (auto simp: look_def split: if_splits)
  obtain loc m where w: "walkPointer document ref = Some (loc, JObj m)" "as_str (map_of m ''$ref'') = Some next1"
    using assms by (auto simp: look_def split: if_splits option.splits prod.splits json.splits)
  have "document = JObj m \<or> (\<exists>segs. walk_segments [] document segs = Some (loc, JObj m))"
    using w(1) by (auto simp: walkPointer_def split: if_splits)
  then have "set (refs_of (JObj m)) \<subseteq> set (refs_of document)"
    using walk_refs by (metis order_refl)
  then show "next1 \<in> set (refs_of document)" using w(2) by auto
qed

lemma chain_measure:
  assumes "look document ref = Look_Link n next1" "ref \<notin> set visited"
  shows "card (insert next1 (set (refs_of document)) - set (ref # visited))
    < card (insert ref (set (refs_of document)) - set visited)"
proof (rule psubset_card_mono)
  have "next1 \<in> set (refs_of document)" by (rule look_link_ref [OF assms(1)])
  then show "insert next1 (set (refs_of document)) - set (ref # visited) \<subset> insert ref (set (refs_of document)) - set visited"
    using assms(2) by auto
qed simp

text \<open>The loop of \<open>follow\<close>: \<open>chain\<close> is the stack of references being followed, newest first. It ends with
  the outcome of the reference it stopped at and the links still waiting for theirs.\<close>

function follow_loop ::
  "json \<Rightarrow> resolver \<Rightarrow> (string \<times> node) list \<Rightarrow> string \<Rightarrow> chain_outcome \<times> (string \<times> node) list \<times> resolver" where
  "follow_loop document rv chain ref = (case rv_outcomes rv ref of
      Some memoised \<Rightarrow> (memoised, chain, rv)
    | None \<Rightarrow>
        if ref \<in> set (map fst chain) then
          (let older = dropWhile (\<lambda>l. fst l \<noteq> ref) chain;
               loop = takeWhile (\<lambda>l. fst l \<noteq> ref) chain @ take 1 older;
               rv1 = foldr (\<lambda>l. memoise (fst l) (Chain_Fail (fst l) Ref_Cycle 0)) loop rv
           in (Chain_Fail ref Ref_Cycle 0, drop 1 older, rv1))
        else (case look document ref of
            Look_External \<Rightarrow> (let tail = Chain_Fail ref Ref_External 0 in (tail, chain, memoise ref tail rv))
          | Look_Missing \<Rightarrow> (let tail = Chain_Fail ref Ref_Missing 1
              in (tail, chain, memoise ref tail (rv\<lparr>rv_lookups := Suc (rv_lookups rv)\<rparr>)))
          | Look_Object n \<Rightarrow> (let tail = Chain_Ok n NO_OVERRIDES 1
              in (tail, chain, memoise ref tail (rv\<lparr>rv_lookups := Suc (rv_lookups rv)\<rparr>)))
          | Look_Link n next1 \<Rightarrow>
              follow_loop document (rv\<lparr>rv_lookups := Suc (rv_lookups rv)\<rparr>) ((ref, n) # chain) next1))"
  by pat_completeness auto
termination
proof (relation "measure (\<lambda>(document, rv, chain, ref). card (insert ref (set (refs_of document)) - set (map fst chain)))")
  fix document rv ref n next1 and chain :: "(string \<times> node) list"
  assume "ref \<notin> set (map fst chain)" "look document ref = Look_Link n next1"
  from chain_measure [OF this(2,1)]
  show "((document, rv\<lparr>rv_lookups := Suc (rv_lookups rv)\<rparr>, (ref, n) # chain, next1), document, rv, chain, ref)
      \<in> measure (\<lambda>(document, rv, chain, ref). card (insert ref (set (refs_of document)) - set (map fst chain)))"
    by simp
qed simp

declare follow_loop.simps [simp del]

text \<open>One link in front of an outcome.\<close>

definition extend :: "bool \<Rightarrow> node \<Rightarrow> chain_outcome \<Rightarrow> chain_outcome" where
  "extend siblingsApply target tail = (case tail of
      Chain_Ok v ov n \<Rightarrow> Chain_Ok v (if siblingsApply then mergeOverrides (snd target) ov else NO_OVERRIDES) (Suc n)
    | Chain_Fail r reason n \<Rightarrow> if reason \<noteq> Ref_Cycle then Chain_Fail r reason (Suc n) else tail)"

fun unwind :: "bool \<Rightarrow> (string \<times> node) list \<Rightarrow> chain_outcome \<Rightarrow> resolver \<Rightarrow> resolver" where
  "unwind siblingsApply [] tail rv = rv"
| "unwind siblingsApply ((link, target) # chain) tail rv =
     (let t = extend siblingsApply target tail in unwind siblingsApply chain t (memoise link t rv))"

definition follow :: "json \<Rightarrow> bool \<Rightarrow> resolver \<Rightarrow> string \<Rightarrow> chain_outcome \<times> resolver" where
  "follow document siblingsApply rv start = (case rv_outcomes rv start of
      Some known \<Rightarrow> (known, rv)
    | None \<Rightarrow>
        (let (tail, chain, rv1) = follow_loop document rv [] start;
             rv2 = unwind siblingsApply chain tail rv1
         in (the (rv_outcomes rv2 start), rv2)))"

datatype resolution = Res_Ok node overrides | Res_Fail string ref_failure

definition of_outcome :: "bool \<Rightarrow> fields \<Rightarrow> string \<Rightarrow> chain_outcome \<Rightarrow> resolution" where
  "of_outcome siblingsApply m ref outcome =
     (if MAX_OPENAPI_REF_HOPS < chain_length outcome then Res_Fail ref Ref_Depth
      else (case outcome of
          Chain_Fail r reason _ \<Rightarrow> Res_Fail r reason
        | Chain_Ok v ov _ \<Rightarrow> Res_Ok v (if siblingsApply then mergeOverrides m ov else NO_OVERRIDES)))"

definition resolve :: "json \<Rightarrow> bool \<Rightarrow> resolver \<Rightarrow> node \<Rightarrow> resolution \<times> resolver" where
  "resolve document siblingsApply rv n = (case openApiRefOf (JObj (snd n)) of
      None \<Rightarrow> (Res_Ok n NO_OVERRIDES, rv)
    | Some ref \<Rightarrow> (case follow document siblingsApply rv ref of (outcome, rv') \<Rightarrow>
        (of_outcome siblingsApply (snd n) ref outcome, rv')))"

subsection \<open>The reference walk\<close>

text \<open>What a walk that remembers nothing but its own path finds.\<close>

function chase :: "json \<Rightarrow> bool \<Rightarrow> string list \<Rightarrow> string \<Rightarrow> chain_outcome" where
  "chase document siblingsApply visited ref =
     (if ref \<in> set visited then Chain_Fail ref Ref_Cycle 0
      else (case look document ref of
          Look_External \<Rightarrow> Chain_Fail ref Ref_External 0
        | Look_Missing \<Rightarrow> Chain_Fail ref Ref_Missing 1
        | Look_Object n \<Rightarrow> Chain_Ok n NO_OVERRIDES 1
        | Look_Link n next1 \<Rightarrow> extend siblingsApply n (chase document siblingsApply (ref # visited) next1)))"
  by pat_completeness auto
termination
proof (relation "measure (\<lambda>(document, sib, visited, ref). card (insert ref (set (refs_of document)) - set visited))")
  fix document sib ref n next1 and visited :: "string list"
  assume "ref \<notin> set visited" "look document ref = Look_Link n next1"
  from chain_measure [OF this(2,1)]
  show "((document, sib, ref # visited, next1), document, sib, visited, ref)
      \<in> measure (\<lambda>(document, sib, visited, ref). card (insert ref (set (refs_of document)) - set visited))"
    by simp
qed simp

declare chase.simps [simp del]

lemma extend_cycle [simp]: "extend sib n (Chain_Fail r Ref_Cycle 0) = Chain_Fail r Ref_Cycle 0"
  by (simp add: extend_def)

text \<open>Only the visited references that can still be reached matter.\<close>

definition closed :: "json \<Rightarrow> string set \<Rightarrow> bool" where
  "closed document D \<longleftrightarrow> (\<forall>r n next1. r \<in> D \<longrightarrow> look document r = Look_Link n next1 \<longrightarrow> next1 \<in> D)"

lemma chase_restrict:
  "closed document D \<Longrightarrow> ref \<in> D \<Longrightarrow> (\<And>x. x \<in> D \<Longrightarrow> x \<in> set V \<longleftrightarrow> x \<in> set V') \<Longrightarrow>
     chase document sib V ref = chase document sib V' ref"
proof (induction document sib V ref arbitrary: V' rule: chase.induct)
  case (1 document sib V ref)
  have "chase document sib (ref # V) next1 = chase document sib (ref # V') next1"
    if "ref \<notin> set V" "look document ref = Look_Link n next1" for n next1
    by (rule "1.IH" [OF that]) (use 1(2-4) that in \<open>auto simp: closed_def\<close>)
  then show ?case using 1(4) [OF 1(3)]
    by (simp add: chase.simps [of document sib V ref] chase.simps [of document sib V' ref] split: looked.splits)
qed

lemma chase_link:
  assumes "closed document D" "r \<notin> D" "next1 \<in> D" "look document r = Look_Link n next1"
  shows "chase document sib [] r = extend sib n (chase document sib [] next1)"
proof -
  have "chase document sib [r] next1 = chase document sib [] next1"
    by (rule chase_restrict [OF assms(1,3)]) (use assms(2) in auto)
  then show ?thesis using assms(4) by (simp add: chase.simps [of document sib "[]" r])
qed

text \<open>A path of links, and the walk along one that returns to its start.\<close>

fun walks :: "json \<Rightarrow> string list \<Rightarrow> string \<Rightarrow> string \<Rightarrow> bool" where
  "walks document [] ref goal \<longleftrightarrow> ref = goal"
| "walks document (x # xs) ref goal \<longleftrightarrow> x = ref \<and> (\<exists>n next1. look document x = Look_Link n next1 \<and> walks document xs next1 goal)"

lemma walks_append: "walks document p a b \<Longrightarrow> walks document q b c \<Longrightarrow> walks document (p @ q) a c"
  by (induction document p a b rule: walks.induct) auto

lemma chase_path:
  "walks document p ref goal \<Longrightarrow> distinct p \<Longrightarrow> set p \<inter> set V = {} \<Longrightarrow> goal \<in> set V \<Longrightarrow>
     chase document sib V ref = Chain_Fail goal Ref_Cycle 0"
proof (induction p arbitrary: ref V)
  case Nil
  then show ?case by (simp add: chase.simps)
next
  case (Cons x xs)
  then obtain n next1 where l: "ref = x" "look document x = Look_Link n next1" "walks document xs next1 goal" by auto
  have "chase document sib (x # V) next1 = Chain_Fail goal Ref_Cycle 0"
    by (rule Cons.IH [OF l(3)]) (use Cons.prems in auto)
  then show ?case using l Cons.prems by (simp add: chase.simps [of document sib V x])
qed

lemma chase_cycle:
  assumes "walks document (r # p) r r" "distinct (r # p)"
  shows "chase document sib [] r = Chain_Fail r Ref_Cycle 0"
proof -
  obtain n next1 where l: "look document r = Look_Link n next1" "walks document p next1 r" using assms(1) by auto
  have "chase document sib [r] next1 = Chain_Fail r Ref_Cycle 0"
    by (rule chase_path [OF l(2)]) (use assms(2) in auto)
  then show ?thesis using l(1) by (simp add: chase.simps [of document sib "[]" r])
qed

subsection \<open>The memo agrees with the walk\<close>

fun linked :: "json \<Rightarrow> (string \<times> node) list \<Rightarrow> string \<Rightarrow> bool" where
  "linked document [] ref \<longleftrightarrow> True"
| "linked document ((r, n) # chain) ref \<longleftrightarrow> look document r = Look_Link n ref \<and> linked document chain r"

lemma linked_walks:
  "linked document (A @ (r, n) # B) e \<Longrightarrow> walks document (r # rev (map fst A)) r e"
proof (induction A arbitrary: e)
  case (Cons a A)
  obtain s t where a: "a = (s, t)" by (rule prod.exhaust)
  have "walks document (r # rev (map fst A)) r s" using Cons a by simp
  moreover have "walks document [s] s e" using Cons(2) a by simp
  ultimately have "walks document ((r # rev (map fst A)) @ [s]) r e" by (rule walks_append)
  then show ?case using a by simp
qed simp

lemma linked_drop: "linked document (A @ (r, n) # B) e \<Longrightarrow> linked document B r"
proof (induction A arbitrary: e)
  case (Cons a A)
  then show ?case by (cases a) auto
qed simp

lemma linked_next:
  "linked document (A @ (r, n) # B) e \<Longrightarrow> look document r = Look_Link n (if A = [] then e else fst (last A))"
proof (induction A arbitrary: e)
  case (Cons a A)
  then show ?case by (cases a) auto
qed simp

text \<open>Every reference of a loop reports itself.\<close>

lemma loop_chase:
  assumes "linked document (A @ (ref, n) # B) ref" "distinct (map fst (A @ [(ref, n)]))"
    and "r \<in> set (map fst (A @ [(ref, n)]))"
  shows "chase document sib [] r = Chain_Fail r Ref_Cycle 0"
proof (cases "r = ref")
  case True
  then show ?thesis using linked_walks [OF assms(1)] assms(2) by (intro chase_cycle) auto
next
  case False
  then obtain t A1 A2 where A: "A = A1 @ (r, t) # A2" using assms(3) by (auto dest!: split_list)
  have l: "linked document (A1 @ (r, t) # (A2 @ (ref, n) # B)) ref" using assms(1) A by simp
  have "walks document (r # rev (map fst A1)) r ref" by (rule linked_walks [OF l])
  moreover have "walks document (ref # rev (map fst A2)) ref r" by (rule linked_walks [OF linked_drop [OF l]])
  ultimately have "walks document (r # (rev (map fst A1) @ ref # rev (map fst A2))) r r"
    using walks_append by fastforce
  then show ?thesis by (rule chase_cycle) (use assms(2) A in auto)
qed

definition memo_true :: "json \<Rightarrow> bool \<Rightarrow> nat \<Rightarrow> resolver \<Rightarrow> bool" where
  "memo_true document sib k rv \<longleftrightarrow> finite (dom (rv_outcomes rv)) \<and>
     (\<forall>r. rv_outcomes rv r \<in> {None, Some (chase document sib [] r)}) \<and>
     rv_lookups rv = card {r \<in> dom (rv_outcomes rv). is_local r} + k"

lemma memo_true_D: "memo_true document sib k rv \<Longrightarrow> rv_outcomes rv r = Some outcome \<Longrightarrow> outcome = chase document sib [] r"
  unfolding memo_true_def by (metis insertE option.distinct(1) option.inject singletonD)

lemma dom_memoise [simp]: "dom (rv_outcomes (memoise r outcome rv)) = insert r (dom (rv_outcomes rv))"
  by (simp add: memoise_def)

lemma memoise_true:
  assumes "memo_true document sib (if is_local r then Suc k else k) rv" "rv_outcomes rv r = None"
    and "outcome = chase document sib [] r"
  shows "memo_true document sib k (memoise r outcome rv)"
proof -
  let ?L = "{x \<in> dom (rv_outcomes rv). is_local x}"
  have fin: "finite (dom (rv_outcomes rv))" and r: "r \<notin> ?L" using assms(1,2) by (auto simp: memo_true_def)
  have "{x \<in> insert r (dom (rv_outcomes rv)). is_local x} = (if is_local r then insert r ?L else ?L)" by auto
  then have "card {x \<in> dom (rv_outcomes (memoise r outcome rv)). is_local x} = card ?L + (if is_local r then 1 else 0)"
    using fin r card_insert_disjoint [of ?L r] unfolding dom_memoise by (auto split: if_splits)
  moreover have "rv_lookups (memoise r outcome rv) = card ?L + (if is_local r then Suc k else k)"
    using assms(1) by (simp add: memo_true_def memoise_def)
  ultimately have "rv_lookups (memoise r outcome rv) = card {x \<in> dom (rv_outcomes (memoise r outcome rv)). is_local x} + k"
    by simp
  moreover have "\<forall>x. rv_outcomes (memoise r outcome rv) x \<in> {None, Some (chase document sib [] x)}"
    using assms(1,3) by (simp add: memo_true_def memoise_def)
  ultimately show ?thesis using fin unfolding memo_true_def dom_memoise by simp
qed

lemma memoise_loop:
  assumes "memo_true document sib (length loop + k) rv" "distinct (map fst loop)"
    and "\<And>l. l \<in> set loop \<Longrightarrow> rv_outcomes rv (fst l) = None \<and> is_local (fst l) \<and>
      chase document sib [] (fst l) = Chain_Fail (fst l) Ref_Cycle 0"
  defines "rv' \<equiv> foldr (\<lambda>l. memoise (fst l) (Chain_Fail (fst l) Ref_Cycle 0)) loop rv"
  shows "memo_true document sib k rv' \<and> dom (rv_outcomes rv') = fst ` set loop \<union> dom (rv_outcomes rv)"
  using assms(1-3) unfolding rv'_def
proof (induction loop arbitrary: k)
  case (Cons l loop)
  let ?rv = "foldr (\<lambda>l. memoise (fst l) (Chain_Fail (fst l) Ref_Cycle 0)) loop rv"
  have "memo_true document sib (Suc k) ?rv \<and> dom (rv_outcomes ?rv) = fst ` set loop \<union> dom (rv_outcomes rv)"
    by (rule Cons.IH) (use Cons.prems in auto)
  moreover have "is_local (fst l)" "chase document sib [] (fst l) = Chain_Fail (fst l) Ref_Cycle 0"
      "fst l \<notin> fst ` set loop" "rv_outcomes rv (fst l) = None" using Cons.prems by auto
  ultimately show ?case using memoise_true [of document sib "fst l" k ?rv "Chain_Fail (fst l) Ref_Cycle 0"] by auto
qed simp

text \<open>What the loop is given, and what it leaves.\<close>

definition waiting :: "json \<Rightarrow> bool \<Rightarrow> (string \<times> node) list \<Rightarrow> resolver \<Rightarrow> bool" where
  "waiting document sib chain rv \<longleftrightarrow> memo_true document sib (length chain) rv \<and> closed document (dom (rv_outcomes rv)) \<and>
     distinct (map fst chain) \<and> fst ` set chain \<inter> dom (rv_outcomes rv) = {}"

lemma waiting_memoise:
  assumes "waiting document sib chain rv" "rv_outcomes rv ref = None" "ref \<notin> fst ` set chain"
    and "\<And>n next1. look document ref \<noteq> Look_Link n next1" "outcome = chase document sib [] ref"
    and "rv' = (if is_local ref then rv\<lparr>rv_lookups := Suc (rv_lookups rv)\<rparr> else rv)"
  shows "waiting document sib chain (memoise ref outcome rv')"
proof -
  have "memo_true document sib (length chain) (memoise ref outcome rv')"
    by (rule memoise_true) (use assms in \<open>auto simp: waiting_def memo_true_def\<close>)
  then show ?thesis using assms by (auto simp: waiting_def closed_def)
qed

lemma follow_loop_cycle:
  assumes w: "waiting document sib chain rv" and l: "linked document chain ref" and c: "ref \<in> set (map fst chain)"
    and r: "follow_loop document rv chain ref = (tail, chain', rv')"
  shows "waiting document sib chain' rv'" "linked document chain' ref" "rv_outcomes rv' ref = Some tail"
    "fst ` set chain \<union> dom (rv_outcomes rv) \<subseteq> fst ` set chain' \<union> dom (rv_outcomes rv')"
proof -
  have none: "rv_outcomes rv ref = None" using w c by (auto simp: waiting_def)
  let ?A = "takeWhile (\<lambda>l. fst l \<noteq> ref) chain" and ?older = "dropWhile (\<lambda>l. fst l \<noteq> ref) chain"
  have "?older \<noteq> []" using c by auto
  then obtain x B where x: "?older = x # B" by (cases ?older) auto
  have "fst x = ref" using hd_dropWhile [OF \<open>?older \<noteq> []\<close>] x by simp
  then obtain n where older: "?older = (ref, n) # B" using x by (cases x) auto
  then have chain: "chain = ?A @ (ref, n) # B" by (metis takeWhile_dropWhile_id)
  define loop where "loop = ?A @ [(ref, n)]"
  have ch: "chain = loop @ B" using chain by (simp add: loop_def)
  have res: "tail = Chain_Fail ref Ref_Cycle 0" "chain' = B"
      "rv' = foldr (\<lambda>l. memoise (fst l) (Chain_Fail (fst l) Ref_Cycle 0)) loop rv"
    using r none c older by (auto simp add: follow_loop.simps [of document rv chain ref] loop_def Let_def split: if_splits)
  have lk: "\<exists>n next1. look document (fst l) = Look_Link n next1" if "l \<in> set chain" for l using l that
  proof (induction chain arbitrary: ref)
    case (Cons a chain)
    then show ?case by (cases a) auto
  qed simp
  have ring: "next1 \<in> fst ` set loop" if m: "m \<in> set loop" and lm: "look document (fst m) = Look_Link t next1" for m t next1
  proof -
    obtain X Y where XY: "loop = X @ m # Y" using m by (meson split_list)
    have "linked document (X @ (fst m, snd m) # (Y @ B)) ref" using l ch XY by simp
    from linked_next [OF this] have "next1 = (if X = [] then ref else fst (last X))" using lm by simp
    moreover have "ref \<in> fst ` set loop" by (simp add: loop_def)
    ultimately show ?thesis using XY by (cases "X = []") auto
  qed
  have d: "distinct (map fst loop)" "distinct (map fst B)" "fst ` set loop \<inter> fst ` set B = {}"
    using w ch by (auto simp: waiting_def)
  have cyc: "chase document sib [] (fst m) = Chain_Fail (fst m) Ref_Cycle 0" if "m \<in> set loop" for m
    by (rule loop_chase [where A = ?A and ref = ref and n = n and B = B]) (use l chain d that in \<open>auto simp: loop_def\<close>)
  have memo: "memo_true document sib (length B) rv' \<and> dom (rv_outcomes rv') = fst ` set loop \<union> dom (rv_outcomes rv)"
    unfolding res(3)
  proof (rule memoise_loop)
    show "memo_true document sib (length loop + length B) rv" using w ch by (simp add: waiting_def)
    show "rv_outcomes rv (fst m) = None \<and> is_local (fst m) \<and> chase document sib [] (fst m) = Chain_Fail (fst m) Ref_Cycle 0"
      if "m \<in> set loop" for m
    proof (intro conjI)
      have m: "m \<in> set chain" using that ch by simp
      then show "rv_outcomes rv (fst m) = None" using w by (force simp: waiting_def)
      show "is_local (fst m)" using lk [OF m] look_link_ref(2) by blast
    qed (rule cyc [OF that])
  qed (rule d)
  show "waiting document sib chain' rv'"
    unfolding waiting_def res(2)
  proof (intro conjI)
    show "closed document (dom (rv_outcomes rv'))"
      unfolding closed_def
    proof (intro allI impI)
      fix r t next1
      assume r: "r \<in> dom (rv_outcomes rv')" "look document r = Look_Link t next1"
      then consider m where "m \<in> set loop" "r = fst m" | "r \<in> dom (rv_outcomes rv)" using memo by auto
      then show "next1 \<in> dom (rv_outcomes rv')"
      proof cases
        case 1
        then show ?thesis using ring [of m t next1] r(2) memo by simp
      next
        case 2
        then have "next1 \<in> dom (rv_outcomes rv)" using w r(2) unfolding waiting_def closed_def by blast
        then show ?thesis using memo by simp
      qed
    qed
    show "fst ` set B \<inter> dom (rv_outcomes rv') = {}" using memo w ch d(3) unfolding waiting_def by auto
  qed (use memo d in simp_all)
  show "linked document chain' ref" using l chain linked_drop res(2) by metis
  have "ref \<in> dom (rv_outcomes rv')" using memo by (auto simp: loop_def)
  then obtain y where y: "rv_outcomes rv' ref = Some y" by blast
  moreover have "y = chase document sib [] ref" by (rule memo_true_D [OF conjunct1 [OF memo] y])
  ultimately show "rv_outcomes rv' ref = Some tail" using cyc [of "(ref, n)"] by (simp add: res(1) loop_def)
  show "fst ` set chain \<union> dom (rv_outcomes rv) \<subseteq> fst ` set chain' \<union> dom (rv_outcomes rv')"
    using memo ch res(2) by auto
qed

lemma follow_loop_ends:
  assumes "waiting document sib chain rv" "linked document chain ref"
    and "follow_loop document rv chain ref = (tail, chain', rv')"
  shows "\<exists>ref'. waiting document sib chain' rv' \<and> linked document chain' ref' \<and> rv_outcomes rv' ref' = Some tail \<and>
    insert ref (fst ` set chain) \<union> dom (rv_outcomes rv) \<subseteq> fst ` set chain' \<union> dom (rv_outcomes rv')"
  using assms
proof (induction document rv chain ref rule: follow_loop.induct)
  case (1 document rv chain ref)
  note r = "1.prems"(3) [unfolded follow_loop.simps [of document rv chain ref]]
  show ?case
  proof (cases "rv_outcomes rv ref")
    case (Some known)
    then show ?thesis using r "1.prems" by auto
  next
    case None
    show ?thesis
    proof (cases "ref \<in> set (map fst chain)")
      case True
      show ?thesis using follow_loop_cycle [OF "1.prems"(1,2) True "1.prems"(3)] True by auto
    next
      case False
      have leaf: ?thesis if l: "\<And>n next1. look document ref \<noteq> Look_Link n next1" "tail = chase document sib [] ref"
          "chain' = chain" "rv' = memoise ref tail (if is_local ref then rv\<lparr>rv_lookups := Suc (rv_lookups rv)\<rparr> else rv)"
      proof (intro exI [of _ ref] conjI)
        show "waiting document sib chain' rv'" unfolding l(3,4)
          by (rule waiting_memoise [OF "1.prems"(1) None]) (use False l in auto)
        show "rv_outcomes rv' ref = Some tail" by (simp add: l(4) memoise_def)
      qed (use "1.prems"(2) l(3,4) in \<open>auto simp: memoise_def\<close>)
      show ?thesis
      proof (cases "look document ref")
        case (Look_Link n next1)
        let ?rv = "rv\<lparr>rv_lookups := Suc (rv_lookups rv)\<rparr>"
        have "waiting document sib ((ref, n) # chain) ?rv"
          using "1.prems"(1) None False unfolding waiting_def memo_true_def by (auto simp: domIff)
        moreover have "linked document ((ref, n) # chain) next1" using "1.prems"(2) Look_Link by simp
        moreover have "follow_loop document ?rv ((ref, n) # chain) next1 = (tail, chain', rv')"
          using r None False Look_Link by simp
        ultimately show ?thesis using "1.IH" [OF None False Look_Link] by auto
      next
        case Look_External
        moreover have "\<not> is_local ref"
          using Look_External by (auto simp: look_def split: if_splits option.splits prod.splits json.splits)
        ultimately show ?thesis using r None False
          by (intro leaf) (auto simp: chase.simps [of document sib "[]" ref] Let_def)
      next
        case Look_Missing
        moreover have "is_local ref" using Look_Missing by (auto simp: look_def split: if_splits)
        ultimately show ?thesis using r None False
          by (intro leaf) (auto simp: chase.simps [of document sib "[]" ref] Let_def)
      next
        case (Look_Object n)
        moreover have "is_local ref" using Look_Object by (auto simp: look_def split: if_splits)
        ultimately show ?thesis using r None False
          by (intro leaf) (auto simp: chase.simps [of document sib "[]" ref] Let_def)
      qed
    qed
  qed
qed

lemma unwind_ends:
  assumes "waiting document sib chain rv" "linked document chain ref" "rv_outcomes rv ref = Some tail"
  shows "waiting document sib [] (unwind sib chain tail rv) \<and>
    dom (rv_outcomes (unwind sib chain tail rv)) = fst ` set chain \<union> dom (rv_outcomes rv)"
  using assms
proof (induction chain arbitrary: ref tail rv)
  case (Cons l chain)
  obtain r n where l: "l = (r, n)" by (rule prod.exhaust)
  let ?t = "extend sib n tail"
  have lk: "look document r = Look_Link n ref" "linked document chain r" using Cons.prems(2) l by auto
  have w: "memo_true document sib (Suc (length chain)) rv" "closed document (dom (rv_outcomes rv))"
      "distinct (map fst (l # chain))" "fst ` set (l # chain) \<inter> dom (rv_outcomes rv) = {}"
    using Cons.prems(1) by (simp_all add: waiting_def)
  have "tail = chase document sib [] ref" by (rule memo_true_D [OF w(1) Cons.prems(3)])
  moreover have "r \<notin> dom (rv_outcomes rv)" "ref \<in> dom (rv_outcomes rv)" using w(4) l Cons.prems(3) by auto
  ultimately have t: "?t = chase document sib [] r" using chase_link [OF w(2) _ _ lk(1), of sib] by simp
  have "memo_true document sib (length chain) (memoise r ?t rv)"
    by (rule memoise_true) (use w l t look_link_ref(2) [OF lk(1)] in auto)
  moreover have "closed document (insert r (dom (rv_outcomes rv)))"
    using w(2) lk(1) Cons.prems(3) by (auto simp: closed_def)
  ultimately have "waiting document sib chain (memoise r ?t rv)" using w l by (auto simp: waiting_def)
  moreover have "rv_outcomes (memoise r ?t rv) r = Some ?t" by (simp add: memoise_def)
  ultimately have "waiting document sib [] (unwind sib chain ?t (memoise r ?t rv)) \<and>
      dom (rv_outcomes (unwind sib chain ?t (memoise r ?t rv))) = fst ` set chain \<union> dom (rv_outcomes (memoise r ?t rv))"
    by (rule Cons.IH [OF _ lk(2)])
  then show ?case using l by (simp add: Let_def)
qed simp

definition resolver_ok :: "json \<Rightarrow> bool \<Rightarrow> resolver \<Rightarrow> bool" where
  "resolver_ok document sib rv \<longleftrightarrow> waiting document sib [] rv"

lemma follow_chases:
  assumes "resolver_ok document sib rv" "follow document sib rv start = (outcome, rv')"
  shows "outcome = chase document sib [] start" "resolver_ok document sib rv'"
proof -
  have "outcome = chase document sib [] start \<and> resolver_ok document sib rv'"
  proof (cases "rv_outcomes rv start")
    case (Some known)
    then show ?thesis using assms memo_true_D by (auto simp: follow_def resolver_ok_def waiting_def)
  next
    case None
    obtain tail chain rv1 where loop: "follow_loop document rv [] start = (tail, chain, rv1)" by (metis prod.exhaust)
    let ?rv2 = "unwind sib chain tail rv1"
    have res: "outcome = the (rv_outcomes ?rv2 start)" "rv' = ?rv2"
      using assms(2) None loop by (auto simp: follow_def Let_def)
    obtain ref' where e: "waiting document sib chain rv1" "linked document chain ref'" "rv_outcomes rv1 ref' = Some tail"
        "start \<in> fst ` set chain \<union> dom (rv_outcomes rv1)"
      using follow_loop_ends [OF _ _ loop, of sib] assms(1) by (auto simp: resolver_ok_def)
    have u: "waiting document sib [] ?rv2" "start \<in> dom (rv_outcomes ?rv2)"
      using unwind_ends [OF e(1-3)] e(4) by auto
    then show ?thesis using res memo_true_D by (auto simp: resolver_ok_def waiting_def)
  qed
  then show "outcome = chase document sib [] start" "resolver_ok document sib rv'" by auto
qed

lemma resolver_ok_new: "resolver_ok document sib new_resolver"
  by (simp add: resolver_ok_def waiting_def memo_true_def new_resolver_def closed_def)

text \<open>One resolver for several values of a document, in the order they are asked for; and each value
  followed by itself.\<close>

fun resolve_all :: "json \<Rightarrow> bool \<Rightarrow> resolver \<Rightarrow> node list \<Rightarrow> resolution list \<times> resolver" where
  "resolve_all document sib rv [] = ([], rv)"
| "resolve_all document sib rv (n # ns) = (case resolve document sib rv n of (r, rv1) \<Rightarrow>
     (case resolve_all document sib rv1 ns of (rs, rv2) \<Rightarrow> (r # rs, rv2)))"

definition resolve_plainly :: "json \<Rightarrow> bool \<Rightarrow> node \<Rightarrow> resolution" where
  "resolve_plainly document sib n = (case openApiRefOf (JObj (snd n)) of
      None \<Rightarrow> Res_Ok n NO_OVERRIDES
    | Some ref \<Rightarrow> of_outcome sib (snd n) ref (chase document sib [] ref))"

lemma resolve_chases:
  assumes "resolver_ok document sib rv" "resolve document sib rv n = (r, rv')"
  shows "r = resolve_plainly document sib n" "resolver_ok document sib rv'"
  using assms follow_chases [OF assms(1)]
  by (auto simp: resolve_def resolve_plainly_def split: option.splits prod.splits)

lemma resolve_all_chases:
  "resolver_ok document sib rv \<Longrightarrow> resolve_all document sib rv ns = (rs, rv') \<Longrightarrow>
     rs = map (resolve_plainly document sib) ns \<and> resolver_ok document sib rv'"
proof (induction ns arbitrary: rv rs rv')
  case (Cons n ns)
  obtain r rv1 where r: "resolve document sib rv n = (r, rv1)" by (rule prod.exhaust)
  obtain rs1 rv2 where rs: "resolve_all document sib rv1 ns = (rs1, rv2)" by (rule prod.exhaust)
  note c = resolve_chases [OF Cons.prems(1) r]
  show ?case using Cons.IH [OF c(2) rs] Cons.prems(2) c(1) r rs by simp
qed simp

text \<open>The references a resolver has followed are references of the values it was asked for, or of the
  document.\<close>

definition known_refs :: "json \<Rightarrow> string set \<Rightarrow> resolver \<Rightarrow> bool" where
  "known_refs document S rv \<longleftrightarrow> dom (rv_outcomes rv) \<subseteq> S \<union> set (refs_of document)"

lemma dom_memoise_loop:
  "dom (rv_outcomes (foldr (\<lambda>l. memoise (fst l) (Chain_Fail (fst l) Ref_Cycle 0)) loop rv)) =
     fst ` set loop \<union> dom (rv_outcomes rv)"
  by (induction loop) auto

lemma follow_loop_refs:
  assumes "known_refs document S rv" "insert ref (fst ` set chain) \<subseteq> S \<union> set (refs_of document)"
    and "follow_loop document rv chain ref = (tail, chain', rv')"
  shows "known_refs document S rv' \<and> fst ` set chain' \<subseteq> S \<union> set (refs_of document)"
  using assms
proof (induction document rv chain ref rule: follow_loop.induct)
  case (1 document rv chain ref)
  note r = "1.prems"(3) [unfolded follow_loop.simps [of document rv chain ref]]
  show ?case
  proof (cases "rv_outcomes rv ref = None \<and> ref \<notin> set (map fst chain) \<and> (\<exists>n next1. look document ref = Look_Link n next1)")
    case True
    then obtain n next1 where l: "look document ref = Look_Link n next1" by blast
    have k: "known_refs document S (rv\<lparr>rv_lookups := Suc (rv_lookups rv)\<rparr>)" using "1.prems"(1) by (simp add: known_refs_def)
    show ?thesis
      by (rule "1.IH" [OF _ _ l k]) (use True l "1.prems"(2) look_link_ref(1) [OF l] r in auto)
  next
    case False
    have sub: "set (takeWhile P chain) \<subseteq> set chain" "set (dropWhile P chain) \<subseteq> set chain"
        "set (take 1 (dropWhile P chain)) \<subseteq> set chain" "set (drop 1 (dropWhile P chain)) \<subseteq> set chain" for P
      by (auto dest: set_takeWhileD set_dropWhileD in_set_takeD in_set_dropD)
    show ?thesis
    proof (cases "rv_outcomes rv ref = None \<and> ref \<in> set (map fst chain)")
      case True
      let ?loop = "takeWhile (\<lambda>l. fst l \<noteq> ref) chain @ take 1 (dropWhile (\<lambda>l. fst l \<noteq> ref) chain)"
      have res: "chain' = drop 1 (dropWhile (\<lambda>l. fst l \<noteq> ref) chain)"
          "rv' = foldr (\<lambda>l. memoise (fst l) (Chain_Fail (fst l) Ref_Cycle 0)) ?loop rv"
        using r True by (auto simp: Let_def simp del: foldr_append)
      have "fst ` set ?loop \<subseteq> fst ` set chain" "fst ` set chain' \<subseteq> fst ` set chain"
        unfolding res(1) set_append using sub [of "\<lambda>l. fst l \<noteq> ref"] by (intro image_mono Un_least; blast)+
      then show ?thesis using "1.prems"(1,2) unfolding known_refs_def res(2) dom_memoise_loop by blast
    next
      case False
      then have "chain' = chain \<and> dom (rv_outcomes rv') \<subseteq> insert ref (dom (rv_outcomes rv))"
        using r \<open>\<not> (rv_outcomes rv ref = None \<and> _ \<and> _)\<close>
        by (auto simp: memoise_def Let_def split: option.splits looked.splits if_splits)
      then show ?thesis using "1.prems"(1,2) unfolding known_refs_def by blast
    qed
  qed
qed

lemma dom_unwind: "dom (rv_outcomes (unwind sib chain tail rv)) = fst ` set chain \<union> dom (rv_outcomes rv)"
  by (induction sib chain tail rv rule: unwind.induct) (auto simp: Let_def)

lemma follow_refs:
  assumes "known_refs document S rv" "start \<in> S" "follow document sib rv start = (outcome, rv')"
  shows "known_refs document S rv'"
proof (cases "rv_outcomes rv start")
  case (Some known)
  then show ?thesis using assms by (auto simp: follow_def)
next
  case None
  obtain tail chain rv1 where loop: "follow_loop document rv [] start = (tail, chain, rv1)" by (metis prod.exhaust)
  have "rv' = unwind sib chain tail rv1" using assms(3) None loop by (auto simp: follow_def Let_def)
  then show ?thesis using follow_loop_refs [OF assms(1) _ loop] assms(2) by (auto simp: known_refs_def dom_unwind)
qed

definition value_refs :: "node list \<Rightarrow> string set" where
  "value_refs ns = {ref. \<exists>n\<in>set ns. openApiRefOf (JObj (snd n)) = Some ref}"

lemma resolve_all_refs:
  "known_refs document S rv \<Longrightarrow> value_refs ns \<subseteq> S \<Longrightarrow> resolve_all document sib rv ns = (rs, rv') \<Longrightarrow>
     known_refs document S rv'"
proof (induction ns arbitrary: rv rs)
  case (Cons n ns)
  obtain r rv1 where r: "resolve document sib rv n = (r, rv1)" by (rule prod.exhaust)
  obtain rs1 rv2 where rs: "resolve_all document sib rv1 ns = (rs1, rv2)" by (rule prod.exhaust)
  have "known_refs document S rv1"
    using r Cons.prems(1,2) follow_refs [OF Cons.prems(1)]
    by (auto simp: resolve_def value_refs_def split: option.splits prod.splits)
  moreover have "value_refs ns \<subseteq> S" using Cons.prems(2) by (auto simp: value_refs_def)
  ultimately show ?case using Cons.IH rs r Cons.prems(3) by auto
qed simp

text \<open>
  C34. The memoising resolver agrees with following every chain on its own. However many references of a
  document are resolved, in whatever order, and whatever cycles, dangling or external references they
  run into, each answer is the one a walk that remembers only its own path finds; and altogether the
  document is searched at most once per distinct reference string, among those of the values asked for
  and those in the document.
\<close>

theorem resolver_agrees_with_plain_walk:
  "case resolve_all document sib new_resolver ns of (rs, rv) \<Rightarrow>
     rs = map (resolve_plainly document sib) ns \<and>
     rv_lookups rv \<le> card (value_refs ns \<union> set (refs_of document))"
proof -
  obtain rs rv where r: "resolve_all document sib new_resolver ns = (rs, rv)" by (rule prod.exhaust)
  note c = resolve_all_chases [OF resolver_ok_new r]
  have "known_refs document (value_refs ns) rv"
    by (rule resolve_all_refs [OF _ order_refl r]) (simp add: known_refs_def new_resolver_def)
  then have "{x \<in> dom (rv_outcomes rv). is_local x} \<subseteq> value_refs ns \<union> set (refs_of document)"
    by (auto simp: known_refs_def)
  moreover have "value_refs ns = (\<lambda>n. the (openApiRefOf (JObj (snd n)))) ` {n \<in> set ns. openApiRefOf (JObj (snd n)) \<noteq> None}"
    by (force simp: value_refs_def)
  then have "finite (value_refs ns)" by simp
  ultimately have "card {x \<in> dom (rv_outcomes rv). is_local x} \<le> card (value_refs ns \<union> set (refs_of document))"
    by (intro card_mono) auto
  moreover have "rv_lookups rv = card {x \<in> dom (rv_outcomes rv). is_local x}"
    using c by (simp add: resolver_ok_def waiting_def memo_true_def)
  ultimately show ?thesis using c r by simp
qed

subsection \<open>Siblings of a reference\<close>

text \<open>\<^verbatim>\<open>/^(\d+)\.(\d+)/\<close> on the trimmed version.\<close>

definition major_minor :: "string \<Rightarrow> (nat \<times> nat) option" where
  "major_minor s =
     (let major = takeWhile is_digit s; rest = dropWhile is_digit s; minor = takeWhile is_digit (drop 1 rest)
      in if major \<noteq> [] \<and> take 1 rest = ''.'' \<and> minor \<noteq> []
         then Some (digits_val 0 major, digits_val 0 minor) else None)"

definition openApiRefSiblingsApply :: "string option \<Rightarrow> bool" where
  "openApiRefSiblingsApply specVersion = (case specVersion of
      None \<Rightarrow> False
    | Some v \<Rightarrow> (case major_minor (js_trim v) of
        None \<Rightarrow> False
      | Some (major, minor) \<Rightarrow> 3 < major \<or> major = 3 \<and> 1 \<le> minor))"

subsection \<open>Parameters\<close>

text \<open>The \<open>in\<close> and \<open>name\<close> of a resolved parameter, when it has both.\<close>

definition parameter_identity :: "fields \<Rightarrow> (string \<times> string) option" where
  "parameter_identity m = (case (as_str (map_of m ''in''), as_str (map_of m ''name'')) of
      (Some location, Some name) \<Rightarrow> Some (location, name) | _ \<Rightarrow> None)"

definition folded_name :: "string \<Rightarrow> string \<Rightarrow> string" where
  "folded_name location name = (if location = ''header'' then js_lower name else name)"

definition spell_key :: "(string \<Rightarrow> string) \<Rightarrow> string \<Rightarrow> string \<Rightarrow> string" where
  "spell_key spell location name =
     (let located = spell location
      in show_nat (length located) @ '':'' @ located @ [CHR 0x00] @ spell (folded_name location name))"

definition parameterKeyOf :: "(string \<Rightarrow> string) \<Rightarrow> fields \<Rightarrow> string option" where
  "parameterKeyOf spell m = map_option (\<lambda>(location, name). spell_key spell location name) (parameter_identity m)"

record keyed_parameter =
  kp_parameter :: json
  kp_resolution :: "resolution option"
  kp_key :: "string option"
  kp_inherited :: bool

text \<open>The keyer: identities already read, by object; \<open>onKey\<close> may stop the caller.\<close>

type_synonym keyer = "node \<rightharpoonup> string option"

definition keyOf ::
  "(string \<Rightarrow> string) \<Rightarrow> (nat \<Rightarrow> 's \<Rightarrow> 's option) \<Rightarrow> resolution option \<Rightarrow> keyer \<times> 's \<Rightarrow> (string option \<times> keyer \<times> 's) option" where
  "keyOf spell onKey res st = (case st of (keys, s) \<Rightarrow> (case res of
      Some (Res_Ok n _) \<Rightarrow> (case keys n of
          Some known \<Rightarrow> Some (known, keys, s)
        | None \<Rightarrow> (case parameter_identity (snd n) of
            None \<Rightarrow> Some (None, keys(n \<mapsto> None), s)
          | Some (location, name) \<Rightarrow> (case onKey (length location + length name) s of
              None \<Rightarrow> None
            | Some s' \<Rightarrow> (let key = Some (spell_key spell location name) in Some (key, keys(n \<mapsto> key), s')))))
    | _ \<Rightarrow> Some (None, keys, s)))"

text \<open>The entries of one list, whose first is at index \<open>i\<close> below \<open>loc\<close>.\<close>

fun keyOpenApiParameters ::
  "(string \<Rightarrow> string) \<Rightarrow> (nat \<Rightarrow> 's \<Rightarrow> 's option) \<Rightarrow> json \<Rightarrow> string list \<Rightarrow> bool \<Rightarrow> nat \<Rightarrow> json list
    \<Rightarrow> resolver \<times> keyer \<times> 's \<Rightarrow> (keyed_parameter list \<times> resolver \<times> keyer \<times> 's) option" where
  "keyOpenApiParameters spell onKey document loc inherited i [] st = Some ([], st)"
| "keyOpenApiParameters spell onKey document loc inherited i (p # ps) (rv, keys, s) =
     (let (res, rv1) = (case p of
            JObj m \<Rightarrow> (case resolve document False rv (loc @ [show_nat i], m) of (r, rv') \<Rightarrow> (Some r, rv'))
          | _ \<Rightarrow> (None, rv))
      in (case keyOf spell onKey res (keys, s) of
          None \<Rightarrow> None
        | Some (key, keys1, s1) \<Rightarrow>
            (case keyOpenApiParameters spell onKey document loc inherited (Suc i) ps (rv1, keys1, s1) of
               None \<Rightarrow> None
             | Some (rest, st') \<Rightarrow>
                 Some (\<lparr>kp_parameter = p, kp_resolution = res, kp_key = key, kp_inherited = inherited\<rparr> # rest, st'))))"

definition mergeOpenApiParameters :: "keyed_parameter list \<Rightarrow> keyed_parameter list \<Rightarrow> keyed_parameter list" where
  "mergeOpenApiParameters pathParameters operationParameters =
     (let overridden = List.map_filter kp_key operationParameters
      in filter (\<lambda>e. case kp_key e of None \<Rightarrow> True | Some k \<Rightarrow> k \<notin> set overridden) pathParameters @ operationParameters)"

text \<open>Without the resolver's and the keyer's memories.\<close>

definition keyed_plainly :: "(string \<Rightarrow> string) \<Rightarrow> json \<Rightarrow> bool \<Rightarrow> string list \<Rightarrow> json \<Rightarrow> keyed_parameter" where
  "keyed_plainly spell document inherited loc p =
     (let res = (case p of JObj m \<Rightarrow> Some (resolve_plainly document False (loc, m)) | _ \<Rightarrow> None)
      in \<lparr>kp_parameter = p, kp_resolution = res,
          kp_key = (case res of Some (Res_Ok n _) \<Rightarrow> parameterKeyOf spell (snd n) | _ \<Rightarrow> None), kp_inherited = inherited\<rparr>)"

definition keyer_ok :: "(string \<Rightarrow> string) \<Rightarrow> keyer \<Rightarrow> bool" where
  "keyer_ok spell keys \<longleftrightarrow> (\<forall>n k. keys n = Some k \<longrightarrow> k = parameterKeyOf spell (snd n))"

lemma keyOf_plain:
  assumes "keyer_ok spell keys" "keyOf spell onKey res (keys, s) = Some (key, keys', s')"
  shows "key = (case res of Some (Res_Ok n _) \<Rightarrow> parameterKeyOf spell (snd n) | _ \<Rightarrow> None)" "keyer_ok spell keys'"
  using assms
  by (auto simp: keyOf_def keyer_ok_def parameterKeyOf_def Let_def split: option.splits resolution.splits if_splits)

lemma keyOpenApiParameters_plain:
  assumes "resolver_ok document False rv" "keyer_ok spell keys"
    and "keyOpenApiParameters spell onKey document loc inherited i ps (rv, keys, s) = Some (out, rv', keys', s')"
  shows "out = map (\<lambda>(j, p). keyed_plainly spell document inherited (loc @ [show_nat j]) p) (zip [i..<i + length ps] ps) \<and>
    resolver_ok document False rv' \<and> keyer_ok spell keys'"
  using assms
proof (induction ps arbitrary: i rv keys s out)
  case (Cons p ps)
  obtain res rv1 where res: "(case p of
      JObj m \<Rightarrow> (case resolve document False rv (loc @ [show_nat i], m) of (r, rv') \<Rightarrow> (Some r, rv'))
    | _ \<Rightarrow> (None, rv)) = (res, rv1)" by (rule prod.exhaust)
  obtain key keys1 s1 where key: "keyOf spell onKey res (keys, s) = Some (key, keys1, s1)"
    using Cons.prems(3) res by (auto split: option.splits)
  obtain rest where rest: "keyOpenApiParameters spell onKey document loc inherited (Suc i) ps (rv1, keys1, s1) = Some (rest, rv', keys', s')"
      "out = \<lparr>kp_parameter = p, kp_resolution = res, kp_key = key, kp_inherited = inherited\<rparr> # rest"
    using Cons.prems(3) res key by (auto split: option.splits)
  have r: "res = (case p of JObj m \<Rightarrow> Some (resolve_plainly document False (loc @ [show_nat i], m)) | _ \<Rightarrow> None) \<and>
      resolver_ok document False rv1"
    using res Cons.prems(1) resolve_chases [OF Cons.prems(1)] by (auto split: json.splits prod.splits)
  note k = keyOf_plain [OF Cons.prems(2) key]
  have u: "[i..<i + length (p # ps)] = i # [Suc i..<Suc i + length ps]" by (simp add: upt_conv_Cons del: upt_Suc)
  show ?case using Cons.IH [OF conjunct2 [OF r] k(2) rest(1)] rest(2) k(1) r
    unfolding u by (simp add: keyed_plainly_def Let_def)
qed simp

subsection \<open>Keys are identities\<close>

lemma digit_char: "n < 10 \<Longrightarrow> of_char (char_of (48 + n) :: char) = (48 + n :: nat)"
  by simp

lemma digit_char_inj:
  assumes "a < 10" "b < 10" "(char_of (48 + a) :: char) = char_of (48 + b)"
  shows "(a :: nat) = b"
proof -
  have "of_char (char_of (48 + a) :: char) = (of_char (char_of (48 + b) :: char) :: nat)" using assms(3) by simp
  then show ?thesis using assms(1,2) by (simp only: digit_char)
qed

lemma show_nat_ne: "show_nat n \<noteq> []"
  by (subst show_nat.simps) simp

lemma show_nat_inj: "show_nat a = show_nat b \<Longrightarrow> a = b"
proof (induction a arbitrary: b rule: less_induct)
  case (less a)
  have small: "a = b" if "a < 10" "b < 10"
    using less.prems that digit_char_inj by (simp add: show_nat.simps [of a] show_nat.simps [of b])
  have mixed: False if "show_nat x = show_nat y" "x < 10" "\<not> y < 10" for x y
    using that show_nat_ne [of "y div 10"] by (simp add: show_nat.simps [of x] show_nat.simps [of y])
  show ?case
  proof (cases "a < 10 \<or> b < 10")
    case True
    then show ?thesis using small mixed less.prems by metis
  next
    case False
    then have e: "show_nat (a div 10) @ [char_of (48 + a mod 10)] = show_nat (b div 10) @ [char_of (48 + b mod 10)]"
      using less.prems by (simp add: show_nat.simps [of a] show_nat.simps [of b])
    then have "a div 10 = b div 10" using less.IH [of "a div 10" "b div 10"] False by simp
    moreover have "a mod 10 = b mod 10" using e by (intro digit_char_inj) simp_all
    ultimately show ?thesis by (metis div_mult_mod_eq)
  qed
qed

lemma show_nat_digits: "c \<in> set (show_nat n) \<Longrightarrow> c \<noteq> CHR 0x3A"
proof (induction n rule: less_induct)
  case (less n)
  have d: "char_of (48 + m) \<noteq> CHR 0x3A" if "m < 10" for m :: nat
  proof
    assume "char_of (48 + m) = CHR 0x3A"
    then have "of_char (char_of (48 + m) :: char) = (of_char (CHR 0x3A) :: nat)" by simp
    then show False using that by (simp only: digit_char) simp
  qed
  consider "n < 10" "c = char_of (48 + n)" | "\<not> n < 10" "c \<in> set (show_nat (n div 10))" | "c = char_of (48 + n mod 10)"
    using less.prems by (auto simp: show_nat.simps [of n] split: if_splits)
  then show ?case
  proof cases
    case 2
    then show ?thesis using less.IH [of "n div 10"] by simp
  qed (use d [of n] d [of "n mod 10"] in auto)
qed

text \<open>
  A parameter's key is its identity. Two parameters get the same key exactly when their \<open>in\<close> is the
  same and their names are the same (for headers, up to case), whatever characters they hold; provided
  the spelling of texts collides on none of these four.
\<close>

theorem parameter_key_is_identity:
  assumes "\<And>a b. {a, b} \<subseteq> {l1, l2, folded_name l1 n1, folded_name l2 n2} \<Longrightarrow> spell a = spell b \<Longrightarrow> a = b"
  shows "spell_key spell l1 n1 = spell_key spell l2 n2 \<longleftrightarrow> l1 = l2 \<and> folded_name l1 n1 = folded_name l2 n2"
proof
  assume e: "spell_key spell l1 n1 = spell_key spell l2 n2"
  let ?r = "\<lambda>l n. spell l @ [CHR 0x00] @ spell (folded_name l n)"
  have no: "\<And>k. CHR 0x3A \<notin> set (show_nat k)" using show_nat_digits by blast
  have cut: "takeWhile (\<lambda>c. c \<noteq> CHR 0x3A) (show_nat k @ CHR 0x3A # r) = show_nat k"
    "dropWhile (\<lambda>c. c \<noteq> CHR 0x3A) (show_nat k @ CHR 0x3A # r) = CHR 0x3A # r" for k r
    using no [of k] by (auto simp: takeWhile_append dropWhile_append)
  have e': "show_nat (length (spell l1)) @ CHR 0x3A # ?r l1 n1 = show_nat (length (spell l2)) @ CHR 0x3A # ?r l2 n2"
    using e by (simp add: spell_key_def Let_def)
  have "show_nat (length (spell l1)) = show_nat (length (spell l2))" using arg_cong [OF e', of "takeWhile (\<lambda>c. c \<noteq> CHR 0x3A)"]
    unfolding cut .
  then have len: "length (spell l1) = length (spell l2)" by (rule show_nat_inj)
  have "?r l1 n1 = ?r l2 n2" using arg_cong [OF e', of "dropWhile (\<lambda>c. c \<noteq> CHR 0x3A)"] unfolding cut by simp
  then have "spell l1 = spell l2" "spell (folded_name l1 n1) = spell (folded_name l2 n2)" using len by simp_all
  then show "l1 = l2 \<and> folded_name l1 n1 = folded_name l2 n2"
    using assms [of l1 l2] assms [of "folded_name l1 n1" "folded_name l2 n2"] by simp
qed (auto simp: spell_key_def)

theorem parameter_key_is_identity_witness:
  "spell_key id ''header'' ''X-Id'' = spell_key id ''header'' ''x-id''"
proof -
  have "folded_name ''header'' ''X-Id'' = folded_name ''header'' ''x-id''" by code_simp
  then show ?thesis
    using parameter_key_is_identity [of "''header''" "''header''" "''X-Id''" "''x-id''" id] by simp
qed

end
