(* ===== verification/Spec_Diff.thy ===== *)
theory Spec_Diff
  imports Openapi "HOL-Library.Char_ord" "HOL-Library.List_Lexorder" "HOL-Library.Multiset"
begin

section \<open>Comparing two revisions of a specification\<close>

text \<open>
  Models \<open>server/src/publishing/spec-diff.ts\<close> and \<open>spec-keys.ts\<close>: the operations of a document with the
  path item's parameters folded in, under a budget of work units, and the comparison of two documents.
  SHA-256 is a parameter, \<open>digest\<close>. The counters for tests and the summaries of the revisions, which are
  passed through, are left out.
\<close>

subsection \<open>Keys and the budget\<close>

definition MAX_VERBATIM_KEY_LENGTH :: nat where "MAX_VERBATIM_KEY_LENGTH = 64"
definition SPEC_KEY_CODE_UNITS_PER_UNIT :: nat where "SPEC_KEY_CODE_UNITS_PER_UNIT = 256"
definition MAX_SPEC_RENDER_UNITS :: nat where "MAX_SPEC_RENDER_UNITS = 100000"
definition MAX_SPEC_DIFF_UNITS :: nat where "MAX_SPEC_DIFF_UNITS = 5 * MAX_SPEC_RENDER_UNITS"

definition compactSpecKey :: "(string \<Rightarrow> string) \<Rightarrow> string \<Rightarrow> string" where
  "compactSpecKey digest text = (if length text \<le> MAX_VERBATIM_KEY_LENGTH then CHR 0x3D # text
     else CHR 0x23 # show_nat (length text) @ '':'' @ digest text)"

record diff_state =
  ds_units :: nat
  ds_total :: nat
  ds_charged :: nat

text \<open>\<open>None\<close> is \<open>BudgetExhausted\<close>.\<close>

definition spend :: "nat \<Rightarrow> nat \<Rightarrow> diff_state \<Rightarrow> diff_state option" where
  "spend unitLimit amount s =
     (let units = ds_units s + amount in if unitLimit < units then None else Some (s\<lparr>ds_units := units\<rparr>))"

definition spendUpTo :: "nat \<Rightarrow> nat \<Rightarrow> diff_state \<Rightarrow> diff_state option" where
  "spendUpTo unitLimit units s =
     (if units \<le> ds_charged s then Some s else spend unitLimit (units - ds_charged s) (s\<lparr>ds_charged := units\<rparr>))"

definition charge :: "nat \<Rightarrow> nat \<Rightarrow> diff_state \<Rightarrow> diff_state option" where
  "charge unitLimit codeUnits s =
     (let total = ds_total s + codeUnits
      in spendUpTo unitLimit (total div SPEC_KEY_CODE_UNITS_PER_UNIT) (s\<lparr>ds_total := total\<rparr>))"

definition settle :: "nat \<Rightarrow> diff_state \<Rightarrow> diff_state option" where
  "settle unitLimit s =
     spendUpTo unitLimit ((ds_total s + SPEC_KEY_CODE_UNITS_PER_UNIT - 1) div SPEC_KEY_CODE_UNITS_PER_UNIT) s"

subsection \<open>The operations of a document\<close>

definition OPERATION_KEYS :: "string list" where
  "OPERATION_KEYS = [''get'', ''put'', ''post'', ''delete'', ''options'', ''head'', ''patch'', ''trace'']"

definition OPERATION_MEMBERS :: "string list" where
  "OPERATION_MEMBERS = [''summary'', ''description'', ''operationId'', ''tags'', ''parameters'', ''requestBody'',
     ''responses'', ''callbacks'', ''deprecated'', ''security'', ''servers'']"

text \<open>\<open>toUpperCase\<close> of a method, whose letters are lowercase ASCII.\<close>

definition operation_key :: "string \<Rightarrow> string \<Rightarrow> string" where
  "operation_key key path = map (\<lambda>c. char_of (of_char c - 32 :: nat)) key @ '' '' @ path"

type_synonym operations = "(string \<times> fields) list"

definition canonicalParameters :: "keyed_parameter list \<Rightarrow> json list" where
  "canonicalParameters ps =
     map kp_parameter (sort_key (\<lambda>e. the (kp_key e)) (filter (\<lambda>e. kp_key e \<noteq> None) ps) @ filter (\<lambda>e. kp_key e = None) ps)"

definition normalized :: "fields \<Rightarrow> json list \<Rightarrow> fields" where
  "normalized operation effective =
     (let rest = filter (\<lambda>e. fst e \<noteq> ''parameters'') operation
      in if effective \<noteq> [] then rest @ [(''parameters'', JArr effective)]
         else (case map_of operation ''parameters'' of
             None \<Rightarrow> rest | Some (JArr _) \<Rightarrow> rest | Some _ \<Rightarrow> operation))"

fun as_list :: "json option \<Rightarrow> json list" where
  "as_list (Some (JArr xs)) = xs"
| "as_list _ = []"

definition keyed ::
  "(string \<Rightarrow> string) \<Rightarrow> nat \<Rightarrow> fields \<Rightarrow> string list \<Rightarrow> bool \<Rightarrow> json option \<Rightarrow> resolver \<times> keyer \<times> diff_state
    \<Rightarrow> (keyed_parameter list \<times> resolver \<times> keyer \<times> diff_state) option" where
  "keyed digest unitLimit document loc inherited parameters st = (case st of (rv, keys, s) \<Rightarrow>
     (case spend unitLimit (length (as_list parameters)) s of
        None \<Rightarrow> None
      | Some s1 \<Rightarrow> keyOpenApiParameters (compactSpecKey digest) (charge unitLimit) (JObj document) loc inherited 0
          (as_list parameters) (rv, keys, s1)))"

text \<open>One path item; \<open>shared\<close> is its keyed parameter list once its first operation was met.\<close>

fun fold_methods ::
  "(string \<Rightarrow> string) \<Rightarrow> nat \<Rightarrow> fields \<Rightarrow> string \<Rightarrow> fields \<Rightarrow> string list \<Rightarrow> keyed_parameter list option \<Rightarrow> operations
    \<Rightarrow> resolver \<times> keyer \<times> diff_state \<Rightarrow> (operations \<times> resolver \<times> keyer \<times> diff_state) option" where
  "fold_methods digest unitLimit document path item [] shared operations st = Some (operations, st)"
| "fold_methods digest unitLimit document path item (key # rest) shared operations (rv, keys, s) =
     (case map_of item key of
        Some (JObj operation) \<Rightarrow>
          (case spend unitLimit 1 s of
             None \<Rightarrow> None
           | Some s1 \<Rightarrow>
               (case (case shared of
                   Some l \<Rightarrow> Some (l, rv, keys, s1)
                 | None \<Rightarrow> keyed digest unitLimit document [''paths'', path, ''parameters''] True
                     (map_of item ''parameters'') (rv, keys, s1)) of
                  None \<Rightarrow> None
                | Some (sh, st1) \<Rightarrow>
                    (case keyed digest unitLimit document [''paths'', path, key, ''parameters''] False
                        (map_of operation ''parameters'') st1 of
                       None \<Rightarrow> None
                     | Some (own, rv2, keys2, s2) \<Rightarrow>
                         (case spend unitLimit (length sh + length own) s2 of
                            None \<Rightarrow> None
                          | Some s3 \<Rightarrow>
                              fold_methods digest unitLimit document path item rest (Some sh)
                                (omap_set (operation_key key path)
                                   (normalized operation (canonicalParameters (mergeOpenApiParameters sh own))) operations)
                                (rv2, keys2, s3)))))
      | _ \<Rightarrow> fold_methods digest unitLimit document path item rest shared operations (rv, keys, s))"

fun fold_paths ::
  "(string \<Rightarrow> string) \<Rightarrow> nat \<Rightarrow> fields \<Rightarrow> fields \<Rightarrow> operations \<Rightarrow> resolver \<times> keyer \<times> diff_state
    \<Rightarrow> (operations \<times> resolver \<times> keyer \<times> diff_state) option" where
  "fold_paths digest unitLimit document [] operations st = Some (operations, st)"
| "fold_paths digest unitLimit document ((path, v) # rest) operations st = (case v of
      JObj item \<Rightarrow> (case fold_methods digest unitLimit document path item OPERATION_KEYS None operations st of
          None \<Rightarrow> None
        | Some (ops, st') \<Rightarrow> fold_paths digest unitLimit document rest ops st')
    | _ \<Rightarrow> fold_paths digest unitLimit document rest operations st)"

definition paths_of :: "fields \<Rightarrow> fields" where
  "paths_of document = (case map_of document ''paths'' of Some (JObj paths) \<Rightarrow> paths | _ \<Rightarrow> [])"

definition operationsOf ::
  "(string \<Rightarrow> string) \<Rightarrow> nat \<Rightarrow> fields \<Rightarrow> diff_state \<Rightarrow> (operations \<times> diff_state) option" where
  "operationsOf digest unitLimit document s =
     map_option (\<lambda>(ops, rv, keys, s'). (ops, s'))
       (fold_paths digest unitLimit document (paths_of document) [] (new_resolver, Map.empty, s))"

text \<open>The operations of a document in order, with their path items.\<close>

type_synonym slot = "string \<times> fields \<times> string \<times> fields"

definition item_slots :: "string \<Rightarrow> fields \<Rightarrow> string list \<Rightarrow> slot list" where
  "item_slots path item keys =
     List.map_filter (\<lambda>key. case map_of item key of Some (JObj operation) \<Rightarrow> Some (path, item, key, operation) | _ \<Rightarrow> None) keys"

definition slots_of :: "fields \<Rightarrow> slot list" where
  "slots_of paths = concat (map (\<lambda>(path, v). case v of JObj item \<Rightarrow> item_slots path item OPERATION_KEYS | _ \<Rightarrow> []) paths)"

definition put_slots :: "(slot \<Rightarrow> fields) \<Rightarrow> slot list \<Rightarrow> operations \<Rightarrow> operations" where
  "put_slots f slots ops = foldl (\<lambda>ops slot. case slot of (path, item, key, operation) \<Rightarrow>
     omap_set (operation_key key path) (f slot) ops) ops slots"

definition operationKeysOf :: "fields \<Rightarrow> operations" where
  "operationKeysOf document = put_slots (\<lambda>(path, item, key, operation). operation) (slots_of (paths_of document)) []"

definition pathsOf :: "fields \<Rightarrow> string list" where
  "pathsOf document = map fst (filter (\<lambda>(path, v). case v of
       JObj item \<Rightarrow> list_ex (\<lambda>key. case map_of item key of Some (JObj _) \<Rightarrow> True | _ \<Rightarrow> False) OPERATION_KEYS
     | _ \<Rightarrow> False) (paths_of document))"

subsection \<open>The comparison\<close>

record operation_ref =
  or_method :: string
  or_path :: string

definition refOf :: "string \<Rightarrow> operation_ref" where
  "refOf key = (case index_of CHR 0x20 key of
      Some space \<Rightarrow> \<lparr>or_method = take space key, or_path = drop (Suc space) key\<rparr>
    | None \<Rightarrow> \<lparr>or_method = butlast key, or_path = key\<rparr>)"

definition memberChanges :: "fields \<Rightarrow> fields \<Rightarrow> string list" where
  "memberChanges before after =
     filter (\<lambda>member. \<not> deep_eq_opt (map_of before member) (map_of after member)) OPERATION_MEMBERS @
     (if list_ex (\<lambda>key. key \<notin> set OPERATION_MEMBERS \<and> \<not> deep_eq_opt (map_of before key) (map_of after key))
           (map fst before @ map fst after)
      then [''other''] else [])"

record info_change =
  ic_field :: string
  ic_from :: "string option"
  ic_to :: "string option"

definition infoChanges :: "fields \<Rightarrow> fields \<Rightarrow> info_change list" where
  "infoChanges before after =
     (let info = (\<lambda>d. case map_of d ''info'' of Some (JObj m) \<Rightarrow> m | _ \<Rightarrow> [])
      in List.map_filter (\<lambda>field.
           let a = as_str (map_of (info before) field); b = as_str (map_of (info after) field)
           in if a \<noteq> b then Some \<lparr>ic_field = field, ic_from = a, ic_to = b\<rparr> else None)
         [''title'', ''version'', ''description''])"

record spec_diff =
  sd_added_operations :: "operation_ref list"
  sd_removed_operations :: "operation_ref list"
  sd_changed_operations :: "(operation_ref \<times> string list) list"
  sd_added_paths :: "string list"
  sd_removed_paths :: "string list"
  sd_info_changes :: "info_change list"
  sd_servers_changed :: bool
  sd_potentially_breaking :: "operation_ref list"
  sd_complete :: bool
  sd_changed :: bool

text \<open>Both documents folded on one budget, with whether it lasted to the end.\<close>

definition folded ::
  "(string \<Rightarrow> string) \<Rightarrow> nat \<Rightarrow> bool \<Rightarrow> fields \<Rightarrow> fields \<Rightarrow> operations \<times> operations \<times> bool" where
  "folded digest unitLimit unchecked old new1 =
     (let unfolded = (operationKeysOf old, operationKeysOf new1, False)
      in if unchecked then unfolded
         else (case operationsOf digest unitLimit old \<lparr>ds_units = 0, ds_total = 0, ds_charged = 0\<rparr> of
             None \<Rightarrow> unfolded
           | Some (before, s1) \<Rightarrow> (case operationsOf digest unitLimit new1 s1 of
               None \<Rightarrow> unfolded
             | Some (after, s2) \<Rightarrow> (before, after, settle unitLimit s2 \<noteq> None))))"

definition diffSpecDocuments :: "(string \<Rightarrow> string) \<Rightarrow> nat \<Rightarrow> bool \<Rightarrow> fields \<Rightarrow> fields \<Rightarrow> spec_diff" where
  "diffSpecDocuments digest unitLimit unchecked old new1 =
     (let (before, after, whole) = folded digest unitLimit unchecked old new1;
          added = map (\<lambda>e. refOf (fst e)) (filter (\<lambda>e. map_of before (fst e) = None) after);
          changed = (if \<not> whole then [] else List.map_filter (\<lambda>(key, operation). case map_of before key of
              None \<Rightarrow> None
            | Some previous \<Rightarrow> (let changes = memberChanges previous operation
                in if changes \<noteq> [] then Some (refOf key, changes) else None)) after);
          removed = map (\<lambda>e. refOf (fst e)) (filter (\<lambda>e. map_of after (fst e) = None) before);
          beforePaths = pathsOf old; afterPaths = pathsOf new1;
          info = infoChanges old new1;
          serversChanged = (\<not> deep_eq_opt (map_of old ''servers'') (map_of new1 ''servers''))
      in \<lparr>sd_added_operations = added, sd_removed_operations = removed, sd_changed_operations = changed,
          sd_added_paths = filter (\<lambda>p. p \<notin> set beforePaths) afterPaths,
          sd_removed_paths = filter (\<lambda>p. p \<notin> set afterPaths) beforePaths,
          sd_info_changes = info, sd_servers_changed = serversChanged,
          sd_potentially_breaking = removed, sd_complete = whole,
          sd_changed = (\<not> whole \<or> added \<noteq> [] \<or> removed \<noteq> [] \<or> changed \<noteq> [] \<or> info \<noteq> [] \<or> serversChanged)\<rparr>)"

subsection \<open>The budget only decides whether parameters are folded\<close>

definition plain_list :: "(string \<Rightarrow> string) \<Rightarrow> fields \<Rightarrow> string list \<Rightarrow> bool \<Rightarrow> json option \<Rightarrow> keyed_parameter list" where
  "plain_list digest document loc inherited parameters =
     map (\<lambda>(j, p). keyed_plainly (compactSpecKey digest) (JObj document) inherited (loc @ [show_nat j]) p)
       (zip [0..<length (as_list parameters)] (as_list parameters))"

text \<open>An operation with the path item's parameters folded in, without budget or memories.\<close>

definition folded_operation :: "(string \<Rightarrow> string) \<Rightarrow> fields \<Rightarrow> slot \<Rightarrow> fields" where
  "folded_operation digest document slot = (case slot of (path, item, key, operation) \<Rightarrow>
     normalized operation (canonicalParameters (mergeOpenApiParameters
       (plain_list digest document [''paths'', path, ''parameters''] True (map_of item ''parameters''))
       (plain_list digest document [''paths'', path, key, ''parameters''] False (map_of operation ''parameters'')))))"

lemma keyed_plain:
  assumes "resolver_ok (JObj document) False rv" "keyer_ok (compactSpecKey digest) keys"
    and "keyed digest unitLimit document loc inherited parameters (rv, keys, s) = Some (out, rv', keys', s')"
  shows "out = plain_list digest document loc inherited parameters \<and> resolver_ok (JObj document) False rv' \<and>
    keyer_ok (compactSpecKey digest) keys'"
  using assms keyOpenApiParameters_plain [OF assms(1,2), of "charge unitLimit" loc inherited 0 "as_list parameters"]
  by (auto simp: keyed_def plain_list_def split: option.splits)

lemma put_slots_simps [simp]:
  "put_slots f [] ops = ops"
  "put_slots f ((path, item, key, operation) # slots) ops =
     put_slots f slots (omap_set (operation_key key path) (f (path, item, key, operation)) ops)"
  "put_slots f (xs @ ys) ops = put_slots f ys (put_slots f xs ops)"
  by (simp_all add: put_slots_def)

lemma item_slots_simps [simp]:
  "item_slots path item [] = []"
  "item_slots path item (key # keys) = (case map_of item key of
     Some (JObj operation) \<Rightarrow> (path, item, key, operation) # item_slots path item keys | _ \<Rightarrow> item_slots path item keys)"
  by (auto simp: item_slots_def List.map_filter_simps split: option.splits json.splits)

lemma fold_methods_plain:
  assumes "resolver_ok (JObj document) False rv" "keyer_ok (compactSpecKey digest) ks"
    and "shared \<in> {None, Some (plain_list digest document [''paths'', path, ''parameters''] True (map_of item ''parameters''))}"
    and "fold_methods digest unitLimit document path item keys shared ops (rv, ks, s) = Some (ops', rv', ks', s')"
  shows "ops' = put_slots (folded_operation digest document) (item_slots path item keys) ops \<and>
    resolver_ok (JObj document) False rv' \<and> keyer_ok (compactSpecKey digest) ks'"
  using assms
proof (induction keys arbitrary: shared ops rv ks s)
  case (Cons key keys)
  show ?case
  proof (cases "\<exists>operation. map_of item key = Some (JObj operation)")
    case True
    then obtain operation where o1: "map_of item key = Some (JObj operation)" by blast
    let ?shared = "plain_list digest document [''paths'', path, ''parameters''] True (map_of item ''parameters'')"
    let ?own = "plain_list digest document [''paths'', path, key, ''parameters''] False (map_of operation ''parameters'')"
    obtain s1 sh rv1 ks1 s1' own rv2 ks2 s2 s3 where
        sh: "(case shared of Some l \<Rightarrow> Some (l, rv, ks, s1)
          | None \<Rightarrow> keyed digest unitLimit document [''paths'', path, ''parameters''] True (map_of item ''parameters'') (rv, ks, s1))
          = Some (sh, rv1, ks1, s1')"
      and own: "keyed digest unitLimit document [''paths'', path, key, ''parameters''] False (map_of operation ''parameters'') (rv1, ks1, s1')
          = Some (own, rv2, ks2, s2)"
      and go: "fold_methods digest unitLimit document path item keys (Some sh)
          (omap_set (operation_key key path) (normalized operation (canonicalParameters (mergeOpenApiParameters sh own))) ops)
          (rv2, ks2, s3) = Some (ops', rv', ks', s')"
      using Cons.prems(4) o1 by (auto split: option.splits)
    have 1: "sh = ?shared \<and> resolver_ok (JObj document) False rv1 \<and> keyer_ok (compactSpecKey digest) ks1"
      using sh Cons.prems(1-3) keyed_plain [OF Cons.prems(1,2)] by (cases shared) auto
    have 2: "own = ?own \<and> resolver_ok (JObj document) False rv2 \<and> keyer_ok (compactSpecKey digest) ks2"
      using keyed_plain [OF _ _ own] 1 by blast
    show ?thesis using Cons.IH [OF _ _ _ go] 1 2 o1 by (simp add: folded_operation_def)
  next
    case False
    then have "fold_methods digest unitLimit document path item keys shared ops (rv, ks, s) = Some (ops', rv', ks', s')"
      using Cons.prems(4) by (auto split: option.splits json.splits)
    from Cons.IH [OF Cons.prems(1-3) this] show ?thesis using False by (auto split: option.splits json.splits)
  qed
qed simp

lemma fold_paths_plain:
  assumes "resolver_ok (JObj document) False rv" "keyer_ok (compactSpecKey digest) ks"
    and "fold_paths digest unitLimit document paths ops (rv, ks, s) = Some (ops', rv', ks', s')"
  shows "ops' = put_slots (folded_operation digest document) (slots_of paths) ops"
  using assms
proof (induction paths arbitrary: ops rv ks s)
  case (Cons pv paths)
  obtain path v where pv: "pv = (path, v)" by (rule prod.exhaust)
  show ?case
  proof (cases "\<exists>item. v = JObj item")
    case True
    then obtain item where v: "v = JObj item" by blast
    obtain ops1 rv1 ks1 s1 where
        m: "fold_methods digest unitLimit document path item OPERATION_KEYS None ops (rv, ks, s) = Some (ops1, rv1, ks1, s1)"
      and go: "fold_paths digest unitLimit document paths ops1 (rv1, ks1, s1) = Some (ops', rv', ks', s')"
      using Cons.prems(3) pv v by (auto split: option.splits)
    note p = fold_methods_plain [OF Cons.prems(1,2) _ m]
    show ?thesis using Cons.IH [OF _ _ go] p pv v by (simp add: slots_of_def)
  next
    case False
    then have "fold_paths digest unitLimit document paths ops (rv, ks, s) = Some (ops', rv', ks', s')"
      using Cons.prems(3) pv by (auto split: json.splits)
    from Cons.IH [OF Cons.prems(1,2) this] show ?thesis using False pv by (auto simp: slots_of_def split: json.splits)
  qed
qed (simp add: slots_of_def)

lemma operationsOf_plain:
  assumes "operationsOf digest unitLimit document s = Some (ops, s')"
  shows "ops = put_slots (folded_operation digest document) (slots_of (paths_of document)) []"
proof -
  have "keyer_ok (compactSpecKey digest) Map.empty" by (simp add: keyer_ok_def)
  then show ?thesis using assms fold_paths_plain [OF resolver_ok_new] by (auto simp: operationsOf_def)
qed

lemma omap_set_keys: "map fst (omap_set k v m) = (if k \<in> fst ` set m then map fst m else map fst m @ [k])"
  by (induction k v m rule: omap_set.induct) auto

lemma put_slots_keys:
  "map fst ops = map fst ops' \<Longrightarrow> map fst (put_slots f slots ops) = map fst (put_slots g slots ops')"
proof (induction slots arbitrary: ops ops')
  case (Cons slot slots)
  obtain path item key operation where slot: "slot = (path, item, key, operation)" by (rule prod_cases4)
  have "fst ` set ops = fst ` set ops'" using Cons.prems by (metis list.set_map)
  then have "map fst (omap_set (operation_key key path) (f slot) ops) = map fst (omap_set (operation_key key path) (g slot) ops')"
    using Cons.prems by (simp add: omap_set_keys)
  then show ?case using Cons.IH slot by simp
qed simp

definition keys_of :: "fields \<Rightarrow> string list" where
  "keys_of document = map fst (operationKeysOf document)"

lemma folded_keys:
  assumes "folded digest unitLimit unchecked old new1 = (before, after, whole)"
  shows "map fst before = keys_of old" "map fst after = keys_of new1"
    "fst ` set before = set (keys_of old)" "fst ` set after = set (keys_of new1)"
proof -
  have k: "map fst ops = keys_of document" if "operationsOf digest unitLimit document s = Some (ops, s')" for document ops s s'
    unfolding keys_of_def operationKeysOf_def operationsOf_plain [OF that] by (rule put_slots_keys) simp
  show "map fst before = keys_of old" "map fst after = keys_of new1"
    using assms k by (auto simp: folded_def Let_def keys_of_def split: if_splits option.splits)
  then show "fst ` set before = set (keys_of old)" "fst ` set after = set (keys_of new1)" by (metis list.set_map)+
qed

lemma filter_keys:
  "map (\<lambda>e. refOf (fst e)) (filter (\<lambda>e. map_of m (fst e) = None) ops) =
     map refOf (filter (\<lambda>k. k \<notin> set (map fst m)) (map fst ops))"
  by (induction ops) (auto simp: map_of_eq_None_iff)

lemma diff_fields:
  assumes d: "d = diffSpecDocuments digest unitLimit unchecked old new1"
  shows "sd_added_operations d = map refOf (filter (\<lambda>k. k \<notin> set (keys_of old)) (keys_of new1))"
    "sd_removed_operations d = map refOf (filter (\<lambda>k. k \<notin> set (keys_of new1)) (keys_of old))"
    "sd_potentially_breaking d = sd_removed_operations d"
    "sd_added_paths d = filter (\<lambda>p. p \<notin> set (pathsOf old)) (pathsOf new1)"
    "sd_removed_paths d = filter (\<lambda>p. p \<notin> set (pathsOf new1)) (pathsOf old)"
    "sd_complete d = snd (snd (folded digest unitLimit unchecked old new1))"
    "\<not> sd_complete d \<Longrightarrow> sd_changed_operations d = []"
    "sd_info_changes d = infoChanges old new1"
    "sd_changed d \<longleftrightarrow> \<not> sd_complete d \<or> sd_added_operations d \<noteq> [] \<or> sd_removed_operations d \<noteq> [] \<or>
       sd_changed_operations d \<noteq> [] \<or> sd_info_changes d \<noteq> [] \<or> \<not> deep_eq_opt (map_of old ''servers'') (map_of new1 ''servers'')"
proof -
  obtain before after whole where f: "folded digest unitLimit unchecked old new1 = (before, after, whole)"
    by (rule prod_cases3)
  note def = d [unfolded diffSpecDocuments_def f Let_def prod.case filter_keys set_map folded_keys [OF f]]
  show "sd_added_operations d = map refOf (filter (\<lambda>k. k \<notin> set (keys_of old)) (keys_of new1))"
    "sd_removed_operations d = map refOf (filter (\<lambda>k. k \<notin> set (keys_of new1)) (keys_of old))"
    "sd_potentially_breaking d = sd_removed_operations d"
    "sd_added_paths d = filter (\<lambda>p. p \<notin> set (pathsOf old)) (pathsOf new1)"
    "sd_removed_paths d = filter (\<lambda>p. p \<notin> set (pathsOf new1)) (pathsOf old)"
    "sd_complete d = snd (snd (folded digest unitLimit unchecked old new1))"
    "\<not> sd_complete d \<Longrightarrow> sd_changed_operations d = []"
    "sd_info_changes d = infoChanges old new1"
    "sd_changed d \<longleftrightarrow> \<not> sd_complete d \<or> sd_added_operations d \<noteq> [] \<or> sd_removed_operations d \<noteq> [] \<or>
       sd_changed_operations d \<noteq> [] \<or> sd_info_changes d \<noteq> [] \<or> \<not> deep_eq_opt (map_of old ''servers'') (map_of new1 ''servers'')"
    by (simp_all add: def f)
qed

text \<open>
  The operations a comparison lists as added and removed depend neither on its budget nor on whether
  the documents were checked, and reversing the comparison swaps them: what an update adds is, in the same
  order, what the rollback removes. A comparison that could not be completed says that something changed,
  and reports no changed operation.
\<close>

theorem spec_diff_operations_mirror:
  "sd_added_operations (diffSpecDocuments digest l u old new1) = sd_removed_operations (diffSpecDocuments digest' l' u' new1 old) \<and>
   sd_potentially_breaking (diffSpecDocuments digest l u old new1) = sd_removed_operations (diffSpecDocuments digest l u old new1) \<and>
   sd_added_paths (diffSpecDocuments digest l u old new1) = sd_removed_paths (diffSpecDocuments digest' l' u' new1 old) \<and>
   (if sd_complete (diffSpecDocuments digest l u old new1) then \<not> u
    else sd_changed (diffSpecDocuments digest l u old new1) \<and> sd_changed_operations (diffSpecDocuments digest l u old new1) = [])"
proof -
  have "\<not> u" if "snd (snd (folded digest l u old new1))" using that by (auto simp: folded_def Let_def split: if_splits)
  then show ?thesis unfolding diff_fields(1-5) [OF refl] using diff_fields(6,7,9) [OF refl, of digest l u old new1] by auto
qed

subsection \<open>A document compared with itself\<close>

lemma wf_lookup: "json_wf (JObj m) \<Longrightarrow> map_of m k = Some v \<Longrightarrow> json_wf v"
  by (auto simp: list_all_iff dest!: map_of_SomeD)

lemma memberChanges_self: "(\<And>k v. map_of m k = Some v \<Longrightarrow> json_wf v) \<Longrightarrow> memberChanges m m = []"
  by (auto simp: memberChanges_def filter_empty_conv list_ex_iff intro!: deep_eq_opt_refl)

lemma plain_list_parameters:
  "kp_parameter ` set (plain_list digest document loc inherited parameters) \<subseteq> set (as_list parameters)"
  by (auto simp: plain_list_def keyed_plainly_def Let_def dest: set_zip_rightD)

lemma folded_operation_wf:
  assumes "json_wf (JObj item)" "json_wf (JObj operation)"
    and "map_of (folded_operation digest document (path, item, key, operation)) k = Some v"
  shows "json_wf v"
proof -
  have params: "json_wf x" if "x \<in> set (as_list (map_of m ''parameters''))" "json_wf (JObj m)" for x m
  proof (cases "map_of m ''parameters''")
    case (Some w)
    then show ?thesis using that wf_lookup [OF that(2) Some] by (cases w) (auto simp: list_all_iff)
  qed (use that in simp)
  define eff where "eff = canonicalParameters (mergeOpenApiParameters
       (plain_list digest document [''paths'', path, ''parameters''] True (map_of item ''parameters''))
       (plain_list digest document [''paths'', path, key, ''parameters''] False (map_of operation ''parameters'')))"
  have "set eff \<subseteq> set (as_list (map_of item ''parameters'')) \<union> set (as_list (map_of operation ''parameters''))"
    using plain_list_parameters [of digest document "[''paths'', path, ''parameters'']" True "map_of item ''parameters''"]
      plain_list_parameters [of digest document "[''paths'', path, key, ''parameters'']" False "map_of operation ''parameters''"]
    unfolding eff_def canonicalParameters_def mergeOpenApiParameters_def Let_def by auto
  then have eff: "json_wf (JArr eff)" using params assms(1,2) by (auto simp: list_all_iff)
  have "v = JArr eff \<or> (k, v) \<in> set operation"
    using assms(3) unfolding folded_operation_def prod.case eff_def [symmetric]
    by (auto simp: normalized_def Let_def map_add_Some_iff split: if_splits option.splits json.splits dest!: map_of_SomeD)
  then show ?thesis using eff assms(2) by (auto simp: list_all_iff)
qed

lemma put_slots_values:
  "map_of (put_slots f slots ops) k = Some v \<Longrightarrow> map_of ops k = Some v \<or> (\<exists>slot\<in>set slots. v = f slot)"
proof (induction slots arbitrary: ops)
  case (Cons slot slots)
  obtain path item key operation where slot: "slot = (path, item, key, operation)" by (rule prod_cases4)
  show ?case using Cons.IH Cons.prems slot by (fastforce split: if_splits)
qed simp

lemma omap_wf_put_slots: "omap_wf ops \<Longrightarrow> omap_wf (put_slots f slots ops)"
proof (induction slots arbitrary: ops)
  case (Cons slot slots)
  then show ?case by (cases slot rule: prod_cases4) simp
qed simp

lemma item_slots_mem:
  "(path, item, key, operation) \<in> set (item_slots p i keys) \<Longrightarrow>
     path = p \<and> item = i \<and> map_of i key = Some (JObj operation)"
  by (induction keys) (auto split: option.splits json.splits)

lemma slots_wf:
  assumes "json_wf (JObj document)" "(path, item, key, operation) \<in> set (slots_of (paths_of document))"
  shows "json_wf (JObj item)" "json_wf (JObj operation)"
proof -
  have "json_wf (JObj (paths_of document))"
    using wf_lookup [OF assms(1), of "''paths''"] by (auto simp: paths_of_def split: option.splits json.splits)
  moreover have "\<exists>p. (p, JObj item) \<in> set (paths_of document) \<and> map_of item key = Some (JObj operation)"
    using assms(2) by (auto simp: slots_of_def split: json.splits dest!: item_slots_mem)
  then obtain p where p: "(p, JObj item) \<in> set (paths_of document)" and o1: "map_of item key = Some (JObj operation)"
    by blast
  ultimately show i: "json_wf (JObj item)" by (force simp: list_all_iff)
  show "json_wf (JObj operation)" by (rule wf_lookup [OF i o1])
qed

text \<open>
  A document compared with itself shows nothing: no operation added, removed or changed, no change of
  information or servers; the comparison says \<open>changed\<close> only when it could not be completed.
\<close>

theorem spec_diff_self:
  assumes "json_wf (JObj document)"
  shows "sd_added_operations (diffSpecDocuments digest l u document document) = [] \<and>
    sd_removed_operations (diffSpecDocuments digest l u document document) = [] \<and>
    sd_changed_operations (diffSpecDocuments digest l u document document) = [] \<and>
    sd_info_changes (diffSpecDocuments digest l u document document) = [] \<and>
    sd_changed (diffSpecDocuments digest l u document document) =
      (\<not> sd_complete (diffSpecDocuments digest l u document document))"
proof -
  obtain before after whole where f: "folded digest l u document document = (before, after, whole)" by (rule prod_cases3)
  let ?ops = "put_slots (folded_operation digest document) (slots_of (paths_of document)) []"
  have ops: "before = ?ops \<and> after = ?ops" if w: whole
  proof -
    obtain s0 s1 s2 where "operationsOf digest l document s0 = Some (before, s1)" "operationsOf digest l document s1 = Some (after, s2)"
      using f w by (auto simp: folded_def Let_def split: if_splits option.splits)
    then show ?thesis using operationsOf_plain by blast
  qed
  have nil: "memberChanges v v = []" if found: "map_of ?ops k = Some v" for k v
  proof (rule memberChanges_self)
    obtain slot where slot: "slot \<in> set (slots_of (paths_of document))" "v = folded_operation digest document slot"
      using put_slots_values [OF found] by auto
    obtain path item key operation where sl: "slot = (path, item, key, operation)" by (rule prod_cases4)
    note wf = slots_wf [OF assms slot(1) [unfolded sl]]
    show "json_wf x" if member: "map_of v j = Some x" for j x
      by (rule folded_operation_wf [OF wf]) (use member slot(2) sl in simp)
  qed
  have d: "distinct (map fst ?ops)" using omap_wf_put_slots [of "[]"] by (simp add: omap_wf_def)
  have "sd_changed_operations (diffSpecDocuments digest l u document document) = []"
  proof (cases whole)
    case True
    have "map_of before (fst e) = Some (snd e)" if "e \<in> set after" for e
      using that d ops [OF True] by (simp add: map_of_distinct_mem)
    then show ?thesis using nil ops [OF True] True
      by (fastforce simp: diffSpecDocuments_def f Let_def List.map_filter_def filter_empty_conv split: option.splits)
  qed (simp add: diffSpecDocuments_def f Let_def)
  moreover have "deep_eq_opt (map_of document ''servers'') (map_of document ''servers'')"
    using wf_lookup [OF assms] by (intro deep_eq_opt_refl)
  moreover have "infoChanges document document = []" by (simp add: infoChanges_def List.map_filter_def)
  ultimately show ?thesis using diff_fields(8,9) [OF refl, of digest l u document document] by (simp add: diff_fields(1,2) [OF refl])
qed

definition example_document :: fields where
  "example_document = [(''paths'', JObj [(''/x'', JObj [(''get'', JObj [(''summary'', JStr ''s'')])])])]"

theorem spec_diff_self_witness:
  "sd_changed_operations (diffSpecDocuments id MAX_SPEC_DIFF_UNITS False example_document example_document) = []"
  using spec_diff_self [of example_document id MAX_SPEC_DIFF_UNITS False] by (simp add: example_document_def)

subsection \<open>Folding parameters\<close>

text \<open>Sorting does not see where an element with a key of its own stands.\<close>

lemma sort_key_unique_position:
  assumes "A @ B = C @ D" "\<And>y. y \<in> set (A @ B) \<Longrightarrow> f y \<noteq> f x"
  shows "sort_key f (A @ x # B) = sort_key f (C @ x # D)"
proof (rule properties_for_sort_key)
  have m: "mset A + mset B = mset C + mset D" using arg_cong [OF assms(1), of mset] by simp
  then show "mset (sort_key f (C @ x # D)) = mset (A @ x # B)" by simp
  show "filter (\<lambda>y. f k = f y) (sort_key f (C @ x # D)) = filter (\<lambda>y. f k = f y) (A @ x # B)"
    if "k \<in> set (sort_key f (C @ x # D))" for k
  proof -
    have CD: "\<And>y. y \<in> set (C @ D) \<Longrightarrow> f y \<noteq> f x" using assms by metis
    have flip: "filter (\<lambda>y. v = f y) xs = filter (\<lambda>y. f y = v) xs" for v xs by (rule filter_cong) auto
    show ?thesis
    proof (cases "f k = f x")
      case True
      have "filter (\<lambda>y. f y = f x) (A @ B) = []" "filter (\<lambda>y. f y = f x) (C @ D) = []"
        using assms(2) CD by (auto simp: filter_empty_conv)
      then show ?thesis by (simp add: flip sort_key_stable True)
    next
      case False
      have "filter (\<lambda>y. f y = f k) (A @ B) = filter (\<lambda>y. f y = f k) (C @ D)" using assms(1) by simp
      then show ?thesis using False by (simp add: flip sort_key_stable)
    qed
  qed
qed simp

lemma map_sort_key: "map h (sort_key (\<lambda>x. f (h x)) xs) = sort_key f (map h xs)"
proof -
  have "map h (insort_key (\<lambda>x. f (h x)) x ys) = insort_key f (h x) (map h ys)" for x ys by (induction ys) auto
  then show ?thesis by (induction xs) (auto simp: sort_key_def)
qed

text \<open>What a canonical list is made of: the key and the parameter of its entries.\<close>

definition core :: "keyed_parameter \<Rightarrow> string option \<times> json" where
  "core e = (kp_key e, kp_parameter e)"

lemma canonical_core:
  "canonicalParameters ps = map snd (sort_key (\<lambda>c. the (fst c)) (filter (\<lambda>c. fst c \<noteq> None) (map core ps)) @
     filter (\<lambda>c. fst c = None) (map core ps))"
proof -
  have f: "filter (\<lambda>c. P (fst c)) (map core ps) = map core (filter (\<lambda>e. P (kp_key e)) ps)" for P
    by (induction ps) (auto simp: core_def)
  have "map core (sort_key (\<lambda>e. the (kp_key e)) xs) = sort_key (\<lambda>c. the (fst c)) (map core xs)" for xs
    using map_sort_key [of core "\<lambda>c. the (fst c)" xs] by (simp add: core_def)
  moreover have "map kp_parameter xs = map snd (map core xs)" for xs by (simp add: core_def)
  ultimately show ?thesis by (simp add: canonicalParameters_def f [of "\<lambda>k. k \<noteq> None", simplified] f [of "\<lambda>k. k = None"] del: map_map)
qed

definition parameter_keys :: "keyed_parameter list \<Rightarrow> string set" where
  "parameter_keys ps = {k. \<exists>e\<in>set ps. kp_key e = Some k}"

lemma overridden_keys: "set (List.map_filter kp_key ps) = parameter_keys ps"
  by (force simp: List.map_filter_def parameter_keys_def image_iff)

lemma canonical_move:
  assumes "map core (A @ B) = map core (C @ D)" "core p = core q" "kp_key p = Some k" "k \<notin> parameter_keys (A @ B)"
  shows "canonicalParameters (A @ p # B) = canonicalParameters (C @ q # D)"
proof -
  let ?F = "\<lambda>xs. filter (\<lambda>c. fst c \<noteq> None) (map core xs)"
  have q: "kp_key q = Some k" using assms(2,3) by (simp add: core_def)
  have "sort_key (\<lambda>c. the (fst c)) (?F A @ core p # ?F B) = sort_key (\<lambda>c. the (fst c)) (?F C @ core p # ?F D)"
  proof (rule sort_key_unique_position)
    show "?F A @ ?F B = ?F C @ ?F D" using arg_cong [OF assms(1), of "filter (\<lambda>c. fst c \<noteq> None)"] by simp
    show "the (fst y) \<noteq> the (fst (core p))" if "y \<in> set (?F A @ ?F B)" for y
      using that assms(3,4) by (auto simp: core_def parameter_keys_def)
  qed
  moreover have "filter (\<lambda>c. fst c = None) (map core A) @ filter (\<lambda>c. fst c = None) (map core B) =
      filter (\<lambda>c. fst c = None) (map core C) @ filter (\<lambda>c. fst c = None) (map core D)"
    using arg_cong [OF assms(1), of "filter (\<lambda>c. fst c = None)"] by simp
  moreover have "fst (core p) = Some k" using assms(3) by (simp add: core_def)
  ultimately show ?thesis unfolding canonical_core using assms(2) by simp
qed

text \<open>
  C35. What the comparison sees of an operation's parameters follows OpenAPI's inheritance. Moving a
  parameter with an identity of its own from the path item to the operation, or back, in whatever position,
  is no change; and a path-item parameter the operation overrides is without effect, so removing it is no
  change either.
\<close>

theorem parameters_fold_soundly:
  assumes "kp_key p = Some k" "core q = core p" "k \<notin> parameter_keys (S1 @ S2 @ O1 @ O2)"
    and "kp_key r = Some j" "j \<in> parameter_keys own"
  shows "canonicalParameters (mergeOpenApiParameters (S1 @ p # S2) (O1 @ O2)) =
      canonicalParameters (mergeOpenApiParameters (S1 @ S2) (O1 @ q # O2)) \<and>
    canonicalParameters (mergeOpenApiParameters (S1 @ r # S2) own) = canonicalParameters (mergeOpenApiParameters (S1 @ S2) own)"
proof
  let ?ok = "\<lambda>K e. case kp_key e of None \<Rightarrow> True | Some k \<Rightarrow> k \<notin> K"
  let ?O = "parameter_keys (O1 @ O2)"
  have q: "kp_key q = Some k" using assms(1,2) by (simp add: core_def)
  have keys: "parameter_keys (O1 @ q # O2) = insert k ?O" using q by (auto simp: parameter_keys_def)
  have same: "filter (?ok (insert k ?O)) S = filter (?ok ?O) S" if "set S \<subseteq> set (S1 @ S2)" for S
    using that assms(3) by (intro filter_cong) (auto simp: parameter_keys_def split: option.splits)
  have "k \<notin> ?O" using assms(3) by (auto simp: parameter_keys_def)
  then have l: "mergeOpenApiParameters (S1 @ p # S2) (O1 @ O2) = filter (?ok ?O) S1 @ p # (filter (?ok ?O) S2 @ O1 @ O2)"
    using assms(1) unfolding mergeOpenApiParameters_def Let_def overridden_keys by simp
  have r: "mergeOpenApiParameters (S1 @ S2) (O1 @ q # O2) = (filter (?ok ?O) S1 @ filter (?ok ?O) S2 @ O1) @ q # O2"
    using same [of S1] same [of S2] unfolding mergeOpenApiParameters_def Let_def overridden_keys keys by simp
  show "canonicalParameters (mergeOpenApiParameters (S1 @ p # S2) (O1 @ O2)) =
      canonicalParameters (mergeOpenApiParameters (S1 @ S2) (O1 @ q # O2))"
    unfolding l r by (rule canonical_move [OF _ assms(2) [symmetric] assms(1)])
      (use assms(3) in \<open>auto simp: parameter_keys_def\<close>)
  show "canonicalParameters (mergeOpenApiParameters (S1 @ r # S2) own) = canonicalParameters (mergeOpenApiParameters (S1 @ S2) own)"
    using assms(4,5) unfolding mergeOpenApiParameters_def Let_def overridden_keys by simp
qed

theorem parameters_fold_soundly_witness:
  "canonicalParameters (mergeOpenApiParameters
      [\<lparr>kp_parameter = JNull, kp_resolution = None, kp_key = Some ''k'', kp_inherited = True\<rparr>] []) =
   canonicalParameters (mergeOpenApiParameters []
      [\<lparr>kp_parameter = JNull, kp_resolution = None, kp_key = Some ''k'', kp_inherited = False\<rparr>])"
proof -
  let ?p = "\<lambda>b. \<lparr>kp_parameter = JNull, kp_resolution = None, kp_key = Some ''k'', kp_inherited = b\<rparr>"
  show ?thesis
    using parameters_fold_soundly [of "?p True" "''k''" "?p False" "[]" "[]" "[]" "[]" "?p True" "''k''" "[?p False]"]
    by (simp add: core_def parameter_keys_def)
qed

end
