(* ===== verification/Spec2Isabelle.thy ===== *)
theory Spec2Isabelle
  imports Roles Serializer Egress_Policy Sso_Mapping Lru_Cache Transaction_Retry Read_Access Approval_Safety Rollback_Loops Sweep Recovery_Safety Worker Stranded_Repair Teardown_Done Reset_Safety Spec_Diff
begin

text \<open>
  A verification development of the server of Ferrum Nexus, a portal in front of an API gateway.

  \<^bold>\<open>The program.\<close> Providers publish APIs, consumers ask for access to them, owners decide, and the portal
  makes the decision true on the gateway: an approved identity's gateway consumer carries ACL groups, a
  revoked one's does not. Several instances of the server share one SQL database and one gateway. What
  keeps them apart is, from the inside out: the compare-and-set updates of the repositories
  (\<open>server/src/db/adapters\<close>), a queue per key inside a process and a lease per key between processes
  (\<open>server/src/lib/keyed-serializer.ts\<close>), a fence that refuses a transaction whose lease was taken over
  (\<open>server/src/lib/lease-fence.ts\<close>), and a durable row per owed gateway change
  (\<open>access_gateway_jobs\<close>) that a worker (\<open>server/src/access/gateway-job-worker.ts\<close>) finishes when the
  request that wrote it did not. Two more durable tables follow the same pattern: \<open>gateway_teardown_jobs\<close>,
  what a disabled account owes at the gateway, and \<open>email_outbox\<close>, messages to hand to the mail relay,
  each with a worker of its own. Around this core stand the errors every component answers with, the
  roles, the reading rule of the catalog, the policy that decides whether a backend may be published at
  all, single sign-on, a cache and the comparison of API documents.

  \<^bold>\<open>Conventions.\<close> A TypeScript function that may throw returns a sum, \<open>Inl\<close> being what it throws; an
  object is a record, a closed union a datatype, a \<open>Map\<close> an association list in insertion order
  (\<open>omap\<close>), \<open>null\<close> and \<open>undefined\<close> are \<open>None\<close>. Times are milliseconds, numbers of parsed documents
  rationals, with the rounding of doubles written out where the source depends on it. Strings are lists
  of 8-bit characters: a code unit above 255 is outside the model. \<open>nowIso()\<close>, \<open>newId()\<close>, random numbers
  and settings are arguments. Definitions keep the names of the source; a method of a repository is
  prefixed with the repository (\<open>grants_updateIfStatus\<close>).

  \<^bold>\<open>Foundations.\<close>
  \<^item> \<open>Prelude\<close>: the collections of rewrite rules, fallible composition, JavaScript's strings and ordered maps.
  \<^item> \<open>Json\<close>: values of \<open>JSON.parse\<close>, own properties, deep equality. \<open>Js_Time\<close>: doubles, \<open>Date.UTC\<close> and
    decimal text.
  \<^item> \<open>Errors\<close>: \<open>lib/errors.ts\<close>, \<open>shared/src/error-codes.ts\<close> and the error handler. A response always has
    an error status and a closed code, and a foreign server error does not leak its message; the message
    of an error built with \<open>INTERNAL\<close> does reach the client, against the comment on \<open>internal\<close>.
  \<^item> \<open>Roles\<close>: \<open>shared/src/roles.ts\<close>; the order of roles and what it confers.

  \<^bold>\<open>Ordering.\<close>
  \<^item> \<open>Lease\<close>: the table \<open>edge_leases\<close> of the three SQL adapters. The locale \<open>lease_contract\<close> says what an
    adapter promises; SQLite, PostgreSQL and MySQL interpret it, MySQL's two statements after they are
    shown equal to one upsert, with anything the others do between them.
  \<^item> \<open>Lease_Fence\<close>: held leases, the \<open>AsyncLocalStorage\<close> context as an explicit list, the fenced
    transaction. A commit inside a section proves its key was still its own; a stale section is rolled back.
  \<^item> \<open>Serializer\<close>: the in-process queue as a step relation (at most one running call per key, first come
    first served, no queue left behind), the acquisition loop on an explicit schedule of attempts, and
    the lock keys. The schedule is long enough once it has an attempt past the waiting time:
    \<open>takeLease_returns\<close> states that the loop then has answered.
  \<^item> \<open>Transaction_Retry\<close>: the retry of SQL transactions and the gate before MongoDB's; attempts are an
    argument, and the loop returns within its number of them.

  \<^bold>\<open>Access.\<close>
  \<^item> \<open>Entities\<close>, \<open>Store\<close>: rows, ACL group names, and the SQLite repositories with the constraints of the
    migrations. The locale \<open>cas_repo\<close> is the compare-and-set \<open>updateIfStatus\<close>; requests and grants
    interpret it. Races have one winner, a claimed job fences its older owners, every call keeps the schema.
  \<^item> \<open>Read_Access\<close>: \<open>catalog/read-access.ts\<close>; who lists and opens an API, one by one and in batches.
  \<^item> \<open>Io\<close>: programs over an environment and a world. The environment decides, for every numbered call, what
    the other instances do to the store before it, whether the store refuses or loses the acknowledgement
    of a commit, whether a key is ever free, what the gateway answers, what the clock reads. A world has
    the store, the writes sent to the gateway and to the mail relay, in order, and the number of the next
    call. \<open>hoare\<close> triples have one
    post-condition for returning and one for throwing; \<open>stable\<close> assertions survive the others. \<open>Keeping\<close>
    has the rules for invariants, which look the same on every exit.
  \<^item> \<open>Consumers\<close>: \<open>credentials/consumers.ts\<close>, the read-modify-write of a consumer's groups under its key.
  \<^item> \<open>Access\<close>: the rules and transactions of \<open>access/service.ts\<close>: who decides, what may be asked for, the
    daily budget, creation and cancellation.
  \<^item> \<open>Approval\<close>, \<open>Approval_Safety\<close>: \<open>approve\<close> and \<open>approveTools\<close> with claim, gateway write, commit and
    compensation. However an approval ends, the identity is as before, or granted, or its job is left for
    the worker; nothing is stranded on the gateway. The others are assumed (\<open>fair_env\<close>) to leave alone
    the rows the approval's keys order.
  \<^item> \<open>Revocation\<close>, \<open>Revocation_Safety\<close>: \<open>withdrawGrant\<close> with its rollback, and \<open>revokeAllForUser\<close>. The same
    for a withdrawal (\<open>patient_env\<close>), and a rollback reactivates only who is still entitled.
  \<^item> \<open>Rollback_Loops\<close>: the rollback's loops retry until the clock has passed the lease's time to live. They
    take fuel; with a clock that advances by a millisecond or more at every reading, the time to live
    in milliseconds and two rounds more are enough, and more fuel changes nothing.
  \<^item> \<open>Sweep\<close>: the sweep of an account fails closed, provided nobody reactivates its grants meanwhile
    (\<open>never_reactivates\<close>).
  \<^item> \<open>Recovery\<close>, \<open>Recovery_Safety\<close>: \<open>recoverGatewayJob\<close>. Recovery adds no access (\<open>grants_at_rest\<close>: the
    others leave the grants alone), a worker whose claim was taken over writes nothing, and a recovered
    revocation ends with the removal acknowledged or with the job still there (\<open>still_env\<close>).
  \<^item> \<open>Worker\<close>: a tick of the worker accounts for every row it claims, and its delays are bounded.
  \<^item> \<open>Paging\<close>, \<open>Stranded_Repair\<close>: scans by key and by offset, and \<open>access/stranded-repair.ts\<close>, the one-off
    repair of decisions made before the durable jobs existed. What it returns after has been queued, with
    other instances at work meanwhile; undisturbed, it returns. A scan takes fuel, one unit per page; the
    number of rows and one more are enough, which \<open>repair_completes\<close> states.

  \<^bold>\<open>Accounts and mail.\<close>
  \<^item> \<open>Outbox\<close>, \<open>Outbox_Worker\<close>, \<open>Outbox_Safety\<close>: the repository of \<open>email_outbox\<close>, \<open>email/sealed-outbox.ts\<close> and
    \<open>email/outbox-worker.ts\<close>. A message the relay accepted is never queued again, nothing is sent to an
    address its account has given up, a sealed message opens to what was sealed and under no other row, and
    a tick accounts for every message. The cipher is a pair of arguments with its law as a hypothesis
    (\<open>authenticated\<close>); the others leave the claimed row (\<open>minds_mail\<close>) or the accounts (\<open>minds_users\<close>) alone.
  \<^item> \<open>Accounts\<close>: the SQLite repositories of accounts, sessions, tokens, organizations, credential rows,
    registered identities and teardown jobs.
  \<^item> \<open>Teardown\<close>, \<open>Teardown_Worker\<close>: the part of \<open>credentials/service.ts\<close> that strips a disabled account at
    the gateway and restores an enabled one, and \<open>credentials/teardown-worker.ts\<close>. The id the gateway
    derives from a name is an argument. Listings take fuel, one unit per page.
  \<^item> \<open>Users\<close>, \<open>Accounts_Safety\<close>: \<open>users/service.ts\<close>. The portal keeps an active super admin, only super
    admins confer or remove administrator power, and a released address gets no more mail; the others keep
    the rule at hand too (\<open>rule_kept\<close>). The SSO rule for promotions and the password functions are arguments.
  \<^item> \<open>Teardown_Safety\<close>, \<open>Teardown_Done\<close>: a disabled account always has a revocation on record, and a row says
    done only after every consumer the account owned or had a credential on was absent, deleted or stripped,
    whatever the gateway and the store answer. The others keep the rule (\<open>owed_kept\<close>) and, while an attempt
    runs, the account's own rows (\<open>minds_account\<close>).

  \<^bold>\<open>Sign-in.\<close>
  \<^item> \<open>Auth_Store\<close>: the repositories behind it: accounts and sessions by their keys, single-use links and the
    claims that ration them, proofs of an address, password locks, owed recoveries, settings.
  \<^item> \<open>Sessions\<close>, \<open>Sessions_Safety\<close>: \<open>auth/session-lifetime.ts\<close>, the hooks and guards of
    \<open>middleware/auth-plugin.ts\<close>, the issuing of a session and \<open>auth/expiry-sweep.ts\<close>. A request is admitted
    only on a live session of an active account, and the sweep changes no such decision.
  \<^item> \<open>Sso_Config\<close>: the schema of a provider (\<open>sso/config.ts\<close>) as a function of the stored JSON; what it
    accepts, it accepts again.
  \<^item> \<open>Settings\<close>, \<open>Captcha\<close>, \<open>Settings_Safety\<close>: \<open>lib/setting-generation.ts\<close>, with the reads of a setting as a
    tree of requests (\<open>reader\<close>), the policies (\<open>sso/settings.ts\<close>) and \<open>auth/captcha.ts\<close>. A bound read is
    of one generation, if no row goes back to an earlier value with the same stamp (\<open>generations\<close>); a
    challenge fails closed. The cipher and the vendor are arguments.
  \<^item> \<open>Auth\<close>, \<open>Auth_Safety\<close>, \<open>Reset_Safety\<close>: \<open>auth/service.ts\<close>: registration and the founder's seat, sign-in,
    mailed links, the redemption of a reset. A sign-in commits only what the account is entitled to at that
    moment, nobody registers into power, a reset ends what came before, links are rationed. What a program
    read before its first write is a state the others alone could bring about (\<open>by_others\<close>). The hash and
    password functions, the challenge and the mail hooks are arguments. \<open>cancel_rounds\<close> takes fuel, a unit per
    page; the number of pending requests and one are enough (\<open>cancel_pending_Inr\<close>).

  \<^bold>\<open>Around the core.\<close>
  \<^item> \<open>Egress_Policy\<close>: \<open>ferrum-admin/egress-policy.ts\<close>, from the gateway's JSON to the admission of a write. A
    write counts as public-only only if the attestation is complete, fresh, settled and consistent.
  \<^item> \<open>Sso_Mapping\<close>: \<open>sso/mapping.ts\<close>, claims to role, organization, address and name.
  \<^item> \<open>Lru_Cache\<close>: \<open>lib/lru-cache.ts\<close>, refined to "the longest run of most recent entries that fits both
    bounds".
  \<^item> \<open>Openapi\<close>: \<open>shared/src/openapi.ts\<close>. The memoising, iterative resolver of references agrees with a walk
    that remembers only its own path; both recursions end because a reference already on the chain stops
    them and a document has finitely many. A parameter's key is its identity.
  \<^item> \<open>Spec_Diff\<close>: \<open>publishing/spec-diff.ts\<close> and \<open>spec-keys.ts\<close>, the comparison of two documents on a
    budget. SHA-256 is the argument \<open>digest\<close>; that it separates the texts at hand is a hypothesis where
    it is needed.

  \<^bold>\<open>Not modelled.\<close> Notices, decoration of listings and the free text of audit rows; timers, logging and
  test counters; the MongoDB adapter, beyond its retry gate, and the SQL repositories the modelled services
  do not use; the gateway's HTTP client, whose answers are the environment's; publishing, the issuing and
  rotation of credentials, applications, messaging, the SMTP client and its templates, metrics and
  migrations; the routes, configuration and web client. Of sign-in, the floor that hides how long an answer
  took, and the exchanges with an identity provider with the linking and provisioning that follow them,
  which rest on cryptographic libraries and other services.

  \<^bold>\<open>Plan.\<close> Next are the revocation a password reset owes (\<open>credentials/account-recovery.ts\<close>, with a worker
  of the same pattern), the deletion of applications and the emergency operations of a super admin (which
  call \<open>revokeAllForUser\<close>), and the issuing and rotation of credentials.
\<close>

end
